(* ===== verification/Prelude.thy ===== *)
theory Prelude
  imports Main "HOL-Library.Char_ord" "HOL-Library.List_Lexorder"
    "HOL-Library.Multiset" "HOL-Library.Monad_Syntax"
begin

text \<open>
  Shared notions of the development: Python values that cross component borders (JSON
  documents, time), the result type of code that may raise, string helpers of the
  standard library the sources use, and the generic lemmas the component theories share.

  A Python \<open>str\<close> is a \<^typ>\<open>string\<close>; strings are compared by code point, which is the
  lexicographic order of \<^theory_text>\<open>List_Lexorder\<close> over \<^theory_text>\<open>Char_ord\<close>.
  An aware UTC \<open>datetime\<close> is an \<^typ>\<open>int\<close>: the microseconds since 1970-01-01, and a
  \<open>timedelta\<close> is a difference of those.
\<close>

named_theorems result_simps "case analysis of results"

subsection \<open>Time\<close>

type_synonym time = int
type_synonym timedelta = int

definition seconds :: "int \<Rightarrow> timedelta" where
  "seconds n = n * 1000000"

definition minutes :: "int \<Rightarrow> timedelta" where
  "minutes n = seconds (60 * n)"

text \<open>\<open>int(value.timestamp())\<close> of a time after 1970: the whole seconds.\<close>

definition epoch :: "time \<Rightarrow> int" where
  "epoch t = t div 1000000"

lemma epoch_mono: "a \<le> b \<Longrightarrow> epoch a \<le> epoch b"
  by (simp add: epoch_def zdiv_mono1)

lemma epoch_seconds [simp]: "epoch (seconds n) = n"
  by (simp add: epoch_def seconds_def)

lemma epoch_add_seconds [simp]: "epoch (t + seconds n) = epoch t + n"
  by (simp add: epoch_def seconds_def)

lemma minutes_pos [simp]: "minutes n \<le> 0 \<longleftrightarrow> n \<le> 0" "0 < minutes n \<longleftrightarrow> 0 < n"
  by (simp_all add: minutes_def seconds_def)

lemma seconds_pos [simp]: "0 < seconds n \<longleftrightarrow> 0 < n"
  by (simp add: seconds_def)

subsection \<open>JSON documents\<close>

text \<open>
  What \<open>json.loads\<close> returns and what the handlers read with \<open>get\<close> and
  \<open>isinstance\<close>. \<open>type(x) is int\<close> tells an integer from a boolean, so they are two
  constructors; a float keeps its numerator over a million, which no component reads.
\<close>

datatype json =
  JNull
| JBool bool
| JInt int
| JFloat int
| JStr string
| JList "json list"
| JObj "(string \<times> json) list"

text \<open>\<open>value.get(key)\<close>: absent and \<open>None\<close> both read as \<open>None\<close>.\<close>

definition get_key :: "(string \<times> json) list \<Rightarrow> string \<Rightarrow> json" where
  "get_key fields k = (case map_of fields k of Some v \<Rightarrow> v | None \<Rightarrow> JNull)"

definition get_default :: "(string \<times> json) list \<Rightarrow> string \<Rightarrow> json \<Rightarrow> json" where
  "get_default fields k d = (case map_of fields k of Some v \<Rightarrow> v | None \<Rightarrow> d)"

fun as_str :: "json \<Rightarrow> string option" where
  "as_str (JStr s) = Some s"
| "as_str _ = None"

fun as_int :: "json \<Rightarrow> int option" where
  "as_int (JInt i) = Some i"
| "as_int _ = None"

lemma as_str_Some [simp]: "as_str j = Some s \<longleftrightarrow> j = JStr s"
  by (cases j) auto

lemma as_int_Some [simp]: "as_int j = Some i \<longleftrightarrow> j = JInt i"
  by (cases j) auto

lemma get_key_Nil [simp]: "get_key [] k = JNull"
  by (simp add: get_key_def)

lemma get_key_Cons [simp]: "get_key ((k', v) # xs) k = (if k = k' then v else get_key xs k)"
  by (simp add: get_key_def)

text \<open>
  An attribute of a DynamoDB item as it crosses the wire, \<open>{"S": text}\<close> or
  \<open>{"N": digits}\<close>; the digits are always \<open>str(int)\<close> of a Python \<open>int\<close>, so the
  number itself is kept.
\<close>

datatype attr = AttrS string | AttrN int

subsection \<open>Results\<close>

type_synonym ('e, 'a) result = "'e + 'a"

definition is_ok :: "('e, 'a) result \<Rightarrow> bool" where
  "is_ok r = (case r of Inl _ \<Rightarrow> False | Inr _ \<Rightarrow> True)"

lemma is_ok_simps [simp, result_simps]: "is_ok (Inr x)" "\<not> is_ok (Inl e)"
  by (simp_all add: is_ok_def)

lemma is_ok_iff: "is_ok r \<longleftrightarrow> (\<exists>x. r = Inr x)"
  by (cases r) auto

text \<open>The next statement of a function whose previous one may raise.\<close>

definition and_then :: "('e, 'a) result \<Rightarrow> ('a \<Rightarrow> ('e, 'b) result) \<Rightarrow> ('e, 'b) result" where
  "and_then r f = (case r of Inl e \<Rightarrow> Inl e | Inr x \<Rightarrow> f x)"

lemma and_then_simps [simp, result_simps]: "and_then (Inl e) f = Inl e" "and_then (Inr x) f = f x"
  by (simp_all add: and_then_def)

lemma and_then_Inr: "and_then r f = Inr y \<longleftrightarrow> (\<exists>x. r = Inr x \<and> f x = Inr y)"
  by (cases r) simp_all

text \<open>The same, in a function that also threads a state.\<close>

definition trying :: "'s \<Rightarrow> ('e, 'a) result \<Rightarrow> ('a \<Rightarrow> 's \<times> ('e, 'b) result) \<Rightarrow> 's \<times> ('e, 'b) result" where
  "trying s r f = (case r of Inl e \<Rightarrow> (s, Inl e) | Inr x \<Rightarrow> f x)"

lemma trying_simps [simp, result_simps]: "trying s (Inl e) f = (s, Inl e)" "trying s (Inr x) f = f x"
  by (simp_all add: trying_def)

lemma trying_elim:
  assumes "trying s r f = (s', x)"
  obtains (raised) y where "r = Inl y" "s' = s" "x = Inl y"
  | (next_step) v where "r = Inr v" "f v = (s', x)"
  using assms by (cases r) auto

text \<open>
  Python's \<open>==\<close> of two values when one of them is a scalar: a boolean is the number 0 or 1.
\<close>

fun json_number :: "json \<Rightarrow> int option" where
  "json_number (JBool b) = Some (if b then 1000000 else 0)"
| "json_number (JInt i) = Some (i * 1000000)"
| "json_number (JFloat m) = Some m"
| "json_number _ = None"

definition py_eq :: "json \<Rightarrow> json \<Rightarrow> bool" where
  "py_eq a b = (case (json_number a, json_number b) of
     (Some x, Some y) \<Rightarrow> x = y
   | _ \<Rightarrow> a = b)"

lemma py_eq_str [simp]: "py_eq a (JStr s) \<longleftrightarrow> a = JStr s"
  by (cases "json_number a") (simp_all add: py_eq_def)

lemma py_eq_str' [simp]: "py_eq (JStr s) a \<longleftrightarrow> a = JStr s"
  by (cases "json_number a") (auto simp: py_eq_def)

lemma py_eq_refl [simp]: "py_eq a a"
  by (cases "json_number a") (simp_all add: py_eq_def)

subsection \<open>Strings of the standard library\<close>

definition starts_with :: "string \<Rightarrow> string \<Rightarrow> bool" where
  "starts_with s p = (take (length p) s = p)"

definition ends_with :: "string \<Rightarrow> string \<Rightarrow> bool" where
  "ends_with s p = (length p \<le> length s \<and> drop (length s - length p) s = p)"

definition remove_prefix :: "string \<Rightarrow> string \<Rightarrow> string" where
  "remove_prefix s p = (if starts_with s p then drop (length p) s else s)"

definition remove_suffix :: "string \<Rightarrow> string \<Rightarrow> string" where
  "remove_suffix s p =
     (if p \<noteq> [] \<and> ends_with s p then take (length s - length p) s else s)"

lemma starts_with_append [simp]: "starts_with (p @ s) p"
  by (simp add: starts_with_def)

lemma remove_prefix_append [simp]: "remove_prefix (p @ s) p = s"
  by (simp add: remove_prefix_def)

lemma ends_with_append [simp]: "ends_with (s @ p) p"
  by (simp add: ends_with_def)

lemma remove_suffix_append [simp]: "remove_suffix (s @ p) p = s"
  by (simp add: remove_suffix_def)

lemma starts_with_iff: "starts_with s p \<longleftrightarrow> (\<exists>r. s = p @ r)"
  by (metis append_take_drop_id starts_with_append starts_with_def)

lemma ends_with_iff: "ends_with s p \<longleftrightarrow> (\<exists>r. s = r @ p)"
  by (metis append_take_drop_id ends_with_append ends_with_def)

text \<open>The alphabet of Crockford's base 32, shared by sandbox ids, ULIDs and correlation ids.\<close>

definition crockford :: string where
  "crockford = ''0123456789ABCDEFGHJKMNPQRSTVWXYZ''"

lemma length_crockford [simp]: "length crockford = 32"
  by (simp add: crockford_def)

lemma distinct_crockford: "distinct crockford"
  by (simp add: crockford_def)

lemma crockford_nth_eq: "i < 32 \<Longrightarrow> j < 32 \<Longrightarrow> crockford ! i = crockford ! j \<longleftrightarrow> i = j"
  by (simp add: nth_eq_iff_index_eq distinct_crockford)

subsection \<open>Lexicographic order of strings\<close>

lemma less_append_same_length:
  fixes a b x y :: "'a::linorder list"
  assumes "length a = length b"
  shows "a @ x < b @ y \<longleftrightarrow> a < b \<or> a = b \<and> x < y"
  using assms by (induction a b rule: list_induct2) auto

end
