(* ===== verification/Clock.thy ===== *)
theory Clock
  imports Prelude
begin

text \<open>
  \<open>datetime.isoformat()\<close> and its inverse, as the Lambda functions use them: every
  timestamp the record stores as a DynamoDB string is
  \<open>value.isoformat().replace("+00:00", "Z")\<close>, so \<open>YYYY-MM-DDTHH:MM:SS\<close>, then
  \<open>.ffffff\<close> only when the microseconds are not zero, then \<open>Z\<close>. The broker's
  conditions compare those strings, so the order of the strings is part of the protocol:
  \<open>iso_less_of_second\<close> says that it is the order of time from one second to the next,
  \<open>iso_same_second\<close> what it is within a second.
\<close>

subsection \<open>Fixed-width decimal numbers\<close>

definition digit :: "nat \<Rightarrow> char" where
  "digit n = char_of (48 + n)"

fun pad :: "nat \<Rightarrow> nat \<Rightarrow> string" where
  "pad 0 n = []"
| "pad (Suc k) n = pad k (n div 10) @ [digit (n mod 10)]"

lemma length_pad [simp]: "length (pad k n) = k"
  by (induction k n rule: pad.induct) auto

lemma of_char_digit: "n < 10 \<Longrightarrow> of_char (digit n) = 48 + n"
  by (simp add: digit_def)

lemma digit_less: "m < 10 \<Longrightarrow> n < 10 \<Longrightarrow> digit m < digit n \<longleftrightarrow> m < n"
  by (simp add: less_char_def of_char_digit)

lemma pad_mono: "m < n \<Longrightarrow> n < 10 ^ k \<Longrightarrow> pad k m < pad k n"
proof (induction k arbitrary: m n)
  case 0
  then show ?case by simp
next
  case (Suc k)
  show ?case
  proof (cases "m div 10 < n div 10")
    case True
    with Suc have "pad k (m div 10) < pad k (n div 10)" by auto
    then show ?thesis by (simp add: less_append_same_length)
  next
    case False
    moreover have "m div 10 \<le> n div 10" using Suc.prems(1) by (simp add: div_le_mono)
    ultimately have eq: "m div 10 = n div 10" by simp
    then have "m mod 10 < n mod 10"
      using Suc.prems(1) div_mult_mod_eq [of m 10] div_mult_mod_eq [of n 10] by linarith
    with eq show ?thesis by (simp add: less_append_same_length digit_less)
  qed
qed

fun read_digits :: "nat \<Rightarrow> string \<Rightarrow> nat option" where
  "read_digits acc [] = Some acc"
| "read_digits acc (c # cs) =
     (let d = (of_char c :: nat) in
      if 48 \<le> d \<and> d \<le> 57 then read_digits (10 * acc + (d - 48)) cs else None)"

lemma read_digits_append:
  "read_digits a (xs @ ys) = (case read_digits a xs of None \<Rightarrow> None | Some b \<Rightarrow> read_digits b ys)"
  by (induction xs arbitrary: a) (auto simp: Let_def)

lemma read_digits_pad: "n < 10 ^ k \<Longrightarrow> read_digits a (pad k n) = Some (a * 10 ^ k + n)"
proof (induction k arbitrary: n)
  case 0
  then show ?case by simp
next
  case (Suc k)
  then have "n div 10 < 10 ^ k" by auto
  then show ?case
    by (simp add: Suc.IH read_digits_append of_char_digit algebra_simps)
qed

text \<open>\<open>str(n)\<close>, and \<open>f"{n:0kd}"\<close>, which pads to at least \<open>k\<close> digits.\<close>

fun dec :: "nat \<Rightarrow> string" where
  "dec n = (if n < 10 then [digit n] else dec (n div 10) @ [digit (n mod 10)])"

declare dec.simps [simp del]

definition dec_int :: "int \<Rightarrow> string" where
  "dec_int i = (if i < 0 then CHR ''-'' # dec (nat (- i)) else dec (nat i))"

definition zfill :: "nat \<Rightarrow> nat \<Rightarrow> string" where
  "zfill k n = (if n < 10 ^ k then pad k n else dec n)"

text \<open>\<open>f"{i:0kd}"\<close> of an \<open>int\<close>, and \<open>int(text)\<close> of digits with an optional sign.\<close>

definition format_int :: "nat \<Rightarrow> int \<Rightarrow> string" where
  "format_int k i = (if i < 0 then CHR ''-'' # zfill (k - 1) (nat (- i)) else zfill k (nat i))"

definition read_int :: "string \<Rightarrow> int option" where
  "read_int s = (case s of
     [] \<Rightarrow> None
   | c # cs \<Rightarrow>
       if c = CHR ''-'' then (if cs = [] then None else map_option (\<lambda>n. - int n) (read_digits 0 cs))
       else map_option int (read_digits 0 s))"

lemma read_digits_dec: "read_digits 0 (dec n) = Some n"
proof (induction n rule: dec.induct)
  case (1 n)
  show ?case
  proof (cases "n < 10")
    case True
    then show ?thesis by (simp add: dec.simps of_char_digit)
  next
    case False
    with 1 show ?thesis by (subst dec.simps) (simp add: read_digits_append of_char_digit)
  qed
qed

lemma read_digits_zfill: "read_digits 0 (zfill k n) = Some n"
  by (simp add: zfill_def read_digits_pad read_digits_dec)

lemma zfill_Nil [simp]: "0 < k \<Longrightarrow> zfill k n \<noteq> []"
  by (cases k) (simp_all add: zfill_def dec.simps)

lemma read_digits_minus: "read_digits 0 (CHR ''-'' # cs) = None"
  by simp

lemma read_int_format: "1 < k \<Longrightarrow> read_int (format_int k i) = Some i"
proof -
  assume k: "1 < k"
  have "zfill k (nat i) \<noteq> []" using k by simp
  then obtain c cs where c: "zfill k (nat i) = c # cs" by (cases "zfill k (nat i)") auto
  have "c \<noteq> CHR ''-''" using read_digits_zfill [of k "nat i"] read_digits_minus c by (metis option.distinct(1))
  then show ?thesis
    using k c read_digits_zfill [of k "nat i"] read_digits_zfill [of "k - 1" "nat (- i)"]
    by (auto simp: read_int_def format_int_def simp del: read_digits.simps)
qed

lemma dec_inject [simp]: "dec m = dec n \<longleftrightarrow> m = n"
  by (metis option.inject read_digits_dec)

lemma zfill_inject [simp]: "zfill k m = zfill k n \<longleftrightarrow> m = n"
  by (metis option.inject read_digits_zfill)

lemma zfill_mono: "m < n \<Longrightarrow> n < 10 ^ k \<Longrightarrow> zfill k m < zfill k n"
  by (simp add: zfill_def pad_mono)

subsection \<open>The civil calendar\<close>

definition leap :: "nat \<Rightarrow> bool" where
  "leap y = (4 dvd y \<and> (\<not> 100 dvd y \<or> 400 dvd y))"

definition year_len :: "nat \<Rightarrow> nat" where
  "year_len y = (if leap y then 366 else 365)"

definition month_lens :: "nat \<Rightarrow> nat list" where
  "month_lens y = [31, if leap y then 29 else 28, 31, 30, 31, 30, 31, 31, 30, 31, 30, 31]"

lemma year_len_pos [simp]: "0 < year_len y"
  by (simp add: year_len_def)

lemma sum_month_lens [simp]: "sum_list (month_lens y) = year_len y"
  by (simp add: month_lens_def year_len_def)

text \<open>The year that holds a day number, counted from the first of January of \<open>y\<close>.\<close>

function split_year :: "nat \<Rightarrow> nat \<Rightarrow> nat \<times> nat" where
  "split_year y d = (if d < year_len y then (y, d) else split_year (Suc y) (d - year_len y))"
  by pat_completeness auto
termination
proof (relation "measure snd")
  fix y d assume "\<not> d < year_len y"
  moreover have "0 < year_len y" by simp
  ultimately have "d - year_len y < d" by linarith
  then show "((Suc y, d - year_len y), y, d) \<in> measure snd" by simp
qed simp

declare split_year.simps [simp del]

text \<open>The month (from 1) and the day in it (from 1).\<close>

fun split_month :: "nat list \<Rightarrow> nat \<Rightarrow> nat \<Rightarrow> nat \<times> nat" where
  "split_month [] m d = (m, Suc d)"
| "split_month (l # ls) m d = (if d < l then (m, Suc d) else split_month ls (Suc m) (d - l))"

fun day_of_month :: "nat list \<Rightarrow> nat \<Rightarrow> nat \<Rightarrow> nat \<Rightarrow> nat" where
  "day_of_month [] m month day = day - 1"
| "day_of_month (l # ls) m month day =
     (if m = month then day - 1 else l + day_of_month ls (Suc m) month day)"

fun days_before_year :: "nat \<Rightarrow> nat \<Rightarrow> nat" where
  "days_before_year y 0 = 0"
| "days_before_year y (Suc n) = year_len y + days_before_year (Suc y) n"

lemma split_year_ge: "y \<le> fst (split_year y d)"
proof (induction y d rule: split_year.induct)
  case (1 y d)
  then show ?case by (cases "d < year_len y") (auto simp: split_year.simps [of y d])
qed

lemma split_year_len: "snd (split_year y d) < year_len (fst (split_year y d))"
proof (induction y d rule: split_year.induct)
  case (1 y d)
  then show ?case by (cases "d < year_len y") (auto simp: split_year.simps [of y d])
qed

lemma split_year_inverse:
  "days_before_year y (fst (split_year y d) - y) + snd (split_year y d) = d"
proof (induction y d rule: split_year.induct)
  case (1 y d)
  show ?case
  proof (cases "d < year_len y")
    case True
    then show ?thesis by (simp add: split_year.simps [of y d])
  next
    case False
    let ?r = "split_year (Suc y) (d - year_len y)"
    have "Suc y \<le> fst ?r" by (rule split_year_ge)
    then have "fst ?r - y = Suc (fst ?r - Suc y)" by linarith
    moreover from 1 [OF False] False
    have "year_len y + days_before_year (Suc y) (fst ?r - Suc y) + snd ?r = d" by linarith
    ultimately show ?thesis using False by (simp add: split_year.simps [of y d])
  qed
qed

lemma split_year_mono:
  assumes "d < d'"
  shows "fst (split_year y d) < fst (split_year y d') \<or>
    fst (split_year y d) = fst (split_year y d') \<and>
    snd (split_year y d) < snd (split_year y d')"
  using assms
proof (induction y d' arbitrary: d rule: split_year.induct)
  case (1 y d')
  show ?case
  proof (cases "d' < year_len y")
    case True
    with 1(2) show ?thesis by (simp add: split_year.simps [of y])
  next
    case False
    show ?thesis
    proof (cases "d < year_len y")
      case True
      then show ?thesis
        using False split_year_ge [of "Suc y" "d' - year_len y"]
        by (simp add: split_year.simps [of y])
    next
      case d: False
      with False 1(2) have "d - year_len y < d' - year_len y" by linarith
      from 1(1) [OF False this] show ?thesis
        using d False by (simp add: split_year.simps [of y])
    qed
  qed
qed

lemma split_month_bounds:
  "d < sum_list ls \<Longrightarrow> m \<le> fst (split_month ls m d) \<and> fst (split_month ls m d) < m + length ls
     \<and> 1 \<le> snd (split_month ls m d)"
proof (induction ls m d rule: split_month.induct)
  case (1 m d)
  then show ?case by simp
next
  case (2 l ls m d)
  then show ?case by (cases "d < l") force+
qed

lemma split_month_day: "d < sum_list ls \<Longrightarrow> \<forall>l \<in> set ls. l < 100 \<Longrightarrow> snd (split_month ls m d) < 100"
  by (induction ls m d rule: split_month.induct) (auto split: if_splits)

lemma split_month_inverse:
  "d < sum_list ls \<Longrightarrow>
     day_of_month ls m (fst (split_month ls m d)) (snd (split_month ls m d)) = d"
proof (induction ls m d rule: split_month.induct)
  case (1 m d)
  then show ?case by simp
next
  case (2 l ls m d)
  show ?case
  proof (cases "d < l")
    case True
    then show ?thesis by simp
  next
    case False
    with 2 have ih: "day_of_month ls (Suc m) (fst (split_month ls (Suc m) (d - l)))
        (snd (split_month ls (Suc m) (d - l))) = d - l" and "d - l < sum_list ls" by auto
    then have "Suc m \<le> fst (split_month ls (Suc m) (d - l))"
      using split_month_bounds by blast
    with False ih show ?thesis by simp
  qed
qed

lemma split_month_mono:
  assumes "d < d'" "d' < sum_list ls"
  shows "fst (split_month ls m d) < fst (split_month ls m d') \<or>
    fst (split_month ls m d) = fst (split_month ls m d') \<and>
    snd (split_month ls m d) < snd (split_month ls m d')"
  using assms
proof (induction ls m d arbitrary: d' rule: split_month.induct)
  case (1 m d)
  then show ?case by simp
next
  case (2 l ls m d)
  show ?case
  proof (cases "d < l \<and> \<not> d' < l")
    case True
    with "2.prems"(2) have "d' - l < sum_list ls" unfolding sum_list.Cons by linarith
    then have "Suc m \<le> fst (split_month ls (Suc m) (d' - l))"
      using split_month_bounds by blast
    with True show ?thesis by simp
  next
    case False
    show ?thesis
    proof (cases "d < l")
      case True
      with False "2.prems" show ?thesis by simp
    next
      case d: False
      with "2.prems" have "d - l < d' - l" by linarith
      moreover from d "2.prems" have "d' - l < sum_list ls" unfolding sum_list.Cons by linarith
      ultimately have *: "d - l < d' - l" "d' - l < sum_list ls" .
      from "2.IH" [OF d *] d "2.prems" show ?thesis by simp
    qed
  qed
qed

subsection \<open>Writing a timestamp\<close>

definition day_of :: "time \<Rightarrow> nat" where
  "day_of t = nat t div 86400000000"

definition second_of :: "time \<Rightarrow> nat" where
  "second_of t = nat t div 1000000 mod 86400"

definition micro_of :: "time \<Rightarrow> nat" where
  "micro_of t = nat t mod 1000000"

text \<open>What a \<open>datetime\<close> after 1970 can hold: its last year is 9999.\<close>

definition valid_time :: "time \<Rightarrow> bool" where
  "valid_time t = (0 \<le> t \<and> fst (split_year 1970 (day_of t)) \<le> 9999)"

definition date_str :: "nat \<Rightarrow> string" where
  "date_str days =
     (let (y, d) = split_year 1970 days; (m, dd) = split_month (month_lens y) 1 d
      in pad 4 y @ ''-'' @ pad 2 m @ ''-'' @ pad 2 dd)"

definition clock_str :: "nat \<Rightarrow> string" where
  "clock_str s = pad 2 (s div 3600) @ '':'' @ pad 2 (s div 60 mod 60) @ '':'' @ pad 2 (s mod 60)"

definition second_str :: "time \<Rightarrow> string" where
  "second_str t = date_str (day_of t) @ ''T'' @ clock_str (second_of t)"

definition fraction_str :: "nat \<Rightarrow> string" where
  "fraction_str us = (if us = 0 then [] else ''.'' @ pad 6 us)"

definition isoformat :: "time \<Rightarrow> string" where
  "isoformat t = second_str t @ fraction_str (micro_of t) @ ''+00:00''"

text \<open>
  \<open>_timestamp\<close> (control plane) and \<open>_iso\<close> (broker): the offset is the only \<open>+00:00\<close> in
  the text, so the \<open>replace\<close> turns exactly the end into \<open>Z\<close>.
\<close>

definition timestamp :: "time \<Rightarrow> string" where
  "timestamp t = second_str t @ fraction_str (micro_of t) @ ''Z''"

lemma length_date_str [simp]: "length (date_str n) = 10"
  by (simp add: date_str_def split: prod.split)

lemma length_clock_str [simp]: "length (clock_str n) = 8"
  by (simp add: clock_str_def)

lemma length_second_str [simp]: "length (second_str t) = 19"
  by (simp add: second_str_def)

lemma micro_of_less [simp]: "micro_of t < 1000000"
  by (simp add: micro_of_def)

lemma second_of_less [simp]: "second_of t < 86400"
  by (simp add: second_of_def)

subsection \<open>The order of timestamps\<close>

lemma clock_parts: "s = 3600 * (s div 3600) + 60 * (s div 60 mod 60) + s mod (60::nat)"
proof -
  have "s div 3600 = s div 60 div 60" by (simp add: div_mult2_eq [symmetric])
  then have "s div 60 = 60 * (s div 3600) + s div 60 mod 60"
    by (metis div_mult_mod_eq mult.commute)
  moreover have "s = 60 * (s div 60) + s mod 60"
    by (metis div_mult_mod_eq mult.commute)
  ultimately show ?thesis by linarith
qed

lemma clock_ranges:
  assumes "s < 86400"
  shows "s div 3600 < 10 ^ 2" "s div 60 mod 60 < 10 ^ 2" "s mod 60 < (10::nat) ^ 2"
proof -
  have "s div 60 mod 60 < 60" "s mod 60 < 60" by simp_all
  then show "s div 60 mod 60 < 10 ^ 2" "s mod 60 < (10::nat) ^ 2"
    by (simp_all add: power2_eq_square)
  show "s div 3600 < 10 ^ 2"
    using assms by (simp add: power2_eq_square less_mult_imp_div_less)
qed

lemma mixed_radix_less:
  fixes h m x h' m' x' :: nat
  assumes "m < 60" "x < 60" "m' < 60" "x' < 60"
    and less: "3600 * h + 60 * m + x < 3600 * h' + 60 * m' + x'"
  shows "h < h' \<or> h = h' \<and> (m < m' \<or> m = m' \<and> x < x')"
proof (cases h h' rule: linorder_cases)
  case equal
  with assms show ?thesis by (cases m m' rule: linorder_cases) auto
qed (use assms in auto)

lemma clock_str_mono:
  assumes "s < s'" "s' < 86400"
  shows "clock_str s < clock_str s'"
proof -
  note r' = clock_ranges [OF assms(2)]
  let ?h = "s div 3600" and ?m = "s div 60 mod 60" and ?x = "s mod 60"
  let ?h' = "s' div 3600" and ?m' = "s' div 60 mod 60" and ?x' = "s' mod 60"
  have "?m < 60" "?x < 60" "?m' < 60" "?x' < 60" by simp_all
  moreover have "3600 * ?h + 60 * ?m + ?x < 3600 * ?h' + 60 * ?m' + ?x'"
    using assms(1) clock_parts [of s] clock_parts [of s'] by simp
  ultimately consider "?h < ?h'" | "?h = ?h'" "?m < ?m'" | "?h = ?h'" "?m = ?m'" "?x < ?x'"
    using mixed_radix_less by blast
  then show ?thesis
  proof cases
    case 1
    then have "pad 2 ?h < pad 2 ?h'" using r'(1) by (rule pad_mono)
    then show ?thesis by (simp add: clock_str_def less_append_same_length)
  next
    case 2
    from 2(2) r'(2) have "pad 2 ?m < pad 2 ?m'" by (rule pad_mono)
    with 2(1) show ?thesis by (simp add: clock_str_def less_append_same_length)
  next
    case 3
    from 3(3) r'(3) have "pad 2 ?x < pad 2 ?x'" by (rule pad_mono)
    with 3(1,2) show ?thesis by (simp add: clock_str_def less_append_same_length)
  qed
qed

lemma month_day_ranges:
  assumes "d < year_len y"
  shows "fst (split_month (month_lens y) 1 d) < 10 ^ 2" "snd (split_month (month_lens y) 1 d) < 10 ^ 2"
    and "1 \<le> fst (split_month (month_lens y) 1 d)" "1 \<le> snd (split_month (month_lens y) 1 d)"
proof -
  from assms have d: "d < sum_list (month_lens y)" by simp
  have "length (month_lens y) = 12" by (simp add: month_lens_def)
  with split_month_bounds [OF d, of 1]
  show "fst (split_month (month_lens y) 1 d) < 10 ^ 2"
    and "1 \<le> fst (split_month (month_lens y) 1 d)" "1 \<le> snd (split_month (month_lens y) 1 d)"
    by (simp_all add: power2_eq_square)
  have "\<forall>l \<in> set (month_lens y). l < 100" by (simp add: month_lens_def)
  with split_month_day [OF d] show "snd (split_month (month_lens y) 1 d) < 10 ^ 2"
    by (simp add: power2_eq_square)
qed

lemma date_str_mono:
  assumes less: "d < d'" and year: "fst (split_year 1970 d') \<le> 9999"
  shows "date_str d < date_str d'"
proof -
  obtain y r where yr: "split_year 1970 d = (y, r)" by fastforce
  obtain y' r' where yr': "split_year 1970 d' = (y', r')" by fastforce
  have len: "r' < year_len y'" using split_year_len [of 1970 d'] yr' by simp
  let ?m = "split_month (month_lens y) 1 r" and ?m' = "split_month (month_lens y') 1 r'"
  from split_year_mono [OF less, of 1970] yr yr' consider "y < y'" | "y = y'" "r < r'" by auto
  then show ?thesis
  proof cases
    case 1
    with year yr' have "pad 4 y < pad 4 y'" by (intro pad_mono) auto
    then show ?thesis using yr yr' by (simp add: date_str_def less_append_same_length split: prod.split)
  next
    case 2
    note rng = month_day_ranges [OF len]
    from split_month_mono [OF 2(2), of "month_lens y'" 1] len
    have "fst ?m < fst ?m' \<or> fst ?m = fst ?m' \<and> snd ?m < snd ?m'" using 2(1) by simp
    then have "pad 2 (fst ?m) @ ''-'' @ pad 2 (snd ?m) < pad 2 (fst ?m') @ ''-'' @ pad 2 (snd ?m')"
      using pad_mono [OF _ rng(1)] pad_mono [OF _ rng(2)]
      by (auto simp: less_append_same_length)
    then show ?thesis using yr yr' 2(1)
      by (auto simp: date_str_def less_append_same_length split: prod.split)
  qed
qed

lemma second_split: "nat t div 1000000 = 86400 * day_of t + second_of t"
proof -
  have "day_of t = nat t div 1000000 div 86400"
    by (simp add: day_of_def div_mult2_eq [symmetric])
  then show ?thesis unfolding second_of_def by simp
qed

lemma second_str_mono:
  assumes less: "nat t div 1000000 < nat t' div 1000000" and year: "valid_time t'"
  shows "second_str t < second_str t'"
proof -
  have "second_of t < 86400" "second_of t' < 86400" by simp_all
  with less consider "day_of t < day_of t'" | "day_of t = day_of t'" "second_of t < second_of t'"
    unfolding second_split by (cases "day_of t" "day_of t'" rule: linorder_cases) auto
  then show ?thesis
  proof cases
    case 1
    with year have "date_str (day_of t) < date_str (day_of t')"
      by (intro date_str_mono) (simp_all add: valid_time_def)
    then show ?thesis by (simp add: second_str_def less_append_same_length)
  next
    case 2
    then have "clock_str (second_of t) < clock_str (second_of t')"
      by (intro clock_str_mono) simp_all
    with 2(1) show ?thesis by (simp add: second_str_def less_append_same_length)
  qed
qed

lemma second_str_eq:
  assumes "nat t div 1000000 = nat t' div 1000000"
  shows "second_str t = second_str t'"
proof -
  have day: "day_of u = nat u div 1000000 div 86400" for u
    by (simp add: day_of_def div_mult2_eq [symmetric])
  from assms show ?thesis unfolding second_str_def second_of_def day by simp
qed

lemma epoch_nat: "0 \<le> t \<Longrightarrow> epoch t = int (nat t div 1000000)"
  by (simp add: epoch_def zdiv_int)

text \<open>From one second to the next the strings are ordered as the times are.\<close>

lemma iso_less_of_second:
  assumes "0 \<le> t" "valid_time t'" "epoch t < epoch t'"
  shows "timestamp t < timestamp t'"
proof -
  from assms have "nat t div 1000000 < nat t' div 1000000"
    by (simp add: epoch_nat valid_time_def)
  then have "second_str t < second_str t'" using assms(2) by (rule second_str_mono)
  then show ?thesis by (simp add: timestamp_def less_append_same_length)
qed

text \<open>
  Within one second the fraction decides, and the missing fraction of a whole second
  sorts \<^emph>\<open>after\<close> every other one, because \<open>Z\<close> is a larger character than \<open>.\<close>.
\<close>

lemma iso_same_second:
  assumes "0 \<le> t" "0 \<le> t'" "epoch t = epoch t'"
  shows "timestamp t < timestamp t' \<longleftrightarrow>
    (if micro_of t = 0 then False
     else micro_of t' = 0 \<or> micro_of t < micro_of t')"
proof -
  from assms have "second_str t = second_str t'"
    by (intro second_str_eq) (simp add: epoch_nat)
  moreover have "pad 6 (micro_of t) < pad 6 (micro_of t') \<longleftrightarrow> micro_of t < micro_of t'"
    using pad_mono [of "micro_of t" "micro_of t'" 6] pad_mono [of "micro_of t'" "micro_of t" 6]
      micro_of_less [of t] micro_of_less [of t']
    by (cases "micro_of t" "micro_of t'" rule: linorder_cases) auto
  ultimately show ?thesis
    by (auto simp: timestamp_def fraction_str_def less_append_same_length less_char_def)
qed

subsection \<open>Reading a timestamp\<close>

text \<open>
  \<open>_datetime\<close>: \<open>datetime.fromisoformat(value.replace("Z", "+00:00"))\<close>, where a value
  with no offset raises. Of the many layouts \<open>fromisoformat\<close> accepts, these are the ones
  the components write: seconds or microseconds, and \<open>Z\<close> or \<open>+00:00\<close>.
\<close>

definition read_field :: "string \<Rightarrow> nat \<Rightarrow> nat \<Rightarrow> nat option" where
  "read_field s i n = read_digits 0 (take n (drop i s))"

definition days_of_civil :: "nat \<Rightarrow> nat \<Rightarrow> nat \<Rightarrow> nat option" where
  "days_of_civil y m d =
     (if 1970 \<le> y \<and> 1 \<le> m \<and> m \<le> 12 \<and> 1 \<le> d \<and> d \<le> month_lens y ! (m - 1)
      then Some (days_before_year 1970 (y - 1970) + day_of_month (month_lens y) 1 m d)
      else None)"

definition read_second_str :: "string \<Rightarrow> nat option" where
  "read_second_str s =
     (if length s = 19 \<and> map (\<lambda>i. s ! i) [4, 7, 10, 13, 16] = ''--T::'' then
        (case (read_field s 0 4, read_field s 5 2, read_field s 8 2,
               read_field s 11 2, read_field s 14 2, read_field s 17 2) of
           (Some y, Some mo, Some d, Some h, Some mi, Some se) \<Rightarrow>
             (case days_of_civil y mo d of
                Some n \<Rightarrow>
                  if h < 24 \<and> mi < 60 \<and> se < 60
                  then Some (86400 * n + (3600 * h + 60 * mi + se)) else None
              | None \<Rightarrow> None)
         | _ \<Rightarrow> None)
      else None)"

definition read_fraction :: "string \<Rightarrow> nat option" where
  "read_fraction s =
     (if s = [] then Some 0
      else if length s = 7 \<and> s ! 0 = CHR ''.'' then read_digits 0 (drop 1 s) else None)"

definition read_timestamp :: "string \<Rightarrow> time option" where
  "read_timestamp s =
     (let body = (if ends_with s ''Z'' then Some (take (length s - 1) s)
                  else if ends_with s ''+00:00'' then Some (take (length s - 6) s) else None)
      in case body of
           None \<Rightarrow> None
         | Some b \<Rightarrow>
             (case (read_second_str (take 19 b), read_fraction (drop 19 b)) of
                (Some n, Some us) \<Rightarrow> Some (int (n * 1000000 + us))
              | _ \<Rightarrow> None))"

lemma read_fraction_str: "us < 1000000 \<Longrightarrow> read_fraction (fraction_str us) = Some us"
  using read_digits_pad [of us 6 0] by (auto simp: read_fraction_def fraction_str_def)

lemma split_month_le_len:
  "d < sum_list ls \<Longrightarrow> snd (split_month ls m d) \<le> ls ! (fst (split_month ls m d) - m)"
proof (induction ls m d rule: split_month.induct)
  case (1 m d)
  then show ?case by simp
next
  case (2 l ls m d)
  show ?case
  proof (cases "d < l")
    case True
    then show ?thesis by simp
  next
    case False
    let ?r = "split_month ls (Suc m) (d - l)"
    from False 2(2) have len: "d - l < sum_list ls" by simp
    with 2(1) [OF False] have "snd ?r \<le> ls ! (fst ?r - Suc m)" by simp
    moreover have "Suc m \<le> fst ?r" using split_month_bounds [OF len] by blast
    then have "fst ?r - m = Suc (fst ?r - Suc m)" by linarith
    ultimately show ?thesis using False by simp
  qed
qed

lemma days_of_civil_split:
  assumes "split_year 1970 n = (y, d)" "split_month (month_lens y) 1 d = (m, dd)"
  shows "days_of_civil y m dd = Some n"
proof -
  have d: "d < sum_list (month_lens y)"
    using split_year_len [of 1970 n] assms(1) by simp
  have "length (month_lens y) = 12" by (simp add: month_lens_def)
  with split_month_bounds [OF d, of 1] split_month_le_len [OF d, of 1] assms(2)
  have "1 \<le> m" "m \<le> 12" "1 \<le> dd" "dd \<le> month_lens y ! (m - 1)" by auto
  moreover have "1970 \<le> y" using split_year_ge [of 1970 n] assms(1) by simp
  moreover have "day_of_month (month_lens y) 1 m dd = d"
    using split_month_inverse [OF d, of 1] assms(2) by simp
  moreover have "days_before_year 1970 (y - 1970) + d = n"
    using split_year_inverse [of 1970 n] assms(1) by simp
  ultimately show ?thesis by (simp add: days_of_civil_def)
qed

lemma read_second_str_second_str:
  assumes "valid_time t"
  shows "read_second_str (second_str t) = Some (nat t div 1000000)"
proof -
  obtain y d where yd: "split_year 1970 (day_of t) = (y, d)" by fastforce
  obtain m dd where md: "split_month (month_lens y) 1 d = (m, dd)" by fastforce
  let ?s = "second_of t"
  have d: "d < year_len y" using split_year_len [of 1970 "day_of t"] yd by simp
  have y: "y < 10 ^ 4" using assms yd by (simp add: valid_time_def)
  have rng: "m < 10 ^ 2" "dd < 10 ^ 2" using month_day_ranges [OF d] md by simp_all
  note clk = clock_ranges [OF second_of_less [of t]]
  have str: "second_str t = pad 4 y @ ''-'' @ pad 2 m @ ''-'' @ pad 2 dd @ ''T'' @
      pad 2 (?s div 3600) @ '':'' @ pad 2 (?s div 60 mod 60) @ '':'' @ pad 2 (?s mod 60)"
    using yd md by (simp add: second_str_def date_str_def clock_str_def)
  have civil: "days_of_civil y m dd = Some (day_of t)" using yd md by (rule days_of_civil_split)
  have hour: "?s div 3600 < 24" using second_of_less [of t] by (simp add: less_mult_imp_div_less)
  have fields: "read_field (second_str t) 0 4 = Some y" "read_field (second_str t) 5 2 = Some m"
    "read_field (second_str t) 8 2 = Some dd" "read_field (second_str t) 11 2 = Some (?s div 3600)"
    "read_field (second_str t) 14 2 = Some (?s div 60 mod 60)"
    "read_field (second_str t) 17 2 = Some (?s mod 60)"
    using read_digits_pad [OF y, of 0] read_digits_pad [OF rng(1), of 0]
      read_digits_pad [OF rng(2), of 0] read_digits_pad [OF clk(1), of 0]
      read_digits_pad [OF clk(2), of 0] read_digits_pad [OF clk(3), of 0]
    by (simp_all add: read_field_def str)
  have seps: "map (\<lambda>i. second_str t ! i) [4, 7, 10, 13, 16] = ''--T::''"
    by (simp add: str nth_append)
  have "86400 * day_of t + (3600 * (?s div 3600) + 60 * (?s div 60 mod 60) + ?s mod 60) =
      nat t div 1000000"
    using clock_parts [of ?s] second_split [of t] by simp
  then show ?thesis
    using fields seps civil hour unfolding read_second_str_def by simp
qed

lemma read_body:
  assumes "valid_time t"
  shows "read_second_str (take 19 (second_str t @ fraction_str (micro_of t))) =
      Some (nat t div 1000000)"
    and "read_fraction (drop 19 (second_str t @ fraction_str (micro_of t))) = Some (micro_of t)"
    and "int (nat t div 1000000 * 1000000 + micro_of t) = t"
proof -
  show "int (nat t div 1000000 * 1000000 + micro_of t) = t"
    using assms unfolding micro_of_def div_mult_mod_eq by (simp add: valid_time_def)
qed (simp_all add: read_second_str_second_str assms read_fraction_str)

text \<open>What \<open>_datetime\<close> reads back from either writer is the time that was written.\<close>

lemma read_timestamp_timestamp:
  assumes "valid_time t"
  shows "read_timestamp (timestamp t) = Some t"
proof -
  let ?b = "second_str t @ fraction_str (micro_of t)"
  have "timestamp t = ?b @ ''Z''" by (simp add: timestamp_def)
  then show ?thesis
    using read_body [OF assms] by (simp add: read_timestamp_def ends_with_append del: append_assoc)
qed

lemma read_timestamp_isoformat:
  assumes "valid_time t"
  shows "read_timestamp (isoformat t) = Some t"
proof -
  let ?b = "second_str t @ fraction_str (micro_of t)"
  have iso: "isoformat t = ?b @ ''+00:00''" by (simp add: isoformat_def)
  then have "\<not> ends_with (isoformat t) ''Z''" by (simp add: ends_with_def)
  with iso show ?thesis
    using read_body [OF assms] by (simp add: read_timestamp_def ends_with_append del: append_assoc)
qed

lemma timestamp_inject:
  "valid_time a \<Longrightarrow> valid_time b \<Longrightarrow> timestamp a = timestamp b \<longleftrightarrow> a = b"
  by (metis option.inject read_timestamp_timestamp)

end
