(* ===== verification/Encoding.thy ===== *)
theory Encoding
  imports Clock "HOL-Library.AList"
begin

text \<open>
  The encodings of the tokens: unpadded base64 with the URL alphabet, as every
  \<open>_base64url\<close> and \<open>_unbase64url\<close> of the sources writes and reads it, and JSON as
  \<open>json.dumps(value, sort_keys=True, separators=(",", ":"))\<close> prints and \<open>json.loads\<close>
  reads it. A string holds code points below 256; a number with a fraction keeps six digits of
  it. Both round trips are proved here.
\<close>

subsection \<open>Base64\<close>

definition b64_alphabet :: string where
  "b64_alphabet = ''ABCDEFGHIJKLMNOPQRSTUVWXYZabcdefghijklmnopqrstuvwxyz0123456789-_''"

definition b64_char :: "nat \<Rightarrow> char" where
  "b64_char n = b64_alphabet ! n"

text \<open>
  \<open>b64decode(.., altchars=b"-_", validate=True)\<close> translates the two characters to the
  standard ones first, so it accepts both spellings.
\<close>

definition b64_value :: "char \<Rightarrow> nat option" where
  "b64_value c =
     (let n = (of_char c :: nat) in
      if 65 \<le> n \<and> n \<le> 90 then Some (n - 65)
      else if 97 \<le> n \<and> n \<le> 122 then Some (n - 71)
      else if 48 \<le> n \<and> n \<le> 57 then Some (n + 4)
      else if c = CHR ''-'' \<or> c = CHR ''+'' then Some 62
      else if c = CHR ''_'' \<or> c = CHR ''/'' then Some 63
      else None)"

fun b64_encode :: "nat list \<Rightarrow> string" where
  "b64_encode [] = []"
| "b64_encode [a] = [b64_char (a div 4), b64_char (a mod 4 * 16)]"
| "b64_encode [a, b] =
     [b64_char (a div 4), b64_char (a mod 4 * 16 + b div 16), b64_char (b mod 16 * 4)]"
| "b64_encode (a # b # c # r) =
     b64_char (a div 4) # b64_char (a mod 4 * 16 + b div 16) #
     b64_char (b mod 16 * 4 + c div 64) # b64_char (c mod 64) # b64_encode r"

fun b64_decode :: "string \<Rightarrow> nat list option" where
  "b64_decode [] = Some []"
| "b64_decode (p # q # r # s # rest) =
     (if rest = [] \<and> r = CHR ''='' \<and> s = CHR ''='' then do {
        v \<leftarrow> b64_value p; w \<leftarrow> b64_value q; Some [v * 4 + w div 16]}
      else if rest = [] \<and> s = CHR ''='' then do {
        v \<leftarrow> b64_value p; w \<leftarrow> b64_value q; x \<leftarrow> b64_value r;
        Some [v * 4 + w div 16, w mod 16 * 16 + x div 4]}
      else do {
        v \<leftarrow> b64_value p; w \<leftarrow> b64_value q; x \<leftarrow> b64_value r; y \<leftarrow> b64_value s;
        bs \<leftarrow> b64_decode rest;
        Some ((v * 4 + w div 16) # (w mod 16 * 16 + x div 4) # (x mod 4 * 64 + y) # bs)})"
| "b64_decode _ = None"

definition base64url :: "string \<Rightarrow> string" where
  "base64url bytes = b64_encode (map of_char bytes)"

definition unbase64url :: "string \<Rightarrow> string option" where
  "unbase64url s =
     map_option (map char_of) (b64_decode (s @ replicate ((4 - length s mod 4) mod 4) (CHR ''='')))"

lemma b64_values: "map b64_value b64_alphabet = map Some [0..<64]"
  by (simp add: b64_value_def b64_alphabet_def Let_def upt_rec)

lemma b64_special: "CHR ''='' \<notin> set b64_alphabet" "CHR ''.'' \<notin> set b64_alphabet"
  by (simp_all add: b64_alphabet_def)

lemma b64_char_props:
  assumes "n < 64"
  shows "b64_value (b64_char n) = Some n" "b64_char n \<noteq> CHR ''=''" "b64_char n \<noteq> CHR ''.''"
proof -
  have n: "n < length b64_alphabet" using assms by (simp add: b64_alphabet_def)
  have "b64_value (b64_char n) = map b64_value b64_alphabet ! n"
    using n by (simp add: b64_char_def)
  also have "\<dots> = Some n" using assms by (simp add: b64_values)
  finally show "b64_value (b64_char n) = Some n" .
  show "b64_char n \<noteq> CHR ''=''" "b64_char n \<noteq> CHR ''.''"
    using n b64_special by (metis b64_char_def nth_mem)+
qed

lemma b64_round_trip:
  "\<forall>b\<in>set bs. b < 256 \<Longrightarrow>
     b64_decode (b64_encode bs @ replicate ((4 - length (b64_encode bs) mod 4) mod 4) (CHR ''='')) = Some bs"
proof (induction bs rule: b64_encode.induct)
  case (2 a)
  then have "a div 4 < 64" "a mod 4 * 16 < 64" by auto
  with 2 show ?case by (simp add: numeral_2_eq_2 b64_char_props)
next
  case (3 a b)
  then have "a div 4 < 64" "a mod 4 * 16 + b div 16 < 64" "b mod 16 * 4 < 64" "b div 16 < 16" by auto
  with 3 show ?case by (simp add: b64_char_props)
next
  case (4 a b c r)
  have lt: "a div 4 < 64" "a mod 4 * 16 + b div 16 < 64" "b mod 16 * 4 + c div 64 < 64" "c mod 64 < 64"
    using 4 by auto
  have "a div 4 * 4 + (a mod 4 * 16 + b div 16) div 16 = a"
    "(a mod 4 * 16 + b div 16) mod 16 * 16 + (b mod 16 * 4 + c div 64) div 4 = b"
    "(b mod 16 * 4 + c div 64) mod 4 * 64 + c mod 64 = c"
    using 4 by auto
  with 4 show ?case
    by (simp add: b64_char_props(1) [OF lt(1)] b64_char_props(1) [OF lt(2)] b64_char_props [OF lt(3)]
        b64_char_props [OF lt(4)])
qed simp

lemma unbase64url_base64url [simp]: "unbase64url (base64url s) = Some s"
  using b64_round_trip [of "map of_char s"]
  by (simp add: unbase64url_def base64url_def comp_def)

lemma base64url_no_dot: "CHR ''.'' \<notin> set (base64url s)"
proof -
  have ne: "CHR ''.'' \<noteq> b64_char n" if "n < 64" for n using b64_char_props(3) [OF that] by metis
  have "\<forall>b\<in>set bs. b < 256 \<Longrightarrow> CHR ''.'' \<notin> set (b64_encode bs)" for bs
  proof (induction bs rule: b64_encode.induct)
    case (4 a b c r)
    have "a div 4 < 64" "a mod 4 * 16 + b div 16 < 64" "b mod 16 * 4 + c div 64 < 64" "c mod 64 < 64"
      using 4 by auto
    with 4 show ?case by (simp add: ne)
  next
    case (3 a b)
    then have "a div 4 < 64" "a mod 4 * 16 + b div 16 < 64" "b mod 16 * 4 < 64" by auto
    then show ?case by (simp add: ne)
  next
    case (2 a)
    then have "a div 4 < 64" "a mod 4 * 16 < 64" by auto
    then show ?case by (simp add: ne)
  qed simp
  then show ?thesis by (simp add: base64url_def)
qed

text \<open>\<open>base64.b64encode\<close> and \<open>b64decode(.., validate=True)\<close>: the standard alphabet, padded.\<close>

definition standard_char :: "char \<Rightarrow> char" where
  "standard_char c = (if c = CHR ''-'' then CHR ''+'' else if c = CHR ''_'' then CHR ''/'' else c)"

definition base64 :: "string \<Rightarrow> string" where
  "base64 bytes =
     (let s = map standard_char (base64url bytes) in s @ replicate ((4 - length s mod 4) mod 4) (CHR ''=''))"

definition unbase64 :: "string \<Rightarrow> string option" where
  "unbase64 s =
     (if list_ex (\<lambda>c. c \<in> {CHR ''-'', CHR ''_''}) s then None
      else map_option (map char_of) (b64_decode s))"

lemma b64_value_standard [simp]: "b64_value (standard_char c) = b64_value c"
  by (simp add: standard_char_def b64_value_def)

lemma standard_char_eq [simp]: "standard_char c = CHR ''='' \<longleftrightarrow> c = CHR ''=''"
  by (simp add: standard_char_def)

lemma b64_decode_standard: "b64_decode (map standard_char s) = b64_decode s"
proof (induction s rule: b64_decode.induct)
  case (2 p q r s rest)
  then show ?case by (cases "rest = []"; simp cong: Option.bind_cong)
qed simp_all

lemma unbase64_base64 [simp]: "unbase64 (base64 s) = Some s"
proof -
  have eq: "standard_char (CHR ''='') = CHR ''=''" by simp
  have "base64 s = map standard_char (base64url s @
      replicate ((4 - length (base64url s) mod 4) mod 4) (CHR ''=''))"
    unfolding base64_def Let_def map_append map_replicate length_map eq ..
  moreover have "\<not> list_ex (\<lambda>c. c \<in> {CHR ''-'', CHR ''_''}) (map standard_char xs)" for xs
    by (induction xs) (simp_all add: standard_char_def)
  moreover have "map_option (map char_of) (b64_decode (base64url s @
      replicate ((4 - length (base64url s) mod 4) mod 4) (CHR ''=''))) = Some s"
    using unbase64url_base64url [of s] unfolding unbase64url_def .
  ultimately show ?thesis by (simp add: unbase64_def b64_decode_standard del: map_append)
qed

subsection \<open>Printing JSON\<close>

definition hex_char :: "nat \<Rightarrow> char" where
  "hex_char n = ''0123456789abcdef'' ! n"

definition escape_char :: "char \<Rightarrow> string" where
  "escape_char c =
     (let n = (of_char c :: nat); back = CHR 0x5C in
      if c = CHR 0x22 then [back, c]
      else if c = CHR 0x5C then [back, back]
      else if c = CHR 0x0A then back # ''n''
      else if c = CHR 0x0D then back # ''r''
      else if c = CHR 0x09 then back # ''t''
      else if c = CHR 0x08 then back # ''b''
      else if c = CHR 0x0C then back # ''f''
      else if 32 \<le> n \<and> n < 127 then [c]
      else back # ''u00'' @ [hex_char (n div 16), hex_char (n mod 16)])"

definition json_quote :: "string \<Rightarrow> string" where
  "json_quote s = CHR 0x22 # concat (map escape_char s) @ [CHR 0x22]"

text \<open>A finite decimal of at most six places: \<open>1.5\<close>, \<open>-0.25\<close>, \<open>2.0\<close>.\<close>

definition strip_zeros :: "string \<Rightarrow> string" where
  "strip_zeros ds =
     (let r = rev (dropWhile (\<lambda>c. c = CHR ''0'') (rev ds)) in if r = [] then ''0'' else r)"

definition float_str :: "int \<Rightarrow> string" where
  "float_str m =
     (if m < 0 then ''-'' else []) @ dec (nat (\<bar>m\<bar> div 1000000)) @ ''.'' @
     strip_zeros (pad 6 (nat (\<bar>m\<bar> mod 1000000)))"

fun separated :: "string list \<Rightarrow> string" where
  "separated [] = []"
| "separated [x] = x"
| "separated (x # xs) = x @ '','' @ separated xs"

fun print_json :: "json \<Rightarrow> string" where
  "print_json JNull = ''null''"
| "print_json (JBool b) = (if b then ''true'' else ''false'')"
| "print_json (JInt i) = dec_int i"
| "print_json (JFloat m) = float_str m"
| "print_json (JStr s) = json_quote s"
| "print_json (JList vs) = ''['' @ separated (map print_json vs) @ '']''"
| "print_json (JObj kvs) =
     ''{'' @ separated (map (\<lambda>kv. json_quote (fst kv) @ '':'' @ print_json (snd kv)) kvs) @ ''}''"

fun sort_json :: "json \<Rightarrow> json" where
  "sort_json (JList vs) = JList (map sort_json vs)"
| "sort_json (JObj kvs) = JObj (sort_key fst (map (\<lambda>kv. (fst kv, sort_json (snd kv))) kvs))"
| "sort_json v = v"

definition json_dumps :: "json \<Rightarrow> string" where
  "json_dumps v = print_json (sort_json v)"

subsection \<open>Reading JSON\<close>

definition hex_value :: "char \<Rightarrow> nat option" where
  "hex_value c =
     (let n = (of_char c :: nat) in
      if 48 \<le> n \<and> n \<le> 57 then Some (n - 48)
      else if 97 \<le> n \<and> n \<le> 102 then Some (n - 87)
      else if 65 \<le> n \<and> n \<le> 70 then Some (n - 55)
      else None)"

fun read_hex :: "nat \<Rightarrow> string \<Rightarrow> nat option" where
  "read_hex acc [] = Some acc"
| "read_hex acc (c # cs) =
     (case hex_value c of None \<Rightarrow> None | Some v \<Rightarrow> read_hex (16 * acc + v) cs)"

definition unescape :: "char \<Rightarrow> char option" where
  "unescape e =
     map_of [(CHR 0x22, CHR 0x22), (CHR 0x5C, CHR 0x5C), (CHR ''/'', CHR ''/''),
       (CHR ''n'', CHR 0x0A), (CHR ''r'', CHR 0x0D), (CHR ''t'', CHR 0x09),
       (CHR ''b'', CHR 0x08), (CHR ''f'', CHR 0x0C)] e"

fun parse_chars :: "string \<Rightarrow> (string \<times> string) option" where
  "parse_chars [] = None"
| "parse_chars (c # cs) =
     (if c = CHR 0x22 then Some ([], cs)
      else if c = CHR 0x5C then
        (case cs of
           [] \<Rightarrow> None
         | e # r \<Rightarrow>
             if e = CHR ''u'' then
               (case r of
                  a # b # d # f # r' \<Rightarrow>
                    (case read_hex 0 [a, b, d, f] of
                       Some n \<Rightarrow> if n < 256 then map_option (apfst (Cons (char_of n))) (parse_chars r')
                                 else None
                     | None \<Rightarrow> None)
                | _ \<Rightarrow> None)
             else (case unescape e of
                  Some x \<Rightarrow> map_option (apfst (Cons x)) (parse_chars r)
                | None \<Rightarrow> None))
      else if (of_char c :: nat) < 32 then None
      else map_option (apfst (Cons c)) (parse_chars cs))"

definition is_space :: "char \<Rightarrow> bool" where
  "is_space c = ((of_char c :: nat) \<in> {32, 9, 10, 13})"

definition skip_ws :: "string \<Rightarrow> string" where
  "skip_ws s = dropWhile is_space s"

definition is_digit :: "char \<Rightarrow> bool" where
  "is_digit c = (48 \<le> (of_char c :: nat) \<and> (of_char c :: nat) \<le> 57)"

definition digits_of :: "string \<Rightarrow> nat" where
  "digits_of ds = (case read_digits 0 ds of None \<Rightarrow> 0 | Some n \<Rightarrow> n)"

definition parse_unsigned :: "int \<Rightarrow> string \<Rightarrow> (json \<times> string) option" where
  "parse_unsigned sign body =
     (let ds = takeWhile is_digit body; rest = dropWhile is_digit body in
      if ds = [] \<or> (1 < length ds \<and> hd ds = CHR ''0'') then None
      else case rest of
          [] \<Rightarrow> Some (JInt (sign * int (digits_of ds)), rest)
        | c # frac \<Rightarrow>
            if c = CHR ''.'' then
              (let fs = takeWhile is_digit frac in
               if fs = [] \<or> 6 < length fs then None
               else Some (JFloat (sign * (int (digits_of ds) * 1000000 +
                      int (digits_of fs) * 10 ^ (6 - length fs))), dropWhile is_digit frac))
            else if c = CHR ''e'' \<or> c = CHR ''E'' then None
            else Some (JInt (sign * int (digits_of ds)), rest))"

definition parse_number :: "string \<Rightarrow> (json \<times> string) option" where
  "parse_number s = (case s of
     [] \<Rightarrow> None
   | c # cs \<Rightarrow> if c = CHR ''-'' then parse_unsigned (- 1) cs else parse_unsigned 1 s)"

text \<open>The dictionary an object literal builds: the last value of a repeated key stays.\<close>

definition dict_of :: "(string \<times> json) list \<Rightarrow> (string \<times> json) list" where
  "dict_of kvs = fold (\<lambda>kv m. AList.update (fst kv) (snd kv) m) kvs []"

text \<open>
  The parser. Its fuel bounds nesting and the number of elements together; a document has
  fewer of both than characters, so the length of the text is enough.
\<close>

fun parse_value :: "nat \<Rightarrow> string \<Rightarrow> (json \<times> string) option"
  and parse_items :: "nat \<Rightarrow> string \<Rightarrow> (json list \<times> string) option"
  and parse_members :: "nat \<Rightarrow> string \<Rightarrow> ((string \<times> json) list \<times> string) option"
where
  "parse_value 0 s = None"
| "parse_value (Suc n) s =
     (case skip_ws s of
        [] \<Rightarrow> None
      | c # cs \<Rightarrow>
          if c = CHR 0x22 then map_option (apfst JStr) (parse_chars cs)
          else if c = CHR ''['' then
            (if starts_with (skip_ws cs) '']'' then Some (JList [], drop 1 (skip_ws cs))
             else map_option (apfst JList) (parse_items n cs))
          else if c = CHR ''{'' then
            (if starts_with (skip_ws cs) ''}'' then Some (JObj [], drop 1 (skip_ws cs))
             else map_option (apfst (\<lambda>kvs. JObj (dict_of kvs))) (parse_members n cs))
          else if starts_with (c # cs) ''null'' then Some (JNull, drop 3 cs)
          else if starts_with (c # cs) ''true'' then Some (JBool True, drop 3 cs)
          else if starts_with (c # cs) ''false'' then Some (JBool False, drop 4 cs)
          else parse_number (c # cs))"
| "parse_items 0 s = None"
| "parse_items (Suc n) s = do {
     (v, r) \<leftarrow> parse_value n s;
     (case skip_ws r of
        [] \<Rightarrow> None
      | c # cs \<Rightarrow>
          if c = CHR '','' then map_option (apfst (Cons v)) (parse_items n cs)
          else if c = CHR '']'' then Some ([v], cs)
          else None)}"
| "parse_members 0 s = None"
| "parse_members (Suc n) s =
     (case skip_ws s of
        [] \<Rightarrow> None
      | q # qs \<Rightarrow>
          if q \<noteq> CHR 0x22 then None
          else do {
            (k, r) \<leftarrow> parse_chars qs;
            (case skip_ws r of
               [] \<Rightarrow> None
             | c # cs \<Rightarrow>
                 if c \<noteq> CHR '':'' then None
                 else do {
                   (v, r2) \<leftarrow> parse_value n cs;
                   (case skip_ws r2 of
                      [] \<Rightarrow> None
                    | d # ds \<Rightarrow>
                        if d = CHR '','' then map_option (apfst (Cons (k, v))) (parse_members n ds)
                        else if d = CHR ''}'' then Some ([(k, v)], ds)
                        else None)})})"

definition json_loads :: "string \<Rightarrow> json option" where
  "json_loads s =
     (case parse_value (Suc (length s)) s of
        None \<Rightarrow> None
      | Some (v, r) \<Rightarrow> if skip_ws r = [] then Some v else None)"

subsection \<open>The JSON round trip\<close>

lemma hex_values: "map hex_value ''0123456789abcdef'' = map Some [0..<16]"
  by (simp add: hex_value_def Let_def upt_rec)

lemma hex_value_char [simp]: "n < 16 \<Longrightarrow> hex_value (hex_char n) = Some n"
proof -
  assume n: "n < 16"
  then have "hex_value (hex_char n) = map hex_value ''0123456789abcdef'' ! n"
    by (simp only: hex_char_def nth_map length_Cons list.size)
  also have "\<dots> = Some n" unfolding hex_values using n by (simp del: upt_Suc)
  finally show ?thesis .
qed

lemma parse_escape: "parse_chars (escape_char c @ r) = map_option (apfst (Cons c)) (parse_chars r)"
proof -
  let ?n = "of_char c :: nat"
  let ?special = "{CHR 0x22, CHR 0x5C, CHR 0x0A, CHR 0x0D, CHR 0x09, CHR 0x08, CHR 0x0C}"
  consider "c \<in> ?special" | "c \<notin> ?special" "32 \<le> ?n \<and> ?n < 127"
    | "c \<notin> ?special" "\<not> (32 \<le> ?n \<and> ?n < 127)" by blast
  then show ?thesis
  proof cases
    case 1
    then show ?thesis by (auto simp: escape_char_def Let_def unescape_def)
  next
    case 2
    then show ?thesis by (simp add: escape_char_def Let_def)
  next
    case 3
    have lt: "?n < 256" using nat_of_char_less_256 .
    then have "?n div 16 < 16" "?n mod 16 < 16" by (simp_all add: less_mult_imp_div_less)
    moreover have "hex_value (CHR ''0'') = Some 0" by (simp add: hex_value_def)
    ultimately have "read_hex 0 [CHR ''0'', CHR ''0'', hex_char (?n div 16), hex_char (?n mod 16)] = Some ?n"
      by simp
    with 3 lt show ?thesis by (simp add: escape_char_def Let_def)
  qed
qed

lemma parse_quoted: "parse_chars (concat (map escape_char s) @ CHR 0x22 # rest) = Some (s, rest)"
  by (induction s) (simp_all add: parse_escape)

lemma is_digit_digit [simp]: "n < 10 \<Longrightarrow> is_digit (digit n)"
  by (simp add: is_digit_def of_char_digit)

lemma dec_digits: "list_all is_digit (dec n)" "dec n \<noteq> []"
proof -
  show "list_all is_digit (dec n)"
    by (induction n rule: dec.induct) (subst dec.simps, auto)
  show "dec n \<noteq> []" by (subst dec.simps) auto
qed

lemma digit_zero: "n < 10 \<Longrightarrow> digit n = CHR ''0'' \<longleftrightarrow> n = 0"
proof -
  assume "n < 10"
  then have "digit n = digit 0 \<longleftrightarrow> n = 0"
    using of_char_digit [of n] of_char_digit [of 0] by (metis add_left_cancel zero_less_numeral)
  moreover have "of_char (CHR ''0'') = (48 :: nat)" by simp
  then have "digit 0 = CHR ''0''" unfolding digit_def by (metis add_0_right char_of_char)
  ultimately show ?thesis by simp
qed

lemma dec_no_leading_zero: "hd (dec n) = CHR ''0'' \<Longrightarrow> length (dec n) = 1"
proof (induction n rule: dec.induct)
  case (1 n)
  show ?case
  proof (cases "n < 10")
    case False
    then have d: "dec n = dec (n div 10) @ [digit (n mod 10)]" by (subst dec.simps) simp
    then have "hd (dec (n div 10)) = CHR ''0''" using 1(2) dec_digits(2) by simp
    with 1(1) False have "length (dec (n div 10)) = 1" by simp
    then have "n div 10 < 10" by (subst (asm) dec.simps) (auto split: if_splits simp: dec_digits(2))
    then have "dec (n div 10) = [digit (n div 10)]" by (subst dec.simps) simp
    with \<open>hd (dec (n div 10)) = CHR ''0''\<close> \<open>n div 10 < 10\<close> have "n div 10 = 0"
      by (simp add: digit_zero)
    with False show ?thesis by simp
  qed (simp add: dec.simps)
qed

text \<open>What follows a value in a document: never a character that would extend a number.\<close>

definition stops :: "string \<Rightarrow> bool" where
  "stops r = (case r of [] \<Rightarrow> True
     | c # _ \<Rightarrow> \<not> is_digit c \<and> c \<notin> {CHR ''.'', CHR ''e'', CHR ''E''})"

lemma takeWhile_stops:
  "list_all is_digit ds \<Longrightarrow> stops r \<Longrightarrow> takeWhile is_digit (ds @ r) = ds \<and> dropWhile is_digit (ds @ r) = r"
  by (induction ds) (auto simp: stops_def split: list.splits)

lemma parse_unsigned_dec:
  assumes "stops r"
  shows "parse_unsigned sign (dec n @ r) = Some (JInt (sign * int n), r)"
proof -
  note tw = takeWhile_stops [OF dec_digits(1) [of n] assms]
  have "\<not> (1 < length (dec n) \<and> hd (dec n) = CHR ''0'')" using dec_no_leading_zero [of n] by auto
  then show ?thesis
    unfolding parse_unsigned_def Let_def conjunct1 [OF tw] conjunct2 [OF tw]
    using assms dec_digits(2) [of n]
    by (cases r) (simp_all add: digits_of_def read_digits_dec stops_def)
qed

lemma dec_hd: "\<exists>c cs. dec n = c # cs \<and> is_digit c"
  using dec_digits [of n] by (cases "dec n") auto

lemma parse_number_int: "stops r \<Longrightarrow> parse_number (dec_int i @ r) = Some (JInt i, r)"
proof -
  assume r: "stops r"
  obtain c cs where c: "dec (nat i) = c # cs" "is_digit c" using dec_hd by blast
  then have "c \<noteq> CHR ''-''" by (auto simp: is_digit_def)
  with c(1) have "parse_number (dec (nat i) @ r) = parse_unsigned 1 (dec (nat i) @ r)"
    by (simp add: parse_number_def)
  with parse_unsigned_dec [OF r] show ?thesis
    by (simp add: dec_int_def parse_number_def)
qed

text \<open>Documents without fractions and without repeated keys.\<close>

fun plain_json :: "json \<Rightarrow> bool" where
  "plain_json (JFloat m) = False"
| "plain_json (JList vs) = list_all plain_json vs"
| "plain_json (JObj kvs) = (distinct (map fst kvs) \<and> list_all (\<lambda>kv. plain_json (snd kv)) kvs)"
| "plain_json v = True"

fun weight :: "json \<Rightarrow> nat" where
  "weight (JList vs) = Suc (sum_list (map (\<lambda>v. Suc (weight v)) vs))"
| "weight (JObj kvs) = Suc (sum_list (map (\<lambda>kv. Suc (weight (snd kv))) kvs))"
| "weight v = 1"

lemma print_hd:
  assumes "plain_json v"
  shows "\<exists>c cs. print_json v = c # cs \<and> \<not> is_space c \<and> c \<notin> {CHR '']'', CHR ''}''}"
proof (cases v)
  case (JInt i)
  obtain c cs where "dec (nat i) = c # cs" "is_digit c" using dec_hd by blast
  then show ?thesis using JInt by (auto simp: dec_int_def is_space_def is_digit_def)
qed (use assms in \<open>auto simp: json_quote_def is_space_def\<close>)

lemma skip_print: "plain_json v \<Longrightarrow> skip_ws (print_json v @ r) = print_json v @ r"
  using print_hd [of v] by (auto simp: skip_ws_def)

lemma skip_simps [simp]:
  "skip_ws [] = []" "skip_ws (CHR 0x22 # r) = CHR 0x22 # r" "skip_ws (CHR '':'' # r) = CHR '':'' # r"
  "skip_ws (CHR '','' # r) = CHR '','' # r" "skip_ws (CHR '']'' # r) = CHR '']'' # r"
  "skip_ws (CHR ''}'' # r) = CHR ''}'' # r"
  by (simp_all add: skip_ws_def is_space_def)

lemma stops_simps [simp]: "stops []" "stops (CHR '','' # r)" "stops (CHR '']'' # r)" "stops (CHR ''}'' # r)"
  by (simp_all add: stops_def is_digit_def)

lemma separated_Cons: "separated (x # xs) = x @ (if xs = [] then [] else '','' @ separated xs)"
  by (cases xs) simp_all

definition reads_back :: "json \<Rightarrow> bool" where
  "reads_back v = (\<forall>n r. weight v \<le> n \<longrightarrow> stops r \<longrightarrow> parse_value n (print_json v @ r) = Some (v, r))"

lemma parse_items_printed:
  assumes "\<forall>v\<in>set vs. reads_back v" "vs \<noteq> []" "sum_list (map (\<lambda>v. Suc (weight v)) vs) \<le> n"
  shows "parse_items n (separated (map print_json vs) @ CHR '']'' # r) = Some (vs, r)"
  using assms
proof (induction vs arbitrary: n)
  case (Cons v vs)
  then obtain m where n: "n = Suc m" by (cases n) auto
  have v: "parse_value m (print_json v @ t) = Some (v, t)" if "stops t" for t
    using Cons.prems that n by (auto simp: reads_back_def)
  show ?case
  proof (cases "vs = []")
    case True
    with v [of "CHR '']'' # r"] n show ?thesis by simp
  next
    case False
    with Cons n have "parse_items m (separated (map print_json vs) @ CHR '']'' # r) = Some (vs, r)"
      by simp
    with False n v show ?thesis by (simp add: separated_Cons)
  qed
qed simp

lemma parse_members_printed:
  assumes "\<forall>kv\<in>set kvs. reads_back (snd kv)" "kvs \<noteq> []"
    "sum_list (map (\<lambda>kv. Suc (weight (snd kv))) kvs) \<le> n"
  shows "parse_members n (separated (map (\<lambda>kv. json_quote (fst kv) @ '':'' @ print_json (snd kv)) kvs)
    @ CHR ''}'' # r) = Some (kvs, r)"
  using assms
proof (induction kvs arbitrary: n)
  case (Cons kv kvs)
  obtain k v where kv: "kv = (k, v)" by (cases kv)
  from Cons.prems obtain m where n: "n = Suc m" by (cases n) auto
  have v: "parse_value m (print_json v @ t) = Some (v, t)" if "stops t" for t
    using Cons.prems that n kv by (auto simp: reads_back_def)
  show ?case
  proof (cases "kvs = []")
    case True
    with v [of "CHR ''}'' # r"] n kv show ?thesis by (simp add: json_quote_def parse_quoted)
  next
    case False
    with Cons n kv have "parse_members m (separated (map (\<lambda>kv. json_quote (fst kv) @ '':'' @
        print_json (snd kv)) kvs) @ CHR ''}'' # r) = Some (kvs, r)" by simp
    with False n v kv show ?thesis by (simp add: separated_Cons json_quote_def parse_quoted)
  qed
qed simp

lemma update_new: "k \<notin> fst ` set m \<Longrightarrow> AList.update k v m = m @ [(k, v)]"
  by (induction m) auto

lemma dict_of_distinct: "distinct (map fst kvs) \<Longrightarrow> dict_of kvs = kvs"
proof -
  have "distinct (map fst (m @ kvs)) \<Longrightarrow>
      fold (\<lambda>kv m. AList.update (fst kv) (snd kv) m) kvs m = m @ kvs" for m
  proof (induction kvs arbitrary: m)
    case (Cons kv kvs)
    then have "AList.update (fst kv) (snd kv) m = m @ [kv]" by (simp add: update_new)
    with Cons show ?case by simp
  qed simp
  from this [of "[]"] show "distinct (map fst kvs) \<Longrightarrow> dict_of kvs = kvs" by (simp add: dict_of_def)
qed

lemma dec_int_hd: "\<exists>c cs. dec_int i = c # cs \<and> (is_digit c \<or> c = CHR ''-'')"
  using dec_hd [of "nat i"] by (cases "i < 0") (auto simp: dec_int_def)

lemma reads_back_scalar:
  "reads_back JNull" "reads_back (JBool b)" "reads_back (JStr s)" "reads_back (JInt i)"
proof -
  show "reads_back JNull" "reads_back (JBool b)" "reads_back (JStr s)"
    unfolding reads_back_def
    by (auto simp: Suc_le_eq gr0_conv_Suc json_quote_def parse_quoted starts_with_def skip_ws_def is_space_def)
  have "parse_value (Suc n) (dec_int i @ r) = Some (JInt i, r)" if "stops r" for n r
  proof -
    obtain c cs where c: "dec_int i = c # cs" "is_digit c \<or> c = CHR ''-''"
      using dec_int_hd by blast
    then have "c \<notin> {CHR 0x22, CHR ''['', CHR ''{'', CHR ''n'', CHR ''t'', CHR ''f''}" "\<not> is_space c"
      by (auto simp: is_digit_def is_space_def)
    with c(1) parse_number_int [OF that, of i] show ?thesis
      by (simp add: skip_ws_def starts_with_def)
  qed
  then show "reads_back (JInt i)" unfolding reads_back_def by (auto simp: Suc_le_eq gr0_conv_Suc)
qed

lemma separated_print_hd:
  assumes "\<forall>v\<in>set vs. plain_json v" "vs \<noteq> []"
  shows "\<exists>c cs. separated (map print_json vs) = c # cs \<and> \<not> is_space c \<and> c \<noteq> CHR '']''"
proof -
  obtain v rest where "vs = v # rest" using assms(2) by (cases vs) auto
  with assms(1) print_hd [of v] show ?thesis by (auto simp: separated_Cons)
qed

lemma reads_back_list:
  assumes "\<forall>v\<in>set vs. plain_json v" "\<forall>v\<in>set vs. reads_back v"
  shows "reads_back (JList vs)"
  unfolding reads_back_def
proof (intro allI impI)
  fix n r
  assume w: "weight (JList vs) \<le> n"
  then obtain m where n: "n = Suc m" by (cases n) auto
  show "parse_value n (print_json (JList vs) @ r) = Some (JList vs, r)"
  proof (cases "vs = []")
    case True
    with n show ?thesis by (simp add: skip_ws_def is_space_def starts_with_def)
  next
    case False
    from separated_print_hd [OF assms(1) False] obtain c cs where
      c: "separated (map print_json vs) = c # cs" "\<not> is_space c" "c \<noteq> CHR '']''" by blast
    moreover have "parse_items m (separated (map print_json vs) @ CHR '']'' # r) = Some (vs, r)"
      using parse_items_printed [OF assms(2) False] w n by simp
    ultimately show ?thesis using n by (simp add: skip_ws_def is_space_def starts_with_def)
  qed
qed

lemma reads_back_obj:
  assumes "distinct (map fst kvs)" "\<forall>kv\<in>set kvs. reads_back (snd kv)"
  shows "reads_back (JObj kvs)"
  unfolding reads_back_def
proof (intro allI impI)
  fix n r
  assume w: "weight (JObj kvs) \<le> n"
  then obtain m where n: "n = Suc m" by (cases n) auto
  show "parse_value n (print_json (JObj kvs) @ r) = Some (JObj kvs, r)"
  proof (cases "kvs = []")
    case True
    with n show ?thesis by (simp add: skip_ws_def is_space_def starts_with_def)
  next
    case False
    then have "\<exists>cs. separated (map (\<lambda>kv. json_quote (fst kv) @ '':'' @ print_json (snd kv)) kvs) = CHR 0x22 # cs"
      by (cases kvs) (simp_all add: separated_Cons json_quote_def)
    then obtain cs where c: "separated (map (\<lambda>kv. json_quote (fst kv) @ '':'' @ print_json (snd kv)) kvs) =
      CHR 0x22 # cs" by blast
    moreover have "parse_members m (separated (map (\<lambda>kv. json_quote (fst kv) @ '':'' @ print_json (snd kv)) kvs)
        @ CHR ''}'' # r) = Some (kvs, r)"
      using parse_members_printed [OF assms(2) False] w n by simp
    ultimately show ?thesis using n
      by (simp add: skip_ws_def is_space_def starts_with_def dict_of_distinct [OF assms(1)])
  qed
qed

lemma reads_back_plain: "plain_json v \<Longrightarrow> reads_back v"
proof (induction v rule: print_json.induct)
  case (6 vs)
  then show ?case by (auto simp: list_all_iff intro!: reads_back_list)
next
  case (7 kvs)
  then show ?case by (auto simp: list_all_iff intro!: reads_back_obj)
qed (simp_all add: reads_back_scalar)

lemma length_separated: "xs \<noteq> [] \<Longrightarrow> length (separated xs) + 1 = sum_list (map (\<lambda>x. Suc (length x)) xs)"
  by (induction xs rule: separated.induct) auto

lemma weight_le_print: "weight v \<le> length (print_json v)"
proof (induction v rule: print_json.induct)
  case (6 vs)
  have "sum_list (map (\<lambda>v. Suc (weight v)) vs) \<le> sum_list (map (\<lambda>v. Suc (length (print_json v))) vs)"
    using 6 by (intro sum_list_mono) simp
  also have "\<dots> \<le> length (separated (map print_json vs)) + 1"
    using length_separated [of "map print_json vs"] by (cases "vs = []") (simp_all add: comp_def)
  finally show ?case by simp
next
  case (7 kvs)
  let ?f = "\<lambda>kv. json_quote (fst kv) @ '':'' @ print_json (snd kv)"
  have "sum_list (map (\<lambda>kv. Suc (weight (snd kv))) kvs) \<le> sum_list (map (\<lambda>kv. Suc (length (?f kv))) kvs)"
    using 7 by (intro sum_list_mono) (simp, metis trans_le_add2 le_SucI)
  also have "\<dots> \<le> length (separated (map ?f kvs)) + 1"
    using length_separated [of "map ?f kvs"] by (cases "kvs = []") (simp_all add: comp_def)
  finally show ?case by simp
next
  case (3 i)
  obtain c cs where "dec_int i = c # cs" using dec_int_hd by blast
  then show ?case by simp
next
  case (4 m)
  then show ?case by (simp add: float_str_def)
qed (simp_all add: json_quote_def)

lemma json_loads_print: "plain_json v \<Longrightarrow> json_loads (print_json v) = Some v"
proof -
  assume p: "plain_json v"
  have "parse_value (Suc (length (print_json v))) (print_json v @ []) = Some (v, [])"
    using reads_back_plain [OF p] weight_le_print [of v] le_SucI stops_simps(1)
    unfolding reads_back_def by blast
  then show ?thesis by (simp add: json_loads_def del: parse_value.simps)
qed

text \<open>
  Sorting the keys changes no value a reader looks up, so a signed document reads back as
  the one that was signed.
\<close>

lemma distinct_sort_keys: "distinct (map fst (sort_key fst kvs)) \<longleftrightarrow> distinct (map fst kvs)"
  for kvs :: "(string \<times> 'a) list"
  by (rule mset_eq_imp_distinct_iff) simp

lemma map_of_sorted: "distinct (map fst kvs) \<Longrightarrow> map_of (sort_key fst kvs) = map_of kvs"
  for kvs :: "(string \<times> 'a) list"
  using map_of_inject_set [of "sort_key fst kvs" kvs] by (simp add: distinct_sort_keys)

lemma plain_sorted: "plain_json v \<Longrightarrow> plain_json (sort_json v)"
proof (induction v rule: sort_json.induct)
  case (2 kvs)
  let ?m = "map (\<lambda>kv. (fst kv, sort_json (snd kv))) kvs"
  have "distinct (map fst ?m)" using 2 by (simp add: comp_def)
  then have "distinct (map fst (sort_key fst ?m))" by (simp only: distinct_sort_keys)
  with 2 show ?case by (auto simp: list_all_iff)
qed (auto simp: list_all_iff)

lemma json_loads_dumps: "plain_json v \<Longrightarrow> json_loads (json_dumps v) = Some (sort_json v)"
  by (simp add: json_dumps_def json_loads_print plain_sorted)

end
