(* ===== verification/Sandbox.thy ===== *)
theory Sandbox
  imports Clock
begin

text \<open>
  \<open>kirocrew_agentcore_control/sandbox.py\<close>: the lifecycle states of a sandbox and the
  transitions between them, the sandbox record, the identifiers, and the in-memory
  registry with every one of its operations. A registry operation takes the registry and
  returns it with a result, so that what an operation has stored before it raises is kept.
  The clock and the two identifier factories are arguments: the values they returned.
  \<open>hashlib.sha256(..).hexdigest()\<close> is the argument \<open>sha\<close>.
\<close>

subsection \<open>Lifecycle states\<close>

datatype sandbox_state =
  STOPPED | STARTING | RESTORING | READY | BUSY | CHECKPOINTING | STOPPING | ERROR

fun allowed_transitions :: "sandbox_state \<Rightarrow> sandbox_state list" where
  "allowed_transitions STOPPED = [STARTING]"
| "allowed_transitions STARTING = [RESTORING, STOPPING, ERROR]"
| "allowed_transitions RESTORING = [READY, ERROR]"
| "allowed_transitions READY = [BUSY, CHECKPOINTING, STOPPING, ERROR]"
| "allowed_transitions BUSY = [READY, CHECKPOINTING, ERROR]"
| "allowed_transitions CHECKPOINTING = [READY, STOPPING, ERROR]"
| "allowed_transitions STOPPING = [STOPPED, ERROR]"
| "allowed_transitions ERROR = [STARTING, STOPPED]"

fun state_value :: "sandbox_state \<Rightarrow> string" where
  "state_value STOPPED = ''STOPPED''"
| "state_value STARTING = ''STARTING''"
| "state_value RESTORING = ''RESTORING''"
| "state_value READY = ''READY''"
| "state_value BUSY = ''BUSY''"
| "state_value CHECKPOINTING = ''CHECKPOINTING''"
| "state_value STOPPING = ''STOPPING''"
| "state_value ERROR = ''ERROR''"

text \<open>\<open>SandboxState(value)\<close>, which raises for any other text.\<close>

definition state_of_value :: "string \<Rightarrow> sandbox_state option" where
  "state_of_value s =
     List.find (\<lambda>st. state_value st = s)
       [STOPPED, STARTING, RESTORING, READY, BUSY, CHECKPOINTING, STOPPING, ERROR]"

lemma state_of_value_value [simp]: "state_of_value (state_value st) = Some st"
  by (cases st) (simp_all add: state_of_value_def)

lemma state_value_inject [simp]: "state_value a = state_value b \<longleftrightarrow> a = b"
  by (metis option.inject state_of_value_value)

text \<open>
  What a registry operation raises: the error classes of the module, \<open>ValueError\<close>, and the
  \<open>ClientError\<close> of a registry that calls a service, with its code.
\<close>

datatype registry_error =
  ValueErr string
| SandboxUnavailable string
| LeaseConflict string
| StateConflict string
| IdempotencyConflict string
| ClientError string

lemma state_of_value_Some: "state_of_value s = Some st \<Longrightarrow> s = state_value st"
  unfolding state_of_value_def find_Some_iff by blast

datatype request_disposition = NEW | DUPLICATE

subsection \<open>The sandbox record\<close>

record sandbox_record =
  owner_hash :: string
  sandbox_id :: string
  runtime_session_id :: string
  sb_state :: sandbox_state
  state_version :: int
  lease_owner :: "string option"
  lease_expires_at :: "time option"
  active_request_id :: "string option"
  last_checkpoint_generation :: "int option"
  last_restore :: "string option"
  deletion_state :: "string option"
  kiro_auth_mode :: string
  kirocrew_version :: string
  created_at :: time
  updated_at :: time
  init_expires_at :: "time option"
  wake_hints :: "(string \<times> attr) list"

record start_lease =
  sl_record :: sandbox_record
  authoritative :: bool

record history_event =
  he_version :: int
  he_state :: sandbox_state
  he_at :: time

definition after :: "time option \<Rightarrow> time \<Rightarrow> bool" where
  "after e now = (case e of None \<Rightarrow> False | Some x \<Rightarrow> now < x)"

lemma after_simps [simp]: "\<not> after None now" "after (Some x) now \<longleftrightarrow> now < x"
  by (simp_all add: after_def)

definition init_lease_active :: "sandbox_record \<Rightarrow> time \<Rightarrow> bool" where
  "init_lease_active r now = after (init_expires_at r) now"

definition START_GRACE :: timedelta where
  "START_GRACE = minutes 5"

definition start_in_progress :: "sandbox_record \<Rightarrow> time \<Rightarrow> bool" where
  "start_in_progress r now = (sb_state r = STARTING \<and> now - START_GRACE < updated_at r)"

text \<open>Whether the start lease is still running, the first test of \<open>acquire_start\<close>.\<close>

abbreviation lease_live :: "sandbox_record \<Rightarrow> time \<Rightarrow> bool" where
  "lease_live r now \<equiv> after (lease_expires_at r) now"

subsection \<open>Identifiers\<close>

definition owner_domain :: string where
  "owner_domain = ''kirocrew-owner-v1'' @ [CHR 0x00]"

definition derive :: "(string \<Rightarrow> string) \<Rightarrow> string \<Rightarrow> (registry_error, string) result" where
  "derive sha subject =
     (if subject = [] then Inl (ValueErr ''Cognito subject must not be empty.'')
      else Inr (sha (owner_domain @ subject)))"

text \<open>
  \<open>"".join(_CROCKFORD[(value >> (5 * shift)) & 31] for shift in range(25, -1, -1))\<close> of the
  16 random bytes \<open>value\<close>.
\<close>

definition crockford26 :: "nat \<Rightarrow> string" where
  "crockford26 v = map (\<lambda>shift. crockford ! (v div 2 ^ (5 * shift) mod 32)) (rev [0..<26])"

definition new_sandbox_id :: "nat \<Rightarrow> string" where
  "new_sandbox_id v = ''sbx_'' @ crockford26 v"

text \<open>The regular expression \<open>sbx_[0-9A-Z]{26}\<close> that every broker entry point matches.\<close>

definition id_char :: "char \<Rightarrow> bool" where
  "id_char c = ((CHR ''0'' \<le> c \<and> c \<le> CHR ''9'') \<or> (CHR ''A'' \<le> c \<and> c \<le> CHR ''Z''))"

definition sandbox_pattern :: "string \<Rightarrow> bool" where
  "sandbox_pattern s = (length s = 30 \<and> take 4 s = ''sbx_'' \<and> list_all id_char (drop 4 s))"

lemma crockford_id_char: "i < 32 \<Longrightarrow> id_char (crockford ! i)"
proof -
  assume "i < 32"
  moreover have "list_all id_char crockford" by (simp add: crockford_def id_char_def less_eq_char_def)
  ultimately show ?thesis by (simp add: list_all_length)
qed

lemma base32_inject:
  fixes v w :: nat
  assumes "v < 32 ^ k" "w < 32 ^ k" "\<And>i. i < k \<Longrightarrow> v div 32 ^ i mod 32 = w div 32 ^ i mod 32"
  shows "v = w"
  using assms
proof (induction k arbitrary: v w)
  case 0
  then show ?case by simp
next
  case (Suc k)
  have "v div 32 = w div 32"
  proof (rule Suc.IH)
    show "v div 32 < 32 ^ k" "w div 32 < 32 ^ k"
      using Suc.prems(1,2) by (simp_all add: less_mult_imp_div_less mult.commute)
    fix i assume "i < k"
    then show "v div 32 div 32 ^ i mod 32 = w div 32 div 32 ^ i mod 32"
      using Suc.prems(3) [of "Suc i"] by (simp add: div_mult2_eq)
  qed
  moreover have "v mod 32 = w mod 32" using Suc.prems(3) [of 0] by simp
  ultimately show ?case by (metis div_mult_mod_eq)
qed

lemma crockford26_inject:
  assumes "v < 2 ^ 130" "w < 2 ^ 130" "crockford26 v = crockford26 w"
  shows "v = w"
proof (rule base32_inject [of v 26 w])
  show "v < 32 ^ 26" "w < 32 ^ 26" using assms(1,2) by simp_all
  fix i :: nat assume i: "i < 26"
  have pow: "(2::nat) ^ (5 * i) = 32 ^ i" by (simp add: power_mult)
  have "rev [0..<26] ! (25 - i) = i" using i by (subst rev_nth) auto
  moreover have "25 - i < length (rev [0..<26])" by simp
  ultimately have nth: "crockford26 u ! (25 - i) = crockford ! (u div 32 ^ i mod 32)" for u
    unfolding crockford26_def by (simp only: nth_map pow)
  from assms(3) have "crockford26 v ! (25 - i) = crockford26 w ! (25 - i)" by simp
  then show "v div 32 ^ i mod 32 = w div 32 ^ i mod 32"
    by (simp add: nth crockford_nth_eq)
qed

lemma sandbox_pattern_new: "sandbox_pattern (new_sandbox_id v)"
  by (auto simp: sandbox_pattern_def new_sandbox_id_def crockford26_def list_all_iff crockford_id_char)

subsection \<open>The in-memory registry\<close>

record registry =
  by_owner :: "string \<rightharpoonup> sandbox_record"
  owner_by_sandbox :: "string \<rightharpoonup> string"
  requests :: "string \<times> string \<rightharpoonup> string"
  histories :: "string \<rightharpoonup> (int \<times> history_event) list"
  wake_subjects :: "string \<rightharpoonup> string"
  registry_version :: string

text \<open>What the factories and the clock return while \<open>get_or_create\<close> builds a record.\<close>

record creation =
  drawn_sandbox :: string
  drawn_session :: string
  drawn_now :: time

definition empty_registry :: "string \<Rightarrow> registry" where
  "empty_registry version =
     \<lparr>by_owner = Map.empty, owner_by_sandbox = Map.empty, requests = Map.empty,
      histories = Map.empty, wake_subjects = Map.empty, registry_version = version\<rparr>"

definition store :: "sandbox_record \<Rightarrow> registry \<Rightarrow> registry" where
  "store r reg = reg\<lparr>by_owner := (by_owner reg)(owner_hash r \<mapsto> r),
                     owner_by_sandbox := (owner_by_sandbox reg)(sandbox_id r \<mapsto> owner_hash r)\<rparr>"

definition record_observation :: "sandbox_record \<Rightarrow> registry \<Rightarrow> registry" where
  "record_observation r reg =
     (let events = (case histories reg (sandbox_id r) of None \<Rightarrow> [] | Some es \<Rightarrow> es);
          event = \<lparr>he_version = state_version r, he_state = sb_state r, he_at = updated_at r\<rparr>
      in reg\<lparr>histories := (histories reg)(sandbox_id r \<mapsto>
           (if map_of events (state_version r) = None
            then events @ [(state_version r, event)] else events))\<rparr>)"

definition history :: "registry \<Rightarrow> string \<Rightarrow> int \<Rightarrow> (registry_error, history_event list) result" where
  "history reg sid limit =
     (if limit \<le> 0 then Inl (ValueErr ''History limit must be positive.'')
      else (let events = (case histories reg sid of None \<Rightarrow> [] | Some es \<Rightarrow> es)
            in Inr (take (nat limit) (rev (sort_key he_version (map snd events))))))"

definition new_record :: "string \<Rightarrow> string \<Rightarrow> creation \<Rightarrow> sandbox_record" where
  "new_record oh version c =
     \<lparr>owner_hash = oh, sandbox_id = drawn_sandbox c, runtime_session_id = drawn_session c,
      sb_state = STOPPED, state_version = 0, lease_owner = None, lease_expires_at = None,
      active_request_id = None, last_checkpoint_generation = None, last_restore = None,
      deletion_state = None, kiro_auth_mode = ''device-flow'', kirocrew_version = version,
      created_at = drawn_now c, updated_at = drawn_now c, init_expires_at = None,
      wake_hints = []\<rparr>"

definition get_or_create ::
  "(string \<Rightarrow> string) \<Rightarrow> creation \<Rightarrow> string \<Rightarrow> registry \<Rightarrow>
     registry \<times> (registry_error, sandbox_record) result" where
  "get_or_create sha c subject reg =
     (case derive sha subject of
        Inl e \<Rightarrow> (reg, Inl e)
      | Inr oh \<Rightarrow>
          (case by_owner reg oh of
             Some existing \<Rightarrow> (reg, Inr existing)
           | None \<Rightarrow>
               let r = new_record oh (registry_version reg) c
               in (reg\<lparr>by_owner := (by_owner reg)(oh \<mapsto> r),
                       owner_by_sandbox := (owner_by_sandbox reg)(sandbox_id r \<mapsto> oh)\<rparr>, Inr r)))"

definition mem_get ::
  "(string \<Rightarrow> string) \<Rightarrow> string \<Rightarrow> registry \<Rightarrow> (registry_error, sandbox_record) result" where
  "mem_get sha subject reg =
     (case derive sha subject of
        Inl e \<Rightarrow> Inl e
      | Inr oh \<Rightarrow>
          (case by_owner reg oh of
             None \<Rightarrow> Inl (SandboxUnavailable ''Sandbox is unavailable.'')
           | Some r \<Rightarrow> Inr r))"

definition authorize ::
  "(string \<Rightarrow> string) \<Rightarrow> string \<Rightarrow> string \<Rightarrow> string option \<Rightarrow> registry \<Rightarrow>
     (registry_error, sandbox_record) result" where
  "authorize sha subject sid session reg =
     (case mem_get sha subject reg of
        Inl e \<Rightarrow> Inl e
      | Inr r \<Rightarrow>
          if sandbox_id r \<noteq> sid \<or> (session \<noteq> None \<and> session \<noteq> Some (runtime_session_id r))
          then Inl (SandboxUnavailable ''Sandbox is unavailable.'')
          else Inr r)"

definition lease_of :: "sandbox_record \<Rightarrow> string \<Rightarrow> start_lease" where
  "lease_of r owner = \<lparr>sl_record = r, authoritative = (lease_owner r = Some owner)\<rparr>"

definition acquire_start ::
  "(string \<Rightarrow> string) \<Rightarrow> creation \<Rightarrow> string \<Rightarrow> time \<Rightarrow> string \<Rightarrow> string \<Rightarrow> timedelta \<Rightarrow> bool \<Rightarrow>
     registry \<Rightarrow> registry \<times> (registry_error, start_lease) result" where
  "acquire_start sha c rotated now subject owner ttl confirmed_inactive reg =
     (if owner = [] \<or> ttl \<le> 0
      then (reg, Inl (ValueErr ''Lease owner and positive TTL are required.''))
      else case get_or_create sha c subject reg of
        (reg1, Inl e) \<Rightarrow> (reg1, Inl e)
      | (reg1, Inr r) \<Rightarrow>
          if lease_live r now then (reg1, Inr (lease_of r owner))
          else if init_lease_active r now then (reg1, Inr (lease_of r owner))
          else if lease_owner r \<noteq> None \<and> lease_owner r \<noteq> Some owner \<and> sb_state r \<noteq> STOPPED
                  \<and> \<not> confirmed_inactive
          then (reg1, Inl (LeaseConflict ''Expired lease requires authoritative-owner confirmation.''))
          else if start_in_progress r now \<and> \<not> confirmed_inactive
          then (reg1, Inr (lease_of r owner))
          else let updated = r\<lparr>sb_state := STARTING, state_version := state_version r + 1,
                               runtime_session_id := rotated, lease_owner := Some rotated,
                               lease_expires_at := Some (now + ttl), active_request_id := None,
                               updated_at := now\<rparr>
               in (store updated reg1, Inr \<lparr>sl_record = updated, authoritative = True\<rparr>))"

definition heartbeat ::
  "(string \<Rightarrow> string) \<Rightarrow> time \<Rightarrow> string \<Rightarrow> string \<Rightarrow> timedelta \<Rightarrow> registry \<Rightarrow>
     registry \<times> (registry_error, sandbox_record) result" where
  "heartbeat sha now subject owner ttl reg =
     (if ttl \<le> 0 then (reg, Inl (ValueErr ''Heartbeat TTL must be positive.''))
      else case mem_get sha subject reg of
        Inl e \<Rightarrow> (reg, Inl e)
      | Inr r \<Rightarrow>
          if lease_owner r \<noteq> Some owner \<or> \<not> lease_live r now
          then (reg, Inl (LeaseConflict ''Sandbox lease is not owned by this runtime.''))
          else let updated = r\<lparr>state_version := state_version r + 1,
                               lease_expires_at := Some (now + ttl), updated_at := now\<rparr>
               in (store updated reg, Inr updated))"

definition transition ::
  "(string \<Rightarrow> string) \<Rightarrow> time \<Rightarrow> string \<Rightarrow> sandbox_state \<Rightarrow> int \<Rightarrow> string option \<Rightarrow> registry \<Rightarrow>
     registry \<times> (registry_error, sandbox_record) result" where
  "transition sha now subject target expected_version owner reg =
     (case mem_get sha subject reg of
        Inl e \<Rightarrow> (reg, Inl e)
      | Inr r \<Rightarrow>
          if state_version r \<noteq> expected_version
          then (reg, Inl (StateConflict ''Sandbox state version changed.''))
          else if lease_owner r \<noteq> owner
          then (reg, Inl (LeaseConflict ''Sandbox lease is not owned by this runtime.''))
          else if target \<notin> set (allowed_transitions (sb_state r))
          then (reg, Inl (StateConflict ''Lifecycle transition is not allowed.''))
          else let stopped = (target = STOPPED);
                   updated = r\<lparr>sb_state := target, state_version := state_version r + 1,
                     lease_owner := (if stopped then None else lease_owner r),
                     lease_expires_at := (if stopped then None else lease_expires_at r),
                     active_request_id := (if target \<noteq> BUSY then None else active_request_id r),
                     updated_at := now\<rparr>
               in (store updated reg, Inr updated))"

definition accept_request ::
  "(string \<Rightarrow> string) \<Rightarrow> time \<Rightarrow> string \<Rightarrow> string \<Rightarrow> string \<Rightarrow> string \<Rightarrow> registry \<Rightarrow>
     registry \<times> (registry_error, request_disposition) result" where
  "accept_request sha now subject owner request_id payload_digest reg =
     (if request_id = [] \<or> payload_digest = []
      then (reg, Inl (ValueErr ''Request ID and payload digest are required.''))
      else case mem_get sha subject reg of
        Inl e \<Rightarrow> (reg, Inl e)
      | Inr r \<Rightarrow>
          if lease_owner r \<noteq> Some owner
          then (reg, Inl (LeaseConflict ''Sandbox lease is not owned by this runtime.''))
          else let key = (sandbox_id r, request_id) in
            (case requests reg key of
               None \<Rightarrow>
                 (store (r\<lparr>active_request_id := Some request_id,
                          state_version := state_version r + 1, updated_at := now\<rparr>)
                    (reg\<lparr>requests := (requests reg)(key \<mapsto> payload_digest)\<rparr>), Inr NEW)
             | Some existing \<Rightarrow>
                 if existing = payload_digest then (reg, Inr DUPLICATE)
                 else (reg, Inl (IdempotencyConflict
                        ''Request ID was reused with another payload.''))))"

definition record_checkpoint ::
  "(string \<Rightarrow> string) \<Rightarrow> time \<Rightarrow> string \<Rightarrow> string \<Rightarrow> int \<Rightarrow> string option \<Rightarrow> registry \<Rightarrow>
     registry \<times> (registry_error, sandbox_record) result" where
  "record_checkpoint sha now subject owner generation restore_result reg =
     (if generation \<le> 0 then (reg, Inl (ValueErr ''Checkpoint generation must be positive.''))
      else case mem_get sha subject reg of
        Inl e \<Rightarrow> (reg, Inl e)
      | Inr r \<Rightarrow>
          if lease_owner r \<noteq> Some owner
          then (reg, Inl (LeaseConflict ''Sandbox lease is not owned by this runtime.''))
          else let updated = r\<lparr>state_version := state_version r + 1,
                     last_checkpoint_generation := Some generation,
                     last_restore := restore_result, updated_at := now\<rparr>
               in (store updated reg, Inr updated))"

definition request_deletion ::
  "(string \<Rightarrow> string) \<Rightarrow> time \<Rightarrow> string \<Rightarrow> registry \<Rightarrow>
     registry \<times> (registry_error, sandbox_record) result" where
  "request_deletion sha now subject reg =
     (case mem_get sha subject reg of
        Inl e \<Rightarrow> (reg, Inl e)
      | Inr r \<Rightarrow>
          if sb_state r \<noteq> STOPPED
          then (reg, Inl (StateConflict ''Sandbox must be stopped before deletion.''))
          else let updated = r\<lparr>state_version := state_version r + 1,
                     deletion_state := Some ''REQUESTED'', updated_at := now\<rparr>
               in (store updated reg, Inr updated))"

definition record_wake_subject ::
  "string \<Rightarrow> string \<Rightarrow> registry \<Rightarrow> registry \<times> (registry_error, unit) result" where
  "record_wake_subject sid sealed reg =
     (if sealed = [] then (reg, Inl (ValueErr ''Sealed wake subject is required.''))
      else if owner_by_sandbox reg sid = None
      then (reg, Inl (SandboxUnavailable ''Sandbox is unavailable.''))
      else (reg\<lparr>wake_subjects := (wake_subjects reg)(sid \<mapsto> sealed)\<rparr>, Inr ()))"

definition wake_subject :: "registry \<Rightarrow> string \<Rightarrow> string option" where
  "wake_subject reg sid = wake_subjects reg sid"

lemmas registry_op_defs =
  get_or_create_def mem_get_def acquire_start_def heartbeat_def transition_def
  accept_request_def record_checkpoint_def request_deletion_def record_wake_subject_def

subsection \<open>What every operation keeps\<close>

text \<open>
  The invariant of a record: a stopped sandbox has no lease, a lease has an owner, the
  owner is the runtime session the record names, and no container claims initialization
  (only the broker writes that field).
\<close>

definition record_ok :: "sandbox_record \<Rightarrow> bool" where
  "record_ok r =
     ((lease_owner r = None \<longleftrightarrow> lease_expires_at r = None) \<and>
      (sb_state r = STOPPED \<longrightarrow> lease_owner r = None) \<and>
      (lease_owner r = None \<or> lease_owner r = Some (runtime_session_id r)) \<and>
      0 \<le> state_version r \<and> init_expires_at r = None)"

text \<open>The two indexes of the registry agree, so no two owners share a sandbox id.\<close>

definition registry_ok :: "registry \<Rightarrow> bool" where
  "registry_ok reg =
     (\<forall>oh r. by_owner reg oh = Some r \<longrightarrow>
        owner_hash r = oh \<and> owner_by_sandbox reg (sandbox_id r) = Some oh \<and> record_ok r)"

lemma registry_okD:
  assumes "registry_ok reg" "by_owner reg oh = Some r"
  shows "owner_hash r = oh" "owner_by_sandbox reg (sandbox_id r) = Some oh" "record_ok r"
  using assms by (auto simp: registry_ok_def)

lemma sandbox_id_unique:
  assumes "registry_ok reg" "by_owner reg a = Some r" "by_owner reg b = Some r'"
    "sandbox_id r = sandbox_id r'"
  shows "a = b"
  using registry_okD(2) [OF assms(1,2)] registry_okD(2) [OF assms(1,3)] assms(4) by simp

lemma registry_ok_empty: "registry_ok (empty_registry v)"
  by (simp add: registry_ok_def empty_registry_def)

lemma store_simps [simp]:
  "by_owner (store r reg) = (by_owner reg)(owner_hash r \<mapsto> r)"
  "owner_by_sandbox (store r reg) = (owner_by_sandbox reg)(sandbox_id r \<mapsto> owner_hash r)"
  "requests (store r reg) = requests reg"
  "histories (store r reg) = histories reg"
  "wake_subjects (store r reg) = wake_subjects reg"
  by (simp_all add: store_def)

text \<open>
  The decision both registries make once they have the record: an answer that changes
  nothing, or the record to store for a new session.
\<close>

definition start_answer ::
  "sandbox_record \<Rightarrow> time \<Rightarrow> string \<Rightarrow> bool \<Rightarrow> (registry_error, start_lease) result option" where
  "start_answer r now owner ci =
     (if lease_live r now \<or> init_lease_active r now then Some (Inr (lease_of r owner))
      else if lease_owner r \<noteq> None \<and> lease_owner r \<noteq> Some owner \<and> sb_state r \<noteq> STOPPED \<and> \<not> ci
      then Some (Inl (LeaseConflict ''Expired lease requires authoritative-owner confirmation.''))
      else if start_in_progress r now \<and> \<not> ci then Some (Inr (lease_of r owner))
      else None)"

definition started :: "sandbox_record \<Rightarrow> string \<Rightarrow> time \<Rightarrow> timedelta \<Rightarrow> sandbox_record" where
  "started r rotated now ttl =
     r\<lparr>sb_state := STARTING, state_version := state_version r + 1,
       runtime_session_id := rotated, lease_owner := Some rotated,
       lease_expires_at := Some (now + ttl), active_request_id := None, updated_at := now\<rparr>"

lemma acquire_start_alt:
  "owner \<noteq> [] \<Longrightarrow> 0 < ttl \<Longrightarrow> acquire_start sha c rotated now subject owner ttl ci reg =
     (case get_or_create sha c subject reg of
        (reg1, Inl e) \<Rightarrow> (reg1, Inl e)
      | (reg1, Inr r) \<Rightarrow>
          (case start_answer r now owner ci of
             Some a \<Rightarrow> (reg1, a)
           | None \<Rightarrow> (store (started r rotated now ttl) reg1,
               Inr \<lparr>sl_record = started r rotated now ttl, authoritative = True\<rparr>)))"
  by (auto simp: acquire_start_def start_answer_def started_def Let_def split: prod.splits sum.splits)

text \<open>
  Storing a new version of a record the registry holds: same owner and sandbox, and an
  invariant of its own. Every operation below updates the registry only this way.
\<close>

lemma registry_ok_store:
  assumes ok: "registry_ok reg" and r: "by_owner reg oh = Some r"
    and same: "owner_hash r' = owner_hash r" "sandbox_id r' = sandbox_id r" and r': "record_ok r'"
  shows "registry_ok (store r' reg)"
proof -
  have "owner_hash r' = oh" "owner_by_sandbox reg (sandbox_id r') = Some oh"
    using registry_okD [OF ok r] same by simp_all
  with ok r' show ?thesis
    by (auto simp: registry_ok_def split: if_splits) (metis option.inject)
qed

lemma registry_ok_frame:
  "by_owner reg' = by_owner reg \<Longrightarrow> owner_by_sandbox reg' = owner_by_sandbox reg \<Longrightarrow>
     registry_ok reg' \<longleftrightarrow> registry_ok reg"
  by (simp add: registry_ok_def)

lemma mem_get_Inr:
  "mem_get sha subject reg = Inr r \<longleftrightarrow>
     subject \<noteq> [] \<and> by_owner reg (sha (owner_domain @ subject)) = Some r"
  by (auto simp: mem_get_def derive_def split: option.splits)

lemma get_or_create_cases:
  "get_or_create sha c subject reg =
    (if subject = [] then (reg, Inl (ValueErr ''Cognito subject must not be empty.''))
     else case mem_get sha subject reg of
       Inr r \<Rightarrow> (reg, Inr r)
     | Inl _ \<Rightarrow> (store (new_record (sha (owner_domain @ subject)) (registry_version reg) c) reg,
                Inr (new_record (sha (owner_domain @ subject)) (registry_version reg) c)))"
  by (auto simp: get_or_create_def mem_get_def derive_def Let_def store_def new_record_def
      split: option.splits)

lemma record_ok_new: "record_ok (new_record oh v c)"
  by (simp add: record_ok_def new_record_def)

lemma new_record_simps [simp]:
  "owner_hash (new_record oh v c) = oh" "sandbox_id (new_record oh v c) = drawn_sandbox c"
  "runtime_session_id (new_record oh v c) = drawn_session c"
  "sb_state (new_record oh v c) = STOPPED" "lease_owner (new_record oh v c) = None"
  "lease_expires_at (new_record oh v c) = None" "state_version (new_record oh v c) = 0"
  "init_expires_at (new_record oh v c) = None"
  by (simp_all add: new_record_def)

text \<open>The identifier factory draws an id no sandbox has: 128 random bits in the source.\<close>

definition fresh_sandbox :: "creation \<Rightarrow> registry \<Rightarrow> bool" where
  "fresh_sandbox c reg = (owner_by_sandbox reg (drawn_sandbox c) = None)"

lemma registry_ok_get_or_create:
  assumes ok: "registry_ok reg" and fresh: "fresh_sandbox c reg"
    and goc: "get_or_create sha c subject reg = (reg', res)"
  shows "registry_ok reg'"
proof (cases "reg' = reg")
  case True
  with ok show ?thesis by simp
next
  case False
  let ?oh = "sha (owner_domain @ subject)"
  let ?r = "new_record ?oh (registry_version reg) c"
  from goc False have reg': "reg' = store ?r reg"
    by (auto simp: get_or_create_cases split: if_splits sum.splits)
  have "owner_by_sandbox reg (sandbox_id r) \<noteq> None" if "by_owner reg oh = Some r" for oh r
    using registry_okD [OF ok that] by simp
  with ok fresh show ?thesis
    unfolding reg' registry_ok_def fresh_sandbox_def
    by (auto simp: record_ok_new split: if_splits) (metis option.distinct(1))
qed

lemma registry_ok_acquire_start:
  assumes ok: "registry_ok reg" and fresh: "fresh_sandbox c reg"
    and acq: "acquire_start sha c rotated now subject owner ttl ci reg = (reg', res)"
  shows "registry_ok reg'"
proof -
  obtain reg1 res1 where goc: "get_or_create sha c subject reg = (reg1, res1)" by fastforce
  with ok fresh have ok1: "registry_ok reg1" by (rule registry_ok_get_or_create)
  show ?thesis
  proof (cases res1)
    case (Inl e)
    with acq goc ok ok1 show ?thesis by (auto simp: acquire_start_def split: if_splits)
  next
    case (Inr r)
    with goc have held: "by_owner reg1 (owner_hash r) = Some r"
      using ok by (auto simp: get_or_create_cases mem_get_Inr registry_ok_def
          split: if_splits sum.splits)
    show ?thesis
    proof (cases "reg' = reg \<or> reg' = reg1")
      case True
      with ok ok1 show ?thesis by auto
    next
      case False
      with acq goc Inr have "\<not> lease_live r now" "\<not> init_lease_active r now"
        and reg': "reg' = store (r\<lparr>sb_state := STARTING, state_version := state_version r + 1,
           runtime_session_id := rotated, lease_owner := Some rotated,
           lease_expires_at := Some (now + ttl), active_request_id := None,
           updated_at := now\<rparr>) reg1"
        by (auto simp: acquire_start_def Let_def split: if_splits)
      from registry_okD(3) [OF ok1 held] show ?thesis
        unfolding reg' by (intro registry_ok_store [OF ok1 held]) (auto simp: record_ok_def)
    qed
  qed
qed

lemma mem_get_held:
  assumes "registry_ok reg" "mem_get sha subject reg = Inr r"
  shows "by_owner reg (owner_hash r) = Some r" "record_ok r"
  using assms by (auto simp: mem_get_Inr dest: registry_okD)

text \<open>
  The shape the remaining operations share: they answer with an error and leave the
  registry alone, or store a new version of the caller's own record.
\<close>

lemma registry_ok_heartbeat:
  assumes ok: "registry_ok reg" and op: "heartbeat sha now subject owner ttl reg = (reg', res)"
  shows "registry_ok reg'"
proof (cases "reg' = reg")
  case False
  with op obtain r where r: "mem_get sha subject reg = Inr r" and reg': "reg' = store
      (r\<lparr>state_version := state_version r + 1, lease_expires_at := Some (now + ttl),
         updated_at := now\<rparr>) reg" "lease_owner r = Some owner" "lease_live r now"
    by (auto simp: heartbeat_def Let_def split: if_splits sum.splits)
  note held = mem_get_held [OF ok r]
  from held(2) reg'(2-) show ?thesis
    unfolding reg'(1) by (intro registry_ok_store [OF ok held(1)]) (auto simp: record_ok_def after_def
      split: option.splits)
qed (simp add: ok)

lemma registry_ok_transition:
  assumes ok: "registry_ok reg"
    and op: "transition sha now subject target ev owner reg = (reg', res)"
  shows "registry_ok reg'"
proof (cases "reg' = reg")
  case False
  with op obtain r where r: "mem_get sha subject reg = Inr r" and reg': "reg' = store
      (r\<lparr>sb_state := target, state_version := state_version r + 1,
         lease_owner := (if target = STOPPED then None else lease_owner r),
         lease_expires_at := (if target = STOPPED then None else lease_expires_at r),
         active_request_id := (if target \<noteq> BUSY then None else active_request_id r),
         updated_at := now\<rparr>) reg"
    by (auto simp: transition_def Let_def split: if_splits sum.splits)
  note held = mem_get_held [OF ok r]
  from held(2) show ?thesis
    unfolding reg' by (intro registry_ok_store [OF ok held(1)]) (auto simp: record_ok_def)
qed (simp add: ok)

lemma registry_ok_accept_request:
  assumes ok: "registry_ok reg"
    and op: "accept_request sha now subject owner rid pd reg = (reg', res)"
  shows "registry_ok reg'"
proof (cases "reg' = reg")
  case False
  with op obtain r where r: "mem_get sha subject reg = Inr r" and reg': "reg' = store
      (r\<lparr>active_request_id := Some rid, state_version := state_version r + 1,
         updated_at := now\<rparr>) (reg\<lparr>requests := (requests reg)((sandbox_id r, rid) \<mapsto> pd)\<rparr>)"
    by (auto simp: accept_request_def Let_def split: if_splits sum.splits option.splits)
  have ok': "registry_ok (reg\<lparr>requests := (requests reg)((sandbox_id r, rid) \<mapsto> pd)\<rparr>)"
    using ok by (simp add: registry_ok_def)
  note held = mem_get_held [OF ok r]
  from held show ?thesis
    unfolding reg' by (intro registry_ok_store [OF ok', of "owner_hash r"]) (auto simp: record_ok_def)
qed (simp add: ok)

lemma registry_ok_record_checkpoint:
  assumes ok: "registry_ok reg"
    and op: "record_checkpoint sha now subject owner g rr reg = (reg', res)"
  shows "registry_ok reg'"
proof (cases "reg' = reg")
  case False
  with op obtain r where r: "mem_get sha subject reg = Inr r" and reg': "reg' = store
      (r\<lparr>state_version := state_version r + 1, last_checkpoint_generation := Some g,
         last_restore := rr, updated_at := now\<rparr>) reg"
    by (auto simp: record_checkpoint_def Let_def split: if_splits sum.splits)
  note held = mem_get_held [OF ok r]
  from held(2) show ?thesis
    unfolding reg' by (intro registry_ok_store [OF ok held(1)]) (auto simp: record_ok_def)
qed (simp add: ok)

lemma registry_ok_request_deletion:
  assumes ok: "registry_ok reg" and op: "request_deletion sha now subject reg = (reg', res)"
  shows "registry_ok reg'"
proof (cases "reg' = reg")
  case False
  with op obtain r where r: "mem_get sha subject reg = Inr r" and reg': "reg' = store
      (r\<lparr>state_version := state_version r + 1, deletion_state := Some ''REQUESTED'',
         updated_at := now\<rparr>) reg"
    by (auto simp: request_deletion_def Let_def split: if_splits sum.splits)
  note held = mem_get_held [OF ok r]
  from held(2) show ?thesis
    unfolding reg' by (intro registry_ok_store [OF ok held(1)]) (auto simp: record_ok_def)
qed (simp add: ok)

subsection \<open>Histories of calls\<close>

text \<open>One call of the registry with what the factories and the clock return to it.\<close>

datatype registry_call =
  CallGetOrCreate creation string
| CallStart creation string time string string timedelta bool
| CallHeartbeat time string string timedelta
| CallTransition time string sandbox_state int "string option"
| CallAccept time string string string string
| CallCheckpoint time string string int "string option"
| CallDelete time string
| CallWakeSubject string string
| CallObserve sandbox_record

fun run_call :: "(string \<Rightarrow> string) \<Rightarrow> registry_call \<Rightarrow> registry \<Rightarrow> registry" where
  "run_call sha (CallGetOrCreate c s) reg = fst (get_or_create sha c s reg)"
| "run_call sha (CallStart c rot now s lo ttl ci) reg =
     fst (acquire_start sha c rot now s lo ttl ci reg)"
| "run_call sha (CallHeartbeat now s lo ttl) reg = fst (heartbeat sha now s lo ttl reg)"
| "run_call sha (CallTransition now s t ev lo) reg = fst (transition sha now s t ev lo reg)"
| "run_call sha (CallAccept now s lo rid pd) reg = fst (accept_request sha now s lo rid pd reg)"
| "run_call sha (CallCheckpoint now s lo g rr) reg =
     fst (record_checkpoint sha now s lo g rr reg)"
| "run_call sha (CallDelete now s) reg = fst (request_deletion sha now s reg)"
| "run_call sha (CallWakeSubject sid sealed) reg = fst (record_wake_subject sid sealed reg)"
| "run_call sha (CallObserve r) reg = record_observation r reg"

fun call_fresh :: "registry_call \<Rightarrow> registry \<Rightarrow> bool" where
  "call_fresh (CallGetOrCreate c s) reg = fresh_sandbox c reg"
| "call_fresh (CallStart c rot now s lo ttl ci) reg = fresh_sandbox c reg"
| "call_fresh _ reg = True"

inductive reachable :: "(string \<Rightarrow> string) \<Rightarrow> registry \<Rightarrow> bool" for sha where
  start: "reachable sha (empty_registry v)"
| call: "reachable sha reg \<Longrightarrow> call_fresh c reg \<Longrightarrow> reachable sha (run_call sha c reg)"

lemma registry_ok_run_call:
  assumes "registry_ok reg" "call_fresh c reg"
  shows "registry_ok (run_call sha c reg)"
proof (cases c)
  case (CallGetOrCreate cr s)
  with registry_ok_get_or_create [OF assms(1) _ prod.collapse [symmetric], of cr sha s] assms(2)
  show ?thesis by simp
next
  case (CallStart cr rot now s lo ttl ci)
  with assms(2) registry_ok_acquire_start
    [OF assms(1) _ prod.collapse [symmetric], of cr sha rot now s lo ttl ci]
  show ?thesis by simp
next
  case (CallHeartbeat now s lo ttl)
  with registry_ok_heartbeat [OF assms(1) prod.collapse [symmetric], of sha now s lo ttl] show ?thesis by simp
next
  case (CallTransition now s t ev lo)
  with registry_ok_transition [OF assms(1) prod.collapse [symmetric], of sha now s t ev lo] show ?thesis by simp
next
  case (CallAccept now s lo rid pd)
  with registry_ok_accept_request [OF assms(1) prod.collapse [symmetric], of sha now s lo rid pd] show ?thesis by simp
next
  case (CallCheckpoint now s lo g rr)
  with registry_ok_record_checkpoint [OF assms(1) prod.collapse [symmetric], of sha now s lo g rr] show ?thesis by simp
next
  case (CallDelete now s)
  with registry_ok_request_deletion [OF assms(1) prod.collapse [symmetric], of sha now s] show ?thesis by simp
next
  case (CallWakeSubject sid sealed)
  with assms show ?thesis by (auto simp: record_wake_subject_def registry_ok_def)
next
  case (CallObserve r)
  with assms show ?thesis by (simp add: record_observation_def registry_ok_def Let_def)
qed

lemma reachable_registry_ok: "reachable sha reg \<Longrightarrow> registry_ok reg"
  by (induction rule: reachable.induct) (auto intro: registry_ok_empty registry_ok_run_call)

text \<open>
  What one call may do to a record that exists: keep its identity; keep its state; move it
  along the table of transitions; or, when no lease and no initialization holds it, start it
  again under a session the factory has just drawn.
\<close>

definition restarted :: "sandbox_record \<Rightarrow> sandbox_record \<Rightarrow> registry_call \<Rightarrow> bool" where
  "restarted r r' c =
     (case c of
        CallStart _ rot now s lo ttl ci \<Rightarrow>
          sb_state r' = STARTING \<and> runtime_session_id r' = rot \<and> lease_owner r' = Some rot \<and>
          lease_expires_at r' = Some (now + ttl) \<and> \<not> lease_live r now \<and>
          \<not> init_lease_active r now \<and>
          (ci \<or> \<not> start_in_progress r now) \<and>
          (ci \<or> sb_state r = STOPPED \<or> lease_owner r = None \<or> lease_owner r = Some lo)
      | _ \<Rightarrow> False)"

definition evolves :: "registry_call \<Rightarrow> sandbox_record \<Rightarrow> sandbox_record \<Rightarrow> bool" where
  "evolves c r r' =
     (owner_hash r' = owner_hash r \<and> sandbox_id r' = sandbox_id r \<and>
      created_at r' = created_at r \<and>
      (r' = r \<or> state_version r' = state_version r + 1 \<and>
         (runtime_session_id r' = runtime_session_id r \<and>
            (sb_state r' = sb_state r \<or> sb_state r' \<in> set (allowed_transitions (sb_state r)))
          \<or> restarted r r' c)))"

lemma evolves_refl [simp]: "evolves c r r"
  by (simp add: evolves_def)

lemma evolves_keep:
  assumes "owner_hash r' = owner_hash r" "sandbox_id r' = sandbox_id r"
    "created_at r' = created_at r" "state_version r' = state_version r + 1"
    "runtime_session_id r' = runtime_session_id r"
    "sb_state r' = sb_state r \<or> sb_state r' \<in> set (allowed_transitions (sb_state r))"
  shows "evolves c r r'"
  using assms by (simp add: evolves_def)

lemma evolves_store:
  assumes ok: "registry_ok reg" and r: "by_owner reg oh = Some r"
    and r0: "by_owner reg (owner_hash r0) = Some r0"
    and ev: "evolves c r0 r'"
    and bo: "by_owner reg2 = by_owner reg"
  shows "\<exists>r''. by_owner (store r' reg2) oh = Some r'' \<and> evolves c r r''"
proof (cases "oh = owner_hash r0")
  case True
  moreover have "owner_hash r' = owner_hash r0" using ev by (simp add: evolves_def)
  ultimately show ?thesis using r r0 ev by simp
next
  case False
  moreover have "owner_hash r' = owner_hash r0" using ev by (simp add: evolves_def)
  ultimately show ?thesis using r bo by simp
qed

text \<open>Every call of the registry moves each record it holds by at most one such step.\<close>

lemma evolves_frame:
  assumes "by_owner reg' = by_owner reg" "by_owner reg oh = Some r"
  shows "\<exists>r'. by_owner reg' oh = Some r' \<and> evolves c r r'"
  using assms by auto

lemma evolves_acquire_start:
  assumes ok: "registry_ok reg" and fresh: "fresh_sandbox cr reg" and r: "by_owner reg oh = Some r"
  shows "\<exists>r'. by_owner (fst (acquire_start sha cr rot now s lo ttl ci reg)) oh = Some r' \<and>
    evolves (CallStart cr rot now s lo ttl ci) r r'"
proof -
  obtain reg1 res1 where goc: "get_or_create sha cr s reg = (reg1, res1)" by fastforce
  with ok fresh have ok1: "registry_ok reg1" by (rule registry_ok_get_or_create)
  have r1: "by_owner reg1 oh = Some r"
    using goc r by (auto simp: get_or_create_cases mem_get_def derive_def split: if_splits option.splits)
  show ?thesis
  proof (cases res1)
    case (Inl e)
    with goc r r1 show ?thesis by (simp add: acquire_start_def)
  next
    case (Inr r0)
    with goc have held: "by_owner reg1 (owner_hash r0) = Some r0"
      using ok by (auto simp: get_or_create_cases mem_get_Inr registry_ok_def
          split: if_splits sum.splits)
    let ?u = "r0\<lparr>sb_state := STARTING, state_version := state_version r0 + 1,
       runtime_session_id := rot, lease_owner := Some rot, lease_expires_at := Some (now + ttl),
       active_request_id := None, updated_at := now\<rparr>"
    have "evolves (CallStart cr rot now s lo ttl ci) r0 ?u"
      if "\<not> lease_live r0 now" "\<not> init_lease_active r0 now" "ci \<or> \<not> start_in_progress r0 now"
        "ci \<or> sb_state r0 = STOPPED \<or> lease_owner r0 = None \<or> lease_owner r0 = Some lo"
      using that by (simp add: evolves_def restarted_def)
    from evolves_store [OF ok1 r1 held this refl] goc Inr r r1 show ?thesis
      by (auto simp: acquire_start_def Let_def simp del: store_simps)
  qed
qed

lemma evolves_run_call:
  assumes ok: "registry_ok reg" and fresh: "call_fresh c reg" and r: "by_owner reg oh = Some r"
  shows "\<exists>r'. by_owner (run_call sha c reg) oh = Some r' \<and> evolves c r r'"
proof (cases c)
  case (CallGetOrCreate cr s)
  with r show ?thesis
    by (auto simp: get_or_create_cases mem_get_def derive_def split: option.splits)
next
  case (CallStart cr rot now s lo ttl ci)
  with evolves_acquire_start [OF ok _ r] fresh show ?thesis by simp
next
  case (CallHeartbeat now s lo ttl)
  with r mem_get_held(1) [OF ok, of sha s] show ?thesis
    by (auto simp: heartbeat_def Let_def simp del: store_simps split: sum.splits
        intro!: evolves_store [OF ok r] evolves_keep)
next
  case (CallTransition now s t ev lo)
  with r mem_get_held(1) [OF ok, of sha s] show ?thesis
    by (auto simp: transition_def Let_def simp del: store_simps split: sum.splits
        intro!: evolves_store [OF ok r] evolves_keep)
next
  case (CallAccept now s lo rid pd)
  with r mem_get_held(1) [OF ok, of sha s] show ?thesis
    by (auto simp: accept_request_def Let_def simp del: store_simps
        split: sum.splits option.splits intro!: evolves_store [OF ok r] evolves_keep)
next
  case (CallCheckpoint now s lo g rr)
  with r mem_get_held(1) [OF ok, of sha s] show ?thesis
    by (auto simp: record_checkpoint_def Let_def simp del: store_simps split: sum.splits
        intro!: evolves_store [OF ok r] evolves_keep)
next
  case (CallDelete now s)
  with r mem_get_held(1) [OF ok, of sha s] show ?thesis
    by (auto simp: request_deletion_def Let_def simp del: store_simps split: sum.splits
        intro!: evolves_store [OF ok r] evolves_keep)
next
  case (CallWakeSubject sid sealed)
  with r show ?thesis by (simp add: record_wake_subject_def)
next
  case (CallObserve r1)
  with r show ?thesis by (simp add: record_observation_def Let_def)
qed

subsection \<open>Later histories\<close>

text \<open>A sequence of calls, each with the identifier factory keeping its promise.\<close>

fun run_calls :: "(string \<Rightarrow> string) \<Rightarrow> registry_call list \<Rightarrow> registry \<Rightarrow> registry" where
  "run_calls sha [] reg = reg"
| "run_calls sha (c # cs) reg = run_calls sha cs (run_call sha c reg)"

fun calls_fresh :: "(string \<Rightarrow> string) \<Rightarrow> registry_call list \<Rightarrow> registry \<Rightarrow> bool" where
  "calls_fresh sha [] reg = True"
| "calls_fresh sha (c # cs) reg = (call_fresh c reg \<and> calls_fresh sha cs (run_call sha c reg))"

text \<open>The session a call would hand out if it starts a sandbox.\<close>

fun draws_session :: "string \<Rightarrow> registry_call \<Rightarrow> bool" where
  "draws_session session (CallStart c rot now s lo ttl ci) =
     (rot = session \<or> drawn_session c = session)"
| "draws_session session (CallGetOrCreate c s) = (drawn_session c = session)"
| "draws_session session _ = False"

lemma registry_ok_run_calls:
  "registry_ok reg \<Longrightarrow> calls_fresh sha cs reg \<Longrightarrow> registry_ok (run_calls sha cs reg)"
  by (induction cs arbitrary: reg) (auto intro: registry_ok_run_call)

lemma evolves_session:
  assumes "evolves c r r'" "\<not> draws_session session c" "runtime_session_id r \<noteq> session"
  shows "runtime_session_id r' \<noteq> session"
  using assms by (auto simp: evolves_def restarted_def split: registry_call.splits)

lemma session_stays_gone:
  assumes "registry_ok reg" "calls_fresh sha cs reg" "by_owner reg oh = Some r"
    "runtime_session_id r \<noteq> session" "\<forall>c\<in>set cs. \<not> draws_session session c"
  shows "\<exists>r'. by_owner (run_calls sha cs reg) oh = Some r' \<and> runtime_session_id r' \<noteq> session"
  using assms
proof (induction cs arbitrary: reg r)
  case (Cons c cs)
  from evolves_run_call [OF Cons.prems(1) _ Cons.prems(3), of c sha] Cons.prems(2)
  obtain r1 where r1: "by_owner (run_call sha c reg) oh = Some r1" "evolves c r r1" by auto
  have "runtime_session_id r1 \<noteq> session"
    using evolves_session [OF r1(2) _ Cons.prems(4)] Cons.prems(5) by simp
  with Cons.IH [OF _ _ r1(1)] Cons.prems registry_ok_run_call [OF Cons.prems(1), of c sha]
  show ?case by simp
qed auto

text \<open>What a caller that names itself as \<open>lease_owner\<close> gets when it does not hold the lease.\<close>

definition not_holder :: "(string \<Rightarrow> string) \<Rightarrow> string \<Rightarrow> string \<Rightarrow> registry \<Rightarrow> bool" where
  "not_holder sha subject owner reg =
     (\<forall>r. mem_get sha subject reg = Inr r \<longrightarrow> lease_owner r \<noteq> Some owner)"

lemma not_holder_refused:
  assumes "not_holder sha subject owner reg"
  shows "fst (heartbeat sha now subject owner ttl reg) = reg"
    "fst (transition sha now subject target ev (Some owner) reg) = reg"
    "fst (accept_request sha now subject owner rid pd reg) = reg"
    "fst (record_checkpoint sha now subject owner g rr reg) = reg"
    "\<not> is_ok (snd (heartbeat sha now subject owner ttl reg))"
    "\<not> is_ok (snd (transition sha now subject target ev (Some owner) reg))"
    "\<not> is_ok (snd (accept_request sha now subject owner rid pd reg))"
    "\<not> is_ok (snd (record_checkpoint sha now subject owner g rr reg))"
  using assms
  by (auto simp: not_holder_def heartbeat_def transition_def accept_request_def
      record_checkpoint_def Let_def split: sum.splits)

text \<open>A request a sandbox has accepted stays recorded with its digest.\<close>

lemma requests_run_call:
  "requests reg key = Some d \<Longrightarrow> requests (run_call sha c reg) key = Some d"
  by (cases c) (auto simp: get_or_create_cases acquire_start_def heartbeat_def transition_def
      accept_request_def record_checkpoint_def request_deletion_def record_wake_subject_def
      record_observation_def Let_def split: sum.splits option.splits prod.splits if_splits)

lemma requests_run_calls:
  "requests reg key = Some d \<Longrightarrow> requests (run_calls sha cs reg) key = Some d"
  by (induction cs arbitrary: reg) (auto intro: requests_run_call)

lemma sandbox_of_owner_kept:
  assumes "registry_ok reg" "calls_fresh sha cs reg" "by_owner reg oh = Some r"
  shows "\<exists>r'. by_owner (run_calls sha cs reg) oh = Some r' \<and> sandbox_id r' = sandbox_id r \<and>
     state_version r \<le> state_version r'"
  using assms
proof (induction cs arbitrary: reg r)
  case (Cons c cs)
  from evolves_run_call [OF Cons.prems(1) _ Cons.prems(3), of c sha] Cons.prems(2)
  obtain r1 where r1: "by_owner (run_call sha c reg) oh = Some r1" "evolves c r r1" by auto
  from Cons.IH [OF _ _ r1(1)] Cons.prems registry_ok_run_call [OF Cons.prems(1), of c sha]
  obtain r' where "by_owner (run_calls sha cs (run_call sha c reg)) oh = Some r'"
    "sandbox_id r' = sandbox_id r1" "state_version r1 \<le> state_version r'" by auto
  with r1(2) show ?case by (auto simp: evolves_def)
qed auto

text \<open>Calls made on behalf of one subject touch that owner's record only.\<close>

fun call_subject :: "registry_call \<Rightarrow> string option" where
  "call_subject (CallGetOrCreate c s) = Some s"
| "call_subject (CallStart c rot now s lo ttl ci) = Some s"
| "call_subject (CallHeartbeat now s lo ttl) = Some s"
| "call_subject (CallTransition now s t ev lo) = Some s"
| "call_subject (CallAccept now s lo rid pd) = Some s"
| "call_subject (CallCheckpoint now s lo g rr) = Some s"
| "call_subject (CallDelete now s) = Some s"
| "call_subject _ = None"

definition owner_of :: "(string \<Rightarrow> string) \<Rightarrow> string \<Rightarrow> string" where
  "owner_of sha subject = sha (owner_domain @ subject)"

lemma mem_get_owner:
  "registry_ok reg \<Longrightarrow> mem_get sha subject reg = Inr r \<Longrightarrow> owner_hash r = owner_of sha subject"
  by (auto simp: mem_get_Inr owner_of_def dest: registry_okD)

lemma get_or_create_owner:
  assumes "registry_ok reg" "get_or_create sha c subject reg = (reg1, Inr r)"
  shows "owner_hash r = owner_of sha subject"
    "oh \<noteq> owner_of sha subject \<Longrightarrow> by_owner reg1 oh = by_owner reg oh"
  using assms mem_get_owner [OF assms(1)]
  by (auto simp: get_or_create_cases owner_of_def split: if_splits sum.splits)

lemma run_call_other_owner:
  assumes ok: "registry_ok reg" and c: "call_subject c = Some s" "oh \<noteq> owner_of sha s"
  shows "by_owner (run_call sha c reg) oh = by_owner reg oh"
proof -
  have other: "mem_get sha s reg = Inr r \<Longrightarrow> oh \<noteq> owner_hash r" for r
    using mem_get_owner [OF ok, of sha s r] c(2) by simp
  show ?thesis
  proof (cases c)
    case (CallGetOrCreate cr s')
    with c show ?thesis by (auto simp: get_or_create_cases owner_of_def split: sum.splits)
  next
    case (CallStart cr rot now s' lo ttl ci)
    obtain reg1 res where goc: "get_or_create sha cr s reg = (reg1, res)" by fastforce
    have "by_owner reg1 oh = by_owner reg oh"
      using goc c by (auto simp: get_or_create_cases owner_of_def split: if_splits sum.splits)
    with goc get_or_create_owner(1) [OF ok, of sha cr s reg1] c CallStart show ?thesis
      by (cases res) (auto simp: acquire_start_def Let_def)
  next
    case (CallHeartbeat now s' lo ttl)
    with c(1) other show ?thesis by (auto simp: heartbeat_def Let_def split: sum.splits)
  next
    case (CallTransition now s' t ev lo)
    with c(1) other show ?thesis by (auto simp: transition_def Let_def split: sum.splits)
  next
    case (CallAccept now s' lo rid pd)
    with c(1) other show ?thesis
      by (auto simp: accept_request_def Let_def split: sum.splits option.splits)
  next
    case (CallCheckpoint now s' lo g rr)
    with c(1) other show ?thesis by (auto simp: record_checkpoint_def Let_def split: sum.splits)
  next
    case (CallDelete now s')
    with c(1) other show ?thesis by (auto simp: request_deletion_def Let_def split: sum.splits)
  qed (use c in simp_all)
qed

subsection \<open>Properties\<close>

text \<open>
  A sample history the witnesses below run: one visitor starts a sandbox, leases it for ten
  minutes and brings it up.
\<close>

definition sample_creation :: creation where
  "sample_creation = \<lparr>drawn_sandbox = ''sbx_A'', drawn_session = ''first'', drawn_now = 0\<rparr>"

definition sample_start :: registry_call where
  "sample_start = CallStart sample_creation ''session-1'' 5 ''user'' ''lambda'' (minutes 10) False"

definition sample_registry :: registry where
  "sample_registry = run_call id sample_start (empty_registry ''v1'')"

definition sample_record :: sandbox_record where
  "sample_record = \<lparr>owner_hash = owner_domain @ ''user'', sandbox_id = ''sbx_A'',
     runtime_session_id = ''session-1'', sb_state = STARTING, state_version = 1,
     lease_owner = Some ''session-1'', lease_expires_at = Some (5 + minutes 10),
     active_request_id = None, last_checkpoint_generation = None, last_restore = None,
     deletion_state = None, kiro_auth_mode = ''device-flow'', kirocrew_version = ''v1'',
     created_at = 0, updated_at = 5, init_expires_at = None, wake_hints = []\<rparr>"

lemma sample_held: "by_owner sample_registry (owner_domain @ ''user'') = Some sample_record"
  by (simp add: sample_registry_def sample_start_def sample_creation_def sample_record_def
      acquire_start_def get_or_create_def derive_def empty_registry_def new_record_def Let_def
      init_lease_active_def start_in_progress_def)

lemma sample_get: "mem_get id ''user'' sample_registry = Inr sample_record"
  using sample_held by (simp add: mem_get_Inr)

lemma sample_reachable: "reachable id sample_registry"
  unfolding sample_registry_def
  by (rule reachable.call [OF reachable.start])
    (simp add: sample_start_def fresh_sandbox_def empty_registry_def)

text \<open>
  (C10) In every registry a history of calls can produce, each record satisfies the lease
  invariant (a lease has an owner and an end, its owner is the session of the record, a
  stopped sandbox has none) and is the only record of its sandbox id; and the next call, whatever
  it is, keeps the record's identity and moves its state along the table of transitions, or
  starts it again once no lease holds it.
\<close>

theorem lifecycle_step:
  assumes "reachable sha reg" "call_fresh c reg" "by_owner reg oh = Some r"
  shows "record_ok r \<and> owner_by_sandbox reg (sandbox_id r) = Some oh \<and>
    (\<exists>r'. by_owner (run_call sha c reg) oh = Some r' \<and> evolves c r r' \<and> record_ok r')"
proof -
  note ok = reachable_registry_ok [OF assms(1)]
  from evolves_run_call [OF ok assms(2,3)] obtain r'
    where "by_owner (run_call sha c reg) oh = Some r'" "evolves c r r'" by blast
  with registry_okD [OF ok assms(3)] registry_okD(3) [OF registry_ok_run_call [OF ok assms(2)]]
  show ?thesis by blast
qed

lemma lifecycle_step_witness:
  "record_ok sample_record \<and>
    (\<exists>r'. by_owner (run_call id (CallTransition 9 ''user'' RESTORING 1 (Some ''session-1'')) sample_registry)
       (owner_domain @ ''user'') = Some r' \<and>
     evolves (CallTransition 9 ''user'' RESTORING 1 (Some ''session-1'')) sample_record r' \<and> record_ok r')"
  using lifecycle_step [OF sample_reachable _ sample_held,
      of "CallTransition 9 ''user'' RESTORING 1 (Some ''session-1'')"] by simp

text \<open>
  (C9) While a start lease runs, or a container's claim on initialization does, no start
  changes anything: whoever asks gets the record as it is, and holds the start only if it is
  already the owner of the lease.
\<close>

theorem live_lease_single_starter:
  assumes "mem_get sha subject reg = Inr r" "lease_live r now \<or> init_lease_active r now"
    "owner \<noteq> []" "0 < ttl"
  shows "acquire_start sha c rotated now subject owner ttl confirmed reg =
    (reg, Inr \<lparr>sl_record = r, authoritative = (lease_owner r = Some owner)\<rparr>)"
proof -
  have "subject \<noteq> []" using assms(1) by (simp add: mem_get_Inr)
  with assms show ?thesis by (auto simp: acquire_start_def get_or_create_cases lease_of_def)
qed

lemma live_lease_single_starter_witness:
  "acquire_start id sample_creation ''session-2'' 7 ''user'' ''other'' (minutes 10) True sample_registry =
    (sample_registry, Inr \<lparr>sl_record = sample_record, authoritative = False\<rparr>)"
proof -
  have "lease_live sample_record 7" "lease_owner sample_record = Some ''session-1''"
    by (simp_all add: sample_record_def minutes_def seconds_def)
  with live_lease_single_starter [OF sample_get, of 7 "''other''" "minutes 10"] show ?thesis
    by simp
qed



text \<open>
  A request the sandbox has accepted is executed once: whatever calls follow, offering the
  same identifier again with the same payload answers DUPLICATE, with another payload a
  conflict, and neither changes the registry.
\<close>

theorem accepted_request_once:
  assumes "reachable sha reg"
    and "accept_request sha now subject owner rid digest reg = (reg1, Inr NEW)"
    and "calls_fresh sha cs reg1"
    and "mem_get sha subject (run_calls sha cs reg1) = Inr r'" "lease_owner r' = Some owner'"
    and "digest' \<noteq> []"
  shows "accept_request sha now' subject owner' rid digest' (run_calls sha cs reg1) =
    (run_calls sha cs reg1,
     if digest' = digest then Inr DUPLICATE
     else Inl (IdempotencyConflict ''Request ID was reused with another payload.''))"
proof -
  note ok = reachable_registry_ok [OF assms(1)]
  from assms(2) obtain r where r: "mem_get sha subject reg = Inr r" and rid: "rid \<noteq> []"
    and reg1: "requests reg1 (sandbox_id r, rid) = Some digest"
      "by_owner reg1 = (by_owner reg)(owner_hash r \<mapsto>
         r\<lparr>active_request_id := Some rid, state_version := state_version r + 1, updated_at := now\<rparr>)"
    by (auto simp: accept_request_def Let_def split: if_splits sum.splits option.splits)
  have "registry_ok reg1" using registry_ok_accept_request [OF ok assms(2)] .
  moreover have "by_owner reg1 (owner_of sha subject) = Some
      (r\<lparr>active_request_id := Some rid, state_version := state_version r + 1, updated_at := now\<rparr>)"
    using reg1(2) mem_get_owner [OF ok r] by simp
  ultimately have "sandbox_id r' = sandbox_id r"
    using sandbox_of_owner_kept [OF _ assms(3)] assms(4)
    by (fastforce simp: mem_get_Inr owner_of_def)
  with requests_run_calls [OF reg1(1), of sha cs] assms(4-6) rid show ?thesis
    by (simp add: accept_request_def)
qed

lemma accepted_request_once_witness:
  "snd (accept_request id 30 ''user'' ''session-1'' ''req'' ''digest''
     (run_calls id [CallTransition 25 ''user'' RESTORING 2 (Some ''session-1'')]
       (fst (accept_request id 20 ''user'' ''session-1'' ''req'' ''digest'' sample_registry)))) =
   Inr DUPLICATE"
proof -
  let ?r1 = "sample_record\<lparr>active_request_id := Some ''req'', state_version := 2, updated_at := 20\<rparr>"
  let ?reg1 = "store ?r1 (sample_registry\<lparr>requests := (requests sample_registry)
    ((''sbx_A'', ''req'') \<mapsto> ''digest'')\<rparr>)"
  have none: "requests sample_registry = Map.empty"
    by (simp add: sample_registry_def sample_start_def acquire_start_def get_or_create_def
        derive_def empty_registry_def Let_def init_lease_active_def start_in_progress_def)
  have acc: "accept_request id 20 ''user'' ''session-1'' ''req'' ''digest'' sample_registry =
      (?reg1, Inr NEW)"
    by (simp add: accept_request_def sample_get none) (simp add: sample_record_def)
  have get1: "mem_get id ''user'' ?reg1 = Inr ?r1"
    by (simp add: mem_get_Inr) (simp add: sample_record_def)
  have get2: "mem_get id ''user'' (run_calls id [CallTransition 25 ''user'' RESTORING 2 (Some ''session-1'')] ?reg1)
      = Inr (?r1\<lparr>sb_state := RESTORING, state_version := 3, updated_at := 25, active_request_id := None\<rparr>)"
    by (simp add: transition_def get1 Let_def) (simp add: mem_get_Inr sample_record_def)
  show ?thesis
    using accepted_request_once [OF sample_reachable acc _ get2, of "''session-1''" "''digest''" 30] acc
    by (simp add: sample_record_def)
qed

text \<open>
  (C36) Tenants are isolated: unless two subjects collide under the digest, no call made for one
  of them changes what the other's calls read, nor lets the other's sandbox id through
  \<open>authorize\<close>.
\<close>

theorem tenants_isolated:
  assumes "reachable sha reg" "call_subject c = Some s" "owner_of sha s \<noteq> owner_of sha t"
  shows "mem_get sha t (run_call sha c reg) = mem_get sha t reg \<and>
    (\<forall>r. mem_get sha t reg = Inr r \<longrightarrow>
       \<not> is_ok (authorize sha s (sandbox_id r) session reg))"
proof
  note ok = reachable_registry_ok [OF assms(1)]
  show "mem_get sha t (run_call sha c reg) = mem_get sha t reg"
    using run_call_other_owner [OF ok assms(2), of "owner_of sha t" sha] assms(3)
    by (simp add: mem_get_def derive_def owner_of_def)
  have "\<not> is_ok (authorize sha s (sandbox_id r) session reg)" if r: "mem_get sha t reg = Inr r" for r
  proof (cases "mem_get sha s reg")
    case (Inr r')
    with r assms(3) sandbox_id_unique [OF ok, of "owner_of sha s" r' "owner_of sha t" r]
    have "sandbox_id r' \<noteq> sandbox_id r" by (auto simp: mem_get_Inr owner_of_def)
    with Inr show ?thesis by (simp add: authorize_def)
  qed (simp add: authorize_def)
  then show "\<forall>r. mem_get sha t reg = Inr r \<longrightarrow>
       \<not> is_ok (authorize sha s (sandbox_id r) session reg)" by blast
qed

lemma tenants_isolated_witness:
  "\<not> is_ok (authorize id ''mallory'' ''sbx_A'' None sample_registry)"
  using tenants_isolated [OF sample_reachable, of "CallDelete 9 ''mallory''" "''mallory''" "''user''" None]
    sample_get by (simp add: owner_of_def sample_record_def)

text \<open>
  Sandbox identifiers: every identifier the factory forms from 16 random bytes matches the
  pattern all entry points require, and different bytes give different identifiers.
\<close>

theorem sandbox_ids_well_formed_and_distinct:
  assumes "v < 2 ^ 128" "w < 2 ^ 128"
  shows "sandbox_pattern (new_sandbox_id v) \<and>
    (new_sandbox_id v = new_sandbox_id w \<longleftrightarrow> v = w)"
proof
  show "sandbox_pattern (new_sandbox_id v)" by (rule sandbox_pattern_new)
  have "v < 2 ^ 130" "w < 2 ^ 130" using assms by simp_all
  then show "new_sandbox_id v = new_sandbox_id w \<longleftrightarrow> v = w"
    by (auto simp: new_sandbox_id_def intro: crockford26_inject)
qed

lemma sandbox_ids_witness: "new_sandbox_id 0 \<noteq> new_sandbox_id (2 ^ 127)"
  using sandbox_ids_well_formed_and_distinct [of 0 "2 ^ 127"] by simp

lemma take_rev_sorted:
  fixes f :: "'a \<Rightarrow> int"
  assumes "sorted (map f xs)" "x \<in> set (take n (rev xs))" "y \<in> set (drop n (rev xs))"
  shows "f y \<le> f x"
proof -
  have "sorted_wrt (\<ge>) (map f (rev xs))"
    using assms(1) by (simp add: sorted_wrt_rev flip: rev_map)
  then have "sorted_wrt (\<ge>) (map f (take n (rev xs)) @ map f (drop n (rev xs)))"
    by (simp flip: map_append)
  with assms(2,3) show ?thesis by (auto simp: sorted_wrt_append)
qed

text \<open>
  The history of a sandbox: at most \<open>limit\<close> events, the newest first, all of them observed,
  and none left out is newer than one returned.
\<close>

theorem history_newest_first:
  assumes "history reg sid limit = Inr es" "histories reg sid = Some observed"
  shows "int (length es) \<le> limit \<and> sorted_wrt (\<ge>) (map he_version es) \<and>
    (\<exists>rest. mset es + mset rest = mset (map snd observed) \<and>
       (\<forall>e\<in>set es. \<forall>e'\<in>set rest. he_version e' \<le> he_version e))"
proof -
  let ?sorted = "sort_key he_version (map snd observed)"
  have es: "es = take (nat limit) (rev ?sorted)" "0 < limit"
    using assms by (auto simp: history_def Let_def split: if_splits)
  have srt: "sorted (map he_version ?sorted)" by simp
  have "sorted_wrt (\<ge>) (map he_version (rev ?sorted))"
    using srt by (simp add: sorted_wrt_rev flip: rev_map)
  then have "sorted_wrt (\<ge>) (map he_version es)" unfolding es(1) by (metis sorted_wrt_take take_map)
  moreover have "mset es + mset (drop (nat limit) (rev ?sorted)) = mset (map snd observed)"
    unfolding es(1) by (metis append_take_drop_id mset_append mset_rev mset_sort)
  moreover have "\<forall>e\<in>set es. \<forall>e'\<in>set (drop (nat limit) (rev ?sorted)). he_version e' \<le> he_version e"
    using take_rev_sorted [OF srt] es(1) by blast
  moreover have "int (length es) \<le> limit" using es by simp
  ultimately show ?thesis by blast
qed

lemma history_newest_first_witness:
  "\<exists>rest. mset [\<lparr>he_version = 2, he_state = READY, he_at = 9\<rparr>] + mset rest =
     mset [\<lparr>he_version = 1, he_state = STARTING, he_at = 5\<rparr>, \<lparr>he_version = 2, he_state = READY, he_at = 9\<rparr>] \<and>
     (\<forall>e'\<in>set rest. he_version e' \<le> 2)"
proof -
  let ?observed = "[(1::int, \<lparr>he_version = 1, he_state = STARTING, he_at = 5\<rparr>),
     (2, \<lparr>he_version = 2, he_state = READY, he_at = 9\<rparr>)]"
  let ?reg = "(empty_registry ''v1'')\<lparr>histories := [''sbx_A'' \<mapsto> ?observed]\<rparr>"
  have "history ?reg ''sbx_A'' 1 = Inr [\<lparr>he_version = 2, he_state = READY, he_at = 9\<rparr>]"
    by (simp add: history_def)
  from history_newest_first [OF this, of ?observed] show ?thesis by simp
qed

end
