(* ===== verification/Dynamo.thy ===== *)
theory Dynamo
  imports Clock
begin

text \<open>
  The DynamoDB table the Lambda functions share. The service itself is not part of the
  repository: it is an argument of every definition that calls it, a record of its operations
  over a state of any type. What the sources write down for it (items, condition and update
  expressions) is data here, transcribed from the expression strings; \<open>holds\<close> and
  \<open>apply_update\<close> say what those expressions mean, and \<open>dynamo_documented\<close> is the
  documented behaviour of the service that the properties assume of the argument.
\<close>

subsection \<open>Items and keys\<close>

type_synonym item = "string \<rightharpoonup> attr"
type_synonym key = "string \<times> string"
type_synonym table = "key \<rightharpoonup> item"

text \<open>\<open>item.get(name, {}).get("S")\<close> and \<open>item.get(name, {}).get("N")\<close>.\<close>

definition attr_s :: "item \<Rightarrow> string \<Rightarrow> string option" where
  "attr_s it name = (case it name of Some (AttrS s) \<Rightarrow> Some s | _ \<Rightarrow> None)"

definition attr_n :: "item \<Rightarrow> string \<Rightarrow> int option" where
  "attr_n it name = (case it name of Some (AttrN n) \<Rightarrow> Some n | _ \<Rightarrow> None)"

lemma attr_simps [simp]:
  "attr_s (it(k \<mapsto> AttrS v)) k = Some v" "attr_n (it(k \<mapsto> AttrN n)) k = Some n"
  "k \<noteq> k' \<Longrightarrow> attr_s (it(k \<mapsto> a)) k' = attr_s it k'"
  "k \<noteq> k' \<Longrightarrow> attr_n (it(k \<mapsto> a)) k' = attr_n it k'"
  "k \<noteq> k' \<Longrightarrow> attr_s (it(k := o')) k' = attr_s it k'"
  "k \<noteq> k' \<Longrightarrow> attr_n (it(k := o')) k' = attr_n it k'"
  "attr_s (it(k := None)) k = None" "attr_n (it(k := None)) k = None"
  "attr_s Map.empty k = None" "attr_n Map.empty k = None"
  by (simp_all add: attr_s_def attr_n_def)

lemma attr_s_Some: "attr_s it k = Some v \<longleftrightarrow> it k = Some (AttrS v)"
  by (auto simp: attr_s_def split: option.splits attr.splits)

lemma attr_n_Some: "attr_n it k = Some v \<longleftrightarrow> it k = Some (AttrN v)"
  by (auto simp: attr_n_def split: option.splits attr.splits)

text \<open>A put carries the primary key of its item as two of the attributes.\<close>

definition item_key :: "item \<Rightarrow> key" where
  "item_key it = (case (attr_s it ''pk'', attr_s it ''sk'') of
     (Some p, Some s) \<Rightarrow> (p, s) | _ \<Rightarrow> ([], []))"

subsection \<open>Condition expressions\<close>

datatype cond =
  AttributeExists string
| AttributeNotExists string
| Equals string attr
| Differs string attr
| Below string attr
| AtMost string attr
| OneOf string "attr list"
| Both cond cond
| Either cond cond
| Always

text \<open>Values compare within their type: text by code point, numbers by value.\<close>

fun attr_less :: "attr \<Rightarrow> attr \<Rightarrow> bool" where
  "attr_less (AttrS a) (AttrS b) = (a < b)"
| "attr_less (AttrN a) (AttrN b) = (a < b)"
| "attr_less _ _ = False"

text \<open>A comparison with an attribute the item does not have is false.\<close>

fun holds :: "cond \<Rightarrow> item \<Rightarrow> bool" where
  "holds (AttributeExists k) it = (it k \<noteq> None)"
| "holds (AttributeNotExists k) it = (it k = None)"
| "holds (Equals k v) it = (it k = Some v)"
| "holds (Differs k v) it = (it k \<noteq> None \<and> it k \<noteq> Some v)"
| "holds (Below k v) it = (case it k of None \<Rightarrow> False | Some a \<Rightarrow> attr_less a v)"
| "holds (AtMost k v) it = (case it k of None \<Rightarrow> False | Some a \<Rightarrow> attr_less a v \<or> a = v)"
| "holds (OneOf k vs) it = (case it k of None \<Rightarrow> False | Some a \<Rightarrow> a \<in> set vs)"
| "holds (Both c d) it = (holds c it \<and> holds d it)"
| "holds (Either c d) it = (holds c it \<or> holds d it)"
| "holds Always it = True"

fun all_of :: "cond list \<Rightarrow> cond" where
  "all_of [] = Always"
| "all_of [c] = c"
| "all_of (c # cs) = Both c (all_of cs)"

fun any_of :: "cond list \<Rightarrow> cond" where
  "any_of [] = Always"
| "any_of [c] = c"
| "any_of (c # cs) = Either c (any_of cs)"

lemma holds_all_of [simp]: "holds (all_of cs) it \<longleftrightarrow> (\<forall>c\<in>set cs. holds c it)"
  by (induction cs rule: all_of.induct) auto

lemma holds_any_of [simp]: "cs \<noteq> [] \<Longrightarrow> holds (any_of cs) it \<longleftrightarrow> (\<exists>c\<in>set cs. holds c it)"
  by (induction cs rule: any_of.induct) auto

subsection \<open>Update expressions\<close>

text \<open>\<open>SET a = :v, ... ADD n :i REMOVE b, ...\<close>\<close>

record update =
  up_set :: "(string \<times> attr) list"
  up_add :: "(string \<times> int) list"
  up_remove :: "string list"

definition add_number :: "string \<times> int \<Rightarrow> item \<Rightarrow> item" where
  "add_number p it = it(fst p \<mapsto> AttrN (snd p + (case attr_n it (fst p) of None \<Rightarrow> 0 | Some n \<Rightarrow> n)))"

definition apply_update :: "update \<Rightarrow> item \<Rightarrow> item" where
  "apply_update u it =
     fold (\<lambda>k it. it(k := None)) (up_remove u)
       (fold add_number (up_add u) (fold (\<lambda>p it. it(fst p \<mapsto> snd p)) (up_set u) it))"

lemma apply_update_simps:
  "apply_update \<lparr>up_set = (k, v) # xs, up_add = as, up_remove = rs\<rparr> it =
     apply_update \<lparr>up_set = xs, up_add = as, up_remove = rs\<rparr> (it(k \<mapsto> v))"
  "apply_update \<lparr>up_set = [], up_add = p # as, up_remove = rs\<rparr> it =
     apply_update \<lparr>up_set = [], up_add = as, up_remove = rs\<rparr> (add_number p it)"
  "apply_update \<lparr>up_set = [], up_add = [], up_remove = k # rs\<rparr> it =
     apply_update \<lparr>up_set = [], up_add = [], up_remove = rs\<rparr> (it(k := None))"
  "apply_update \<lparr>up_set = [], up_add = [], up_remove = []\<rparr> it = it"
  by (simp_all add: apply_update_def)

text \<open>The names an update touches, and that it leaves every other attribute alone.\<close>

definition touched :: "update \<Rightarrow> string set" where
  "touched u = fst ` set (up_set u) \<union> fst ` set (up_add u) \<union> set (up_remove u)"

lemma apply_update_frame: "k \<notin> touched u \<Longrightarrow> apply_update u it k = it k"
proof -
  assume k: "k \<notin> touched u"
  have "fold (\<lambda>p it. it(fst p \<mapsto> snd p)) xs it k = it k" if "k \<notin> fst ` set xs"
    for xs and it :: item
    using that by (induction xs arbitrary: it) auto
  moreover have "fold add_number xs it k = it k" if "k \<notin> fst ` set xs" for xs it
    using that by (induction xs arbitrary: it) (auto simp: add_number_def)
  moreover have "fold (\<lambda>k it. it(k := None)) xs it k = it k" if "k \<notin> set xs" for xs and it :: item
    using that by (induction xs arbitrary: it) auto
  ultimately show ?thesis using k by (simp add: apply_update_def touched_def)
qed

subsection \<open>The service\<close>

text \<open>
  The outcome of a write: done; refused because its condition does not hold, with the item
  that refused it (\<open>ReturnValuesOnConditionCheckFailure\<close>); a transaction cancelled, by
  a condition or by a conflicting transaction; or any other \<open>ClientError\<close>, with its
  code, after which the write may or may not have been made.
\<close>

datatype outcome = Written | Refused item | Cancelled | Failed string

datatype write_op =
  Put item cond
| Update key update cond

definition write_key :: "write_op \<Rightarrow> key" where
  "write_key w = (case w of Put it c \<Rightarrow> item_key it | Update k u c \<Rightarrow> k)"

definition write_cond :: "write_op \<Rightarrow> cond" where
  "write_cond w = (case w of Put it c \<Rightarrow> c | Update k u c \<Rightarrow> c)"

lemma write_simps [simp]:
  "write_key (Put it c) = item_key it" "write_key (Update k u c) = k"
  "write_cond (Put it c) = c" "write_cond (Update k u c) = c"
  by (simp_all add: write_key_def write_cond_def)

text \<open>A condition on a key without an item is evaluated against an item with no attributes.\<close>

definition item_at :: "table \<Rightarrow> key \<Rightarrow> item" where
  "item_at t k = (case t k of None \<Rightarrow> Map.empty | Some it \<Rightarrow> it)"

lemma item_at_simps [simp]:
  "item_at (t(k \<mapsto> it)) k = it" "k \<noteq> k' \<Longrightarrow> item_at (t(k \<mapsto> it)) k' = item_at t k'"
  "t k = Some it \<Longrightarrow> item_at t k = it" "t k = None \<Longrightarrow> item_at t k = Map.empty"
  by (simp_all add: item_at_def)

definition allowed :: "table \<Rightarrow> write_op \<Rightarrow> bool" where
  "allowed t w = holds (write_cond w) (item_at t (write_key w))"

definition perform :: "write_op \<Rightarrow> table \<Rightarrow> table" where
  "perform w t = t(write_key w \<mapsto>
     (case w of Put it c \<Rightarrow> it | Update k u c \<Rightarrow> apply_update u (item_at t k)))"

lemma perform_simps [simp]:
  "perform (Put it c) t = t(item_key it \<mapsto> it)"
  "perform (Update k u c) t = t(k \<mapsto> apply_update u (item_at t k))"
  by (simp_all add: perform_def)

text \<open>
  \<open>put_item\<close> and \<open>update_item\<close> are \<open>write_item\<close>; \<open>transact_write_items\<close> makes all of its
  writes under all of its conditions, or none. \<open>table_of\<close> is what a strongly consistent
  read of the service's state would see. \<open>query_items db pk prefix forward limit\<close> is a query
  for a partition and a prefix of its sort keys; only the order of its answer is used here.
\<close>

record 's dynamo =
  table_of :: "'s \<Rightarrow> table"
  get_item :: "key \<Rightarrow> 's \<Rightarrow> (string, item option) result"
  write_item :: "write_op \<Rightarrow> 's \<Rightarrow> 's \<times> outcome"
  transact_items :: "write_op list \<Rightarrow> 's \<Rightarrow> 's \<times> outcome"
  query_items :: "string \<Rightarrow> string \<Rightarrow> bool \<Rightarrow> int option \<Rightarrow> 's \<Rightarrow> (string, item list) result"

text \<open>What the documentation promises of the answer to writes \<open>ws\<close>.\<close>

definition written :: "table \<Rightarrow> write_op list \<Rightarrow> table \<Rightarrow> bool" where
  "written t ws t' = ((\<forall>w\<in>set ws. allowed t w) \<and> t' = fold perform ws t)"

fun write_answer :: "table \<Rightarrow> write_op \<Rightarrow> table \<Rightarrow> outcome \<Rightarrow> bool" where
  "write_answer t w t' Written = written t [w] t'"
| "write_answer t w t' (Refused it) = (\<not> allowed t w \<and> it = item_at t (write_key w) \<and> t' = t)"
| "write_answer t w t' Cancelled = False"
| "write_answer t w t' (Failed code) = (t' = t \<or> written t [w] t')"

fun transact_answer :: "table \<Rightarrow> write_op list \<Rightarrow> table \<Rightarrow> outcome \<Rightarrow> bool" where
  "transact_answer t ws t' Written = written t ws t'"
| "transact_answer t ws t' (Refused it) = False"
| "transact_answer t ws t' Cancelled = (t' = t)"
| "transact_answer t ws t' (Failed code) = (t' = t \<or> written t ws t')"

definition sort_text :: "item \<Rightarrow> string" where
  "sort_text it = (case attr_s it ''sk'' of None \<Rightarrow> [] | Some v \<Rightarrow> v)"

definition query_answer :: "string \<Rightarrow> string \<Rightarrow> bool \<Rightarrow> int option \<Rightarrow> item list \<Rightarrow> bool" where
  "query_answer pk prefix forward limit items =
     ((\<forall>it\<in>set items. attr_s it ''pk'' = Some pk \<and> starts_with (sort_text it) prefix) \<and>
      sorted_wrt (\<lambda>a b. if forward then sort_text a < sort_text b else sort_text b < sort_text a) items \<and>
      (case limit of None \<Rightarrow> True | Some n \<Rightarrow> length items \<le> nat n))"

definition dynamo_documented :: "'s dynamo \<Rightarrow> bool" where
  "dynamo_documented db =
     ((\<forall>k s it. get_item db k s = Inr it \<longrightarrow> it = table_of db s k) \<and>
      (\<forall>w s s' out. write_item db w s = (s', out) \<longrightarrow>
         write_answer (table_of db s) w (table_of db s') out) \<and>
      (\<forall>ws s s' out. transact_items db ws s = (s', out) \<longrightarrow>
         transact_answer (table_of db s) ws (table_of db s') out) \<and>
      (\<forall>pk prefix forward limit s items.
         query_items db pk prefix forward limit s = Inr items \<longrightarrow>
         query_answer pk prefix forward limit items))"

lemma dynamo_query:
  "dynamo_documented db \<Longrightarrow> query_items db pk prefix forward limit s = Inr items \<Longrightarrow>
     query_answer pk prefix forward limit items"
  unfolding dynamo_documented_def by metis

lemma dynamo_get: "dynamo_documented db \<Longrightarrow> get_item db k s = Inr it \<Longrightarrow> table_of db s k = it"
  unfolding dynamo_documented_def by metis

lemma dynamo_write:
  "dynamo_documented db \<Longrightarrow> write_item db w s = (s', out) \<Longrightarrow>
     write_answer (table_of db s) w (table_of db s') out"
  unfolding dynamo_documented_def by metis

lemma dynamo_transact:
  "dynamo_documented db \<Longrightarrow> transact_items db ws s = (s', out) \<Longrightarrow>
     transact_answer (table_of db s) ws (table_of db s') out"
  unfolding dynamo_documented_def by metis

text \<open>
  Whatever a write answers, the table it leaves is the old one, or the new one and then every
  condition held: what the invariants need.
\<close>

lemma write_answer_cases:
  "write_answer t w t' out \<Longrightarrow> t' = t \<or> written t [w] t'"
  by (cases out) auto

lemma transact_answer_cases:
  "transact_answer t ws t' out \<Longrightarrow> t' = t \<or> written t ws t'"
  by (cases out) auto

text \<open>
  A table held in memory, the service the witnesses run on. A map cannot be enumerated, so
  its queries come back empty, as an eventually consistent query may.
\<close>

definition table_service :: "table dynamo" where
  "table_service =
     \<lparr>table_of = (\<lambda>t. t),
      get_item = (\<lambda>k t. Inr (t k)),
      write_item = (\<lambda>w t.
        if allowed t w then (perform w t, Written) else (t, Refused (item_at t (write_key w)))),
      transact_items = (\<lambda>ws t.
        if list_all (allowed t) ws then (fold perform ws t, Written) else (t, Cancelled)),
      query_items = (\<lambda>pk prefix forward limit t. Inr [])\<rparr>"

lemma table_service_simps [simp]:
  "table_of table_service t = t" "get_item table_service k t = Inr (t k)"
  "write_item table_service w t =
     (if allowed t w then (perform w t, Written) else (t, Refused (item_at t (write_key w))))"
  "transact_items table_service ws t =
     (if list_all (allowed t) ws then (fold perform ws t, Written) else (t, Cancelled))"
  by (simp_all add: table_service_def)

lemma table_service_documented: "dynamo_documented table_service"
  by (auto simp: dynamo_documented_def written_def list_all_iff query_answer_def table_service_def
      split: if_splits option.splits)

end
