(* ===== verification/DynamoRegistry.thy ===== *)
theory DynamoRegistry
  imports Sandbox Dynamo "HOL-Library.AList"
begin

text \<open>
  \<open>kirocrew_agentcore_control/lambda_handler.py\<close>, \<open>class DynamoSandboxRegistry\<close> and
  \<open>DynamoCheckpointCatalog\<close>: the sandbox registry the deployed control plane runs, its
  records as items of the shared table. Every operation takes the service and its state.
\<close>

subsection \<open>Keys and items\<close>

definition owner_key :: "string \<Rightarrow> key" where
  "owner_key oh = (''OWNER#'' @ oh, ''SANDBOX'')"

definition sandbox_pk :: "string \<Rightarrow> string" where
  "sandbox_pk sid = ''SANDBOX#'' @ sid"

definition record_key :: "string \<Rightarrow> key" where
  "record_key sid = (sandbox_pk sid, ''METADATA'')"

lemma keys_differ [simp]:
  "owner_key oh \<noteq> record_key sid" "record_key sid \<noteq> owner_key oh"
  "owner_key a = owner_key b \<longleftrightarrow> a = b" "record_key a = record_key b \<longleftrightarrow> a = b"
  by (simp_all add: owner_key_def record_key_def sandbox_pk_def)

lemma remove_sandbox_pk [simp]: "remove_prefix (sandbox_pk sid) ''SANDBOX#'' = sid"
  unfolding sandbox_pk_def by (rule remove_prefix_append)

text \<open>\<open>_WAKE_HINT_ATTRIBUTES\<close>: the names with the type each must have.\<close>

definition hint_attributes :: "(string \<times> bool) list" where
  "hint_attributes =
     [(''nextDueAt'', True), (''nextDueJob'', False), (''restoreSeconds'', True),
      (''holderInstance'', False), (''lastServedAt'', False), (''wakeSubject'', False),
      (''restoreProgress'', False)]"

definition is_number :: "attr \<Rightarrow> bool" where
  "is_number a = (case a of AttrN _ \<Rightarrow> True | AttrS _ \<Rightarrow> False)"

fun hint_entry :: "item \<Rightarrow> string \<times> bool \<Rightarrow> (string \<times> attr) list" where
  "hint_entry it (name, numeric) = (case it name of
       Some a \<Rightarrow> if is_number a = numeric then [(name, a)] else []
     | None \<Rightarrow> [])"

definition hints_of :: "item \<Rightarrow> (string \<times> attr) list" where
  "hints_of it = concat (map (hint_entry it) hint_attributes)"

definition put_opt :: "string \<Rightarrow> attr option \<Rightarrow> item \<Rightarrow> item" where
  "put_opt name v it = (case v of None \<Rightarrow> it | Some a \<Rightarrow> it(name \<mapsto> a))"

definition put_hints :: "(string \<times> attr) list \<Rightarrow> item \<Rightarrow> item" where
  "put_hints hs it = fold (\<lambda>(name, a) it. it(name \<mapsto> a)) hs it"

definition mapping_item :: "sandbox_record \<Rightarrow> item" where
  "mapping_item r =
     [''pk'' \<mapsto> AttrS (''OWNER#'' @ owner_hash r), ''sk'' \<mapsto> AttrS ''SANDBOX'',
      ''sandboxId'' \<mapsto> AttrS (sandbox_id r),
      ''runtimeSessionId'' \<mapsto> AttrS (runtime_session_id r),
      ''createdAt'' \<mapsto> AttrS (timestamp (created_at r)),
      ''updatedAt'' \<mapsto> AttrS (timestamp (updated_at r))]"

definition base_item :: "sandbox_record \<Rightarrow> item" where
  "base_item r =
     [''pk'' \<mapsto> AttrS (sandbox_pk (sandbox_id r)), ''sk'' \<mapsto> AttrS ''METADATA'',
      ''ownerHash'' \<mapsto> AttrS (owner_hash r),
      ''runtimeSessionId'' \<mapsto> AttrS (runtime_session_id r),
      ''state'' \<mapsto> AttrS (state_value (sb_state r)),
      ''stateVersion'' \<mapsto> AttrN (state_version r),
      ''kiroAuthMode'' \<mapsto> AttrS (kiro_auth_mode r),
      ''kiroCrewVersion'' \<mapsto> AttrS (kirocrew_version r),
      ''createdAt'' \<mapsto> AttrS (timestamp (created_at r)),
      ''updatedAt'' \<mapsto> AttrS (timestamp (updated_at r))]"

definition record_item :: "sandbox_record \<Rightarrow> item" where
  "record_item r =
     put_hints (wake_hints r)
      (put_opt ''deletionState'' (map_option AttrS (deletion_state r))
      (put_opt ''lastRestore'' (map_option AttrS (last_restore r))
      (put_opt ''initExpiresAt'' (map_option (\<lambda>t. AttrN (epoch t)) (init_expires_at r))
      (put_opt ''lastCheckpointGeneration'' (map_option AttrN (last_checkpoint_generation r))
      (put_opt ''activeRequestId'' (map_option AttrS (active_request_id r))
      (put_opt ''leaseExpiresAt'' (map_option (\<lambda>t. AttrS (timestamp t)) (lease_expires_at r))
      (put_opt ''leaseOwner'' (map_option AttrS (lease_owner r)) (base_item r))))))))"

text \<open>\<open>_record\<close>: the record an item holds; any field missing or unreadable refuses it.\<close>

definition optional_time :: "item \<Rightarrow> string \<Rightarrow> time option option" where
  "optional_time it name = (case attr_s it name of
     None \<Rightarrow> Some None
   | Some v \<Rightarrow> map_option Some (read_timestamp v))"

definition read_record :: "item \<Rightarrow> sandbox_record option" where
  "read_record it = do {
     oh \<leftarrow> attr_s it ''ownerHash'';
     pk \<leftarrow> attr_s it ''pk'';
     session \<leftarrow> attr_s it ''runtimeSessionId'';
     state_text \<leftarrow> attr_s it ''state'';
     st \<leftarrow> state_of_value state_text;
     version \<leftarrow> attr_n it ''stateVersion'';
     lease \<leftarrow> optional_time it ''leaseExpiresAt'';
     mode \<leftarrow> attr_s it ''kiroAuthMode'';
     crew \<leftarrow> attr_s it ''kiroCrewVersion'';
     created_text \<leftarrow> attr_s it ''createdAt'';
     created \<leftarrow> read_timestamp created_text;
     updated_text \<leftarrow> attr_s it ''updatedAt'';
     updated \<leftarrow> read_timestamp updated_text;
     Some \<lparr>owner_hash = oh, sandbox_id = remove_prefix pk ''SANDBOX#'',
        runtime_session_id = session, sb_state = st, state_version = version,
        lease_owner = attr_s it ''leaseOwner'', lease_expires_at = lease,
        active_request_id = attr_s it ''activeRequestId'',
        last_checkpoint_generation = attr_n it ''lastCheckpointGeneration'',
        last_restore = attr_s it ''lastRestore'', deletion_state = attr_s it ''deletionState'',
        kiro_auth_mode = mode, kirocrew_version = crew, created_at = created,
        updated_at = updated,
        init_expires_at = map_option seconds (attr_n it ''initExpiresAt''),
        wake_hints = hints_of it\<rparr>}"

definition item_record :: "item \<Rightarrow> (registry_error, sandbox_record) result" where
  "item_record it = (case read_record it of
     None \<Rightarrow> Inl (SandboxUnavailable ''Sandbox metadata is invalid.'')
   | Some r \<Rightarrow> Inr r)"

subsection \<open>Round trip of a record\<close>

lemma put_opt_other [simp]: "k \<noteq> name \<Longrightarrow> put_opt name v it k = it k"
  by (simp add: put_opt_def split: option.splits)

lemma put_opt_same [simp]: "it name = None \<Longrightarrow> put_opt name v it name = v"
  by (simp add: put_opt_def split: option.splits)

lemma put_hints_other: "k \<notin> fst ` set hs \<Longrightarrow> put_hints hs it k = it k"
  unfolding put_hints_def by (induction hs arbitrary: it) auto

lemma put_hints_map_of: "distinct (map fst hs) \<Longrightarrow> put_hints hs it k =
    (case map_of hs k of None \<Rightarrow> it k | Some a \<Rightarrow> Some a)"
  unfolding put_hints_def
proof (induction hs arbitrary: it)
  case (Cons h hs)
  obtain n a where h: "h = (n, a)" by (cases h)
  have "n \<notin> fst ` set hs" using Cons.prems h by simp
  then have "map_of hs n = None" by (simp add: map_of_eq_None_iff)
  with Cons.IH [of "it(n \<mapsto> a)"] Cons.prems h show ?case by (auto split: option.splits)
qed simp

text \<open>Hints as \<open>_record\<close> reads them: the listed names, in order, each of its type.\<close>

definition hints_ok :: "(string \<times> attr) list \<Rightarrow> bool" where
  "hints_ok hs = (hints_of (map_of hs) = hs)"

definition hint_names :: "string list" where
  "hint_names = map fst hint_attributes"

lemma hints_of_cong: "(\<And>k. k \<in> set hint_names \<Longrightarrow> it k = it' k) \<Longrightarrow> hints_of it = hints_of it'"
  by (simp add: hints_of_def hint_names_def hint_attributes_def)

lemma in_hint_entry:
  "(k, a) \<in> set (hint_entry it p) \<longleftrightarrow> fst p = k \<and> it k = Some a \<and> is_number a = snd p"
  by (cases p) (auto split: option.splits)

lemma in_hints_of: "(k, a) \<in> set (hints_of it) \<longleftrightarrow> it k = Some a \<and> (k, is_number a) \<in> set hint_attributes"
  by (force simp: hints_of_def in_hint_entry)

lemma hints_of_names: "fst ` set (hints_of it) \<subseteq> set hint_names"
  by (force simp: in_hints_of hint_names_def)

lemma distinct_hint_names: "distinct (map fst hint_attributes)"
  by (simp add: hint_attributes_def)

lemma distinct_entries:
  "distinct (map fst ps) \<Longrightarrow> distinct (map fst (concat (map (hint_entry it) ps)))"
proof (induction ps)
  case (Cons p ps)
  have "distinct (map fst (hint_entry it p))" by (cases p) (auto split: option.splits)
  with Cons show ?case by (force simp: in_hint_entry)
qed simp

lemma distinct_hints_of: "distinct (map fst (hints_of it))"
  unfolding hints_of_def by (rule distinct_entries [OF distinct_hint_names])

lemma map_of_hints_of:
  "map_of (hints_of it) k = Some a \<longleftrightarrow> it k = Some a \<and> (k, is_number a) \<in> set hint_attributes"
  using map_of_eq_Some_iff [OF distinct_hints_of] by (simp add: in_hints_of)

lemma hints_ok_hints_of [simp]: "hints_ok (hints_of it)"
proof -
  have "hint_entry (map_of (hints_of it)) p = hint_entry it p" if p: "p \<in> set hint_attributes" for p
  proof -
    obtain n b where nb: "p = (n, b)" by (cases p)
    show ?thesis
    proof (cases "it n")
      case None
      then have "map_of (hints_of it) n = None"
        using map_of_hints_of [of it n] by (cases "map_of (hints_of it) n") auto
      with None nb show ?thesis by simp
    next
      case (Some a)
      have "(n, is_number a) \<in> set hint_attributes \<longleftrightarrow> is_number a = b"
        using p nb eq_key_imp_eq_value [OF distinct_hint_names, of n "is_number a" b] by auto
      then have "map_of (hints_of it) n = (if is_number a = b then Some a else None)"
        using map_of_hints_of [of it n] Some
        by (cases "map_of (hints_of it) n") (simp, metis option.inject option.distinct(1))+
      with Some nb show ?thesis by simp
    qed
  qed
  then have "map (hint_entry (map_of (hints_of it))) hint_attributes =
      map (hint_entry it) hint_attributes" by (rule map_cong [OF refl])
  then have "hints_of (map_of (hints_of it)) = hints_of it" by (simp only: hints_of_def)
  then show ?thesis by (simp add: hints_ok_def)
qed

lemma hints_ok_distinct: "hints_ok hs \<Longrightarrow> distinct (map fst hs)"
  unfolding hints_ok_def by (metis distinct_hints_of)

lemma hints_ok_names: "hints_ok hs \<Longrightarrow> fst ` set hs \<subseteq> set hint_names"
  unfolding hints_ok_def by (metis hints_of_names)

text \<open>
  A record that survives the table: its times are representable and its hints are as
  \<open>_record\<close> reads them. Initialization ends are stored in whole seconds.
\<close>

definition storable :: "sandbox_record \<Rightarrow> bool" where
  "storable r =
     (valid_time (created_at r) \<and> valid_time (updated_at r) \<and>
      (case lease_expires_at r of None \<Rightarrow> True | Some t \<Rightarrow> valid_time t) \<and>
      hints_ok (wake_hints r))"

definition whole_seconds :: "time \<Rightarrow> time" where
  "whole_seconds t = seconds (epoch t)"

lemma base_item_hints: "k \<in> set hint_names \<Longrightarrow> record_item r k = map_of (wake_hints r) k"
  if "hints_ok (wake_hints r)"
proof -
  assume k: "k \<in> set hint_names"
  let ?it = "put_opt ''deletionState'' (map_option AttrS (deletion_state r))
      (put_opt ''lastRestore'' (map_option AttrS (last_restore r))
      (put_opt ''initExpiresAt'' (map_option (\<lambda>t. AttrN (epoch t)) (init_expires_at r))
      (put_opt ''lastCheckpointGeneration'' (map_option AttrN (last_checkpoint_generation r))
      (put_opt ''activeRequestId'' (map_option AttrS (active_request_id r))
      (put_opt ''leaseExpiresAt'' (map_option (\<lambda>t. AttrS (timestamp t)) (lease_expires_at r))
      (put_opt ''leaseOwner'' (map_option AttrS (lease_owner r)) (base_item r)))))))"
  have "?it k = None"
    using k by (auto simp: hint_names_def hint_attributes_def base_item_def)
  then show ?thesis
    unfolding record_item_def put_hints_map_of [OF hints_ok_distinct [OF that]]
    by (simp split: option.splits)
qed

lemma record_item_plain:
  assumes "hints_ok (wake_hints r)" "k \<notin> set hint_names"
  shows "record_item r k = (put_opt ''deletionState'' (map_option AttrS (deletion_state r))
      (put_opt ''lastRestore'' (map_option AttrS (last_restore r))
      (put_opt ''initExpiresAt'' (map_option (\<lambda>t. AttrN (epoch t)) (init_expires_at r))
      (put_opt ''lastCheckpointGeneration'' (map_option AttrN (last_checkpoint_generation r))
      (put_opt ''activeRequestId'' (map_option AttrS (active_request_id r))
      (put_opt ''leaseExpiresAt'' (map_option (\<lambda>t. AttrS (timestamp t)) (lease_expires_at r))
      (put_opt ''leaseOwner'' (map_option AttrS (lease_owner r)) (base_item r)))))))) k"
  unfolding record_item_def
  by (rule put_hints_other) (use assms hints_ok_names in blast)

lemma record_item_fields:
  assumes ok: "hints_ok (wake_hints r)"
  shows "record_item r ''pk'' = Some (AttrS (sandbox_pk (sandbox_id r)))"
    "record_item r ''sk'' = Some (AttrS ''METADATA'')"
    "record_item r ''ownerHash'' = Some (AttrS (owner_hash r))"
    "record_item r ''runtimeSessionId'' = Some (AttrS (runtime_session_id r))"
    "record_item r ''state'' = Some (AttrS (state_value (sb_state r)))"
    "record_item r ''stateVersion'' = Some (AttrN (state_version r))"
    "record_item r ''kiroAuthMode'' = Some (AttrS (kiro_auth_mode r))"
    "record_item r ''kiroCrewVersion'' = Some (AttrS (kirocrew_version r))"
    "record_item r ''createdAt'' = Some (AttrS (timestamp (created_at r)))"
    "record_item r ''updatedAt'' = Some (AttrS (timestamp (updated_at r)))"
    "record_item r ''leaseOwner'' = map_option AttrS (lease_owner r)"
    "record_item r ''leaseExpiresAt'' = map_option (\<lambda>t. AttrS (timestamp t)) (lease_expires_at r)"
    "record_item r ''activeRequestId'' = map_option AttrS (active_request_id r)"
    "record_item r ''lastCheckpointGeneration'' = map_option AttrN (last_checkpoint_generation r)"
    "record_item r ''initExpiresAt'' = map_option (\<lambda>t. AttrN (epoch t)) (init_expires_at r)"
    "record_item r ''lastRestore'' = map_option AttrS (last_restore r)"
    "record_item r ''deletionState'' = map_option AttrS (deletion_state r)"
    "record_item r ''initOwner'' = None"
    "record_item r ''lastCheckpointManifestDigest'' = None"
  by (simp_all add: record_item_plain [OF ok] hint_names_def hint_attributes_def base_item_def)

lemma record_item_key: "hints_ok (wake_hints r) \<Longrightarrow> item_key (record_item r) = record_key (sandbox_id r)"
  by (simp add: item_key_def attr_s_def record_item_fields record_key_def)

lemma mapping_item_key: "item_key (mapping_item r) = owner_key (owner_hash r)"
  by (simp add: item_key_def attr_s_def mapping_item_def owner_key_def)

lemma hints_of_record_item: "hints_ok (wake_hints r) \<Longrightarrow> hints_of (record_item r) = wake_hints r"
proof -
  assume ok: "hints_ok (wake_hints r)"
  have "hints_of (record_item r) = hints_of (map_of (wake_hints r))"
    by (rule hints_of_cong) (rule base_item_hints [OF ok])
  with ok show ?thesis by (simp add: hints_ok_def)
qed

lemma read_record_item:
  assumes "storable r"
  shows "read_record (record_item r) =
    Some (r\<lparr>init_expires_at := map_option whole_seconds (init_expires_at r)\<rparr>)"
proof -
  have ok: "hints_ok (wake_hints r)" and times: "valid_time (created_at r)" "valid_time (updated_at r)"
    using assms by (simp_all add: storable_def)
  note f = record_item_fields [OF ok]
  have lease: "optional_time (record_item r) ''leaseExpiresAt'' = Some (lease_expires_at r)"
    using assms by (cases "lease_expires_at r")
      (simp_all add: optional_time_def attr_s_def f storable_def read_timestamp_timestamp)
  have opt: "attr_s (record_item r) k = v" if "record_item r k = map_option AttrS v" for k v
    using that by (cases v) (simp_all add: attr_s_def)
  have gen: "attr_n (record_item r) ''lastCheckpointGeneration'' = last_checkpoint_generation r"
    by (cases "last_checkpoint_generation r") (simp_all add: attr_n_def f)
  have init: "map_option seconds (attr_n (record_item r) ''initExpiresAt'') =
      map_option whole_seconds (init_expires_at r)"
    by (cases "init_expires_at r") (simp_all add: attr_n_def f whole_seconds_def)
  have req: "attr_s (record_item r) k = Some v" if "record_item r k = Some (AttrS v)" for k v
    using that by (simp add: attr_s_def)
  have ver: "attr_n (record_item r) ''stateVersion'' = Some (state_version r)"
    by (simp add: attr_n_def f)
  show ?thesis
    by (simp add: read_record_def lease gen init ver hints_of_record_item [OF ok] times
        read_timestamp_timestamp req [OF f(1)] req [OF f(3)] req [OF f(4)]
        req [OF f(5)] req [OF f(7)] req [OF f(8)] req [OF f(9)] req [OF f(10)]
        opt [OF f(11)] opt [OF f(13)] opt [OF f(16)] opt [OF f(17)])
qed

subsection \<open>Operations\<close>

definition dynamo_owner_hash :: "(string \<Rightarrow> string) \<Rightarrow> string \<Rightarrow> (registry_error, string) result" where
  "dynamo_owner_hash sha subject =
     (if subject = [] then Inl (SandboxUnavailable ''Sandbox is unavailable.'')
      else Inr (sha (''kirocrew-owner-v1'' @ [CHR 0x00] @ subject)))"

definition dynamo_get ::
  "(string \<Rightarrow> string) \<Rightarrow> 's dynamo \<Rightarrow> string \<Rightarrow> 's \<Rightarrow> (registry_error, sandbox_record) result" where
  "dynamo_get sha db subject s =
     (case dynamo_owner_hash sha subject of
        Inl e \<Rightarrow> Inl e
      | Inr oh \<Rightarrow>
          (case get_item db (owner_key oh) s of
             Inl code \<Rightarrow> Inl (ClientError code)
           | Inr mapping \<Rightarrow>
               (case Option.bind mapping (\<lambda>m. attr_s m ''sandboxId'') of
                  None \<Rightarrow> Inl (SandboxUnavailable ''Sandbox is unavailable.'')
                | Some sid \<Rightarrow>
                    if sid = [] then Inl (SandboxUnavailable ''Sandbox is unavailable.'')
                    else (case get_item db (record_key sid) s of
                        Inl code \<Rightarrow> Inl (ClientError code)
                      | Inr None \<Rightarrow> Inl (SandboxUnavailable ''Sandbox is unavailable.'')
                      | Inr (Some it) \<Rightarrow> item_record it))))"

text \<open>The code of a write that failed for another reason than the one its caller handles.\<close>

definition error_code :: "outcome \<Rightarrow> string" where
  "error_code out = (case out of
     Refused _ \<Rightarrow> ''ConditionalCheckFailedException''
   | Cancelled \<Rightarrow> ''TransactionCanceledException''
   | Failed code \<Rightarrow> code
   | Written \<Rightarrow> [])"

definition put_updated ::
  "'s dynamo \<Rightarrow> sandbox_record \<Rightarrow> sandbox_record \<Rightarrow> 's \<Rightarrow> 's \<times> (registry_error, unit) result" where
  "put_updated db previous updated s =
     (case write_item db
        (Put (record_item updated) (Equals ''stateVersion'' (AttrN (state_version previous)))) s of
        (s', Written) \<Rightarrow> (s', Inr ())
      | (s', Refused _) \<Rightarrow> (s', Inl (StateConflict ''Sandbox state version changed.''))
      | (s', out) \<Rightarrow> (s', Inl (ClientError (error_code out))))"

text \<open>
  \<open>get_or_create\<close>: the read, and the creation that follows when there is nothing to read.
  The two are separate calls of the service, so another process can create the owner's
  sandbox in between; the transaction is then cancelled and its record is read.
\<close>

definition dynamo_create ::
  "(string \<Rightarrow> string) \<Rightarrow> 's dynamo \<Rightarrow> string \<Rightarrow> creation \<Rightarrow> string \<Rightarrow> 's \<Rightarrow>
     's \<times> (registry_error, sandbox_record) result" where
  "dynamo_create sha db version c subject s =
     (case dynamo_owner_hash sha subject of
        Inl e \<Rightarrow> (s, Inl e)
      | Inr oh \<Rightarrow>
          let r = new_record oh version c in
          (case transact_items db
             [Put (mapping_item r) (AttributeNotExists ''pk''),
              Put (record_item r) (AttributeNotExists ''pk'')] s of
             (s', Written) \<Rightarrow> (s', Inr r)
           | (s', Cancelled) \<Rightarrow> (s', dynamo_get sha db subject s')
           | (s', out) \<Rightarrow> (s', Inl (ClientError (error_code out)))))"

definition dynamo_get_or_create ::
  "(string \<Rightarrow> string) \<Rightarrow> 's dynamo \<Rightarrow> string \<Rightarrow> creation \<Rightarrow> string \<Rightarrow> 's \<Rightarrow>
     's \<times> (registry_error, sandbox_record) result" where
  "dynamo_get_or_create sha db version c subject s =
     (case dynamo_get sha db subject s of
        Inr r \<Rightarrow> (s, Inr r)
      | Inl (SandboxUnavailable _) \<Rightarrow> dynamo_create sha db version c subject s
      | Inl e \<Rightarrow> (s, Inl e))"

definition dynamo_acquire_start ::
  "(string \<Rightarrow> string) \<Rightarrow> 's dynamo \<Rightarrow> string \<Rightarrow> creation \<Rightarrow> string \<Rightarrow> time \<Rightarrow> string \<Rightarrow> string \<Rightarrow>
     timedelta \<Rightarrow> bool \<Rightarrow> 's \<Rightarrow> 's \<times> (registry_error, start_lease) result" where
  "dynamo_acquire_start sha db version c rotated now subject owner ttl confirmed_inactive s =
     (case dynamo_get_or_create sha db version c subject s of
        (s1, Inl e) \<Rightarrow> (s1, Inl e)
      | (s1, Inr r) \<Rightarrow>
          if lease_live r now then (s1, Inr (lease_of r owner))
          else if init_lease_active r now then (s1, Inr (lease_of r owner))
          else if lease_owner r \<noteq> None \<and> lease_owner r \<noteq> Some owner \<and> sb_state r \<noteq> STOPPED
                  \<and> \<not> confirmed_inactive
          then (s1, Inl (LeaseConflict ''Expired lease requires authoritative-owner confirmation.''))
          else if start_in_progress r now \<and> \<not> confirmed_inactive
          then (s1, Inr (lease_of r owner))
          else let updated = r\<lparr>sb_state := STARTING, state_version := state_version r + 1,
                               runtime_session_id := rotated, lease_owner := Some rotated,
                               lease_expires_at := Some (now + ttl), active_request_id := None,
                               updated_at := now\<rparr>
               in (case put_updated db r updated s1 of
                     (s2, Inl e) \<Rightarrow> (s2, Inl e)
                   | (s2, Inr _) \<Rightarrow> (s2, Inr \<lparr>sl_record = updated, authoritative = True\<rparr>)))"

lemma dynamo_acquire_start_alt:
  "dynamo_acquire_start sha db version c rotated now subject owner ttl ci s =
     (case dynamo_get_or_create sha db version c subject s of
        (s1, Inl e) \<Rightarrow> (s1, Inl e)
      | (s1, Inr r) \<Rightarrow>
          (case start_answer r now owner ci of
             Some a \<Rightarrow> (s1, a)
           | None \<Rightarrow> (case put_updated db r (started r rotated now ttl) s1 of
               (s2, Inl e) \<Rightarrow> (s2, Inl e)
             | (s2, Inr _) \<Rightarrow> (s2, Inr \<lparr>sl_record = started r rotated now ttl, authoritative = True\<rparr>))))"
  by (auto simp: dynamo_acquire_start_def start_answer_def started_def Let_def
      split: prod.splits sum.splits)

definition dynamo_transition ::
  "(string \<Rightarrow> string) \<Rightarrow> 's dynamo \<Rightarrow> time \<Rightarrow> string \<Rightarrow> sandbox_state \<Rightarrow> int \<Rightarrow> string option \<Rightarrow> 's \<Rightarrow>
     's \<times> (registry_error, sandbox_record) result" where
  "dynamo_transition sha db now subject target expected_version owner s =
     (case dynamo_get sha db subject s of
        Inl e \<Rightarrow> (s, Inl e)
      | Inr r \<Rightarrow>
          if state_version r \<noteq> expected_version \<or> lease_owner r \<noteq> owner
          then (s, Inl (StateConflict ''Sandbox state version or lease changed.''))
          else if target \<noteq> STOPPED \<or> sb_state r \<noteq> STOPPING
          then (s, Inl (StateConflict ''Lifecycle transition is not allowed.''))
          else let updated = r\<lparr>sb_state := target, state_version := state_version r + 1,
                     lease_owner := None, lease_expires_at := None, active_request_id := None,
                     updated_at := now\<rparr>
               in (case put_updated db r updated s of
                     (s', Inl e) \<Rightarrow> (s', Inl e)
                   | (s', Inr _) \<Rightarrow> (s', Inr updated)))"

definition dynamo_request_deletion ::
  "(string \<Rightarrow> string) \<Rightarrow> 's dynamo \<Rightarrow> time \<Rightarrow> string \<Rightarrow> 's \<Rightarrow>
     's \<times> (registry_error, sandbox_record) result" where
  "dynamo_request_deletion sha db now subject s =
     (case dynamo_get sha db subject s of
        Inl e \<Rightarrow> (s, Inl e)
      | Inr r \<Rightarrow>
          if sb_state r \<noteq> STOPPED
          then (s, Inl (StateConflict ''Sandbox must be stopped before deletion.''))
          else let updated = r\<lparr>state_version := state_version r + 1,
                     deletion_state := Some ''REQUESTED'', updated_at := now\<rparr>
               in (case put_updated db r updated s of
                     (s', Inl e) \<Rightarrow> (s', Inl e)
                   | (s', Inr _) \<Rightarrow> (s', Inr updated)))"

definition dynamo_record_wake_subject ::
  "'s dynamo \<Rightarrow> string \<Rightarrow> string \<Rightarrow> 's \<Rightarrow> 's \<times> (registry_error, unit) result" where
  "dynamo_record_wake_subject db sid sealed s =
     (if sealed = [] then (s, Inl (ValueErr ''Sealed wake subject is required.''))
      else case write_item db
          (Update (record_key sid)
             \<lparr>up_set = [(''wakeSubject'', AttrS sealed)], up_add = [], up_remove = []\<rparr>
             (AttributeExists ''pk'')) s of
          (s', Written) \<Rightarrow> (s', Inr ())
        | (s', Refused _) \<Rightarrow> (s', Inl (SandboxUnavailable ''Sandbox is unavailable.''))
        | (s', out) \<Rightarrow> (s', Inl (ClientError (error_code out))))"

definition dynamo_wake_subject ::
  "'s dynamo \<Rightarrow> string \<Rightarrow> 's \<Rightarrow> (registry_error, string option) result" where
  "dynamo_wake_subject db sid s =
     (case get_item db (record_key sid) s of
        Inl code \<Rightarrow> Inl (ClientError code)
      | Inr it \<Rightarrow> Inr (case Option.bind it (\<lambda>i. attr_s i ''wakeSubject'') of
            None \<Rightarrow> None
          | Some v \<Rightarrow> if v = [] then None else Some v))"

subsection \<open>Observed history\<close>

definition HISTORY_TTL_SECONDS :: int where
  "HISTORY_TTL_SECONDS = 7 * 24 * 3600"

definition observation_item :: "sandbox_record \<Rightarrow> item" where
  "observation_item r =
     [''pk'' \<mapsto> AttrS (sandbox_pk (sandbox_id r)),
      ''sk'' \<mapsto> AttrS (''EVENT#'' @ format_int 12 (state_version r)),
      ''state'' \<mapsto> AttrS (state_value (sb_state r)),
      ''at'' \<mapsto> AttrS (isoformat (updated_at r)),
      ''expiresAt'' \<mapsto> AttrN (epoch (updated_at r) + HISTORY_TTL_SECONDS)]"

definition dynamo_record_observation ::
  "'s dynamo \<Rightarrow> sandbox_record \<Rightarrow> 's \<Rightarrow> 's \<times> (registry_error, unit) result" where
  "dynamo_record_observation db r s =
     (case write_item db (Put (observation_item r) (AttributeNotExists ''pk'')) s of
        (s', Written) \<Rightarrow> (s', Inr ())
      | (s', Refused _) \<Rightarrow> (s', Inr ())
      | (s', out) \<Rightarrow> (s', Inl (ClientError (error_code out))))"

text \<open>One item of the answer: skipped, refused with a \<open>ValueError\<close>, or an event.\<close>

definition event_of_item :: "item \<Rightarrow> (registry_error, history_event option) result" where
  "event_of_item it =
     (let k = sort_text it;
          st = (case attr_s it ''state'' of None \<Rightarrow> [] | Some v \<Rightarrow> v);
          at = (case attr_s it ''at'' of None \<Rightarrow> [] | Some v \<Rightarrow> v)
      in if \<not> starts_with k ''EVENT#'' \<or> st = [] \<or> at = [] then Inr None
         else case (read_int (remove_prefix k ''EVENT#''), state_of_value st, read_timestamp at) of
             (Some v, Some state, Some t) \<Rightarrow> Inr (Some \<lparr>he_version = v, he_state = state, he_at = t\<rparr>)
           | _ \<Rightarrow> Inl (ValueErr ''Stored event is invalid.''))"

fun events_of_items :: "item list \<Rightarrow> (registry_error, history_event list) result" where
  "events_of_items [] = Inr []"
| "events_of_items (it # its) =
     (case event_of_item it of
        Inl e \<Rightarrow> Inl e
      | Inr ev \<Rightarrow>
          (case events_of_items its of
             Inl e \<Rightarrow> Inl e
           | Inr evs \<Rightarrow> Inr (case ev of None \<Rightarrow> evs | Some x \<Rightarrow> x # evs)))"

definition dynamo_history ::
  "'s dynamo \<Rightarrow> string \<Rightarrow> int \<Rightarrow> 's \<Rightarrow> (registry_error, history_event list) result" where
  "dynamo_history db sid limit s =
     (if limit \<le> 0 then Inl (ValueErr ''History limit must be positive.'')
      else case query_items db (sandbox_pk sid) ''EVENT#'' False (Some limit) s of
        Inl code \<Rightarrow> Inl (ClientError code)
      | Inr items \<Rightarrow> events_of_items items)"

lemma state_value_Nil [simp]: "state_value st \<noteq> []"
  by (cases st) simp_all

lemma isoformat_Nil [simp]: "isoformat t \<noteq> []"
  by (simp add: isoformat_def)

lemma event_of_observation:
  "valid_time (updated_at r) \<Longrightarrow> event_of_item (observation_item r) =
     Inr (Some \<lparr>he_version = state_version r, he_state = sb_state r, he_at = updated_at r\<rparr>)"
proof -
  assume v: "valid_time (updated_at r)"
  have k: "sort_text (observation_item r) = ''EVENT#'' @ format_int 12 (state_version r)"
    by (simp add: sort_text_def observation_item_def attr_s_def)
  have "attr_s (observation_item r) ''state'' = Some (state_value (sb_state r))"
    "attr_s (observation_item r) ''at'' = Some (isoformat (updated_at r))"
    by (simp_all add: observation_item_def attr_s_def)
  with v show ?thesis
    unfolding event_of_item_def k remove_prefix_append
    by (simp add: read_int_format read_timestamp_isoformat del: append.simps)
qed

lemma events_of_observations:
  "\<forall>r\<in>set rs. valid_time (updated_at r) \<Longrightarrow> events_of_items (map observation_item rs) =
     Inr (map (\<lambda>r. \<lparr>he_version = state_version r, he_state = sb_state r, he_at = updated_at r\<rparr>) rs)"
  by (induction rs) (simp_all add: event_of_observation)

text \<open>Within twelve digits the sort keys order as the versions do.\<close>

lemma observation_order:
  assumes "0 \<le> state_version a" "state_version a < 10 ^ 12" "0 \<le> state_version b" "state_version b < 10 ^ 12"
  shows "sort_text (observation_item a) < sort_text (observation_item b) \<longleftrightarrow>
    state_version a < state_version b"
proof -
  have k: "sort_text (observation_item r) = ''EVENT#'' @ format_int 12 (state_version r)" for r
    by (simp add: sort_text_def observation_item_def attr_s_def)
  have less: "sort_text (observation_item a) < sort_text (observation_item b)"
    if "state_version a < state_version b" "0 \<le> state_version a" "state_version b < 10 ^ 12" for a b
  proof -
    have "zfill 12 (nat (state_version a)) < zfill 12 (nat (state_version b))"
      using that by (intro zfill_mono) (simp_all add: nat_less_iff)
    then show ?thesis using that by (simp add: k format_int_def)
  qed
  show ?thesis
  proof (cases "state_version a = state_version b")
    case True
    then show ?thesis by (simp add: k)
  next
    case False
    with less [of a b] less [of b a] assms show ?thesis by force
  qed
qed

subsection \<open>The catalog of checkpoints\<close>

datatype checkpoint_status = COMMITTED | RESTORE_FAILED

record checkpoint_metadata =
  cm_generation :: int
  cm_manifest_digest :: string
  cm_created_at :: time
  cm_status :: checkpoint_status
  cm_schema_version :: int

type_synonym catalog = "string \<Rightarrow> (int \<times> checkpoint_metadata) list"

definition empty_catalog :: catalog where
  "empty_catalog = (\<lambda>sid. [])"

definition catalog_record ::
  "string \<Rightarrow> checkpoint_metadata \<Rightarrow> catalog \<Rightarrow> catalog \<times> (registry_error, unit) result" where
  "catalog_record sid m cat =
     (if cm_generation m \<le> 0 \<or> length (cm_manifest_digest m) \<noteq> 64
      then (cat, Inl (ValueErr ''Valid checkpoint metadata is required.''))
      else (cat(sid := AList.update (cm_generation m) m (cat sid)), Inr ()))"

definition catalog_get :: "catalog \<Rightarrow> string \<Rightarrow> int \<Rightarrow> checkpoint_metadata option" where
  "catalog_get cat sid generation = map_of (cat sid) generation"

definition catalog_list :: "catalog \<Rightarrow> string \<Rightarrow> checkpoint_metadata list" where
  "catalog_list cat sid = sort_key cm_generation (map snd (cat sid))"

definition status_of_text :: "string \<Rightarrow> checkpoint_status option" where
  "status_of_text s =
     (if s = ''COMMITTED'' then Some COMMITTED
      else if s = ''RESTORE_FAILED'' then Some RESTORE_FAILED else None)"

text \<open>\<open>_metadata\<close>: a missing field, an unknown status or an unreadable time is a \<open>ValueError\<close>.\<close>

definition read_metadata :: "item \<Rightarrow> checkpoint_metadata option" where
  "read_metadata it = do {
     status_text \<leftarrow> attr_s it ''status'';
     status \<leftarrow> status_of_text status_text;
     generation \<leftarrow> attr_n it ''generation'';
     digest \<leftarrow> attr_s it ''manifestDigest'';
     created_text \<leftarrow> attr_s it ''createdAt'';
     created \<leftarrow> read_timestamp created_text;
     schema \<leftarrow> (case it ''schemaVersion'' of
        None \<Rightarrow> Some 1 | Some (AttrN n) \<Rightarrow> Some n | Some (AttrS _) \<Rightarrow> None);
     Some \<lparr>cm_generation = generation, cm_manifest_digest = digest, cm_created_at = created,
        cm_status = status, cm_schema_version = schema\<rparr>}"

definition item_metadata :: "item \<Rightarrow> (registry_error, checkpoint_metadata) result" where
  "item_metadata it = (case read_metadata it of
     None \<Rightarrow> Inl (ValueErr ''Checkpoint metadata is invalid.'')
   | Some m \<Rightarrow> Inr m)"

definition checkpoint_key :: "string \<Rightarrow> int \<Rightarrow> key" where
  "checkpoint_key sid generation = (sandbox_pk sid, ''CHECKPOINT#'' @ format_int 20 generation)"

definition dynamo_catalog_get ::
  "'s dynamo \<Rightarrow> string \<Rightarrow> int \<Rightarrow> 's \<Rightarrow> (registry_error, checkpoint_metadata option) result" where
  "dynamo_catalog_get db sid generation s =
     (case get_item db (checkpoint_key sid generation) s of
        Inl code \<Rightarrow> Inl (ClientError code)
      | Inr None \<Rightarrow> Inr None
      | Inr (Some it) \<Rightarrow> (case item_metadata it of Inl e \<Rightarrow> Inl e | Inr m \<Rightarrow> Inr (Some m)))"

fun metadata_of_items :: "item list \<Rightarrow> (registry_error, checkpoint_metadata list) result" where
  "metadata_of_items [] = Inr []"
| "metadata_of_items (it # its) =
     (case item_metadata it of
        Inl e \<Rightarrow> Inl e
      | Inr m \<Rightarrow> (case metadata_of_items its of Inl e \<Rightarrow> Inl e | Inr ms \<Rightarrow> Inr (m # ms)))"

definition dynamo_catalog_list ::
  "'s dynamo \<Rightarrow> string \<Rightarrow> 's \<Rightarrow> (registry_error, checkpoint_metadata list) result" where
  "dynamo_catalog_list db sid s =
     (case query_items db (sandbox_pk sid) ''CHECKPOINT#'' True None s of
        Inl code \<Rightarrow> Inl (ClientError code)
      | Inr items \<Rightarrow>
          (case metadata_of_items items of
             Inl e \<Rightarrow> Inl e
           | Inr ms \<Rightarrow> Inr (sort_key cm_generation ms)))"

subsection \<open>\<open>dynamodb_entities.py\<close>\<close>

text \<open>The item shapes of the data model; values are typed by their attribute here.\<close>

definition mapping_entity :: "sandbox_record \<Rightarrow> item" where
  "mapping_entity r =
     [''pk'' \<mapsto> AttrS (''OWNER#'' @ owner_hash r), ''sk'' \<mapsto> AttrS ''SANDBOX'',
      ''sandboxId'' \<mapsto> AttrS (sandbox_id r),
      ''runtimeSessionId'' \<mapsto> AttrS (runtime_session_id r),
      ''createdAt'' \<mapsto> AttrS (timestamp (created_at r)),
      ''updatedAt'' \<mapsto> AttrS (timestamp (updated_at r))]"

definition sandbox_entity :: "sandbox_record \<Rightarrow> item" where
  "sandbox_entity r =
     put_opt ''deletionState'' (map_option AttrS (deletion_state r))
      (put_opt ''lastRestore'' (map_option AttrS (last_restore r))
      (put_opt ''lastCheckpointGeneration'' (map_option AttrN (last_checkpoint_generation r))
      (put_opt ''activeRequestId'' (map_option AttrS (active_request_id r))
      (put_opt ''leaseExpiresAt'' (map_option (\<lambda>t. AttrS (timestamp t)) (lease_expires_at r))
      (put_opt ''leaseOwner'' (map_option AttrS (lease_owner r))
        [''pk'' \<mapsto> AttrS (''SANDBOX#'' @ sandbox_id r), ''sk'' \<mapsto> AttrS ''METADATA'',
         ''ownerHash'' \<mapsto> AttrS (owner_hash r),
         ''runtimeSessionId'' \<mapsto> AttrS (runtime_session_id r),
         ''state'' \<mapsto> AttrS (state_value (sb_state r)),
         ''stateVersion'' \<mapsto> AttrN (state_version r),
         ''kiroAuthMode'' \<mapsto> AttrS (kiro_auth_mode r),
         ''kiroCrewVersion'' \<mapsto> AttrS (kirocrew_version r),
         ''createdAt'' \<mapsto> AttrS (timestamp (created_at r)),
         ''updatedAt'' \<mapsto> AttrS (timestamp (updated_at r))])))))"

definition request_entity :: "string \<Rightarrow> string \<Rightarrow> string \<Rightarrow> time \<Rightarrow> item" where
  "request_entity sid request_id digest created =
     [''pk'' \<mapsto> AttrS (''SANDBOX#'' @ sid), ''sk'' \<mapsto> AttrS (''REQUEST#'' @ request_id),
      ''payloadDigest'' \<mapsto> AttrS digest, ''createdAt'' \<mapsto> AttrS (timestamp created)]"

definition CREATE_MAPPING_CONDITION :: cond where
  "CREATE_MAPPING_CONDITION = Both (AttributeNotExists ''pk'') (AttributeNotExists ''sk'')"

definition ACQUIRE_LEASE_CONDITION :: "string \<Rightarrow> string \<Rightarrow> cond" where
  "ACQUIRE_LEASE_CONDITION now owner =
     Either (AttributeNotExists ''leaseExpiresAt'')
       (Either (AtMost ''leaseExpiresAt'' (AttrS now)) (Equals ''leaseOwner'' (AttrS owner)))"

definition STATE_VERSION_CONDITION :: "int \<Rightarrow> string \<Rightarrow> cond" where
  "STATE_VERSION_CONDITION version owner =
     Both (Equals ''stateVersion'' (AttrN version)) (Equals ''leaseOwner'' (AttrS owner))"

text \<open>The deployed registry writes these shapes, plus the fields the broker owns.\<close>

lemma entity_shapes:
  "mapping_entity r = mapping_item r"
  "init_expires_at r = None \<Longrightarrow> wake_hints r = [] \<Longrightarrow> record_item r = sandbox_entity r"
  by (simp_all add: mapping_entity_def mapping_item_def record_item_def sandbox_entity_def
      put_hints_def put_opt_def base_item_def sandbox_pk_def)

subsection \<open>The table as a registry\<close>

text \<open>
  The record the table holds for an owner: what \<open>get\<close> reads in two steps. This is the
  abstraction under which the operations implement those of the in-memory registry.
\<close>

definition sandbox_at :: "table \<Rightarrow> string \<Rightarrow> sandbox_record option" where
  "sandbox_at t oh = do {
     m \<leftarrow> t (owner_key oh);
     sid \<leftarrow> attr_s m ''sandboxId'';
     if sid = [] then None else do { it \<leftarrow> t (record_key sid); read_record it }}"

text \<open>The mapping of an owner names the sandbox whose item carries the same id.\<close>

definition coherent :: "table \<Rightarrow> string \<Rightarrow> bool" where
  "coherent t oh = (\<forall>m sid it. t (owner_key oh) = Some m \<and> attr_s m ''sandboxId'' = Some sid \<and>
     t (record_key sid) = Some it \<longrightarrow> attr_s it ''pk'' = Some (sandbox_pk sid))"

lemma dynamo_owner_hash_Inr:
  "dynamo_owner_hash sha subject = Inr oh \<longleftrightarrow> subject \<noteq> [] \<and> oh = owner_of sha subject"
  by (auto simp: dynamo_owner_hash_def owner_of_def owner_domain_def)

lemma dynamo_get_Inr:
  assumes db: "dynamo_documented db" and get: "dynamo_get sha db subject s = Inr r"
  shows "subject \<noteq> []" "sandbox_at (table_of db s) (owner_of sha subject) = Some r"
proof -
  from get obtain oh mapping sid it where "dynamo_owner_hash sha subject = Inr oh"
    and m: "get_item db (owner_key oh) s = Inr mapping"
    and sid: "Option.bind mapping (\<lambda>m. attr_s m ''sandboxId'') = Some sid" "sid \<noteq> []"
    and it: "get_item db (record_key sid) s = Inr (Some it)" "item_record it = Inr r"
    by (auto simp: dynamo_get_def split: sum.splits option.splits if_splits)
  then show "subject \<noteq> []" and "sandbox_at (table_of db s) (owner_of sha subject) = Some r"
    using dynamo_get [OF db m] dynamo_get [OF db it(1)]
    by (auto simp: dynamo_owner_hash_Inr sandbox_at_def item_record_def bind_eq_Some_conv
        split: option.splits)
qed

lemma dynamo_get_present:
  assumes db: "dynamo_documented db" and "subject \<noteq> []"
    and at: "sandbox_at (table_of db s) (owner_of sha subject) = Some r"
  shows "dynamo_get sha db subject s = Inr r \<or> (\<exists>code. dynamo_get sha db subject s = Inl (ClientError code))"
proof -
  have oh: "dynamo_owner_hash sha subject = Inr (owner_of sha subject)"
    using assms(2) by (simp add: dynamo_owner_hash_Inr)
  from at obtain m sid it where m: "table_of db s (owner_key (owner_of sha subject)) = Some m"
      "attr_s m ''sandboxId'' = Some sid" "sid \<noteq> []" "table_of db s (record_key sid) = Some it"
      "read_record it = Some r"
    by (auto simp: sandbox_at_def bind_eq_Some_conv split: if_splits)
  show ?thesis
    using dynamo_get [OF db, of "owner_key (owner_of sha subject)" s] dynamo_get [OF db, of "record_key sid" s] m
    by (auto simp: dynamo_get_def oh item_record_def split: sum.splits)
qed

lemma read_record_fields:
  assumes "read_record it = Some r"
  shows "attr_n it ''stateVersion'' = Some (state_version r)" "wake_hints r = hints_of it"
    "init_expires_at r = map_option seconds (attr_n it ''initExpiresAt'')"
    "attr_s it ''runtimeSessionId'' = Some (runtime_session_id r)"
    "attr_s it ''state'' = Some (state_value (sb_state r))"
    "attr_s it ''pk'' = Some (sandbox_pk sid) \<Longrightarrow> sandbox_id r = sid"
    "attr_s it ''leaseOwner'' = lease_owner r"
    "attr_n it ''lastCheckpointGeneration'' = last_checkpoint_generation r"
  using assms
  by (auto simp: read_record_def bind_eq_Some_conv dest: state_of_value_Some)

lemma sandbox_at_parts:
  assumes "sandbox_at t oh = Some r" "coherent t oh"
  obtains m it where "t (owner_key oh) = Some m" "attr_s m ''sandboxId'' = Some (sandbox_id r)"
    "sandbox_id r \<noteq> []" "t (record_key (sandbox_id r)) = Some it" "read_record it = Some r"
  using assms
  by (auto simp: sandbox_at_def coherent_def bind_eq_Some_conv split: if_splits)
    (metis read_record_fields(6))

text \<open>
  A full-record write of a record just read: in one process it can only fail as the service
  fails, and what it stores reads back.
\<close>

lemma put_updated_own:
  assumes db: "dynamo_documented db" and at: "sandbox_at (table_of db s) oh = Some r"
    and coh: "coherent (table_of db s) oh"
    and same: "sandbox_id r' = sandbox_id r" and ok: "storable r'"
    and whole: "map_option whole_seconds (init_expires_at r') = init_expires_at r'"
    and put: "put_updated db r r' s = (s', res)" and "\<forall>code. res \<noteq> Inl (ClientError code)"
  shows "res = Inr ()" "sandbox_at (table_of db s') oh = Some r'"
proof -
  have hints: "hints_ok (wake_hints r')" using ok by (simp add: storable_def)
  from sandbox_at_parts [OF at coh] obtain m it where m: "table_of db s (owner_key oh) = Some m"
    "attr_s m ''sandboxId'' = Some (sandbox_id r)" "sandbox_id r \<noteq> []"
    and it: "table_of db s (record_key (sandbox_id r)) = Some it" "read_record it = Some r" by blast
  let ?w = "Put (record_item r') (Equals ''stateVersion'' (AttrN (state_version r)))"
  have key: "item_key (record_item r') = record_key (sandbox_id r)"
    using record_item_key [OF hints] same by simp
  have allowed: "allowed (table_of db s) ?w"
    using read_record_fields(1) [OF it(2)] it(1) by (simp add: allowed_def key attr_n_Some)
  obtain out where w: "write_item db ?w s = (s', out)"
    using put by (auto simp: put_updated_def split: prod.splits outcome.splits)
  have out: "out = Written"
    using dynamo_write [OF db w] allowed put w assms(8)
    by (cases out) (auto simp: put_updated_def)
  then show "res = Inr ()" using put w by (simp add: put_updated_def)
  have "table_of db s' = (table_of db s)(record_key (sandbox_id r) \<mapsto> record_item r')"
    using dynamo_write [OF db w] out record_item_key [OF hints] same by (simp add: written_def)
  with m show "sandbox_at (table_of db s') oh = Some r'"
    using read_record_item [OF ok] whole by (simp add: sandbox_at_def)
qed

subsection \<open>Properties\<close>

definition sample_table :: table where
  "sample_table =
     [owner_key (owner_hash sample_record) \<mapsto> mapping_item sample_record,
      record_key ''sbx_A'' \<mapsto> record_item sample_record]"

lemma valid_small: "0 \<le> t \<Longrightarrow> t < seconds 86400 \<Longrightarrow> valid_time t"
proof -
  assume t: "0 \<le> t" "t < seconds 86400"
  then have "nat t div 86400000000 = 0" by (simp add: seconds_def)
  then have "day_of t = 0" by (simp add: day_of_def)
  with t show "valid_time t" by (simp add: valid_time_def split_year.simps [of 1970 0])
qed

lemma sample_storable: "storable sample_record"
  by (simp add: storable_def sample_record_def valid_small seconds_def minutes_def hints_ok_def
      hints_of_def hint_attributes_def)

lemma sample_no_init: "sample_record\<lparr>init_expires_at := map_option f (init_expires_at sample_record)\<rparr> = sample_record"
  by (simp add: sample_record_def)

lemma sample_read: "read_record (record_item sample_record) = Some sample_record"
  using read_record_item [OF sample_storable] by (simp only: sample_no_init)

lemma sample_entries:
  "sample_table (owner_key (owner_of id ''user'')) = Some (mapping_item sample_record)"
  "sample_table (record_key ''sbx_A'') = Some (record_item sample_record)"
  "attr_s (mapping_item sample_record) ''sandboxId'' = Some ''sbx_A''"
  by (simp_all add: sample_table_def sample_record_def owner_of_def mapping_item_def attr_s_def)

lemma sample_at: "sandbox_at sample_table (owner_of id ''user'') = Some sample_record"
  by (simp add: sandbox_at_def sample_entries sample_read)

lemma sample_pk: "attr_s (record_item sample_record) ''pk'' = Some (sandbox_pk ''sbx_A'')"
proof -
  have "sandbox_id sample_record = ''sbx_A''" by (simp add: sample_record_def)
  then show ?thesis
    using record_item_fields(1) [of sample_record] sample_storable by (simp add: attr_s_Some storable_def)
qed

lemma sample_coherent: "coherent sample_table (owner_of id ''user'')"
  by (simp add: coherent_def sample_entries sample_pk)

text \<open>
  Round trip of a record through the table: what the control plane stores reads back as the
  same record; only the end of an initialization claim is cut to whole seconds.
\<close>

theorem record_round_trip:
  assumes "storable r"
  shows "item_record (record_item r) =
    Inr (r\<lparr>init_expires_at := map_option (\<lambda>t. seconds (epoch t)) (init_expires_at r)\<rparr>)"
  using read_record_item [OF assms]
  by (simp add: item_record_def whole_seconds_def [abs_def])

lemma record_round_trip_witness: "item_record (record_item sample_record) = Inr sample_record"
  using record_round_trip [OF sample_storable] by (simp only: sample_no_init)



text \<open>
  A full-record write carries the broker's attributes: every wake hint, the end of the
  initialization claim and the generation pointer of the item that was read come out of the
  write unchanged, whatever else the control plane sets. The claim's owner and the manifest
  digest are the two attributes it drops.
\<close>

theorem full_write_keeps_broker_fields:
  assumes "read_record it = Some r"
    and "wake_hints r' = wake_hints r" "init_expires_at r' = init_expires_at r"
    and "last_checkpoint_generation r' = last_checkpoint_generation r"
  shows "(\<forall>(name, numeric)\<in>set hint_attributes. \<forall>a. it name = Some a \<and> is_number a = numeric \<longrightarrow>
       record_item r' name = Some a) \<and>
    attr_n (record_item r') ''initExpiresAt'' = attr_n it ''initExpiresAt'' \<and>
    attr_n (record_item r') ''lastCheckpointGeneration'' = attr_n it ''lastCheckpointGeneration'' \<and>
    record_item r' ''initOwner'' = None \<and> record_item r' ''lastCheckpointManifestDigest'' = None"
proof -
  have hints: "wake_hints r' = hints_of it" using read_record_fields(2) [OF assms(1)] assms(2) by simp
  then have ok: "hints_ok (wake_hints r')" by simp
  note f = record_item_fields [OF ok]
  have "record_item r' name = Some a"
    if "(name, numeric) \<in> set hint_attributes" "it name = Some a" "is_number a = numeric" for name numeric a
  proof -
    have "name \<in> set hint_names" using that(1) by (force simp: hint_names_def)
    then show ?thesis
      using base_item_hints [OF ok] that map_of_hints_of [of it name a] by (simp add: hints)
  qed
  moreover have "attr_n (record_item r') ''initExpiresAt'' = attr_n it ''initExpiresAt''"
    using read_record_fields(3) [OF assms(1)] assms(3)
    by (cases "attr_n it ''initExpiresAt''") (simp_all add: attr_n_def [of "record_item r'"] f)
  moreover have "attr_n (record_item r') ''lastCheckpointGeneration'' = attr_n it ''lastCheckpointGeneration''"
    using read_record_fields(8) [OF assms(1)] assms(4)
    by (cases "last_checkpoint_generation r") (simp_all add: attr_n_def [of "record_item r'"] f)
  ultimately show ?thesis using f(18,19) by auto
qed

lemma hints_of_upd: "k \<notin> set hint_names \<Longrightarrow> hints_of (it(k \<mapsto> a)) = hints_of it"
  by (rule hints_of_cong) auto

lemma full_write_keeps_witness:
  "record_item (sample_record\<lparr>wake_hints := hints_of ((record_item sample_record)(''nextDueAt'' \<mapsto> AttrN 7)),
      sb_state := STOPPED\<rparr>) ''nextDueAt'' = Some (AttrN 7)"
proof -
  let ?it = "(record_item sample_record)(''nextDueAt'' \<mapsto> AttrN 7)"
  let ?r = "sample_record\<lparr>wake_hints := hints_of ?it\<rparr>"
  have "read_record ?it = map_option (\<lambda>r. r\<lparr>wake_hints := hints_of ?it\<rparr>) (read_record (record_item sample_record))"
    unfolding read_record_def optional_time_def by (simp split: Option.bind_splits option.splits)
  then have "read_record ?it = Some ?r" by (simp add: sample_read)
  from full_write_keeps_broker_fields [OF this, of "?r\<lparr>sb_state := STOPPED\<rparr>"]
  have "\<forall>(name, numeric)\<in>set hint_attributes. \<forall>a. ?it name = Some a \<and> is_number a = numeric \<longrightarrow>
      record_item (?r\<lparr>sb_state := STOPPED\<rparr>) name = Some a" by simp
  from bspec [OF this, of "(''nextDueAt'', True)"] show ?thesis
    by (simp add: hint_attributes_def is_number_def)
qed

text \<open>
  (C24) Optimistic locking: a record write is made only over the version it was computed from, and
  a writer that read an older version gets a conflict (or a service error) and changes
  nothing; so of two writers that read the same version at most one succeeds.
\<close>

theorem stale_write_refused:
  assumes db: "dynamo_documented db"
    and op: "put_updated db previous updated s = (s', res)"
    and hints: "hints_ok (wake_hints updated)"
    and version: "attr_n (item_at (table_of db s) (record_key (sandbox_id updated))) ''stateVersion''
      \<noteq> Some (state_version previous)"
  shows "table_of db s' = table_of db s \<and> \<not> is_ok res"
proof -
  let ?w = "Put (record_item updated) (Equals ''stateVersion'' (AttrN (state_version previous)))"
  have no: "\<not> allowed (table_of db s) ?w"
    using version by (simp add: allowed_def record_item_key [OF hints] attr_n_Some)
  obtain out where w: "write_item db ?w s = (s', out)"
    using op by (auto simp: put_updated_def split: prod.splits outcome.splits)
  from dynamo_write [OF db w] no op w show ?thesis
    by (cases out) (auto simp: put_updated_def written_def)
qed

lemma stale_write_refused_witness:
  "fst (put_updated table_service (sample_record\<lparr>state_version := 0\<rparr>) sample_record sample_table) = sample_table"
proof -
  have "sandbox_id sample_record = ''sbx_A''" "wake_hints sample_record = []" "state_version sample_record = 1"
    by (simp_all add: sample_record_def)
  with stale_write_refused [OF table_service_documented prod.collapse [symmetric],
      where previous = "sample_record\<lparr>state_version := 0\<rparr>" and updated = sample_record and s = sample_table]
    sample_entries(2) record_item_fields(6) [of sample_record]
  show ?thesis by (simp add: attr_n_def hints_ok_def hints_of_def hint_attributes_def)
qed

text \<open>
  (C7) One sandbox per owner: once an owner has a mapping, a creation that started before it was
  visible leaves the table as it is, and answers what reading it answers.
\<close>

theorem one_sandbox_per_owner:
  assumes db: "dynamo_documented db"
    and mapped: "table_of db s (owner_key (owner_of sha subject)) = Some m" "m ''pk'' \<noteq> None"
    and op: "dynamo_create sha db version c subject s = (s', res)"
  shows "table_of db s' = table_of db s \<and>
    (res = dynamo_get sha db subject s' \<or> \<not> is_ok res)"
proof (cases "subject = []")
  case True
  with op show ?thesis by (auto simp: dynamo_create_def dynamo_owner_hash_def)
next
  case False
  let ?r = "new_record (owner_of sha subject) version c"
  let ?ws = "[Put (mapping_item ?r) (AttributeNotExists ''pk''), Put (record_item ?r) (AttributeNotExists ''pk'')]"
  have oh: "dynamo_owner_hash sha subject = Inr (owner_of sha subject)"
    using False by (simp add: dynamo_owner_hash_Inr)
  have "\<not> allowed (table_of db s) (Put (mapping_item ?r) (AttributeNotExists ''pk''))"
    using mapped by (simp add: allowed_def mapping_item_key)
  then have no: "\<not> written (table_of db s) ?ws t" for t by (simp add: written_def)
  obtain out where w: "transact_items db ?ws s = (s', out)"
    using op oh by (auto simp: dynamo_create_def Let_def split: prod.splits outcome.splits)
  from dynamo_transact [OF db w] no op oh w show ?thesis
    by (cases out) (auto simp: dynamo_create_def Let_def)
qed

lemma one_sandbox_per_owner_witness:
  "fst (dynamo_create id table_service ''v1'' sample_creation ''user'' sample_table) = sample_table"
  using one_sandbox_per_owner [OF table_service_documented _ _ prod.collapse [symmetric],
      where s = sample_table and sha = id and subject = "''user''" and m = "mapping_item sample_record"
        and version = "''v1''" and c = sample_creation]
    sample_entries(1)
  by (simp add: mapping_item_def)

text \<open>A table with one recorded event, for the witness.\<close>

definition sample_event_service :: "table dynamo" where
  "sample_event_service = table_service\<lparr>query_items := (\<lambda>pk prefix forward limit t.
     if pk = sandbox_pk ''sbx_A'' \<and> prefix = ''EVENT#'' \<and> limit = Some 20
     then Inr [observation_item sample_record] else Inr [])\<rparr>"

lemma sample_event_documented: "dynamo_documented sample_event_service"
proof -
  have "query_answer (sandbox_pk ''sbx_A'') ''EVENT#'' forward (Some 20) [observation_item sample_record]" for forward
    by (simp add: query_answer_def observation_item_def sample_record_def sort_text_def attr_s_def starts_with_def)
  moreover have "query_answer pk prefix forward limit []" for pk prefix forward limit
    by (simp add: query_answer_def split: option.splits)
  ultimately show ?thesis
    using table_service_documented
    by (simp add: dynamo_documented_def sample_event_service_def) 
qed

text \<open>
  The stored history: what \<open>record_observation\<close> wrote is read back event by event, the newest
  version first and never more than asked for.
\<close>

theorem dynamo_history_newest_first:
  assumes db: "dynamo_documented db" and limit: "0 < limit"
    and items: "query_items db (sandbox_pk sid) ''EVENT#'' False (Some limit) s = Inr (map observation_item rs)"
    and rs: "\<forall>r\<in>set rs. valid_time (updated_at r) \<and> 0 \<le> state_version r \<and> state_version r < 10 ^ 12"
  shows "\<exists>es. dynamo_history db sid limit s = Inr es \<and>
    es = map (\<lambda>r. \<lparr>he_version = state_version r, he_state = sb_state r, he_at = updated_at r\<rparr>) rs \<and>
    sorted_wrt (>) (map he_version es) \<and> int (length es) \<le> limit"
proof -
  note q = dynamo_query [OF db items]
  have "sorted_wrt (\<lambda>a b. sort_text (observation_item b) < sort_text (observation_item a)) rs"
    using q by (simp add: query_answer_def sorted_wrt_map)
  then have "sorted_wrt (\<lambda>a b. state_version b < state_version a) rs"
    by (rule sorted_wrt_mono_rel [rotated]) (use rs observation_order in auto)
  moreover have "length rs \<le> nat limit" using q by (simp add: query_answer_def)
  moreover have "dynamo_history db sid limit s = Inr (map (\<lambda>r. \<lparr>he_version = state_version r,
      he_state = sb_state r, he_at = updated_at r\<rparr>) rs)"
    using limit items events_of_observations [of rs] rs by (simp add: dynamo_history_def)
  ultimately show ?thesis using limit by (simp add: sorted_wrt_map)
qed

lemma dynamo_history_witness:
  "\<exists>es. dynamo_history sample_event_service ''sbx_A'' 20 Map.empty = Inr es \<and> map he_version es = [1]"
  using dynamo_history_newest_first [OF sample_event_documented, of 20 "''sbx_A''" Map.empty "[sample_record]"]
  by (simp add: sample_event_service_def) (simp add: sample_record_def valid_small seconds_def)

end
