(* ===== verification/Tokens.thy ===== *)
theory Tokens
  imports Encoding DynamoRegistry
begin

text \<open>
  The signed tokens of the system: \<open>api.py\<close>'s \<open>SignedControlTokens\<close> and identity, the KMS
  signer behind it and, with the same format, the tokens of the broker. KMS is a parameter:
  what its two calls answer. A token is \<open>payload.signature\<close>, both unpadded base64, the
  payload a JSON object printed with sorted keys.
\<close>

subsection \<open>KMS\<close>

text \<open>
  \<open>sign\<close> answers the signature, or no bytes at all (\<open>None\<close>); both calls may fail with a
  \<open>ClientError\<close>, here its code. \<open>verify\<close> answers \<open>SignatureValid\<close>.
\<close>

record kms =
  kms_sign :: "string \<Rightarrow> (string, string option) result"
  kms_verify :: "string \<Rightarrow> string \<Rightarrow> (string, bool) result"

text \<open>What is signed verifies; the only fact about the key most properties need.\<close>

definition kms_documented :: "kms \<Rightarrow> bool" where
  "kms_documented k = (\<forall>m sig. kms_sign k m = Inr (Some sig) \<longrightarrow> kms_verify k m sig = Inr True)"

text \<open>And nothing verifies that a holder of the key did not sign.\<close>

definition kms_unforgeable :: "kms \<Rightarrow> string set \<Rightarrow> bool" where
  "kms_unforgeable k signed = (\<forall>m sig. kms_verify k m sig = Inr True \<longrightarrow> m \<in> signed)"

text \<open>A key held in memory, for the witnesses: the signature is the message reversed.\<close>

definition sample_kms :: kms where
  "sample_kms = \<lparr>kms_sign = (\<lambda>m. Inr (Some (rev m))), kms_verify = (\<lambda>m sig. Inr (sig = rev m))\<rparr>"

lemma sample_kms_documented: "kms_documented sample_kms"
  by (simp add: kms_documented_def sample_kms_def)

text \<open>An exception that is none of the handled classes: the invocation fails with it.\<close>

datatype crash =
  RuntimeErr string
| ValueCrash string
| ClientCrash string
| PermissionErr string
| KeyErr string
| TypeErr string
| AttributeErr string

text \<open>\<open>KmsRsaPssSigner\<close>.\<close>

definition signer_sign :: "kms \<Rightarrow> string \<Rightarrow> (crash, string) result" where
  "signer_sign k m = (case kms_sign k m of
     Inl code \<Rightarrow> Inl (ClientCrash code)
   | Inr None \<Rightarrow> Inl (RuntimeErr ''KMS signature is unavailable.'')
   | Inr (Some sig) \<Rightarrow> Inr sig)"

definition signer_verify :: "kms \<Rightarrow> string \<Rightarrow> string \<Rightarrow> (crash, unit) result" where
  "signer_verify k m sig = (case kms_verify k m sig of
     Inl code \<Rightarrow> Inl (ClientCrash code)
   | Inr valid \<Rightarrow> if valid then Inr () else Inl (ValueCrash ''KMS signature is invalid.''))"

subsection \<open>Errors of the control API\<close>

record api_error =
  ae_status :: int
  ae_code :: string
  ae_category :: string
  ae_message :: string
  ae_retryable :: bool

definition control_api_error :: "int \<Rightarrow> string \<Rightarrow> string \<Rightarrow> string \<Rightarrow> api_error" where
  "control_api_error status code category message =
     \<lparr>ae_status = status, ae_code = code, ae_category = category, ae_message = message,
      ae_retryable = False\<rparr>"

text \<open>Whatever a step of the service can raise.\<close>

datatype control_error =
  Api api_error
| FromRegistry registry_error
| Crash crash

subsection \<open>Issuing and verifying\<close>

record identity =
  id_subject :: string
  id_issuer :: string
  id_administrator :: bool

definition subject_hash :: "(string \<Rightarrow> string) \<Rightarrow> identity \<Rightarrow> string" where
  "subject_hash sha i = sha (id_issuer i @ [CHR 0x00] @ id_subject i)"

definition PROTOCOL_VERSION :: string where
  "PROTOCOL_VERSION = ''kirocrew-agentcore.v1''"

definition BINDING_TTL :: timedelta where
  "BINDING_TTL = minutes 30"

definition RECEIPT_TTL :: timedelta where
  "RECEIPT_TTL = minutes 10"

definition issue_token :: "kms \<Rightarrow> (string \<times> json) list \<Rightarrow> (crash, string) result" where
  "issue_token k claims =
     (let payload = base64url (json_dumps (JObj claims)) in
      case signer_sign k payload of
        Inl e \<Rightarrow> Inl e
      | Inr sig \<Rightarrow> Inr (payload @ ''.'' @ base64url sig))"

text \<open>\<open>token.split(".", 1)\<close> into exactly two parts.\<close>

definition split_dot :: "string \<Rightarrow> (string \<times> string) option" where
  "split_dot t =
     (let rest = dropWhile (\<lambda>c. c \<noteq> CHR ''.'') t in
      if rest = [] then None else Some (takeWhile (\<lambda>c. c \<noteq> CHR ''.'') t, tl rest))"

definition invalid_receipt :: api_error where
  "invalid_receipt = control_api_error 409 ''CHECKPOINT_FAILED'' ''PERSISTENCE'' ''Checkpoint receipt is invalid.''"

definition verify_token :: "kms \<Rightarrow> string \<Rightarrow> (api_error, (string \<times> json) list) result" where
  "verify_token k token =
     (case split_dot token of
        None \<Rightarrow> Inl invalid_receipt
      | Some (payload_encoded, signature_encoded) \<Rightarrow>
          (case (unbase64url payload_encoded, unbase64url signature_encoded) of
             (Some payload, Some sig) \<Rightarrow>
               (case signer_verify k payload_encoded sig of
                  Inl _ \<Rightarrow> Inl invalid_receipt
                | Inr _ \<Rightarrow>
                    (case json_loads payload of
                       Some (JObj claims) \<Rightarrow> Inr claims
                     | _ \<Rightarrow> Inl invalid_receipt))
           | _ \<Rightarrow> Inl invalid_receipt))"

lemma split_dot_append: "CHR ''.'' \<notin> set p \<Longrightarrow> split_dot (p @ ''.'' @ q) = Some (p, q)"
proof -
  assume "CHR ''.'' \<notin> set p"
  then have "takeWhile (\<lambda>c. c \<noteq> CHR ''.'') (p @ ''.'' @ q) = p"
    "dropWhile (\<lambda>c. c \<noteq> CHR ''.'') (p @ ''.'' @ q) = ''.'' @ q"
    by (induction p) auto
  then show ?thesis by (simp add: split_dot_def)
qed

text \<open>The claims a verifier reads back are those that were issued, key by key.\<close>

lemma verify_issued:
  assumes "kms_documented k" "issue_token k claims = Inr token" "plain_json (JObj claims)"
  obtains claims' where "verify_token k token = Inr claims'"
    "\<And>key. get_key claims' key = sort_json (get_key claims key)"
proof -
  let ?payload = "base64url (json_dumps (JObj claims))"
  from assms(2) obtain sig where sign: "signer_sign k ?payload = Inr sig"
    and token: "token = ?payload @ ''.'' @ base64url sig"
    by (auto simp: issue_token_def Let_def split: sum.splits)
  have "kms_sign k ?payload = Inr (Some sig)"
    using sign by (auto simp: signer_sign_def split: sum.splits option.splits)
  then have "signer_verify k ?payload sig = Inr ()"
    using assms(1) by (simp add: signer_verify_def kms_documented_def)
  moreover have "json_loads (json_dumps (JObj claims)) = Some (sort_json (JObj claims))"
    using assms(3) by (rule json_loads_dumps)
  ultimately have "verify_token k token =
      Inr (sort_key fst (map (\<lambda>kv. (fst kv, sort_json (snd kv))) claims))"
    using split_dot_append [OF base64url_no_dot] by (simp add: verify_token_def token)
  moreover have "get_key (sort_key fst (map (\<lambda>kv. (fst kv, sort_json (snd kv))) claims)) key =
      sort_json (get_key claims key)" for key
  proof -
    have "distinct (map fst (map (\<lambda>kv. (fst kv, sort_json (snd kv))) claims))"
      using assms(3) by (simp add: comp_def)
    then have "map_of (sort_key fst (map (\<lambda>kv. (fst kv, sort_json (snd kv))) claims)) key =
        map_option sort_json (map_of claims key)"
      by (simp add: map_of_sorted) (induction claims; simp)
    then show ?thesis by (simp add: get_key_def split: option.splits)
  qed
  ultimately show thesis by (rule that)
qed

lemma verify_signed:
  assumes "verify_token k token = Inr claims"
  obtains payload sig raw where "kms_verify k payload sig = Inr True"
    "unbase64url payload = Some raw" "json_loads raw = Some (JObj claims)"
  using assms
  by (auto simp: verify_token_def signer_verify_def
      split: option.splits sum.splits if_splits prod.splits json.splits)

subsection \<open>The control plane's tokens\<close>

definition session_claims ::
  "(string \<Rightarrow> string) \<Rightarrow> string \<Rightarrow> time \<Rightarrow> string \<Rightarrow> identity \<Rightarrow> sandbox_record \<Rightarrow> string \<Rightarrow>
     (string \<times> json) list" where
  "session_claims sha audience now nonce i r kind =
     [(''aud'', JStr audience), (''exp'', JInt (epoch (now + BINDING_TTL))), (''iat'', JInt (epoch now)),
      (''nonce'', JStr nonce), (''sandboxId'', JStr (sandbox_id r)),
      (''subjectHash'', JStr (subject_hash sha i)),
      (''runtimeSessionId'', JStr (runtime_session_id r)), (''type'', JStr kind)]"

definition issue_binding ::
  "(string \<Rightarrow> string) \<Rightarrow> kms \<Rightarrow> string \<Rightarrow> time \<Rightarrow> string \<Rightarrow> identity \<Rightarrow> sandbox_record \<Rightarrow>
     (crash, string \<times> time) result" where
  "issue_binding sha k audience now nonce i r =
     (case issue_token k (session_claims sha audience now nonce i r ''binding'') of
        Inl e \<Rightarrow> Inl e
      | Inr token \<Rightarrow> Inr (token, now + BINDING_TTL))"

definition issue_scheduler ::
  "(string \<Rightarrow> string) \<Rightarrow> kms \<Rightarrow> string \<Rightarrow> time \<Rightarrow> string \<Rightarrow> identity \<Rightarrow> sandbox_record \<Rightarrow>
     (crash, string \<times> time) result" where
  "issue_scheduler sha k audience now nonce i r =
     (case issue_token k (session_claims sha audience now nonce i r ''scheduler'') of
        Inl e \<Rightarrow> Inl e
      | Inr token \<Rightarrow> Inr (token, now + BINDING_TTL))"

definition issue_checkpoint_receipt ::
  "(string \<Rightarrow> string) \<Rightarrow> kms \<Rightarrow> string \<Rightarrow> time \<Rightarrow> string \<Rightarrow> identity \<Rightarrow> sandbox_record \<Rightarrow> int \<Rightarrow>
     string \<Rightarrow> (crash, string) result" where
  "issue_checkpoint_receipt sha k audience now nonce i r generation digest =
     (if generation \<le> 0 \<or> length digest \<noteq> 64
      then Inl (ValueCrash ''Committed generation and manifest digest are required.'')
      else issue_token k
        [(''aud'', JStr audience), (''exp'', JInt (epoch (now + RECEIPT_TTL))),
         (''generation'', JInt generation), (''iat'', JInt (epoch now)),
         (''manifestDigest'', JStr digest), (''nonce'', JStr nonce),
         (''runtimeSessionId'', JStr (runtime_session_id r)), (''sandboxId'', JStr (sandbox_id r)),
         (''subjectHash'', JStr (subject_hash sha i)), (''type'', JStr ''checkpoint-receipt'')])"

definition receipt_error :: "string \<Rightarrow> api_error" where
  "receipt_error message = control_api_error 409 ''CHECKPOINT_FAILED'' ''PERSISTENCE'' message"

definition verify_checkpoint_receipt ::
  "(string \<Rightarrow> string) \<Rightarrow> kms \<Rightarrow> string \<Rightarrow> time \<Rightarrow> string \<Rightarrow> identity \<Rightarrow> sandbox_record \<Rightarrow>
     (api_error, int \<times> string) result" where
  "verify_checkpoint_receipt sha k audience now token i r =
     (case verify_token k token of
        Inl e \<Rightarrow> Inl e
      | Inr value \<Rightarrow>
          (case (as_int (get_key value ''generation''), as_str (get_key value ''manifestDigest'')) of
             (Some generation, Some digest) \<Rightarrow>
               if get_key value ''type'' \<noteq> JStr ''checkpoint-receipt''
                  \<or> get_key value ''aud'' \<noteq> JStr audience
                  \<or> get_key value ''sandboxId'' \<noteq> JStr (sandbox_id r)
                  \<or> get_key value ''runtimeSessionId'' \<noteq> JStr (runtime_session_id r)
                  \<or> get_key value ''subjectHash'' \<noteq> JStr (subject_hash sha i)
                  \<or> generation \<le> 0 \<or> length digest \<noteq> 64
               then Inl (receipt_error ''Checkpoint receipt does not match the sandbox.'')
               else (case as_int (get_key value ''exp'') of
                   None \<Rightarrow> Inl (receipt_error ''Checkpoint receipt is stale.'')
                 | Some expires \<Rightarrow>
                     if expires \<le> epoch now then Inl (receipt_error ''Checkpoint receipt is stale.'')
                     else Inr (generation, digest))
           | _ \<Rightarrow> Inl (receipt_error ''Checkpoint receipt does not match the sandbox.'')))"

end
