(* ===== verification/PyText.thy ===== *)
theory PyText
  imports Prelude
begin

text \<open>
  The methods of Python's \<open>str\<close> that the sources apply to text from outside, for code points
  below 256: \<open>lower\<close>, \<open>isdigit\<close>, \<open>split\<close> and \<open>strip\<close>, and splitting at a separator.
\<close>

definition lower_char :: "char \<Rightarrow> char" where
  "lower_char c =
     (let n = (of_char c :: nat) in
      if (65 \<le> n \<and> n \<le> 90) \<or> (192 \<le> n \<and> n \<le> 222 \<and> n \<noteq> 215) then char_of (n + 32) else c)"

definition str_lower :: "string \<Rightarrow> string" where
  "str_lower s = map lower_char s"

definition upper_char :: "char \<Rightarrow> char" where
  "upper_char c =
     (let n = (of_char c :: nat) in if 97 \<le> n \<and> n \<le> 122 then char_of (n - 32) else c)"

text \<open>\<open>str.upper\<close> of ASCII text.\<close>

definition str_upper :: "string \<Rightarrow> string" where
  "str_upper s = map upper_char s"

lemma str_lower_simps [simp]: "str_lower [] = []" "str_lower (c # s) = lower_char c # str_lower s"
  by (simp_all add: str_lower_def)

definition is_decimal_char :: "char \<Rightarrow> bool" where
  "is_decimal_char c = (48 \<le> (of_char c :: nat) \<and> (of_char c :: nat) \<le> 57)"

text \<open>\<open>str.isdigit\<close>: the superscripts one, two and three count as digits, \<open>int\<close> refuses them.\<close>

definition is_digit_char :: "char \<Rightarrow> bool" where
  "is_digit_char c = (is_decimal_char c \<or> (of_char c :: nat) \<in> {178, 179, 185})"

definition str_isdigit :: "string \<Rightarrow> bool" where
  "str_isdigit s = (s \<noteq> [] \<and> list_all is_digit_char s)"

definition is_white :: "char \<Rightarrow> bool" where
  "is_white c = (let n = (of_char c :: nat) in
     (9 \<le> n \<and> n \<le> 13) \<or> (28 \<le> n \<and> n \<le> 32) \<or> n = 133 \<or> n = 160)"

text \<open>\<open>s.split()\<close>: the maximal runs of characters that are not white space.\<close>

fun split_white :: "string \<Rightarrow> string \<Rightarrow> string list" where
  "split_white acc [] = (if acc = [] then [] else [rev acc])"
| "split_white acc (c # cs) =
     (if is_white c then (if acc = [] then split_white [] cs else rev acc # split_white [] cs)
      else split_white (c # acc) cs)"

definition str_split :: "string \<Rightarrow> string list" where
  "str_split s = split_white [] s"

definition str_strip :: "string \<Rightarrow> string" where
  "str_strip s = rev (dropWhile is_white (rev (dropWhile is_white s)))"

text \<open>\<open>s.split(sep)\<close> for a separator of one character.\<close>

fun split_at :: "char \<Rightarrow> string \<Rightarrow> string \<Rightarrow> string list" where
  "split_at sep acc [] = [rev acc]"
| "split_at sep acc (c # cs) =
     (if c = sep then rev acc # split_at sep [] cs else split_at sep (c # acc) cs)"

definition split_on :: "char \<Rightarrow> string \<Rightarrow> string list" where
  "split_on sep s = split_at sep [] s"

lemma lower_char_lower [simp]: "97 \<le> (of_char c :: nat) \<Longrightarrow> (of_char c :: nat) < 128 \<Longrightarrow> lower_char c = c"
  by (simp add: lower_char_def)

end
