(* ===== verification/ControlApi.thy ===== *)
theory ControlApi
  imports Tokens PyText
begin

text \<open>
  \<open>kirocrew_agentcore_control/api.py\<close>: the control service. An event is the JSON object the
  Lambda is invoked with; \<open>handle\<close> is every route of it and the two operations of a
  scheduled wake. The registry behind it is the record \<open>registry_ops\<close> of operations it
  calls, which \<open>memory_ops\<close> and \<open>dynamo_ops\<close> provide; the locale \<open>sandbox_registry\<close>
  states what the service relies on. One invocation reads one time.
\<close>

subsection \<open>The registry the service calls\<close>

record 's registry_ops =
  op_get :: "string \<Rightarrow> 's \<Rightarrow> (registry_error, sandbox_record) result"
  op_get_or_create :: "string \<Rightarrow> 's \<Rightarrow> 's \<times> (registry_error, sandbox_record) result"
  op_acquire_start :: "string \<Rightarrow> string \<Rightarrow> timedelta \<Rightarrow> 's \<Rightarrow> 's \<times> (registry_error, start_lease) result"
  op_transition ::
    "string \<Rightarrow> sandbox_state \<Rightarrow> int \<Rightarrow> string option \<Rightarrow> 's \<Rightarrow> 's \<times> (registry_error, sandbox_record) result"
  op_request_deletion :: "string \<Rightarrow> 's \<Rightarrow> 's \<times> (registry_error, sandbox_record) result"
  op_record_observation :: "sandbox_record \<Rightarrow> 's \<Rightarrow> 's \<times> (registry_error, unit) result"
  op_history :: "string \<Rightarrow> int \<Rightarrow> 's \<Rightarrow> (registry_error, history_event list) result"
  op_record_wake_subject :: "string \<Rightarrow> string \<Rightarrow> 's \<Rightarrow> 's \<times> (registry_error, unit) result"
  op_checkpoint_get :: "string \<Rightarrow> int \<Rightarrow> 's \<Rightarrow> (registry_error, checkpoint_metadata option) result"
  op_checkpoint_list :: "string \<Rightarrow> 's \<Rightarrow> (registry_error, checkpoint_metadata list) result"

text \<open>
  The two providers. What the identifier factories and the clock return during the
  invocation, and the in-memory catalog, are arguments.
\<close>

definition memory_ops ::
  "(string \<Rightarrow> string) \<Rightarrow> creation \<Rightarrow> string \<Rightarrow> time \<Rightarrow> catalog \<Rightarrow> registry registry_ops" where
  "memory_ops sha c rotated now cat =
     \<lparr>op_get = mem_get sha,
      op_get_or_create = get_or_create sha c,
      op_acquire_start = (\<lambda>subject owner ttl. acquire_start sha c rotated now subject owner ttl False),
      op_transition = transition sha now,
      op_request_deletion = request_deletion sha now,
      op_record_observation = (\<lambda>r reg. (record_observation r reg, Inr ())),
      op_history = (\<lambda>sid limit reg. history reg sid limit),
      op_record_wake_subject = record_wake_subject,
      op_checkpoint_get = (\<lambda>sid g reg. Inr (catalog_get cat sid g)),
      op_checkpoint_list = (\<lambda>sid reg. Inr (catalog_list cat sid))\<rparr>"

definition dynamo_ops ::
  "(string \<Rightarrow> string) \<Rightarrow> 's dynamo \<Rightarrow> string \<Rightarrow> creation \<Rightarrow> string \<Rightarrow> time \<Rightarrow> 's registry_ops" where
  "dynamo_ops sha db version c rotated now =
     \<lparr>op_get = dynamo_get sha db,
      op_get_or_create = dynamo_get_or_create sha db version c,
      op_acquire_start = (\<lambda>subject owner ttl.
        dynamo_acquire_start sha db version c rotated now subject owner ttl False),
      op_transition = dynamo_transition sha db now,
      op_request_deletion = dynamo_request_deletion sha db now,
      op_record_observation = dynamo_record_observation db,
      op_history = dynamo_history db,
      op_record_wake_subject = dynamo_record_wake_subject db,
      op_checkpoint_get = dynamo_catalog_get db,
      op_checkpoint_list = dynamo_catalog_list db\<rparr>"

subsection \<open>Configuration and the service\<close>

record control_config =
  cc_issuer :: string
  cc_app_client_id :: string
  cc_allowed_origin :: string
  cc_region :: string
  cc_runtime_arn :: string
  cc_qualifier :: string
  cc_http_url :: string
  cc_websocket_url :: string
  cc_deployment_mode :: string
  cc_frontend_compatibility_version :: string
  cc_token_audience :: string
  cc_persisted_paths :: "string list"

definition config_valid :: "control_config \<Rightarrow> bool" where
  "config_valid cc =
     (starts_with (cc_allowed_origin cc) ''https://'' \<and> starts_with (cc_runtime_arn cc) ''arn:'' \<and>
      starts_with (cc_http_url cc) ''https://'' \<and> starts_with (cc_websocket_url cc) ''wss://'' \<and>
      cc_qualifier cc \<noteq> [] \<and> cc_region cc \<noteq> [] \<and> cc_frontend_compatibility_version cc \<noteq> [])"

record claims_validator =
  cv_issuer :: string
  cv_app_client_id :: string
  cv_required_scope :: string
  cv_administrator_group :: string

text \<open>What an attempt to stop the runtime session did: \<open>AgentCoreStopError\<close> has a status.\<close>

datatype stop_outcome = StopOk | StopError int | StopCrash crash

record 's service_env =
  se_sha :: "string \<Rightarrow> string"
  se_config :: control_config
  se_ops :: "'s registry_ops"
  se_claims :: claims_validator
  se_kms :: kms
  se_now :: time
  se_nonce :: string
  se_random :: nat
  se_stopper :: "string \<Rightarrow> nat \<Rightarrow> stop_outcome"
  se_sealer :: "(string \<Rightarrow> string \<Rightarrow> (crash, string) result) option"
  se_max_stop_attempts :: nat
  se_lease_ttl :: timedelta

text \<open>The state of a running service: the registry's, and the answers it remembers.\<close>

record 's control_state =
  ct_registry :: 's
  ct_idempotency :: "string \<times> string \<times> string \<rightharpoonup> string \<times> (string \<times> json) list"

subsection \<open>Reading an event\<close>

fun fields_of :: "json \<Rightarrow> (string \<times> json) list" where
  "fields_of (JObj kvs) = kvs"
| "fields_of _ = []"

text \<open>\<open>_headers\<close>: lower-cased names, a later header replacing an earlier one.\<close>

fun collect_headers :: "(string \<times> json) list \<Rightarrow> (string \<rightharpoonup> string) \<Rightarrow> (string \<rightharpoonup> string)" where
  "collect_headers [] m = m"
| "collect_headers ((k, v) # kvs) m =
     (case v of JStr s \<Rightarrow> collect_headers kvs (m(str_lower k \<mapsto> s)) | _ \<Rightarrow> collect_headers kvs m)"

definition headers_of :: "(string \<times> json) list \<Rightarrow> (string \<rightharpoonup> string)" where
  "headers_of event = collect_headers (fields_of (get_key event ''headers'')) Map.empty"

definition correlation_id :: "nat \<Rightarrow> (string \<times> json) list \<Rightarrow> string" where
  "correlation_id random event =
     (case headers_of event ''x-correlation-id'' of
        Some supplied \<Rightarrow>
          if length supplied = 26 \<and> list_all (\<lambda>c. c \<in> set crockford) supplied then supplied
          else crockford26 random
      | None \<Rightarrow> crockford26 random)"

definition claims_from_event :: "(string \<times> json) list \<Rightarrow> (string \<times> json) list option" where
  "claims_from_event context =
     (case get_key context ''authorizer'' of
        JObj authorizer \<Rightarrow>
          (case get_key authorizer ''jwt'' of
             JObj jwt \<Rightarrow> (case get_key jwt ''claims'' of JObj claims \<Rightarrow> Some claims | _ \<Rightarrow> None)
           | _ \<Rightarrow> None)
      | _ \<Rightarrow> None)"

definition lifecycle_error :: "int \<Rightarrow> string \<Rightarrow> api_error" where
  "lifecycle_error status message = control_api_error status ''INVALID_MESSAGE'' ''LIFECYCLE'' message"

definition body_of_event :: "(string \<times> json) list \<Rightarrow> (api_error, (string \<times> json) list) result" where
  "body_of_event event =
     (case get_key event ''body'' of
        JStr raw \<Rightarrow>
          (case json_loads raw of
             Some (JObj kvs) \<Rightarrow> Inr kvs
           | _ \<Rightarrow> Inl (lifecycle_error 400 ''JSON body is invalid.''))
      | _ \<Rightarrow> Inl (lifecycle_error 400 ''JSON body is required.''))"

definition idempotency_key :: "(string \<times> json) list \<Rightarrow> (api_error, string) result" where
  "idempotency_key event =
     (case headers_of event ''idempotency-key'' of
        None \<Rightarrow> Inl (lifecycle_error 400 ''A valid idempotency key is required.'')
      | Some k \<Rightarrow>
          if 16 \<le> length k \<and> length k \<le> 128 then Inr k
          else Inl (lifecycle_error 400 ''A valid idempotency key is required.''))"

definition validate_origin :: "control_config \<Rightarrow> (string \<times> json) list \<Rightarrow> (api_error, unit) result" where
  "validate_origin cc event =
     (case headers_of event ''origin'' of
        None \<Rightarrow> Inr ()
      | Some origin \<Rightarrow>
          if origin = cc_allowed_origin cc then Inr ()
          else Inl (control_api_error 403 ''AUTHORIZATION_FAILED'' ''AUTHORIZATION'' ''Origin is not allowed.''))"

subsection \<open>Claims\<close>

definition authentication_failed :: "string \<Rightarrow> api_error" where
  "authentication_failed message =
     control_api_error 401 ''AUTHENTICATION_FAILED'' ''AUTHENTICATION'' message"

text \<open>\<open>int(raw_expires)\<close> raises for a digit that is not decimal, so the first result is a crash.\<close>

definition read_expires :: "json \<Rightarrow> (crash, json) result" where
  "read_expires raw =
     (case raw of
        JStr s \<Rightarrow>
          if str_isdigit s
          then (case read_digits 0 s of
                  None \<Rightarrow> Inl (ValueCrash ''invalid literal for int()'')
                | Some n \<Rightarrow> Inr (JInt (int n)))
          else Inr raw
      | _ \<Rightarrow> Inr raw)"

text \<open>The expiry in microseconds, for the two types that are accepted.\<close>

definition expires_micros :: "json \<Rightarrow> int option" where
  "expires_micros j = (case j of JInt n \<Rightarrow> Some (seconds n) | JFloat m \<Rightarrow> Some m | _ \<Rightarrow> None)"

definition validate_claims ::
  "claims_validator \<Rightarrow> time \<Rightarrow> (string \<times> json) list option \<Rightarrow> (control_error, identity) result" where
  "validate_claims cv now claims_opt =
     (case claims_opt of
        None \<Rightarrow> Inl (Api (authentication_failed ''Authentication is required.''))
      | Some claims \<Rightarrow>
          (case read_expires (get_key claims ''exp'') of
             Inl e \<Rightarrow> Inl (Crash e)
           | Inr expires \<Rightarrow>
               (case (as_str (get_key claims ''sub''), as_str (get_key claims ''scope''), expires_micros expires) of
                  (Some subject, Some scopes, Some until) \<Rightarrow>
                    if subject = []
                       \<or> get_key claims ''iss'' \<noteq> JStr (cv_issuer cv)
                       \<or> get_default claims ''client_id'' (get_key claims ''aud'') \<noteq> JStr (cv_app_client_id cv)
                       \<or> get_key claims ''token_use'' \<noteq> JStr ''access''
                    then Inl (Api (authentication_failed ''Authentication claims are invalid.''))
                    else if until \<le> now
                    then Inl (Api (authentication_failed ''Authentication has expired.''))
                    else if cv_required_scope cv \<notin> set (str_split scopes)
                    then Inl (Api (control_api_error 403 ''AUTHORIZATION_FAILED'' ''AUTHORIZATION''
                           ''The required scope is missing.''))
                    else Inr \<lparr>id_subject = subject, id_issuer = cv_issuer cv,
                         id_administrator = (case get_key claims ''cognito:groups'' of
                            JList groups \<Rightarrow> JStr (cv_administrator_group cv) \<in> set groups
                          | _ \<Rightarrow> False)\<rparr>
                | _ \<Rightarrow> Inl (Api (authentication_failed ''Authentication claims are invalid.'')))))"

subsection \<open>Bodies and responses\<close>

record http_response =
  hr_status :: int
  hr_body :: string
  hr_headers :: "(string \<times> string) list"
  hr_base64 :: bool

definition respond :: "control_config \<Rightarrow> int \<Rightarrow> json \<Rightarrow> string \<Rightarrow> http_response" where
  "respond cc status body cid =
     \<lparr>hr_status = status,
      hr_body = (if status = 204 then [] else json_dumps body),
      hr_headers =
        [(''Access-Control-Allow-Headers'', ''Authorization,Content-Type,Idempotency-Key,X-Correlation-Id''),
         (''Access-Control-Allow-Methods'', ''GET,POST,DELETE,OPTIONS''),
         (''Access-Control-Allow-Origin'', cc_allowed_origin cc),
         (''Content-Type'', ''application/json''),
         (''X-Correlation-Id'', cid)],
      hr_base64 = False\<rparr>"

definition respond_error :: "control_config \<Rightarrow> api_error \<Rightarrow> string \<Rightarrow> http_response" where
  "respond_error cc e cid =
     respond cc (ae_status e)
       (JObj [(''category'', JStr (ae_category e)), (''code'', JStr (ae_code e)),
              (''correlationId'', JStr cid), (''message'', JStr (ae_message e)),
              (''retryable'', JBool (ae_retryable e))]) cid"

definition opt_json :: "string option \<Rightarrow> json" where
  "opt_json v = (case v of None \<Rightarrow> JNull | Some s \<Rightarrow> JStr s)"

definition public_config :: "control_config \<Rightarrow> (string \<times> json) list" where
  "public_config cc =
     [(''deploymentMode'', JStr (cc_deployment_mode cc)),
      (''frontendCompatibilityVersion'', JStr (cc_frontend_compatibility_version cc)),
      (''protocolVersion'', JStr PROTOCOL_VERSION), (''qualifier'', JStr (cc_qualifier cc)),
      (''region'', JStr (cc_region cc)), (''runtimeArn'', JStr (cc_runtime_arn cc))]"

definition progress_fields :: "string list" where
  "progress_fields = [''chunksDone'', ''chunksTotal'', ''files'']"

text \<open>\<open>_restore_progress\<close>: the hint the broker published, if it still reads as three counts.\<close>

definition restore_progress :: "sandbox_record \<Rightarrow> (string \<times> json) list option" where
  "restore_progress r =
     (case map_of (wake_hints r) ''restoreProgress'' of
        Some (AttrS raw) \<Rightarrow>
          (case json_loads raw of
             Some (JObj value) \<Rightarrow>
               if list_all (\<lambda>name. case get_key value name of JInt n \<Rightarrow> 0 \<le> n | _ \<Rightarrow> False) progress_fields
               then Some (map (\<lambda>name. (name, get_key value name)) progress_fields)
               else None
           | _ \<Rightarrow> None)
      | _ \<Rightarrow> None)"

definition sandbox_body :: "sandbox_record \<Rightarrow> (string \<times> json) list" where
  "sandbox_body r =
     [(''lastCheckpointAt'', JNull), (''lastRestore'', opt_json (last_restore r)),
      (''sandboxId'', JStr (sandbox_id r)), (''state'', JStr (state_value (sb_state r))),
      (''stateVersion'', JInt (state_version r)), (''updatedAt'', JStr (timestamp (updated_at r)))] @
     (if sb_state r = RESTORING
      then (case restore_progress r of
              None \<Rightarrow> []
            | Some progress \<Rightarrow> [(''restoreProgress'', JObj progress)])
      else [])"

definition status_text :: "checkpoint_status \<Rightarrow> string" where
  "status_text st = (case st of COMMITTED \<Rightarrow> ''COMMITTED'' | RESTORE_FAILED \<Rightarrow> ''RESTORE_FAILED'')"

definition checkpoint_body :: "checkpoint_metadata \<Rightarrow> json" where
  "checkpoint_body m =
     JObj [(''createdAt'', JStr (timestamp (cm_created_at m))), (''generation'', JInt (cm_generation m)),
           (''schemaVersion'', JInt (cm_schema_version m)), (''status'', JStr (status_text (cm_status m)))]"

definition history_body :: "control_config \<Rightarrow> history_event list \<Rightarrow> (string \<times> json) list" where
  "history_body cc events =
     [(''events'', JList (map (\<lambda>e. JObj [(''at'', JStr (timestamp (he_at e))),
          (''state'', JStr (state_value (he_state e))), (''stateVersion'', JInt (he_version e))]) events)),
      (''persistedPaths'', JList (map JStr (cc_persisted_paths cc)))]"

subsection \<open>Idempotency\<close>

definition idempotent ::
  "'s control_state \<Rightarrow> string \<Rightarrow> string \<Rightarrow> string \<Rightarrow> string \<Rightarrow>
     (api_error, (string \<times> json) list option) result" where
  "idempotent st subject operation key payload_hash =
     (case ct_idempotency st (subject, operation, key) of
        None \<Rightarrow> Inr None
      | Some (h, body) \<Rightarrow>
          if h \<noteq> payload_hash
          then Inl (control_api_error 409 ''IDEMPOTENCY_CONFLICT'' ''LIFECYCLE''
                 ''Idempotency key was reused with another request.'')
          else Inr (Some body))"

definition remember ::
  "string \<Rightarrow> string \<Rightarrow> string \<Rightarrow> string \<Rightarrow> (string \<times> json) list \<Rightarrow> 's control_state \<Rightarrow> 's control_state" where
  "remember subject operation key payload_hash body st =
     st\<lparr>ct_idempotency := (ct_idempotency st)((subject, operation, key) \<mapsto> (payload_hash, body))\<rparr>"

subsection \<open>Stopping the runtime\<close>

text \<open>
  \<open>_stop_runtime\<close> with attempts numbered from 0. Besides its answer it returns the caps, in
  milliseconds, of the delays it asked the jitter for.
\<close>

definition backoff_cap :: "nat \<Rightarrow> nat" where
  "backoff_cap attempt = min (250 * 2 ^ (attempt - 1)) 2000"

definition retryable_status :: "int \<Rightarrow> bool" where
  "retryable_status status = (status = 409 \<or> status = 429 \<or> 500 \<le> status)"

definition stop_unavailable :: api_error where
  "stop_unavailable = \<lparr>ae_status = 503, ae_code = ''THROTTLED'', ae_category = ''THROTTLING'',
     ae_message = ''Runtime stop is temporarily unavailable.'', ae_retryable = True\<rparr>"

function stop_runtime ::
  "(nat \<Rightarrow> stop_outcome) \<Rightarrow> nat \<Rightarrow> nat \<Rightarrow> (control_error, unit) result \<times> nat list" where
  "stop_runtime stopper max_attempts attempt =
     (case stopper attempt of
        StopOk \<Rightarrow> (Inr (), [])
      | StopCrash e \<Rightarrow> (Inl (Crash e), [])
      | StopError status \<Rightarrow>
          if \<not> retryable_status status then (Inr (), [])
          else if max_attempts \<le> Suc attempt then (Inl (Api stop_unavailable), [])
          else (let (res, delays) = stop_runtime stopper max_attempts (Suc attempt)
                in (res, backoff_cap (Suc attempt) # delays)))"
  by pat_completeness auto
termination
  by (relation "measure (\<lambda>(stopper, max_attempts, attempt). max_attempts - attempt)") auto

declare stop_runtime.simps [simp del]

subsection \<open>Start and stop\<close>

type_synonym ('s, 'a) handled = "'s control_state \<times> (control_error, 'a) result"

abbreviation with_registry :: "'s control_state \<Rightarrow> 's \<Rightarrow> 's control_state" where
  "with_registry st s \<equiv> st\<lparr>ct_registry := s\<rparr>"

definition enroll_wake :: "'s service_env \<Rightarrow> identity \<Rightarrow> sandbox_record \<Rightarrow> 's \<Rightarrow> 's" where
  "enroll_wake env i r s =
     (case se_sealer env of
        None \<Rightarrow> s
      | Some seal \<Rightarrow>
          (case seal (id_subject i) (sandbox_id r) of
             Inl _ \<Rightarrow> s
           | Inr sealed \<Rightarrow> fst (op_record_wake_subject (se_ops env) (sandbox_id r) sealed s)))"

definition start_sandbox ::
  "'s service_env \<Rightarrow> identity \<Rightarrow> string \<Rightarrow> 's control_state \<Rightarrow> ('s, (string \<times> json) list) handled" where
  "start_sandbox env i key st =
     (case idempotent st (id_subject i) ''start'' key ''start'' of
        Inl e \<Rightarrow> (st, Inl (Api e))
      | Inr (Some replay) \<Rightarrow> (st, Inr replay)
      | Inr None \<Rightarrow>
          (case op_get_or_create (se_ops env) (id_subject i) (ct_registry st) of
             (s1, Inl e) \<Rightarrow> (with_registry st s1, Inl (FromRegistry e))
           | (s1, Inr existing) \<Rightarrow>
               (case op_acquire_start (se_ops env) (id_subject i) (runtime_session_id existing)
                       (se_lease_ttl env) s1 of
                  (s2, Inl e) \<Rightarrow> (with_registry st s2, Inl (FromRegistry e))
                | (s2, Inr lease) \<Rightarrow>
                    (case issue_binding (se_sha env) (se_kms env) (cc_token_audience (se_config env))
                            (se_now env) (se_nonce env) i (sl_record lease) of
                       Inl e \<Rightarrow> (with_registry st s2, Inl (Crash e))
                     | Inr (binding, expires) \<Rightarrow>
                         let s3 = enroll_wake env i (sl_record lease) s2;
                             cc = se_config env;
                             body =
                               [(''bindingToken'', JStr binding), (''expiresAt'', JStr (timestamp expires)),
                                (''frontendCompatibilityVersion'', JStr (cc_frontend_compatibility_version cc)),
                                (''httpUrl'', JStr (cc_http_url cc)), (''protocolVersion'', JStr PROTOCOL_VERSION),
                                (''qualifier'', JStr (cc_qualifier cc)), (''runtimeArn'', JStr (cc_runtime_arn cc)),
                                (''runtimeSessionId'', JStr (runtime_session_id (sl_record lease))),
                                (''sandboxId'', JStr (sandbox_id (sl_record lease))),
                                (''state'', JStr (state_value (sb_state (sl_record lease)))),
                                (''webSocketUrl'', JStr (cc_websocket_url cc))]
                         in (remember (id_subject i) ''start'' key ''start'' body (with_registry st s3), Inr body)))))"

text \<open>The guard of a stop: the record and the committed checkpoint the receipt must match.\<close>

definition stoppable :: "sandbox_record \<Rightarrow> int \<Rightarrow> string \<Rightarrow> checkpoint_metadata option \<Rightarrow> bool" where
  "stoppable r generation digest metadata =
     (sb_state r = STOPPING \<and> last_checkpoint_generation r = Some generation \<and>
      (case metadata of None \<Rightarrow> False
       | Some m \<Rightarrow> cm_status m = COMMITTED \<and> cm_manifest_digest m = digest))"

definition stop_sandbox ::
  "'s service_env \<Rightarrow> identity \<Rightarrow> string \<Rightarrow> (string \<times> json) list \<Rightarrow> 's control_state \<Rightarrow>
     ('s, (string \<times> json) list) handled" where
  "stop_sandbox env i key body st =
     (case get_key body ''checkpointReceipt'' of
        JStr receipt \<Rightarrow>
          if set (map fst body) \<noteq> {''checkpointReceipt''}
          then (st, Inl (Api (control_api_error 400 ''INVALID_MESSAGE'' ''PERSISTENCE''
                 ''Checkpoint receipt is required.'')))
          else let payload_hash = se_sha env receipt in
            (case idempotent st (id_subject i) ''stop'' key payload_hash of
               Inl e \<Rightarrow> (st, Inl (Api e))
             | Inr (Some replay) \<Rightarrow> (st, Inr replay)
             | Inr None \<Rightarrow>
                 (case op_get (se_ops env) (id_subject i) (ct_registry st) of
                    Inl e \<Rightarrow> (st, Inl (FromRegistry e))
                  | Inr r \<Rightarrow>
                      (case verify_checkpoint_receipt (se_sha env) (se_kms env)
                              (cc_token_audience (se_config env)) (se_now env) receipt i r of
                         Inl e \<Rightarrow> (st, Inl (Api e))
                       | Inr (generation, digest) \<Rightarrow>
                           (case op_checkpoint_get (se_ops env) (sandbox_id r) generation (ct_registry st) of
                              Inl e \<Rightarrow> (st, Inl (FromRegistry e))
                            | Inr metadata \<Rightarrow>
                                if \<not> stoppable r generation digest metadata
                                then (st, Inl (Api (receipt_error
                                       ''A current committed checkpoint is required before stop.'')))
                                else (case fst (stop_runtime (se_stopper env (runtime_session_id r))
                                              (se_max_stop_attempts env) 0) of
                                    Inl e \<Rightarrow> (st, Inl e)
                                  | Inr _ \<Rightarrow>
                                      (case op_transition (se_ops env) (id_subject i) STOPPED
                                              (state_version r) (lease_owner r) (ct_registry st) of
                                         (s1, Inl e) \<Rightarrow> (with_registry st s1, Inl (FromRegistry e))
                                       | (s1, Inr stopped) \<Rightarrow>
                                           (remember (id_subject i) ''stop'' key payload_hash (sandbox_body stopped)
                                              (with_registry st s1), Inr (sandbox_body stopped))))))))
      | _ \<Rightarrow> (st, Inl (Api (control_api_error 400 ''INVALID_MESSAGE'' ''PERSISTENCE''
               ''Checkpoint receipt is required.''))))"

subsection \<open>Scheduled wakes\<close>

definition required_text :: "(string \<times> json) list \<Rightarrow> string \<Rightarrow> string option" where
  "required_text event name =
     (case get_key event name of JStr s \<Rightarrow> if s = [] then None else Some s | _ \<Rightarrow> None)"

definition named_sandbox ::
  "'s service_env \<Rightarrow> string \<Rightarrow> string \<Rightarrow> string \<Rightarrow> 's \<Rightarrow> (control_error, sandbox_record) result" where
  "named_sandbox env subject sid missing s =
     (case op_get (se_ops env) subject s of
        Inl (SandboxUnavailable _) \<Rightarrow>
          Inl (Api (control_api_error 404 ''SANDBOX_NOT_FOUND'' ''LIFECYCLE'' missing))
      | Inl e \<Rightarrow> Inl (FromRegistry e)
      | Inr existing \<Rightarrow>
          if sandbox_id existing \<noteq> sid
          then Inl (Api (control_api_error 409 ''SANDBOX_MISMATCH'' ''LIFECYCLE''
                 ''The named sandbox does not belong to the named subject.''))
          else Inr existing)"

definition scheduler_start ::
  "'s service_env \<Rightarrow> (string \<times> json) list \<Rightarrow> 's control_state \<Rightarrow> ('s, (string \<times> json) list) handled" where
  "scheduler_start env event st =
     (case required_text event ''cognitoSubject'' of
        None \<Rightarrow> (st, Inl (Api (lifecycle_error 400 ''Scheduler wake requires a subject.'')))
      | Some subject \<Rightarrow>
     (case required_text event ''sandboxId'' of
        None \<Rightarrow> (st, Inl (Api (lifecycle_error 400 ''Scheduler wake requires a sandbox id.'')))
      | Some sid \<Rightarrow>
     (case required_text event ''idempotencyKey'' of
        None \<Rightarrow> (st, Inl (Api (lifecycle_error 400 ''Scheduler wake requires an idempotency key.'')))
      | Some key \<Rightarrow>
          let i = \<lparr>id_subject = subject, id_issuer = cv_issuer (se_claims env), id_administrator = False\<rparr> in
          (case idempotent st subject ''schedulerStart'' key ''schedulerStart'' of
             Inl e \<Rightarrow> (st, Inl (Api e))
           | Inr (Some replay) \<Rightarrow> (st, Inr replay)
           | Inr None \<Rightarrow>
               (case named_sandbox env subject sid ''The named subject has no sandbox to wake.'' (ct_registry st) of
                  Inl e \<Rightarrow> (st, Inl e)
                | Inr existing \<Rightarrow>
                    (case op_acquire_start (se_ops env) subject (runtime_session_id existing)
                            (se_lease_ttl env) (ct_registry st) of
                       (s1, Inl e) \<Rightarrow> (with_registry st s1, Inl (FromRegistry e))
                     | (s1, Inr lease) \<Rightarrow>
                         (case issue_scheduler (se_sha env) (se_kms env) (cc_token_audience (se_config env))
                                 (se_now env) (se_nonce env) i (sl_record lease) of
                            Inl e \<Rightarrow> (with_registry st s1, Inl (Crash e))
                          | Inr (token, expires) \<Rightarrow>
                              let r = sl_record lease;
                                  body =
                                    [(''authoritative'', JBool (authoritative lease)),
                                     (''expiresAt'', JStr (timestamp expires)),
                                     (''qualifier'', JStr (cc_qualifier (se_config env))),
                                     (''runtimeArn'', JStr (cc_runtime_arn (se_config env))),
                                     (''runtimeSessionId'', JStr (runtime_session_id r)),
                                     (''sandboxId'', JStr (sandbox_id r)),
                                     (''schedulerToken'', JStr token),
                                     (''state'', JStr (state_value (sb_state r)))]
                              in (remember subject ''schedulerStart'' key ''schedulerStart'' body
                                    (with_registry st s1), Inr body))))))))"

definition scheduler_stop ::
  "'s service_env \<Rightarrow> (string \<times> json) list \<Rightarrow> 's control_state \<Rightarrow> ('s, (string \<times> json) list) handled" where
  "scheduler_stop env event st =
     (case required_text event ''cognitoSubject'' of
        None \<Rightarrow> (st, Inl (Api (lifecycle_error 400 ''Scheduler stop requires a subject.'')))
      | Some subject \<Rightarrow>
     (case required_text event ''sandboxId'' of
        None \<Rightarrow> (st, Inl (Api (lifecycle_error 400 ''Scheduler stop requires a sandbox id.'')))
      | Some sid \<Rightarrow>
     (case required_text event ''idempotencyKey'' of
        None \<Rightarrow> (st, Inl (Api (lifecycle_error 400 ''Scheduler stop requires an idempotency key.'')))
      | Some key \<Rightarrow>
     (case required_text event ''checkpointReceipt'' of
        None \<Rightarrow> (st, Inl (Api (control_api_error 400 ''INVALID_MESSAGE'' ''PERSISTENCE''
                  ''Scheduler stop requires a receipt.'')))
      | Some receipt \<Rightarrow>
          let i = \<lparr>id_subject = subject, id_issuer = cv_issuer (se_claims env), id_administrator = False\<rparr> in
          (case named_sandbox env subject sid ''The named subject has no sandbox.'' (ct_registry st) of
             Inl e \<Rightarrow> (st, Inl e)
           | Inr existing \<Rightarrow> stop_sandbox env i key [(''checkpointReceipt'', JStr receipt)] st)))))"

subsection \<open>Routes\<close>

definition ROUTES :: "((string \<times> string) \<times> string) list" where
  "ROUTES =
     [((''GET'', ''/control/v1/config''), ''getPublicConfig''),
      ((''GET'', ''/control/v1/sandbox''), ''getSandbox''),
      ((''DELETE'', ''/control/v1/sandbox''), ''deleteSandbox''),
      ((''POST'', ''/control/v1/sandbox/start''), ''startSandbox''),
      ((''POST'', ''/control/v1/sandbox/stop''), ''stopSandbox''),
      ((''GET'', ''/control/v1/sandbox/checkpoints''), ''listCheckpoints''),
      ((''GET'', ''/control/v1/sandbox/history''), ''getSandboxHistory'')]"

text \<open>The status and the body of an answer.\<close>

type_synonym answer = "int \<times> json"

definition answer :: "int \<Rightarrow> ('s, (string \<times> json) list) handled \<Rightarrow> ('s, answer) handled" where
  "answer status h = (case h of
     (st, Inl e) \<Rightarrow> (st, Inl e) | (st, Inr body) \<Rightarrow> (st, Inr (status, JObj body)))"

text \<open>\<open>get_or_create\<close> and then \<open>record_observation\<close>, the first steps of two routes.\<close>

definition observe ::
  "'s service_env \<Rightarrow> identity \<Rightarrow> 's control_state \<Rightarrow> ('s, sandbox_record) handled" where
  "observe env i st =
     (case op_get_or_create (se_ops env) (id_subject i) (ct_registry st) of
        (s1, Inl e) \<Rightarrow> (with_registry st s1, Inl (FromRegistry e))
      | (s1, Inr r) \<Rightarrow>
          (case op_record_observation (se_ops env) r s1 of
             (s2, Inl e) \<Rightarrow> (with_registry st s2, Inl (FromRegistry e))
           | (s2, Inr _) \<Rightarrow> (with_registry st s2, Inr r)))"

definition authenticated_route ::
  "'s service_env \<Rightarrow> string \<Rightarrow> (string \<times> json) list \<Rightarrow> identity \<Rightarrow> 's control_state \<Rightarrow> ('s, answer) handled" where
  "authenticated_route env operation event i st =
     (if operation = ''getSandbox'' then
        answer 200 (case observe env i st of
          (st1, Inl e) \<Rightarrow> (st1, Inl e) | (st1, Inr r) \<Rightarrow> (st1, Inr (sandbox_body r)))
      else if operation = ''getSandboxHistory'' then
        answer 200 (case observe env i st of
          (st1, Inl e) \<Rightarrow> (st1, Inl e)
        | (st1, Inr r) \<Rightarrow>
            (case op_history (se_ops env) (sandbox_id r) 20 (ct_registry st1) of
               Inl e \<Rightarrow> (st1, Inl (FromRegistry e))
             | Inr events \<Rightarrow> (st1, Inr (history_body (se_config env) events))))
      else if operation = ''startSandbox'' then
        (case idempotency_key event of
           Inl e \<Rightarrow> (st, Inl (Api e))
         | Inr key \<Rightarrow> answer 200 (start_sandbox env i key st))
      else if operation = ''stopSandbox'' then
        (case idempotency_key event of
           Inl e \<Rightarrow> (st, Inl (Api e))
         | Inr key \<Rightarrow>
             (case body_of_event event of
                Inl e \<Rightarrow> (st, Inl (Api e))
              | Inr body \<Rightarrow> answer 202 (stop_sandbox env i key body st)))
      else if operation = ''listCheckpoints'' then
        (case op_get (se_ops env) (id_subject i) (ct_registry st) of
           Inl e \<Rightarrow> (st, Inl (FromRegistry e))
         | Inr r \<Rightarrow>
             (case op_checkpoint_list (se_ops env) (sandbox_id r) (ct_registry st) of
                Inl e \<Rightarrow> (st, Inl (FromRegistry e))
              | Inr ms \<Rightarrow> (st, Inr (200, JList (map checkpoint_body ms)))))
      else if \<not> id_administrator i then
        (st, Inl (Api (control_api_error 403 ''AUTHORIZATION_FAILED'' ''AUTHORIZATION''
           ''Administrator authorization is required.'')))
      else (case op_request_deletion (se_ops env) (id_subject i) (ct_registry st) of
          (s1, Inl e) \<Rightarrow> (with_registry st s1, Inl (FromRegistry e))
        | (s1, Inr r) \<Rightarrow> (with_registry st s1, Inr (202, JObj (sandbox_body r)))))"

definition http_route ::
  "'s service_env \<Rightarrow> (string \<times> json) list \<Rightarrow> (string \<times> json) list \<Rightarrow> 's control_state \<Rightarrow> ('s, answer) handled" where
  "http_route env context event st =
     (case (get_key (fields_of (get_key context ''http'')) ''method'', get_key event ''rawPath'') of
        (JStr verb, JStr path) \<Rightarrow>
          (case validate_origin (se_config env) event of
             Inl e \<Rightarrow> (st, Inl (Api e))
           | Inr _ \<Rightarrow>
               if verb = ''OPTIONS'' then (st, Inr (204, JObj []))
               else (case map_of ROUTES (verb, path) of
                   None \<Rightarrow> (st, Inl (Api (lifecycle_error 404 ''Route is unavailable.'')))
                 | Some operation \<Rightarrow>
                     if operation = ''getPublicConfig''
                     then (st, Inr (200, JObj (public_config (se_config env))))
                     else (case validate_claims (se_claims env) (se_now env) (claims_from_event context) of
                         Inl e \<Rightarrow> (st, Inl e)
                       | Inr i \<Rightarrow> authenticated_route env operation event i st)))
      | _ \<Rightarrow> (st, Inl (Api (lifecycle_error 400 ''Request is invalid.''))))"

definition dispatch ::
  "'s service_env \<Rightarrow> (string \<times> json) list \<Rightarrow> 's control_state \<Rightarrow> ('s, answer) handled" where
  "dispatch env event st =
     (let context = fields_of (get_key event ''requestContext'') in
      if context = [] \<and> get_key event ''operation'' = JStr ''schedulerStart''
      then answer 200 (scheduler_start env event st)
      else if context = [] \<and> get_key event ''operation'' = JStr ''schedulerStop''
      then answer 200 (scheduler_stop env event st)
      else http_route env context event st)"

text \<open>
  The \<open>except\<close> clauses of \<open>handle\<close>: what each error answers, or the exception that ends the
  invocation.
\<close>

fun error_answer :: "control_error \<Rightarrow> (crash, api_error) result" where
  "error_answer (Api e) = Inr e"
| "error_answer (FromRegistry (SandboxUnavailable _)) =
     Inr (control_api_error 404 ''AUTHORIZATION_FAILED'' ''AUTHORIZATION'' ''Sandbox is unavailable.'')"
| "error_answer (FromRegistry (LeaseConflict m)) = Inr (control_api_error 409 ''SANDBOX_CONFLICT'' ''LIFECYCLE'' m)"
| "error_answer (FromRegistry (StateConflict m)) = Inr (control_api_error 409 ''SANDBOX_CONFLICT'' ''LIFECYCLE'' m)"
| "error_answer (FromRegistry (IdempotencyConflict m)) =
     Inr (control_api_error 409 ''SANDBOX_CONFLICT'' ''LIFECYCLE'' m)"
| "error_answer (FromRegistry (ValueErr m)) = Inl (ValueCrash m)"
| "error_answer (FromRegistry (ClientError code)) = Inl (ClientCrash code)"
| "error_answer (Crash e) = Inl e"

definition handle ::
  "'s service_env \<Rightarrow> (string \<times> json) list \<Rightarrow> 's control_state \<Rightarrow>
     's control_state \<times> (crash, http_response) result" where
  "handle env event st =
     (let cid = correlation_id (se_random env) event in
      case dispatch env event st of
        (st', Inr (status, body)) \<Rightarrow> (st', Inr (respond (se_config env) status body cid))
      | (st', Inl e) \<Rightarrow>
          (case error_answer e of
             Inl crash \<Rightarrow> (st', Inl crash)
           | Inr ae \<Rightarrow> (st', Inr (respond_error (se_config env) ae cid))))"

subsection \<open>What an answered stop has done\<close>

lemma stop_sandbox_receipt:
  assumes "stop_sandbox env i key body st = (st', Inr out)"
  obtains receipt where "get_key body ''checkpointReceipt'' = JStr receipt"
    "set (map fst body) = {''checkpointReceipt''}"
proof -
  obtain receipt where receipt: "get_key body ''checkpointReceipt'' = JStr receipt"
  proof (cases "get_key body ''checkpointReceipt''")
    case (JStr receipt)
    then show thesis by (rule that)
  qed (use assms in \<open>simp_all add: stop_sandbox_def\<close>)
  moreover have "set (map fst body) = {''checkpointReceipt''}"
  proof (rule ccontr)
    assume other: "set (map fst body) \<noteq> {''checkpointReceipt''}"
    have "\<exists>e. stop_sandbox env i key body st = (st, Inl e)"
      unfolding stop_sandbox_def receipt json.case if_P [OF other] by blast
    with assms show False by simp
  qed
  ultimately show thesis by (rule that)
qed

lemma stop_sandbox_new:
  assumes stop: "stop_sandbox env i key body st = (st', Inr out)"
    and receipt: "get_key body ''checkpointReceipt'' = JStr receipt"
    and new: "ct_idempotency st (id_subject i, ''stop'', key) = None"
  obtains r generation digest metadata s1 stopped where
    "op_get (se_ops env) (id_subject i) (ct_registry st) = Inr r"
    "verify_checkpoint_receipt (se_sha env) (se_kms env) (cc_token_audience (se_config env)) (se_now env)
        receipt i r = Inr (generation, digest)"
    "op_checkpoint_get (se_ops env) (sandbox_id r) generation (ct_registry st) = Inr metadata"
    "stoppable r generation digest metadata"
    "op_transition (se_ops env) (id_subject i) STOPPED (state_version r) (lease_owner r) (ct_registry st) = (s1, Inr stopped)"
    "st' = remember (id_subject i) ''stop'' key (se_sha env receipt) (sandbox_body stopped) (with_registry st s1)"
    "out = sandbox_body stopped"
proof -
  from stop_sandbox_receipt [OF stop] have keys: "set (map fst body) = {''checkpointReceipt''}" by blast
  note s = stop [unfolded stop_sandbox_def receipt json.case keys Let_def idempotent_def new, simplified]
  from s obtain r where r: "op_get (se_ops env) (id_subject i) (ct_registry st) = Inr r"
    by (cases "op_get (se_ops env) (id_subject i) (ct_registry st)") simp_all
  note s = s [unfolded r, simplified]
  from s obtain generation digest where v: "verify_checkpoint_receipt (se_sha env) (se_kms env)
      (cc_token_audience (se_config env)) (se_now env) receipt i r = Inr (generation, digest)"
    by (cases "verify_checkpoint_receipt (se_sha env) (se_kms env)
      (cc_token_audience (se_config env)) (se_now env) receipt i r") auto
  note s = s [unfolded v, simplified]
  from s obtain metadata where m: "op_checkpoint_get (se_ops env) (sandbox_id r) generation (ct_registry st) = Inr metadata"
    by (cases "op_checkpoint_get (se_ops env) (sandbox_id r) generation (ct_registry st)") simp_all
  note s = s [unfolded m, simplified]
  from s have ok: "stoppable r generation digest metadata"
    by (cases "stoppable r generation digest metadata") simp_all
  note s = s [simplified ok not_True_eq_False if_False]
  from s obtain u where run: "fst (stop_runtime (se_stopper env (runtime_session_id r)) (se_max_stop_attempts env) 0) = Inr u"
    by (cases "fst (stop_runtime (se_stopper env (runtime_session_id r)) (se_max_stop_attempts env) 0)") simp_all
  note s = s [unfolded run sum.case]
  obtain s1 res where tr: "op_transition (se_ops env) (id_subject i) STOPPED (state_version r) (lease_owner r)
      (ct_registry st) = (s1, res)" by fastforce
  note s = s [unfolded tr prod.case]
  from s obtain stopped where res: "res = Inr stopped" by (cases res) simp_all
  note s = s [unfolded res sum.case]
  from s have "st' = remember (id_subject i) ''stop'' key (se_sha env receipt) (sandbox_body stopped) (with_registry st s1)"
    "out = sandbox_body stopped" by auto
  with r v m ok tr res show thesis using that by blast
qed

end
