(* ===== verification/ControlRegistry.thy ===== *)
theory ControlRegistry
  imports ControlApi
begin

text \<open>
  What the control service relies on in its registry, as a locale over the operations it
  calls, and the two registries of the repository as instances: the in-memory one by an
  \<open>interpretation\<close>, the DynamoDB one for every service with the documented behaviour.
\<close>

text \<open>The lifecycle fields a response names; a wake enrolment changes none of them.\<close>

definition same_sandbox :: "sandbox_record \<Rightarrow> sandbox_record \<Rightarrow> bool" where
  "same_sandbox r r' =
     (sandbox_id r' = sandbox_id r \<and> runtime_session_id r' = runtime_session_id r \<and>
      sb_state r' = sb_state r \<and> lease_owner r' = lease_owner r)"

lemma same_sandbox_refl [simp]: "same_sandbox r r"
  by (simp add: same_sandbox_def)

locale sandbox_registry =
  fixes ops :: "'s registry_ops"
    and inv :: "'s \<Rightarrow> bool"
    and ready :: "'s \<Rightarrow> bool"
    and ttl_ok :: "timedelta \<Rightarrow> bool"
    and held :: "'s \<Rightarrow> string \<Rightarrow> sandbox_record option"
  assumes get_held: "inv s \<Longrightarrow> op_get ops subject s = Inr r \<Longrightarrow> held s subject = Some r"
    and create_held: "inv s \<Longrightarrow> ready s \<Longrightarrow> op_get_or_create ops subject s = (s', Inr r) \<Longrightarrow>
      inv s' \<and> held s' subject = Some r"
    and start_held: "inv s \<Longrightarrow> ttl_ok ttl \<Longrightarrow> held s subject = Some r \<Longrightarrow>
      op_acquire_start ops subject owner ttl s = (s', Inr lease) \<Longrightarrow>
      inv s' \<and> held s' subject = Some (sl_record lease) \<and> sandbox_id (sl_record lease) = sandbox_id r"
    and transition_held: "inv s \<Longrightarrow> op_transition ops subject STOPPED version holder s = (s', Inr r') \<Longrightarrow>
      inv s' \<and> held s' subject = Some r' \<and> sb_state r' = STOPPED \<and> lease_owner r' = None"
    and enrol_held: "inv s \<Longrightarrow> op_record_wake_subject ops sid sealed s = (s', res) \<Longrightarrow>
      held s subject = Some r \<Longrightarrow> inv s' \<and> (\<exists>r'. held s' subject = Some r' \<and> same_sandbox r r')"
begin

text \<open>A start answers with a record the registry holds for the caller, and with its session.\<close>

lemma start_names_held:
  assumes ops: "se_ops env = ops" and inv: "inv (ct_registry st)" "ready (ct_registry st)" "ttl_ok (se_lease_ttl env)"
    and new: "ct_idempotency st (id_subject i, ''start'', key) = None"
    and start: "start_sandbox env i key st = (st', Inr body)"
  shows "\<exists>r. held (ct_registry st') (id_subject i) = Some r \<and> inv (ct_registry st') \<and>
    get_key body ''sandboxId'' = JStr (sandbox_id r) \<and>
    get_key body ''runtimeSessionId'' = JStr (runtime_session_id r) \<and>
    get_key body ''state'' = JStr (state_value (sb_state r)) \<and>
    ct_idempotency st' (id_subject i, ''start'', key) = Some (''start'', body)"
proof -
  from start new ops obtain s1 existing s2 lease binding expires where
    goc: "op_get_or_create ops (id_subject i) (ct_registry st) = (s1, Inr existing)"
    and acq: "op_acquire_start ops (id_subject i) (runtime_session_id existing) (se_lease_ttl env) s1 = (s2, Inr lease)"
    and reg: "ct_registry st' = enroll_wake env i (sl_record lease) s2"
    and body: "get_key body ''sandboxId'' = JStr (sandbox_id (sl_record lease))"
      "get_key body ''runtimeSessionId'' = JStr (runtime_session_id (sl_record lease))"
      "get_key body ''state'' = JStr (state_value (sb_state (sl_record lease)))"
    and remembered: "ct_idempotency st' (id_subject i, ''start'', key) = Some (''start'', body)"
    by (auto simp: start_sandbox_def idempotent_def remember_def Let_def
        split: prod.splits sum.splits)
  from create_held [OF inv(1,2) goc] have s1: "inv s1" "held s1 (id_subject i) = Some existing" by auto
  from start_held [OF s1(1) inv(3) s1(2) acq] have s2: "inv s2" "held s2 (id_subject i) = Some (sl_record lease)" by auto
  have "inv (ct_registry st') \<and> (\<exists>r. held (ct_registry st') (id_subject i) = Some r \<and> same_sandbox (sl_record lease) r)"
  proof (cases "se_sealer env")
    case None
    with s2 reg show ?thesis by (simp add: enroll_wake_def)
  next
    case (Some seal)
    show ?thesis
    proof (cases "seal (id_subject i) (sandbox_id (sl_record lease))")
      case (Inl e)
      with s2 reg Some show ?thesis by (simp add: enroll_wake_def)
    next
      case (Inr sealed)
      from enrol_held [OF s2(1) prod.collapse [symmetric] s2(2)] reg Some Inr ops
      show ?thesis by (simp add: enroll_wake_def)
    qed
  qed
  with body remembered show ?thesis by (auto simp: same_sandbox_def)
qed

text \<open>A stop that answers has checked everything, and leaves the sandbox stopped.\<close>

lemma stop_checked:
  assumes ops: "se_ops env = ops" and inv: "inv (ct_registry st)"
    and new: "ct_idempotency st (id_subject i, ''stop'', key) = None"
    and stop: "stop_sandbox env i key body st = (st', Inr out)"
  shows "\<exists>receipt r generation digest m r'. get_key body ''checkpointReceipt'' = JStr receipt \<and>
    held (ct_registry st) (id_subject i) = Some r \<and> sb_state r = STOPPING \<and>
    verify_checkpoint_receipt (se_sha env) (se_kms env) (cc_token_audience (se_config env)) (se_now env)
      receipt i r = Inr (generation, digest) \<and>
    last_checkpoint_generation r = Some generation \<and>
    op_checkpoint_get ops (sandbox_id r) generation (ct_registry st) = Inr (Some m) \<and>
    cm_status m = COMMITTED \<and> cm_manifest_digest m = digest \<and>
    held (ct_registry st') (id_subject i) = Some r' \<and> sb_state r' = STOPPED \<and> lease_owner r' = None \<and>
    out = sandbox_body r'"
proof -
  from stop_sandbox_receipt [OF stop] obtain receipt where
    receipt: "get_key body ''checkpointReceipt'' = JStr receipt" by blast
  from stop_sandbox_new [OF stop receipt new] ops obtain r generation digest metadata s1 stopped where
    p: "op_get ops (id_subject i) (ct_registry st) = Inr r"
      "verify_checkpoint_receipt (se_sha env) (se_kms env) (cc_token_audience (se_config env)) (se_now env)
        receipt i r = Inr (generation, digest)"
      "op_checkpoint_get ops (sandbox_id r) generation (ct_registry st) = Inr metadata"
      "stoppable r generation digest metadata"
    and tr: "op_transition ops (id_subject i) STOPPED (state_version r) (lease_owner r) (ct_registry st) = (s1, Inr stopped)"
    and out: "st' = remember (id_subject i) ''stop'' key (se_sha env receipt) (sandbox_body stopped) (with_registry st s1)"
      "out = sandbox_body stopped" by metis
  from out(1) have reg: "ct_registry st' = s1" by (simp add: remember_def)
  from transition_held [OF inv tr] get_held [OF inv p(1)] p out(2) reg receipt show ?thesis
    by (auto simp: stoppable_def split: option.splits)
qed

end

subsection \<open>The in-memory registry\<close>

definition memory_held :: "(string \<Rightarrow> string) \<Rightarrow> registry \<Rightarrow> string \<Rightarrow> sandbox_record option" where
  "memory_held sha reg subject = (if subject = [] then None else by_owner reg (owner_of sha subject))"

lemma memory_held_get: "memory_held sha reg subject = Some r \<longleftrightarrow> mem_get sha subject reg = Inr r"
  by (auto simp: memory_held_def mem_get_Inr owner_of_def)

lemma get_or_create_present:
  assumes "mem_get sha subject reg = Inr r"
  shows "get_or_create sha c subject reg = (reg, Inr r)"
proof -
  have "subject \<noteq> []" using assms by (simp add: mem_get_Inr)
  with assms show ?thesis by (simp add: get_or_create_cases)
qed

interpretation memory: sandbox_registry "memory_ops sha c rotated now cat" registry_ok "fresh_sandbox c"
  "\<lambda>ttl. True" "memory_held sha" for sha c rotated now cat
proof
  fix s s' :: registry and subject owner sid sealed r r' ttl version lease res
  show "registry_ok s \<Longrightarrow> op_get (memory_ops sha c rotated now cat) subject s = Inr r \<Longrightarrow>
      memory_held sha s subject = Some r"
    by (simp add: memory_ops_def memory_held_get)
  show "registry_ok s \<Longrightarrow> fresh_sandbox c s \<Longrightarrow>
      op_get_or_create (memory_ops sha c rotated now cat) subject s = (s', Inr r) \<Longrightarrow>
      registry_ok s' \<and> memory_held sha s' subject = Some r"
    using registry_ok_get_or_create [of s c sha subject s' "Inr r"]
    by (auto simp: memory_ops_def memory_held_get get_or_create_cases mem_get_Inr split: if_splits sum.splits)
  show "registry_ok s \<Longrightarrow> memory_held sha s subject = Some r \<Longrightarrow>
      op_acquire_start (memory_ops sha c rotated now cat) subject owner ttl s = (s', Inr lease) \<Longrightarrow>
      registry_ok s' \<and> memory_held sha s' subject = Some (sl_record lease) \<and>
      sandbox_id (sl_record lease) = sandbox_id r"
  proof -
    assume ok: "registry_ok s" and h: "memory_held sha s subject = Some r"
      and op: "op_acquire_start (memory_ops sha c rotated now cat) subject owner ttl s = (s', Inr lease)"
    have get: "mem_get sha subject s = Inr r" using h by (simp add: memory_held_get)
    then have goc: "get_or_create sha c subject s = (s, Inr r)" by (rule get_or_create_present)
    have op': "acquire_start sha c rotated now subject owner ttl False s = (s', Inr lease)"
      using op by (simp add: memory_ops_def)
    then have args: "owner \<noteq> []" "0 < ttl" by (auto simp: acquire_start_def split: if_splits)
    note held = mem_get_held [OF ok get]
    have "registry_ok (store (started r rotated now ttl) s)"
      using held by (intro registry_ok_store [OF ok held(1)]) (auto simp: started_def record_ok_def)
    with ok op' get held args mem_get_owner [OF ok get] show ?thesis
      by (cases "start_answer r now owner False")
        (auto simp: acquire_start_alt goc memory_held_get mem_get_Inr owner_of_def started_def lease_of_def
          start_answer_def split: if_splits)
  qed
  show "registry_ok s \<Longrightarrow>
      op_transition (memory_ops sha c rotated now cat) subject STOPPED version holder s = (s', Inr r') \<Longrightarrow>
      registry_ok s' \<and> memory_held sha s' subject = Some r' \<and> sb_state r' = STOPPED \<and> lease_owner r' = None"
    for holder :: "string option"
    using registry_ok_transition [of s sha now subject STOPPED version holder s' "Inr r'"] mem_get_owner [of s sha subject]
    by (auto simp: memory_ops_def memory_held_get transition_def Let_def mem_get_Inr owner_of_def
        split: sum.splits if_splits)
  show "registry_ok s \<Longrightarrow> op_record_wake_subject (memory_ops sha c rotated now cat) sid sealed s = (s', res) \<Longrightarrow>
      memory_held sha s subject = Some r \<Longrightarrow>
      registry_ok s' \<and> (\<exists>r'. memory_held sha s' subject = Some r' \<and> same_sandbox r r')"
    by (auto simp: memory_ops_def memory_held_def record_wake_subject_def registry_ok_def split: if_splits)
qed

subsection \<open>The DynamoDB registry\<close>

definition dynamo_held :: "(string \<Rightarrow> string) \<Rightarrow> 's dynamo \<Rightarrow> 's \<Rightarrow> string \<Rightarrow> sandbox_record option" where
  "dynamo_held sha db s subject =
     (if subject = [] then None else sandbox_at (table_of db s) (owner_of sha subject))"

text \<open>Mappings name the items they lead to, and creation times are representable.\<close>

definition table_ok :: "table \<Rightarrow> bool" where
  "table_ok t = (\<forall>oh. coherent t oh \<and> (\<forall>r. sandbox_at t oh = Some r \<longrightarrow> valid_time (created_at r)))"

lemma sandbox_at_put_record:
  assumes "storable u" "map_option whole_seconds (init_expires_at u) = init_expires_at u"
    and "sandbox_at (t(record_key (sandbox_id u) \<mapsto> record_item u)) oh = Some r"
  shows "r = u \<or> sandbox_at t oh = Some r"
  using assms read_record_item [OF assms(1)]
  by (auto simp: sandbox_at_def bind_eq_Some_conv split: if_splits)

lemma coherent_put_record:
  "hints_ok (wake_hints u) \<Longrightarrow> coherent t oh \<Longrightarrow> coherent (t(record_key (sandbox_id u) \<mapsto> record_item u)) oh"
  by (auto simp: coherent_def attr_s_Some record_item_fields split: if_splits)

lemma table_ok_put_record:
  assumes "table_ok t" "storable u" "map_option whole_seconds (init_expires_at u) = init_expires_at u"
  shows "table_ok (t(record_key (sandbox_id u) \<mapsto> record_item u))"
  unfolding table_ok_def
proof (intro allI conjI impI)
  fix oh r
  from assms(1,2) show "coherent (t(record_key (sandbox_id u) \<mapsto> record_item u)) oh"
    by (simp add: table_ok_def storable_def coherent_put_record)
  assume "sandbox_at (t(record_key (sandbox_id u) \<mapsto> record_item u)) oh = Some r"
  from sandbox_at_put_record [OF assms(2,3) this] assms(1,2) show "valid_time (created_at r)"
    by (auto simp: table_ok_def storable_def)
qed

lemma put_updated_Inr:
  assumes db: "dynamo_documented db" and put: "put_updated db r u s = (s', Inr ())"
    and hints: "hints_ok (wake_hints u)"
  shows "table_of db s' = (table_of db s)(record_key (sandbox_id u) \<mapsto> record_item u)"
proof -
  let ?w = "Put (record_item u) (Equals ''stateVersion'' (AttrN (state_version r)))"
  from put have w: "write_item db ?w s = (s', Written)"
    by (auto simp: put_updated_def split: prod.splits outcome.splits)
  from dynamo_write [OF db w] show ?thesis by (simp add: written_def record_item_key [OF hints])
qed

text \<open>A record read from the table stays storable when valid times are put into it.\<close>

lemma stored_update:
  assumes "table_ok t" "sandbox_at t oh = Some r"
    and "wake_hints u = wake_hints r" "init_expires_at u = init_expires_at r" "created_at u = created_at r"
    and "valid_time (updated_at u)" "\<And>x. lease_expires_at u = Some x \<Longrightarrow> valid_time x"
  shows "storable u" "map_option whole_seconds (init_expires_at u) = init_expires_at u"
proof -
  from assms(1,2) obtain it where it: "read_record it = Some r"
    by (auto simp: sandbox_at_def bind_eq_Some_conv split: if_splits)
  note f = read_record_fields(2,3) [OF it]
  show "storable u"
    unfolding storable_def
  proof (intro conjI)
    show "valid_time (created_at u)" using assms(1,2,5) by (simp add: table_ok_def)
    show "valid_time (updated_at u)" by (rule assms(6))
    show "case lease_expires_at u of None \<Rightarrow> True | Some x \<Rightarrow> valid_time x"
      using assms(7) by (simp split: option.splits)
    show "hints_ok (wake_hints u)" using assms(3) f(1) by simp
  qed
  show "map_option whole_seconds (init_expires_at u) = init_expires_at u"
    using assms(4) f(2) by (simp add: whole_seconds_def option.map_comp comp_def)
qed

lemma read_stored:
  "storable u \<Longrightarrow> map_option whole_seconds (init_expires_at u) = init_expires_at u \<Longrightarrow>
     read_record (record_item u) = Some u"
  by (simp add: read_record_item)

lemma sandbox_at_put_same:
  assumes "table_ok t" "sandbox_at t oh = Some r" "sandbox_id u = sandbox_id r" "storable u"
    "map_option whole_seconds (init_expires_at u) = init_expires_at u"
  shows "sandbox_at (t(record_key (sandbox_id u) \<mapsto> record_item u)) oh = Some u"
proof -
  from assms(1) have "coherent t oh" by (simp add: table_ok_def)
  from sandbox_at_parts [OF assms(2) this] obtain m where "t (owner_key oh) = Some m"
    "attr_s m ''sandboxId'' = Some (sandbox_id r)" "sandbox_id r \<noteq> []" by blast
  then show ?thesis using assms(3) read_stored [OF assms(4,5)] by (simp add: sandbox_at_def)
qed

lemma dynamo_create_held:
  assumes db: "dynamo_documented db" and ok: "table_ok (table_of db s)"
    and drawn: "drawn_sandbox c \<noteq> []" "valid_time (drawn_now c)"
    and op: "dynamo_get_or_create sha db version c subject s = (s', Inr r)"
  shows "table_ok (table_of db s')" "dynamo_held sha db s' subject = Some r"
proof -
  have read: "table_ok (table_of db s') \<and> dynamo_held sha db s' subject = Some r"
    if "table_of db s' = table_of db s" "dynamo_get sha db subject s' = Inr r"
    using that ok dynamo_get_Inr [OF db that(2)] by (simp add: dynamo_held_def)
  let ?oh = "owner_of sha subject"
  let ?r = "new_record ?oh version c"
  let ?ws = "[Put (mapping_item ?r) (AttributeNotExists ''pk''), Put (record_item ?r) (AttributeNotExists ''pk'')]"
  have new: "storable ?r" "map_option whole_seconds (init_expires_at ?r) = init_expires_at ?r"
    using drawn by (simp_all add: new_record_def storable_def hints_ok_def hints_of_def hint_attributes_def)
  have "table_ok (table_of db s') \<and> dynamo_held sha db s' subject = Some r"
  proof (cases "dynamo_get sha db subject s")
    case (Inr r')
    with op have "s' = s" "r' = r" by (auto simp: dynamo_get_or_create_def)
    with read Inr show ?thesis by simp
  next
    case (Inl e)
    with op have create: "dynamo_create sha db version c subject s = (s', Inr r)"
      by (auto simp: dynamo_get_or_create_def split: registry_error.splits)
    then have ne: "subject \<noteq> []" by (auto simp: dynamo_create_def dynamo_owner_hash_def)
    then have oh: "dynamo_owner_hash sha subject = Inr ?oh" by (simp add: dynamo_owner_hash_Inr)
    obtain out where w: "transact_items db ?ws s = (s', out)"
      using create oh by (auto simp: dynamo_create_def Let_def split: prod.splits outcome.splits)
    from create oh w have out: "out = Written \<and> r = ?r \<or> out = Cancelled \<and> dynamo_get sha db subject s' = Inr r"
      by (cases out) (auto simp: dynamo_create_def Let_def)
    show ?thesis
    proof (cases "out = Cancelled")
      case True
      with dynamo_transact [OF db w] out read show ?thesis by simp
    next
      case False
      with out have wr: "out = Written" "r = ?r" by auto
      let ?t = "(table_of db s)(owner_key ?oh \<mapsto> mapping_item ?r)"
      have hints: "hints_ok (wake_hints ?r)" using new(1) by (simp add: storable_def)
      have t': "table_of db s' = ?t(record_key (sandbox_id ?r) \<mapsto> record_item ?r)"
        using dynamo_transact [OF db w] wr record_item_key [OF hints]
        by (simp add: written_def mapping_item_key)
      have map_sid: "attr_s (mapping_item ?r) ''sandboxId'' = Some (drawn_sandbox c)"
        by (simp add: mapping_item_def attr_s_def)
      have at: "sandbox_at (table_of db s') ?oh = Some ?r"
        using drawn map_sid read_record_item [OF new(1)] new(2) by (simp add: t' sandbox_at_def)
      have created: "created_at ?r = drawn_now c" by (simp add: new_record_def)
      have "coherent (table_of db s') oh \<and> (\<forall>x. sandbox_at (table_of db s') oh = Some x \<longrightarrow> valid_time (created_at x))" for oh
      proof (cases "oh = ?oh")
        case True
        then show ?thesis
          using at map_sid record_item_fields(1) [OF hints] drawn(2) created
          by (simp add: t' coherent_def attr_s_Some)
      next
        case False
        then have same: "sandbox_at ?t oh = sandbox_at (table_of db s) oh"
          "coherent ?t oh \<longleftrightarrow> coherent (table_of db s) oh"
          by (simp_all add: sandbox_at_def coherent_def cong: if_cong)
        with ok have "coherent ?t oh" "\<forall>x. sandbox_at ?t oh = Some x \<longrightarrow> valid_time (created_at x)"
          by (simp_all add: table_ok_def)
        then show ?thesis
          using sandbox_at_put_record [OF new, of ?t oh] coherent_put_record [OF hints, of ?t oh] drawn(2) created
          unfolding t' by auto
      qed
      then show ?thesis using at wr ne by (simp add: table_ok_def dynamo_held_def)
    qed
  qed
  then show "table_ok (table_of db s')" "dynamo_held sha db s' subject = Some r" by simp_all
qed

lemma dynamo_start_held:
  assumes db: "dynamo_documented db" and ok: "table_ok (table_of db s)"
    and times: "valid_time now" "valid_time (now + ttl)"
    and held: "dynamo_held sha db s subject = Some r"
    and op: "dynamo_acquire_start sha db version c rotated now subject owner ttl False s = (s', Inr lease)"
  shows "table_ok (table_of db s')" "dynamo_held sha db s' subject = Some (sl_record lease)"
    "sandbox_id (sl_record lease) = sandbox_id r"
proof -
  have ne: "subject \<noteq> []" and at: "sandbox_at (table_of db s) (owner_of sha subject) = Some r"
    using held by (auto simp: dynamo_held_def split: if_splits)
  from dynamo_get_present [OF db ne at] op have "dynamo_get sha db subject s = Inr r"
    by (auto simp: dynamo_acquire_start_def dynamo_get_or_create_def)
  then have goc: "dynamo_get_or_create sha db version c subject s = (s, Inr r)"
    by (simp add: dynamo_get_or_create_def)
  have "table_ok (table_of db s') \<and> dynamo_held sha db s' subject = Some (sl_record lease) \<and>
      sandbox_id (sl_record lease) = sandbox_id r"
  proof (cases "start_answer r now owner False")
    case (Some a)
    then have "s' = s" "a = Inr lease" using op by (simp_all add: dynamo_acquire_start_alt goc)
    moreover from this Some have "sl_record lease = r"
      by (auto simp: start_answer_def lease_of_def split: if_splits)
    ultimately show ?thesis using ok held by simp
  next
    case None
    let ?u = "started r rotated now ttl"
    from op None have put: "put_updated db r ?u s = (s', Inr ())" and lease: "sl_record lease = ?u"
      by (auto simp: dynamo_acquire_start_alt goc split: prod.splits sum.splits)
    have u: "wake_hints ?u = wake_hints r" "init_expires_at ?u = init_expires_at r"
      "created_at ?u = created_at r" "updated_at ?u = now" "lease_expires_at ?u = Some (now + ttl)"
      "sandbox_id ?u = sandbox_id r" by (simp_all add: started_def)
    have st: "storable ?u" "map_option whole_seconds (init_expires_at ?u) = init_expires_at ?u"
      using stored_update [OF ok at, of ?u] u times by auto
    then have hints: "hints_ok (wake_hints ?u)" by (simp add: storable_def)
    note t' = put_updated_Inr [OF db put hints]
    show ?thesis
      using table_ok_put_record [OF ok st] sandbox_at_put_same [OF ok at u(6) st] t' lease ne u(6)
      by (simp add: dynamo_held_def)
  qed
  then show "table_ok (table_of db s')" "dynamo_held sha db s' subject = Some (sl_record lease)"
    "sandbox_id (sl_record lease) = sandbox_id r" by simp_all
qed

lemma dynamo_transition_held:
  assumes db: "dynamo_documented db" and ok: "table_ok (table_of db s)" and now: "valid_time now"
    and op: "dynamo_transition sha db now subject STOPPED version holder s = (s', Inr r')"
  shows "table_ok (table_of db s')" "dynamo_held sha db s' subject = Some r'" "sb_state r' = STOPPED"
    "lease_owner r' = None"
proof -
  from op obtain r where get: "dynamo_get sha db subject s = Inr r"
    and r': "r' = r\<lparr>sb_state := STOPPED, state_version := state_version r + 1, lease_owner := None,
      lease_expires_at := None, active_request_id := None, updated_at := now\<rparr>"
    and put: "put_updated db r r' s = (s', Inr ())"
    by (auto simp: dynamo_transition_def Let_def split: sum.splits if_splits prod.splits)
  note at = dynamo_get_Inr [OF db get]
  have u: "sandbox_id r' = sandbox_id r" by (simp add: r')
  have st: "storable r'" "map_option whole_seconds (init_expires_at r') = init_expires_at r'"
    using stored_update [OF ok at(2), of r'] now by (simp_all add: r')
  then have hints: "hints_ok (wake_hints r')" by (simp add: storable_def)
  note t' = put_updated_Inr [OF db put hints]
  show "table_ok (table_of db s')" "dynamo_held sha db s' subject = Some r'" "sb_state r' = STOPPED"
    "lease_owner r' = None"
    using table_ok_put_record [OF ok st] sandbox_at_put_same [OF ok at(2) u st] at(1)
    by (simp_all add: t' dynamo_held_def, simp_all add: r')
qed

lemma read_record_hint:
  assumes "k \<in> set hint_names"
  shows "read_record (it(k \<mapsto> a)) = map_option (\<lambda>r. r\<lparr>wake_hints := hints_of (it(k \<mapsto> a))\<rparr>) (read_record it)"
proof -
  have "k \<notin> {''ownerHash'', ''pk'', ''runtimeSessionId'', ''state'', ''stateVersion'', ''leaseExpiresAt'',
      ''kiroAuthMode'', ''kiroCrewVersion'', ''createdAt'', ''updatedAt'', ''leaseOwner'', ''activeRequestId'',
      ''lastCheckpointGeneration'', ''lastRestore'', ''deletionState'', ''initExpiresAt''}"
    using assms by (auto simp: hint_names_def hint_attributes_def)
  then show ?thesis
    unfolding read_record_def optional_time_def by (simp split: Option.bind_splits option.splits)
qed

lemma dynamo_enrol_held:
  assumes db: "dynamo_documented db" and ok: "table_ok (table_of db s)"
    and held: "dynamo_held sha db s subject = Some r"
    and op: "dynamo_record_wake_subject db sid sealed s = (s', res)"
  shows "table_ok (table_of db s') \<and> (\<exists>r'. dynamo_held sha db s' subject = Some r' \<and> same_sandbox r r')"
proof (cases "table_of db s' = table_of db s")
  case True
  with ok held show ?thesis by (auto simp: dynamo_held_def)
next
  case False
  let ?w = "Update (record_key sid) \<lparr>up_set = [(''wakeSubject'', AttrS sealed)], up_add = [], up_remove = []\<rparr>
     (AttributeExists ''pk'')"
  from op False obtain out where w: "write_item db ?w s = (s', out)"
    by (auto simp: dynamo_record_wake_subject_def split: if_splits prod.splits outcome.splits)
  from write_answer_cases [OF dynamo_write [OF db w]] False
  have wr: "written (table_of db s) [?w] (table_of db s')" by simp
  then have "table_of db s (record_key sid) \<noteq> None"
    by (cases "table_of db s (record_key sid)") (simp_all add: written_def allowed_def)
  then obtain it where it: "table_of db s (record_key sid) = Some it" by blast
  let ?it = "it(''wakeSubject'' \<mapsto> AttrS sealed)"
  have t': "table_of db s' = (table_of db s)(record_key sid \<mapsto> ?it)"
    using wr it by (simp add: written_def apply_update_simps)
  have rr: "read_record ?it = map_option (\<lambda>r. r\<lparr>wake_hints := hints_of ?it\<rparr>) (read_record it)"
    by (rule read_record_hint) (simp add: hint_names_def hint_attributes_def)
  have at: "sandbox_at (table_of db s') oh = sandbox_at (table_of db s) oh \<or>
      sandbox_at (table_of db s') oh = map_option (\<lambda>r. r\<lparr>wake_hints := hints_of ?it\<rparr>) (sandbox_at (table_of db s) oh)" for oh
    using it rr by (auto simp: t' sandbox_at_def split: Option.bind_splits)
  have "table_ok (table_of db s')"
    unfolding table_ok_def
  proof (intro allI conjI impI)
    fix oh x
    show "coherent (table_of db s') oh"
      using ok it by (auto simp: t' table_ok_def coherent_def split: if_splits)
    assume "sandbox_at (table_of db s') oh = Some x"
    with at [of oh] ok show "valid_time (created_at x)"
      by (cases "sandbox_at (table_of db s) oh") (auto simp: table_ok_def)
  qed
  with at [of "owner_of sha subject"] held show ?thesis
    by (auto simp: dynamo_held_def same_sandbox_def split: if_splits)
qed

text \<open>The deployed registry is an instance for every service that behaves as documented.\<close>

lemma dynamo_registry:
  assumes db: "dynamo_documented db"
    and drawn: "drawn_sandbox c \<noteq> []" "valid_time (drawn_now c)" "valid_time now"
  shows "sandbox_registry (dynamo_ops sha db version c rotated now) (\<lambda>s. table_ok (table_of db s)) (\<lambda>s. True)
    (\<lambda>ttl. valid_time (now + ttl)) (dynamo_held sha db)"
proof
  fix s s' subject r owner ttl lease res r' sid sealed version'
  show "op_get (dynamo_ops sha db version c rotated now) subject s = Inr r \<Longrightarrow> dynamo_held sha db s subject = Some r"
    using dynamo_get_Inr [OF db, of sha subject s r] by (simp add: dynamo_ops_def dynamo_held_def)
  show "table_ok (table_of db s) \<Longrightarrow>
      op_get_or_create (dynamo_ops sha db version c rotated now) subject s = (s', Inr r) \<Longrightarrow>
      table_ok (table_of db s') \<and> dynamo_held sha db s' subject = Some r"
    by (simp add: dynamo_ops_def, intro conjI) (erule (1) dynamo_create_held [OF db _ drawn(1,2)])+
  show "table_ok (table_of db s) \<Longrightarrow> valid_time (now + ttl) \<Longrightarrow> dynamo_held sha db s subject = Some r \<Longrightarrow>
      op_acquire_start (dynamo_ops sha db version c rotated now) subject owner ttl s = (s', Inr lease) \<Longrightarrow>
      table_ok (table_of db s') \<and> dynamo_held sha db s' subject = Some (sl_record lease) \<and>
      sandbox_id (sl_record lease) = sandbox_id r"
    by (simp add: dynamo_ops_def, intro conjI) (erule (3) dynamo_start_held [OF db _ drawn(3)])+
  show "table_ok (table_of db s) \<Longrightarrow>
      op_transition (dynamo_ops sha db version c rotated now) subject STOPPED version' holder s = (s', Inr r') \<Longrightarrow>
      table_ok (table_of db s') \<and> dynamo_held sha db s' subject = Some r' \<and> sb_state r' = STOPPED \<and>
      lease_owner r' = None" for holder
    by (simp add: dynamo_ops_def, intro conjI) (erule (1) dynamo_transition_held [OF db _ drawn(3)])+
  show "table_ok (table_of db s) \<Longrightarrow>
      op_record_wake_subject (dynamo_ops sha db version c rotated now) sid sealed s = (s', res) \<Longrightarrow>
      dynamo_held sha db s subject = Some r \<Longrightarrow>
      table_ok (table_of db s') \<and> (\<exists>r'. dynamo_held sha db s' subject = Some r' \<and> same_sandbox r r')"
    by (simp add: dynamo_ops_def) (erule (2) dynamo_enrol_held [OF db, rotated -1])
qed

end
