(* ===== verification/ControlProperties.thy ===== *)
theory ControlProperties
  imports ControlRegistry
begin

text \<open>
  The properties of the control service: who can reach which operation, what a start and a
  stop guarantee over either registry, replays, receipts, and the retry loop of a stop.
\<close>

subsection \<open>A sample service\<close>

definition sample_config :: control_config where
  "sample_config =
     \<lparr>cc_issuer = ''issuer'', cc_app_client_id = ''client'', cc_allowed_origin = ''https://app'',
      cc_region = ''eu-west-1'', cc_runtime_arn = ''arn:rt'', cc_qualifier = ''DEFAULT'',
      cc_http_url = ''https://rt'', cc_websocket_url = ''wss://rt'', cc_deployment_mode = ''microvm'',
      cc_frontend_compatibility_version = ''1'', cc_token_audience = ''aud'', cc_persisted_paths = []\<rparr>"

definition sample_claims :: claims_validator where
  "sample_claims = \<lparr>cv_issuer = ''issuer'', cv_app_client_id = ''client'',
     cv_required_scope = ''kirocrew.control'', cv_administrator_group = ''sandbox-admins''\<rparr>"

definition sample_env :: "'s registry_ops \<Rightarrow> time \<Rightarrow> 's service_env" where
  "sample_env ops now =
     \<lparr>se_sha = id, se_config = sample_config, se_ops = ops, se_claims = sample_claims,
      se_kms = sample_kms, se_now = now, se_nonce = ''nonce'', se_random = 0,
      se_stopper = (\<lambda>session attempt. StopOk), se_sealer = None, se_max_stop_attempts = 4,
      se_lease_ttl = seconds 90\<rparr>"

lemma sample_env_simps [simp]:
  "se_sha (sample_env ops now) = id" "se_config (sample_env ops now) = sample_config"
  "se_ops (sample_env ops now) = ops" "se_claims (sample_env ops now) = sample_claims"
  "se_kms (sample_env ops now) = sample_kms" "se_now (sample_env ops now) = now"
  "se_nonce (sample_env ops now) = ''nonce''" "se_sealer (sample_env ops now) = None"
  "se_max_stop_attempts (sample_env ops now) = 4" "se_lease_ttl (sample_env ops now) = seconds 90"
  "se_stopper (sample_env ops now) session attempt = StopOk"
  by (simp_all add: sample_env_def)

definition fresh_service :: "'s \<Rightarrow> 's control_state" where
  "fresh_service s = \<lparr>ct_registry = s, ct_idempotency = Map.empty\<rparr>"

lemma fresh_service_simps [simp]:
  "ct_registry (fresh_service s) = s" "ct_idempotency (fresh_service s) k = None"
  by (simp_all add: fresh_service_def)

subsection \<open>Who reaches what\<close>

lemma headers_of_Cons [simp]: "k \<noteq> ''headers'' \<Longrightarrow> headers_of ((k, v) # event) = headers_of event"
  by (simp add: headers_of_def)

lemma http_route_frame:
  assumes "k \<notin> {''headers'', ''rawPath'', ''body''}"
  shows "http_route env context ((k, v) # event) st = http_route env context event st"
proof -
  have raw: "get_key ((k, v) # event) ''rawPath'' = get_key event ''rawPath''"
    and origin: "validate_origin cc ((k, v) # event) = validate_origin cc event"
    and key: "idempotency_key ((k, v) # event) = idempotency_key event"
    and body: "body_of_event ((k, v) # event) = body_of_event event" for cc
    using assms by (auto simp: validate_origin_def idempotency_key_def body_of_event_def)
  have route: "authenticated_route env operation ((k, v) # event) i st = authenticated_route env operation event i st"
    for operation i by (simp only: authenticated_route_def key body)
  show ?thesis by (simp only: http_route_def raw origin route)
qed

text \<open>
  The scheduled operations cannot be reached over HTTP: to an event that carries a request
  context, naming an operation, a subject, a sandbox and a receipt makes no difference.
\<close>

theorem browser_cannot_reach_scheduler:
  assumes "fields_of (get_key event ''requestContext'') \<noteq> []"
  shows "handle env ((''operation'', op) # (''cognitoSubject'', subject) # (''sandboxId'', sid) #
      (''idempotencyKey'', key) # (''checkpointReceipt'', receipt) # event) st = handle env event st"
  using assms
  by (simp add: handle_def dispatch_def correlation_id_def http_route_frame)

lemma browser_cannot_reach_scheduler_witness:
  "handle (sample_env (memory_ops id sample_creation ''s2'' 7 empty_catalog) 7)
     [(''operation'', JStr ''schedulerStart''), (''cognitoSubject'', JStr ''user''), (''sandboxId'', JStr ''sbx_A''),
      (''idempotencyKey'', JStr ''k''), (''checkpointReceipt'', JNull),
      (''requestContext'', JObj [(''http'', JNull)])] (fresh_service sample_registry) =
   handle (sample_env (memory_ops id sample_creation ''s2'' 7 empty_catalog) 7)
     [(''requestContext'', JObj [(''http'', JNull)])] (fresh_service sample_registry)"
  by (rule browser_cannot_reach_scheduler) simp

text \<open>
  Without valid claims nothing happens: an HTTP event whose claims do not validate leaves the
  registry and the remembered answers alone, and is answered with an error, except for the
  public configuration and a preflight.
\<close>

theorem unauthenticated_request_refused:
  assumes "fields_of (get_key event ''requestContext'') \<noteq> []"
    and "validate_claims (se_claims env) (se_now env)
      (claims_from_event (fields_of (get_key event ''requestContext''))) = Inl e"
  shows "fst (handle env event st) = st \<and>
    (\<forall>response. snd (handle env event st) = Inr response \<and> hr_status response \<notin> {400, 401, 403, 404, 409} \<longrightarrow>
       hr_status response = 204 \<or> hr_body response = json_dumps (JObj (public_config (se_config env))))"
proof -
  let ?ctx = "fields_of (get_key event ''requestContext'')"
  have dispatch: "dispatch env event st = http_route env ?ctx event st"
    using assms(1) by (simp add: dispatch_def)
  have e: "(\<exists>ae. e = Api ae \<and> ae_status ae \<in> {401, 403}) \<or> (\<exists>c. e = Crash c)"
    using assms(2)
    by (auto simp: validate_claims_def authentication_failed_def control_api_error_def
        split: option.splits sum.splits if_splits)
  have route: "fst (http_route env ?ctx event st) = st \<and>
      (case snd (http_route env ?ctx event st) of
         Inl err \<Rightarrow> (\<exists>ae. err = Api ae \<and> ae_status ae \<in> {400, 401, 403, 404}) \<or> (\<exists>c. err = Crash c)
       | Inr (status, body) \<Rightarrow> status = 204 \<or> body = JObj (public_config (se_config env)) \<and> status = 200)"
    using assms(2) e
    by (auto simp: http_route_def validate_origin_def lifecycle_error_def control_api_error_def
        split: json.splits option.splits sum.splits)
  obtain st1 res where r: "http_route env ?ctx event st = (st1, res)" by fastforce
  show ?thesis
    using route unfolding handle_def dispatch r
    by (cases res) (auto simp: Let_def respond_def respond_error_def)
qed

lemma unauthenticated_request_refused_witness:
  "fst (handle (sample_env (memory_ops id sample_creation ''s2'' 7 empty_catalog) 7)
     [(''requestContext'', JObj [(''http'', JObj [(''method'', JStr ''DELETE'')])]),
      (''rawPath'', JStr ''/control/v1/sandbox'')] (fresh_service sample_registry)) =
   fresh_service sample_registry"
proof -
  let ?event = "[(''requestContext'', JObj [(''http'', JObj [(''method'', JStr ''DELETE'')])]),
      (''rawPath'', JStr ''/control/v1/sandbox'')]"
  have "validate_claims (se_claims (sample_env (memory_ops id sample_creation ''s2'' 7 empty_catalog) 7)) 7
      (claims_from_event (fields_of (get_key ?event ''requestContext''))) =
      Inl (Api (authentication_failed ''Authentication is required.''))"
    by (simp add: claims_from_event_def validate_claims_def)
  from unauthenticated_request_refused [of ?event "sample_env (memory_ops id sample_creation ''s2'' 7 empty_catalog) 7"]
    this show ?thesis by simp
qed

text \<open>
  (C34) A wake never creates and never starts the wrong sandbox: unless the named subject already has
  exactly the named sandbox, the invocation answers 404 or 409 and changes nothing.
\<close>

theorem wake_never_creates:
  assumes "fields_of (get_key event ''requestContext'') = []"
    and "get_key event ''operation'' = JStr ''schedulerStart''"
    and "required_text event ''cognitoSubject'' = Some subject"
    and "required_text event ''sandboxId'' = Some sid"
    and "required_text event ''idempotencyKey'' = Some key"
    and "ct_idempotency st (subject, ''schedulerStart'', key) = None"
    and "op_get (se_ops env) subject (ct_registry st) = Inl (SandboxUnavailable m) \<or>
      (\<exists>r. op_get (se_ops env) subject (ct_registry st) = Inr r \<and> sandbox_id r \<noteq> sid)"
  shows "fst (handle env event st) = st \<and>
    (\<exists>response. snd (handle env event st) = Inr response \<and> hr_status response \<in> {404, 409})"
  using assms
  by (auto simp: handle_def dispatch_def scheduler_start_def idempotent_def named_sandbox_def answer_def Let_def
      respond_error_def respond_def control_api_error_def)

lemma wake_never_creates_witness:
  "fst (handle (sample_env (memory_ops id sample_creation ''s2'' 7 empty_catalog) 7)
     [(''operation'', JStr ''schedulerStart''), (''cognitoSubject'', JStr ''nobody''),
      (''sandboxId'', JStr ''sbx_A''), (''idempotencyKey'', JStr ''k'')] (fresh_service sample_registry)) =
   fresh_service sample_registry"
proof -
  have "mem_get id ''nobody'' sample_registry = Inl (SandboxUnavailable ''Sandbox is unavailable.'')"
    by (simp add: mem_get_def derive_def sample_registry_def sample_start_def sample_creation_def
        acquire_start_def get_or_create_def empty_registry_def Let_def new_record_def
        init_lease_active_def start_in_progress_def)
  with wake_never_creates [of "[(''operation'', JStr ''schedulerStart''), (''cognitoSubject'', JStr ''nobody''),
      (''sandboxId'', JStr ''sbx_A''), (''idempotencyKey'', JStr ''k'')]" "''nobody''" "''sbx_A''" "''k''"
      "fresh_service sample_registry" "sample_env (memory_ops id sample_creation ''s2'' 7 empty_catalog) 7"
      "''Sandbox is unavailable.''"]
  show ?thesis by (simp add: required_text_def memory_ops_def)
qed

subsection \<open>Receipts\<close>

lemma issue_sample: "\<exists>token. issue_token sample_kms claims = Inr token"
  by (simp add: issue_token_def signer_sign_def sample_kms_def Let_def)

lemma receipt_verifies:
  assumes "kms_documented k"
    and "issue_checkpoint_receipt sha k audience issued nonce i r generation digest = Inr token"
  shows "verify_checkpoint_receipt sha k audience now token i' r' =
    (if sandbox_id r' = sandbox_id r \<and> runtime_session_id r' = runtime_session_id r \<and>
        subject_hash sha i' = subject_hash sha i
     then if epoch now < epoch (issued + RECEIPT_TTL) then Inr (generation, digest)
          else Inl (receipt_error ''Checkpoint receipt is stale.'')
     else Inl (receipt_error ''Checkpoint receipt does not match the sandbox.''))"
proof -
  let ?claims = "[(''aud'', JStr audience), (''exp'', JInt (epoch (issued + RECEIPT_TTL))),
    (''generation'', JInt generation), (''iat'', JInt (epoch issued)), (''manifestDigest'', JStr digest),
    (''nonce'', JStr nonce), (''runtimeSessionId'', JStr (runtime_session_id r)),
    (''sandboxId'', JStr (sandbox_id r)), (''subjectHash'', JStr (subject_hash sha i)),
    (''type'', JStr ''checkpoint-receipt'')]"
  have ok: "0 < generation" "length digest = 64" and token: "issue_token k ?claims = Inr token"
    using assms(2) by (auto simp: issue_checkpoint_receipt_def split: if_splits)
  have "plain_json (JObj ?claims)" by simp
  from verify_issued [OF assms(1) token this] obtain claims' where
    v: "verify_token k token = Inr claims'" "\<And>key. get_key claims' key = sort_json (get_key ?claims key)" by blast
  show ?thesis using ok by (auto simp: verify_checkpoint_receipt_def v)
qed

text \<open>
  A checkpoint receipt is honoured exactly for the sandbox, session and subject it was issued
  for, and only before it expires; then it yields the generation and the digest it was
  issued with.
\<close>

theorem receipt_honoured_iff:
  assumes "kms_documented k"
    and "issue_checkpoint_receipt sha k audience issued nonce i r generation digest = Inr token"
  shows "verify_checkpoint_receipt sha k audience now token i' r' =
    (if sandbox_id r' = sandbox_id r \<and> runtime_session_id r' = runtime_session_id r \<and>
        subject_hash sha i' = subject_hash sha i
     then if epoch now < epoch (issued + RECEIPT_TTL) then Inr (generation, digest)
          else Inl (receipt_error ''Checkpoint receipt is stale.'')
     else Inl (receipt_error ''Checkpoint receipt does not match the sandbox.''))"
  by (rule receipt_verifies [OF assms])

lemma receipt_honoured_witness:
  "\<exists>token. verify_checkpoint_receipt id sample_kms ''aud'' (seconds 5) token
      \<lparr>id_subject = ''user'', id_issuer = ''issuer'', id_administrator = False\<rparr> sample_record =
    Inr (3, replicate 64 (CHR ''a''))"
proof -
  let ?i = "\<lparr>id_subject = ''user'', id_issuer = ''issuer'', id_administrator = False\<rparr>"
  obtain token where "issue_checkpoint_receipt id sample_kms ''aud'' 0 ''n'' ?i sample_record 3
      (replicate 64 (CHR ''a'')) = Inr token"
    using issue_sample by (fastforce simp: issue_checkpoint_receipt_def)
  from receipt_honoured_iff [OF sample_kms_documented this, of "seconds 5" ?i sample_record]
  show ?thesis by (auto simp: RECEIPT_TTL_def minutes_def epoch_def seconds_def)
qed

subsection \<open>Replays\<close>

lemma start_remembers:
  assumes "start_sandbox env i key st = (st', Inr body)"
  shows "ct_idempotency st' (id_subject i, ''start'', key) = Some (''start'', body)"
  using assms
  by (auto simp: start_sandbox_def idempotent_def remember_def Let_def split: option.splits prod.splits sum.splits if_splits)

lemma stop_remembers:
  assumes "stop_sandbox env i key body st = (st', Inr out)"
  shows "\<exists>receipt. get_key body ''checkpointReceipt'' = JStr receipt \<and> set (map fst body) = {''checkpointReceipt''} \<and>
    ct_idempotency st' (id_subject i, ''stop'', key) = Some (se_sha env receipt, out)"
proof -
  from stop_sandbox_receipt [OF assms] obtain receipt where
    receipt: "get_key body ''checkpointReceipt'' = JStr receipt" and keys: "set (map fst body) = {''checkpointReceipt''}" .
  have "ct_idempotency st' (id_subject i, ''stop'', key) = Some (se_sha env receipt, out)"
  proof (cases "ct_idempotency st (id_subject i, ''stop'', key)")
    case None
    from stop_sandbox_new [OF assms receipt None] obtain stopped s1 where
      "st' = remember (id_subject i) ''stop'' key (se_sha env receipt) (sandbox_body stopped) (with_registry st s1)"
      "out = sandbox_body stopped" by metis
    then show ?thesis by (simp add: remember_def)
  next
    case (Some old)
    obtain h replay where old: "old = (h, replay)" by (cases old)
    have "stop_sandbox env i key body st =
        (st, if h = se_sha env receipt then Inr replay else Inl (Api (control_api_error 409
           ''IDEMPOTENCY_CONFLICT'' ''LIFECYCLE'' ''Idempotency key was reused with another request.'')))"
      unfolding stop_sandbox_def receipt json.case keys Let_def idempotent_def Some old option.case prod.case
      by (cases "h = se_sha env receipt") simp_all
    with assms Some old show ?thesis by (simp split: if_splits)
  qed
  with receipt keys show ?thesis by blast
qed

text \<open>
  Retrying is safe: after a start or a stop has been answered, the same request under the same key
  is given the same answer and changes nothing, whatever has become of the registry; another
  receipt under that key is a conflict.
\<close>

theorem answered_request_replays:
  assumes "start_sandbox env i key st = (st1, Inr started_body)"
    and "stop_sandbox env i key' [(''checkpointReceipt'', JStr receipt)] st2 = (st3, Inr stopped_body)"
    and "id_subject j = id_subject i" "se_sha env' = se_sha env"
  shows "start_sandbox env' j key (st1\<lparr>ct_registry := s\<rparr>) = (st1\<lparr>ct_registry := s\<rparr>, Inr started_body) \<and>
    stop_sandbox env' j key' [(''checkpointReceipt'', JStr receipt)] (st3\<lparr>ct_registry := s\<rparr>) =
      (st3\<lparr>ct_registry := s\<rparr>, Inr stopped_body) \<and>
    (se_sha env receipt' \<noteq> se_sha env receipt \<longrightarrow>
     (\<exists>e. stop_sandbox env' j key' [(''checkpointReceipt'', JStr receipt')] (st3\<lparr>ct_registry := s\<rparr>) =
        (st3\<lparr>ct_registry := s\<rparr>, Inl (Api e)) \<and> ae_status e = 409))"
proof -
  have "ct_idempotency st1 (id_subject j, ''start'', key) = Some (''start'', started_body)"
    using start_remembers [OF assms(1)] assms(3) by simp
  moreover have "ct_idempotency st3 (id_subject j, ''stop'', key') = Some (se_sha env receipt, stopped_body)"
    using stop_remembers [OF assms(2)] assms(3) by auto
  ultimately show ?thesis
    using assms(4) by (auto simp: start_sandbox_def stop_sandbox_def idempotent_def control_api_error_def)
qed

subsection \<open>The retry loop of a stop\<close>

definition retried :: "stop_outcome \<Rightarrow> bool" where
  "retried out = (case out of StopError status \<Rightarrow> retryable_status status | _ \<Rightarrow> False)"

lemma stop_runtime_step:
  "stop_runtime stopper m a =
     (if \<not> retried (stopper a)
      then ((case stopper a of StopCrash e \<Rightarrow> Inl (Crash e) | _ \<Rightarrow> Inr ()), [])
      else if m \<le> Suc a then (Inl (Api stop_unavailable), [])
      else (fst (stop_runtime stopper m (Suc a)), backoff_cap (Suc a) # snd (stop_runtime stopper m (Suc a))))"
  by (subst stop_runtime.simps) (auto simp: retried_def split: stop_outcome.splits prod.splits)

lemma stop_runtime_gives_up:
  assumes "\<forall>k. a \<le> k \<and> k < m \<longrightarrow> retried (stopper k)" "a < m"
  shows "stop_runtime stopper m a = (Inl (Api stop_unavailable), map backoff_cap [Suc a..<m])"
  using assms
proof (induction "m - a" arbitrary: a)
  case (Suc n)
  show ?case
  proof (cases "Suc a < m")
    case True
    with Suc have "stop_runtime stopper m (Suc a) = (Inl (Api stop_unavailable), map backoff_cap [Suc (Suc a)..<m])"
      by simp
    with True Suc.prems show ?thesis by (subst stop_runtime_step) (simp add: upt_conv_Cons)
  next
    case False
    with Suc.prems show ?thesis by (subst stop_runtime_step) simp
  qed
qed simp

lemma stop_runtime_settles:
  assumes "\<forall>k. a \<le> k \<and> k < n \<longrightarrow> retried (stopper k)" "a \<le> n" "n < m" "\<not> retried (stopper n)"
  shows "stop_runtime stopper m a =
    ((case stopper n of StopCrash e \<Rightarrow> Inl (Crash e) | _ \<Rightarrow> Inr ()), map backoff_cap [Suc a..<Suc n])"
  using assms
proof (induction "n - a" arbitrary: a)
  case 0
  then have "a = n" by simp
  with 0 show ?case by (subst stop_runtime_step) simp
next
  case (Suc d)
  then have "a < n" by simp
  moreover from this Suc have "stop_runtime stopper m (Suc a) =
      ((case stopper n of StopCrash e \<Rightarrow> Inl (Crash e) | _ \<Rightarrow> Inr ()), map backoff_cap [Suc (Suc a)..<Suc n])"
    by simp
  ultimately show ?case
    using Suc.prems by (subst stop_runtime_step) (simp add: upt_conv_Cons del: upt_Suc)
qed

lemma backoff_mono: "i \<le> j \<Longrightarrow> backoff_cap i \<le> backoff_cap j"
  unfolding backoff_cap_def by (intro min.mono mult_le_mono order_refl power_increasing) auto

lemma backoffs: "sorted (map backoff_cap [a..<b])" "backoff_cap d \<le> 2000"
  by (simp_all add: sorted_iff_nth_mono backoff_mono, simp add: backoff_cap_def)

text \<open>
  (C35) Stopping the runtime always ends: the first attempt that is not retried decides; after the
  last allowed attempt the answer is 503 and retryable; there is one delay less than
  attempts, each bounded by two seconds and never shorter than the one before.
\<close>

theorem stop_runtime_decides:
  assumes "0 < m"
  shows "(case List.find (\<lambda>k. \<not> retried (stopper k)) [0..<m] of
      None \<Rightarrow> stop_runtime stopper m 0 = (Inl (Api stop_unavailable), map backoff_cap [1..<m])
    | Some n \<Rightarrow> stop_runtime stopper m 0 =
        ((case stopper n of StopCrash e \<Rightarrow> Inl (Crash e) | _ \<Rightarrow> Inr ()), map backoff_cap [1..<Suc n])) \<and>
    (\<forall>d\<in>set (snd (stop_runtime stopper m 0)). d \<le> 2000) \<and> sorted (snd (stop_runtime stopper m 0)) \<and>
    length (snd (stop_runtime stopper m 0)) < m"
proof (cases "List.find (\<lambda>k. \<not> retried (stopper k)) [0..<m]")
  case None
  then have "\<forall>k. 0 \<le> k \<and> k < m \<longrightarrow> retried (stopper k)" by (simp add: find_None_iff)
  from stop_runtime_gives_up [OF this assms] None assms backoffs show ?thesis
    by (simp del: map_upt_Suc)
next
  case (Some n)
  then have n: "n < m" "\<not> retried (stopper n)" "\<forall>k. 0 \<le> k \<and> k < n \<longrightarrow> retried (stopper k)"
    by (auto simp: find_Some_iff)
  from stop_runtime_settles [OF n(3) _ n(1,2)] Some n(1) backoffs show ?thesis
    by (simp del: upt_Suc)
qed

lemma stop_runtime_decides_witness:
  "stop_runtime (\<lambda>k. if k < 2 then StopError 429 else StopOk) 4 0 = (Inr (), [250, 500])"
proof -
  let ?s = "\<lambda>k. if k < 2 then StopError 429 else StopOk"
  have "List.find (\<lambda>k. \<not> retried (?s k)) [0..<4] = Some 2"
    by (simp add: retried_def retryable_status_def upt_rec)
  with stop_runtime_decides [of 4 ?s] show ?thesis by (simp add: backoff_cap_def upt_rec)
qed

subsection \<open>Start and stop over the deployed registry\<close>

lemma table_get:
  assumes "sandbox_at t (owner_of sha subject) = Some r" "subject \<noteq> []"
  shows "dynamo_get sha table_service subject t = Inr r"
proof -
  have oh: "dynamo_owner_hash sha subject = Inr (owner_of sha subject)"
    using assms(2) by (simp add: dynamo_owner_hash_Inr)
  from assms(1) obtain m sid it where "t (owner_key (owner_of sha subject)) = Some m"
    "attr_s m ''sandboxId'' = Some sid" "sid \<noteq> []" "t (record_key sid) = Some it" "read_record it = Some r"
    by (auto simp: sandbox_at_def bind_eq_Some_conv split: if_splits)
  then show ?thesis by (simp add: dynamo_get_def oh item_record_def)
qed

text \<open>
  A start over DynamoDB that answers names, in its answer, the sandbox and the session that the
  table holds for the caller and the state they are in, also when the wake enrolment wrote the
  record in between; and the answer is remembered under the caller's key.
\<close>

theorem start_answers_for_held_sandbox:
  assumes "dynamo_documented db" "drawn_sandbox c \<noteq> []" "valid_time (drawn_now c)" "valid_time now"
    and "se_ops env = dynamo_ops sha db version c rotated now" "valid_time (now + se_lease_ttl env)"
    and "table_ok (table_of db (ct_registry st))"
    and "ct_idempotency st (id_subject i, ''start'', key) = None"
    and "start_sandbox env i key st = (st', Inr body)"
  shows "\<exists>r. dynamo_held sha db (ct_registry st') (id_subject i) = Some r \<and> table_ok (table_of db (ct_registry st')) \<and>
    get_key body ''sandboxId'' = JStr (sandbox_id r) \<and>
    get_key body ''runtimeSessionId'' = JStr (runtime_session_id r) \<and>
    get_key body ''state'' = JStr (state_value (sb_state r)) \<and>
    ct_idempotency st' (id_subject i, ''start'', key) = Some (''start'', body)"
  by (rule sandbox_registry.start_names_held [OF dynamo_registry [OF assms(1-4)] assms(5,7) _ assms(6,8,9)]) simp

text \<open>
  (C15) A stop over DynamoDB that answers has been authorised by a receipt: the record was STOPPING at
  the generation the receipt names, the receipt verifies for exactly this caller, sandbox and
  session, that generation is in the catalog as committed with the same digest, and now the
  record is STOPPED without a lease.
\<close>

theorem stop_needs_committed_checkpoint:
  assumes "dynamo_documented db" "drawn_sandbox c \<noteq> []" "valid_time (drawn_now c)" "valid_time now"
    and "se_ops env = dynamo_ops sha db version c rotated now"
    and "table_ok (table_of db (ct_registry st))"
    and "ct_idempotency st (id_subject i, ''stop'', key) = None"
    and "stop_sandbox env i key body st = (st', Inr out)"
  shows "\<exists>receipt r generation digest m r'. get_key body ''checkpointReceipt'' = JStr receipt \<and>
    dynamo_held sha db (ct_registry st) (id_subject i) = Some r \<and> sb_state r = STOPPING \<and>
    verify_checkpoint_receipt (se_sha env) (se_kms env) (cc_token_audience (se_config env)) (se_now env)
      receipt i r = Inr (generation, digest) \<and>
    last_checkpoint_generation r = Some generation \<and>
    dynamo_catalog_get db (sandbox_id r) generation (ct_registry st) = Inr (Some m) \<and>
    cm_status m = COMMITTED \<and> cm_manifest_digest m = digest \<and>
    dynamo_held sha db (ct_registry st') (id_subject i) = Some r' \<and> sb_state r' = STOPPED \<and>
    lease_owner r' = None \<and> out = sandbox_body r'"
  using sandbox_registry.stop_checked [OF dynamo_registry [OF assms(1-4)] assms(5-8)]
  by (simp add: dynamo_ops_def)

text \<open>The sandbox of the samples, ready to be stopped: its last checkpoint is generation 3.\<close>

definition stopping_record :: sandbox_record where
  "stopping_record = sample_record\<lparr>sb_state := STOPPING, last_checkpoint_generation := Some 3\<rparr>"

definition checkpoint_item :: item where
  "checkpoint_item =
     [''pk'' \<mapsto> AttrS (sandbox_pk ''sbx_A''), ''sk'' \<mapsto> AttrS (''CHECKPOINT#'' @ format_int 20 3),
      ''createdAt'' \<mapsto> AttrS (timestamp 4), ''generation'' \<mapsto> AttrN 3,
      ''manifestDigest'' \<mapsto> AttrS (replicate 64 (CHR ''a'')), ''schemaVersion'' \<mapsto> AttrN 1,
      ''status'' \<mapsto> AttrS ''COMMITTED'']"

definition stopping_table :: table where
  "stopping_table =
     [owner_key (owner_hash sample_record) \<mapsto> mapping_item sample_record,
      record_key ''sbx_A'' \<mapsto> record_item stopping_record,
      checkpoint_key ''sbx_A'' 3 \<mapsto> checkpoint_item]"

definition sample_identity :: identity where
  "sample_identity = \<lparr>id_subject = ''user'', id_issuer = ''issuer'', id_administrator = False\<rparr>"

lemma checkpoint_key_other [simp]: "checkpoint_key sid g \<noteq> owner_key oh" "checkpoint_key sid g \<noteq> record_key sid'"
  "owner_key oh \<noteq> checkpoint_key sid g" "record_key sid' \<noteq> checkpoint_key sid g"
  by (simp_all add: checkpoint_key_def owner_key_def record_key_def sandbox_pk_def)

lemma stopping_entries:
  "stopping_table (owner_key (owner_of id ''user'')) = Some (mapping_item sample_record)"
  "stopping_table (record_key ''sbx_A'') = Some (record_item stopping_record)"
  "stopping_table (checkpoint_key ''sbx_A'' 3) = Some checkpoint_item"
  "stopping_table (owner_key oh) = (if oh = owner_of id ''user'' then Some (mapping_item sample_record) else None)"
  by (auto simp: stopping_table_def) (auto simp: sample_record_def owner_of_def)

lemma stopping_storable: "storable stopping_record"
  by (simp add: storable_def stopping_record_def sample_record_def valid_small seconds_def minutes_def
      hints_ok_def hints_of_def hint_attributes_def)

lemma stopping_fields [simp]:
  "sandbox_id stopping_record = ''sbx_A''" "sb_state stopping_record = STOPPING"
  "last_checkpoint_generation stopping_record = Some 3" "init_expires_at stopping_record = None"
  "runtime_session_id stopping_record = ''session-1''" "lease_owner stopping_record = Some ''session-1''"
  "state_version stopping_record = 1" "created_at stopping_record = 0" "wake_hints stopping_record = []"
  by (simp_all add: stopping_record_def sample_record_def)

lemma stopping_at: "sandbox_at stopping_table (owner_of id ''user'') = Some stopping_record"
  using read_stored [OF stopping_storable] by (simp add: sandbox_at_def stopping_entries sample_entries(3))

lemma stopping_ok: "table_ok stopping_table"
  unfolding table_ok_def
proof (intro allI conjI impI)
  fix oh r
  have "attr_s (record_item stopping_record) ''pk'' = Some (sandbox_pk ''sbx_A'')"
    using record_item_fields(1) [of stopping_record] stopping_storable by (simp add: attr_s_Some storable_def)
  then show "coherent stopping_table oh"
    by (auto simp: coherent_def stopping_entries(2,4) sample_entries(3) split: if_splits)
  assume "sandbox_at stopping_table oh = Some r"
  then have "r = stopping_record"
    using stopping_at by (cases "oh = owner_of id ''user''") (auto simp: sandbox_at_def stopping_entries(4))
  then show "valid_time (created_at r)" by (simp add: valid_small seconds_def)
qed

definition stopping_env :: "table service_env" where
  "stopping_env = sample_env (dynamo_ops id table_service ''v1'' sample_creation ''session-2'' 5) 5"

lemma stopping_env_simps [simp]:
  "se_ops stopping_env = dynamo_ops id table_service ''v1'' sample_creation ''session-2'' 5"
  "se_sha stopping_env = id" "se_kms stopping_env = sample_kms" "se_now stopping_env = 5"
  "se_config stopping_env = sample_config" "se_nonce stopping_env = ''nonce''" "se_sealer stopping_env = None"
  "se_lease_ttl stopping_env = seconds 90" "se_max_stop_attempts stopping_env = 4"
  "se_stopper stopping_env session attempt = StopOk"
  by (simp_all add: stopping_env_def)

lemma stopping_get: "dynamo_get id table_service ''user'' stopping_table = Inr stopping_record"
  by (rule table_get [OF stopping_at]) simp

lemma start_sample: "\<exists>st' body. start_sandbox stopping_env sample_identity ''key'' (fresh_service stopping_table) = (st', Inr body)"
proof -
  have acq: "dynamo_acquire_start id table_service ''v1'' sample_creation ''session-2'' 5 ''user'' ''session-1''
      (seconds 90) False stopping_table = (stopping_table, Inr (lease_of stopping_record ''session-1''))"
    by (simp add: dynamo_acquire_start_def dynamo_get_or_create_def stopping_get)
      (simp add: stopping_record_def sample_record_def minutes_def seconds_def)
  have goc: "dynamo_get_or_create id table_service ''v1'' sample_creation ''user'' stopping_table =
      (stopping_table, Inr stopping_record)"
    by (simp add: dynamo_get_or_create_def stopping_get)
  obtain token where "issue_token sample_kms
      (session_claims id ''aud'' 5 ''nonce'' sample_identity stopping_record ''binding'') = Inr token"
    using issue_sample by blast
  then have "issue_binding id sample_kms ''aud'' 5 ''nonce'' sample_identity stopping_record = Inr (token, 5 + BINDING_TTL)"
    by (simp add: issue_binding_def)
  then show ?thesis
    by (auto simp: start_sandbox_def idempotent_def dynamo_ops_def goc acq sample_identity_def lease_of_def
        sample_config_def Let_def)
qed

lemma stop_sample:
  obtains token st' out where
    "stop_sandbox stopping_env sample_identity ''key'' [(''checkpointReceipt'', JStr token)] (fresh_service stopping_table)
     = (st', Inr out)"
proof -
  obtain token where issue: "issue_checkpoint_receipt id sample_kms ''aud'' 0 ''n'' sample_identity stopping_record 3
      (replicate 64 (CHR ''a'')) = Inr token"
    using issue_sample by (fastforce simp: issue_checkpoint_receipt_def)
  have verify: "verify_checkpoint_receipt id sample_kms ''aud'' 5 token sample_identity stopping_record =
      Inr (3, replicate 64 (CHR ''a''))"
    using receipt_verifies [OF sample_kms_documented issue, of 5 sample_identity stopping_record]
    by (simp add: RECEIPT_TTL_def minutes_def epoch_def seconds_def)
  obtain m where catalog: "dynamo_catalog_get table_service ''sbx_A'' 3 stopping_table = Inr (Some m)"
    and m: "cm_status m = COMMITTED" "cm_manifest_digest m = replicate 64 (CHR ''a'')"
    using read_timestamp_timestamp [of 4]
    by (simp add: dynamo_catalog_get_def stopping_entries item_metadata_def read_metadata_def checkpoint_item_def
        attr_s_def attr_n_def status_of_text_def valid_small seconds_def)
  let ?u = "stopping_record\<lparr>sb_state := STOPPED, state_version := 2, lease_owner := None,
     lease_expires_at := None, active_request_id := None, updated_at := 5\<rparr>"
  have st: "storable ?u" using stopping_storable by (simp add: storable_def valid_small seconds_def)
  obtain t' res where put: "put_updated table_service stopping_record ?u stopping_table = (t', res)" by fastforce
  have "\<forall>code. res \<noteq> Inl (ClientError code)"
    using put by (auto simp: put_updated_def split: if_splits)
  note own = put_updated_own [OF table_service_documented _ _ _ st _ put this, of "owner_of id ''user''"]
  have "res = Inr ()"
    using own stopping_at stopping_ok by (simp add: table_ok_def)
  then have tr: "dynamo_transition id table_service 5 ''user'' STOPPED 1 (Some ''session-1'') stopping_table = (t', Inr ?u)"
    using put by (simp add: dynamo_transition_def stopping_get Let_def)
  have run: "fst (stop_runtime (\<lambda>a. StopOk) 4 0) = Inr ()" by (simp add: stop_runtime.simps)
  have env: "se_stopper stopping_env ''session-1'' = (\<lambda>a. StopOk)" by (rule ext) simp
  have "stop_sandbox stopping_env sample_identity ''key'' [(''checkpointReceipt'', JStr token)] (fresh_service stopping_table)
      = (remember ''user'' ''stop'' ''key'' token (sandbox_body ?u) (fresh_service t'), Inr (sandbox_body ?u))"
    using verify catalog m tr run
    by (simp add: stop_sandbox_def idempotent_def dynamo_ops_def sample_identity_def stopping_get stoppable_def
        sample_config_def env fresh_service_def)
  then show thesis by (rule that)
qed

lemma sample_creation_valid: "drawn_sandbox sample_creation \<noteq> []" "valid_time (drawn_now sample_creation)" "valid_time 5"
  by (simp_all add: sample_creation_def valid_small seconds_def)

lemma start_answers_witness:
  "\<exists>st' body r. start_sandbox stopping_env sample_identity ''key'' (fresh_service stopping_table) = (st', Inr body) \<and>
    dynamo_held id table_service (ct_registry st') ''user'' = Some r \<and> get_key body ''sandboxId'' = JStr (sandbox_id r)"
proof -
  obtain st' body where start: "start_sandbox stopping_env sample_identity ''key'' (fresh_service stopping_table) = (st', Inr body)"
    using start_sample by blast
  have "valid_time (5 + se_lease_ttl stopping_env)" by (simp add: valid_small seconds_def)
  from start_answers_for_held_sandbox [OF table_service_documented sample_creation_valid stopping_env_simps(1)
      this _ _ start] start stopping_ok
  show ?thesis by (auto simp: sample_identity_def)
qed

lemma stop_needs_committed_checkpoint_witness:
  "\<exists>receipt st' out r'. stop_sandbox stopping_env sample_identity ''key'' [(''checkpointReceipt'', JStr receipt)]
      (fresh_service stopping_table) = (st', Inr out) \<and>
    dynamo_held id table_service (ct_registry st') ''user'' = Some r' \<and> sb_state r' = STOPPED"
proof -
  obtain token st' out where stop: "stop_sandbox stopping_env sample_identity ''key''
      [(''checkpointReceipt'', JStr token)] (fresh_service stopping_table) = (st', Inr out)" by (rule stop_sample)
  from stop_needs_committed_checkpoint [OF table_service_documented sample_creation_valid stopping_env_simps(1)
      _ _ stop] stop stopping_ok
  show ?thesis by (auto simp: sample_identity_def)
qed

lemma answered_request_replays_witness:
  "\<exists>st1 body. start_sandbox stopping_env sample_identity ''key'' (st1\<lparr>ct_registry := Map.empty\<rparr>) =
     (st1\<lparr>ct_registry := Map.empty\<rparr>, Inr body)"
proof -
  obtain st1 body where start: "start_sandbox stopping_env sample_identity ''key'' (fresh_service stopping_table) = (st1, Inr body)"
    using start_sample by blast
  obtain token st3 out where stop: "stop_sandbox stopping_env sample_identity ''key''
      [(''checkpointReceipt'', JStr token)] (fresh_service stopping_table) = (st3, Inr out)" by (rule stop_sample)
  from answered_request_replays [OF start stop refl refl, of Map.empty] show ?thesis by blast
qed

end
