(* ===== verification/ToolToken.thy ===== *)
theory ToolToken
  imports Tokens PyText
begin

text \<open>
  \<open>kirocrew_agentcore_persistence/tool_token.py\<close>: the Cognito token a sandbox is given on
  behalf of its owner. KMS decryption, Secrets Manager, SHA-256 and the HTTP call are
  parameters. The configuration cache of the module is a state, read and returned.
\<close>

subsection \<open>What the module calls\<close>

text \<open>
  \<open>kms.generate_data_key\<close> and \<open>kms.decrypt\<close>, for a key and an encryption context: a
  \<open>ClientError\<close> by its code, the plaintext with its ciphertext, or the plaintext, which an
  answer may lack.
\<close>

type_synonym kms_context = "(string \<times> string) list"

record vault =
  generate_data_key :: "string \<Rightarrow> kms_context \<Rightarrow> (string, string \<times> string) result"
  kms_decrypt :: "string \<Rightarrow> kms_context \<Rightarrow> string \<Rightarrow> (string, string option) result"

text \<open>
  \<open>os.environ\<close>, and \<open>_required\<close> of it: an empty variable is a missing one.
\<close>

type_synonym environ = "string \<Rightarrow> string option"

definition required :: "environ \<Rightarrow> string \<Rightarrow> (crash, string) result" where
  "required env name = (case env name of
     Some v \<Rightarrow> if v = [] then Inl (RuntimeErr (''Missing broker configuration: '' @ name)) else Inr v
   | None \<Rightarrow> Inl (RuntimeErr (''Missing broker configuration: '' @ name)))"

definition environ_at :: "environ \<Rightarrow> string \<Rightarrow> (crash, string) result" where
  "environ_at env name = (case env name of Some v \<Rightarrow> Inr v | None \<Rightarrow> Inl (KeyErr name))"

text \<open>The request the module sends, and what the server answers: a body, or an \<open>OSError\<close>.\<close>

record token_request =
  tr_url :: string
  tr_authorization :: string
  tr_body :: string

record tool_services =
  ts_environ :: environ
  ts_sha :: "string \<Rightarrow> string"
  ts_vault :: vault
  ts_secret :: "string \<Rightarrow> (string, string) result"
  ts_open :: "token_request \<Rightarrow> string option"

record tool_config =
  tc_client_id :: string
  tc_client_secret :: string
  tc_endpoint :: string
  tc_scope :: string

subsection \<open>Text\<close>

definition is_ascii :: "char \<Rightarrow> bool" where
  "is_ascii c = ((of_char c :: nat) < 128)"

text \<open>\<open>bytes.decode("utf-8")\<close> and \<open>str.encode()\<close>, for code points below 256.\<close>

fun utf8_decode :: "string \<Rightarrow> string option" where
  "utf8_decode [] = Some []"
| "utf8_decode (c # cs) =
     (if is_ascii c then map_option (Cons c) (utf8_decode cs)
      else case cs of
        [] \<Rightarrow> None
      | d # ds \<Rightarrow>
          let m = (of_char c :: nat); n = (of_char d :: nat) in
          if (m = 194 \<or> m = 195) \<and> 128 \<le> n \<and> n < 192
          then map_option (Cons (char_of ((m - 192) * 64 + (n - 128)))) (utf8_decode ds)
          else None)"

definition utf8_char :: "char \<Rightarrow> string" where
  "utf8_char c = (let n = (of_char c :: nat) in
     if n < 128 then [c] else [char_of (192 + n div 64), char_of (128 + n mod 64)])"

definition utf8_encode :: "string \<Rightarrow> string" where
  "utf8_encode s = concat (map utf8_char s)"

text \<open>\<open>urllib.parse.urlencode\<close>: each name and value through \<open>quote_plus\<close>.\<close>

definition unreserved :: "char \<Rightarrow> bool" where
  "unreserved c = (let n = (of_char c :: nat) in
     (48 \<le> n \<and> n \<le> 57) \<or> (65 \<le> n \<and> n \<le> 90) \<or> (97 \<le> n \<and> n \<le> 122)
     \<or> c \<in> {CHR ''_'', CHR ''.'', CHR ''-'', CHR ''~''})"

definition percent :: "char \<Rightarrow> string" where
  "percent c = (let n = (of_char c :: nat) in
     CHR 0x25 # map upper_char [hex_char (n div 16), hex_char (n mod 16)])"

definition quote_plus :: "string \<Rightarrow> string" where
  "quote_plus s = concat (map (\<lambda>c.
     if unreserved c then [c] else if c = CHR '' '' then ''+'' else percent c) (utf8_encode s))"

fun urlencode :: "(string \<times> string) list \<Rightarrow> string" where
  "urlencode [] = []"
| "urlencode [(k, v)] = quote_plus k @ ''='' @ quote_plus v"
| "urlencode ((k, v) # kvs) = quote_plus k @ ''='' @ quote_plus v @ ''&'' @ urlencode kvs"

subsection \<open>The owner\<close>

definition WAKE_SUBJECT_PURPOSE :: string where
  "WAKE_SUBJECT_PURPOSE = ''kirocrew-wake-subject''"

definition OWNER_HASH_PREFIX :: string where
  "OWNER_HASH_PREFIX = ''kirocrew-owner-v1''"

definition tool_unavailable :: "string \<Rightarrow> crash" where
  "tool_unavailable message = PermissionErr message"

definition enabled :: "environ \<Rightarrow> bool" where
  "enabled env = (case env ''TOOL_TOKEN_SECRET_ARN'' of None \<Rightarrow> False | Some v \<Rightarrow> v \<noteq> [])"

definition text_or_empty :: "item \<Rightarrow> string \<Rightarrow> string" where
  "text_or_empty it name = (case attr_s it name of None \<Rightarrow> [] | Some v \<Rightarrow> v)"

definition wake_context :: "string \<Rightarrow> kms_context" where
  "wake_context sid = [(''purpose'', WAKE_SUBJECT_PURPOSE), (''sandboxId'', sid)]"

text \<open>\<open>owner_subject\<close>, from the unsealed bytes on: their owner must be the record's.\<close>

definition check_owner :: "(string \<Rightarrow> string) \<Rightarrow> string \<Rightarrow> string option \<Rightarrow> (crash, string) result" where
  "check_owner sha recorded plaintext = (case plaintext of
     None \<Rightarrow> Inl (tool_unavailable ''Sandbox owner record is empty.'')
   | Some bytes \<Rightarrow>
       if bytes = [] then Inl (tool_unavailable ''Sandbox owner record is empty.'')
       else (case utf8_decode bytes of
           None \<Rightarrow> Inl (ValueCrash ''invalid utf-8'')
         | Some subject \<Rightarrow>
             let derived = sha (OWNER_HASH_PREFIX @ [CHR 0x00] @ subject) in
             if \<not> list_all is_ascii recorded
             then Inl (TypeErr ''comparing strings with non-ASCII characters is not supported'')
             else if derived \<noteq> recorded
             then Inl (tool_unavailable ''Sandbox owner record does not match its owner.'')
             else Inr subject))"

definition owner_subject :: "tool_services \<Rightarrow> item \<Rightarrow> string \<Rightarrow> (crash, string) result" where
  "owner_subject ts it sid =
     (let sealed = text_or_empty it ''wakeSubject''; recorded = text_or_empty it ''ownerHash'' in
      if sealed = [] \<or> recorded = []
      then Inl (tool_unavailable ''Sandbox owner is not enrolled for tool tokens.'')
      else (case unbase64 sealed of
          None \<Rightarrow> Inl (tool_unavailable ''Sandbox owner record does not open.'')
        | Some ciphertext \<Rightarrow>
            and_then (environ_at (ts_environ ts) ''WAKE_SUBJECT_KEY_ARN'') (\<lambda>key_id.
              case kms_decrypt (ts_vault ts) key_id (wake_context sid) ciphertext of
                Inl code \<Rightarrow> Inl (tool_unavailable ''Sandbox owner record does not open.'')
              | Inr plaintext \<Rightarrow> check_owner (ts_sha ts) recorded plaintext)))"

subsection \<open>The configuration\<close>

definition config_text :: "(string \<times> json) list \<Rightarrow> string \<Rightarrow> string option" where
  "config_text loaded name = (case get_key loaded name of
     JStr v \<Rightarrow> if v = [] then None else Some v
   | _ \<Rightarrow> None)"

definition read_config :: "string \<Rightarrow> (crash, tool_config) result" where
  "read_config text = (case json_loads text of
     None \<Rightarrow> Inl (ValueCrash ''invalid JSON'')
   | Some (JObj loaded) \<Rightarrow>
       (case (config_text loaded ''clientId'', config_text loaded ''clientSecret'',
              config_text loaded ''tokenEndpoint'', config_text loaded ''scope'') of
          (Some i, Some secret, Some endpoint, Some scope) \<Rightarrow>
            if \<not> starts_with endpoint ''https://''
            then Inl (RuntimeErr ''Tool token endpoint must use HTTPS.'')
            else Inr \<lparr>tc_client_id = i, tc_client_secret = secret, tc_endpoint = endpoint, tc_scope = scope\<rparr>
        | _ \<Rightarrow> Inl (RuntimeErr ''Tool token configuration is incomplete.''))
   | Some _ \<Rightarrow> Inl (RuntimeErr ''Tool token configuration is incomplete.''))"

text \<open>\<open>_config\<close>: the cached configuration, or the secret's, which is then cached.\<close>

definition tool_config_of ::
  "tool_services \<Rightarrow> tool_config option \<Rightarrow> tool_config option \<times> (crash, tool_config) result" where
  "tool_config_of ts cache = (case cache of
     Some c \<Rightarrow> (cache, Inr c)
   | None \<Rightarrow> trying None (environ_at (ts_environ ts) ''TOOL_TOKEN_SECRET_ARN'') (\<lambda>arn.
       case ts_secret ts arn of
         Inl code \<Rightarrow> (None, Inl (ClientCrash code))
       | Inr text \<Rightarrow> trying None (read_config text) (\<lambda>c. (Some c, Inr c))))"

subsection \<open>Issuing\<close>

definition token_request_of :: "tool_config \<Rightarrow> string \<Rightarrow> token_request" where
  "token_request_of c subject =
     \<lparr>tr_url = tc_endpoint c,
      tr_authorization = ''Basic '' @ base64 (utf8_encode (tc_client_id c @ '':'' @ tc_client_secret c)),
      tr_body = urlencode
        [(''grant_type'', ''client_credentials''), (''scope'', tc_scope c),
         (''aws_client_metadata'', json_dumps (JObj [(''owner_sub'', JStr subject)]))]\<rparr>"

definition token_answer :: "string option \<Rightarrow> (crash, (string \<times> json) list) result" where
  "token_answer response = (case Option.bind response json_loads of
     None \<Rightarrow> Inl (tool_unavailable ''Tool token was refused.'')
   | Some (JObj payload) \<Rightarrow>
       (case (get_key payload ''access_token'', get_key payload ''expires_in'') of
          (JStr token, JInt expires_in) \<Rightarrow>
            if token = [] then Inl (tool_unavailable ''Tool token response is invalid.'')
            else Inr [(''accessToken'', JStr token), (''expiresIn'', JInt expires_in),
                      (''tokenType'', JStr ''Bearer'')]
        | _ \<Rightarrow> Inl (tool_unavailable ''Tool token response is invalid.''))
   | Some _ \<Rightarrow> Inl (tool_unavailable ''Tool token response is invalid.''))"

definition issue_tool_token ::
  "tool_services \<Rightarrow> 's dynamo \<Rightarrow> string \<Rightarrow> 's \<Rightarrow> tool_config option \<Rightarrow>
     tool_config option \<times> (crash, (string \<times> json) list) result" where
  "issue_tool_token ts db sid s cache =
     (if \<not> enabled (ts_environ ts)
      then (cache, Inl (tool_unavailable ''Tool tokens are not enabled.''))
      else trying cache (environ_at (ts_environ ts) ''SANDBOX_TABLE'') (\<lambda>_.
        case get_item db (record_key sid) s of
          Inl code \<Rightarrow> (cache, Inl (ClientCrash code))
        | Inr found \<Rightarrow>
            trying cache (owner_subject ts (case found of None \<Rightarrow> Map.empty | Some it \<Rightarrow> it) sid) (\<lambda>subject.
              case tool_config_of ts cache of
                (cache', Inl e) \<Rightarrow> (cache', Inl e)
              | (cache', Inr c) \<Rightarrow>
                  (cache', token_answer (ts_open ts (token_request_of c subject))))))"

end
