(* ===== verification/Broker.thy ===== *)
theory Broker
  imports ToolToken
begin

text \<open>
  \<open>kirocrew_agentcore_persistence/lambda_handler.py\<close>: the persistence broker, the Lambda
  function a sandbox's container calls for its lifecycle, its storage grants and its checkpoint
  receipts. DynamoDB, S3 and KMS are parameters. Every operation is one function from the
  states of the table and the bucket to their new states and the answer, or the exception.
  An operation reads the clock once; the authorization before it read it earlier.
\<close>

subsection \<open>What the broker calls\<close>

text \<open>
  S3: an object by its key or the code of the \<open>ClientError\<close>; a conditional put
  (\<open>If-None-Match: *\<close>); the keys with a prefix, of all pages; and the signing of a URL.
\<close>

record presign_request =
  pr_operation :: string
  pr_params :: "(string \<times> string) list"
  pr_expires_in :: int
  pr_method :: string

record 'o s3 =
  s3_get_object :: "string \<Rightarrow> string \<Rightarrow> 'o \<Rightarrow> (string, string) result"
  s3_put_new :: "string \<Rightarrow> string \<Rightarrow> string \<Rightarrow> 'o \<Rightarrow> 'o \<times> (string, unit) result"
  s3_list_keys :: "string \<Rightarrow> string \<Rightarrow> 'o \<Rightarrow> (string, string list) result"
  s3_presigned_url :: "presign_request \<Rightarrow> string"

record ('s, 'o) broker_env =
  be_environ :: environ
  be_db :: "'s dynamo"
  be_s3 :: "'o s3"
  be_kms :: kms
  be_vault :: vault
  be_session_ttl :: int
  be_tools :: tool_services

type_synonym answer = "(string \<times> json) list"

definition env_var :: "('s, 'o) broker_env \<Rightarrow> string \<Rightarrow> (crash, string) result" where
  "env_var e name = required (be_environ e) name"

subsection \<open>Constants and patterns\<close>

definition URL_TTL :: timedelta where "URL_TTL = minutes 5"
definition MAX_BATCH_GRANTS :: nat where "MAX_BATCH_GRANTS = 128"
definition TAKEOVER_IDLE :: timedelta where "TAKEOVER_IDLE = seconds 60"
definition MAX_PROGRESS_COUNT :: int where "MAX_PROGRESS_COUNT = 100000000"
definition MAX_DUE_AHEAD :: timedelta where "MAX_DUE_AHEAD = seconds (400 * 86400)"

definition LIVE_STATES :: "string list" where
  "LIVE_STATES =
     [''STARTING'', ''RESTORING'', ''READY'', ''BUSY'', ''CHECKPOINTING'', ''STOPPING'']"

definition TOKEN_TYPES :: "string list" where
  "TOKEN_TYPES = [''binding'', ''runtime-session'', ''scheduler'']"

definition is_hex :: "char \<Rightarrow> bool" where
  "is_hex c = (is_decimal_char c \<or> (97 \<le> (of_char c :: nat) \<and> (of_char c :: nat) \<le> 102))"

definition digest_pattern :: "string \<Rightarrow> bool" where
  "digest_pattern s = (length s = 64 \<and> list_all is_hex s)"

definition init_owner_pattern :: "string \<Rightarrow> bool" where
  "init_owner_pattern s =
     (length s = 36 \<and>
      list_all (\<lambda>i. if i \<in> {8, 13, 18, 23} then s ! i = CHR ''-'' else is_hex (s ! i)) [0..<36])"

text \<open>\<open>[1-9][0-9]*\.json(\.enc)?\<close>\<close>

definition positive_decimal :: "string \<Rightarrow> bool" where
  "positive_decimal s = (s \<noteq> [] \<and> list_all is_decimal_char s \<and> hd s \<noteq> CHR ''0'')"

definition generation_object :: "string \<Rightarrow> bool" where
  "generation_object s =
     ((ends_with s ''.json'' \<and> positive_decimal (remove_suffix s ''.json'')) \<or>
      (ends_with s ''.json.enc'' \<and> positive_decimal (remove_suffix s ''.json.enc'')))"

definition is_lower_letter :: "char \<Rightarrow> bool" where
  "is_lower_letter c = (97 \<le> (of_char c :: nat) \<and> (of_char c :: nat) \<le> 122)"

definition restore_outcome_pattern :: "string \<Rightarrow> bool" where
  "restore_outcome_pattern s =
     (s \<noteq> [] \<and> length s \<le> 32 \<and> is_lower_letter (hd s) \<and>
      list_all (\<lambda>c. is_lower_letter c \<or> c = CHR ''-'') (tl s))"

definition diagnostic_pattern :: "string \<Rightarrow> bool" where
  "diagnostic_pattern s =
     (s \<noteq> [] \<and> length s \<le> 256 \<and>
      list_all (\<lambda>c. 32 \<le> (of_char c :: nat) \<and> (of_char c :: nat) \<le> 126) s)"

definition job_id_pattern :: "string \<Rightarrow> bool" where
  "job_id_pattern s =
     (length s \<le> 128 \<and>
      list_all (\<lambda>c. is_decimal_char c \<or> is_lower_letter c
        \<or> (65 \<le> (of_char c :: nat) \<and> (of_char c :: nat) \<le> 90)
        \<or> c \<in> {CHR ''_'', CHR ''.'', CHR '':'', CHR ''-''}) s)"

subsection \<open>Who is calling\<close>

definition invalid_binding :: crash where
  "invalid_binding = PermissionErr ''Invalid runtime binding.''"

definition opt_json :: "string option \<Rightarrow> json" where
  "opt_json v = (case v of None \<Rightarrow> JNull | Some s \<Rightarrow> JStr s)"

text \<open>
  \<open>_binding\<close>: the claims of a token that parses, verifies and is a current one for this
  audience. Whatever fails in the \<open>try\<close> is the same refusal, a missing key id apart.
\<close>

definition binding_payload :: "string \<Rightarrow> ((string \<times> json) list \<times> string \<times> string) option" where
  "binding_payload token = (case split_dot token of
     None \<Rightarrow> None
   | Some (payload_encoded, signature_encoded) \<Rightarrow>
       (case Option.bind (unbase64url payload_encoded) json_loads of
          Some (JObj claims) \<Rightarrow> Some (claims, payload_encoded, signature_encoded)
        | _ \<Rightarrow> None))"

definition binding_verified :: "kms \<Rightarrow> string \<Rightarrow> string \<Rightarrow> (crash, bool) result" where
  "binding_verified k payload_encoded signature_encoded = (case unbase64url signature_encoded of
     None \<Rightarrow> Inl invalid_binding
   | Some sig \<Rightarrow>
       (case kms_verify k payload_encoded sig of
          Inl _ \<Rightarrow> Inl invalid_binding
        | Inr valid \<Rightarrow> Inr valid))"

definition token_current :: "answer \<Rightarrow> string \<Rightarrow> time \<Rightarrow> bool" where
  "token_current claims audience now =
     (get_key claims ''aud'' = JStr audience \<and>
      (case as_int (get_key claims ''exp'') of None \<Rightarrow> False | Some expires \<Rightarrow> epoch now < expires))"

definition binding :: "('s, 'o) broker_env \<Rightarrow> time \<Rightarrow> string \<Rightarrow> (crash, answer) result" where
  "binding e now token = (case binding_payload token of
     None \<Rightarrow> Inl invalid_binding
   | Some (claims, payload_encoded, signature_encoded) \<Rightarrow>
       and_then (env_var e ''BINDING_KEY_ARN'') (\<lambda>_.
       and_then (binding_verified (be_kms e) payload_encoded signature_encoded) (\<lambda>valid.
         if \<not> valid then Inl invalid_binding
         else case get_key claims ''type'' of
             JStr kind \<Rightarrow>
               if kind \<notin> set TOKEN_TYPES then Inl invalid_binding
               else and_then (env_var e ''BINDING_AUDIENCE'') (\<lambda>audience.
                 if token_current claims audience now then Inr claims else Inl invalid_binding)
           | JList _ \<Rightarrow> Inl (TypeErr ''unhashable type'')
           | JObj _ \<Rightarrow> Inl (TypeErr ''unhashable type'')
           | _ \<Rightarrow> Inl invalid_binding)))"

definition claimed_sandbox :: "answer \<Rightarrow> answer \<Rightarrow> (crash, string) result" where
  "claimed_sandbox claims event = (case get_key event ''sandboxId'' of
     JStr sid \<Rightarrow>
       if \<not> sandbox_pattern sid
          \<or> \<not> py_eq (get_key event ''runtimeSessionId'') (get_key claims ''runtimeSessionId'')
          \<or> get_key claims ''sandboxId'' \<noteq> JStr sid
       then Inl invalid_binding else Inr sid
   | _ \<Rightarrow> Inl invalid_binding)"

text \<open>\<open>get_item(...).get("Item", {})\<close> of the caller's record.\<close>

definition broker_item :: "('s, 'o) broker_env \<Rightarrow> string \<Rightarrow> 's \<Rightarrow> (crash, item) result" where
  "broker_item e sid s =
     and_then (env_var e ''SANDBOX_TABLE'') (\<lambda>_.
       case get_item (be_db e) (record_key sid) s of
         Inl code \<Rightarrow> Inl (ClientCrash code)
       | Inr None \<Rightarrow> Inr Map.empty
       | Inr (Some it) \<Rightarrow> Inr it)"

text \<open>\<open>_authorize\<close>\<close>

definition authorized_item :: "item \<Rightarrow> json \<Rightarrow> time \<Rightarrow> (crash, unit) result" where
  "authorized_item it session now =
     (if \<not> py_eq (opt_json (attr_s it ''runtimeSessionId'')) session then Inl invalid_binding
      else if attr_s it ''state'' \<notin> set (map Some LIVE_STATES) then
        (case attr_n it ''initExpiresAt'' of
           None \<Rightarrow> Inl (PermissionErr ''Sandbox is unavailable.'')
         | Some expires \<Rightarrow>
             if expires \<le> epoch now then Inl (PermissionErr ''Sandbox is unavailable.'') else Inr ())
      else Inr ())"

definition authorize ::
  "('s, 'o) broker_env \<Rightarrow> answer \<Rightarrow> answer \<Rightarrow> time \<Rightarrow> 's \<Rightarrow> (crash, string) result" where
  "authorize e claims event now s =
     and_then (claimed_sandbox claims event) (\<lambda>sid.
     and_then (broker_item e sid s) (\<lambda>it.
     and_then (authorized_item it (get_key event ''runtimeSessionId'') now) (\<lambda>_. Inr sid)))"

text \<open>
  \<open>str(claims["runtimeSessionId"])\<close>. \<open>_authorize\<close> has matched the claim with the
  attribute of the record, so it is a text, or \<open>None\<close> of a record without a session.
\<close>

definition claims_session :: "answer \<Rightarrow> (crash, string) result" where
  "claims_session claims = (case map_of claims ''runtimeSessionId'' of
     None \<Rightarrow> Inl (KeyErr ''runtimeSessionId'')
   | Some (JStr v) \<Rightarrow> Inr v
   | Some _ \<Rightarrow> Inr ''None'')"

subsection \<open>Updates of the record\<close>

text \<open>
  \<open>_conditional_update\<close>: a refused condition is an answer, \<open>applied: false\<close>, with the
  reason when the operation names one; any other failure of the write is raised.
\<close>

definition conditional_update ::
  "('s, 'o) broker_env \<Rightarrow> string \<Rightarrow> update \<Rightarrow> cond \<Rightarrow> (item \<Rightarrow> string) option \<Rightarrow> 's \<Rightarrow>
     's \<times> (crash, answer) result" where
  "conditional_update e sid u c reason s =
     trying s (env_var e ''SANDBOX_TABLE'') (\<lambda>_.
       case write_item (be_db e) (Update (record_key sid) u c) s of
         (s', Written) \<Rightarrow> (s', Inr [(''applied'', JBool True)])
       | (s', Refused it) \<Rightarrow>
           (s', Inr ((''applied'', JBool False) #
             (case reason of None \<Rightarrow> [] | Some why \<Rightarrow> [(''reason'', JStr (why it))])))
       | (s', out) \<Rightarrow> (s', Inl (ClientCrash (error_code out))))"

definition read_record_answer ::
  "('s, 'o) broker_env \<Rightarrow> string \<Rightarrow> 's \<Rightarrow> (crash, answer) result" where
  "read_record_answer e sid s =
     and_then (broker_item e sid s) (\<lambda>it. Inr
       [(''lastCheckpointGeneration'',
           case attr_n it ''lastCheckpointGeneration'' of None \<Rightarrow> JNull | Some g \<Rightarrow> JInt g),
        (''runtimeSessionId'', opt_json (attr_s it ''runtimeSessionId'')),
        (''state'', opt_json (attr_s it ''state''))])"

definition init_owner :: "answer \<Rightarrow> (crash, string) result" where
  "init_owner event = (case get_key event ''initOwner'' of
     JStr owner \<Rightarrow>
       if init_owner_pattern owner then Inr owner
       else Inl (ValueCrash ''Invalid initialization owner.'')
   | _ \<Rightarrow> Inl (ValueCrash ''Invalid initialization owner.''))"

definition diagnostic :: "answer \<Rightarrow> string \<Rightarrow> (crash, string) result" where
  "diagnostic event name = (case get_default event name (JStr ''UNKNOWN'') of
     JStr v \<Rightarrow>
       if diagnostic_pattern v then Inr v
       else Inl (ValueCrash ''Invalid initialization diagnostic.'')
   | _ \<Rightarrow> Inl (ValueCrash ''Invalid initialization diagnostic.''))"

text \<open>The payload signed as in \<open>issue_token\<close>; the message of a missing signature differs.\<close>

definition sign_claims :: "('s, 'o) broker_env \<Rightarrow> answer \<Rightarrow> string \<Rightarrow> (crash, string) result" where
  "sign_claims e claims missing =
     (let payload = base64url (json_dumps (JObj claims)) in
      and_then (env_var e ''BINDING_KEY_ARN'') (\<lambda>_.
        case kms_sign (be_kms e) payload of
          Inl code \<Rightarrow> Inl (ClientCrash code)
        | Inr None \<Rightarrow> Inl (RuntimeErr missing)
        | Inr (Some sig) \<Rightarrow> Inr (payload @ ''.'' @ base64url sig)))"

definition runtime_session_token ::
  "('s, 'o) broker_env \<Rightarrow> answer \<Rightarrow> time \<Rightarrow> (crash, string) result" where
  "runtime_session_token e claims now =
     and_then (env_var e ''BINDING_AUDIENCE'') (\<lambda>audience.
       sign_claims e
         [(''aud'', JStr audience), (''exp'', JInt (epoch (now + seconds (be_session_ttl e)))),
          (''iat'', JInt (epoch now)),
          (''runtimeSessionId'', get_key claims ''runtimeSessionId''),
          (''sandboxId'', get_key claims ''sandboxId''),
          (''subjectHash'', get_key claims ''subjectHash''), (''type'', JStr ''runtime-session'')]
         ''Runtime session token signature is unavailable.'')"

subsection \<open>Initialization\<close>

text \<open>
  \<open>_claim_rejection\<close>. The rejecting item of a record that does not exist has no
  attributes, its key included.
\<close>

definition claim_rejection :: "string \<Rightarrow> int \<Rightarrow> string \<Rightarrow> item \<Rightarrow> string" where
  "claim_rejection owner now_epoch deadline it =
     (if it ''pk'' = None then ''Sandbox initialization could not be claimed.''
      else if (case (attr_s it ''initOwner'', attr_n it ''initExpiresAt'') of
          (Some o', Some expires) \<Rightarrow> o' \<noteq> [] \<and> o' \<noteq> owner \<and> now_epoch \<le> expires
        | _ \<Rightarrow> False)
      then ''Another container owns this sandbox initialization.''
      else if attr_s it ''state'' = Some ''READY'' \<and>
          (case attr_s it ''leaseExpiresAt'' of None \<Rightarrow> False | Some lease \<Rightarrow> deadline \<le> lease)
      then ''A live container still holds this sandbox; its lease has not expired.''
      else (case attr_s it ''state'' of
          None \<Rightarrow> ''Sandbox initialization could not be claimed.''
        | Some st \<Rightarrow>
            if st = [] then ''Sandbox initialization could not be claimed.''
            else ''Sandbox is not claimable from state '' @ st @ ''.''))"

definition holder_unreachable :: "string \<Rightarrow> time \<Rightarrow> cond" where
  "holder_unreachable owner now =
     all_of [AttributeExists ''holderInstance'', Differs ''holderInstance'' (AttrS owner),
             Below ''lastServedAt'' (AttrS (timestamp (now - TAKEOVER_IDLE)))]"

definition acquire_condition :: "string \<Rightarrow> string \<Rightarrow> time \<Rightarrow> cond" where
  "acquire_condition session owner now =
     all_of
       [Equals ''runtimeSessionId'' (AttrS session),
        Either (OneOf ''state'' [AttrS ''STARTING'', AttrS ''RESTORING''])
          (Both (Equals ''state'' (AttrS ''READY''))
            (any_of [AttributeNotExists ''leaseExpiresAt'',
                     Below ''leaseExpiresAt'' (AttrS (timestamp now)),
                     holder_unreachable owner now])),
        any_of [AttributeNotExists ''initOwner'', Equals ''initOwner'' (AttrS owner),
                Below ''initExpiresAt'' (AttrN (epoch now))]]"

definition acquire_update :: "string \<Rightarrow> time \<Rightarrow> update" where
  "acquire_update owner now =
     \<lparr>up_set = [(''state'', AttrS ''RESTORING''), (''initOwner'', AttrS owner),
        (''initExpiresAt'', AttrN (epoch now + 90)), (''holderInstance'', AttrS owner),
        (''updatedAt'', AttrS (timestamp now))],
      up_add = [(''stateVersion'', 1)],
      up_remove = [''restoreProgress'']\<rparr>"

definition broker_applied :: "answer \<Rightarrow> bool" where
  "broker_applied result = (get_key result ''applied'' = JBool True)"

definition acquire_init ::
  "('s, 'o) broker_env \<Rightarrow> string \<Rightarrow> answer \<Rightarrow> answer \<Rightarrow> time \<Rightarrow> 's \<Rightarrow> 's \<times> (crash, answer) result" where
  "acquire_init e sid claims event now s =
     trying s (init_owner event) (\<lambda>owner.
     trying s (claims_session claims) (\<lambda>session.
       case conditional_update e sid (acquire_update owner now) (acquire_condition session owner now)
              (Some (claim_rejection owner (epoch now) (timestamp now))) s of
         (s', Inl x) \<Rightarrow> (s', Inl x)
       | (s', Inr result) \<Rightarrow>
           if broker_applied result
           then (s', and_then (runtime_session_token e claims now) (\<lambda>token.
             Inr (result @ [(''runtimeSessionToken'', JStr token)])))
           else (s', Inr result)))"

text \<open>\<open>_restore_progress\<close>: a malformed value is dropped, never raised.\<close>

definition progress_count :: "answer \<Rightarrow> string \<Rightarrow> int option" where
  "progress_count value name = (case get_key value name of
     JInt n \<Rightarrow> if 0 \<le> n \<and> n \<le> MAX_PROGRESS_COUNT then Some n else None
   | _ \<Rightarrow> None)"

definition heartbeat_progress :: "answer \<Rightarrow> string option" where
  "heartbeat_progress event = (case get_key event ''restoreProgress'' of
     JObj value \<Rightarrow>
       if set (map fst value) \<noteq> {''chunksDone'', ''chunksTotal'', ''files''} then None
       else (case (progress_count value ''chunksDone'', progress_count value ''chunksTotal'',
                   progress_count value ''files'') of
           (Some n_done, Some n_total, Some files) \<Rightarrow>
             if n_total < n_done then None
             else Some (json_dumps (JObj [(''chunksDone'', JInt n_done), (''chunksTotal'', JInt n_total),
                                          (''files'', JInt files)]))
         | _ \<Rightarrow> None)
   | _ \<Rightarrow> None)"

definition init_beat_update :: "string option \<Rightarrow> time \<Rightarrow> update" where
  "init_beat_update progress now =
     \<lparr>up_set = [(''initExpiresAt'', AttrN (epoch now + 90)), (''updatedAt'', AttrS (timestamp now))] @
        (case progress of None \<Rightarrow> [] | Some p \<Rightarrow> [(''restoreProgress'', AttrS p)]),
      up_add = [], up_remove = []\<rparr>"

definition heartbeat_init ::
  "('s, 'o) broker_env \<Rightarrow> string \<Rightarrow> answer \<Rightarrow> time \<Rightarrow> 's \<Rightarrow> 's \<times> (crash, answer) result" where
  "heartbeat_init e sid event now s =
     trying s (init_owner event) (\<lambda>owner.
       conditional_update e sid (init_beat_update (heartbeat_progress event) now)
         (Equals ''initOwner'' (AttrS owner)) None s)"

subsection \<open>The serving lease\<close>

text \<open>
  \<open>_served_at\<close>: no later than now. \<open>datetime.fromtimestamp\<close> raises past the year 9999.
\<close>

definition served_at :: "answer \<Rightarrow> time \<Rightarrow> (crash, string option) result" where
  "served_at event now = (case get_key event ''servedAt'' of
     JNull \<Rightarrow> Inr None
   | JInt value \<Rightarrow>
       if value \<le> 0 then Inl (ValueCrash ''Invalid served-at timestamp.'')
       else if 253402300800 \<le> value then Inl (ValueCrash ''year is out of range'')
       else Inr (Some (timestamp (min (seconds value) now)))
   | _ \<Rightarrow> Inl (ValueCrash ''Invalid served-at timestamp.''))"

definition same_holder :: "string \<Rightarrow> cond" where
  "same_holder instance_id =
     Either (AttributeNotExists ''holderInstance'') (Equals ''holderInstance'' (AttrS instance_id))"

definition lease_beat_update :: "string option \<Rightarrow> time \<Rightarrow> update" where
  "lease_beat_update served now =
     \<lparr>up_set = [(''leaseExpiresAt'', AttrS (timestamp (now + seconds 90))),
        (''updatedAt'', AttrS (timestamp now))] @
        (case served of None \<Rightarrow> [] | Some v \<Rightarrow> [(''lastServedAt'', AttrS v)]),
      up_add = [], up_remove = []\<rparr>"

definition heartbeat_lease ::
  "('s, 'o) broker_env \<Rightarrow> string \<Rightarrow> answer \<Rightarrow> answer \<Rightarrow> time \<Rightarrow> 's \<Rightarrow> 's \<times> (crash, answer) result" where
  "heartbeat_lease e sid claims event now s =
     trying s (claims_session claims) (\<lambda>session.
     trying s (if get_key event ''initOwner'' = JNull then Inr [Equals ''leaseOwner'' (AttrS session)]
               else and_then (init_owner event) (\<lambda>instance_id.
                 Inr [Equals ''leaseOwner'' (AttrS session), same_holder instance_id])) (\<lambda>conditions.
     trying s (served_at event now) (\<lambda>served.
       conditional_update e sid (lease_beat_update served now)
         (all_of conditions) None s)))"

definition heal_update :: "time \<Rightarrow> update" where
  "heal_update now =
     \<lparr>up_set = [(''state'', AttrS ''READY''), (''updatedAt'', AttrS (timestamp now))],
      up_add = [(''stateVersion'', 1)], up_remove = []\<rparr>"

definition heal_ready ::
  "('s, 'o) broker_env \<Rightarrow> string \<Rightarrow> answer \<Rightarrow> time \<Rightarrow> 's \<Rightarrow> 's \<times> (crash, answer) result" where
  "heal_ready e sid claims now s =
     trying s (claims_session claims) (\<lambda>session.
       conditional_update e sid (heal_update now)
         (all_of [Equals ''runtimeSessionId'' (AttrS session), OneOf ''state'' [AttrS ''STARTING'']])
         None s)"

definition ready_update :: "string \<Rightarrow> string \<Rightarrow> string \<Rightarrow> time \<Rightarrow> update" where
  "ready_update session owner outcome now =
     \<lparr>up_set = [(''state'', AttrS ''READY''), (''lastRestore'', AttrS (str_upper outcome)),
        (''updatedAt'', AttrS (timestamp now)), (''leaseOwner'', AttrS session),
        (''leaseExpiresAt'', AttrS (timestamp (now + seconds 90))),
        (''holderInstance'', AttrS owner), (''lastServedAt'', AttrS (timestamp now))],
      up_add = [(''stateVersion'', 1)],
      up_remove = [''initOwner'', ''initExpiresAt'']\<rparr>"

definition mark_ready ::
  "('s, 'o) broker_env \<Rightarrow> string \<Rightarrow> answer \<Rightarrow> answer \<Rightarrow> time \<Rightarrow> 's \<Rightarrow> 's \<times> (crash, answer) result" where
  "mark_ready e sid claims event now s =
     trying s (init_owner event) (\<lambda>owner.
       case get_key event ''restoreOutcome'' of
         JStr outcome \<Rightarrow>
           if \<not> restore_outcome_pattern outcome
           then (s, Inl (ValueCrash ''Invalid restore outcome.''))
           else trying s (claims_session claims) (\<lambda>session.
             conditional_update e sid (ready_update session owner outcome now)
               (all_of [Equals ''runtimeSessionId'' (AttrS session), Equals ''initOwner'' (AttrS owner)])
               None s)
       | _ \<Rightarrow> (s, Inl (ValueCrash ''Invalid restore outcome.'')))"

definition error_update :: "string \<Rightarrow> string \<Rightarrow> string \<Rightarrow> time \<Rightarrow> update" where
  "error_update detail failure upstream now =
     \<lparr>up_set = [(''state'', AttrS ''ERROR''), (''lastInitializationFailure'', AttrS failure),
        (''lastInitializationFailureDetail'', AttrS detail),
        (''lastInitializationFailureException'', AttrS upstream),
        (''updatedAt'', AttrS (timestamp now))],
      up_add = [(''stateVersion'', 1)], up_remove = [''initOwner'', ''initExpiresAt'']\<rparr>"

definition mark_error ::
  "('s, 'o) broker_env \<Rightarrow> string \<Rightarrow> answer \<Rightarrow> answer \<Rightarrow> time \<Rightarrow> 's \<Rightarrow> 's \<times> (crash, answer) result" where
  "mark_error e sid claims event now s =
     trying s (diagnostic event ''failureDetail'') (\<lambda>detail.
     trying s (diagnostic event ''failureType'') (\<lambda>failure.
     trying s (claims_session claims) (\<lambda>session.
     trying s (diagnostic event ''upstreamException'') (\<lambda>upstream.
     trying s (if get_key event ''initOwner'' = JNull
               then Inr (OneOf ''state'' [AttrS ''STARTING'', AttrS ''RESTORING''])
               else and_then (init_owner event) (\<lambda>owner. Inr (Equals ''initOwner'' (AttrS owner)))) (\<lambda>mine.
       conditional_update e sid (error_update detail failure upstream now)
         (all_of [Equals ''runtimeSessionId'' (AttrS session), mine]) None s)))))"

subsection \<open>Storage grants\<close>

definition checkpoint_context :: "string \<Rightarrow> kms_context" where
  "checkpoint_context sid =
     [(''application'', ''kirocrew-agentcore''), (''purpose'', ''sandbox-checkpoint''), (''sandboxId'', sid)]"

text \<open>\<open>base64.b64encode(json.dumps(context, sort_keys=True).encode())\<close>; the ids need no escape.\<close>

definition encoded_context :: "string \<Rightarrow> string" where
  "encoded_context sid =
     base64 ([CHR 0x7B, CHR 0x22] @ ''application'' @ [CHR 0x22] @ '': '' @ [CHR 0x22] @
       ''kirocrew-agentcore'' @ [CHR 0x22] @ '', '' @ [CHR 0x22] @ ''purpose'' @ [CHR 0x22] @ '': '' @
       [CHR 0x22] @ ''sandbox-checkpoint'' @ [CHR 0x22] @ '', '' @ [CHR 0x22] @ ''sandboxId'' @
       [CHR 0x22] @ '': '' @ [CHR 0x22] @ sid @ [CHR 0x22, CHR 0x7D])"

definition object_prefix :: "string \<Rightarrow> string" where
  "object_prefix sid = ''sandboxes/'' @ sid @ ''/''"

definition open_data_key ::
  "('s, 'o) broker_env \<Rightarrow> string \<Rightarrow> string \<Rightarrow> (crash, answer) result" where
  "open_data_key e sid stored = (case json_loads stored of
     None \<Rightarrow> Inl (ValueCrash ''invalid JSON'')
   | Some value \<Rightarrow>
       (case (case value of JObj members \<Rightarrow> as_str (get_key members ''ciphertext'') | _ \<Rightarrow> None) of
          None \<Rightarrow> Inl (RuntimeErr ''Stored data key is invalid.'')
        | Some encrypted \<Rightarrow>
            and_then (env_var e ''KMS_KEY_ARN'') (\<lambda>key_id.
              case unbase64 encrypted of
                None \<Rightarrow> Inl (ValueCrash ''invalid base64'')
              | Some ciphertext \<Rightarrow>
                  (case kms_decrypt (be_vault e) key_id (checkpoint_context sid) ciphertext of
                     Inl code \<Rightarrow> Inl (ClientCrash code)
                   | Inr None \<Rightarrow> Inl (KeyErr ''Plaintext'')
                   | Inr (Some plaintext) \<Rightarrow> Inr [(''plaintextKey'', JStr (base64 plaintext))]))))"

definition stored_data_key :: "string \<Rightarrow> string" where
  "stored_data_key ciphertext =
     json_dumps (JObj [(''ciphertext'', JStr (base64 ciphertext)), (''schemaVersion'', JInt 1)])"

definition create_data_key ::
  "('s, 'o) broker_env \<Rightarrow> string \<Rightarrow> string \<Rightarrow> string \<Rightarrow> 'o \<Rightarrow> 'o \<times> (crash, answer) result" where
  "create_data_key e sid bucket key ob =
     trying ob (env_var e ''KMS_KEY_ARN'') (\<lambda>key_id.
       case generate_data_key (be_vault e) key_id (checkpoint_context sid) of
         Inl code \<Rightarrow> (ob, Inl (ClientCrash code))
       | Inr (plaintext, ciphertext) \<Rightarrow>
           (case s3_put_new (be_s3 e) bucket key (stored_data_key ciphertext) ob of
              (ob', Inr _) \<Rightarrow> (ob', Inr [(''plaintextKey'', JStr (base64 plaintext))])
            | (ob', Inl code) \<Rightarrow>
                if code \<notin> {''ConditionalRequestConflict'', ''PreconditionFailed''}
                then (ob', Inl (ClientCrash code))
                else (case s3_get_object (be_s3 e) bucket key ob' of
                    Inl code' \<Rightarrow> (ob', Inl (ClientCrash code'))
                  | Inr stored \<Rightarrow> (ob', open_data_key e sid stored))))"

definition data_key ::
  "('s, 'o) broker_env \<Rightarrow> string \<Rightarrow> 'o \<Rightarrow> 'o \<times> (crash, answer) result" where
  "data_key e sid ob =
     trying ob (env_var e ''CHECKPOINT_BUCKET'') (\<lambda>bucket.
       let key = object_prefix sid @ ''data-key.json'' in
       case s3_get_object (be_s3 e) bucket key ob of
         Inr stored \<Rightarrow> (ob, open_data_key e sid stored)
       | Inl code \<Rightarrow>
           if code \<notin> {''NoSuchKey'', ''404''} then (ob, Inl (ClientCrash code))
           else create_data_key e sid bucket key ob)"

definition object_name :: "string \<Rightarrow> string \<Rightarrow> (crash, string) result" where
  "object_name category name =
     (if (category = ''chunks'' \<and> ends_with name ''.bin'' \<and> digest_pattern (remove_suffix name ''.bin''))
         \<or> (category = ''manifests'' \<and> generation_object name \<and> ends_with name ''.json.enc'')
         \<or> (category = ''commits'' \<and> generation_object name \<and> ends_with name ''.json'')
      then Inr (category @ ''/'' @ name)
      else Inl (ValueCrash ''Invalid checkpoint object name.''))"

text \<open>The parameters a PUT adds to the signature, and the headers its caller has to send.\<close>

definition put_params :: "string \<Rightarrow> string \<Rightarrow> string \<Rightarrow> (string \<times> string) list" where
  "put_params key_id sid category =
     [(''ServerSideEncryption'', ''aws:kms''), (''SSEKMSKeyId'', key_id),
      (''SSEKMSEncryptionContext'', encoded_context sid)] @
     (if category \<in> {''commits'', ''manifests''} then [(''IfNoneMatch'', ''*'')] else [])"

definition put_headers :: "string \<Rightarrow> string \<Rightarrow> string \<Rightarrow> (string \<times> json) list" where
  "put_headers key_id sid category =
     [(''x-amz-server-side-encryption'', JStr ''aws:kms''),
      (''x-amz-server-side-encryption-aws-kms-key-id'', JStr key_id),
      (''x-amz-server-side-encryption-context'', JStr (encoded_context sid))] @
     (if category \<in> {''commits'', ''manifests''} then [(''If-None-Match'', JStr ''*'')] else [])"

definition presign_operation :: "string \<Rightarrow> string option" where
  "presign_operation method =
     (if method = ''GET'' then Some ''get_object''
      else if method = ''HEAD'' then Some ''head_object''
      else if method = ''PUT'' then Some ''put_object'' else None)"

definition presign ::
  "('s, 'o) broker_env \<Rightarrow> string \<Rightarrow> answer \<Rightarrow> time \<Rightarrow> (crash, answer) result" where
  "presign e sid event now =
     (case (get_key event ''category'', get_key event ''name'', get_key event ''method'') of
        (JStr category, JStr name, JStr method) \<Rightarrow>
          (case presign_operation method of
             None \<Rightarrow> Inl (ValueCrash ''Invalid checkpoint operation.'')
           | Some operation \<Rightarrow>
               and_then (object_name category name) (\<lambda>suffix.
               and_then (env_var e ''CHECKPOINT_BUCKET'') (\<lambda>bucket.
               and_then (if method = ''PUT'' then map_sum id Some (env_var e ''KMS_KEY_ARN'') else Inr None) (\<lambda>key_id.
                 Inr [(''expiresAt'', JStr (timestamp (now + URL_TTL))),
                      (''headers'', JObj (case key_id of None \<Rightarrow> [] | Some k \<Rightarrow> put_headers k sid category)),
                      (''method'', JStr method),
                      (''url'', JStr (s3_presigned_url (be_s3 e)
                         \<lparr>pr_operation = operation,
                          pr_params = [(''Bucket'', bucket), (''Key'', object_prefix sid @ suffix)] @
                            (case key_id of None \<Rightarrow> [] | Some k \<Rightarrow> put_params k sid category),
                          pr_expires_in = epoch URL_TTL, pr_method = method\<rparr>))]))))
      | _ \<Rightarrow> Inl (ValueCrash ''Invalid checkpoint operation.''))"

fun presign_all ::
  "('s, 'o) broker_env \<Rightarrow> string \<Rightarrow> string \<Rightarrow> time \<Rightarrow> string list \<Rightarrow> (crash, json list) result" where
  "presign_all e sid method now [] = Inr []"
| "presign_all e sid method now (name # names) =
     and_then (presign e sid
       [(''category'', JStr ''chunks''), (''name'', JStr name), (''method'', JStr method)] now) (\<lambda>grant.
     and_then (presign_all e sid method now names) (\<lambda>grants.
       Inr (JObj ((''name'', JStr name) # grant) # grants)))"

definition presign_batch ::
  "('s, 'o) broker_env \<Rightarrow> string \<Rightarrow> answer \<Rightarrow> time \<Rightarrow> (crash, answer) result" where
  "presign_batch e sid event now =
     (case (get_key event ''names'', get_key event ''method'') of
        (JList names, JStr method) \<Rightarrow>
          if names = [] \<or> MAX_BATCH_GRANTS < length names \<or> \<not> list_all (\<lambda>v. as_str v \<noteq> None) names
             \<or> method \<notin> {''GET'', ''PUT''}
          then Inl (ValueCrash ''Invalid checkpoint batch operation.'')
          else and_then (presign_all e sid method now (List.map_filter as_str names)) (\<lambda>grants.
            Inr [(''grants'', JList grants)])
      | _ \<Rightarrow> Inl (ValueCrash ''Invalid checkpoint batch operation.''))"

definition list_objects ::
  "('s, 'o) broker_env \<Rightarrow> string \<Rightarrow> answer \<Rightarrow> 'o \<Rightarrow> (crash, answer) result" where
  "list_objects e sid event ob =
     (case get_key event ''category'' of
        JStr category \<Rightarrow>
          if category \<notin> {''chunks'', ''manifests'', ''commits''}
          then Inl (ValueCrash ''Invalid checkpoint category.'')
          else
            let prefix = object_prefix sid @ category @ ''/'' in
            and_then (case get_key event ''name'' of
                JNull \<Rightarrow> Inr prefix
              | JStr name \<Rightarrow> and_then (object_name category name) (\<lambda>suffix. Inr (object_prefix sid @ suffix))
              | _ \<Rightarrow> Inl (ValueCrash ''Invalid checkpoint object name.'')) (\<lambda>scan.
            and_then (env_var e ''CHECKPOINT_BUCKET'') (\<lambda>bucket.
              case s3_list_keys (be_s3 e) bucket scan ob of
                Inl code \<Rightarrow> Inl (ClientCrash code)
              | Inr keys \<Rightarrow>
                  Inr [(''names'', JList (map JStr (sort (map (\<lambda>k. remove_prefix k prefix)
                    (filter (\<lambda>k. starts_with k prefix) keys)))))]))
      | _ \<Rightarrow> Inl (ValueCrash ''Invalid checkpoint category.''))"

subsection \<open>Checkpoint receipts\<close>

record receipt_request =
  rq_generation :: int
  rq_digest :: string
  rq_session :: string
  rq_subject :: string
  rq_final :: bool
  rq_base :: "int option"

definition invalid_receipt_request :: crash where
  "invalid_receipt_request = ValueCrash ''Invalid checkpoint receipt request.''"

text \<open>The validation of \<open>_checkpoint_receipt\<close>; \<open>baseGeneration\<close> may be absent.\<close>

definition base_generation :: "answer \<Rightarrow> int \<Rightarrow> (crash, int option) result" where
  "base_generation event generation = (case get_key event ''baseGeneration'' of
     JNull \<Rightarrow> Inr None
   | JInt b \<Rightarrow> if b < 0 \<or> generation \<le> b then Inl invalid_receipt_request else Inr (Some b)
   | _ \<Rightarrow> Inl invalid_receipt_request)"

definition receipt_request_of :: "answer \<Rightarrow> answer \<Rightarrow> (crash, receipt_request) result" where
  "receipt_request_of claims event =
     (case (get_key event ''generation'', get_key event ''manifestDigest'',
            get_key event ''runtimeSessionId'', get_key claims ''subjectHash'',
            get_default event ''final'' (JBool True)) of
        (JInt generation, JStr digest, JStr session, JStr subject, JBool final) \<Rightarrow>
          if generation \<le> 0 \<or> \<not> digest_pattern digest \<or> \<not> digest_pattern subject
          then Inl invalid_receipt_request
          else and_then (base_generation event generation) (\<lambda>base.
            Inr \<lparr>rq_generation = generation, rq_digest = digest, rq_session = session,
                 rq_subject = subject, rq_final = final, rq_base = base\<rparr>)
      | _ \<Rightarrow> Inl invalid_receipt_request)"

text \<open>The commit record in the bucket must exist and name this generation and manifest.\<close>

definition committed_at :: "string \<Rightarrow> receipt_request \<Rightarrow> (crash, string) result" where
  "committed_at raw_commit rq = (case json_loads raw_commit of
     None \<Rightarrow> Inl (ValueCrash ''Committed checkpoint metadata is invalid.'')
   | Some (JObj commit) \<Rightarrow>
       if \<not> py_eq (get_key commit ''generation'') (JInt (rq_generation rq))
          \<or> get_key commit ''manifestDigest'' \<noteq> JStr (rq_digest rq)
       then Inl (ValueCrash ''Committed checkpoint metadata does not match.'')
       else (case get_key commit ''committedAt'' of
           JStr created \<Rightarrow> Inr created
         | _ \<Rightarrow> Inl (ValueCrash ''Committed checkpoint timestamp is invalid.''))
   | Some _ \<Rightarrow> Inl (ValueCrash ''Committed checkpoint metadata does not match.''))"

text \<open>\<open>_schedule_hints\<close>: the attributes a receipt may carry for the scheduler.\<close>

definition due_hints :: "answer \<Rightarrow> time \<Rightarrow> (crash, (string \<times> attr) list) result" where
  "due_hints event now = (case get_key event ''nextDueAt'' of
     JNull \<Rightarrow> Inr []
   | JInt due \<Rightarrow>
       if due < 0 \<or> epoch (now + MAX_DUE_AHEAD) < due then Inl invalid_receipt_request
       else (case get_default event ''nextDueJob'' (JStr []) of
           JStr job \<Rightarrow>
             if job_id_pattern job
             then Inr [(''nextDueAt'', AttrN due), (''nextDueJob'', AttrS job)]
             else Inl invalid_receipt_request
         | _ \<Rightarrow> Inl invalid_receipt_request)
   | _ \<Rightarrow> Inl invalid_receipt_request)"

definition restore_hint :: "answer \<Rightarrow> (crash, (string \<times> attr) list) result" where
  "restore_hint event = (case get_key event ''restoreSeconds'' of
     JNull \<Rightarrow> Inr []
   | JInt n \<Rightarrow>
       if n < 0 \<or> 3600 < n then Inl invalid_receipt_request
       else Inr [(''restoreSeconds'', AttrN n)]
   | _ \<Rightarrow> Inl invalid_receipt_request)"

definition schedule_hints :: "answer \<Rightarrow> time \<Rightarrow> (crash, (string \<times> attr) list) result" where
  "schedule_hints event now =
     and_then (due_hints event now) (\<lambda>due.
     and_then (restore_hint event) (\<lambda>restore. Inr (due @ restore)))"

definition receipt_holder :: "answer \<Rightarrow> (crash, string option) result" where
  "receipt_holder event = (case get_key event ''holderInstance'' of
     JNull \<Rightarrow> Inr None
   | JStr holder \<Rightarrow> if init_owner_pattern holder then Inr (Some holder) else Inl invalid_receipt_request
   | _ \<Rightarrow> Inl invalid_receipt_request)"

definition advance_condition :: "receipt_request \<Rightarrow> cond" where
  "advance_condition rq =
     any_of
       [AttributeNotExists ''lastCheckpointGeneration'',
        (case rq_base rq of
           None \<Rightarrow> Below ''lastCheckpointGeneration'' (AttrN (rq_generation rq))
         | Some base \<Rightarrow> AtMost ''lastCheckpointGeneration'' (AttrN base)),
        Both (Equals ''lastCheckpointGeneration'' (AttrN (rq_generation rq)))
          (Equals ''lastCheckpointManifestDigest'' (AttrS (rq_digest rq)))]"

definition receipt_states :: "bool \<Rightarrow> attr list" where
  "receipt_states final =
     (if final then [AttrS ''READY'', AttrS ''CHECKPOINTING'', AttrS ''STOPPING'']
      else [AttrS ''READY'', AttrS ''BUSY'', AttrS ''CHECKPOINTING''])"

definition receipt_condition :: "receipt_request \<Rightarrow> string option \<Rightarrow> cond" where
  "receipt_condition rq holder =
     all_of ([Equals ''runtimeSessionId'' (AttrS (rq_session rq))] @
       (case holder of None \<Rightarrow> [] | Some instance_id \<Rightarrow> [same_holder instance_id]) @
       [OneOf ''state'' (receipt_states (rq_final rq)), advance_condition rq])"

definition receipt_update :: "receipt_request \<Rightarrow> (string \<times> attr) list \<Rightarrow> time \<Rightarrow> update" where
  "receipt_update rq hints now =
     \<lparr>up_set = (if rq_final rq then [(''state'', AttrS ''STOPPING'')] else []) @
        [(''lastCheckpointGeneration'', AttrN (rq_generation rq)),
         (''lastCheckpointManifestDigest'', AttrS (rq_digest rq)),
         (''updatedAt'', AttrS (timestamp now))] @ hints,
      up_add = [(''stateVersion'', 1)], up_remove = []\<rparr>"

definition checkpoint_item :: "string \<Rightarrow> receipt_request \<Rightarrow> string \<Rightarrow> item" where
  "checkpoint_item sid rq created =
     [''pk'' \<mapsto> AttrS (sandbox_pk sid),
      ''sk'' \<mapsto> AttrS (''CHECKPOINT#'' @ format_int 20 (rq_generation rq)),
      ''createdAt'' \<mapsto> AttrS created, ''generation'' \<mapsto> AttrN (rq_generation rq),
      ''manifestDigest'' \<mapsto> AttrS (rq_digest rq), ''schemaVersion'' \<mapsto> AttrN 1,
      ''status'' \<mapsto> AttrS ''COMMITTED'']"

definition commit_key :: "string \<Rightarrow> int \<Rightarrow> string" where
  "commit_key sid generation = object_prefix sid @ ''commits/'' @ dec_int generation @ ''.json''"

definition receipt_token ::
  "('s, 'o) broker_env \<Rightarrow> string \<Rightarrow> receipt_request \<Rightarrow> time \<Rightarrow> (crash, answer) result" where
  "receipt_token e sid rq now =
     and_then (env_var e ''BINDING_AUDIENCE'') (\<lambda>audience.
     and_then (sign_claims e
         [(''aud'', JStr audience), (''exp'', JInt (epoch (now + RECEIPT_TTL))),
          (''generation'', JInt (rq_generation rq)), (''iat'', JInt (epoch now)),
          (''manifestDigest'', JStr (rq_digest rq)), (''runtimeSessionId'', JStr (rq_session rq)),
          (''sandboxId'', JStr sid), (''subjectHash'', JStr (rq_subject rq)),
          (''type'', JStr ''checkpoint-receipt'')]
         ''Checkpoint receipt signature is unavailable.'') (\<lambda>token.
       Inr [(''checkpointReceipt'', JStr token), (''generation'', JInt (rq_generation rq)),
            (''manifestDigest'', JStr (rq_digest rq))]))"

text \<open>Everything \<open>_checkpoint_receipt\<close> settles before it writes.\<close>

definition receipt_writes ::
  "('s, 'o) broker_env \<Rightarrow> string \<Rightarrow> answer \<Rightarrow> answer \<Rightarrow> time \<Rightarrow> 'o \<Rightarrow>
     (crash, receipt_request \<times> write_op list) result" where
  "receipt_writes e sid claims event now ob =
     and_then (receipt_request_of claims event) (\<lambda>rq.
     and_then (env_var e ''CHECKPOINT_BUCKET'') (\<lambda>bucket.
     and_then (map_sum ClientCrash id (s3_get_object (be_s3 e) bucket (commit_key sid (rq_generation rq)) ob)) (\<lambda>raw.
     and_then (committed_at raw rq) (\<lambda>created.
     and_then (env_var e ''SANDBOX_TABLE'') (\<lambda>_.
     and_then (schedule_hints event now) (\<lambda>hints.
     and_then (receipt_holder event) (\<lambda>holder.
       Inr (rq, [Update (record_key sid) (receipt_update rq hints now) (receipt_condition rq holder),
                 Put (checkpoint_item sid rq created) Always]))))))))"

definition checkpoint_receipt ::
  "('s, 'o) broker_env \<Rightarrow> string \<Rightarrow> answer \<Rightarrow> answer \<Rightarrow> time \<Rightarrow> 's \<Rightarrow> 'o \<Rightarrow> 's \<times> (crash, answer) result" where
  "checkpoint_receipt e sid claims event now s ob =
     trying s (receipt_writes e sid claims event now ob) (\<lambda>(rq, writes).
       case transact_items (be_db e) writes s of
         (s', Written) \<Rightarrow> (s', receipt_token e sid rq now)
       | (s', out) \<Rightarrow> (s', Inl (ClientCrash (error_code out))))"

subsection \<open>The handler\<close>

record ('s, 'o) broker_state =
  bs_table :: 's
  bs_objects :: 'o
  bs_config :: "tool_config option"

definition on_table ::
  "('s, 'o) broker_state \<Rightarrow> 's \<times> (crash, answer) result \<Rightarrow> ('s, 'o) broker_state \<times> (crash, answer) result" where
  "on_table st r = (st\<lparr>bs_table := fst r\<rparr>, snd r)"

definition on_objects ::
  "('s, 'o) broker_state \<Rightarrow> 'o \<times> (crash, answer) result \<Rightarrow> ('s, 'o) broker_state \<times> (crash, answer) result" where
  "on_objects st r = (st\<lparr>bs_objects := fst r\<rparr>, snd r)"

definition broker_operation ::
  "('s, 'o) broker_env \<Rightarrow> string \<Rightarrow> string \<Rightarrow> answer \<Rightarrow> answer \<Rightarrow> time \<Rightarrow> ('s, 'o) broker_state \<Rightarrow>
     ('s, 'o) broker_state \<times> (crash, answer) result" where
  "broker_operation e operation sid claims event now st =
     (let s = bs_table st; ob = bs_objects st in
      if operation = ''lease'' then (st, Inr [(''authorized'', JBool True)])
      else if operation = ''acquireInit'' then on_table st (acquire_init e sid claims event now s)
      else if operation = ''heartbeatInit'' then on_table st (heartbeat_init e sid event now s)
      else if operation = ''heartbeatLease'' then on_table st (heartbeat_lease e sid claims event now s)
      else if operation = ''healReady'' then on_table st (heal_ready e sid claims now s)
      else if operation = ''markReady'' then on_table st (mark_ready e sid claims event now s)
      else if operation = ''markError'' then on_table st (mark_error e sid claims event now s)
      else if operation = ''dataKey'' then on_objects st (data_key e sid ob)
      else if operation = ''presign'' then (st, presign e sid event now)
      else if operation = ''presignBatch'' then (st, presign_batch e sid event now)
      else if operation = ''list'' then (st, list_objects e sid event ob)
      else if operation = ''checkpointReceipt''
      then on_table st (checkpoint_receipt e sid claims event now s ob)
      else if operation = ''toolToken'' then
        (case issue_tool_token (be_tools e) (be_db e) sid s (bs_config st) of
           (cache, r) \<Rightarrow> (st\<lparr>bs_config := cache\<rparr>, r))
      else (st, Inl (ValueCrash ''Unsupported persistence broker operation.'')))"

text \<open>\<open>checked\<close> is the time of the authorization, \<open>now\<close> that of the operation.\<close>

definition broker_handler ::
  "('s, 'o) broker_env \<Rightarrow> time \<Rightarrow> time \<Rightarrow> answer \<Rightarrow> ('s, 'o) broker_state \<Rightarrow>
     ('s, 'o) broker_state \<times> (crash, answer) result" where
  "broker_handler e checked now event st =
     (if get_key event ''operation'' = JStr ''audit'' then (st, Inr [(''status'', JStr ''scheduled'')])
      else case get_key event ''bindingToken'' of
          JStr token \<Rightarrow>
            trying st (binding e checked token) (\<lambda>claims.
              if get_key event ''operation'' = JStr ''readRecord''
              then (st, and_then (claimed_sandbox claims event) (\<lambda>sid.
                read_record_answer e sid (bs_table st)))
              else trying st (authorize e claims event checked (bs_table st)) (\<lambda>sid.
                broker_operation e
                  (case get_key event ''operation'' of JStr operation \<Rightarrow> operation | _ \<Rightarrow> [])
                  sid claims event now st))
        | _ \<Rightarrow> (st, Inl (PermissionErr ''Runtime binding is required.'')))"

end
