(* ===== verification/BrokerSteps.thy ===== *)
theory BrokerSteps
  imports Broker
begin

text \<open>
  The broker as a transition system: \<open>broker_step\<close> has one rule per operation that writes the
  sandbox's record, its guard the condition expression and its effect the update expression.
  Every invocation of the broker refines one step (\<open>operation_step\<close>), and the
  properties of the record over any sequence of invocations follow by rule induction.
\<close>

subsection \<open>Steps\<close>

definition after_update :: "string \<Rightarrow> update \<Rightarrow> table \<Rightarrow> table" where
  "after_update sid u t = t(record_key sid \<mapsto> apply_update u (item_at t (record_key sid)))"

lemma after_update_simps [simp]:
  "after_update sid u t (record_key sid) = Some (apply_update u (item_at t (record_key sid)))"
  "k \<noteq> record_key sid \<Longrightarrow> after_update sid u t k = t k"
  "item_at (after_update sid u t) (record_key sid) = apply_update u (item_at t (record_key sid))"
  by (simp_all add: after_update_def)

definition request_ok :: "receipt_request \<Rightarrow> bool" where
  "request_ok rq = (0 < rq_generation rq \<and>
     (case rq_base rq of None \<Rightarrow> True | Some b \<Rightarrow> 0 \<le> b \<and> b < rq_generation rq))"

definition schedule_names :: "string set" where
  "schedule_names = {''nextDueAt'', ''nextDueJob'', ''restoreSeconds''}"

inductive broker_step :: "string \<Rightarrow> table \<Rightarrow> table \<Rightarrow> bool" for sid t where
  unchanged: "broker_step sid t t"
| acquire: "holds (acquire_condition session owner now) (item_at t (record_key sid)) \<Longrightarrow>
    broker_step sid t (after_update sid (acquire_update owner now) t)"
| init_beat: "holds (Equals ''initOwner'' (AttrS owner)) (item_at t (record_key sid)) \<Longrightarrow>
    broker_step sid t (after_update sid (init_beat_update progress now) t)"
| lease_beat: "holds (Equals ''leaseOwner'' (AttrS session)) (item_at t (record_key sid)) \<Longrightarrow>
    broker_step sid t (after_update sid (lease_beat_update served now) t)"
| heal: "holds (Equals ''state'' (AttrS ''STARTING'')) (item_at t (record_key sid)) \<Longrightarrow>
    broker_step sid t (after_update sid (heal_update now) t)"
| ready: "holds (Equals ''initOwner'' (AttrS owner)) (item_at t (record_key sid)) \<Longrightarrow>
    broker_step sid t (after_update sid (ready_update session owner outcome now) t)"
| failure: "broker_step sid t (after_update sid (error_update detail kind upstream now) t)"
| receipt: "holds (receipt_condition rq holder) (item_at t (record_key sid)) \<Longrightarrow>
    request_ok rq \<Longrightarrow> fst ` set hints \<subseteq> schedule_names \<Longrightarrow>
    broker_step sid t ((after_update sid (receipt_update rq hints now) t)
      (checkpoint_key sid (rq_generation rq) \<mapsto> checkpoint_item sid rq created))"

lemma checkpoint_key_not_record [simp]:
  "checkpoint_key sid g \<noteq> record_key sid'" "record_key sid' \<noteq> checkpoint_key sid g"
  by (simp_all add: checkpoint_key_def record_key_def)

subsection \<open>Every operation is a step\<close>

lemma conditional_update_step:
  assumes "dynamo_documented (be_db e)" "conditional_update e sid u c reason s = (s', r)"
  shows "table_of (be_db e) s' = table_of (be_db e) s \<or>
    holds c (item_at (table_of (be_db e) s) (record_key sid)) \<and>
    table_of (be_db e) s' = after_update sid u (table_of (be_db e) s)"
proof (cases "env_var e ''SANDBOX_TABLE''")
  case (Inl x)
  with assms(2) show ?thesis by (simp add: conditional_update_def)
next
  case (Inr x)
  obtain s'' out where w: "write_item (be_db e) (Update (record_key sid) u c) s = (s'', out)"
    by (cases "write_item (be_db e) (Update (record_key sid) u c) s")
  have "s'' = s'" using assms(2) w Inr by (simp add: conditional_update_def split: outcome.splits)
  with dynamo_write [OF assms(1) w] show ?thesis
    by (auto dest!: write_answer_cases simp: written_def allowed_def after_update_def)
qed

text \<open>A condition that does not hold leaves the table as it was, and is not answered \<open>applied\<close>.\<close>

lemma conditional_update_refused:
  assumes "dynamo_documented (be_db e)" "conditional_update e sid u c reason s = (s', r)"
    "\<not> holds c (item_at (table_of (be_db e) s) (record_key sid))"
  shows "table_of (be_db e) s' = table_of (be_db e) s \<and>
    (\<forall>result. r = Inr result \<longrightarrow> \<not> broker_applied result)"
proof (cases "env_var e ''SANDBOX_TABLE''")
  case (Inl x)
  with assms(2) show ?thesis by (auto simp: conditional_update_def)
next
  case (Inr x)
  obtain s'' out where w: "write_item (be_db e) (Update (record_key sid) u c) s = (s'', out)"
    by (cases "write_item (be_db e) (Update (record_key sid) u c) s")
  note a = dynamo_write [OF assms(1) w]
  from assms(2) w Inr a assms(3) show ?thesis
    by (cases out) (auto simp: conditional_update_def written_def allowed_def broker_applied_def)
qed

text \<open>An \<open>applied\<close> answer means that the condition held and the update was made.\<close>

lemma conditional_update_applied:
  assumes "dynamo_documented (be_db e)" "conditional_update e sid u c reason s = (s', Inr result)"
    "broker_applied result"
  shows "holds c (item_at (table_of (be_db e) s) (record_key sid)) \<and>
    table_of (be_db e) s' = after_update sid u (table_of (be_db e) s)"
proof (cases "env_var e ''SANDBOX_TABLE''")
  case (Inl x)
  with assms(2) show ?thesis by (auto simp: conditional_update_def)
next
  case (Inr x)
  obtain s'' out where w: "write_item (be_db e) (Update (record_key sid) u c) s = (s'', out)"
    by (cases "write_item (be_db e) (Update (record_key sid) u c) s")
  note a = dynamo_write [OF assms(1) w]
  from assms(2,3) w Inr a show ?thesis
    by (cases out) (auto simp: conditional_update_def written_def allowed_def broker_applied_def after_update_def)
qed

definition table_step :: "('s, 'o) broker_env \<Rightarrow> string \<Rightarrow> 's \<Rightarrow> 's \<Rightarrow> bool" where
  "table_step e sid s s' = broker_step sid (table_of (be_db e) s) (table_of (be_db e) s')"

lemma table_step_same [simp]: "table_step e sid s s"
  by (simp add: table_step_def broker_step.unchanged)

text \<open>A guarded update is a step as soon as its rule is one.\<close>

lemma table_stepI:
  assumes "dynamo_documented (be_db e)" "conditional_update e sid u c reason s = (s', r)"
    "holds c (item_at (table_of (be_db e) s) (record_key sid)) \<Longrightarrow>
      broker_step sid (table_of (be_db e) s) (after_update sid u (table_of (be_db e) s))"
  shows "table_step e sid s s'"
  using conditional_update_step [OF assms(1,2)] assms(3)
  by (auto simp: table_step_def broker_step.unchanged)

lemma acquire_init_step:
  assumes "dynamo_documented (be_db e)" "acquire_init e sid claims event now s = (s', r)"
  shows "table_step e sid s s'"
proof -
  { fix owner session
    obtain s'' x where c: "conditional_update e sid (acquire_update owner now)
        (acquire_condition session owner now)
        (Some (claim_rejection owner (epoch now) (timestamp now))) s = (s'', x)"
      by (cases "conditional_update e sid (acquire_update owner now)
        (acquire_condition session owner now)
        (Some (claim_rejection owner (epoch now) (timestamp now))) s")
    have "table_step e sid s s''"
      by (rule table_stepI [OF assms(1) c]) (rule broker_step.acquire)
    moreover assume "init_owner event = Inr owner" "claims_session claims = Inr session"
    then have "s' = s''"
      using assms(2) c by (auto simp: acquire_init_def split: sum.splits if_splits)
    ultimately have ?thesis by simp }
  then show ?thesis
    using assms(2) by (cases "init_owner event"; cases "claims_session claims") (auto simp: acquire_init_def)
qed

lemma heartbeat_init_step:
  assumes "dynamo_documented (be_db e)" "heartbeat_init e sid event now s = (s', r)"
  shows "table_step e sid s s'"
  using assms(2) unfolding heartbeat_init_def
  by (elim trying_elim) (auto intro: table_stepI [OF assms(1)] broker_step.init_beat)

lemma heartbeat_lease_step:
  assumes "dynamo_documented (be_db e)" "heartbeat_lease e sid claims event now s = (s', r)"
  shows "table_step e sid s s'"
  using assms(2) unfolding heartbeat_lease_def
proof (elim trying_elim)
  fix session conditions served
  assume c: "(if get_key event ''initOwner'' = JNull then Inr [Equals ''leaseOwner'' (AttrS session)]
      else and_then (init_owner event) (\<lambda>instance_id.
        Inr [Equals ''leaseOwner'' (AttrS session), same_holder instance_id])) = Inr conditions"
    and u: "conditional_update e sid (lease_beat_update served now) (all_of conditions) None s = (s', r)"
  have "Equals ''leaseOwner'' (AttrS session) \<in> set conditions"
    using c by (auto simp: and_then_Inr split: if_splits)
  then show ?thesis
    by (intro table_stepI [OF assms(1) u] broker_step.lease_beat [where session = session])
      (use holds_all_of in blast)
qed simp_all

lemma heal_ready_step:
  assumes "dynamo_documented (be_db e)" "heal_ready e sid claims now s = (s', r)"
  shows "table_step e sid s s'"
  using assms(2) unfolding heal_ready_def
  by (elim trying_elim)
    (auto intro!: table_stepI [OF assms(1)] broker_step.heal split: option.splits)

lemma mark_ready_step:
  assumes "dynamo_documented (be_db e)" "mark_ready e sid claims event now s = (s', r)"
  shows "table_step e sid s s'"
proof -
  { fix owner outcome session
    assume "conditional_update e sid (ready_update session owner outcome now)
      (all_of [Equals ''runtimeSessionId'' (AttrS session), Equals ''initOwner'' (AttrS owner)])
      None s = (s', r)"
    then have ?thesis
      by (rule table_stepI [OF assms(1)])
        (rule broker_step.ready [where owner = owner], simp) }
  note ready = this
  show ?thesis
    using assms(2) unfolding mark_ready_def
    by (elim trying_elim) (auto split: json.splits if_splits elim!: trying_elim intro: ready)
qed

lemma mark_error_step:
  assumes "dynamo_documented (be_db e)" "mark_error e sid claims event now s = (s', r)"
  shows "table_step e sid s s'"
  using assms(2) unfolding mark_error_def
  by (elim trying_elim) (auto intro: table_stepI [OF assms(1)] broker_step.failure)

lemma checkpoint_item_key: "item_key (checkpoint_item sid rq created) = checkpoint_key sid (rq_generation rq)"
  by (simp add: item_key_def attr_s_def checkpoint_item_def checkpoint_key_def)

lemma receipt_request_ok: "receipt_request_of claims event = Inr rq \<Longrightarrow> request_ok rq"
  by (auto simp: receipt_request_of_def and_then_Inr base_generation_def request_ok_def
      split: json.splits if_splits)

lemma schedule_hint_names: "schedule_hints event now = Inr hints \<Longrightarrow> fst ` set hints \<subseteq> schedule_names"
proof -
  assume "schedule_hints event now = Inr hints"
  then obtain due restore where d: "due_hints event now = Inr due"
    and r: "restore_hint event = Inr restore" and h: "hints = due @ restore"
    by (auto simp: schedule_hints_def and_then_Inr)
  have "fst ` set due \<subseteq> schedule_names"
    using d by (auto simp: due_hints_def schedule_names_def split: json.splits if_splits)
  moreover have "fst ` set restore \<subseteq> schedule_names"
    using r by (auto simp: restore_hint_def schedule_names_def split: json.splits if_splits)
  ultimately show ?thesis by (simp add: h image_Un)
qed

lemma receipt_writes_elim:
  assumes "receipt_writes e sid claims event now ob = Inr (rq, ws)"
  obtains raw bucket created hints holder where "receipt_request_of claims event = Inr rq"
    "env_var e ''CHECKPOINT_BUCKET'' = Inr bucket"
    "s3_get_object (be_s3 e) bucket (commit_key sid (rq_generation rq)) ob = Inr raw"
    "committed_at raw rq = Inr created" "schedule_hints event now = Inr hints"
    "receipt_holder event = Inr holder"
    "ws = [Update (record_key sid) (receipt_update rq hints now) (receipt_condition rq holder),
           Put (checkpoint_item sid rq created) Always]"
proof -
  have m: "map_sum ClientCrash id r = Inr x \<longleftrightarrow> r = Inr x" for r :: "string + string" and x
    by (cases r) auto
  show thesis using assms that by (auto simp: receipt_writes_def and_then_Inr m)
qed

lemma receipt_written:
  "written t [Update (record_key sid) u c, Put (checkpoint_item sid rq created) Always] t' \<longleftrightarrow>
    holds c (item_at t (record_key sid)) \<and>
    t' = (after_update sid u t)(checkpoint_key sid (rq_generation rq) \<mapsto> checkpoint_item sid rq created)"
  by (auto simp: written_def allowed_def checkpoint_item_key after_update_def)

lemma checkpoint_receipt_step:
  assumes "dynamo_documented (be_db e)" "checkpoint_receipt e sid claims event now s ob = (s', r)"
  shows "table_step e sid s s'"
  using assms(2) unfolding checkpoint_receipt_def
proof (elim trying_elim)
  fix p
  assume p: "receipt_writes e sid claims event now ob = Inr p"
  obtain rq ws where q: "p = (rq, ws)" by (cases p)
  assume "(case p of (rq, writes) \<Rightarrow> case transact_items (be_db e) writes s of
      (s', Written) \<Rightarrow> (s', receipt_token e sid rq now)
    | (s', out) \<Rightarrow> (s', Inl (ClientCrash (error_code out)))) = (s', r)"
  then obtain out where t: "transact_items (be_db e) ws s = (s', out)"
    by (cases "transact_items (be_db e) ws s") (auto simp: q split: outcome.splits)
  note a = transact_answer_cases [OF dynamo_transact [OF assms(1) t]]
  from p [unfolded q] show ?thesis
  proof (rule receipt_writes_elim)
    fix created hints holder
    assume f: "receipt_request_of claims event = Inr rq" "schedule_hints event now = Inr hints"
      and ws: "ws = [Update (record_key sid) (receipt_update rq hints now) (receipt_condition rq holder),
           Put (checkpoint_item sid rq created) Always]"
    from a show ?thesis
      unfolding ws receipt_written table_step_def
      by (auto intro!: broker_step.unchanged
          broker_step.receipt receipt_request_ok [OF f(1)] schedule_hint_names [OF f(2)])
  qed
qed simp_all

text \<open>The refinement: whatever an authorized operation does to the table is one step.\<close>

lemma operation_step:
  assumes "dynamo_documented (be_db e)"
    "broker_operation e operation sid claims event now st = (st', r)"
  shows "table_step e sid (bs_table st) (bs_table st')"
proof -
  note steps =
    acquire_init_step [OF assms(1) prod.collapse [symmetric]]
    heartbeat_init_step [OF assms(1) prod.collapse [symmetric]]
    heartbeat_lease_step [OF assms(1) prod.collapse [symmetric]]
    heal_ready_step [OF assms(1) prod.collapse [symmetric]]
    mark_ready_step [OF assms(1) prod.collapse [symmetric]]
    mark_error_step [OF assms(1) prod.collapse [symmetric]]
    checkpoint_receipt_step [OF assms(1) prod.collapse [symmetric]]
  show ?thesis
    using assms(2) unfolding broker_operation_def Let_def
    by (auto simp: on_table_def on_objects_def steps split: if_splits prod.splits)
qed

lemma handler_step:
  assumes "dynamo_documented (be_db e)" "broker_handler e checked now event st = (st', r)"
  obtains "st' = st" | token claims sid where
    "get_key event ''bindingToken'' = JStr token" "binding e checked token = Inr claims"
    "authorize e claims event checked (bs_table st) = Inr sid"
    "table_step e sid (bs_table st) (bs_table st')"
proof (cases "\<exists>token claims sid. get_key event ''bindingToken'' = JStr token \<and>
    binding e checked token = Inr claims \<and> authorize e claims event checked (bs_table st) = Inr sid \<and>
    st' \<noteq> st")
  case True
  then obtain token claims sid where f: "get_key event ''bindingToken'' = JStr token"
    "binding e checked token = Inr claims" "authorize e claims event checked (bs_table st) = Inr sid"
    "st' \<noteq> st" by blast
  have "broker_operation e (case get_key event ''operation'' of JStr operation \<Rightarrow> operation | _ \<Rightarrow> [])
      sid claims event now st = (st', r)"
    using assms(2) f by (auto simp: broker_handler_def split: if_splits)
  from f(1-3) operation_step [OF assms(1) this] show thesis by (rule that(2))
next
  case False
  then have "st' = st"
    using assms(2) unfolding broker_handler_def
    by (auto split: if_splits json.splits elim!: trying_elim)
  then show thesis by (rule that(1))
qed

subsection \<open>What a step does to the record\<close>

text \<open>
  Every update expression, folded out once: the attributes each one sets, counts up and drops.
\<close>

lemmas broker_updates = acquire_update_def init_beat_update_def lease_beat_update_def
  heal_update_def ready_update_def error_update_def receipt_update_def

lemmas update_effect = apply_update_def add_number_def

lemma fold_set_other: "k \<notin> fst ` set xs \<Longrightarrow> fold (\<lambda>p it. it(fst p \<mapsto> snd p)) xs it k = it k"
  for it :: item
  by (induction xs arbitrary: it) auto

lemma receipt_effect:
  assumes "fst ` set hints \<subseteq> schedule_names"
  shows "apply_update (receipt_update rq hints now) it ''lastCheckpointGeneration'' = Some (AttrN (rq_generation rq))"
    "apply_update (receipt_update rq hints now) it ''lastCheckpointManifestDigest'' = Some (AttrS (rq_digest rq))"
    "apply_update (receipt_update rq hints now) it ''stateVersion'' =
      Some (AttrN (1 + (case attr_n it ''stateVersion'' of None \<Rightarrow> 0 | Some n \<Rightarrow> n)))"
    "k \<notin> schedule_names \<Longrightarrow> k \<notin> {''state'', ''lastCheckpointGeneration'', ''lastCheckpointManifestDigest'',
       ''updatedAt'', ''stateVersion''} \<Longrightarrow> apply_update (receipt_update rq hints now) it k = it k"
proof -
  have n: "k \<notin> fst ` set hints" if "k \<notin> schedule_names" for k using assms that by blast
  have "''lastCheckpointGeneration'' \<notin> fst ` set hints"
    "''lastCheckpointManifestDigest'' \<notin> fst ` set hints" "''stateVersion'' \<notin> fst ` set hints"
    by (rule n, simp add: schedule_names_def)+
  note h = this [THEN fold_set_other]
  have a: "attr_n (fold (\<lambda>p it. it(fst p \<mapsto> snd p)) hints it') ''stateVersion'' = attr_n it' ''stateVersion''"
    for it' by (simp add: attr_n_def h)
  show "apply_update (receipt_update rq hints now) it ''lastCheckpointGeneration'' = Some (AttrN (rq_generation rq))"
    "apply_update (receipt_update rq hints now) it ''lastCheckpointManifestDigest'' = Some (AttrS (rq_digest rq))"
    "apply_update (receipt_update rq hints now) it ''stateVersion'' =
      Some (AttrN (1 + (case attr_n it ''stateVersion'' of None \<Rightarrow> 0 | Some n \<Rightarrow> n)))"
    by (simp_all add: receipt_update_def update_effect h a)
  assume "k \<notin> schedule_names" "k \<notin> {''state'', ''lastCheckpointGeneration'',
    ''lastCheckpointManifestDigest'', ''updatedAt'', ''stateVersion''}"
  then show "apply_update (receipt_update rq hints now) it k = it k"
    by (intro apply_update_frame) (auto simp: touched_def receipt_update_def dest: n)
qed

text \<open>What the broker never writes: the fields that name the sandbox, its session and its owner.\<close>

definition fixed_fields :: "string set" where
  "fixed_fields = {''pk'', ''sk'', ''ownerHash'', ''runtimeSessionId'', ''createdAt'', ''kiroAuthMode'',
     ''kiroCrewVersion'', ''activeRequestId'', ''deletionState'', ''wakeSubject''}"

lemma broker_update_frame:
  assumes "k \<in> fixed_fields \<union> {''lastCheckpointGeneration'', ''lastCheckpointManifestDigest''}"
  shows "apply_update (acquire_update owner now) it k = it k"
    "apply_update (init_beat_update progress now) it k = it k"
    "apply_update (lease_beat_update served now) it k = it k"
    "apply_update (heal_update now) it k = it k"
    "apply_update (ready_update session owner outcome now) it k = it k"
    "apply_update (error_update detail kind upstream now) it k = it k"
  using assms
  by (auto intro!: apply_update_frame simp: touched_def broker_updates fixed_fields_def split: option.splits)

lemma step_fixed_fields:
  assumes "broker_step sid t t'" "k \<in> fixed_fields"
  shows "item_at t' (record_key sid) k = item_at t (record_key sid) k"
  using assms(1)
proof cases
  case (receipt rq holder hints now created)
  then show ?thesis
    using assms(2) receipt_effect(4) [OF receipt(4)]
    by (auto simp: fixed_fields_def schedule_names_def)
qed (use assms(2) in \<open>auto simp: broker_update_frame\<close>)

text \<open>Outside the partition of the sandbox nothing changes.\<close>

lemma step_other_partition:
  assumes "broker_step sid t t'" "fst k \<noteq> sandbox_pk sid"
  shows "t' k = t k"
proof -
  have "k \<noteq> record_key sid" "k \<noteq> checkpoint_key sid g" for g
    using assms(2) by (auto simp: record_key_def checkpoint_key_def)
  with assms(1) show ?thesis by cases auto
qed

text \<open>The checkpoint pointer: where it moved, a receipt moved it, forward.\<close>

lemma advance_cases:
  assumes "holds (receipt_condition rq holder) it" "request_ok rq"
  shows "it ''lastCheckpointGeneration'' = None \<or>
    (\<exists>g. it ''lastCheckpointGeneration'' = Some (AttrN g) \<and> g < rq_generation rq) \<or>
    it ''lastCheckpointGeneration'' = Some (AttrN (rq_generation rq)) \<and>
    it ''lastCheckpointManifestDigest'' = Some (AttrS (rq_digest rq))"
proof -
  have adv: "holds (advance_condition rq) it"
    using assms(1) by (simp add: receipt_condition_def)
  have less: "attr_less a (AttrN b) \<longleftrightarrow> (\<exists>g. a = AttrN g \<and> g < b)" for a b by (cases a) auto
  from adv show ?thesis
    using assms(2)
    by (cases "rq_base rq"; cases "it ''lastCheckpointGeneration''")
      (auto simp: advance_condition_def less request_ok_def)
qed

lemma pointer_frame:
  "attr_n (apply_update (acquire_update owner now) it) ''lastCheckpointGeneration'' = attr_n it ''lastCheckpointGeneration''"
  "attr_n (apply_update (init_beat_update progress now) it) ''lastCheckpointGeneration'' = attr_n it ''lastCheckpointGeneration''"
  "attr_n (apply_update (lease_beat_update served now) it) ''lastCheckpointGeneration'' = attr_n it ''lastCheckpointGeneration''"
  "attr_n (apply_update (heal_update now) it) ''lastCheckpointGeneration'' = attr_n it ''lastCheckpointGeneration''"
  "attr_n (apply_update (ready_update session owner outcome now) it) ''lastCheckpointGeneration'' = attr_n it ''lastCheckpointGeneration''"
  "attr_n (apply_update (error_update detail kind upstream now) it) ''lastCheckpointGeneration'' = attr_n it ''lastCheckpointGeneration''"
  by (simp_all add: attr_n_def broker_update_frame)

lemma checkpoint_key_inject [simp]: "checkpoint_key sid g = checkpoint_key sid g' \<longleftrightarrow> g = g'"
proof
  assume "checkpoint_key sid g = checkpoint_key sid g'"
  then have "read_int (format_int 20 g) = read_int (format_int 20 g')"
    by (simp add: checkpoint_key_def)
  then show "g = g'" by (simp only: read_int_format option.inject)
qed simp

text \<open>Two items agree on the pointer, or a receipt wrote the new one.\<close>

lemma step_pointer:
  assumes "broker_step sid t t'"
  obtains (kept) "item_at t' (record_key sid) ''lastCheckpointGeneration'' =
      item_at t (record_key sid) ''lastCheckpointGeneration''"
    "item_at t' (record_key sid) ''lastCheckpointManifestDigest'' =
      item_at t (record_key sid) ''lastCheckpointManifestDigest''"
    "\<And>g. t' (checkpoint_key sid g) = t (checkpoint_key sid g)"
  | (advanced) rq holder created where "request_ok rq" "holds (receipt_condition rq holder) (item_at t (record_key sid))"
    "item_at t' (record_key sid) ''lastCheckpointGeneration'' = Some (AttrN (rq_generation rq))"
    "item_at t' (record_key sid) ''lastCheckpointManifestDigest'' = Some (AttrS (rq_digest rq))"
    "t' (checkpoint_key sid (rq_generation rq)) = Some (checkpoint_item sid rq created)"
    "\<And>g. g \<noteq> rq_generation rq \<Longrightarrow> t' (checkpoint_key sid g) = t (checkpoint_key sid g)"
  using assms
proof cases
  case (receipt rq holder hints now created)
  have "item_at t' (record_key sid) = apply_update (receipt_update rq hints now) (item_at t (record_key sid))"
    by (simp add: receipt(1))
  with receipt show thesis
    by (intro advanced [of rq holder created]) (simp_all add: receipt_effect [OF receipt(4)])
qed (rule kept; simp add: broker_update_frame)+

lemma step_pointer_mono:
  assumes "broker_step sid t t'" "attr_n (item_at t (record_key sid)) ''lastCheckpointGeneration'' = Some g"
  shows "\<exists>g'. attr_n (item_at t' (record_key sid)) ''lastCheckpointGeneration'' = Some g' \<and> g \<le> g'"
  using assms(1)
proof (cases rule: step_pointer)
  case kept
  with assms(2) show ?thesis by (simp add: attr_n_Some)
next
  case (advanced rq holder created)
  have "g \<le> rq_generation rq"
    using advance_cases [OF advanced(2,1)] assms(2) by (auto simp: attr_n_Some)
  with advanced(3) show ?thesis by (simp add: attr_n_Some)
qed

lemma version_frame:
  "attr_n (apply_update (init_beat_update progress now) it) ''stateVersion'' = attr_n it ''stateVersion''"
  "attr_n (apply_update (lease_beat_update served now) it) ''stateVersion'' = attr_n it ''stateVersion''"
  by (simp_all add: attr_n_def apply_update_frame touched_def broker_updates split: option.splits)

lemma version_bump:
  "attr_n (apply_update (acquire_update owner now) it) ''stateVersion'' =
    Some (1 + (case attr_n it ''stateVersion'' of None \<Rightarrow> 0 | Some n \<Rightarrow> n))"
  "attr_n (apply_update (heal_update now) it) ''stateVersion'' =
    Some (1 + (case attr_n it ''stateVersion'' of None \<Rightarrow> 0 | Some n \<Rightarrow> n))"
  "attr_n (apply_update (ready_update session owner outcome now) it) ''stateVersion'' =
    Some (1 + (case attr_n it ''stateVersion'' of None \<Rightarrow> 0 | Some n \<Rightarrow> n))"
  "attr_n (apply_update (error_update detail kind upstream now) it) ''stateVersion'' =
    Some (1 + (case attr_n it ''stateVersion'' of None \<Rightarrow> 0 | Some n \<Rightarrow> n))"
  by (simp_all add: broker_updates update_effect)

lemma step_version_mono:
  assumes "broker_step sid t t'" "attr_n (item_at t (record_key sid)) ''stateVersion'' = Some v"
  shows "\<exists>v'. attr_n (item_at t' (record_key sid)) ''stateVersion'' = Some v' \<and> v \<le> v'"
  using assms(1)
proof cases
  case (receipt rq holder hints now created)
  have "attr_n (item_at t' (record_key sid)) ''stateVersion'' = Some (1 + v)"
    by (simp add: receipt(1) attr_n_Some receipt_effect(3) [OF receipt(4)] assms(2))
  then show ?thesis by simp
qed (simp_all add: assms(2) version_frame version_bump)

text \<open>
  The pointer is backed: the catalog holds the generation it names, committed, with the
  manifest digest the record holds.
\<close>

definition pointer_backed :: "string \<Rightarrow> table \<Rightarrow> bool" where
  "pointer_backed sid t =
     (case (attr_n (item_at t (record_key sid)) ''lastCheckpointGeneration'',
            attr_s (item_at t (record_key sid)) ''lastCheckpointManifestDigest'') of
        (Some g, Some digest) \<Rightarrow>
          (case t (checkpoint_key sid g) of
             None \<Rightarrow> False
           | Some c \<Rightarrow> attr_n c ''generation'' = Some g \<and> attr_s c ''manifestDigest'' = Some digest \<and>
               attr_s c ''status'' = Some ''COMMITTED'')
      | _ \<Rightarrow> True)"

lemma checkpoint_item_fields:
  "attr_n (checkpoint_item sid rq created) ''generation'' = Some (rq_generation rq)"
  "attr_s (checkpoint_item sid rq created) ''manifestDigest'' = Some (rq_digest rq)"
  "attr_s (checkpoint_item sid rq created) ''status'' = Some ''COMMITTED''"
  "attr_s (checkpoint_item sid rq created) ''createdAt'' = Some created"
  by (simp_all add: checkpoint_item_def attr_s_def attr_n_def)

lemma step_pointer_backed:
  assumes "broker_step sid t t'" "pointer_backed sid t"
  shows "pointer_backed sid t'"
  using assms(1)
proof (cases rule: step_pointer)
  case kept
  then have eq: "attr_n (item_at t' (record_key sid)) ''lastCheckpointGeneration'' =
      attr_n (item_at t (record_key sid)) ''lastCheckpointGeneration''"
    "attr_s (item_at t' (record_key sid)) ''lastCheckpointManifestDigest'' =
      attr_s (item_at t (record_key sid)) ''lastCheckpointManifestDigest''"
    by (simp_all add: attr_n_def attr_s_def)
  show ?thesis using assms(2) unfolding pointer_backed_def eq kept(3) .
next
  case (advanced rq holder created)
  have "attr_n (item_at t' (record_key sid)) ''lastCheckpointGeneration'' = Some (rq_generation rq)"
    "attr_s (item_at t' (record_key sid)) ''lastCheckpointManifestDigest'' = Some (rq_digest rq)"
    using advanced(3,4) by (simp_all add: attr_n_Some attr_s_Some)
  then show ?thesis by (simp add: pointer_backed_def advanced(5) checkpoint_item_fields)
qed

end
