(* ===== verification/BrokerProperties.thy ===== *)
theory BrokerProperties
  imports BrokerSteps
begin

text \<open>
  What the broker promises: its tokens, the checkpoint pointer over any sequence of
  invocations, the initialization claim and its fencing, the serving lease, the confinement of
  a caller to its own sandbox, and the storage grants.
\<close>

subsection \<open>Runs\<close>

text \<open>An invocation: the time of its authorization, that of its operation, and its event.\<close>

type_synonym broker_call = "time \<times> time \<times> answer"

fun broker_run ::
  "('s, 'o) broker_env \<Rightarrow> broker_call list \<Rightarrow> ('s, 'o) broker_state \<Rightarrow> ('s, 'o) broker_state" where
  "broker_run e [] st = st"
| "broker_run e ((checked, now, event) # calls) st =
     broker_run e calls (fst (broker_handler e checked now event st))"

definition tbl :: "('s, 'o) broker_env \<Rightarrow> ('s, 'o) broker_state \<Rightarrow> table" where
  "tbl e st = table_of (be_db e) (bs_table st)"

lemma handler_tbl_step:
  assumes "dynamo_documented (be_db e)"
  shows "\<exists>sid. broker_step sid (tbl e st) (tbl e (fst (broker_handler e checked now event st)))"
proof -
  obtain st' r where h: "broker_handler e checked now event st = (st', r)"
    by (cases "broker_handler e checked now event st")
  then show ?thesis
    using handler_step [OF assms h] by (auto simp: tbl_def table_step_def intro: broker_step.unchanged)
qed

lemma run_invariant:
  assumes "dynamo_documented (be_db e)" "\<And>sid t t'. broker_step sid t t' \<Longrightarrow> P t \<Longrightarrow> P t'" "P (tbl e st)"
  shows "P (tbl e (broker_run e calls st))"
  using assms(3)
proof (induction calls arbitrary: st)
  case (Cons call calls)
  obtain checked now event where call: "call = (checked, now, event)" by (cases call)
  have "P (tbl e (fst (broker_handler e checked now event st)))"
    using handler_tbl_step [OF assms(1)] assms(2) Cons.prems by blast
  then show ?case using Cons.IH by (simp add: call)
qed simp

text \<open>A step of another sandbox leaves the record and the catalog alone.\<close>

lemma other_sandbox:
  assumes "broker_step sid' t t'" "sid' \<noteq> sid"
  shows "t' (record_key sid) = t (record_key sid)" "t' (checkpoint_key sid g) = t (checkpoint_key sid g)"
  using assms by (auto intro!: step_other_partition simp: record_key_def checkpoint_key_def sandbox_pk_def)

lemma item_at_cong: "t' k = t k \<Longrightarrow> item_at t' k = item_at t k"
  by (simp add: item_at_def)

lemma step_for_all:
  assumes "broker_step sid' t t'" "\<And>t t'. broker_step sid t t' \<Longrightarrow> P t \<Longrightarrow> P t'" "P t"
    "\<And>t t'. t' (record_key sid) = t (record_key sid) \<Longrightarrow>
      (\<And>g. t' (checkpoint_key sid g) = t (checkpoint_key sid g)) \<Longrightarrow> P t \<Longrightarrow> P t'"
  shows "P t'"
  using assms by (cases "sid' = sid") (blast, metis other_sandbox)

subsection \<open>Tokens\<close>

text \<open>The claims a token was issued with are the claims the broker reads, key by key.\<close>

lemma binding_payload_issued:
  assumes "issue_token k claims = Inr token" "plain_json (JObj claims)"
  obtains claims' payload sig where
    "binding_payload token = Some (claims', payload, base64url sig)"
    "kms_sign k payload = Inr (Some sig)"
    "\<And>key. get_key claims' key = sort_json (get_key claims key)"
proof -
  let ?payload = "base64url (json_dumps (JObj claims))"
  from assms(1) obtain sig where sign: "signer_sign k ?payload = Inr sig"
    and token: "token = ?payload @ ''.'' @ base64url sig"
    by (auto simp: issue_token_def Let_def split: sum.splits)
  have s: "kms_sign k ?payload = Inr (Some sig)"
    using sign by (auto simp: signer_sign_def split: sum.splits option.splits)
  have loads: "json_loads (json_dumps (JObj claims)) = Some (sort_json (JObj claims))"
    using assms(2) by (rule json_loads_dumps)
  let ?sorted = "sort_key fst (map (\<lambda>kv. (fst kv, sort_json (snd kv))) claims)"
  have "binding_payload token = Some (?sorted, ?payload, base64url sig)"
    using loads split_dot_append [OF base64url_no_dot] by (simp add: binding_payload_def token)
  moreover have "get_key ?sorted key = sort_json (get_key claims key)" for key
  proof -
    have "distinct (map fst (map (\<lambda>kv. (fst kv, sort_json (snd kv))) claims))"
      using assms(2) by (simp add: comp_def)
    then have "map_of ?sorted key = map_option sort_json (map_of claims key)"
      by (simp add: map_of_sorted) (induction claims; simp)
    then show ?thesis by (simp add: get_key_def split: option.splits)
  qed
  ultimately show thesis using s by (intro that)
qed

definition environ_ok :: "('s, 'o) broker_env \<Rightarrow> bool" where
  "environ_ok e = list_all (\<lambda>name. is_ok (env_var e name))
     [''BINDING_KEY_ARN'', ''BINDING_AUDIENCE'', ''SANDBOX_TABLE'', ''CHECKPOINT_BUCKET'', ''KMS_KEY_ARN'']"

lemma binding_issued:
  assumes "kms_documented (be_kms e)" "issue_token (be_kms e) claims = Inr token" "plain_json (JObj claims)"
    "is_ok (env_var e ''BINDING_KEY_ARN'')" "env_var e ''BINDING_AUDIENCE'' = Inr audience"
    "get_key claims ''type'' = JStr kind" "kind \<in> set TOKEN_TYPES" "get_key claims ''aud'' = JStr audience"
    "get_key claims ''exp'' = JInt expires" "epoch now < expires"
  obtains claims' where "binding e now token = Inr claims'"
    "\<And>key. get_key claims' key = sort_json (get_key claims key)"
  using assms(2,3)
proof (rule binding_payload_issued)
  fix claims' payload sig
  assume p: "binding_payload token = Some (claims', payload, base64url sig)"
    and s: "kms_sign (be_kms e) payload = Inr (Some sig)"
    and g: "\<And>key. get_key claims' key = sort_json (get_key claims key)"
  have "kms_verify (be_kms e) payload sig = Inr True"
    using assms(1) s by (simp add: kms_documented_def)
  then have "binding_verified (be_kms e) payload (base64url sig) = Inr True"
    by (simp add: binding_verified_def)
  moreover have "token_current claims' audience now"
    using assms(8-10) by (simp add: token_current_def g)
  ultimately have "binding e now token = Inr claims'"
    using assms(4-7) p by (auto simp: binding_def g is_ok_iff)
  then show thesis using g by (rule that)
qed

subsection \<open>A deployment for the witnesses\<close>

text \<open>A bucket in memory: what S3 documents of the four calls, and an instance of it.\<close>

definition s3_documented :: "'o s3 \<Rightarrow> ('o \<Rightarrow> string \<Rightarrow> string \<Rightarrow> string option) \<Rightarrow> bool" where
  "s3_documented s object_at =
     ((\<forall>b k ob body. s3_get_object s b k ob = Inr body \<longrightarrow> object_at ob b k = Some body) \<and>
      (\<forall>b k ob code. s3_get_object s b k ob = Inl code \<longrightarrow>
         code \<in> {''NoSuchKey'', ''404''} \<longrightarrow> object_at ob b k = None) \<and>
      (\<forall>b k body ob ob'. s3_put_new s b k body ob = (ob', Inr ()) \<longrightarrow>
         object_at ob b k = None \<and> object_at ob' b k = Some body) \<and>
      (\<forall>b k body ob ob'. s3_put_new s b k body ob = (ob', Inl ''PreconditionFailed'') \<longrightarrow>
         ob' = ob \<and> object_at ob b k \<noteq> None))"

type_synonym memory_bucket = "((string \<times> string) \<times> string) list"

definition memory_s3 :: "memory_bucket s3" where
  "memory_s3 =
     \<lparr>s3_get_object = (\<lambda>b k ob. case map_of ob (b, k) of None \<Rightarrow> Inl ''NoSuchKey'' | Some body \<Rightarrow> Inr body),
      s3_put_new = (\<lambda>b k body ob. case map_of ob (b, k) of
        None \<Rightarrow> (((b, k), body) # ob, Inr ()) | Some _ \<Rightarrow> (ob, Inl ''PreconditionFailed'')),
      s3_list_keys = (\<lambda>b prefix ob. Inr (map (snd \<circ> fst)
        (filter (\<lambda>o'. fst (fst o') = b \<and> starts_with (snd (fst o')) prefix) ob))),
      s3_presigned_url = (\<lambda>rq. ''https://'' @ concat (map snd (pr_params rq)))\<rparr>"

lemma memory_s3_documented: "s3_documented memory_s3 (\<lambda>ob b k. map_of ob (b, k))"
  by (auto simp: s3_documented_def memory_s3_def split: option.splits)

text \<open>A key that prefixes the context, and refuses another one.\<close>

definition sample_vault :: "string \<Rightarrow> vault" where
  "sample_vault fresh =
     \<lparr>generate_data_key = (\<lambda>k c. Inr (fresh, concat (map snd c) @ fresh)),
      kms_decrypt = (\<lambda>k c x.
        if starts_with x (concat (map snd c)) then Inr (Some (drop (length (concat (map snd c))) x))
        else Inl ''InvalidCiphertextException'')\<rparr>"

definition sample_environ :: environ where
  "sample_environ = (\<lambda>name. Some (''value-of-'' @ name))"

definition sample_tools :: tool_services where
  "sample_tools = \<lparr>ts_environ = sample_environ, ts_sha = id, ts_vault = sample_vault ''key'',
     ts_secret = (\<lambda>arn. Inl ''AccessDenied''), ts_open = (\<lambda>rq. None)\<rparr>"

definition sample_broker_env :: "(table, memory_bucket) broker_env" where
  "sample_broker_env =
     \<lparr>be_environ = sample_environ, be_db = table_service, be_s3 = memory_s3, be_kms = sample_kms,
      be_vault = sample_vault ''key'', be_session_ttl = 28800, be_tools = sample_tools\<rparr>"

lemma sample_broker_simps [simp]:
  "be_environ sample_broker_env = sample_environ" "be_db sample_broker_env = table_service"
  "be_s3 sample_broker_env = memory_s3" "be_kms sample_broker_env = sample_kms"
  "be_vault sample_broker_env = sample_vault ''key''" "be_tools sample_broker_env = sample_tools"
  "be_session_ttl sample_broker_env = 28800"
  "env_var sample_broker_env name = Inr (''value-of-'' @ name)"
  by (simp_all add: sample_broker_env_def env_var_def required_def sample_environ_def)

definition broker_sid :: string where
  "broker_sid = ''sbx_0123456789ABCDEFGHJKMNPQRS''"

definition old_instance :: string where
  "old_instance = ''00000000-0000-0000-0000-000000000001''"

definition new_instance :: string where
  "new_instance = ''00000000-0000-0000-0000-000000000002''"

lemma instances [simp]:
  "init_owner_pattern old_instance" "init_owner_pattern new_instance" "old_instance \<noteq> new_instance"
  "sandbox_pattern broker_sid"
  by code_simp+

definition broker_item_at :: "string \<Rightarrow> (string \<times> attr) list \<Rightarrow> item" where
  "broker_item_at st extra =
     map_of ([(''pk'', AttrS (sandbox_pk broker_sid)), (''sk'', AttrS ''METADATA''),
       (''runtimeSessionId'', AttrS ''session''), (''state'', AttrS st), (''stateVersion'', AttrN 3),
       (''leaseOwner'', AttrS ''session'')] @ extra)"

definition broker_state_of :: "item \<Rightarrow> memory_bucket \<Rightarrow> (table, memory_bucket) broker_state" where
  "broker_state_of it ob =
     \<lparr>bs_table = [record_key broker_sid \<mapsto> it], bs_objects = ob, bs_config = None\<rparr>"

lemma broker_state_simps [simp]:
  "item_at (tbl sample_broker_env (broker_state_of it ob)) (record_key broker_sid) = it"
  "bs_table (broker_state_of it ob) = [record_key broker_sid \<mapsto> it]"
  "bs_objects (broker_state_of it ob) = ob"
  by (simp_all add: tbl_def broker_state_of_def)

definition sample_session_claims :: answer where
  "sample_session_claims =
     [(''aud'', JStr ''value-of-BINDING_AUDIENCE''), (''exp'', JInt 1000000),
      (''runtimeSessionId'', JStr ''session''), (''sandboxId'', JStr broker_sid),
      (''subjectHash'', JStr (replicate 64 (CHR ''a''))), (''type'', JStr ''runtime-session'')]"

definition sample_broker_event :: "string \<Rightarrow> answer \<Rightarrow> answer" where
  "sample_broker_event operation extra =
     [(''operation'', JStr operation), (''sandboxId'', JStr broker_sid),
      (''runtimeSessionId'', JStr ''session'')] @ extra"

lemmas sample_documented [simp] = table_service_documented sample_kms_documented

subsection \<open>The checkpoint pointer\<close>

lemma pointer_mono_run:
  assumes "dynamo_documented (be_db e)"
    "attr_n (item_at (tbl e st) (record_key sid)) ''lastCheckpointGeneration'' = Some g"
  shows "\<exists>g'. attr_n (item_at (tbl e (broker_run e calls st)) (record_key sid))
      ''lastCheckpointGeneration'' = Some g' \<and> g \<le> g'"
proof -
  let ?P = "\<lambda>t. \<exists>g'. attr_n (item_at t (record_key sid)) ''lastCheckpointGeneration'' = Some g' \<and> g \<le> g'"
  have step: "?P t \<Longrightarrow> ?P t'" if "broker_step sid t t'" for t t'
    using step_pointer_mono [OF that] by (meson order_trans)
  show ?thesis
    using assms(1)
  proof (rule run_invariant [where P = ?P])
    show "?P t'" if "broker_step sid' t t'" "?P t" for sid' t t'
      using that(1) step that(2)
    proof (rule step_for_all)
      show "?P u'" if "u' (record_key sid) = u (record_key sid)" "?P u" for u u'
        using that(2) unfolding item_at_cong [of u' "record_key sid" u, OF that(1)] .
    qed
  qed (use assms(2) in simp)
qed

text \<open>
  (C6) Whatever calls reach the broker, from any containers and in any order, with S3 and
  DynamoDB failing or not: the checkpoint pointer of a sandbox never moves back and never
  disappears.
\<close>

theorem checkpoint_pointer_never_regresses:
  assumes "dynamo_documented (be_db e)"
    "attr_n (item_at (tbl e st) (record_key sid)) ''lastCheckpointGeneration'' = Some g"
  shows "\<exists>g'. attr_n (item_at (tbl e (broker_run e calls st)) (record_key sid))
      ''lastCheckpointGeneration'' = Some g' \<and> g \<le> g'"
  using assms by (rule pointer_mono_run)

definition sample_pointed :: "(table, memory_bucket) broker_state" where
  "sample_pointed = broker_state_of (broker_item_at ''READY'' [(''lastCheckpointGeneration'', AttrN 1)]) []"

theorem checkpoint_pointer_never_regresses_witness:
  "\<exists>g'. attr_n (item_at (tbl sample_broker_env (broker_run sample_broker_env
      [(0, 1, sample_broker_event ''audit'' []), (2, 3, sample_broker_event ''lease'' [])] sample_pointed))
    (record_key broker_sid)) ''lastCheckpointGeneration'' = Some g' \<and> 1 \<le> g'"
proof (rule checkpoint_pointer_never_regresses)
  show "attr_n (item_at (tbl sample_broker_env sample_pointed) (record_key broker_sid))
      ''lastCheckpointGeneration'' = Some 1"
    by (simp add: sample_pointed_def broker_item_at_def attr_n_def)
qed simp

text \<open>
  The pointer is always backed: once the catalog holds, as committed, the generation and
  the manifest digest a record points at, it does so after any further calls.
\<close>

theorem checkpoint_pointer_stays_backed:
  assumes "dynamo_documented (be_db e)" "pointer_backed sid (tbl e st)"
  shows "pointer_backed sid (tbl e (broker_run e calls st))"
  using assms(1)
proof (rule run_invariant)
  show "pointer_backed sid t'" if "broker_step sid' t t'" "pointer_backed sid t" for sid' t t'
    using that(1) step_pointer_backed that(2)
  proof (rule step_for_all)
    show "pointer_backed sid u'" if "u' (record_key sid) = u (record_key sid)"
      "\<And>g. u' (checkpoint_key sid g) = u (checkpoint_key sid g)" "pointer_backed sid u" for u u'
      using that(3) unfolding pointer_backed_def that(2) item_at_cong [of u' "record_key sid" u, OF that(1)] .
  qed
qed (rule assms(2))

definition sample_request :: receipt_request where
  "sample_request = \<lparr>rq_generation = 1, rq_digest = replicate 64 (CHR ''d''), rq_session = ''session'',
     rq_subject = replicate 64 (CHR ''a''), rq_final = False, rq_base = Some 0\<rparr>"

definition sample_backed :: "(table, memory_bucket) broker_state" where
  "sample_backed =
     \<lparr>bs_table = [record_key broker_sid \<mapsto> broker_item_at ''READY''
          [(''lastCheckpointGeneration'', AttrN 1),
           (''lastCheckpointManifestDigest'', AttrS (replicate 64 (CHR ''d'')))],
        checkpoint_key broker_sid 1 \<mapsto> checkpoint_item broker_sid sample_request ''2026-01-01''],
      bs_objects = [], bs_config = None\<rparr>"

lemma sample_backed_ok: "pointer_backed broker_sid (tbl sample_broker_env sample_backed)"
proof -
  let ?it = "item_at (tbl sample_broker_env sample_backed) (record_key broker_sid)"
  have "attr_n ?it ''lastCheckpointGeneration'' = Some 1"
    "attr_s ?it ''lastCheckpointManifestDigest'' = Some (replicate 64 (CHR ''d''))"
    by (simp_all add: tbl_def sample_backed_def broker_item_at_def attr_n_def attr_s_def item_at_def)
  moreover have "tbl sample_broker_env sample_backed (checkpoint_key broker_sid 1) =
      Some (checkpoint_item broker_sid sample_request ''2026-01-01'')"
    by (simp add: tbl_def sample_backed_def)
  ultimately show ?thesis
    by (simp add: pointer_backed_def checkpoint_item_fields) (simp add: sample_request_def)
qed

theorem checkpoint_pointer_stays_backed_witness:
  "pointer_backed broker_sid (tbl sample_broker_env (broker_run sample_broker_env
     [(0, 1, sample_broker_event ''audit'' []), (2, 3, sample_broker_event ''lease'' [])] sample_backed))"
  by (rule checkpoint_pointer_stays_backed) (simp_all add: sample_backed_ok)

subsection \<open>The initialization claim\<close>

text \<open>Authorized operations, in the order they run: name, claims, event and time.\<close>

type_synonym op_call = "string \<times> answer \<times> answer \<times> time"

fun operation_run ::
  "('s, 'o) broker_env \<Rightarrow> string \<Rightarrow> op_call list \<Rightarrow> ('s, 'o) broker_state \<Rightarrow> ('s, 'o) broker_state" where
  "operation_run e sid [] st = st"
| "operation_run e sid ((operation, claims, event, now) # calls) st =
     operation_run e sid calls (fst (broker_operation e operation sid claims event now st))"

text \<open>How a container says which instance it is.\<close>

definition names_instance :: "string \<Rightarrow> answer \<Rightarrow> string \<Rightarrow> bool" where
  "names_instance operation event inst =
     (get_key event (if operation = ''checkpointReceipt'' then ''holderInstance'' else ''initOwner'') = JStr inst)"

definition claimed_by :: "string \<Rightarrow> int \<Rightarrow> item \<Rightarrow> bool" where
  "claimed_by owner expires it =
     (it ''state'' = Some (AttrS ''RESTORING'') \<and> it ''initOwner'' = Some (AttrS owner) \<and>
      it ''holderInstance'' = Some (AttrS owner) \<and> it ''initExpiresAt'' = Some (AttrN expires))"

lemma acquire_effect:
  "claimed_by owner (epoch now + 90) (apply_update (acquire_update owner now) it)"
  "apply_update (acquire_update owner now) it ''runtimeSessionId'' = it ''runtimeSessionId''"
  "apply_update (acquire_update owner now) it ''leaseOwner'' = it ''leaseOwner''"
  by (simp_all add: claimed_by_def acquire_update_def update_effect)

lemma init_owner_Inr: "init_owner event = Inr owner \<longleftrightarrow> get_key event ''initOwner'' = JStr owner \<and> init_owner_pattern owner"
  by (auto simp: init_owner_def split: json.splits)

text \<open>One guarded update that its condition refuses.\<close>

lemma refused_update:
  assumes "dynamo_documented (be_db e)" "\<not> holds c (item_at (table_of (be_db e) s) (record_key sid))"
  shows "table_of (be_db e) (fst (conditional_update e sid u c reason s)) = table_of (be_db e) s"
proof -
  obtain s' r where "conditional_update e sid u c reason s = (s', r)"
    by (cases "conditional_update e sid u c reason s")
  with conditional_update_refused [OF assms(1) this assms(2)] show ?thesis by simp
qed

lemma fst_trying: "fst (trying s r f) = (case r of Inl e \<Rightarrow> s | Inr x \<Rightarrow> fst (f x))"
  by (cases r) simp_all

lemma fst_acquire_init:
  "fst (acquire_init e sid claims event now s) =
     (case (init_owner event, claims_session claims) of
        (Inr owner, Inr session) \<Rightarrow>
          fst (conditional_update e sid (acquire_update owner now) (acquire_condition session owner now)
            (Some (claim_rejection owner (epoch now) (timestamp now))) s)
      | _ \<Rightarrow> s)"
  by (auto simp: acquire_init_def fst_trying split: sum.splits prod.splits)

text \<open>A refused receipt writes nothing.\<close>

lemma refused_receipt:
  assumes "dynamo_documented (be_db e)"
    "\<And>rq holder. receipt_request_of claims event = Inr rq \<Longrightarrow> receipt_holder event = Inr holder \<Longrightarrow>
      \<not> holds (receipt_condition rq holder) (item_at (table_of (be_db e) s) (record_key sid))"
    "checkpoint_receipt e sid claims event now s ob = (s', r)"
  shows "table_of (be_db e) s' = table_of (be_db e) s \<and> (\<exists>x. r = Inl x)"
  using assms(3) unfolding checkpoint_receipt_def
proof (elim trying_elim)
  fix p
  assume p: "receipt_writes e sid claims event now ob = Inr p"
  obtain rq ws where q: "p = (rq, ws)" by (cases p)
  assume "(case p of (rq, writes) \<Rightarrow> case transact_items (be_db e) writes s of
      (s', Written) \<Rightarrow> (s', receipt_token e sid rq now)
    | (s', out) \<Rightarrow> (s', Inl (ClientCrash (error_code out)))) = (s', r)"
  then obtain out where t: "transact_items (be_db e) ws s = (s', out)"
    and r: "r = (if out = Written then receipt_token e sid rq now else Inl (ClientCrash (error_code out)))"
    by (cases "transact_items (be_db e) ws s") (auto simp: q split: outcome.splits)
  note a = dynamo_transact [OF assms(1) t]
  from p [unfolded q] show ?thesis
  proof (rule receipt_writes_elim)
    fix created hints holder
    assume f: "receipt_request_of claims event = Inr rq" "receipt_holder event = Inr holder"
      and ws: "ws = [Update (record_key sid) (receipt_update rq hints now) (receipt_condition rq holder),
           Put (checkpoint_item sid rq created) Always]"
    have "\<not> written (table_of (be_db e) s) ws t'" for t'
      unfolding ws receipt_written using assms(2) [OF f] by simp
    with a show ?thesis by (cases out) (auto simp: r)
  qed
qed simp_all

text \<open>While one instance holds the claim, whatever another one calls changes nothing.\<close>

lemma claimed_refuses:
  assumes db: "dynamo_documented (be_db e)"
    and claimed: "claimed_by owner expires (item_at (tbl e st) (record_key sid))"
    and time: "epoch now \<le> expires"
    and other: "names_instance operation event inst" "inst \<noteq> owner"
  shows "tbl e (fst (broker_operation e operation sid claims event now st)) = tbl e st"
proof -
  define s where "s = bs_table st"
  let ?it = "item_at (table_of (be_db e) s) (record_key sid)"
  note it = claimed [unfolded claimed_by_def tbl_def, folded s_def]
  note refused = refused_update [OF db]
  have own: "init_owner event \<noteq> Inr owner" if "operation \<noteq> ''checkpointReceipt''"
    using other that by (auto simp: init_owner_Inr names_instance_def)
  have acquire: "table_of (be_db e) (fst (acquire_init e sid claims event now s)) = table_of (be_db e) s"
    if "operation \<noteq> ''checkpointReceipt''"
    using it time own [OF that]
    by (auto simp: fst_acquire_init acquire_condition_def split: sum.splits intro!: refused)
  have beat: "table_of (be_db e) (fst (heartbeat_init e sid event now s)) = table_of (be_db e) s"
    if "operation \<noteq> ''checkpointReceipt''"
    using it own [OF that] by (auto simp: heartbeat_init_def fst_trying split: sum.splits intro!: refused)
  have lease: "table_of (be_db e) (fst (heartbeat_lease e sid claims event now s)) = table_of (be_db e) s"
    if "operation \<noteq> ''checkpointReceipt''"
    using it own [OF that] other that
    by (auto simp: heartbeat_lease_def fst_trying names_instance_def and_then_Inr same_holder_def
        split: sum.splits if_splits intro!: refused)
  have heal: "table_of (be_db e) (fst (heal_ready e sid claims now s)) = table_of (be_db e) s"
    using it by (auto simp: heal_ready_def fst_trying split: sum.splits intro!: refused)
  have ready: "table_of (be_db e) (fst (mark_ready e sid claims event now s)) = table_of (be_db e) s"
    if "operation \<noteq> ''checkpointReceipt''"
    using it own [OF that]
    by (auto simp: mark_ready_def fst_trying split: sum.splits json.splits intro!: refused)
  have error: "table_of (be_db e) (fst (mark_error e sid claims event now s)) = table_of (be_db e) s"
    if "operation \<noteq> ''checkpointReceipt''"
    using it own [OF that] other that
    by (auto simp: mark_error_def fst_trying names_instance_def and_then_Inr
        split: sum.splits if_splits intro!: refused)
  have receipt: "table_of (be_db e) (fst (checkpoint_receipt e sid claims event now s ob)) =
      table_of (be_db e) s" for ob
    using refused_receipt [OF db _ prod.collapse [symmetric], of claims event s sid now ob] it
    by (auto simp: receipt_condition_def receipt_states_def)
  show ?thesis
    using acquire beat lease heal ready error receipt
    by (simp add: broker_operation_def tbl_def on_table_def on_objects_def Let_def s_def split: prod.splits)
qed

lemma acquire_init_applied:
  assumes "dynamo_documented (be_db e)" "acquire_init e sid claims event now s = (s', Inr result)"
    "broker_applied result"
  obtains owner session where "init_owner event = Inr owner" "claims_session claims = Inr session"
    "holds (acquire_condition session owner now) (item_at (table_of (be_db e) s) (record_key sid))"
    "table_of (be_db e) s' = after_update sid (acquire_update owner now) (table_of (be_db e) s)"
  using assms(2) unfolding acquire_init_def
proof (elim trying_elim)
  fix owner session
  assume o: "init_owner event = Inr owner" "claims_session claims = Inr session"
    and run: "(case conditional_update e sid (acquire_update owner now) (acquire_condition session owner now)
        (Some (claim_rejection owner (epoch now) (timestamp now))) s of
      (s', Inl x) \<Rightarrow> (s', Inl x)
    | (s', Inr result) \<Rightarrow> if broker_applied result
        then (s', and_then (runtime_session_token e claims now) (\<lambda>token.
          Inr (result @ [(''runtimeSessionToken'', JStr token)])))
        else (s', Inr result)) = (s', Inr result)"
  obtain s'' r where c: "conditional_update e sid (acquire_update owner now) (acquire_condition session owner now)
        (Some (claim_rejection owner (epoch now) (timestamp now))) s = (s'', r)"
    by (cases "conditional_update e sid (acquire_update owner now) (acquire_condition session owner now)
        (Some (claim_rejection owner (epoch now) (timestamp now))) s")
  from run c assms(3) obtain result' where r: "r = Inr result'" "broker_applied result'" "s'' = s'"
    by (cases r) (auto split: if_splits)
  from conditional_update_applied [OF assms(1) c [unfolded r(1)] r(2)] r(3) show thesis
    by (intro that [OF o]) simp_all
qed simp_all

definition others_only :: "string \<Rightarrow> time \<Rightarrow> op_call list \<Rightarrow> bool" where
  "others_only owner now calls = list_all (\<lambda>(operation, claims, event, at).
     epoch at \<le> epoch now + 90 \<and> (\<exists>inst. inst \<noteq> owner \<and> names_instance operation event inst)) calls"

lemma claimed_run:
  assumes "dynamo_documented (be_db e)" "others_only owner now calls"
    "claimed_by owner (epoch now + 90) (item_at (tbl e st) (record_key sid))"
  shows "tbl e (operation_run e sid calls st) = tbl e st"
  using assms(2,3)
proof (induction calls arbitrary: st)
  case (Cons call calls)
  obtain operation claims event at where call: "call = (operation, claims, event, at)" by (cases call)
  let ?st = "fst (broker_operation e operation sid claims event at st)"
  have "tbl e ?st = tbl e st"
    using Cons.prems by (auto simp: others_only_def call intro!: claimed_refuses [OF assms(1)])
  with Cons show ?case by (simp add: call others_only_def)
qed simp


text \<open>A sandbox being started, and the containers that race for it.\<close>

definition sample_starting :: "(table, memory_bucket) broker_state" where
  "sample_starting = broker_state_of (broker_item_at ''STARTING'' []) []"

lemma sample_session: "claims_session sample_session_claims = Inr ''session''"
  by (simp add: claims_session_def sample_session_claims_def)

lemma sample_signs: "\<exists>token. runtime_session_token sample_broker_env claims now = Inr token"
  by (simp add: runtime_session_token_def sign_claims_def sample_kms_def Let_def)

lemma sample_acquire:
  "\<exists>s' result. acquire_init sample_broker_env broker_sid sample_session_claims
      (sample_broker_event ''acquireInit'' [(''initOwner'', JStr new_instance)]) 5 (bs_table sample_starting) =
      (s', Inr result) \<and> broker_applied result"
proof -
  obtain token where t: "runtime_session_token sample_broker_env sample_session_claims 5 = Inr token"
    using sample_signs by blast
  have "holds (acquire_condition ''session'' new_instance 5) (broker_item_at ''STARTING'' [])"
    by (simp add: acquire_condition_def broker_item_at_def)
  then show ?thesis
    by (simp add: acquire_init_def init_owner_def sample_broker_event_def sample_session
        conditional_update_def sample_starting_def allowed_def broker_applied_def t)
qed


subsection \<open>A serving holder\<close>

text \<open>
  A record that is served: READY, initialization over, its lease ending in a later second than
  now and its last invocation less than a minute ago, whole seconds compared.
\<close>

definition served_now :: "item \<Rightarrow> time \<Rightarrow> time \<Rightarrow> time \<Rightarrow> bool" where
  "served_now it lease_end served now =
     (it ''pk'' \<noteq> None \<and> it ''state'' = Some (AttrS ''READY'') \<and> it ''initOwner'' = None \<and>
      it ''leaseExpiresAt'' = Some (AttrS (timestamp lease_end)) \<and>
      it ''lastServedAt'' = Some (AttrS (timestamp served)) \<and>
      valid_time lease_end \<and> valid_time served \<and> TAKEOVER_IDLE \<le> now \<and>
      epoch now < epoch lease_end \<and> epoch (now - TAKEOVER_IDLE) < epoch served)"

lemma served_not_claimable:
  assumes "served_now it lease_end served now"
  shows "\<not> holds (acquire_condition session owner now) it"
    "claim_rejection owner (epoch now) (timestamp now) it =
      ''A live container still holds this sandbox; its lease has not expired.''"
proof -
  have pos: "0 \<le> now" using assms by (simp add: served_now_def TAKEOVER_IDLE_def seconds_def)
  have lease: "timestamp now < timestamp lease_end"
    using assms pos by (intro iso_less_of_second) (simp_all add: served_now_def)
  have served: "timestamp (now - TAKEOVER_IDLE) < timestamp served"
    using assms by (intro iso_less_of_second) (simp_all add: served_now_def)
  show "\<not> holds (acquire_condition session owner now) it"
    using assms lease served
    by (auto simp: served_now_def acquire_condition_def holder_unreachable_def)
  show "claim_rejection owner (epoch now) (timestamp now) it =
      ''A live container still holds this sandbox; its lease has not expired.''"
    using assms lease by (auto simp: served_now_def claim_rejection_def attr_s_def split: option.splits)
qed

text \<open>What a refused update answers: the reason, or another failure of the service.\<close>

lemma refused_answer:
  assumes "dynamo_documented (be_db e)" "conditional_update e sid u c (Some why) s = (s', r)"
    "\<not> holds c (item_at (table_of (be_db e) s) (record_key sid))"
  shows "(\<exists>x. r = Inl x) \<or> r = Inr [(''applied'', JBool False),
      (''reason'', JStr (why (item_at (table_of (be_db e) s) (record_key sid))))]"
proof (cases "env_var e ''SANDBOX_TABLE''")
  case (Inr x)
  obtain s'' out where w: "write_item (be_db e) (Update (record_key sid) u c) s = (s'', out)"
    by (cases "write_item (be_db e) (Update (record_key sid) u c) s")
  note a = dynamo_write [OF assms(1) w]
  from assms(2) w Inr a assms(3) show ?thesis
    by (cases out) (auto simp: conditional_update_def written_def allowed_def)
qed (use assms(2) in \<open>auto simp: conditional_update_def\<close>)

lemma acquire_served:
  assumes db: "dynamo_documented (be_db e)"
    and served: "served_now (item_at (table_of (be_db e) s) (record_key sid)) lease_end served now"
    and run: "acquire_init e sid claims event now s = (s', r)"
  shows "table_of (be_db e) s' = table_of (be_db e) s \<and>
    ((\<exists>x. r = Inl x) \<or> r = Inr [(''applied'', JBool False),
       (''reason'', JStr ''A live container still holds this sandbox; its lease has not expired.'')])"
  using run unfolding acquire_init_def
proof (elim trying_elim)
  fix owner session
  let ?u = "acquire_update owner now" and ?c = "acquire_condition session owner now"
    and ?why = "claim_rejection owner (epoch now) (timestamp now)"
  assume "(case conditional_update e sid ?u ?c (Some ?why) s of
      (s', Inl x) \<Rightarrow> (s', Inl x)
    | (s', Inr result) \<Rightarrow> if broker_applied result
        then (s', and_then (runtime_session_token e claims now) (\<lambda>token.
          Inr (result @ [(''runtimeSessionToken'', JStr token)])))
        else (s', Inr result)) = (s', r)"
  moreover obtain s1 r1 where c: "conditional_update e sid ?u ?c (Some ?why) s = (s1, r1)"
    by (cases "conditional_update e sid ?u ?c (Some ?why) s")
  ultimately show ?thesis
    using refused_answer [OF db c served_not_claimable(1) [OF served]]
      conditional_update_refused [OF db c served_not_claimable(1) [OF served]]
    unfolding served_not_claimable(2) [OF served]
    by (cases r1) (auto simp: broker_applied_def)
qed simp_all

text \<open>
  A holder that is serving is never taken over: while its lease runs and it has served an
  invocation within the last minute, every claim of the sandbox, from any instance, is refused
  with that reason and changes nothing.
\<close>

theorem serving_holder_kept:
  assumes "dynamo_documented (be_db e)"
    "served_now (item_at (table_of (be_db e) s) (record_key sid)) lease_end served now"
    "acquire_init e sid claims event now s = (s', r)"
  shows "table_of (be_db e) s' = table_of (be_db e) s \<and>
    ((\<exists>x. r = Inl x) \<or> r = Inr [(''applied'', JBool False),
       (''reason'', JStr ''A live container still holds this sandbox; its lease has not expired.'')])"
  using assms by (rule acquire_served)

definition serving_item :: item where
  "serving_item = broker_item_at ''READY''
     [(''leaseExpiresAt'', AttrS (timestamp (seconds 190))), (''lastServedAt'', AttrS (timestamp (seconds 100))),
      (''holderInstance'', AttrS old_instance)]"

lemma small_times [simp]: "valid_time (seconds 190)" "valid_time (seconds 100)"
  by (simp_all add: valid_small seconds_def)

lemma serving_item_served: "served_now serving_item (seconds 190) (seconds 100) (seconds 130)"
  by (simp add: served_now_def serving_item_def broker_item_at_def TAKEOVER_IDLE_def)
    (simp add: epoch_def seconds_def)

theorem serving_holder_kept_witness:
  "\<exists>s' r. acquire_init sample_broker_env broker_sid sample_session_claims
      (sample_broker_event ''acquireInit'' [(''initOwner'', JStr new_instance)]) (seconds 130)
      (bs_table (broker_state_of serving_item [])) = (s', r) \<and>
    table_of (be_db sample_broker_env) s' = bs_table (broker_state_of serving_item [])"
proof -
  obtain s' r where run: "acquire_init sample_broker_env broker_sid sample_session_claims
      (sample_broker_event ''acquireInit'' [(''initOwner'', JStr new_instance)]) (seconds 130)
      (bs_table (broker_state_of serving_item [])) = (s', r)" by fastforce
  have "served_now (item_at (table_of (be_db sample_broker_env) (bs_table (broker_state_of serving_item [])))
      (record_key broker_sid)) (seconds 190) (seconds 100) (seconds 130)"
    using serving_item_served by simp
  from serving_holder_kept [OF _ this run] run show ?thesis by simp
qed

lemma ready_effect:
  "apply_update (ready_update session owner outcome now) it ''state'' = Some (AttrS ''READY'')"
  "apply_update (ready_update session owner outcome now) it ''initOwner'' = None"
  "apply_update (ready_update session owner outcome now) it ''leaseExpiresAt'' =
    Some (AttrS (timestamp (now + seconds 90)))"
  "apply_update (ready_update session owner outcome now) it ''lastServedAt'' = Some (AttrS (timestamp now))"
  "apply_update (ready_update session owner outcome now) it ''holderInstance'' = Some (AttrS owner)"
  "apply_update (ready_update session owner outcome now) it ''leaseOwner'' = Some (AttrS session)"
  "apply_update (ready_update session owner outcome now) it ''pk'' = it ''pk''"
  by (simp_all add: ready_update_def update_effect)

text \<open>
  READY is published with a live lease: for the minute after a container's markReady was
  applied, a claim by any instance is refused and changes nothing, however long the
  restore before it took.
\<close>

theorem ready_published_with_live_lease:
  assumes "dynamo_documented (be_db e)"
    "mark_ready e sid claims event ready_at s = (s1, Inr result)" "broker_applied result"
    "item_at (table_of (be_db e) s) (record_key sid) ''pk'' \<noteq> None"
    "valid_time ready_at" "valid_time (ready_at + seconds 90)"
    "TAKEOVER_IDLE \<le> now" "epoch now < epoch ready_at + 60"
    "acquire_init e sid claims' event' now s1 = (s2, r)"
  shows "table_of (be_db e) s2 = table_of (be_db e) s1 \<and> (\<forall>answer. r = Inr answer \<longrightarrow> \<not> broker_applied answer)"
proof -
  obtain session owner outcome where t: "table_of (be_db e) s1 =
      after_update sid (ready_update session owner outcome ready_at) (table_of (be_db e) s)"
    using assms(2) conditional_update_applied [OF assms(1) _ assms(3)] unfolding mark_ready_def
    by (elim trying_elim) (auto split: json.splits if_splits elim!: trying_elim)
  have "epoch (now - TAKEOVER_IDLE) = epoch now - 60"
    using epoch_add_seconds [of "now - TAKEOVER_IDLE" 60] by (simp add: TAKEOVER_IDLE_def)
  then have "served_now (item_at (table_of (be_db e) s1) (record_key sid)) (ready_at + seconds 90) ready_at now"
    using assms(4-8) by (simp add: served_now_def t ready_effect)
  from acquire_served [OF assms(1) this assms(9)] show ?thesis by (auto simp: broker_applied_def)
qed

definition restoring_item :: item where
  "restoring_item = broker_item_at ''RESTORING'' [(''initOwner'', AttrS new_instance)]"

definition ready_event :: answer where
  "ready_event = sample_broker_event ''markReady''
     [(''initOwner'', JStr new_instance), (''restoreOutcome'', JStr ''restored'')]"

lemma sample_ready:
  "\<exists>s' result. mark_ready sample_broker_env broker_sid sample_session_claims ready_event (seconds 100)
      (bs_table (broker_state_of restoring_item [])) = (s', Inr result) \<and> broker_applied result"
proof -
  have "restore_outcome_pattern ''restored''" by code_simp
  then show ?thesis
    by (simp add: mark_ready_def ready_event_def sample_broker_event_def init_owner_def sample_session
        conditional_update_def allowed_def broker_applied_def restoring_item_def broker_item_at_def)
qed

theorem ready_published_with_live_lease_witness:
  "\<exists>s1 s2 r. fst (mark_ready sample_broker_env broker_sid sample_session_claims ready_event (seconds 100)
      (bs_table (broker_state_of restoring_item []))) = s1 \<and>
    acquire_init sample_broker_env broker_sid sample_session_claims
      (sample_broker_event ''acquireInit'' [(''initOwner'', JStr old_instance)]) (seconds 130) s1 = (s2, r) \<and>
    table_of (be_db sample_broker_env) s2 = table_of (be_db sample_broker_env) s1"
proof -
  obtain s1 result where ready: "mark_ready sample_broker_env broker_sid sample_session_claims ready_event
      (seconds 100) (bs_table (broker_state_of restoring_item [])) = (s1, Inr result)" "broker_applied result"
    using sample_ready by blast
  obtain s2 r where run: "acquire_init sample_broker_env broker_sid sample_session_claims
      (sample_broker_event ''acquireInit'' [(''initOwner'', JStr old_instance)]) (seconds 130) s1 = (s2, r)"
    by fastforce
  have "item_at (table_of (be_db sample_broker_env) (bs_table (broker_state_of restoring_item [])))
      (record_key broker_sid) ''pk'' \<noteq> None"
    by (simp add: restoring_item_def broker_item_at_def)
  moreover have "valid_time (seconds 100 + seconds 90)"
    by (rule valid_small) (simp_all add: seconds_def)
  moreover have "TAKEOVER_IDLE \<le> seconds 130" "epoch (seconds 130) < epoch (seconds 100) + 60"
    by (simp_all add: TAKEOVER_IDLE_def) (simp add: seconds_def)
  ultimately have "table_of (be_db sample_broker_env) s2 = table_of (be_db sample_broker_env) s1"
    using ready_published_with_live_lease [OF _ ready _ _ _ _ _ run] by simp
  with ready(1) run show ?thesis by auto
qed

subsection \<open>Fencing of a superseded holder\<close>

text \<open>
  (C5) A container the record no longer names as its holder is fenced: its lease heartbeats
  are not applied and its checkpoint receipts raise, and neither changes the table. It stays
  fenced although it runs under the same session with a token that is still valid.
\<close>

theorem superseded_holder_fenced:
  assumes "dynamo_documented (be_db e)"
    "item_at (table_of (be_db e) s) (record_key sid) ''holderInstance'' = Some (AttrS holder)"
    "inst \<noteq> holder"
    "get_key beat ''initOwner'' = JStr inst" "heartbeat_lease e sid claims beat now s = (s1, r1)"
    "get_key receipt ''holderInstance'' = JStr inst"
    "checkpoint_receipt e sid claims receipt now s ob = (s2, r2)"
  shows "table_of (be_db e) s1 = table_of (be_db e) s \<and> (\<forall>result. r1 = Inr result \<longrightarrow> \<not> broker_applied result) \<and>
    table_of (be_db e) s2 = table_of (be_db e) s \<and> (\<exists>x. r2 = Inl x)"
proof (intro conjI)
  have beat: "table_of (be_db e) s1 = table_of (be_db e) s \<and> (\<forall>result. r1 = Inr result \<longrightarrow> \<not> broker_applied result)"
    using assms(5) unfolding heartbeat_lease_def
  proof (elim trying_elim)
    fix session conditions served
    assume c: "(if get_key beat ''initOwner'' = JNull then Inr [Equals ''leaseOwner'' (AttrS session)]
        else and_then (init_owner beat) (\<lambda>instance_id.
          Inr [Equals ''leaseOwner'' (AttrS session), same_holder instance_id])) = Inr conditions"
      and u: "conditional_update e sid (lease_beat_update served now) (all_of conditions) None s = (s1, r1)"
    have "\<not> holds (all_of conditions) (item_at (table_of (be_db e) s) (record_key sid))"
      using c assms(2-4) by (auto simp: and_then_Inr init_owner_Inr same_holder_def)
    with conditional_update_refused [OF assms(1) u] show ?thesis by blast
  qed simp_all
  then show "table_of (be_db e) s1 = table_of (be_db e) s" "\<forall>result. r1 = Inr result \<longrightarrow> \<not> broker_applied result"
    by simp_all
  have "table_of (be_db e) s2 = table_of (be_db e) s \<and> (\<exists>x. r2 = Inl x)"
    using assms(1) _ assms(7)
    by (rule refused_receipt)
      (use assms(2,3,6) in \<open>auto simp: receipt_holder_def receipt_condition_def same_holder_def split: if_splits\<close>)
  then show "table_of (be_db e) s2 = table_of (be_db e) s" "\<exists>x. r2 = Inl x" by simp_all
qed

theorem superseded_holder_fenced_witness:
  "table_of (be_db sample_broker_env) (fst (heartbeat_lease sample_broker_env broker_sid sample_session_claims
      (sample_broker_event ''heartbeatLease'' [(''initOwner'', JStr old_instance)]) 5
      [record_key broker_sid \<mapsto> broker_item_at ''READY'' [(''holderInstance'', AttrS new_instance)]])) =
    [record_key broker_sid \<mapsto> broker_item_at ''READY'' [(''holderInstance'', AttrS new_instance)]]"
proof -
  let ?t = "[record_key broker_sid \<mapsto> broker_item_at ''READY'' [(''holderInstance'', AttrS new_instance)]]"
  have h: "item_at (table_of (be_db sample_broker_env) ?t) (record_key broker_sid) ''holderInstance'' =
      Some (AttrS new_instance)"
    by (simp add: broker_item_at_def)
  show ?thesis
    using superseded_holder_fenced [OF _ h instances(3) _ prod.collapse [symmetric] _ prod.collapse [symmetric],
        of "sample_broker_event ''heartbeatLease'' [(''initOwner'', JStr old_instance)]"
        "sample_broker_event ''checkpointReceipt'' [(''holderInstance'', JStr old_instance)]"
        sample_session_claims 5 "[]"]
    by (simp add: sample_broker_event_def)
qed

text \<open>
  A working copy that missed a generation cannot commit: when the pointer is ahead of
  the base a receipt names, and the receipt is not the repetition of the one that put it there,
  the receipt raises and changes nothing.
\<close>

theorem forked_copy_refused:
  assumes "dynamo_documented (be_db e)"
    "item_at (table_of (be_db e) s) (record_key sid) ''lastCheckpointGeneration'' = Some (AttrN pointer)"
    "get_key event ''baseGeneration'' = JInt base" "base < pointer"
    "get_key event ''generation'' = JInt pointer \<Longrightarrow>
      item_at (table_of (be_db e) s) (record_key sid) ''lastCheckpointManifestDigest'' \<noteq> Some (AttrS digest)"
    "get_key event ''manifestDigest'' = JStr digest"
    "checkpoint_receipt e sid claims event now s ob = (s', r)"
  shows "table_of (be_db e) s' = table_of (be_db e) s \<and> (\<exists>x. r = Inl x)"
  using assms(1) _ assms(7)
proof (rule refused_receipt)
  fix rq holder
  assume "receipt_request_of claims event = Inr rq"
  then have rq: "get_key event ''generation'' = JInt (rq_generation rq)" "rq_digest rq = digest" "rq_base rq = Some base"
    using assms(3,6)
    by (auto simp: receipt_request_of_def and_then_Inr base_generation_def split: json.splits if_splits)
  have "\<not> holds (advance_condition rq) (item_at (table_of (be_db e) s) (record_key sid))"
    using assms(2,4,5) rq by (auto simp: advance_condition_def)
  then show "\<not> holds (receipt_condition rq holder) (item_at (table_of (be_db e) s) (record_key sid))"
    by (simp add: receipt_condition_def)
qed

theorem forked_copy_refused_witness:
  "\<exists>x. snd (checkpoint_receipt sample_broker_env broker_sid sample_session_claims
      (sample_broker_event ''checkpointReceipt'' [(''baseGeneration'', JInt 4), (''generation'', JInt 6),
        (''manifestDigest'', JStr (replicate 64 (CHR ''d'')))]) 5
      [record_key broker_sid \<mapsto> broker_item_at ''READY'' [(''lastCheckpointGeneration'', AttrN 5)]] []) = Inl x"
proof -
  let ?t = "[record_key broker_sid \<mapsto> broker_item_at ''READY'' [(''lastCheckpointGeneration'', AttrN 5)]]"
  let ?event = "sample_broker_event ''checkpointReceipt'' [(''baseGeneration'', JInt 4), (''generation'', JInt 6),
        (''manifestDigest'', JStr (replicate 64 (CHR ''d'')))]"
  have h: "item_at (table_of (be_db sample_broker_env) ?t) (record_key broker_sid) ''lastCheckpointGeneration'' =
      Some (AttrN 5)"
    by (simp add: broker_item_at_def)
  show ?thesis
    using forked_copy_refused [OF _ h _ _ _ _ prod.collapse [symmetric], of ?event 4
        "replicate 64 (CHR ''d'')" sample_session_claims 5 "[]"]
    by (simp add: sample_broker_event_def)
qed

subsection \<open>Callers stay within their own sandbox\<close>

lemma authorize_Inr:
  assumes "authorize e claims event checked s = Inr sid"
  shows "get_key event ''sandboxId'' = JStr sid" "get_key claims ''sandboxId'' = JStr sid"
    "py_eq (get_key event ''runtimeSessionId'') (get_key claims ''runtimeSessionId'')"
    "\<exists>it. broker_item e sid s = Inr it \<and>
      py_eq (opt_json (attr_s it ''runtimeSessionId'')) (get_key event ''runtimeSessionId'')"
  using assms
  by (auto simp: authorize_def claimed_sandbox_def authorized_item_def and_then_Inr split: json.splits if_splits)

lemma broker_item_Inr:
  "dynamo_documented (be_db e) \<Longrightarrow> broker_item e sid s = Inr it \<Longrightarrow>
    it = item_at (table_of (be_db e) s) (record_key sid)"
  by (auto simp: broker_item_def and_then_Inr split: sum.splits option.splits dest!: dynamo_get)

text \<open>
  A token of a superseded session is refused: whatever operation it asks for, apart from
  reading the record and the audit tick, the call raises and changes nothing, neither in the
  table nor in the bucket.
\<close>

theorem stale_session_refused:
  assumes "dynamo_documented (be_db e)" "get_key event ''bindingToken'' = JStr token"
    "binding e checked token = Inr claims" "get_key claims ''sandboxId'' = JStr sid"
    "get_key claims ''runtimeSessionId'' = JStr session"
    "attr_s (item_at (tbl e st) (record_key sid)) ''runtimeSessionId'' \<noteq> Some session"
    "get_key event ''operation'' \<notin> {JStr ''audit'', JStr ''readRecord''}"
    "broker_handler e checked now event st = (st', r)"
  shows "st' = st \<and> (\<exists>x. r = Inl x)"
proof -
  have "\<exists>x. authorize e claims event checked (bs_table st) = Inl x"
  proof (rule ccontr)
    assume "\<not> ?thesis"
    then obtain sid' where a: "authorize e claims event checked (bs_table st) = Inr sid'"
      by (cases "authorize e claims event checked (bs_table st)") auto
    note f = authorize_Inr [OF a]
    from f(2) assms(4) have sid: "sid' = sid" by simp
    from f(3) assms(5) have "get_key event ''runtimeSessionId'' = JStr session" by simp
    with f(4) broker_item_Inr [OF assms(1)] assms(6) show False
      by (auto simp: sid tbl_def opt_json_def split: option.splits)
  qed
  with assms(2,3,7,8) show ?thesis by (auto simp: broker_handler_def)
qed

text \<open>The handler's answer once the token and the record have been checked.\<close>

definition sample_token :: string where
  "sample_token = (case issue_token sample_kms sample_session_claims of Inr token \<Rightarrow> token | Inl _ \<Rightarrow> [])"

lemma sample_issued: "issue_token sample_kms sample_session_claims = Inr sample_token"
  by (simp add: sample_token_def issue_token_def signer_sign_def sample_kms_def Let_def)

lemma sample_claims_plain: "plain_json (JObj sample_session_claims)"
  by (simp add: sample_session_claims_def)

lemma sample_binding:
  obtains claims where "binding sample_broker_env (seconds 5) sample_token = Inr claims"
    "\<And>key. get_key claims key = sort_json (get_key sample_session_claims key)"
proof -
  have "is_ok (env_var sample_broker_env ''BINDING_KEY_ARN'')" "kms_documented (be_kms sample_broker_env)"
    "issue_token (be_kms sample_broker_env) sample_session_claims = Inr sample_token"
    by (simp_all add: sample_issued)
  moreover have "get_key sample_session_claims ''type'' = JStr ''runtime-session''"
    "''runtime-session'' \<in> set TOKEN_TYPES"
    "get_key sample_session_claims ''aud'' = JStr (''value-of-BINDING_AUDIENCE'')"
    "get_key sample_session_claims ''exp'' = JInt 1000000" "epoch (seconds 5) < 1000000"
    by (simp_all add: TOKEN_TYPES_def sample_session_claims_def)
  moreover have "env_var sample_broker_env ''BINDING_AUDIENCE'' = Inr (''value-of-BINDING_AUDIENCE'')" by simp
  ultimately show thesis using that sample_claims_plain by (metis binding_issued)
qed

theorem stale_session_refused_witness:
  "fst (broker_handler sample_broker_env (seconds 5) (seconds 6)
      (sample_broker_event ''acquireInit'' [(''bindingToken'', JStr sample_token)])
      (broker_state_of (map_of [(''runtimeSessionId'', AttrS ''newer'')]) [])) =
    broker_state_of (map_of [(''runtimeSessionId'', AttrS ''newer'')]) []"
proof (rule sample_binding)
  fix claims
  assume b: "binding sample_broker_env (seconds 5) sample_token = Inr claims"
    and g: "\<And>key. get_key claims key = sort_json (get_key sample_session_claims key)"
  let ?st = "broker_state_of (map_of [(''runtimeSessionId'', AttrS ''newer'')]) []"
  have "attr_s (item_at (tbl sample_broker_env ?st) (record_key broker_sid)) ''runtimeSessionId'' \<noteq> Some ''session''"
    by (simp add: attr_s_def)
  then show ?thesis
    using stale_session_refused [OF _ _ b _ _ _ _ prod.collapse [symmetric],
        of "sample_broker_event ''acquireInit'' [(''bindingToken'', JStr sample_token)]" broker_sid "''session''" ?st]
    by (simp add: sample_broker_event_def g) (simp add: sample_session_claims_def)
qed

text \<open>
  (C16) No call reaches beyond the sandbox its token was issued for: a call either changes
  nothing, or its token verified and names a sandbox, and every item outside the partition of
  that sandbox is as it was; within it, the sandbox's session, owner, identity and the fields
  the control plane keeps are as they were.
\<close>

theorem broker_confined_to_sandbox:
  assumes "dynamo_documented (be_db e)" "broker_handler e checked now event st = (st', r)"
  shows "st' = st \<or> (\<exists>token claims sid. get_key event ''bindingToken'' = JStr token \<and>
    binding e checked token = Inr claims \<and> get_key claims ''sandboxId'' = JStr sid \<and>
    (\<forall>k. fst k \<noteq> sandbox_pk sid \<longrightarrow> tbl e st' k = tbl e st k) \<and>
    (\<forall>k\<in>fixed_fields. item_at (tbl e st') (record_key sid) k = item_at (tbl e st) (record_key sid) k))"
  using assms
proof (rule handler_step)
  fix token claims sid
  assume f: "get_key event ''bindingToken'' = JStr token" "binding e checked token = Inr claims"
    "authorize e claims event checked (bs_table st) = Inr sid" "table_step e sid (bs_table st) (bs_table st')"
  then have "broker_step sid (tbl e st) (tbl e st')" by (simp add: table_step_def tbl_def)
  note step_other_partition [OF this] step_fixed_fields [OF this]
  with f(1,2) authorize_Inr(2) [OF f(3)] show ?thesis by blast
qed simp

definition claim_call :: answer where
  "claim_call = sample_broker_event ''acquireInit''
     [(''bindingToken'', JStr sample_token), (''initOwner'', JStr new_instance)]"

theorem broker_confined_to_sandbox_witness:
  "fst (broker_handler sample_broker_env (seconds 5) (seconds 6) claim_call sample_starting) = sample_starting \<or>
   (\<exists>token claims sid. get_key claim_call ''bindingToken'' = JStr token \<and>
    binding sample_broker_env (seconds 5) token = Inr claims \<and> get_key claims ''sandboxId'' = JStr sid \<and>
    (\<forall>k. fst k \<noteq> sandbox_pk sid \<longrightarrow>
      tbl sample_broker_env (fst (broker_handler sample_broker_env (seconds 5) (seconds 6) claim_call sample_starting)) k =
      tbl sample_broker_env sample_starting k) \<and>
    (\<forall>k\<in>fixed_fields. item_at (tbl sample_broker_env
        (fst (broker_handler sample_broker_env (seconds 5) (seconds 6) claim_call sample_starting))) (record_key sid) k =
      item_at (tbl sample_broker_env sample_starting) (record_key sid) k))"
  by (rule broker_confined_to_sandbox [OF _ prod.collapse [symmetric]]) simp

subsection \<open>Receipts and session tokens are honoured\<close>

text \<open>
  (C30) Across components: the receipt a broker signs for a committed checkpoint is the one the
  control plane's stop accepts, for the sandbox, session and subject it was issued for, until
  it expires, and what the control plane reads from it is the generation and digest committed.
\<close>

theorem broker_receipt_accepted_by_control:
  assumes "kms_documented (be_kms e)" "receipt_token e (sandbox_id r) rq now = Inr answer"
    "env_var e ''BINDING_AUDIENCE'' = Inr audience" "rq_session rq = runtime_session_id r"
    "rq_subject rq = subject_hash sha i" "0 < rq_generation rq" "length (rq_digest rq) = 64"
    "epoch later < epoch now + 600"
  shows "\<exists>token. get_key answer ''checkpointReceipt'' = JStr token \<and>
    verify_checkpoint_receipt sha (be_kms e) audience later token i r = Inr (rq_generation rq, rq_digest rq)"
proof -
  let ?claims = "[(''aud'', JStr audience), (''exp'', JInt (epoch (now + RECEIPT_TTL))),
      (''generation'', JInt (rq_generation rq)), (''iat'', JInt (epoch now)),
      (''manifestDigest'', JStr (rq_digest rq)), (''runtimeSessionId'', JStr (rq_session rq)),
      (''sandboxId'', JStr (sandbox_id r)), (''subjectHash'', JStr (rq_subject rq)),
      (''type'', JStr ''checkpoint-receipt'')]"
  from assms(2,3) obtain token where sign: "sign_claims e ?claims ''Checkpoint receipt signature is unavailable.'' = Inr token"
    and answer: "get_key answer ''checkpointReceipt'' = JStr token"
    by (auto simp: receipt_token_def and_then_Inr)
  from sign have issued: "issue_token (be_kms e) ?claims = Inr token"
    by (auto simp: sign_claims_def issue_token_def signer_sign_def Let_def and_then_Inr
        split: sum.splits option.splits)
  have "plain_json (JObj ?claims)" by simp
  then obtain claims' where v: "verify_token (be_kms e) token = Inr claims'"
    and g: "\<And>key. get_key claims' key = sort_json (get_key ?claims key)"
    using verify_issued [OF assms(1) issued] by blast
  have "epoch (now + RECEIPT_TTL) = epoch now + 600"
    by (simp add: RECEIPT_TTL_def minutes_def)
  then show ?thesis
    using assms(4-8) by (simp add: answer verify_checkpoint_receipt_def v g)
qed

definition sample_stop_identity :: identity where
  "sample_stop_identity = \<lparr>id_subject = ''user'', id_issuer = ''issuer'', id_administrator = False\<rparr>"

theorem broker_receipt_accepted_by_control_witness:
  "\<exists>answer token. receipt_token sample_broker_env (sandbox_id sample_record)
      (sample_request\<lparr>rq_session := runtime_session_id sample_record,
        rq_subject := subject_hash id sample_stop_identity\<rparr>) 5 = Inr answer \<and>
    get_key answer ''checkpointReceipt'' = JStr token \<and>
    verify_checkpoint_receipt id sample_kms ''value-of-BINDING_AUDIENCE'' 6 token sample_stop_identity sample_record =
      Inr (1, replicate 64 (CHR ''d''))"
proof -
  let ?rq = "sample_request\<lparr>rq_session := runtime_session_id sample_record,
        rq_subject := subject_hash id sample_stop_identity\<rparr>"
  obtain answer where a: "receipt_token sample_broker_env (sandbox_id sample_record) ?rq 5 = Inr answer"
    by (simp add: receipt_token_def sign_claims_def sample_kms_def Let_def)
  have "epoch 6 < epoch 5 + 600" by (simp add: epoch_def)
  with broker_receipt_accepted_by_control [OF _ a, of "''value-of-BINDING_AUDIENCE''" id sample_stop_identity 6] a
  show ?thesis by (simp add: sample_request_def)
qed

text \<open>
  A container that won the initialization can go on without a browser: the session
  token it is answered with is accepted by the broker for as long as it is meant to be, with
  the sandbox, session and subject of the claims it was won with.
\<close>

theorem session_token_accepted:
  assumes "kms_documented (be_kms e)" "runtime_session_token e claims now = Inr token"
    "get_key claims ''sandboxId'' = JStr sid" "get_key claims ''runtimeSessionId'' = JStr session"
    "get_key claims ''subjectHash'' = JStr subject" "epoch later < epoch now + be_session_ttl e"
  shows "\<exists>claims'. binding e later token = Inr claims' \<and> get_key claims' ''sandboxId'' = JStr sid \<and>
    get_key claims' ''runtimeSessionId'' = JStr session \<and> get_key claims' ''subjectHash'' = JStr subject"
proof -
  from assms(2) obtain audience where aud: "env_var e ''BINDING_AUDIENCE'' = Inr audience"
    by (auto simp: runtime_session_token_def and_then_Inr)
  let ?claims = "[(''aud'', JStr audience), (''exp'', JInt (epoch (now + seconds (be_session_ttl e)))),
          (''iat'', JInt (epoch now)), (''runtimeSessionId'', JStr session),
          (''sandboxId'', JStr sid), (''subjectHash'', JStr subject), (''type'', JStr ''runtime-session'')]"
  have sign: "sign_claims e ?claims ''Runtime session token signature is unavailable.'' = Inr token"
    using assms(2) aud by (simp add: runtime_session_token_def assms(3-5))
  then have key: "is_ok (env_var e ''BINDING_KEY_ARN'')"
    by (auto simp: sign_claims_def Let_def and_then_Inr)
  have issued: "issue_token (be_kms e) ?claims = Inr token"
    using sign
    by (auto simp: sign_claims_def issue_token_def signer_sign_def Let_def and_then_Inr
        split: sum.splits option.splits)
  show ?thesis
    using assms(1) issued _ key aud
  proof (rule binding_issued [where kind = "''runtime-session''" and now = later
        and expires = "epoch now + be_session_ttl e"])
    fix claims'
    assume "binding e later token = Inr claims'" "\<And>key. get_key claims' key = sort_json (get_key ?claims key)"
    then show ?thesis by simp
  qed (use assms(6) in \<open>simp_all add: TOKEN_TYPES_def\<close>)
qed

theorem session_token_accepted_witness:
  "\<exists>token claims'. runtime_session_token sample_broker_env sample_session_claims (seconds 5) = Inr token \<and>
    binding sample_broker_env (seconds 20000) token = Inr claims' \<and> get_key claims' ''sandboxId'' = JStr broker_sid"
proof -
  obtain token where t: "runtime_session_token sample_broker_env sample_session_claims (seconds 5) = Inr token"
    using sample_signs by blast
  with session_token_accepted [OF _ t, of broker_sid "''session''" "replicate 64 (CHR ''a'')" "seconds 20000"]
  show ?thesis by (auto simp: sample_session_claims_def)
qed

subsection \<open>Storage grants\<close>

definition grant_confined :: "('s, 'o) broker_env \<Rightarrow> string \<Rightarrow> answer \<Rightarrow> bool" where
  "grant_confined e sid grant =
     (\<exists>rq category name. get_key grant ''url'' = JStr (s3_presigned_url (be_s3 e) rq) \<and>
        get_key grant ''method'' = JStr (pr_method rq) \<and>
        map_of (pr_params rq) ''Key'' = Some (''sandboxes/'' @ sid @ ''/'' @ category @ ''/'' @ name) \<and>
        category \<in> {''chunks'', ''manifests'', ''commits''} \<and> CHR ''/'' \<notin> set name \<and>
        pr_expires_in rq = 300 \<and>
        (pr_method rq = ''PUT'' \<and> category \<noteq> ''chunks'' \<longrightarrow> map_of (pr_params rq) ''IfNoneMatch'' = Some ''*''))"

lemma hex_no_slash: "is_hex c \<Longrightarrow> c \<noteq> CHR ''/''"
  by (auto simp: is_hex_def is_decimal_char_def)

lemma decimal_no_slash: "is_decimal_char c \<Longrightarrow> c \<noteq> CHR ''/''"
  by (auto simp: is_decimal_char_def)

lemma remove_suffix_set: "ends_with s p \<Longrightarrow> set s = set (remove_suffix s p) \<union> set p"
  by (auto simp: ends_with_iff)

lemma generation_object_no_slash: "generation_object name \<Longrightarrow> CHR ''/'' \<notin> set name"
proof -
  have "CHR ''/'' \<notin> set name" if "ends_with name p" "positive_decimal (remove_suffix name p)" "CHR ''/'' \<notin> set p" for p
    using that(2,3) unfolding remove_suffix_set [OF that(1)]
    by (auto simp: positive_decimal_def list_all_iff dest: decimal_no_slash)
  from this [of "''.json''"] this [of "''.json.enc''"]
  show "generation_object name \<Longrightarrow> CHR ''/'' \<notin> set name"
    by (auto simp: generation_object_def)
qed

lemma object_name_Inr:
  assumes "object_name category name = Inr suffix"
  shows "suffix = category @ ''/'' @ name \<and> category \<in> {''chunks'', ''manifests'', ''commits''} \<and> CHR ''/'' \<notin> set name"
proof -
  have "CHR ''/'' \<notin> set name" if "ends_with name ''.bin''" "digest_pattern (remove_suffix name ''.bin'')"
    using that(2) unfolding remove_suffix_set [OF that(1)]
    by (auto simp: digest_pattern_def list_all_iff dest: hex_no_slash)
  with assms generation_object_no_slash [of name] show ?thesis
    unfolding object_name_def by (cases "generation_object name") (auto split: if_split_asm)
qed

lemma presign_confined:
  assumes "presign e sid event now = Inr grant"
  shows "grant_confined e sid grant"
proof -
  from assms obtain category name verb operation suffix bucket key_id where f:
    "object_name category name = Inr suffix"
    "(if verb = ''PUT'' then map_sum id Some (env_var e ''KMS_KEY_ARN'') else Inr None) = Inr key_id"
    and g: "grant = [(''expiresAt'', JStr (timestamp (now + URL_TTL))),
        (''headers'', JObj (case key_id of None \<Rightarrow> [] | Some k \<Rightarrow> put_headers k sid category)),
        (''method'', JStr verb),
        (''url'', JStr (s3_presigned_url (be_s3 e)
           \<lparr>pr_operation = operation,
            pr_params = [(''Bucket'', bucket), (''Key'', object_prefix sid @ suffix)] @
              (case key_id of None \<Rightarrow> [] | Some k \<Rightarrow> put_params k sid category),
            pr_expires_in = epoch URL_TTL, pr_method = verb\<rparr>))]"
    by (auto simp: presign_def and_then_Inr split: json.splits option.splits)
  have put: "key_id \<noteq> None" if "verb = ''PUT''"
    using f(2) that by (cases "env_var e ''KMS_KEY_ARN''") auto
  define rq where "rq = \<lparr>pr_operation = operation,
      pr_params = [(''Bucket'', bucket), (''Key'', object_prefix sid @ suffix)] @
        (case key_id of None \<Rightarrow> [] | Some k \<Rightarrow> put_params k sid category),
      pr_expires_in = epoch URL_TTL, pr_method = verb\<rparr>"
  have "get_key grant ''url'' = JStr (s3_presigned_url (be_s3 e) rq)" "get_key grant ''method'' = JStr (pr_method rq)"
    by (simp_all add: g rq_def)
  moreover have "map_of (pr_params rq) ''Key'' = Some (''sandboxes/'' @ sid @ ''/'' @ category @ ''/'' @ name)"
    "pr_expires_in rq = 300"
    using object_name_Inr [OF f(1)] by (simp_all add: rq_def object_prefix_def URL_TTL_def minutes_def)
  moreover have "map_of (pr_params rq) ''IfNoneMatch'' = Some ''*''"
    if "pr_method rq = ''PUT''" "category \<noteq> ''chunks''"
    using that put object_name_Inr [OF f(1)] by (auto simp: rq_def put_params_def)
  ultimately show ?thesis
    using object_name_Inr [OF f(1)] unfolding grant_confined_def by blast
qed

lemma presign_all_confined:
  "presign_all e sid method now names = Inr grants \<Longrightarrow> g \<in> set grants \<Longrightarrow>
    \<exists>name grant. g = JObj ((''name'', JStr name) # grant) \<and> grant_confined e sid grant"
proof (induction names arbitrary: grants)
  case (Cons name names)
  from Cons.prems(1) obtain grant rest where f: "presign e sid
      [(''category'', JStr ''chunks''), (''name'', JStr name), (''method'', JStr method)] now = Inr grant"
    "presign_all e sid method now names = Inr rest" "grants = JObj ((''name'', JStr name) # grant) # rest"
    by (auto simp: and_then_Inr)
  with Cons.IH [OF f(2)] Cons.prems(2) presign_confined [OF f(1)] show ?case by auto
qed simp

text \<open>A grant of a call that signs: the answer of \<open>presign\<close>, or one of those of a batch.\<close>

definition granted :: "('s, 'o) broker_env \<Rightarrow> string \<Rightarrow> answer \<Rightarrow> time \<Rightarrow> answer \<Rightarrow> bool" where
  "granted e sid event now grant =
     (presign e sid event now = Inr grant \<or>
      (\<exists>grants name. presign_batch e sid event now = Inr [(''grants'', JList grants)] \<and>
         JObj ((''name'', JStr name) # grant) \<in> set grants))"

text \<open>
  Every storage grant stays in the caller's own prefix: its key is a single name directly
  below one of the three categories of the sandbox, whatever names the caller sent, it lives
  for five minutes, and a grant to write a manifest or a commit record is write-once.
\<close>

theorem grants_confined:
  assumes "granted e sid event now grant"
  shows "grant_confined e sid grant"
  using assms unfolding granted_def
proof
  assume "\<exists>grants name. presign_batch e sid event now = Inr [(''grants'', JList grants)] \<and>
         JObj ((''name'', JStr name) # grant) \<in> set grants"
  then obtain verb names grants name where "presign_all e sid verb now names = Inr grants"
    "JObj ((''name'', JStr name) # grant) \<in> set grants"
    by (auto simp: presign_batch_def and_then_Inr split: json.splits if_splits)
  then show ?thesis using presign_all_confined [of e sid verb now names grants] by blast
qed (rule presign_confined)

theorem grants_confined_witness:
  "\<exists>grant. presign sample_broker_env broker_sid
      (sample_broker_event ''presign'' [(''category'', JStr ''commits''), (''name'', JStr ''7.json''), (''method'', JStr ''PUT'')]) 5 =
      Inr grant \<and> grant_confined sample_broker_env broker_sid grant"
proof -
  have "object_name ''commits'' ''7.json'' = Inr ''commits/7.json''" by code_simp
  then obtain grant where g: "presign sample_broker_env broker_sid
      (sample_broker_event ''presign'' [(''category'', JStr ''commits''), (''name'', JStr ''7.json''), (''method'', JStr ''PUT'')]) 5 =
      Inr grant"
    by (simp add: presign_def sample_broker_event_def presign_operation_def)
  then show ?thesis using grants_confined [of sample_broker_env broker_sid _ 5 grant] by (auto simp: granted_def)
qed

text \<open>What KMS documents: a generated key decrypts under the context it was generated for.\<close>

definition vault_documented :: "vault \<Rightarrow> bool" where
  "vault_documented v = (\<forall>k c p x. generate_data_key v k c = Inr (p, x) \<longrightarrow> kms_decrypt v k c x = Inr (Some p))"

lemma open_stored_data_key:
  assumes "vault_documented (be_vault e)" "env_var e ''KMS_KEY_ARN'' = Inr key_id"
    "generate_data_key (be_vault e) key_id (checkpoint_context sid) = Inr (p, x)"
  shows "open_data_key e sid (stored_data_key x) = Inr [(''plaintextKey'', JStr (base64 p))]"
proof -
  have "kms_decrypt (be_vault e) key_id (checkpoint_context sid) x = Inr (Some p)"
    using assms(1,3) by (simp add: vault_documented_def)
  moreover have "json_loads (stored_data_key x) =
      Some (sort_json (JObj [(''ciphertext'', JStr (base64 x)), (''schemaVersion'', JInt 1)]))"
    unfolding stored_data_key_def by (rule json_loads_dumps) simp
  ultimately show ?thesis using assms(2) by (simp add: open_data_key_def)
qed

lemma open_data_key_cong:
  assumes "env_var e' = env_var e" "kms_decrypt (be_vault e') = kms_decrypt (be_vault e)"
  shows "open_data_key e' sid body = open_data_key e sid body"
  unfolding open_data_key_def assms ..

text \<open>Whenever a data key is answered, the bucket holds the object that opens to it.\<close>

lemma data_key_stored:
  assumes "s3_documented (be_s3 e) at_key" "vault_documented (be_vault e)" "data_key e sid ob = (ob', Inr answer)"
    "env_var e ''CHECKPOINT_BUCKET'' = Inr bucket"
  shows "\<exists>body. at_key ob' bucket (object_prefix sid @ ''data-key.json'') = Some body \<and>
    open_data_key e sid body = Inr answer"
proof -
  let ?key = "object_prefix sid @ ''data-key.json''"
  note doc = assms(1) [unfolded s3_documented_def]
  show ?thesis
  proof (cases "s3_get_object (be_s3 e) bucket ?key ob")
    case (Inr body)
    then show ?thesis using assms(3,4) doc by (auto simp: data_key_def)
  next
    case (Inl code)
    then have "create_data_key e sid bucket ?key ob = (ob', Inr answer)"
      using assms(3,4) by (auto simp: data_key_def split: if_splits)
    then show ?thesis unfolding create_data_key_def
    proof (elim trying_elim)
      fix key_id
      assume k: "env_var e ''KMS_KEY_ARN'' = Inr key_id"
        and run: "(case generate_data_key (be_vault e) key_id (checkpoint_context sid) of
           Inl code \<Rightarrow> (ob, Inl (ClientCrash code))
         | Inr (plaintext, ciphertext) \<Rightarrow>
             (case s3_put_new (be_s3 e) bucket ?key (stored_data_key ciphertext) ob of
                (ob', Inr _) \<Rightarrow> (ob', Inr [(''plaintextKey'', JStr (base64 plaintext))])
              | (ob', Inl code) \<Rightarrow>
                  if code \<notin> {''ConditionalRequestConflict'', ''PreconditionFailed''}
                  then (ob', Inl (ClientCrash code))
                  else (case s3_get_object (be_s3 e) bucket ?key ob' of
                      Inl code' \<Rightarrow> (ob', Inl (ClientCrash code'))
                    | Inr stored \<Rightarrow> (ob', open_data_key e sid stored)))) = (ob', Inr answer)"
      obtain p x where gen: "generate_data_key (be_vault e) key_id (checkpoint_context sid) = Inr (p, x)"
        using run by (auto split: sum.splits)
      obtain ob1 put where put: "s3_put_new (be_s3 e) bucket ?key (stored_data_key x) ob = (ob1, put)"
        by (cases "s3_put_new (be_s3 e) bucket ?key (stored_data_key x) ob")
      show ?thesis
        using run gen put doc open_stored_data_key [OF assms(2) k gen]
        by (cases put) (auto split: if_splits sum.splits)
    qed simp_all
  qed
qed

text \<open>
  All containers of a sandbox get one data key: after a call has answered a key, a call of
  another invocation, with whatever key KMS would generate for it, changes nothing in the
  bucket and answers the same key, or fails with the error of the service.
\<close>

theorem data_key_converges:
  assumes "s3_documented (be_s3 e) at_key" "vault_documented (be_vault e)"
    "data_key e sid ob = (ob1, Inr answer)"
    "be_s3 e' = be_s3 e" "be_environ e' = be_environ e" "kms_decrypt (be_vault e') = kms_decrypt (be_vault e)"
    "data_key e' sid ob1 = (ob2, r)"
  shows "ob2 = ob1 \<and> (r = Inr answer \<or> (\<exists>code. r = Inl (ClientCrash code)))"
proof -
  let ?key = "object_prefix sid @ ''data-key.json''"
  have env: "env_var e' = env_var e" by (rule ext) (simp add: env_var_def assms(5))
  have same: "open_data_key e' sid body = open_data_key e sid body" for body
    using env assms(6) by (rule open_data_key_cong)
  obtain bucket where b: "env_var e ''CHECKPOINT_BUCKET'' = Inr bucket"
    using assms(3) by (auto simp: data_key_def elim: trying_elim)
  obtain body where at: "at_key ob1 bucket ?key = Some body" and opened: "open_data_key e sid body = Inr answer"
    using data_key_stored [OF assms(1-3) b] by blast
  have "s3_get_object (be_s3 e) bucket ?key ob1 = Inr body' \<Longrightarrow> body' = body" for body'
    using assms(1) at by (auto simp: s3_documented_def)
  moreover have "s3_get_object (be_s3 e) bucket ?key ob1 = Inl code \<Longrightarrow> code \<notin> {''NoSuchKey'', ''404''}" for code
    using assms(1) at unfolding s3_documented_def by (metis option.distinct(1))
  ultimately show ?thesis
    using assms(7) b opened
    by (cases "s3_get_object (be_s3 e) bucket ?key ob1") (auto simp: data_key_def env assms(4) same)
qed

lemma sample_vault_documented: "vault_documented (sample_vault fresh)"
  by (simp add: vault_documented_def sample_vault_def)

text \<open>The two containers of the witness would generate different keys.\<close>

theorem data_key_converges_witness:
  "\<exists>ob1 ob2 answer. data_key sample_broker_env broker_sid [] = (ob1, Inr answer) \<and>
    data_key (sample_broker_env\<lparr>be_vault := sample_vault ''another''\<rparr>) broker_sid ob1 = (ob2, Inr answer) \<and> ob2 = ob1"
proof -
  let ?e' = "sample_broker_env\<lparr>be_vault := sample_vault ''another''\<rparr>"
  obtain ob1 answer where first: "data_key sample_broker_env broker_sid [] = (ob1, Inr answer)"
    and stored: "map_of ob1 (''value-of-CHECKPOINT_BUCKET'', object_prefix broker_sid @ ''data-key.json'') \<noteq> None"
    by (simp add: data_key_def create_data_key_def memory_s3_def sample_vault_def)
  obtain ob2 r where second: "data_key ?e' broker_sid ob1 = (ob2, r)" by fastforce
  have doc: "s3_documented (be_s3 sample_broker_env) (\<lambda>ob b k. map_of ob (b, k))"
    by (simp add: memory_s3_documented)
  have vault: "vault_documented (be_vault sample_broker_env)" by (simp add: sample_vault_documented)
  have c: "ob2 = ob1 \<and> (r = Inr answer \<or> (\<exists>code. r = Inl (ClientCrash code)))"
    using data_key_converges [OF doc vault first _ _ _ second] by (simp add: sample_vault_def)
  obtain body where at: "map_of ob1 (''value-of-CHECKPOINT_BUCKET'', object_prefix broker_sid @ ''data-key.json'') = Some body"
    and opened: "open_data_key sample_broker_env broker_sid body = Inr answer"
    using data_key_stored [OF doc vault first, of "''value-of-CHECKPOINT_BUCKET''"] by auto
  have "env_var ?e' = env_var sample_broker_env" by (rule ext) (simp add: env_var_def)
  then have "open_data_key ?e' broker_sid body = open_data_key sample_broker_env broker_sid body"
    by (rule open_data_key_cong) (simp add: sample_vault_def)
  then have "r = Inr answer"
    using second opened at by (simp add: data_key_def env_var_def required_def sample_environ_def memory_s3_def)
  with first second c show ?thesis by blast
qed

subsection \<open>Two limits of the scheme\<close>

lemma time_of_epoch: "0 \<le> t \<Longrightarrow> t = seconds (epoch t) + int (micro_of t)"
  by (simp add: seconds_def epoch_def micro_of_def zmod_int)

text \<open>
  Leases are compared as text. The comparison is exact from one second to the next; within
  one second it follows the printed fraction, and a time on the whole second, which prints
  none, counts as the latest of its second: a lease that ends at half a second past counts as
  over at the whole second before it.
\<close>

theorem lease_comparison_is_textual:
  assumes "valid_time lease_end" "valid_time now" "it ''leaseExpiresAt'' = Some (AttrS (timestamp lease_end))"
  shows "holds (Below ''leaseExpiresAt'' (AttrS (timestamp now))) it \<longleftrightarrow>
    (if epoch lease_end = epoch now
     then micro_of lease_end \<noteq> 0 \<and> (micro_of now = 0 \<or> micro_of lease_end < micro_of now)
     else lease_end < now)"
proof (cases "epoch lease_end" "epoch now" rule: linorder_cases)
  case less
  moreover have "lease_end < now" using less epoch_mono by (meson leD le_less_linear)
  moreover have "timestamp lease_end < timestamp now"
    using assms(1) less assms(2) by (intro iso_less_of_second) (simp_all add: valid_time_def)
  ultimately show ?thesis using assms(3) by simp
next
  case equal
  with assms show ?thesis
    using iso_same_second [of lease_end now] by (simp add: valid_time_def)
next
  case greater
  moreover have "now < lease_end" using greater epoch_mono by (meson leD le_less_linear)
  moreover have "timestamp now < timestamp lease_end"
    using assms(1,2) greater by (intro iso_less_of_second) (simp_all add: valid_time_def)
  ultimately show ?thesis using assms(3) by (auto dest: order.asym)
qed

theorem lease_comparison_is_textual_witness:
  "holds (Below ''leaseExpiresAt'' (AttrS (timestamp (seconds 90))))
     [''leaseExpiresAt'' \<mapsto> AttrS (timestamp (seconds 90 + 500000))] \<and> seconds 90 < seconds 90 + 500000"
  by (subst lease_comparison_is_textual [of "seconds 90 + 500000" "seconds 90"])
    (simp_all add: valid_small seconds_def epoch_def micro_of_def)

text \<open>
  A lease heartbeat does not count the state version up, so the optimistic lock of the
  control plane does not see it: a full write based on a read from before the heartbeat still
  succeeds and puts the lease of that read back.
\<close>

theorem heartbeat_lost_to_full_write:
  assumes "dynamo_documented (be_db e)" "heartbeat_lease e sid claims event now s = (s1, Inr result)"
    "broker_applied result" "item_at (table_of (be_db e) s) (record_key sid) ''stateVersion'' = Some (AttrN (state_version previous))"
    "sandbox_id updated = sid" "hints_ok (wake_hints updated)" "put_updated table_service previous updated (table_of (be_db e) s1) = (t2, r)"
  shows "item_at (table_of (be_db e) s1) (record_key sid) ''leaseExpiresAt'' = Some (AttrS (timestamp (now + seconds 90))) \<and>
    r = Inr () \<and> item_at t2 (record_key sid) ''leaseExpiresAt'' =
      map_option (\<lambda>t. AttrS (timestamp t)) (lease_expires_at updated)"
proof -
  obtain served where t: "table_of (be_db e) s1 =
      after_update sid (lease_beat_update served now) (table_of (be_db e) s)"
    using assms(2) conditional_update_applied [OF assms(1) _ assms(3)] unfolding heartbeat_lease_def
    by (elim trying_elim) auto
  let ?u = "lease_beat_update served now" and ?it = "item_at (table_of (be_db e) s) (record_key sid)"
  have "apply_update ?u ?it ''leaseExpiresAt'' = Some (AttrS (timestamp (now + seconds 90)))"
    by (simp add: lease_beat_update_def update_effect split: option.split)
  moreover have "apply_update ?u ?it ''stateVersion'' = Some (AttrN (state_version previous))"
    using version_frame(2) [of served now ?it] assms(4) by (simp add: attr_n_Some [symmetric])
  then have "allowed (table_of (be_db e) s1) (Put (record_item updated) (Equals ''stateVersion'' (AttrN (state_version previous))))"
    using assms(5,6) by (simp add: allowed_def t record_item_key)
  then have "r = Inr ()" "t2 = (table_of (be_db e) s1)(record_key sid \<mapsto> record_item updated)"
    using assms(5-7) by (simp_all add: put_updated_def record_item_key)
  ultimately show ?thesis using assms(6) by (simp add: t record_item_fields)
qed

definition leased_record :: sandbox_record where
  "leased_record = sample_record\<lparr>sandbox_id := broker_sid, state_version := 3, wake_hints := [],
     lease_expires_at := Some (seconds 100)\<rparr>"

theorem heartbeat_lost_to_full_write_witness:
  "\<exists>s1 result t2. heartbeat_lease sample_broker_env broker_sid sample_session_claims
      (sample_broker_event ''heartbeatLease'' []) (seconds 50) (bs_table (broker_state_of serving_item [])) = (s1, Inr result) \<and>
    put_updated table_service leased_record leased_record s1 = (t2, Inr ()) \<and>
    item_at t2 (record_key broker_sid) ''leaseExpiresAt'' = Some (AttrS (timestamp (seconds 100)))"
proof -
  obtain s1 result where beat: "heartbeat_lease sample_broker_env broker_sid sample_session_claims
      (sample_broker_event ''heartbeatLease'' []) (seconds 50) (bs_table (broker_state_of serving_item [])) = (s1, Inr result)"
    "broker_applied result"
    by (simp add: heartbeat_lease_def sample_session sample_broker_event_def served_at_def conditional_update_def
        allowed_def broker_applied_def serving_item_def broker_item_at_def)
  obtain t2 r where put: "put_updated table_service leased_record leased_record
      (table_of (be_db sample_broker_env) s1) = (t2, r)" by fastforce
  have "item_at (table_of (be_db sample_broker_env) (bs_table (broker_state_of serving_item []))) (record_key broker_sid)
      ''stateVersion'' = Some (AttrN (state_version leased_record))"
    by (simp add: serving_item_def broker_item_at_def leased_record_def)
  moreover have "sandbox_id leased_record = broker_sid" "hints_ok (wake_hints leased_record)"
    by (simp_all add: leased_record_def hints_ok_def hints_of_def hint_attributes_def)
  ultimately show ?thesis
    using heartbeat_lost_to_full_write [OF _ beat _ _ _ put] beat put by (auto simp: leased_record_def)
qed

end
