(* ===== verification/Waker.thy ===== *)
theory Waker
  imports ToolToken
begin

text \<open>
  \<open>kirocrew_agentcore_waker/lambda_handler.py\<close>: the Lambda function that wakes a sandbox when
  one of its scheduled jobs is due, holds it while it works, and checkpoints and stops it.
  Everything outside the function is a record of operations over a state of the world: the
  clock, sleeping, random choices, DynamoDB, the control plane, the runtime, its own
  asynchronous invocation. Times are microseconds, where the source has float seconds.
\<close>

subsection \<open>The world\<close>

record 'w world =
  w_environ :: environ
  w_time :: "'w \<Rightarrow> time"
  w_monotonic :: "'w \<Rightarrow> time"
  w_sleep :: "timedelta \<Rightarrow> 'w \<Rightarrow> 'w"
  w_choices :: "'w \<Rightarrow> 'w \<times> nat list"
  w_get_item :: "key \<Rightarrow> 'w \<Rightarrow> 'w \<times> (string, item option) result"
  w_scan :: "'w \<Rightarrow> 'w \<times> (string, item list) result"
  w_decrypt :: "string \<Rightarrow> kms_context \<Rightarrow> string \<Rightarrow> (string, string option) result"
  w_list_users :: "string \<Rightarrow> (string, json list) result"
  w_sha :: "string \<Rightarrow> string"
  w_control :: "json \<Rightarrow> 'w \<Rightarrow> 'w \<times> (string, string) result"
  w_runtime :: "string \<Rightarrow> json \<Rightarrow> 'w \<Rightarrow> 'w \<times> (string, int \<times> string) result"
  w_invoke_self :: "string \<Rightarrow> json \<Rightarrow> 'w \<Rightarrow> 'w \<times> (string, unit) result"
  w_function_arn :: "string option"
  w_remaining :: "'w \<Rightarrow> timedelta option"

text \<open>The next statement after one that changes the world and may raise.\<close>

definition chain ::
  "'w \<times> ('e, 'a) result \<Rightarrow> ('a \<Rightarrow> 'w \<Rightarrow> 'w \<times> ('e, 'b) result) \<Rightarrow> 'w \<times> ('e, 'b) result" where
  "chain p f = (case p of (w, Inl e) \<Rightarrow> (w, Inl e) | (w, Inr x) \<Rightarrow> f x w)"

lemma chain_simps [simp]: "chain (w, Inl e) f = (w, Inl e)" "chain (w, Inr x) f = f x w"
  by (simp_all add: chain_def)

definition env_text :: "environ \<Rightarrow> string \<Rightarrow> string \<Rightarrow> string" where
  "env_text env name otherwise = (case env name of None \<Rightarrow> otherwise | Some v \<Rightarrow> v)"

text \<open>\<open>int(os.environ.get(name, otherwise))\<close>\<close>

definition env_int :: "environ \<Rightarrow> string \<Rightarrow> int \<Rightarrow> (crash, int) result" where
  "env_int env name otherwise = (case env name of
     None \<Rightarrow> Inr otherwise
   | Some text \<Rightarrow> (case read_int text of
       None \<Rightarrow> Inl (ValueCrash ''invalid literal for int()'')
     | Some n \<Rightarrow> Inr n))"

definition waker_required :: "environ \<Rightarrow> string \<Rightarrow> (crash, string) result" where
  "waker_required env name =
     (let v = env_text env name [] in
      if v = [] then Inl (RuntimeErr (name @ '' must be configured.'')) else Inr v)"

text \<open>Truth of a JSON value, and the values \<open>isinstance(x, int)\<close> admits: booleans are integers.\<close>

fun truthy :: "json \<Rightarrow> bool" where
  "truthy JNull = False"
| "truthy (JBool b) = b"
| "truthy (JInt n) = (n \<noteq> 0)"
| "truthy (JFloat m) = (m \<noteq> 0)"
| "truthy (JStr s) = (s \<noteq> [])"
| "truthy (JList xs) = (xs \<noteq> [])"
| "truthy (JObj kvs) = (kvs \<noteq> [])"

fun int_like :: "json \<Rightarrow> int option" where
  "int_like (JInt n) = Some n"
| "int_like (JBool b) = Some (if b then 1 else 0)"
| "int_like _ = None"

subsection \<open>Request ids\<close>

fun ulid_head :: "nat \<Rightarrow> nat \<Rightarrow> string \<Rightarrow> string" where
  "ulid_head 0 remaining head = head"
| "ulid_head (Suc n) remaining head = ulid_head n (remaining div 32) (crockford ! (remaining mod 32) # head)"

text \<open>\<open>_ulid\<close>: ten characters of the milliseconds, sixteen random ones.\<close>

definition ulid :: "'w world \<Rightarrow> 'w \<Rightarrow> 'w \<times> string" where
  "ulid o' w = (case w_choices o' w of (w', picks) \<Rightarrow>
     (w', ulid_head 10 (nat (w_time o' w div 1000)) [] @ map (\<lambda>i. crockford ! (i mod 32)) (take 16 picks)))"

subsection \<open>Whether to wake\<close>

definition CATCH_UP_GRACE_SECONDS :: int where "CATCH_UP_GRACE_SECONDS = 1800"
definition LEGACY_WAKE_SECONDS :: int where "LEGACY_WAKE_SECONDS = 6 * 3600"
definition STALE_HOLD_SECONDS :: int where "STALE_HOLD_SECONDS = 1200"

text \<open>\<open>int(restore_seconds * 1.5)\<close> rounds towards zero.\<close>

definition wake_lead :: "int option \<Rightarrow> int" where
  "wake_lead restore_seconds = (case restore_seconds of
     None \<Rightarrow> 180
   | Some r \<Rightarrow> max 90 (min 600 ((if 0 \<le> r then 3 * r div 2 else - (- 3 * r div 2)) + 30)))"

definition iso_epoch :: "string option \<Rightarrow> time option" where
  "iso_epoch v = (case v of
     None \<Rightarrow> None
   | Some text \<Rightarrow> if text = [] then None else read_timestamp text)"

record wake_plan =
  wp_wake :: bool
  wp_reason :: string
  wp_due :: "int option"
  wp_job :: string

definition no_wake :: "string \<Rightarrow> wake_plan" where
  "no_wake reason = \<lparr>wp_wake = False, wp_reason = reason, wp_due = None, wp_job = []\<rparr>"

definition wake_now :: "string \<Rightarrow> wake_plan" where
  "wake_now reason = \<lparr>wp_wake = True, wp_reason = reason, wp_due = None, wp_job = []\<rparr>"

text \<open>How long the record has not been touched, when it says.\<close>

definition held_for :: "item \<Rightarrow> time \<Rightarrow> timedelta option" where
  "held_for it now = map_option (\<lambda>updated. now - updated) (iso_epoch (attr_s it ''updatedAt''))"

definition sandbox_held :: "item \<Rightarrow> time \<Rightarrow> bool" where
  "sandbox_held it now =
     (if text_or_empty it ''state'' = ''STOPPED'' then False
      else if (case attr_n it ''initExpiresAt'' of None \<Rightarrow> False | Some n \<Rightarrow> now < seconds n) then True
      else (case iso_epoch (attr_s it ''leaseExpiresAt'') of
          Some lease \<Rightarrow> now < lease
        | None \<Rightarrow> (case held_for it now of
            None \<Rightarrow> False
          | Some d \<Rightarrow> d < seconds STALE_HOLD_SECONDS)))"

text \<open>\<open>_recovery\<close>\<close>

definition recovery :: "time \<Rightarrow> int \<Rightarrow> timedelta option \<Rightarrow> string \<Rightarrow> bool \<times> string" where
  "recovery now due_at held reason =
     (let stale = seconds LEGACY_WAKE_SECONDS < now - seconds due_at;
          idle = (case held of None \<Rightarrow> True | Some d \<Rightarrow> seconds LEGACY_WAKE_SECONDS \<le> d) in
      if stale \<and> idle then (True, ''stranded schedule; recovery wake'') else (False, reason))"

definition due_plan :: "item \<Rightarrow> time \<Rightarrow> int \<Rightarrow> bool \<times> string" where
  "due_plan it now due_at =
     (let lead = wake_lead (attr_n it ''restoreSeconds''); held = held_for it now;
          updated = iso_epoch (attr_s it ''updatedAt'') in
      if due_at = 0 then (False, ''nothing scheduled'')
      else if now < seconds (due_at - lead)
      then (False, ''due in '' @ dec_int ((seconds due_at - now) div 1000000) @ ''s, lead '' @ dec_int lead @ ''s'')
      else if (case updated of None \<Rightarrow> False | Some u \<Rightarrow> seconds due_at \<le> u)
      then recovery now due_at held ''already handled this occurrence''
      else if seconds CATCH_UP_GRACE_SECONDS < now - seconds due_at
      then recovery now due_at held ''occurrence too old to catch up''
      else (True, ''due at '' @ dec_int due_at @ '', lead '' @ dec_int lead @ ''s''))"

text \<open>\<open>_wake_plan\<close> for an item that exists.\<close>

definition item_plan :: "item \<Rightarrow> time \<Rightarrow> wake_plan" where
  "item_plan it now =
     (if sandbox_held it now then no_wake (''sandbox is '' @ text_or_empty it ''state'')
      else (case attr_n it ''nextDueAt'' of
          None \<Rightarrow>
            if (case held_for it now of None \<Rightarrow> True | Some d \<Rightarrow> seconds LEGACY_WAKE_SECONDS \<le> d)
            then wake_now ''no published schedule; periodic wake''
            else no_wake ''no published schedule; periodic wake not yet due''
        | Some due_at \<Rightarrow>
            (case due_plan it now due_at of (wake, reason) \<Rightarrow>
              \<lparr>wp_wake = wake, wp_reason = reason, wp_due = Some due_at,
               wp_job = text_or_empty it ''nextDueJob''\<rparr>)))"

definition plan_fields :: "string list" where
  "plan_fields = [''state'', ''updatedAt'', ''nextDueAt'', ''nextDueJob'', ''restoreSeconds'',
     ''leaseExpiresAt'', ''initExpiresAt'']"

definition plan_wake :: "'w world \<Rightarrow> string \<Rightarrow> string \<Rightarrow> time \<Rightarrow> 'w \<Rightarrow> 'w \<times> wake_plan" where
  "plan_wake o' table_name sid now w =
     (if table_name = [] then (w, wake_now ''no record to consult'')
      else (case w_get_item o' (record_key sid) w of
          (w', Inl code) \<Rightarrow> (w', wake_now (''record unreadable ('' @ code @ '')''))
        | (w', Inr None) \<Rightarrow> (w', no_wake ''no such sandbox'')
        | (w', Inr (Some it)) \<Rightarrow>
            (w', if list_all (\<lambda>k. it k = None) plan_fields then no_wake ''no such sandbox'' else item_plan it now)))"

subsection \<open>Whose sandbox\<close>

datatype waker_error = WakeRefused string | WakerCrash crash

definition multi_owner :: "environ \<Rightarrow> bool" where
  "multi_owner env = (env_text env ''WAKE_SUBJECT_KEY_ARN'' [] \<noteq> [])"

text \<open>\<open>[0-9a-fA-F-]{8,64}\<close>\<close>

definition subject_pattern :: "string \<Rightarrow> bool" where
  "subject_pattern s =
     (8 \<le> length s \<and> length s \<le> 64 \<and>
      list_all (\<lambda>c. is_decimal_char c \<or> c = CHR ''-''
        \<or> (65 \<le> (of_char c :: nat) \<and> (of_char c :: nat) \<le> 70)
        \<or> (97 \<le> (of_char c :: nat) \<and> (of_char c :: nat) \<le> 102)) s)"

definition user_enabled :: "json list \<Rightarrow> (crash, bool) result" where
  "user_enabled users = (case users of
     [] \<Rightarrow> Inr False
   | JObj user # _ \<Rightarrow> Inr (get_default user ''Enabled'' (JBool False) = JBool True)
   | _ \<Rightarrow> Inl (AttributeErr ''get''))"

definition subject_enabled :: "'w world \<Rightarrow> string \<Rightarrow> (crash, bool) result" where
  "subject_enabled o' subject =
     (if env_text (w_environ o') ''COGNITO_USER_POOL_ID'' [] = [] then Inr True
      else if \<not> subject_pattern subject then Inr False
      else (case w_list_users o' subject of
          Inl code \<Rightarrow> Inl (ClientCrash code)
        | Inr users \<Rightarrow> user_enabled users))"

definition wake_refused :: "string \<Rightarrow> string \<Rightarrow> string \<Rightarrow> (waker_error, 'a) result" where
  "wake_refused before sid after_text = Inl (WakeRefused (before @ sid @ after_text))"

text \<open>\<open>_open_subject\<close>, from the unsealed bytes on.\<close>

definition check_subject ::
  "'w world \<Rightarrow> string \<Rightarrow> string \<Rightarrow> string option \<Rightarrow> (waker_error, string) result" where
  "check_subject o' sid recorded plaintext = (case plaintext of
     None \<Rightarrow> wake_refused ''Sealed subject for '' sid '' is empty.''
   | Some bytes \<Rightarrow>
       if bytes = [] then wake_refused ''Sealed subject for '' sid '' is empty.''
       else (case utf8_decode bytes of
           None \<Rightarrow> Inl (WakerCrash (ValueCrash ''invalid utf-8''))
         | Some subject \<Rightarrow>
             if \<not> list_all is_ascii recorded
             then Inl (WakerCrash (TypeErr ''comparing strings with non-ASCII characters is not supported''))
             else if w_sha o' (''kirocrew-owner-v1'' @ [CHR 0x00] @ subject) \<noteq> recorded
             then wake_refused ''Sealed subject for '' sid '' does not match its owner.''
             else (case subject_enabled o' subject of
                 Inl x \<Rightarrow> Inl (WakerCrash x)
               | Inr False \<Rightarrow> wake_refused ''Owner of '' sid '' is disabled or no longer exists.''
               | Inr True \<Rightarrow> Inr subject)))"

definition unseal_subject :: "'w world \<Rightarrow> string \<Rightarrow> item \<Rightarrow> (waker_error, string) result" where
  "unseal_subject o' sid it =
     (let sealed = text_or_empty it ''wakeSubject''; recorded = text_or_empty it ''ownerHash'' in
      if sealed = [] \<or> recorded = []
      then wake_refused ''Sandbox '' sid '' is not enrolled for scheduled wakes.''
      else (case unbase64 sealed of
          None \<Rightarrow> wake_refused ''Sealed subject for '' sid '' does not open.''
        | Some ciphertext \<Rightarrow>
            (case waker_required (w_environ o') ''WAKE_SUBJECT_KEY_ARN'' of
               Inl x \<Rightarrow> Inl (WakerCrash x)
             | Inr key_id \<Rightarrow>
                 (case w_decrypt o' key_id (wake_context sid) ciphertext of
                    Inl code \<Rightarrow> wake_refused ''Sealed subject for '' sid '' does not open.''
                  | Inr plaintext \<Rightarrow> check_subject o' sid recorded plaintext))))"

definition open_subject :: "'w world \<Rightarrow> string \<Rightarrow> 'w \<Rightarrow> 'w \<times> (waker_error, string) result" where
  "open_subject o' sid w =
     (case waker_required (w_environ o') ''SANDBOX_TABLE_NAME'' of
        Inl x \<Rightarrow> (w, Inl (WakerCrash x))
      | Inr _ \<Rightarrow>
          (case w_get_item o' (record_key sid) w of
             (w', Inl code) \<Rightarrow> (w', Inl (WakerCrash (ClientCrash code)))
           | (w', Inr found) \<Rightarrow>
               (w', unseal_subject o' sid (case found of None \<Rightarrow> Map.empty | Some it \<Rightarrow> it))))"

subsection \<open>The dispatcher\<close>

definition own_function :: "'w world \<Rightarrow> string" where
  "own_function o' = (case w_function_arn o' of
     Some arn \<Rightarrow> if arn \<noteq> [] then arn else env_text (w_environ o') ''AWS_LAMBDA_FUNCTION_NAME'' []
   | None \<Rightarrow> env_text (w_environ o') ''AWS_LAMBDA_FUNCTION_NAME'' [])"

text \<open>The enrolled sandboxes: the keys of the scan's items, of all its pages.\<close>

definition enrolled_of :: "item list \<Rightarrow> string list" where
  "enrolled_of items =
     map (\<lambda>k. remove_prefix k ''SANDBOX#'')
       (filter (\<lambda>k. starts_with k ''SANDBOX#'') (map (\<lambda>it. text_or_empty it ''pk'') items))"

fun due_sandboxes :: "'w world \<Rightarrow> string \<Rightarrow> time \<Rightarrow> string list \<Rightarrow> 'w \<Rightarrow> 'w \<times> string list" where
  "due_sandboxes o' table_name now [] w = (w, [])"
| "due_sandboxes o' table_name now (sid # sids) w =
     (case plan_wake o' table_name sid now w of
        (w1, plan) \<Rightarrow>
          (case due_sandboxes o' table_name now sids w1 of
             (w2, due) \<Rightarrow> (w2, if wp_wake plan then sid # due else due)))"

fun start_legs :: "'w world \<Rightarrow> string \<Rightarrow> string list \<Rightarrow> 'w \<Rightarrow> 'w \<times> (crash, unit) result" where
  "start_legs o' function [] w = (w, Inr ())"
| "start_legs o' function (sid # sids) w =
     (case w_invoke_self o' function (JObj [(''sandboxId'', JStr sid)]) w of
        (w', Inl code) \<Rightarrow> (w', Inl (ClientCrash code))
      | (w', Inr _) \<Rightarrow> start_legs o' function sids w')"

definition DEFAULT_MAX_DISPATCH :: int where "DEFAULT_MAX_DISPATCH = 20"

definition dispatched :: "string list \<Rightarrow> string list \<Rightarrow> (string \<times> json) list" where
  "dispatched enrolled legs =
     [(''outcome'', JStr ''dispatched''), (''enrolled'', JInt (int (length enrolled))),
      (''started'', JList (map JStr legs))]"

text \<open>\<open>due[:limit]\<close> when more are due than the limit; a negative limit drops from the end.\<close>

definition cap_due :: "int \<Rightarrow> string list \<Rightarrow> string list" where
  "cap_due limit due =
     (if limit < int (length due)
      then (if 0 \<le> limit then take (nat limit) due else take (length due - nat (- limit)) due)
      else due)"

definition dispatch_wakes :: "'w world \<Rightarrow> 'w \<Rightarrow> 'w \<times> (crash, (string \<times> json) list) result" where
  "dispatch_wakes o' w =
     trying w (waker_required (w_environ o') ''SANDBOX_TABLE_NAME'') (\<lambda>table_name.
     trying w (env_int (w_environ o') ''WAKE_MAX_DISPATCH'' DEFAULT_MAX_DISPATCH) (\<lambda>limit.
       let now = w_time o' w in
       (case w_scan o' w of
          (w1, Inl code) \<Rightarrow> (w1, Inl (ClientCrash code))
        | (w1, Inr items) \<Rightarrow>
            let enrolled = enrolled_of items in
            (case due_sandboxes o' table_name now enrolled w1 of
               (w2, all_due) \<Rightarrow>
                 let due = cap_due limit all_due in
                 if due = [] then (w2, Inr (dispatched enrolled []))
                 else if own_function o' = []
                 then (w2, Inl (RuntimeErr ''The waker cannot name itself to start a wake leg.''))
                 else chain (start_legs o' (own_function o') due w2) (\<lambda>_ w3.
                   (w3, Inr (dispatched enrolled due)))))))"

subsection \<open>Asking the gateway\<close>

text \<open>Any request of the machine endpoint: an envelope with a fresh id.\<close>

definition envelope :: "string \<Rightarrow> json \<Rightarrow> string \<Rightarrow> json \<Rightarrow> json" where
  "envelope request_id token operation payload =
     JObj [(''version'', JStr PROTOCOL_VERSION), (''requestId'', JStr request_id),
       (''bindingToken'', token), (''operation'', JStr operation), (''payload'', payload)]"

definition http_payload :: "string \<Rightarrow> string \<Rightarrow> json" where
  "http_payload verb path =
     JObj [(''method'', JStr verb), (''path'', JStr path), (''transport'', JStr ''http''),
       (''headers'', JObj []), (''body'', JStr [])]"

text \<open>The first JSON document of a payload value: base64 of one, or one as it stands.\<close>

definition document_of :: "string \<Rightarrow> json list" where
  "document_of v =
     (case Option.bind (Option.bind (unbase64 v) utf8_decode) json_loads of None \<Rightarrow> [] | Some d \<Rightarrow> [d]) @
     (case json_loads v of None \<Rightarrow> [] | Some d \<Rightarrow> [d])"

definition is_container :: "json \<Rightarrow> bool" where
  "is_container d = (case d of JObj _ \<Rightarrow> True | JList _ \<Rightarrow> True | _ \<Rightarrow> False)"

definition payload_of :: "json \<Rightarrow> (string \<times> json) list" where
  "payload_of event = (case event of
     JObj members \<Rightarrow> (case get_default members ''payload'' (JObj []) of JObj kvs \<Rightarrow> kvs | _ \<Rightarrow> [])
   | _ \<Rightarrow> [])"

definition documents_of :: "json \<Rightarrow> json list" where
  "documents_of event =
     concat (map (\<lambda>(k, v). case v of JStr text \<Rightarrow> if text = [] then [] else filter is_container (document_of text)
       | _ \<Rightarrow> []) (payload_of event))"

text \<open>
  \<open>_gateway_body\<close>. An answer that is no object reads as nothing; one whose \<open>events\<close> cannot
  be iterated over raises the \<open>TypeError\<close> of the loop.
\<close>

definition gateway_body :: "string \<Rightarrow> (crash, json) result" where
  "gateway_body raw = (case json_loads raw of
     Some (JObj members) \<Rightarrow>
       (case get_default members ''events'' (JList []) of
          JList events \<Rightarrow> Inr (case concat (map documents_of events) of [] \<Rightarrow> JNull | d # _ \<Rightarrow> d)
        | JStr _ \<Rightarrow> Inr JNull
        | JObj _ \<Rightarrow> Inr JNull
        | _ \<Rightarrow> Inl (TypeErr ''object is not iterable''))
   | _ \<Rightarrow> Inr JNull)"

definition gateway_request ::
  "'w world \<Rightarrow> string \<Rightarrow> json \<Rightarrow> string \<Rightarrow> string \<Rightarrow> 'w \<Rightarrow> 'w \<times> (crash, json) result" where
  "gateway_request o' session token verb path w =
     (case ulid o' w of
        (w1, request_id) \<Rightarrow>
          (case w_runtime o' session (envelope request_id token ''kirocrew.http'' (http_payload verb path)) w1 of
             (w2, Inl _) \<Rightarrow> (w2, Inr JNull)
           | (w2, Inr (_, raw)) \<Rightarrow> (w2, gateway_body raw)))"

definition gateway_get :: "'w world \<Rightarrow> string \<Rightarrow> json \<Rightarrow> string \<Rightarrow> 'w \<Rightarrow> 'w \<times> (crash, json) result" where
  "gateway_get o' session token path w = gateway_request o' session token ''GET'' path w"

subsection \<open>Holding a busy sandbox\<close>

definition members_of :: "json \<Rightarrow> (string \<times> json) list" where
  "members_of d = (case d of JObj members \<Rightarrow> members | _ \<Rightarrow> [])"

definition some_run :: "((string \<times> json) list \<Rightarrow> bool) \<Rightarrow> json \<Rightarrow> bool" where
  "some_run p d = (case get_key (members_of d) ''runs'' of
     JList runs \<Rightarrow> list_ex (\<lambda>r. case r of JObj fs \<Rightarrow> p fs | _ \<Rightarrow> False) runs
   | _ \<Rightarrow> False)"

definition positive_count :: "json \<Rightarrow> bool" where
  "positive_count v = (case int_like v of Some n \<Rightarrow> 0 < n | None \<Rightarrow> False)"

text \<open>The four signals, in the order they are asked for, and what each answer must show.\<close>

definition busy_signals :: "(string \<times> (json \<Rightarrow> bool)) list" where
  "busy_signals =
     [(''/api/taskrunner'', some_run (\<lambda>run. truthy (get_key run ''running''))),
      (''/api/sessions/health'', \<lambda>d. positive_count (get_key (members_of (get_key (members_of d) ''counts'')) ''running'')),
      (''/api/status'', \<lambda>d. positive_count (get_key (members_of d) ''subagents'')),
      (''/api/workflows/runs'', some_run (\<lambda>run. get_key run ''status'' = JStr ''running''))]"

fun any_signal ::
  "(string \<Rightarrow> 'w \<Rightarrow> 'w \<times> (crash, json) result) \<Rightarrow> (string \<times> (json \<Rightarrow> bool)) list \<Rightarrow> 'w \<Rightarrow>
     'w \<times> (crash, bool) result" where
  "any_signal get [] w = (w, Inr False)"
| "any_signal get ((path, shows_busy) # signals) w =
     chain (get path w) (\<lambda>d w'. if shows_busy d then (w', Inr True) else any_signal get signals w')"

definition sandbox_busy ::
  "(string \<Rightarrow> 'w \<Rightarrow> 'w \<times> (crash, json) result) \<Rightarrow> 'w \<Rightarrow> 'w \<times> (crash, bool) result" where
  "sandbox_busy get w = any_signal get busy_signals w"

definition remaining_time :: "'w world \<Rightarrow> 'w \<Rightarrow> (crash, timedelta) result" where
  "remaining_time o' w = (case w_remaining o' w of
     Some left \<Rightarrow> Inr left
   | None \<Rightarrow> and_then (env_int (w_environ o') ''WAKE_TIMEOUT_SECONDS'' 900) (\<lambda>n. Inr (seconds n)))"

datatype hold = Idle | Deadline

text \<open>
  The loop of \<open>_hold_while_busy\<close>, with fuel for its iterations; \<open>None\<close> when the fuel is
  out. \<open>quiet\<close> counts the idle probes in a row.
\<close>

fun hold_loop ::
  "'w world \<Rightarrow> (string \<Rightarrow> 'w \<Rightarrow> 'w \<times> (crash, json) result) \<Rightarrow> time \<Rightarrow> timedelta \<Rightarrow> timedelta \<Rightarrow>
     nat \<Rightarrow> nat \<Rightarrow> 'w \<Rightarrow> ('w \<times> (crash, hold) result) option" where
  "hold_loop o' get begun budget poll quiet 0 w = None"
| "hold_loop o' get begun budget poll quiet (Suc fuel) w =
     (case sandbox_busy get w of
        (w1, Inl x) \<Rightarrow> Some (w1, Inl x)
      | (w1, Inr busy) \<Rightarrow>
          let quiet' = (if busy then 0 else quiet + 1) in
          if 2 \<le> quiet' then Some (w1, Inr Idle)
          else if budget < w_monotonic o' w1 - begun + poll then Some (w1, Inr Deadline)
          else hold_loop o' get begun budget poll quiet' fuel (w_sleep o' poll w1))"

text \<open>Enough: each iteration after the first has slept for \<open>poll\<close> within the budget.\<close>

definition hold_fuel :: "timedelta \<Rightarrow> timedelta \<Rightarrow> nat" where
  "hold_fuel budget poll = nat (budget div poll) + 2"

definition hold_while_busy ::
  "'w world \<Rightarrow> (string \<Rightarrow> 'w \<Rightarrow> 'w \<times> (crash, json) result) \<Rightarrow> int \<Rightarrow> int \<Rightarrow> 'w \<Rightarrow>
     ('w \<times> (crash, hold) result) option" where
  "hold_while_busy o' get poll_seconds stop_reserve w =
     (case remaining_time o' w of
        Inl x \<Rightarrow> Some (w, Inl x)
      | Inr left \<Rightarrow>
          let budget = left - seconds stop_reserve in
          hold_loop o' get (w_monotonic o' w) budget (seconds poll_seconds) 0
            (hold_fuel budget (seconds poll_seconds)) w)"

subsection \<open>Catching up, handing over, finishing\<close>

definition job_with_id :: "json \<Rightarrow> string \<Rightarrow> (string \<times> json) list option" where
  "job_with_id crons job = (case get_key (members_of crons) ''jobs'' of
     JList jobs \<Rightarrow> List.find (\<lambda>j. get_key j ''id'' = JStr job)
       (List.map_filter (\<lambda>j. case j of JObj fs \<Rightarrow> Some fs | _ \<Rightarrow> None) jobs)
   | _ \<Rightarrow> None)"

definition ran_since :: "(string \<times> json) list \<Rightarrow> int \<Rightarrow> bool" where
  "ran_since job_fields due_at = (case json_number (get_key job_fields ''last_run_ts'') of
     None \<Rightarrow> False
   | Some micros \<Rightarrow> seconds due_at \<le> micros)"

definition catch_up ::
  "'w world \<Rightarrow> string \<Rightarrow> json \<Rightarrow> wake_plan \<Rightarrow> 'w \<Rightarrow> 'w \<times> (crash, unit) result" where
  "catch_up o' session token plan w =
     (case wp_due plan of
        None \<Rightarrow> (w, Inr ())
      | Some due_at \<Rightarrow>
          if wp_job plan = [] \<or> w_time o' w < seconds due_at then (w, Inr ())
          else chain (gateway_get o' session token ''/api/crons'' w) (\<lambda>crons w1.
            case job_with_id crons (wp_job plan) of
              None \<Rightarrow> (w1, Inr ())
            | Some job_fields \<Rightarrow>
                if ran_since job_fields due_at then (w1, Inr ())
                else chain (gateway_request o' session token ''POST''
                  (''/api/crons/'' @ wp_job plan @ ''/run'') w1) (\<lambda>_ w2. (w2, Inr ()))))"

definition relay_payload :: "environ \<Rightarrow> int \<Rightarrow> int option \<Rightarrow> string \<Rightarrow> json" where
  "relay_payload env leg generation_before sid =
     JObj ([(''relay'', JInt leg),
       (''generationBefore'', case generation_before of None \<Rightarrow> JNull | Some g \<Rightarrow> JInt g)] @
       (if sid \<noteq> [] \<and> multi_owner env then [(''sandboxId'', JStr sid)] else []))"

definition start_relay ::
  "'w world \<Rightarrow> int \<Rightarrow> int option \<Rightarrow> string \<Rightarrow> 'w \<Rightarrow> 'w \<times> (crash, unit) result" where
  "start_relay o' leg generation_before sid w =
     (if own_function o' = [] then (w, Inl (RuntimeErr ''The waker cannot name itself to start a relay.''))
      else (case w_invoke_self o' (own_function o')
          (relay_payload (w_environ o') leg generation_before sid) w of
          (w', Inl code) \<Rightarrow> (w', Inl (ClientCrash code))
        | (w', Inr _) \<Rightarrow> (w', Inr ())))"

text \<open>\<open>str\<close> of a scalar, as the refused status is reported.\<close>

definition py_text :: "json \<Rightarrow> string" where
  "py_text v = (case v of
     JNull \<Rightarrow> ''None'' | JBool b \<Rightarrow> (if b then ''True'' else ''False'') | JInt n \<Rightarrow> dec_int n
   | JStr s \<Rightarrow> s | _ \<Rightarrow> print_json v)"

definition finish_stop ::
  "'w world \<Rightarrow> string \<Rightarrow> string \<Rightarrow> json \<Rightarrow> 'w \<Rightarrow> 'w \<times> (crash, string) result" where
  "finish_stop o' subject sid receipt w =
     (if \<not> truthy receipt then (w, Inr ''no-receipt'')
      else (case ulid o' w of
        (w1, request_id) \<Rightarrow>
          (case w_control o' (JObj [(''operation'', JStr ''schedulerStop''), (''cognitoSubject'', JStr subject),
              (''sandboxId'', JStr sid), (''checkpointReceipt'', receipt),
              (''idempotencyKey'', JStr request_id)]) w1 of
             (w2, Inl _) \<Rightarrow> (w2, Inr ''error'')
           | (w2, Inr raw) \<Rightarrow>
               (case json_loads raw of
                  None \<Rightarrow> (w2, Inr ''error'')
                | Some (JObj outer) \<Rightarrow>
                    (w2, Inr (if py_eq (get_key outer ''statusCode'') (JInt 200) then ''stopped''
                      else ''refused-'' @ py_text (get_key outer ''statusCode'')))
                | Some _ \<Rightarrow> (w2, Inl (AttributeErr ''get''))))))"

definition record_generation :: "'w world \<Rightarrow> string \<Rightarrow> string \<Rightarrow> 'w \<Rightarrow> 'w \<times> int option" where
  "record_generation o' table_name sid w =
     (if table_name = [] then (w, None)
      else (case w_get_item o' (record_key sid) w of
          (w', Inr (Some it)) \<Rightarrow> (w', attr_n it ''lastCheckpointGeneration'')
        | (w', _) \<Rightarrow> (w', None)))"

definition advanced_past :: "int option \<Rightarrow> int option \<Rightarrow> bool" where
  "advanced_past before latest = (case before of
     None \<Rightarrow> True
   | Some b \<Rightarrow> (case latest of None \<Rightarrow> False | Some g \<Rightarrow> b < g))"

fun await_loop ::
  "'w world \<Rightarrow> string \<Rightarrow> string \<Rightarrow> int option \<Rightarrow> time \<Rightarrow> timedelta \<Rightarrow> int option \<Rightarrow> nat \<Rightarrow> 'w \<Rightarrow>
     ('w \<times> int option) option" where
  "await_loop o' table_name sid before deadline interval latest 0 w = None"
| "await_loop o' table_name sid before deadline interval latest (Suc fuel) w =
     (if deadline \<le> w_monotonic o' w then Some (w, latest)
      else if advanced_past before latest then Some (w, latest)
      else (case record_generation o' table_name sid (w_sleep o' interval w) of
          (w', latest') \<Rightarrow> await_loop o' table_name sid before deadline interval latest' fuel w'))"

definition await_generation ::
  "'w world \<Rightarrow> string \<Rightarrow> string \<Rightarrow> int option \<Rightarrow> 'w \<Rightarrow> ('w \<times> int option) option" where
  "await_generation o' table_name sid before w =
     (let deadline = w_monotonic o' w + seconds 30 in
      case record_generation o' table_name sid w of
        (w', latest) \<Rightarrow> await_loop o' table_name sid before deadline (seconds 2) latest 17 w')"

text \<open>The first \<open>checkpoint.committed\<close> event: its generation and its receipt.\<close>

fun committed_event :: "json list \<Rightarrow> (crash, (json \<times> json) option) result" where
  "committed_event [] = Inr None"
| "committed_event (JObj event # events) =
     (if get_key event ''operation'' = JStr ''checkpoint.committed'' then
        (case get_default event ''payload'' (JObj []) of
           JObj payload \<Rightarrow> Inr (Some (get_default payload ''generation'' (JStr ''unknown''),
             get_key payload ''checkpointReceipt''))
         | _ \<Rightarrow> Inl (AttributeErr ''get''))
      else committed_event events)"
| "committed_event (_ # events) = Inl (AttributeErr ''get'')"

definition event_list :: "(string \<times> json) list \<Rightarrow> (crash, json list) result" where
  "event_list members = (case get_default members ''events'' (JList []) of
     JList events \<Rightarrow> Inr events
   | JStr text \<Rightarrow> Inr (map (\<lambda>c. JStr [c]) text)
   | JObj kvs \<Rightarrow> Inr (map (\<lambda>kv. JStr (fst kv)) kvs)
   | _ \<Rightarrow> Inl (TypeErr ''object is not iterable''))"

definition commit_checkpoint ::
  "'w world \<Rightarrow> string \<Rightarrow> json \<Rightarrow> 'w \<Rightarrow> 'w \<times> (crash, json \<times> json) result" where
  "commit_checkpoint o' session token w =
     (case ulid o' w of
        (w1, request_id) \<Rightarrow>
          (case w_runtime o' session (envelope request_id token ''sandbox.prepare_stop'' (JObj [])) w1 of
             (w2, Inl _) \<Rightarrow> (w2, Inr (JStr ''uncommitted'', JNull))
           | (w2, Inr (_, raw)) \<Rightarrow>
               (w2, case json_loads raw of
                  None \<Rightarrow> Inr (JStr ''uncommitted'', JNull)
                | Some (JObj body) \<Rightarrow>
                    and_then (event_list body) (\<lambda>events.
                    and_then (committed_event events) (\<lambda>found.
                      Inr (case found of None \<Rightarrow> (JStr ''uncommitted'', JNull) | Some p \<Rightarrow> p)))
                | Some _ \<Rightarrow> Inl (AttributeErr ''get''))))"

text \<open>\<open>_runtime_status\<close>: the number of \<open>Received error (NNN)\<close>, the first one there is.\<close>

definition status_here :: "string \<Rightarrow> int option" where
  "status_here s =
     (let p = ''Received error (''; n = length p; digits = take 3 (drop n s) in
      if starts_with s p \<and> length digits = 3 \<and> list_all is_decimal_char digits
         \<and> starts_with (drop (n + 3) s) '')''
      then map_option int (read_digits 0 digits) else None)"

fun runtime_status :: "string \<Rightarrow> int option" where
  "runtime_status [] = None"
| "runtime_status (c # cs) = (case status_here (c # cs) of Some n \<Rightarrow> Some n | None \<Rightarrow> runtime_status cs)"

text \<open>\<open>_cron_state\<close>, which is only logged, but whose loop may raise.\<close>

fun cron_events :: "json list \<Rightarrow> (crash, json) result" where
  "cron_events [] = Inr (JStr ''unknown'')"
| "cron_events (JObj event # events) =
     (case List.find (\<lambda>d. case d of JObj body \<Rightarrow> ''cron'' \<in> set (map fst body) | _ \<Rightarrow> False)
        (concat (map (\<lambda>(k, v). case v of JStr text \<Rightarrow> if length text < 32 then [] else document_of text
          | _ \<Rightarrow> []) (payload_of (JObj event)))) of
        Some d \<Rightarrow> Inr (get_key (members_of d) ''cron'')
      | None \<Rightarrow> cron_events events)"
| "cron_events (_ # events) = Inl (AttributeErr ''get'')"

definition cron_state :: "string \<Rightarrow> (crash, json) result" where
  "cron_state raw = (case json_loads raw of
     Some (JObj members) \<Rightarrow> and_then (event_list members) cron_events
   | _ \<Rightarrow> Inr (JStr ''unknown''))"

subsection \<open>The handler\<close>

text \<open>A statement of the handler goes on, or returns its answer.\<close>

datatype 'a leg = Answer "(string \<times> json) list" | Continue 'a

record wake_config =
  wc_control_function :: string
  wc_runtime_arn :: string
  wc_qualifier :: string
  wc_path :: string
  wc_dwell :: int
  wc_poll :: int
  wc_reserve :: int
  wc_max_relays :: int
  wc_table :: string
  wc_gated :: bool

definition read_wake_config :: "environ \<Rightarrow> (crash, wake_config) result" where
  "read_wake_config env =
     and_then (waker_required env ''CONTROL_FUNCTION_NAME'') (\<lambda>control.
     and_then (waker_required env ''MACHINE_RUNTIME_ARN'') (\<lambda>arn.
     and_then (waker_required env ''MACHINE_ENDPOINT_QUALIFIER'') (\<lambda>qualifier.
     and_then (env_int env ''WAKE_DWELL_SECONDS'' 120) (\<lambda>dwell.
     and_then (env_int env ''WAKE_POLL_SECONDS'' 30) (\<lambda>poll.
     and_then (env_int env ''WAKE_STOP_RESERVE_SECONDS'' 180) (\<lambda>reserve.
     and_then (env_int env ''WAKE_MAX_RELAYS'' 8) (\<lambda>relays.
       Inr \<lparr>wc_control_function = control, wc_runtime_arn = arn, wc_qualifier = qualifier,
         wc_path = env_text env ''WAKE_PATH'' ''/api/status'', wc_dwell = dwell, wc_poll = max 5 poll,
         wc_reserve = reserve, wc_max_relays = relays, wc_table = env_text env ''SANDBOX_TABLE_NAME'' [],
         wc_gated = (env_text env ''WAKE_GATE'' [] = ''on'')\<rparr>)))))))"

definition relay_of :: "json \<Rightarrow> int" where
  "relay_of event = (case int_like (get_default (members_of event) ''relay'' (JInt 0)) of
     Some n \<Rightarrow> if 0 \<le> n then n else 0
   | None \<Rightarrow> 0)"

definition wake_target ::
  "'w world \<Rightarrow> json \<Rightarrow> 'w \<Rightarrow> 'w \<times> (crash, (string \<times> string) leg) result" where
  "wake_target o' event w =
     (if multi_owner (w_environ o') then
        (case get_key (members_of event) ''sandboxId'' of
           JStr sid \<Rightarrow>
             if sid = [] then chain (dispatch_wakes o' w) (\<lambda>a w1. (w1, Inr (Answer a)))
             else (case open_subject o' sid w of
                 (w1, Inr subject) \<Rightarrow> (w1, Inr (Continue (subject, sid)))
               | (w1, Inl (WakeRefused reason)) \<Rightarrow>
                   (w1, Inr (Answer [(''sandboxId'', JStr sid), (''outcome'', JStr ''refused''),
                     (''reason'', JStr reason)]))
               | (w1, Inl (WakerCrash x)) \<Rightarrow> (w1, Inl x))
         | _ \<Rightarrow> chain (dispatch_wakes o' w) (\<lambda>a w1. (w1, Inr (Answer a))))
      else trying w (waker_required (w_environ o') ''COGNITO_SUBJECT'') (\<lambda>subject.
           trying w (waker_required (w_environ o') ''SANDBOX_ID'') (\<lambda>sid.
             (w, Inr (Continue (subject, sid))))))"

definition plan_of_tick :: "'w world \<Rightarrow> wake_config \<Rightarrow> string \<Rightarrow> 'w \<Rightarrow> 'w \<times> wake_plan" where
  "plan_of_tick o' cfg sid w =
     (if wc_gated cfg then plan_wake o' (wc_table cfg) sid (w_time o' w) w
      else (w, wake_now ''ungated''))"

definition generation_before ::
  "'w world \<Rightarrow> wake_config \<Rightarrow> string \<Rightarrow> json \<Rightarrow> 'w \<Rightarrow> 'w \<times> int option" where
  "generation_before o' cfg sid event w =
     (case (if relay_of event \<noteq> 0 then int_like (get_key (members_of event) ''generationBefore'') else None) of
        Some g \<Rightarrow> (w, Some g)
      | None \<Rightarrow> record_generation o' (wc_table cfg) sid w)"

text \<open>The claim through the control plane: the scheduler token and the session.\<close>

definition claimed_body :: "string \<Rightarrow> (crash, json \<times> string) result" where
  "claimed_body raw = (case json_loads raw of
     None \<Rightarrow> Inl (ValueCrash ''invalid JSON'')
   | Some (JObj outer) \<Rightarrow>
       and_then (case get_key outer ''body'' of
           JStr text \<Rightarrow> (case json_loads text of None \<Rightarrow> Inl (ValueCrash ''invalid JSON'') | Some d \<Rightarrow> Inr d)
         | _ \<Rightarrow> Inr (JObj outer)) (\<lambda>body.
       if \<not> py_eq (get_key outer ''statusCode'') (JInt 200)
       then Inl (RuntimeErr (''Scheduler start refused with status '' @ py_text (get_key outer ''statusCode'') @ ''.''))
       else (case body of
           JObj fs \<Rightarrow>
             (case (map_of fs ''schedulerToken'', map_of fs ''runtimeSessionId'') of
                (None, _) \<Rightarrow> Inl (KeyErr ''schedulerToken'')
              | (_, None) \<Rightarrow> Inl (KeyErr ''runtimeSessionId'')
              | (Some token, Some (JStr session)) \<Rightarrow> Inr (token, session)
              | _ \<Rightarrow> Inl (TypeErr ''Parameter validation failed''))
         | _ \<Rightarrow> Inl (TypeErr ''indices must be integers'')))
   | Some _ \<Rightarrow> Inl (AttributeErr ''get''))"

definition claim_for_wake ::
  "'w world \<Rightarrow> string \<Rightarrow> string \<Rightarrow> 'w \<Rightarrow> 'w \<times> (crash, json \<times> string) result" where
  "claim_for_wake o' subject sid w =
     (case ulid o' w of
        (w1, request_id) \<Rightarrow>
          (case w_control o' (JObj [(''operation'', JStr ''schedulerStart''), (''cognitoSubject'', JStr subject),
              (''sandboxId'', JStr sid), (''idempotencyKey'', JStr request_id)]) w1 of
             (w2, Inl code) \<Rightarrow> (w2, Inl (ClientCrash code))
           | (w2, Inr raw) \<Rightarrow> (w2, claimed_body raw)))"

text \<open>The request that wakes it; a 503 means something already holds the sandbox.\<close>

definition wake_request ::
  "'w world \<Rightarrow> wake_config \<Rightarrow> string \<Rightarrow> json \<Rightarrow> string \<Rightarrow> 'w \<Rightarrow> 'w \<times> (crash, int leg) result" where
  "wake_request o' cfg sid token session w =
     (case ulid o' w of
        (w1, request_id) \<Rightarrow>
          (case w_runtime o' session
              (envelope request_id token ''kirocrew.http'' (http_payload ''GET'' (wc_path cfg))) w1 of
             (w2, Inl message) \<Rightarrow>
               if runtime_status message = Some 503
               then (w2, Inr (Answer [(''sandboxId'', JStr sid), (''runtimeSessionId'', JStr session),
                 (''outcome'', JStr ''already-awake'')]))
               else (w2, Inl (ClientCrash message))
           | (w2, Inr (status, raw)) \<Rightarrow>
               trying w2 (cron_state raw) (\<lambda>_. (w2, Inr (Continue status)))))"

definition opt_int :: "int option \<Rightarrow> json" where
  "opt_int v = (case v of None \<Rightarrow> JNull | Some n \<Rightarrow> JInt n)"

text \<open>The end of a wake: checkpoint, stop, and what the record says afterwards.\<close>

definition finish_wake ::
  "'w world \<Rightarrow> wake_config \<Rightarrow> string \<Rightarrow> string \<Rightarrow> json \<Rightarrow> string \<Rightarrow> int \<Rightarrow> int option \<Rightarrow> 'w \<Rightarrow>
     'w \<times> (crash, (string \<times> json) list) result" where
  "finish_wake o' cfg subject sid token session status before w =
     chain (commit_checkpoint o' session token w) (\<lambda>(generation, receipt) w1.
     chain (finish_stop o' subject sid receipt w1) (\<lambda>stopped w2.
       case await_generation o' (wc_table cfg) sid before w2 of
         None \<Rightarrow> (w2, Inl (RuntimeErr ''unreachable''))
       | Some (w3, after_it) \<Rightarrow>
           (w3, Inr [(''sandboxId'', JStr sid), (''runtimeSessionId'', JStr session),
             (''status'', JInt status), (''generationBefore'', opt_int before),
             (''generationAfter'', opt_int after_it),
             (''persisted'', JBool (before \<noteq> None \<and> advanced_past before after_it)),
             (''stopped'', JStr stopped)])))"

definition drive_wake ::
  "'w world \<Rightarrow> wake_config \<Rightarrow> int \<Rightarrow> string \<Rightarrow> string \<Rightarrow> json \<Rightarrow> string \<Rightarrow> int \<Rightarrow> int option \<Rightarrow>
     wake_plan \<Rightarrow> 'w \<Rightarrow> 'w \<times> (crash, (string \<times> json) list) result" where
  "drive_wake o' cfg relay subject sid token session status before plan w =
     (let w1 = (if 0 < wc_dwell cfg \<and> relay = 0 then w_sleep o' (seconds (wc_dwell cfg)) w else w) in
      chain (if relay = 0 then catch_up o' session token plan w1 else (w1, Inr ())) (\<lambda>_ w2.
        case hold_while_busy o' (gateway_get o' session token) (wc_poll cfg) (wc_reserve cfg) w2 of
          None \<Rightarrow> (w2, Inl (RuntimeErr ''unreachable''))
        | Some (w3, Inl x) \<Rightarrow> (w3, Inl x)
        | Some (w3, Inr held) \<Rightarrow>
            if held = Deadline \<and> relay < wc_max_relays cfg
            then chain (start_relay o' (relay + 1) before sid w3) (\<lambda>_ w4.
              (w4, Inr [(''sandboxId'', JStr sid), (''runtimeSessionId'', JStr session),
                (''status'', JInt status), (''outcome'', JStr ''relayed''), (''relay'', JInt (relay + 1))]))
            else finish_wake o' cfg subject sid token session status before w3))"

definition waker_handler :: "'w world \<Rightarrow> json \<Rightarrow> 'w \<Rightarrow> 'w \<times> (crash, (string \<times> json) list) result" where
  "waker_handler o' event w =
     chain (wake_target o' event w) (\<lambda>leg w1. case leg of
       Answer a \<Rightarrow> (w1, Inr a)
     | Continue (subject, sid) \<Rightarrow>
         trying w1 (read_wake_config (w_environ o')) (\<lambda>cfg.
           case plan_of_tick o' cfg sid w1 of
             (w2, plan) \<Rightarrow>
               if wc_gated cfg \<and> relay_of event = 0 \<and> get_key (members_of event) ''force'' \<noteq> JBool True
                  \<and> \<not> wp_wake plan
               then (w2, Inr [(''sandboxId'', JStr sid), (''outcome'', JStr ''not-due''),
                 (''reason'', JStr (wp_reason plan))])
               else (case generation_before o' cfg sid event w2 of
                   (w3, before) \<Rightarrow>
                     chain (claim_for_wake o' subject sid w3) (\<lambda>(token, session) w4.
                     chain (wake_request o' cfg sid token session w4) (\<lambda>woken w5. case woken of
                         Answer a \<Rightarrow> (w5, Inr a)
                       | Continue status \<Rightarrow>
                           drive_wake o' cfg (relay_of event) subject sid token session status before plan w5)))))"

end
