(* ===== verification/WakerProperties.thy ===== *)
theory WakerProperties
  imports Waker
begin

text \<open>
  When a sandbox is woken and when it is left alone, whose identity a wake may use, and that
  the waits of a wake end: the fuel of their loops is enough on any clock that keeps running.
\<close>

subsection \<open>The decision\<close>

lemma wake_lead_bounds: "90 \<le> wake_lead r" "wake_lead r \<le> 600"
  by (auto simp: wake_lead_def split: option.split)

text \<open>A container that is restoring, or whose lease runs, uses the sandbox.\<close>

definition in_use :: "item \<Rightarrow> time \<Rightarrow> bool" where
  "in_use it now =
     (attr_s it ''state'' \<noteq> Some ''STOPPED'' \<and>
      ((case attr_n it ''initExpiresAt'' of None \<Rightarrow> False | Some n \<Rightarrow> now < seconds n) \<or>
       (case attr_s it ''leaseExpiresAt'' of
          None \<Rightarrow> False
        | Some text \<Rightarrow> (case read_timestamp text of None \<Rightarrow> False | Some t \<Rightarrow> text \<noteq> [] \<and> now < t))))"

lemma in_use_held: "in_use it now \<Longrightarrow> sandbox_held it now"
  by (auto simp: in_use_def sandbox_held_def iso_epoch_def text_or_empty_def split: option.splits if_splits)


definition warm_item :: item where
  "warm_item = map_of [(''state'', AttrS ''READY''), (''leaseExpiresAt'', AttrS (timestamp (seconds 90))),
     (''nextDueAt'', AttrN 30)]"

lemma small_valid: "0 \<le> n \<Longrightarrow> n < 86400 \<Longrightarrow> valid_time (seconds n)"
  by (rule valid_small) (simp_all add: seconds_def)

lemma timestamp_nonempty [simp]: "timestamp t \<noteq> []"
  by (simp add: timestamp_def)


text \<open>
  A due job is not missed: from its lead before the due time (between one and a half and
  ten minutes) until half an hour after it, every tick wakes a sandbox nobody holds and nobody
  has touched since the job was due.
\<close>

theorem due_job_wakes:
  assumes "\<not> sandbox_held it now" "attr_n it ''nextDueAt'' = Some due" "due \<noteq> 0"
    "seconds (due - wake_lead (attr_n it ''restoreSeconds'')) \<le> now" "now \<le> seconds (due + CATCH_UP_GRACE_SECONDS)"
    "\<forall>updated. iso_epoch (attr_s it ''updatedAt'') = Some updated \<longrightarrow> updated < seconds due"
  shows "wp_wake (item_plan it now) \<and> wp_due (item_plan it now) = Some due \<and>
    90 \<le> wake_lead (attr_n it ''restoreSeconds'') \<and> wake_lead (attr_n it ''restoreSeconds'') \<le> 600"
proof -
  have grace: "\<not> seconds CATCH_UP_GRACE_SECONDS < now - seconds due"
    using assms(5) by (simp add: seconds_def CATCH_UP_GRACE_SECONDS_def)
  have plan: "fst (due_plan it now due)"
    using assms(3,4,6) grace by (auto simp: due_plan_def Let_def split: option.split)
  have "item_plan it now = \<lparr>wp_wake = fst (due_plan it now due), wp_reason = snd (due_plan it now due),
      wp_due = Some due, wp_job = text_or_empty it ''nextDueJob''\<rparr>"
    using assms(1,2) by (cases "due_plan it now due") (simp add: item_plan_def)
  with plan show ?thesis by (simp add: wake_lead_bounds)
qed

definition stopped_item :: item where
  "stopped_item = map_of [(''state'', AttrS ''STOPPED''), (''updatedAt'', AttrS (timestamp (seconds 60))),
     (''nextDueAt'', AttrN 1000), (''nextDueJob'', AttrS ''report''), (''restoreSeconds'', AttrN 100)]"

theorem due_job_wakes_witness: "wp_wake (item_plan stopped_item (seconds 900))"
proof -
  have "\<not> sandbox_held stopped_item (seconds 900)"
    by (simp add: sandbox_held_def stopped_item_def text_or_empty_def attr_s_def)
  moreover have "attr_n stopped_item ''nextDueAt'' = Some 1000" "attr_n stopped_item ''restoreSeconds'' = Some 100"
    by (simp_all add: stopped_item_def attr_n_def)
  moreover have "iso_epoch (attr_s stopped_item ''updatedAt'') = Some (seconds 60)"
    by (simp add: stopped_item_def attr_s_def iso_epoch_def read_timestamp_timestamp small_valid)
  ultimately show ?thesis
    using due_job_wakes [of stopped_item "seconds 900" 1000]
    by (simp add: wake_lead_def CATCH_UP_GRACE_SECONDS_def seconds_def)
qed



subsection \<open>The waits end\<close>

text \<open>A clock that runs: no call goes back in time, and sleeping takes as long as asked for.\<close>

definition clock_runs :: "'w world \<Rightarrow> bool" where
  "clock_runs o' =
     ((\<forall>w d. 0 \<le> d \<longrightarrow> w_monotonic o' w + d \<le> w_monotonic o' (w_sleep o' d w)) \<and>
      (\<forall>w. w_monotonic o' w \<le> w_monotonic o' (fst (w_choices o' w))) \<and>
      (\<forall>k w. w_monotonic o' w \<le> w_monotonic o' (fst (w_get_item o' k w))) \<and>
      (\<forall>s d w. w_monotonic o' w \<le> w_monotonic o' (fst (w_runtime o' s d w))))"

definition get_runs :: "'w world \<Rightarrow> (string \<Rightarrow> 'w \<Rightarrow> 'w \<times> (crash, json) result) \<Rightarrow> bool" where
  "get_runs o' get = (\<forall>path w. w_monotonic o' w \<le> w_monotonic o' (fst (get path w)))"

lemma gateway_get_runs:
  assumes "clock_runs o'"
  shows "get_runs o' (gateway_get o' session token)"
  unfolding get_runs_def
proof (intro allI)
  fix path w
  obtain w1 picks where c: "w_choices o' w = (w1, picks)" by (cases "w_choices o' w")
  then obtain request_id where u: "ulid o' w = (w1, request_id)" by (simp add: ulid_def)
  obtain w2 r where r: "w_runtime o' session
      (envelope request_id token ''kirocrew.http'' (http_payload ''GET'' path)) w1 = (w2, r)"
    by (cases "w_runtime o' session (envelope request_id token ''kirocrew.http'' (http_payload ''GET'' path)) w1")
  have "w_monotonic o' w \<le> w_monotonic o' w1" "w_monotonic o' w1 \<le> w_monotonic o' w2"
    using assms c r unfolding clock_runs_def by (metis fst_conv)+
  moreover have "fst (gateway_get o' session token path w) = w2"
    by (simp add: gateway_get_def gateway_request_def u r split: sum.split)
  ultimately show "w_monotonic o' w \<le> w_monotonic o' (fst (gateway_get o' session token path w))" by simp
qed

lemma any_signal_runs:
  "get_runs o' get \<Longrightarrow> w_monotonic o' w \<le> w_monotonic o' (fst (any_signal get signals w))"
proof (induction signals arbitrary: w)
  case (Cons signal signals)
  obtain path shows_busy where s: "signal = (path, shows_busy)" by (cases signal)
  obtain w1 r where g: "get path w = (w1, r)" by (cases "get path w")
  have "w_monotonic o' w \<le> w_monotonic o' w1" using Cons.prems g unfolding get_runs_def by (metis fst_conv)
  with Cons.IH [OF Cons.prems, of w1] show ?case by (cases r) (auto simp: s g)
qed simp

lemma hold_loop_ends:
  assumes "clock_runs o'" "get_runs o' get" "0 < poll"
    "budget < w_monotonic o' w - begun + int fuel * poll" "0 < fuel"
  shows "hold_loop o' get begun budget poll quiet fuel w \<noteq> None"
  using assms(4,5)
proof (induction fuel arbitrary: quiet w)
  case (Suc fuel)
  obtain w1 r where b: "sandbox_busy get w = (w1, r)" by (cases "sandbox_busy get w")
  have mono: "w_monotonic o' w \<le> w_monotonic o' w1"
    using any_signal_runs [OF assms(2), of w busy_signals] b by (simp add: sandbox_busy_def)
  show ?case
  proof (cases r)
    case (Inr busy)
    have slept: "w_monotonic o' w1 + poll \<le> w_monotonic o' (w_sleep o' poll w1)"
      using assms(1,3) by (simp add: clock_runs_def)
    have "hold_loop o' get begun budget poll q fuel (w_sleep o' poll w1) \<noteq> None"
      if go: "\<not> budget < w_monotonic o' w1 - begun + poll" for q
    proof (rule Suc.IH)
      show "budget < w_monotonic o' (w_sleep o' poll w1) - begun + int fuel * poll"
        using Suc.prems(1) slept mono by (simp add: algebra_simps)
      show "0 < fuel" using go Suc.prems(1) mono by (cases fuel) auto
    qed
    then show ?thesis using b Inr by (simp add: Let_def)
  qed (simp add: b)
qed simp

lemma hold_ends:
  assumes "clock_runs o'" "get_runs o' get" "0 < poll_seconds"
  shows "hold_while_busy o' get poll_seconds stop_reserve w \<noteq> None"
proof (cases "remaining_time o' w")
  case (Inr left)
  define budget where "budget = left - seconds stop_reserve"
  define poll where "poll = seconds poll_seconds"
  have p: "0 < poll" using assms(3) by (simp add: poll_def)
  have fuel: "budget < int (hold_fuel budget poll) * poll"
  proof -
    define n where "n = nat (budget div poll)"
    have "budget = poll * (budget div poll) + budget mod poll" by simp
    moreover have "budget mod poll < poll" using p by simp
    moreover have "poll * (budget div poll) \<le> poll * int n"
      using p by (intro mult_left_mono) (auto simp: n_def)
    moreover have "int (hold_fuel budget poll) * poll = poll * int n + 2 * poll"
      by (simp add: hold_fuel_def n_def [symmetric] algebra_simps)
    ultimately show ?thesis using p by linarith
  qed
  have "hold_loop o' get (w_monotonic o' w) budget poll 0 (hold_fuel budget poll) w \<noteq> None"
  proof (rule hold_loop_ends [OF assms(1,2) p])
    show "budget < w_monotonic o' w - w_monotonic o' w + int (hold_fuel budget poll) * poll"
      using fuel by linarith
  qed (simp add: hold_fuel_def)
  with Inr show ?thesis by (simp add: hold_while_busy_def budget_def poll_def Let_def)
qed (simp add: hold_while_busy_def)

lemma record_generation_runs:
  "clock_runs o' \<Longrightarrow> w_monotonic o' w \<le> w_monotonic o' (fst (record_generation o' table_name sid w))"
proof -
  assume "clock_runs o'"
  then have "w_monotonic o' w \<le> w_monotonic o' (fst (w_get_item o' (record_key sid) w))"
    unfolding clock_runs_def by blast
  moreover obtain w' r where "w_get_item o' (record_key sid) w = (w', r)"
    by (cases "w_get_item o' (record_key sid) w")
  ultimately show ?thesis by (auto simp: record_generation_def split: sum.split option.split)
qed

lemma await_loop_ends:
  assumes "clock_runs o'" "0 < interval" "deadline \<le> w_monotonic o' w + int fuel * interval"
  shows "await_loop o' table_name sid before deadline interval latest (Suc fuel) w \<noteq> None"
  using assms(3)
proof (induction fuel arbitrary: w latest)
  case (Suc fuel)
  obtain w' latest' where r: "record_generation o' table_name sid (w_sleep o' interval w) = (w', latest')"
    by (cases "record_generation o' table_name sid (w_sleep o' interval w)")
  have "w_monotonic o' w + interval \<le> w_monotonic o' (w_sleep o' interval w)"
    using assms(1,2) by (simp add: clock_runs_def)
  moreover have "w_monotonic o' (w_sleep o' interval w) \<le> w_monotonic o' w'"
    using record_generation_runs [OF assms(1), of "w_sleep o' interval w" table_name sid] r by simp
  ultimately have "deadline \<le> w_monotonic o' w' + int fuel * interval"
    using Suc.prems by (simp add: algebra_simps)
  from Suc.IH [OF this] show ?case
    by (simp only: await_loop.simps(2) [of _ _ _ _ _ _ _ "Suc fuel"] r prod.case)
      (simp del: await_loop.simps)
qed simp

text \<open>
  A wake does not wait for ever: on any clock that keeps running, the loop that holds a
  busy sandbox and the loop that waits for the committed generation both end, within the
  iterations their time budgets allow.
\<close>

theorem wake_waits_end:
  assumes "clock_runs o'" "0 < poll_seconds"
  shows "hold_while_busy o' (gateway_get o' session token) poll_seconds stop_reserve w \<noteq> None \<and>
    await_generation o' table_name sid before w' \<noteq> None"
proof
  show "hold_while_busy o' (gateway_get o' session token) poll_seconds stop_reserve w \<noteq> None"
    by (rule hold_ends [OF assms(1) gateway_get_runs [OF assms(1)] assms(2)])
  obtain w'' latest where r: "record_generation o' table_name sid w' = (w'', latest)"
    by (cases "record_generation o' table_name sid w'")
  have "w_monotonic o' w' \<le> w_monotonic o' w''"
    using record_generation_runs [OF assms(1), of w' table_name sid] r by simp
  then have "await_loop o' table_name sid before (w_monotonic o' w' + seconds 30) (seconds 2) latest (Suc 16) w'' \<noteq> None"
    by (intro await_loop_ends [OF assms(1)]) (simp_all add: seconds_def)
  then show "await_generation o' table_name sid before w' \<noteq> None"
    by (simp add: await_generation_def Let_def r del: await_loop.simps)
qed

text \<open>A world for the witnesses: its state is the clock, and nothing answers.\<close>

definition sample_world :: "int world" where
  "sample_world =
     \<lparr>w_environ = (\<lambda>name. if name = ''SANDBOX_TABLE_NAME'' then Some ''sandboxes''
        else if name = ''WAKE_SUBJECT_KEY_ARN'' then Some ''key'' else None),
      w_time = (\<lambda>w. w), w_monotonic = (\<lambda>w. w), w_sleep = (\<lambda>d w. w + d), w_choices = (\<lambda>w. (w, [])),
      w_get_item = (\<lambda>k w. (w, Inr (Some (map_of [(''wakeSubject'', AttrS (base64 ''owner'')),
        (''ownerHash'', AttrS (''kirocrew-owner-v1'' @ [CHR 0x00] @ ''owner''))])))),
      w_scan = (\<lambda>w. (w, Inr [])), w_decrypt = (\<lambda>k c x. Inr (Some x)), w_list_users = (\<lambda>s. Inr []),
      w_sha = id, w_control = (\<lambda>d w. (w, Inl ''Throttled'')), w_runtime = (\<lambda>s d w. (w + 1, Inl ''Throttled'')),
      w_invoke_self = (\<lambda>f d w. (w, Inr ())), w_function_arn = Some ''waker'', w_remaining = (\<lambda>w. Some (seconds 900))\<rparr>"

theorem wake_waits_end_witness:
  "hold_while_busy sample_world (gateway_get sample_world ''session'' JNull) 30 180 0 \<noteq> None \<and>
   await_generation sample_world ''sandboxes'' ''sbx_A'' None 0 \<noteq> None"
  by (rule wake_waits_end) (simp_all add: clock_runs_def sample_world_def)

text \<open>
  (C31) Work is not cut off in a gap: the loop reports a sandbox idle only when two probes in a
  row, a full poll interval apart, found all four signals quiet.
\<close>

theorem idle_seen_twice:
  assumes "hold_while_busy o' get poll_seconds stop_reserve w = Some (w2, Inr Idle)"
  shows "\<exists>before_first after_first. sandbox_busy get before_first = (after_first, Inr False) \<and>
    sandbox_busy get (w_sleep o' (seconds poll_seconds) after_first) = (w2, Inr False)"
proof -
  have loop: "hold_loop o' get begun budget poll quiet fuel v = Some (w2, Inr Idle) \<Longrightarrow>
      (quiet = 0 \<and> (\<exists>u u'. sandbox_busy get u = (u', Inr False) \<and> sandbox_busy get (w_sleep o' poll u') = (w2, Inr False))) \<or>
      (quiet = 1 \<and> (sandbox_busy get v = (w2, Inr False) \<or>
        (\<exists>u u'. sandbox_busy get u = (u', Inr False) \<and> sandbox_busy get (w_sleep o' poll u') = (w2, Inr False))))"
    if "quiet \<le> 1" for begun budget poll quiet fuel v
    using that
  proof (induction fuel arbitrary: quiet v)
    case (Suc fuel)
    obtain v1 r where b: "sandbox_busy get v = (v1, r)" by (cases "sandbox_busy get v")
    obtain busy where r: "r = Inr busy" using Suc.prems(1) b by (cases r) auto
    define q where "q = (if busy then 0 else quiet + 1)"
    show ?case
    proof (cases "2 \<le> q")
      case True
      then have "quiet = 1" "\<not> busy" using Suc.prems(2) by (auto simp: q_def split: if_splits)
      with Suc.prems(1) b r True show ?thesis by (simp add: q_def)
    next
      case False
      then have rest: "hold_loop o' get begun budget poll q fuel (w_sleep o' poll v1) = Some (w2, Inr Idle)"
        using Suc.prems(1) b r by (auto simp: q_def Let_def split: if_splits)
      have "q \<le> 1" using False by simp
      from Suc.IH [OF rest this] have ih: "(q = 1 \<and> sandbox_busy get (w_sleep o' poll v1) = (w2, Inr False)) \<or>
          (\<exists>u u'. sandbox_busy get u = (u', Inr False) \<and> sandbox_busy get (w_sleep o' poll u') = (w2, Inr False))"
        by blast
      moreover have "sandbox_busy get v = (v1, Inr False)" if "q = 1"
        using that b r by (auto simp: q_def split: if_splits)
      ultimately show ?thesis using Suc.prems(2) by (cases quiet) auto
    qed
  qed simp
  from assms obtain left where "remaining_time o' w = Inr left"
    by (cases "remaining_time o' w") (auto simp: hold_while_busy_def)
  with assms have "hold_loop o' get (w_monotonic o' w) (left - seconds stop_reserve) (seconds poll_seconds) 0
      (hold_fuel (left - seconds stop_reserve) (seconds poll_seconds)) w = Some (w2, Inr Idle)"
    by (simp add: hold_while_busy_def Let_def)
  from loop [OF _ this] show ?thesis by auto
qed

theorem idle_seen_twice_witness:
  "\<exists>w2. hold_while_busy sample_world (\<lambda>path w. (w, Inr JNull)) 30 180 0 = Some (w2, Inr Idle) \<and>
    (\<exists>before_first after_first. sandbox_busy (\<lambda>path w. (w, Inr JNull)) before_first = (after_first, Inr False) \<and>
      sandbox_busy (\<lambda>path w. (w, Inr JNull)) (w_sleep sample_world (seconds 30) after_first) = (w2, Inr False))"
proof -
  have quiet: "sandbox_busy (\<lambda>path w. (w, Inr JNull)) v = (v, Inr False)" for v :: int
    by (simp add: sandbox_busy_def busy_signals_def some_run_def positive_count_def members_of_def)
  have clock: "w_monotonic sample_world v = v" "w_sleep sample_world d v = v + d"
    "w_remaining sample_world v = Some (seconds 900)" for v d
    by (simp_all add: sample_world_def)
  have loop: "hold_loop sample_world (\<lambda>path w. (w, Inr JNull)) 0 (seconds 720) (seconds 30) 0 (Suc (Suc n)) 0 =
      Some (seconds 30, Inr Idle)" for n
    by (simp add: clock quiet) (simp add: seconds_def)
  have "hold_while_busy sample_world (\<lambda>path w. (w, Inr JNull)) 30 180 0 = Some (seconds 30, Inr Idle)"
    unfolding hold_while_busy_def remaining_time_def clock hold_fuel_def Let_def
    using loop [of 24] by (simp add: seconds_def del: hold_loop.simps)
  from idle_seen_twice [OF this] this show ?thesis by blast
qed

subsection \<open>Whose identity\<close>

lemma check_subject_Inr:
  assumes "check_subject o' sid recorded plaintext = Inr subject"
  shows "\<exists>bytes. plaintext = Some bytes \<and> utf8_decode bytes = Some subject \<and>
    w_sha o' (''kirocrew-owner-v1'' @ [CHR 0x00] @ subject) = recorded \<and> subject_enabled o' subject = Inr True"
  using assms
  by (auto simp: check_subject_def wake_refused_def split: option.splits if_splits sum.splits bool.splits)

text \<open>
  (C32) A wake acts only for the sandbox's own owner: the subject it goes on with was sealed
  for this sandbox, is the one whose hash the control plane's registry filed the sandbox
  under, and is, where a user pool is configured, that of an enabled user.
\<close>

theorem wake_uses_own_owner:
  assumes "open_subject o' sid w = (w', Inr subject)"
  shows "\<exists>it key_id ciphertext bytes. fst (w_get_item o' (record_key sid) w) = w' \<and>
    snd (w_get_item o' (record_key sid) w) = Inr (Some it) \<and>
    unbase64 (text_or_empty it ''wakeSubject'') = Some ciphertext \<and>
    w_decrypt o' key_id (wake_context sid) ciphertext = Inr (Some bytes) \<and> utf8_decode bytes = Some subject \<and>
    (subject \<noteq> [] \<longrightarrow> dynamo_owner_hash (w_sha o') subject = Inr (text_or_empty it ''ownerHash'')) \<and>
    subject_enabled o' subject = Inr True"
proof -
  obtain found where g: "w_get_item o' (record_key sid) w = (w', Inr found)"
    and u: "unseal_subject o' sid (case found of None \<Rightarrow> Map.empty | Some it \<Rightarrow> it) = Inr subject"
    using assms by (auto simp: open_subject_def split: sum.splits prod.splits)
  obtain it where it: "found = Some it"
    using u by (cases found) (auto simp: unseal_subject_def text_or_empty_def wake_refused_def)
  obtain ciphertext key_id plaintext where f: "unbase64 (text_or_empty it ''wakeSubject'') = Some ciphertext"
    "w_decrypt o' key_id (wake_context sid) ciphertext = Inr plaintext"
    "check_subject o' sid (text_or_empty it ''ownerHash'') plaintext = Inr subject"
    using u it by (auto simp: unseal_subject_def wake_refused_def Let_def split: option.splits sum.splits if_splits)
  from check_subject_Inr [OF f(3)] f(1,2) g it show ?thesis
    by (auto simp: dynamo_owner_hash_def)
qed

lemma sample_opened: "open_subject sample_world ''sbx_A'' 0 = (0, Inr ''owner'')"
proof -
  have "utf8_decode ''owner'' = Some ''owner''" "list_all is_ascii (''kirocrew-owner-v1'' @ [CHR 0x00] @ ''owner'')"
    "base64 ''owner'' \<noteq> []" by code_simp+
  then show ?thesis
    by (simp add: open_subject_def waker_required_def env_text_def sample_world_def unseal_subject_def
        text_or_empty_def attr_s_def check_subject_def subject_enabled_def Let_def)
qed

theorem wake_uses_own_owner_witness:
  "open_subject sample_world ''sbx_A'' 0 = (0, Inr ''owner'') \<and> subject_enabled sample_world ''owner'' = Inr True"
  using wake_uses_own_owner [OF sample_opened] sample_opened by blast

subsection \<open>The dispatcher\<close>

lemma plan_wake_due: "due_sandboxes o' table_name now sids w = (w', due) \<Longrightarrow>
    sid \<in> set due \<Longrightarrow> sid \<in> set sids \<and> (\<exists>v. wp_wake (snd (plan_wake o' table_name sid now v)))"
proof (induction sids arbitrary: w due)
  case (Cons s sids)
  obtain w1 plan where p: "plan_wake o' table_name s now w = (w1, plan)" by (cases "plan_wake o' table_name s now w")
  obtain w2 rest where d: "due_sandboxes o' table_name now sids w1 = (w2, rest)"
    by (cases "due_sandboxes o' table_name now sids w1")
  from Cons.prems p d have due: "w' = w2" "due = (if wp_wake plan then s # rest else rest)" by auto
  show ?case
  proof (cases "sid \<in> set rest")
    case True
    with Cons.IH d due(1) show ?thesis by auto
  next
    case False
    with Cons.prems(2) due have "sid = s" "wp_wake plan" by (auto split: if_splits)
    then show ?thesis using p by (metis list.set_intros(1) snd_conv)
  qed
qed simp



text \<open>
  The documentation of \<open>_gateway_get\<close> promises that it never raises; an answer whose
  \<open>events\<close> is null does raise.
\<close>

lemma gateway_body_can_raise:
  "json_loads raw = Some (JObj [(''events'', JNull)]) \<Longrightarrow> gateway_body raw = Inl (TypeErr ''object is not iterable'')"
  by (simp add: gateway_body_def get_default_def)

end
