(* ===== verification/Cipher.thy ===== *)
theory Cipher
  imports Broker
begin

text \<open>
  \<open>persistence/crypto.py\<close>: the cipher of one sandbox, with the exceptions the persistence
  package raises.  SHA-256, HMAC and AES-GCM (the \<open>cryptography\<close> package) are parameters, a
  record of functions; byte strings are strings of code points below 256.
\<close>

subsection \<open>Exceptions\<close>

text \<open>
  \<open>BrokerRefusalError\<close> is a subclass of \<open>BrokerAuthorizationError\<close>, \<open>ReadOnlyPersistenceError\<close>
  of \<open>CheckpointError\<close> and \<open>ManifestValidationError\<close> of \<open>RestoreError\<close>.
\<close>

datatype fault =
  BrokerAuthorizationError string
| BrokerRefusalError string
| ObjectNotFoundError string
| IntegrityError string
| CheckpointError string
| ReadOnlyPersistenceError string
| ManifestValidationError string
| RestoreError string
| OSError string
| Crash crash

definition is_broker_error :: "fault \<Rightarrow> bool" where
  "is_broker_error e = (case e of BrokerAuthorizationError _ \<Rightarrow> True | BrokerRefusalError _ \<Rightarrow> True | _ \<Rightarrow> False)"

lemma is_broker_error_simps [simp]:
  "is_broker_error (BrokerAuthorizationError s)" "is_broker_error (BrokerRefusalError s)"
  "\<not> is_broker_error (ObjectNotFoundError s)" "\<not> is_broker_error (IntegrityError s)"
  "\<not> is_broker_error (Crash c)"
  by (simp_all add: is_broker_error_def)

text \<open>The next statement after a call that changes the state and may raise.\<close>

definition then_do :: "'s \<times> ('e, 'a) result \<Rightarrow> ('s \<Rightarrow> 'a \<Rightarrow> 's \<times> ('e, 'b) result) \<Rightarrow> 's \<times> ('e, 'b) result" where
  "then_do r f = (case r of (s, Inl e) \<Rightarrow> (s, Inl e) | (s, Inr x) \<Rightarrow> f s x)"

lemma then_do_simps [simp, result_simps]:
  "then_do (s, Inl e) f = (s, Inl e)" "then_do (s, Inr x) f = f s x"
  by (simp_all add: then_do_def)

lemma then_do_elim:
  assumes "then_do r f = (s', y)"
  obtains (raised) e where "r = (s', Inl e)" "y = Inl e"
  | (next_step) s1 x where "r = (s1, Inr x)" "f s1 x = (s', y)"
  using assms by (cases r; cases "snd r") auto

lemma then_do_Inr: "then_do r f = (s', Inr y) \<longleftrightarrow> (\<exists>s1 x. r = (s1, Inr x) \<and> f s1 x = (s', Inr y))"
  by (cases r; cases "snd r") auto

subsection \<open>The sandbox cipher\<close>

record crypto =
  sha256_hex :: "string \<Rightarrow> string"
  hmac_sha256 :: "string \<Rightarrow> string \<Rightarrow> string"
  aead_seal :: "string \<Rightarrow> string \<Rightarrow> string \<Rightarrow> string \<Rightarrow> string"
  aead_open :: "string \<Rightarrow> string \<Rightarrow> string \<Rightarrow> string \<Rightarrow> string option"

text \<open>
  What the code relies on: a SHA-256 digest prints as 64 hexadecimal digits, an HMAC has 32
  bytes, and AES-GCM opens what it sealed under the same key, nonce and associated data and adds
  a tag of 16 bytes.
\<close>

definition crypto_documented :: "crypto \<Rightarrow> bool" where
  "crypto_documented c \<longleftrightarrow>
     (\<forall>m. digest_pattern (sha256_hex c m)) \<and> (\<forall>k m. length (hmac_sha256 c k m) = 32) \<and>
     (\<forall>k n p a. aead_open c k n (aead_seal c k n p a) a = Some p) \<and>
     (\<forall>k n p a. length (aead_seal c k n p a) = length p + 16)"

record encrypted_blob =
  blob_digest :: string
  blob_ciphertext :: string

record sandbox_cipher =
  cipher_key :: string
  cipher_sandbox :: string

definition new_cipher :: "string \<Rightarrow> string \<Rightarrow> (fault, sandbox_cipher) result" where
  "new_cipher key sid =
     (if length key \<noteq> 32 \<or> sid = [] then Inl (Crash (ValueCrash ''A 32-byte key and sandbox ID are required.''))
      else Inr \<lparr> cipher_key = key, cipher_sandbox = sid \<rparr>)"

definition associated_data :: "sandbox_cipher \<Rightarrow> string \<Rightarrow> string" where
  "associated_data sc digest =
     utf8_encode (''kirocrew-checkpoint-v1'' @ [CHR 0x00] @ cipher_sandbox sc @ [CHR 0x00] @ digest)"

definition encrypt :: "crypto \<Rightarrow> sandbox_cipher \<Rightarrow> string \<Rightarrow> encrypted_blob" where
  "encrypt c sc plaintext =
     (let digest = sha256_hex c plaintext;
          nonce = take 12 (hmac_sha256 c (cipher_key sc) (utf8_encode digest));
          aad = associated_data sc digest in
      \<lparr> blob_digest = digest, blob_ciphertext = nonce @ aead_seal c (cipher_key sc) nonce plaintext aad \<rparr>)"

text \<open>\<open>hmac.compare_digest\<close> of two strings refuses characters outside ASCII with a \<open>TypeError\<close>.\<close>

definition decrypt :: "crypto \<Rightarrow> sandbox_cipher \<Rightarrow> encrypted_blob \<Rightarrow> (fault, string) result" where
  "decrypt c sc blob =
     (if length (blob_ciphertext blob) < 13 then Inl (IntegrityError ''Encrypted blob is truncated.'')
      else
        let nonce = take 12 (blob_ciphertext blob); ciphertext = drop 12 (blob_ciphertext blob) in
        (case aead_open c (cipher_key sc) nonce ciphertext (associated_data sc (blob_digest blob)) of
           None \<Rightarrow> Inl (IntegrityError ''Encrypted blob authentication failed.'')
         | Some plaintext \<Rightarrow>
             if \<not> list_all is_ascii (blob_digest blob)
             then Inl (Crash (TypeErr ''comparing strings with non-ASCII characters is not supported''))
             else if sha256_hex c plaintext \<noteq> blob_digest blob
             then Inl (IntegrityError ''Encrypted blob digest does not match plaintext.'')
             else Inr plaintext))"

lemma hex_ascii: "is_hex x \<Longrightarrow> is_ascii x"
  by (auto simp: is_hex_def is_ascii_def is_decimal_char_def)

lemma digest_ascii: "digest_pattern s \<Longrightarrow> list_all is_ascii s"
  by (auto simp: digest_pattern_def list_all_iff intro: hex_ascii)

lemma blob_digest_encrypt [simp]: "blob_digest (encrypt c sc p) = sha256_hex c p"
  by (simp add: encrypt_def Let_def)

lemma decrypt_encrypt: "crypto_documented c \<Longrightarrow> decrypt c sc (encrypt c sc p) = Inr p"
  by (simp add: decrypt_def encrypt_def Let_def crypto_documented_def digest_ascii)

text \<open>Whatever opens, opens to content of the digest it is named by.\<close>

lemma decrypt_digest: "decrypt c sc blob = Inr p \<Longrightarrow> sha256_hex c p = blob_digest blob"
  by (auto simp: decrypt_def Let_def split: if_splits option.splits)

end
