(* ===== verification/ObjectStore.thy ===== *)
theory ObjectStore
  imports Cipher
begin

text \<open>
  The first half of \<open>persistence/durability.py\<close>: the credential-free object store that enforces
  broker-issued grants, the local KMS adapter, and \<open>PersistenceBroker\<close>, which derives every object
  key from a validated sandbox id.  The clock of both is a field of the store's state; the tokens
  \<open>secrets.token_urlsafe\<close> draws are a parameter.
\<close>

subsection \<open>Grants\<close>

datatype storage_operation = GET | PUT | HEAD

record presigned =
  grant_url :: string
  grant_method :: storage_operation
  grant_expires_at :: time
  grant_headers :: "(string \<times> string) list"

record stored_grant =
  granted_key :: string
  granted_operation :: storage_operation
  granted_until :: time
  granted_headers :: "(string \<times> string) list"

datatype stored_answer = Bytes string | Exists bool

record object_store =
  objects :: "(string \<times> string) list"
  object_metadata :: "(string \<times> (string \<times> string) list) list"
  grants :: "(string \<times> stored_grant) list"
  drawn :: nat
  store_now :: time

definition local_prefix :: string where
  "local_prefix = ''local-s3-presigned://''"

definition store_presign :: "(nat \<Rightarrow> string) \<Rightarrow> string \<Rightarrow> storage_operation \<Rightarrow> time \<Rightarrow> (string \<times> string) list
    \<Rightarrow> object_store \<Rightarrow> object_store \<times> presigned" where
  "store_presign token key operation expires headers s =
     (let drawn_token = token (drawn s) in
      (s\<lparr>grants := AList.update drawn_token \<lparr> granted_key = key, granted_operation = operation,
            granted_until = expires, granted_headers = headers \<rparr> (grants s), drawn := Suc (drawn s)\<rparr>,
       \<lparr> grant_url = local_prefix @ drawn_token, grant_method = operation, grant_expires_at = expires,
         grant_headers = headers \<rparr>))"

text \<open>\<open>request\<close>: two dictionaries are equal when they hold the same pairs.\<close>

definition store_request :: "presigned \<Rightarrow> storage_operation \<Rightarrow> string option \<Rightarrow> (string \<times> string) list
    \<Rightarrow> object_store \<Rightarrow> object_store \<times> (fault, stored_answer) result" where
  "store_request grant operation body headers s =
     (case map_of (grants s) (remove_prefix (grant_url grant) local_prefix) of
        None \<Rightarrow> (s, Inl (BrokerAuthorizationError ''The storage operation is not authorized.''))
      | Some g \<Rightarrow>
          if granted_operation g \<noteq> operation
          then (s, Inl (BrokerAuthorizationError ''The storage operation is not authorized.''))
          else if store_now s \<ge> granted_until g
          then (s, Inl (BrokerAuthorizationError ''The storage operation grant expired.''))
          else if set headers \<noteq> set (granted_headers g)
          then (s, Inl (BrokerAuthorizationError ''Required storage headers do not match the grant.''))
          else (case operation of
            PUT \<Rightarrow>
              (case body of
                 None \<Rightarrow> (s, Inl (Crash (ValueCrash ''PUT requires a body.'')))
               | Some b \<Rightarrow>
                   (s\<lparr>objects := AList.update (granted_key g) b (objects s),
                      object_metadata := AList.update (granted_key g) headers (object_metadata s)\<rparr>, Inr (Bytes [])))
          | HEAD \<Rightarrow> (s, Inr (Exists (map_of (objects s) (granted_key g) \<noteq> None)))
          | GET \<Rightarrow>
              if body \<noteq> None then (s, Inl (Crash (ValueCrash ''GET does not accept a body.'')))
              else (case map_of (objects s) (granted_key g) of
                  None \<Rightarrow> (s, Inl (ObjectNotFoundError ''Durable object does not exist.''))
                | Some b \<Rightarrow> (s, Inr (Bytes b)))))"

definition store_internal_list :: "string \<Rightarrow> object_store \<Rightarrow> string list" where
  "store_internal_list prefix s = sort (filter (\<lambda>key. starts_with key prefix) (map fst (objects s)))"

definition store_internal_delete :: "string \<Rightarrow> object_store \<Rightarrow> object_store" where
  "store_internal_delete key s =
     s\<lparr>objects := AList.delete key (objects s), object_metadata := AList.delete key (object_metadata s)\<rparr>"

subsection \<open>Keys\<close>

definition new_kms :: "string \<Rightarrow> (fault, string) result" where
  "new_kms master =
     (if length master < 32 then Inl (Crash (ValueCrash ''Local KMS master key must contain at least 32 bytes.''))
      else Inr master)"

definition local_data_key :: "crypto \<Rightarrow> string \<Rightarrow> (string \<times> string) list \<Rightarrow> string" where
  "local_data_key c master ctx =
     hmac_sha256 c master (''data-key'' @ [CHR 0x00] @ utf8_encode (json_dumps (JObj (map (map_prod id JStr) ctx))))"

subsection \<open>The broker\<close>

record broker_settings =
  bucket_name :: string
  url_ttl :: timedelta
  next_token :: "nat \<Rightarrow> string"
  broker_master :: string

definition new_persistence_broker ::
  "string \<Rightarrow> string \<Rightarrow> timedelta \<Rightarrow> (nat \<Rightarrow> string) \<Rightarrow> (fault, broker_settings) result" where
  "new_persistence_broker bucket master ttl token =
     (if bucket = [] \<or> ttl \<le> 0 \<or> ttl > minutes 15
      then Inl (Crash (ValueCrash ''Bucket and a URL TTL of at most 15 minutes are required.''))
      else Inr \<lparr> bucket_name = bucket, url_ttl = ttl, next_token = token, broker_master = master \<rparr>)"

definition validate_sandbox :: "string \<Rightarrow> (fault, string) result" where
  "validate_sandbox sid =
     (if sandbox_pattern sid then Inr sid else Inl (BrokerAuthorizationError ''Invalid sandbox identity.''))"

definition validate_generation :: "int \<Rightarrow> (fault, int) result" where
  "validate_generation g =
     (if g \<le> 0 then Inl (BrokerAuthorizationError ''Generation must be positive.'') else Inr g)"

definition encryption_context :: "string \<Rightarrow> (fault, (string \<times> string) list) result" where
  "encryption_context sid =
     and_then (validate_sandbox sid) (\<lambda>sandbox.
       Inr [(''application'', ''kirocrew-agentcore''), (''purpose'', ''sandbox-checkpoint''), (''sandboxId'', sandbox)])"

definition broker_cipher :: "crypto \<Rightarrow> broker_settings \<Rightarrow> string \<Rightarrow> (fault, sandbox_cipher) result" where
  "broker_cipher c b sid =
     and_then (validate_sandbox sid) (\<lambda>sandbox.
     and_then (encryption_context sandbox) (\<lambda>ctx.
       new_cipher (local_data_key c (broker_master b) ctx) sandbox))"

definition snapshot_key :: "string \<Rightarrow> string \<Rightarrow> string" where
  "snapshot_key sid suffix = ''snapshots/'' @ sid @ ''/'' @ suffix"

definition presign_headers :: "broker_settings \<Rightarrow> string \<Rightarrow> (string \<times> string) list" where
  "presign_headers b sid =
     [(''x-amz-server-side-encryption'', ''aws:kms''),
      (''x-amz-server-side-encryption-context'', encoded_context sid),
      (''x-amz-server-side-encryption-bucket'', bucket_name b)]"

definition local_presign :: "broker_settings \<Rightarrow> string \<Rightarrow> string \<Rightarrow> storage_operation
    \<Rightarrow> object_store \<Rightarrow> object_store \<times> (fault, presigned) result" where
  "local_presign b sid suffix operation s =
     trying s (validate_sandbox sid) (\<lambda>sandbox.
       map_prod id Inr (store_presign (next_token b) (snapshot_key sandbox suffix) operation
         (store_now s + url_ttl b) (presign_headers b sandbox) s))"

definition local_presign_chunk :: "broker_settings \<Rightarrow> string \<Rightarrow> string \<Rightarrow> storage_operation
    \<Rightarrow> object_store \<Rightarrow> object_store \<times> (fault, presigned) result" where
  "local_presign_chunk b sid digest operation s =
     (if \<not> digest_pattern digest then (s, Inl (BrokerAuthorizationError ''Invalid content digest.''))
      else local_presign b sid (''chunks/'' @ digest @ ''.bin'') operation s)"

definition local_presign_manifest :: "broker_settings \<Rightarrow> string \<Rightarrow> int \<Rightarrow> storage_operation
    \<Rightarrow> object_store \<Rightarrow> object_store \<times> (fault, presigned) result" where
  "local_presign_manifest b sid generation operation s =
     trying s (validate_generation generation) (\<lambda>g.
       local_presign b sid (''manifests/'' @ dec_int g @ ''.json.enc'') operation s)"

definition local_presign_commit :: "broker_settings \<Rightarrow> string \<Rightarrow> int \<Rightarrow> storage_operation
    \<Rightarrow> object_store \<Rightarrow> object_store \<times> (fault, presigned) result" where
  "local_presign_commit b sid generation operation s =
     trying s (validate_generation generation) (\<lambda>g.
       local_presign b sid (''commits/'' @ dec_int g @ ''.json'') operation s)"

definition local_request :: "presigned \<Rightarrow> storage_operation \<Rightarrow> string option
    \<Rightarrow> object_store \<Rightarrow> object_store \<times> (fault, stored_answer) result" where
  "local_request grant operation body s = store_request grant operation body (grant_headers grant) s"

definition local_chunk_exists :: "string \<Rightarrow> string \<Rightarrow> object_store \<Rightarrow> (fault, bool) result" where
  "local_chunk_exists sid digest s =
     and_then (validate_sandbox sid) (\<lambda>sandbox.
       if \<not> digest_pattern digest then Inl (BrokerAuthorizationError ''Invalid storage object digest.'')
       else Inr (store_internal_list (snapshot_key sandbox (''chunks/'' @ digest @ ''.bin'')) s \<noteq> []))"

definition local_internal_keys :: "string \<Rightarrow> string \<Rightarrow> object_store \<Rightarrow> (fault, string list) result" where
  "local_internal_keys sid category s =
     and_then (validate_sandbox sid) (\<lambda>sandbox.
       if category \<notin> {''chunks'', ''manifests'', ''commits''}
       then Inl (BrokerAuthorizationError ''Invalid storage category.'')
       else Inr (store_internal_list (snapshot_key sandbox (category @ ''/'')) s))"

definition valid_object_name :: "string \<Rightarrow> string \<Rightarrow> bool" where
  "valid_object_name category name =
     (if category = ''chunks'' then digest_pattern (remove_suffix name ''.bin'') \<and> ends_with name ''.bin''
      else if category = ''manifests'' then ends_with name ''.json.enc'' \<and> str_isdigit (remove_suffix name ''.json.enc'')
      else if category = ''commits'' then ends_with name ''.json'' \<and> str_isdigit (remove_suffix name ''.json'')
      else False)"

definition local_internal_delete :: "string \<Rightarrow> string \<Rightarrow> string \<Rightarrow> object_store \<Rightarrow> object_store \<times> (fault, unit) result" where
  "local_internal_delete sid category name s =
     trying s (validate_sandbox sid) (\<lambda>sandbox.
       if \<not> valid_object_name category name
       then (s, Inl (BrokerAuthorizationError ''Invalid internal object identifier.''))
       else (store_internal_delete (snapshot_key sandbox (category @ ''/'' @ name)) s, Inr ()))"

end
