(* ===== verification/CheckpointStore.thy ===== *)
theory CheckpointStore
  imports ObjectStore
begin

text \<open>
  \<open>CheckpointBroker\<close> and \<open>BrokeredCheckpointStore\<close> of \<open>persistence/durability.py\<close>: the checkpoint
  store and restore source that only uses broker-derived operations.  The protocol is a record of
  operations over the state of whatever broker is behind it; the store adds its cached index of
  chunks.  \<open>GET\<close> answers bytes, and reading a truth value as bytes is a \<open>TypeError\<close>.
\<close>

subsection \<open>The protocol\<close>

record 's checkpoint_broker =
  cb_context :: "string \<Rightarrow> (fault, (string \<times> string) list) result"
  cb_presign_chunk :: "string \<Rightarrow> string \<Rightarrow> storage_operation \<Rightarrow> 's \<Rightarrow> 's \<times> (fault, presigned) result"
  cb_presign_manifest :: "string \<Rightarrow> int \<Rightarrow> storage_operation \<Rightarrow> 's \<Rightarrow> 's \<times> (fault, presigned) result"
  cb_presign_commit :: "string \<Rightarrow> int \<Rightarrow> storage_operation \<Rightarrow> 's \<Rightarrow> 's \<times> (fault, presigned) result"
  cb_request :: "presigned \<Rightarrow> storage_operation \<Rightarrow> string option \<Rightarrow> 's \<Rightarrow> 's \<times> (fault, stored_answer) result"
  cb_chunk_exists :: "string \<Rightarrow> string \<Rightarrow> 's \<Rightarrow> 's \<times> (fault, bool) result"
  cb_internal_keys :: "string \<Rightarrow> string \<Rightarrow> 's \<Rightarrow> 's \<times> (fault, string list) result"
  cb_internal_delete :: "string \<Rightarrow> string \<Rightarrow> string \<Rightarrow> 's \<Rightarrow> 's \<times> (fault, unit) result"

definition local_broker :: "broker_settings \<Rightarrow> object_store checkpoint_broker" where
  "local_broker b =
     \<lparr> cb_context = encryption_context,
       cb_presign_chunk = local_presign_chunk b,
       cb_presign_manifest = local_presign_manifest b,
       cb_presign_commit = local_presign_commit b,
       cb_request = local_request,
       cb_chunk_exists = (\<lambda>sid digest s. (s, local_chunk_exists sid digest s)),
       cb_internal_keys = (\<lambda>sid category s. (s, local_internal_keys sid category s)),
       cb_internal_delete = local_internal_delete \<rparr>"

subsection \<open>The store\<close>

record 's checkpoint_store =
  cs_broker :: "'s checkpoint_broker"
  cs_sandbox :: string
  cs_index_chunks :: bool

record 's store_state =
  behind :: 's
  known_chunks :: "string list option"

definition new_store :: "'s checkpoint_broker \<Rightarrow> string \<Rightarrow> bool \<Rightarrow> (fault, 's checkpoint_store) result" where
  "new_store broker sid index_chunks =
     and_then (cb_context broker sid) (\<lambda>_.
       Inr \<lparr> cs_broker = broker, cs_sandbox = sid, cs_index_chunks = index_chunks \<rparr>)"

text \<open>A call of the broker leaves the index alone.\<close>

definition ask :: "('s \<Rightarrow> 's \<times> 'a) \<Rightarrow> 's store_state \<Rightarrow> 's store_state \<times> 'a" where
  "ask f st = map_prod (\<lambda>s. st\<lparr>behind := s\<rparr>) id (f (behind st))"

definition transfer :: "'s checkpoint_store \<Rightarrow> ('s \<Rightarrow> 's \<times> (fault, presigned) result) \<Rightarrow> storage_operation
    \<Rightarrow> string option \<Rightarrow> 's store_state \<Rightarrow> 's store_state \<times> (fault, stored_answer) result" where
  "transfer cs presigning operation body st =
     then_do (ask presigning st) (\<lambda>st grant. ask (cb_request (cs_broker cs) grant operation body) st)"

definition as_bytes :: "stored_answer \<Rightarrow> (fault, string) result" where
  "as_bytes a = (case a of Bytes b \<Rightarrow> Inr b | Exists _ \<Rightarrow> Inl (Crash (TypeErr ''the JSON object must be str, bytes'')))"

definition after_slash :: "string \<Rightarrow> string" where
  "after_slash key = last (split_on (CHR ''/'') key)"

text \<open>\<open>_load_known_chunks\<close>: a failed listing is not cached.\<close>

definition chunk_name_of :: "string \<Rightarrow> string option" where
  "chunk_name_of key =
     (let name = after_slash key in if ends_with name ''.bin'' then Some (remove_suffix name ''.bin'') else None)"

definition load_known_chunks ::
  "'s checkpoint_store \<Rightarrow> 's store_state \<Rightarrow> 's store_state \<times> (fault, string list option) result" where
  "load_known_chunks cs st =
     (if \<not> cs_index_chunks cs then (st, Inr None)
      else case known_chunks st of
        Some known \<Rightarrow> (st, Inr (Some known))
      | None \<Rightarrow>
          (case ask (cb_internal_keys (cs_broker cs) (cs_sandbox cs) ''chunks'') st of
             (st, Inl e) \<Rightarrow> if is_broker_error e then (st, Inr None) else (st, Inl e)
           | (st, Inr keys) \<Rightarrow>
               let known = List.map_filter chunk_name_of keys in
               (st\<lparr>known_chunks := Some known\<rparr>, Inr (Some known))))"

definition has_chunk :: "'s checkpoint_store \<Rightarrow> string \<Rightarrow> 's store_state \<Rightarrow> 's store_state \<times> (fault, bool) result" where
  "has_chunk cs digest st =
     then_do (load_known_chunks cs st) (\<lambda>st known.
       case known of
         None \<Rightarrow> ask (cb_chunk_exists (cs_broker cs) (cs_sandbox cs) digest) st
       | Some digests \<Rightarrow> (st, Inr (digest \<in> set digests)))"

definition upload_chunk ::
  "'s checkpoint_store \<Rightarrow> string \<Rightarrow> string \<Rightarrow> 's store_state \<Rightarrow> 's store_state \<times> (fault, unit) result" where
  "upload_chunk cs digest ciphertext st =
     then_do (has_chunk cs digest st) (\<lambda>st present.
       if present then (st, Inr ())
       else
         then_do (transfer cs (cb_presign_chunk (cs_broker cs) (cs_sandbox cs) digest PUT) PUT (Some ciphertext) st)
           (\<lambda>st _. (st\<lparr>known_chunks := map_option (\<lambda>known. digest # known) (known_chunks st)\<rparr>, Inr ())))"

definition manifest_payload :: "encrypted_blob \<Rightarrow> string" where
  "manifest_payload blob = json_dumps (JObj
     [(''ciphertext'', JStr (base64 (blob_ciphertext blob))), (''digest'', JStr (blob_digest blob))])"

definition upload_manifest ::
  "'s checkpoint_store \<Rightarrow> int \<Rightarrow> encrypted_blob \<Rightarrow> 's store_state \<Rightarrow> 's store_state \<times> (fault, unit) result" where
  "upload_manifest cs generation blob st =
     then_do (transfer cs (cb_presign_manifest (cs_broker cs) (cs_sandbox cs) generation PUT) PUT
         (Some (manifest_payload blob)) st)
       (\<lambda>st _. (st, Inr ()))"

text \<open>\<open>get_manifest\<close>: every failure to read the payload is an integrity error.\<close>

definition malformed_manifest :: fault where
  "malformed_manifest = IntegrityError ''Encrypted manifest object is malformed.''"

definition read_manifest_payload :: "string \<Rightarrow> (fault, encrypted_blob) result" where
  "read_manifest_payload raw =
     (case Option.bind (utf8_decode raw) json_loads of
        Some (JObj v) \<Rightarrow>
          (case (get_key v ''digest'', get_key v ''ciphertext'') of
             (JStr digest, JStr ciphertext) \<Rightarrow>
               (case unbase64 ciphertext of
                  None \<Rightarrow> Inl malformed_manifest
                | Some bytes \<Rightarrow> Inr \<lparr> blob_digest = digest, blob_ciphertext = bytes \<rparr>)
           | _ \<Rightarrow> Inl malformed_manifest)
      | _ \<Rightarrow> Inl malformed_manifest)"

definition get_object ::
  "'s checkpoint_store \<Rightarrow> ('s \<Rightarrow> 's \<times> (fault, presigned) result) \<Rightarrow> 's store_state \<Rightarrow> 's store_state \<times> (fault, string) result" where
  "get_object cs presigning st =
     then_do (transfer cs presigning GET None st) (\<lambda>st answer. (st, as_bytes answer))"

definition get_manifest ::
  "'s checkpoint_store \<Rightarrow> int \<Rightarrow> 's store_state \<Rightarrow> 's store_state \<times> (fault, encrypted_blob) result" where
  "get_manifest cs generation st =
     then_do (get_object cs (cb_presign_manifest (cs_broker cs) (cs_sandbox cs) generation GET) st)
       (\<lambda>st raw. (st, read_manifest_payload raw))"

definition get_chunk :: "'s checkpoint_store \<Rightarrow> string \<Rightarrow> 's store_state \<Rightarrow> 's store_state \<times> (fault, string) result" where
  "get_chunk cs digest st = get_object cs (cb_presign_chunk (cs_broker cs) (cs_sandbox cs) digest GET) st"

text \<open>\<open>committed_generations\<close>\<close>

record committed_generation =
  cg_generation :: int
  cg_manifest_digest :: string
  cg_committed_at :: time

definition malformed_commit :: fault where
  "malformed_commit = IntegrityError ''Commit record is malformed.''"

definition read_commit :: "int \<Rightarrow> string \<Rightarrow> (fault, committed_generation) result" where
  "read_commit generation raw =
     (case Option.bind (utf8_decode raw) json_loads of
        None \<Rightarrow> Inl (Crash (ValueCrash ''invalid JSON''))
      | Some (JObj v) \<Rightarrow>
          (case (get_key v ''manifestDigest'', get_key v ''committedAt'') of
             (JStr digest, JStr at_text) \<Rightarrow>
               if \<not> digest_pattern digest \<or> \<not> py_eq (get_key v ''generation'') (JInt generation)
               then Inl malformed_commit
               else (case read_timestamp at_text of
                   None \<Rightarrow> Inl malformed_commit
                 | Some t \<Rightarrow> Inr \<lparr> cg_generation = generation, cg_manifest_digest = digest, cg_committed_at = t \<rparr>)
           | _ \<Rightarrow> Inl malformed_commit)
      | Some _ \<Rightarrow> Inl malformed_commit)"

definition commit_number :: "string \<Rightarrow> (fault, int) result" where
  "commit_number key = (case read_int (remove_suffix (after_slash key) ''.json'') of
     None \<Rightarrow> Inl (Crash (ValueCrash ''invalid literal for int()''))
   | Some g \<Rightarrow> Inr g)"

fun read_commits ::
  "'s checkpoint_store \<Rightarrow> string list \<Rightarrow> 's store_state \<Rightarrow> 's store_state \<times> (fault, committed_generation list) result" where
  "read_commits cs [] st = (st, Inr [])"
| "read_commits cs (key # keys) st =
     trying st (commit_number key) (\<lambda>generation.
     then_do (get_object cs (cb_presign_commit (cs_broker cs) (cs_sandbox cs) generation GET) st) (\<lambda>st raw.
     trying st (read_commit generation raw) (\<lambda>commit.
     then_do (read_commits cs keys st) (\<lambda>st commits. (st, Inr (commit # commits))))))"

definition committed_generations ::
  "'s checkpoint_store \<Rightarrow> 's store_state \<Rightarrow> 's store_state \<times> (fault, committed_generation list) result" where
  "committed_generations cs st =
     then_do (ask (cb_internal_keys (cs_broker cs) (cs_sandbox cs) ''commits'') st) (\<lambda>st keys.
     then_do (read_commits cs keys st) (\<lambda>st commits.
       (st, Inr (sort_key cg_generation commits))))"

definition commit_payload :: "int \<Rightarrow> string \<Rightarrow> time \<Rightarrow> string" where
  "commit_payload generation digest now = json_dumps (JObj
     [(''committedAt'', JStr (timestamp now)), (''generation'', JInt generation),
      (''manifestDigest'', JStr digest), (''schemaVersion'', JInt 1)])"

definition commit_generation ::
  "'s checkpoint_store \<Rightarrow> time \<Rightarrow> int \<Rightarrow> string \<Rightarrow> 's store_state \<Rightarrow> 's store_state \<times> (fault, unit) result" where
  "commit_generation cs now generation manifest_digest st =
     then_do (get_manifest cs generation st) (\<lambda>st blob.
       if blob_digest blob \<noteq> manifest_digest
       then (st, Inl (CheckpointError ''Manifest must exist before generation commit.''))
       else
         then_do (committed_generations cs st) (\<lambda>st commits.
           if commits \<noteq> [] \<and> generation \<le> cg_generation (last commits)
           then (st, Inl (CheckpointError ''Generation commit must advance monotonically.''))
           else
             then_do (transfer cs (cb_presign_commit (cs_broker cs) (cs_sandbox cs) generation PUT) PUT
                 (Some (commit_payload generation manifest_digest now)) st)
               (\<lambda>st _. (st, Inr ()))))"

definition latest_committed ::
  "'s checkpoint_store \<Rightarrow> 's store_state \<Rightarrow> 's store_state \<times> (fault, int option) result" where
  "latest_committed cs st =
     then_do (committed_generations cs st) (\<lambda>st commits.
       (st, Inr (if commits = [] then None else Some (cg_generation (last commits)))))"

text \<open>\<open>next_generation\<close>: \<open>latest_committed() or 0\<close>, then every manifest name of digits.\<close>

fun highest_manifest :: "int \<Rightarrow> string list \<Rightarrow> (fault, int) result" where
  "highest_manifest highest [] = Inr highest"
| "highest_manifest highest (key # keys) =
     (let name = remove_suffix (after_slash key) ''.json.enc'' in
      if str_isdigit name
      then (case read_int name of
          None \<Rightarrow> Inl (Crash (ValueCrash ''invalid literal for int()''))
        | Some g \<Rightarrow> highest_manifest (max highest g) keys)
      else highest_manifest highest keys)"

definition next_generation ::
  "'s checkpoint_store \<Rightarrow> 's store_state \<Rightarrow> 's store_state \<times> (fault, int) result" where
  "next_generation cs st =
     then_do (latest_committed cs st) (\<lambda>st latest.
     then_do (ask (cb_internal_keys (cs_broker cs) (cs_sandbox cs) ''manifests'') st) (\<lambda>st keys.
       (st, map_sum id (\<lambda>h. h + 1) (highest_manifest (case latest of None \<Rightarrow> 0 | Some g \<Rightarrow> g) keys))))"

definition generation_object_names :: "int \<Rightarrow> string \<times> string" where
  "generation_object_names generation = (dec_int generation @ ''.json.enc'', dec_int generation @ ''.json'')"

definition remove_generation ::
  "'s checkpoint_store \<Rightarrow> int \<Rightarrow> 's store_state \<Rightarrow> 's store_state \<times> (fault, unit) result" where
  "remove_generation cs generation st =
     (let (manifest_name, commit_name) = generation_object_names generation in
      then_do (ask (cb_internal_delete (cs_broker cs) (cs_sandbox cs) ''manifests'' manifest_name) st) (\<lambda>st _.
        ask (cb_internal_delete (cs_broker cs) (cs_sandbox cs) ''commits'' commit_name) st))"

definition remove_chunk ::
  "'s checkpoint_store \<Rightarrow> string \<Rightarrow> 's store_state \<Rightarrow> 's store_state \<times> (fault, unit) result" where
  "remove_chunk cs digest st =
     ask (cb_internal_delete (cs_broker cs) (cs_sandbox cs) ''chunks'' (digest @ ''.bin'')) st"

definition chunk_digests ::
  "'s checkpoint_store \<Rightarrow> 's store_state \<Rightarrow> 's store_state \<times> (fault, string list) result" where
  "chunk_digests cs st =
     then_do (ask (cb_internal_keys (cs_broker cs) (cs_sandbox cs) ''chunks'') st) (\<lambda>st keys.
       (st, Inr (map (\<lambda>key. remove_suffix (after_slash key) ''.bin'') keys)))"

end
