(* ===== verification/Paths.thy ===== *)
theory Paths
  imports PyText
begin

text \<open>
  \<open>PurePosixPath\<close> of Python's standard library, as \<open>persistence/manifest.py\<close>, \<open>journal.py\<close> and
  \<open>restore.py\<close> use it: a path is its root (empty when relative) and its segments.  With it, the
  rules of \<open>manifest.py\<close> that decide which paths are durable: \<open>safe_symlink_target\<close> and
  \<open>PersistencePolicy\<close>.
\<close>

subsection \<open>Paths\<close>

record posix_path =
  anchor :: string
  segments :: "string list"

text \<open>Two leading slashes, and exactly two, are a root of their own.\<close>

definition path_anchor :: "string \<Rightarrow> string" where
  "path_anchor s =
     (if starts_with s ''//'' \<and> \<not> starts_with s ''///'' then ''//''
      else if starts_with s ''/'' then ''/'' else '''')"

definition pure_path :: "string \<Rightarrow> posix_path" where
  "pure_path s =
     \<lparr> anchor = path_anchor s,
       segments = filter (\<lambda>p. p \<noteq> [] \<and> p \<noteq> ''.'') (split_on (CHR ''/'') s) \<rparr>"

fun join :: "char \<Rightarrow> string list \<Rightarrow> string" where
  "join c [] = []"
| "join c [x] = x"
| "join c (x # xs) = x @ [c] @ join c xs"

definition as_posix :: "posix_path \<Rightarrow> string" where
  "as_posix p =
     (if anchor p = [] \<and> segments p = [] then ''.'' else anchor p @ join (CHR ''/'') (segments p))"

definition is_absolute :: "posix_path \<Rightarrow> bool" where
  "is_absolute p = (anchor p \<noteq> [])"

definition parts :: "posix_path \<Rightarrow> string list" where
  "parts p = (if anchor p = [] then segments p else anchor p # segments p)"

definition path_parent :: "posix_path \<Rightarrow> posix_path" where
  "path_parent p = p\<lparr>segments := butlast (segments p)\<rparr>"

definition path_name :: "posix_path \<Rightarrow> string" where
  "path_name p = (if segments p = [] then [] else last (segments p))"

text \<open>\<open>relative_path.is_relative_to(root)\<close>, which includes equality.\<close>

definition is_relative_to :: "posix_path \<Rightarrow> posix_path \<Rightarrow> bool" where
  "is_relative_to p root = (anchor p = anchor root \<and> take (length (segments root)) (segments p) = segments root)"

definition rel_path :: "string list \<Rightarrow> posix_path" where
  "rel_path xs = \<lparr> anchor = [], segments = xs \<rparr>"

lemma rel_path_simps [simp]:
  "anchor (rel_path xs) = []" "segments (rel_path xs) = xs" "parts (rel_path xs) = xs"
  "\<not> is_absolute (rel_path xs)"
  by (simp_all add: rel_path_def parts_def is_absolute_def)

text \<open>A name as a directory listing gives it.\<close>

definition file_name :: "string \<Rightarrow> bool" where
  "file_name s = (s \<noteq> [] \<and> CHR ''/'' \<notin> set s \<and> s \<noteq> ''.'' \<and> s \<noteq> ''..'')"

lemma split_at_no_sep:
  "sep \<notin> set s \<Longrightarrow> split_at sep acc (s @ r) =
    (case r of [] \<Rightarrow> [rev acc @ s] | c # cs \<Rightarrow> split_at sep (rev s @ acc) r)"
  by (induction s arbitrary: acc) (auto split: list.splits)

lemma split_on_join:
  assumes "xs \<noteq> []" "\<forall>x\<in>set xs. c \<notin> set x"
  shows "split_on c (join c xs) = xs"
  using assms
proof (induction xs)
  case (Cons x xs)
  show ?case
  proof (cases xs)
    case Nil
    with Cons.prems split_at_no_sep [of c x "[]" "[]"] show ?thesis by (simp add: split_on_def)
  next
    case (Cons y ys)
    with Cons.IH Cons.prems have "split_on c (join c xs) = xs" by simp
    with Cons.prems Cons split_at_no_sep [of c x "[]" "c # join c xs"] show ?thesis
      by (simp add: split_on_def)
  qed
qed simp

lemma join_hd: "\<forall>x\<in>set xs. file_name x \<Longrightarrow> xs \<noteq> [] \<Longrightarrow>
    \<exists>a s. join (CHR ''/'') xs = a # s \<and> a \<noteq> CHR ''/''"
  by (cases xs; cases "tl xs"; cases "hd xs") (auto simp: file_name_def)

lemma pure_path_join:
  assumes "xs \<noteq> []" "\<forall>x\<in>set xs. file_name x"
  shows "pure_path (join (CHR ''/'') xs) = rel_path xs"
proof -
  have "split_on (CHR ''/'') (join (CHR ''/'') xs) = xs"
    using assms by (intro split_on_join) (auto simp: file_name_def)
  moreover have "filter (\<lambda>p. p \<noteq> [] \<and> p \<noteq> ''.'') xs = xs"
    using assms(2) by (auto simp: file_name_def filter_id_conv)
  moreover obtain a s where "join (CHR ''/'') xs = a # s" "a \<noteq> CHR ''/''"
    using join_hd [OF assms(2,1)] by blast
  ultimately show ?thesis
    by (simp add: pure_path_def path_anchor_def starts_with_def rel_path_def)
qed

lemma as_posix_rel: "xs \<noteq> [] \<Longrightarrow> as_posix (rel_path xs) = join (CHR ''/'') xs"
  by (simp add: as_posix_def)

lemma pure_path_as_posix:
  "xs \<noteq> [] \<Longrightarrow> \<forall>x\<in>set xs. file_name x \<Longrightarrow> pure_path (as_posix (rel_path xs)) = rel_path xs"
  by (simp add: as_posix_rel pure_path_join)

lemma join_inject:
  assumes "\<forall>x\<in>set xs. file_name x" "\<forall>x\<in>set ys. file_name x" "xs \<noteq> []" "ys \<noteq> []"
  shows "join (CHR ''/'') xs = join (CHR ''/'') ys \<longleftrightarrow> xs = ys"
  using pure_path_join [OF assms(3,1)] pure_path_join [OF assms(4,2)] by (metis rel_path_simps(2))

subsection \<open>Symbolic links\<close>

text \<open>\<open>safe_symlink_target\<close>: the depth never drops below the workspace.\<close>

fun climb :: "int \<Rightarrow> string list \<Rightarrow> bool" where
  "climb depth [] = True"
| "climb depth (part # rest) =
     (if part = ''..'' then (if depth - 1 < 0 then False else climb (depth - 1) rest)
      else climb (depth + 1) rest)"

definition safe_symlink_target :: "posix_path \<Rightarrow> string \<Rightarrow> bool" where
  "safe_symlink_target path target =
     (let candidate = pure_path target in
      if is_absolute candidate then False
      else climb (int (length (parts (path_parent path)))) (parts candidate))"

text \<open>
  The reference meaning: following the target one segment after the other from the directory of
  the link, as a stack of names below the workspace, never leaves it.
\<close>

fun follow :: "string list \<Rightarrow> string list \<Rightarrow> string list option" where
  "follow dir [] = Some dir"
| "follow dir (part # rest) =
     (if part = ''..'' then (if dir = [] then None else follow (butlast dir) rest)
      else follow (dir @ [part]) rest)"

lemma climb_follow: "climb (int (length dir)) ps \<longleftrightarrow> follow dir ps \<noteq> None"
proof (induction ps arbitrary: dir)
  case (Cons p ps)
  show ?case
  proof (cases "p = ''..''")
    case True
    show ?thesis
    proof (cases dir rule: rev_cases)
      case Nil
      with True show ?thesis by simp
    next
      case (snoc ds d)
      with True Cons [of ds] show ?thesis by simp
    qed
  next
    case False
    with Cons [of "dir @ [p]"] show ?thesis by (simp add: add.commute)
  qed
qed simp

subsection \<open>The persistence policy\<close>

definition policy_roots :: "string list" where
  "policy_roots =
     [''home/.kiro'', ''home/.config'', ''home/.local/share/kiro-cli'', ''artifacts'', ''knowledge'',
      ''memory'', ''projects'', ''user'']"

definition excluded_segments :: "string list" where
  "excluded_segments =
     [''.agentcore'', ''.aws'', ''.cache'', ''.mypy_cache'', ''.pytest_cache'', ''.ruff_cache'',
      ''.ssh'', ''__pycache__'', ''node_modules'', ''home/.kiro/crew/models'']"

definition excluded_names :: "string list" where
  "excluded_names = [''.env'', ''.env.local'', ''adapter.run'', ''kirocrew.pid'', ''runtime.pid'']"

definition excluded_suffixes :: "string list" where
  "excluded_suffixes = [''.log'', ''.pid'', ''.sock'', ''.tmp'', ''~'']"

text \<open>Python's \<open>needle in haystack\<close> for strings.\<close>

fun contains :: "string \<Rightarrow> string \<Rightarrow> bool" where
  "contains hay needle =
     (starts_with hay needle \<or> (case hay of [] \<Rightarrow> False | _ # rest \<Rightarrow> contains rest needle))"

declare contains.simps [simp del]

definition policy_covers :: "posix_path \<Rightarrow> bool" where
  "policy_covers p =
     (if is_absolute p \<or> ''..'' \<in> set (parts p) then False
      else list_ex (\<lambda>root. p = pure_path root \<or> is_relative_to p (pure_path root)) policy_roots)"

definition excluded_by :: "posix_path \<Rightarrow> string \<Rightarrow> bool" where
  "excluded_by p excluded =
     (let joined = as_posix p in
      excluded \<in> set (parts p) \<or> joined = excluded \<or> starts_with joined (excluded @ ''/'')
      \<or> contains (''/'' @ joined @ ''/'') (''/'' @ excluded @ ''/''))"

definition policy_includes :: "posix_path \<Rightarrow> bool" where
  "policy_includes p =
     (if is_absolute p \<or> ''..'' \<in> set (parts p) then False
      else if \<not> list_ex (\<lambda>root. p = pure_path root \<or> is_relative_to p (pure_path root)) policy_roots
      then False
      else if list_ex (excluded_by p) excluded_segments then False
      else path_name p \<notin> set excluded_names \<and> \<not> list_ex (ends_with (path_name p)) excluded_suffixes)"

lemma included_covered: "policy_includes p \<Longrightarrow> policy_covers p"
  by (simp add: policy_includes_def policy_covers_def split: if_splits)

lemma contains_mono: "contains hay needle \<Longrightarrow> contains (pre @ hay) needle"
  by (induction pre) (simp_all add: contains.simps [of "_ # _"])

lemma contains_infix: "contains (pre @ needle @ post) needle"
  by (rule contains_mono) (simp add: contains.simps)

text \<open>
  The runtime's own directory, where the journal, the staged restore and the local checkpoint
  state live, is never durable.
\<close>

lemma agentcore_not_included: "''.agentcore'' \<in> set (parts p) \<Longrightarrow> \<not> policy_includes p"
proof -
  assume "''.agentcore'' \<in> set (parts p)"
  then have "excluded_by p ''.agentcore''" by (simp add: excluded_by_def Let_def)
  then have "list_ex (excluded_by p) excluded_segments"
    unfolding list_ex_iff excluded_segments_def by (metis list.set_intros(1))
  then show ?thesis unfolding policy_includes_def by meson
qed

end
