(* ===== verification/Manifest.thy ===== *)
theory Manifest
  imports Cipher Paths
begin

text \<open>
  \<open>persistence/manifest.py\<close>: the workspace as a checkpoint sees it, the manifest entries, the
  incremental \<open>ManifestBuilder\<close>, and the decoder of \<open>restore.py\<close> (\<open>ManifestMigrator\<close>,
  \<open>ManifestDecoder\<close>) that reads the manifest back.  The workspace is frozen while a manifest is
  built, so the listing, the metadata and the contents are one value.
\<close>

subsection \<open>The workspace\<close>

text \<open>
  What \<open>lstat\<close> reports; \<open>st_mode\<close> is the whole word, file type included.  The kind of a file is
  the constructor, and the paths are relative to the workspace.
\<close>

record meta =
  st_mode :: int
  st_mtime_ns :: int

record stat = meta +
  st_ctime_ns :: int
  st_ino :: int
  st_size :: int

datatype 'm node =
  Regular 'm string
| Symlink 'm string
| Directory 'm
| Special 'm

type_synonym 'm files = "(string list \<times> 'm node) list"

fun node_meta :: "'m node \<Rightarrow> 'm" where
  "node_meta (Regular m _) = m"
| "node_meta (Symlink m _) = m"
| "node_meta (Directory m) = m"
| "node_meta (Special m) = m"

fun is_directory :: "'m node \<Rightarrow> bool" where
  "is_directory (Directory _) = True"
| "is_directory _ = False"

text \<open>\<open>stat.S_IMODE\<close>: the low twelve bits.\<close>

definition s_imode :: "int \<Rightarrow> int" where
  "s_imode mode = mode mod 4096"

text \<open>\<open>_walk_included_roots\<close>: every durable root that exists and everything below it, sorted.\<close>

definition strict_prefix_of :: "string list \<Rightarrow> string list \<Rightarrow> bool" where
  "strict_prefix_of p q = (length p < length q \<and> take (length p) q = p)"

definition walk_root :: "'m files \<Rightarrow> string \<Rightarrow> string list list" where
  "walk_root ws root =
     (let candidate = segments (pure_path root) in
      case map_of ws candidate of
        None \<Rightarrow> []
      | Some n \<Rightarrow> candidate # (if is_directory n then sort (filter (strict_prefix_of candidate) (map fst ws)) else []))"

definition walk :: "'m files \<Rightarrow> string list list" where
  "walk ws = (if map_of ws [] = None then [] else sort (remdups (concat (map (walk_root ws) policy_roots))))"

text \<open>\<open>workspace_fingerprint\<close>\<close>

definition fingerprint_line :: "string list \<Rightarrow> stat \<Rightarrow> string" where
  "fingerprint_line p st =
     as_posix (rel_path p) @ [CHR 0x00] @ dec_int (st_mode st) @ [CHR 0x00] @ dec_int (st_mtime_ns st)
     @ [CHR 0x00] @ dec_int (st_size st) @ [CHR 0x00]"

definition fingerprint_entries :: "stat files \<Rightarrow> (string list \<times> stat) list" where
  "fingerprint_entries ws =
     map (\<lambda>p. (p, node_meta (the (map_of ws p)))) (filter (\<lambda>p. policy_includes (rel_path p)) (walk ws))"

definition workspace_fingerprint :: "crypto \<Rightarrow> stat files \<Rightarrow> string" where
  "workspace_fingerprint c ws =
     sha256_hex c (concat (map (\<lambda>(p, st). utf8_encode (fingerprint_line p st)) (fingerprint_entries ws)))"

subsection \<open>Manifests\<close>

definition MANIFEST_SCHEMA_VERSION :: int where
  "MANIFEST_SCHEMA_VERSION = 1"

definition DEFAULT_CHUNK_SIZE :: nat where
  "DEFAULT_CHUNK_SIZE = 4 * 1024 * 1024"

definition PERSISTENCE_CATEGORIES :: "string list" where
  "PERSISTENCE_CATEGORIES =
     [''configuration'', ''agents'', ''workspace-projects'', ''memory'', ''knowledge'', ''artifacts'',
      ''skills'', ''conversation-session-metadata'', ''scheduled-jobs'', ''kiro-credential-state'',
      ''user-durable-state'']"

datatype entry_kind = FileEntry | DirectoryEntry | SymlinkEntry

fun kind_text :: "entry_kind \<Rightarrow> string" where
  "kind_text FileEntry = ''file''"
| "kind_text DirectoryEntry = ''directory''"
| "kind_text SymlinkEntry = ''symlink''"

record manifest_entry =
  entry_path :: string
  entry_type :: entry_kind
  entry_mode :: int
  entry_mtime_ns :: int
  entry_size :: int
  entry_digest :: "string option"
  entry_chunks :: "string list"
  entry_symlink_target :: "string option"

definition entry_as_dict :: "manifest_entry \<Rightarrow> (string \<times> json) list" where
  "entry_as_dict e =
     [(''path'', JStr (entry_path e)), (''type'', JStr (kind_text (entry_type e))),
      (''mode'', JInt (entry_mode e)), (''mtimeNs'', JInt (entry_mtime_ns e)), (''size'', JInt (entry_size e))]
     @ (case entry_digest e of None \<Rightarrow> [] | Some d \<Rightarrow> [(''digest'', JStr d)])
     @ (if entry_chunks e = [] then [] else [(''chunks'', JList (map JStr (entry_chunks e)))])
     @ (case entry_symlink_target e of None \<Rightarrow> [] | Some t \<Rightarrow> [(''symlinkTarget'', JStr t)])"

record manifest =
  schema_version :: int
  manifest_generation :: int
  manifest_sandbox :: string
  created_at :: string
  manifest_entries :: "manifest_entry list"

definition manifest_doc :: "manifest \<Rightarrow> json" where
  "manifest_doc m = JObj
     [(''schemaVersion'', JInt (schema_version m)), (''generation'', JInt (manifest_generation m)),
      (''sandboxId'', JStr (manifest_sandbox m)), (''createdAt'', JStr (created_at m)),
      (''categories'', JList (map JStr PERSISTENCE_CATEGORIES)),
      (''entries'', JList (map (\<lambda>e. JObj (entry_as_dict e)) (manifest_entries m)))]"

text \<open>\<open>json.dumps\<close> escapes everything outside ASCII, so encoding changes nothing.\<close>

definition to_json :: "manifest \<Rightarrow> string" where
  "to_json m = utf8_encode (json_dumps (manifest_doc m))"

subsection \<open>Building a manifest\<close>

record file_stamp =
  stamp_size :: int
  stamp_mtime_ns :: int
  stamp_ctime_ns :: int
  stamp_inode :: int
  stamp_mode :: int

definition stamp_of :: "stat \<Rightarrow> file_stamp" where
  "stamp_of st = \<lparr> stamp_size = st_size st, stamp_mtime_ns = st_mtime_ns st, stamp_ctime_ns = st_ctime_ns st,
     stamp_inode = st_ino st, stamp_mode = st_mode st \<rparr>"

definition RACY_WINDOW_NS :: int where
  "RACY_WINDOW_NS = 2000000000"

type_synonym baseline = "string \<Rightarrow> (file_stamp \<times> manifest_entry) option"

record built_manifest =
  built :: manifest
  built_chunks :: "(string \<times> string) list"
  built_stamps :: baseline

record builder =
  chunk_size :: nat
  committed :: baseline

definition new_builder :: "int \<Rightarrow> (fault, builder) result" where
  "new_builder n = (if n \<le> 0 then Inl (Crash (ValueCrash ''Chunk size must be positive.''))
     else Inr \<lparr> chunk_size = nat n, committed = (\<lambda>k. None) \<rparr>)"

definition remember :: "built_manifest \<Rightarrow> builder \<Rightarrow> builder" where
  "remember b bd = bd\<lparr>committed := built_stamps b\<rparr>"

definition forget :: "builder \<Rightarrow> builder" where
  "forget bd = bd\<lparr>committed := (\<lambda>k. None)\<rparr>"

text \<open>\<open>_read_chunks\<close>: successive reads of at most the chunk size; an empty file has one empty chunk.\<close>

function pieces :: "nat \<Rightarrow> string \<Rightarrow> string list" where
  "pieces n s = (if n = 0 \<or> s = [] then [] else take n s # pieces n (drop n s))"
  by pat_completeness auto
termination by (relation "measure (\<lambda>(n, s). length s)") auto

declare pieces.simps [simp del]

definition read_chunks :: "nat \<Rightarrow> string \<Rightarrow> string list" where
  "read_chunks n s = (if pieces n s = [] then [[]] else pieces n s)"

text \<open>\<open>chunks.setdefault(digest, data)\<close>\<close>

definition set_default :: "'k \<Rightarrow> 'v \<Rightarrow> ('k \<times> 'v) list \<Rightarrow> ('k \<times> 'v) list" where
  "set_default k v m = (if map_of m k = None then m @ [(k, v)] else m)"

record building =
  b_entries :: "manifest_entry list"
  b_chunks :: "(string \<times> string) list"
  b_stamps :: baseline

definition directory_entry :: "string list \<Rightarrow> stat \<Rightarrow> manifest_entry" where
  "directory_entry p st = \<lparr> entry_path = as_posix (rel_path p), entry_type = DirectoryEntry,
     entry_mode = s_imode (st_mode st), entry_mtime_ns = st_mtime_ns st, entry_size = 0, entry_digest = None,
     entry_chunks = [], entry_symlink_target = None \<rparr>"

definition symlink_entry :: "string list \<Rightarrow> stat \<Rightarrow> string \<Rightarrow> manifest_entry" where
  "symlink_entry p st target = \<lparr> entry_path = as_posix (rel_path p), entry_type = SymlinkEntry,
     entry_mode = s_imode (st_mode st), entry_mtime_ns = st_mtime_ns st,
     entry_size = int (length (utf8_encode target)), entry_digest = None, entry_chunks = [],
     entry_symlink_target = Some target \<rparr>"

definition file_entry :: "crypto \<Rightarrow> nat \<Rightarrow> string list \<Rightarrow> stat \<Rightarrow> string \<Rightarrow> manifest_entry" where
  "file_entry c n p st content = \<lparr> entry_path = as_posix (rel_path p), entry_type = FileEntry,
     entry_mode = s_imode (st_mode st), entry_mtime_ns = st_mtime_ns st, entry_size = st_size st,
     entry_digest = Some (sha256_hex c (concat (read_chunks n content))),
     entry_chunks = map (sha256_hex c) (read_chunks n content), entry_symlink_target = None \<rparr>"

definition read_file :: "crypto \<Rightarrow> nat \<Rightarrow> int \<Rightarrow> string list \<Rightarrow> stat \<Rightarrow> string \<Rightarrow> building \<Rightarrow> building" where
  "read_file c n racy_after p st content b =
     (let entry = file_entry c n p st content in
      b\<lparr>b_entries := b_entries b @ [entry],
        b_chunks := fold (\<lambda>data. set_default (sha256_hex c data) data) (read_chunks n content) (b_chunks b),
        b_stamps := (if st_mtime_ns st < racy_after \<and> st_ctime_ns st < racy_after
                     then (b_stamps b)(entry_path entry \<mapsto> (stamp_of st, entry)) else b_stamps b)\<rparr>)"

definition build_file :: "crypto \<Rightarrow> builder \<Rightarrow> int \<Rightarrow> string list \<Rightarrow> stat \<Rightarrow> string \<Rightarrow> building \<Rightarrow> building" where
  "build_file c bd racy_after p st content b =
     (let key = as_posix (rel_path p) in
      case committed bd key of
        Some (stamp, entry) \<Rightarrow>
          if stamp = stamp_of st
          then b\<lparr>b_entries := b_entries b @ [entry], b_stamps := (b_stamps b)(key \<mapsto> (stamp, entry))\<rparr>
          else read_file c (chunk_size bd) racy_after p st content b
      | None \<Rightarrow> read_file c (chunk_size bd) racy_after p st content b)"

text \<open>\<open>str(path.readlink())\<close> is the target as \<open>pathlib\<close> prints it, without \<open>.\<close> and doubled slashes.\<close>

definition build_path :: "crypto \<Rightarrow> builder \<Rightarrow> int \<Rightarrow> stat files \<Rightarrow> string list \<Rightarrow> building \<Rightarrow> building" where
  "build_path c bd racy_after ws p b =
     (if \<not> policy_includes (rel_path p) then b
      else case the (map_of ws p) of
        Directory st \<Rightarrow> b\<lparr>b_entries := b_entries b @ [directory_entry p st]\<rparr>
      | Symlink st raw \<Rightarrow>
          let target = as_posix (pure_path raw) in
          if \<not> safe_symlink_target (rel_path p) target then b
          else b\<lparr>b_entries := b_entries b @ [symlink_entry p st target]\<rparr>
      | Regular st content \<Rightarrow> build_file c bd racy_after p st content b
      | Special st \<Rightarrow> b)"

definition start_building :: building where
  "start_building = \<lparr> b_entries = [], b_chunks = [], b_stamps = (\<lambda>k. None) \<rparr>"

definition build :: "crypto \<Rightarrow> builder \<Rightarrow> int \<Rightarrow> stat files \<Rightarrow> int \<Rightarrow> string \<Rightarrow> string
    \<Rightarrow> (fault, built_manifest) result" where
  "build c bd now_ns ws generation sid created =
     (if generation \<le> 0 \<or> sid = []
      then Inl (Crash (ValueCrash ''Positive generation and sandbox ID are required.''))
      else
        let b = fold (build_path c bd (now_ns - RACY_WINDOW_NS) ws) (walk ws) start_building in
        Inr \<lparr> built = \<lparr> schema_version = MANIFEST_SCHEMA_VERSION, manifest_generation = generation,
                manifest_sandbox = sid, created_at = created, manifest_entries = sort_key entry_path (b_entries b) \<rparr>,
              built_chunks = b_chunks b, built_stamps = b_stamps b \<rparr>)"

subsection \<open>Reading a manifest back\<close>

text \<open>\<open>ManifestMigrator\<close>\<close>

definition zero_to_one :: "(string \<times> json) list \<Rightarrow> (string \<times> json) list" where
  "zero_to_one v = set_default ''categories'' (JList (map JStr PERSISTENCE_CATEGORIES))
     (AList.update ''schemaVersion'' (JInt 1) v)"

definition migration :: "int \<Rightarrow> ((string \<times> json) list \<Rightarrow> (string \<times> json) list) option" where
  "migration schema = (if schema = 0 then Some zero_to_one else None)"

function migrate_loop :: "int \<Rightarrow> (string \<times> json) list \<Rightarrow> (fault, int \<times> (string \<times> json) list) result" where
  "migrate_loop schema v =
     (if schema < MANIFEST_SCHEMA_VERSION then
        (case migration schema of
           None \<Rightarrow> Inl (ManifestValidationError ''Manifest migration path is unavailable.'')
         | Some f \<Rightarrow>
             (case as_int (get_key (f v) ''schemaVersion'') of
                None \<Rightarrow> Inl (ManifestValidationError ''Manifest migration did not advance the schema.'')
              | Some next_schema \<Rightarrow>
                  if next_schema \<le> schema
                  then Inl (ManifestValidationError ''Manifest migration did not advance the schema.'')
                  else migrate_loop next_schema (f v)))
      else Inr (schema, v))"
  by pat_completeness auto
termination by (relation "measure (\<lambda>(schema, v). nat (MANIFEST_SCHEMA_VERSION - schema))") auto

declare migrate_loop.simps [simp del]

definition migrate :: "(string \<times> json) list \<Rightarrow> (fault, (string \<times> json) list) result" where
  "migrate v =
     (case as_int (get_key v ''schemaVersion'') of
        None \<Rightarrow> Inl (ManifestValidationError ''Manifest schema version is invalid.'')
      | Some schema \<Rightarrow>
          and_then (migrate_loop schema v) (\<lambda>(reached, migrated).
            if reached \<noteq> MANIFEST_SCHEMA_VERSION
            then Inl (ManifestValidationError ''Manifest schema version is unsupported.'')
            else Inr migrated))"

text \<open>\<open>ManifestDecoder\<close>\<close>

record decoder =
  max_files :: int
  max_bytes :: int

definition MAX_RESTORE_FILES :: int where
  "MAX_RESTORE_FILES = 100000"

definition MAX_RESTORE_BYTES :: int where
  "MAX_RESTORE_BYTES = 50 * 1024 * 1024 * 1024"

definition new_decoder :: "int \<Rightarrow> int \<Rightarrow> (fault, decoder) result" where
  "new_decoder files bytes =
     (if files \<le> 0 \<or> bytes \<le> 0 then Inl (Crash (ValueCrash ''Restore limits must be positive.''))
      else Inr \<lparr> max_files = files, max_bytes = bytes \<rparr>)"

definition is_digest :: "json \<Rightarrow> bool" where
  "is_digest v = (case v of
     JStr s \<Rightarrow> length s = 64 \<and> list_all (\<lambda>ch. ch \<in> set ''0123456789abcdef'') s
   | _ \<Rightarrow> False)"

text \<open>\<open>entry_type not in {"file", ...}\<close>: a value that cannot be hashed raises \<open>TypeError\<close>.\<close>

definition read_kind :: "json \<Rightarrow> (fault, entry_kind option) result" where
  "read_kind v = (case v of
     JList _ \<Rightarrow> Inl (Crash (TypeErr ''unhashable type''))
   | JObj _ \<Rightarrow> Inl (Crash (TypeErr ''unhashable type''))
   | JStr s \<Rightarrow> Inr (if s = ''file'' then Some FileEntry else if s = ''directory'' then Some DirectoryEntry
                    else if s = ''symlink'' then Some SymlinkEntry else None)
   | _ \<Rightarrow> Inr None)"

definition invalid_metadata :: fault where
  "invalid_metadata = ManifestValidationError ''Manifest entry metadata is invalid.''"

text \<open>The path, the kind and the three numbers, in the order of the tests.\<close>

definition entry_metadata :: "(string \<times> json) list \<Rightarrow> (fault, string \<times> entry_kind \<times> int \<times> int \<times> int) result" where
  "entry_metadata v =
     (case get_key v ''path'' of
        JStr path \<Rightarrow>
          and_then (read_kind (get_key v ''type'')) (\<lambda>kind.
            case (kind, as_int (get_key v ''mode''), as_int (get_key v ''mtimeNs''), as_int (get_key v ''size'')) of
              (Some k, Some mode, Some mtime, Some bytes) \<Rightarrow>
                if mode < 0 \<or> 4095 < mode \<or> mtime < 0 \<or> bytes < 0 then Inl invalid_metadata
                else Inr (path, k, mode, mtime, bytes)
            | _ \<Rightarrow> Inl invalid_metadata)
      | _ \<Rightarrow> Inl invalid_metadata)"

definition read_chunk_list :: "(string \<times> json) list \<Rightarrow> (fault, string list) result" where
  "read_chunk_list v =
     (case get_default v ''chunks'' (JList []) of
        JList items \<Rightarrow>
          if list_all is_digest items then Inr (map (\<lambda>i. the (as_str i)) items)
          else Inl (ManifestValidationError ''Manifest chunks are invalid.'')
      | _ \<Rightarrow> Inl (ManifestValidationError ''Manifest chunks are invalid.''))"

definition check_kind :: "entry_kind \<Rightarrow> posix_path \<Rightarrow> int \<Rightarrow> json \<Rightarrow> string list \<Rightarrow> json \<Rightarrow> (fault, unit) result" where
  "check_kind k relative bytes digest chunks target =
     (case k of
        FileEntry \<Rightarrow>
          if \<not> is_digest digest \<or> chunks = [] \<or> target \<noteq> JNull
          then Inl (ManifestValidationError ''File manifest entry is invalid.'') else Inr ()
      | DirectoryEntry \<Rightarrow>
          if bytes \<noteq> 0 \<or> digest \<noteq> JNull \<or> chunks \<noteq> [] \<or> target \<noteq> JNull
          then Inl (ManifestValidationError ''Directory manifest entry is invalid.'') else Inr ()
      | SymlinkEntry \<Rightarrow>
          if digest \<noteq> JNull \<or> chunks \<noteq> []
            \<or> (case target of JStr t \<Rightarrow> \<not> safe_symlink_target relative t | _ \<Rightarrow> True)
          then Inl (ManifestValidationError ''Symlink manifest entry is invalid.'') else Inr ())"

definition read_entry :: "json \<Rightarrow> (fault, manifest_entry option) result" where
  "read_entry value =
     (case value of
        JObj v \<Rightarrow>
          and_then (entry_metadata v) (\<lambda>(path, k, mode, mtime, bytes).
          let relative = pure_path path in
          if path \<noteq> as_posix relative \<or> \<not> policy_covers relative
          then Inl (ManifestValidationError ''Manifest path is outside durable roots.'')
          else if \<not> policy_includes relative then Inr None
          else
            and_then (read_chunk_list v) (\<lambda>chunks.
            and_then (check_kind k relative bytes (get_key v ''digest'') chunks (get_key v ''symlinkTarget'')) (\<lambda>_.
              Inr (Some \<lparr> entry_path = path, entry_type = k, entry_mode = mode, entry_mtime_ns = mtime,
                entry_size = bytes, entry_digest = as_str (get_key v ''digest''), entry_chunks = chunks,
                entry_symlink_target = as_str (get_key v ''symlinkTarget'') \<rparr>))))
      | _ \<Rightarrow> Inl (ManifestValidationError ''Manifest entry must be an object.''))"

fun read_entries :: "decoder \<Rightarrow> string list \<Rightarrow> int \<Rightarrow> json list \<Rightarrow> (fault, manifest_entry list) result" where
  "read_entries d seen bytes [] = Inr []"
| "read_entries d seen bytes (item # items) =
     and_then (read_entry item) (\<lambda>found.
       case found of
         None \<Rightarrow> read_entries d seen bytes items
       | Some e \<Rightarrow>
           if entry_path e \<in> set seen then Inl (ManifestValidationError ''Manifest paths must be unique.'')
           else if bytes + entry_size e > max_bytes d
           then Inl (ManifestValidationError ''Manifest exceeds the restore size limit.'')
           else map_sum id (Cons e) (read_entries d (entry_path e # seen) (bytes + entry_size e) items))"

definition invalid_limits :: fault where
  "invalid_limits = ManifestValidationError ''Manifest metadata or limits are invalid.''"

definition load_object :: "string \<Rightarrow> (fault, (string \<times> json) list) result" where
  "load_object raw =
     (case utf8_decode raw of
        None \<Rightarrow> Inl (ManifestValidationError ''Manifest JSON is invalid.'')
      | Some text \<Rightarrow>
          (case json_loads text of
             None \<Rightarrow> Inl (ManifestValidationError ''Manifest JSON is invalid.'')
           | Some (JObj v) \<Rightarrow> Inr v
           | Some _ \<Rightarrow> Inl (ManifestValidationError ''Manifest root must be an object.'')))"

definition decode :: "decoder \<Rightarrow> string \<Rightarrow> string \<Rightarrow> int \<Rightarrow> (fault, manifest) result" where
  "decode d raw sid generation =
     and_then (load_object raw) (\<lambda>loaded.
     and_then (migrate loaded) (\<lambda>v.
       if get_key v ''sandboxId'' \<noteq> JStr sid \<or> \<not> py_eq (get_key v ''generation'') (JInt generation)
       then Inl (ManifestValidationError ''Manifest sandbox or generation does not match.'')
       else (case (get_key v ''createdAt'', get_key v ''entries'') of
         (JStr created, JList items) \<Rightarrow>
           if get_key v ''categories'' \<noteq> JList (map JStr PERSISTENCE_CATEGORIES) \<or> int (length items) > max_files d
           then Inl invalid_limits
           else and_then (read_entries d [] 0 items) (\<lambda>es.
             if map entry_path es \<noteq> sort (map entry_path es)
             then Inl (ManifestValidationError ''Manifest entries must be sorted.'')
             else Inr \<lparr> schema_version = MANIFEST_SCHEMA_VERSION, manifest_generation = generation,
               manifest_sandbox = sid, created_at = created, manifest_entries = es \<rparr>)
       | _ \<Rightarrow> Inl invalid_limits)))"

text \<open>\<open>chunk_references\<close>: the digests a manifest names, for the collector and the auditor.\<close>

fun references_of :: "json list \<Rightarrow> (fault, string list) result" where
  "references_of [] = Inr []"
| "references_of (item # items) =
     (case item of
        JObj v \<Rightarrow>
          (case get_default v ''chunks'' (JList []) of
             JList chunks \<Rightarrow>
               if list_all is_digest chunks
               then map_sum id ((@) (map (\<lambda>i. the (as_str i)) chunks)) (references_of items)
               else Inl (ManifestValidationError ''Manifest chunk reference is invalid.'')
           | _ \<Rightarrow> Inl (ManifestValidationError ''Manifest chunk reference is invalid.''))
      | _ \<Rightarrow> Inl (ManifestValidationError ''Manifest entry is invalid.''))"

definition chunk_references :: "string \<Rightarrow> (fault, string list) result" where
  "chunk_references raw =
     and_then (load_object raw) (\<lambda>v.
       case get_key v ''entries'' of
         JList items \<Rightarrow> references_of items
       | _ \<Rightarrow> Inl (ManifestValidationError ''Manifest entries are invalid.''))"

end
