(* ===== verification/Restore.thy ===== *)
theory Restore
  imports CheckpointStore Manifest
begin

text \<open>
  \<open>persistence/restore.py\<close>: bringing a workspace back from a committed generation.  The workspace
  is the same flat tree of files as for the checkpoint, with the mode and modification time of
  each; the renames of \<open>_install\<close> may fail at any point, chosen by a parameter.  Other file
  operations fail only for what is already there (a file in the way of a directory).  A directory
  created on the way to an entry has metadata of its own; no path leads through a symbolic link.
\<close>

subsection \<open>Progress\<close>

record restore_progress =
  pg_done :: nat
  pg_total :: nat
  pg_files :: nat
  pg_started :: bool

definition new_progress :: restore_progress where
  "new_progress = \<lparr> pg_done = 0, pg_total = 0, pg_files = 0, pg_started = False \<rparr>"

definition progress_begin :: "nat \<Rightarrow> nat \<Rightarrow> restore_progress \<Rightarrow> restore_progress" where
  "progress_begin chunks files p = \<lparr> pg_done = 0, pg_total = chunks, pg_files = files, pg_started = True \<rparr>"

definition progress_advance :: "restore_progress \<Rightarrow> restore_progress" where
  "progress_advance p = p\<lparr>pg_done := min (pg_done p + 1) (pg_total p)\<rparr>"

definition progress_snapshot :: "restore_progress \<Rightarrow> (nat \<times> nat \<times> nat) option" where
  "progress_snapshot p = (if pg_started p then Some (pg_done p, pg_total p, pg_files p) else None)"

subsection \<open>Files\<close>

type_synonym workspace = "meta files"

definition below :: "string list \<Rightarrow> string list \<Rightarrow> bool" where
  "below p q = (take (length p) q = p)"

definition put_node :: "string list \<Rightarrow> meta node \<Rightarrow> workspace \<Rightarrow> workspace" where
  "put_node p n fs = AList.update p n fs"

text \<open>\<open>mkdir(parents=True, exist_ok=True)\<close>, from the top down.\<close>

definition in_the_way :: fault where
  "in_the_way = OSError ''Not a directory''"

fun make_dirs :: "meta \<Rightarrow> string list \<Rightarrow> string list \<Rightarrow> workspace \<Rightarrow> (fault, workspace) result" where
  "make_dirs fresh done_part rest fs =
     (case map_of fs done_part of
        None \<Rightarrow>
          let fs' = put_node done_part (Directory fresh) fs in
          (case rest of [] \<Rightarrow> Inr fs' | name # names \<Rightarrow> make_dirs fresh (done_part @ [name]) names fs')
      | Some n \<Rightarrow>
          if is_directory n
          then (case rest of [] \<Rightarrow> Inr fs | name # names \<Rightarrow> make_dirs fresh (done_part @ [name]) names fs)
          else Inl in_the_way)"

declare make_dirs.simps [simp del]

definition children :: "string list \<Rightarrow> workspace \<Rightarrow> string list" where
  "children p fs =
     sort (remdups (List.map_filter (\<lambda>(q, n). if length q = Suc (length p) \<and> below p q then Some (last q) else None) fs))"

text \<open>
  \<open>rename(2)\<close>: a whole subtree moves; a file replaces a file, and a directory an empty directory.
\<close>

definition move_tree :: "string list \<Rightarrow> string list \<Rightarrow> workspace \<Rightarrow> workspace" where
  "move_tree src dst fs =
     map (\<lambda>(q, n). (if below src q then dst @ drop (length src) q else q, n))
       (filter (\<lambda>(q, n). \<not> below dst q) fs)"

definition rename :: "string list \<Rightarrow> string list \<Rightarrow> workspace \<Rightarrow> (fault, workspace) result" where
  "rename src dst fs =
     (case map_of fs src of
        None \<Rightarrow> Inl (OSError ''No such file or directory'')
      | Some n \<Rightarrow>
          (case map_of fs dst of
             None \<Rightarrow> Inr (move_tree src dst fs)
           | Some m \<Rightarrow>
               if is_directory n \<noteq> is_directory m then Inl (OSError ''Is or is not a directory'')
               else if is_directory m \<and> children dst fs \<noteq> [] then Inl (OSError ''Directory not empty'')
               else Inr (move_tree src dst fs)))"

text \<open>
  \<open>shutil.copytree\<close> onto what may be there already, keeping symbolic links: whatever can be copied
  is, and then the call fails if something could not be.
\<close>

definition copy_node :: "string list \<Rightarrow> string list \<Rightarrow> string list \<times> meta node \<Rightarrow> workspace \<times> bool \<Rightarrow> workspace \<times> bool" where
  "copy_node src dst qn acc =
     (case (qn, acc) of ((q, n), (fs, ok)) \<Rightarrow>
        let d = dst @ drop (length src) q;
            there = map_of fs d;
            parent = map_of fs (butlast d);
            free = (case n of
              Directory _ \<Rightarrow> (case there of None \<Rightarrow> True | Some m \<Rightarrow> is_directory m)
            | Symlink _ _ \<Rightarrow> there = None
            | Regular _ _ \<Rightarrow> (case there of None \<Rightarrow> True | Some m \<Rightarrow> \<not> is_directory m)
            | Special _ \<Rightarrow> False) in
        if free \<and> (case parent of None \<Rightarrow> False | Some m \<Rightarrow> is_directory m)
        then (put_node d n fs, ok) else (fs, False))"

definition copy_tree :: "string list \<Rightarrow> string list \<Rightarrow> workspace \<Rightarrow> workspace \<times> bool" where
  "copy_tree src dst fs =
     fold (copy_node src dst) (sort_key fst (filter (\<lambda>(q, n). below src q) fs)) (fs, True)"

definition agentcore :: "string list" where
  "agentcore = [''.agentcore'']"

definition state_path :: "string list" where
  "state_path = agentcore @ [''persistence.json'']"

definition stage_path :: "string list" where
  "stage_path = agentcore @ [''restore-stage'']"

definition backup_path :: "string list" where
  "backup_path = agentcore @ [''restore-backup'']"

definition report_path :: "string list" where
  "report_path = agentcore @ [''restore-report.json'']"

definition journal_path :: "string list" where
  "journal_path = agentcore @ [''dirty-journal'']"

subsection \<open>The engine\<close>

record restore_conditions =
  managed_session_expired :: bool
  runtime_version_reset :: bool
  local_integrity_ok :: bool

datatype restore_outcome = Initialized | LocalOutcome | Restored | Fallback | Failed

fun outcome_text :: "restore_outcome \<Rightarrow> string" where
  "outcome_text Initialized = ''initialized''"
| "outcome_text LocalOutcome = ''local''"
| "outcome_text Restored = ''restored''"
| "outcome_text Fallback = ''fallback''"
| "outcome_text Failed = ''failed''"

record restore_report =
  rr_outcome :: restore_outcome
  rr_generation :: "int option"
  rr_fallback_used :: bool
  rr_reasons :: "string list"
  rr_attempted :: "int list"
  rr_completed_at :: time

definition report_as_dict :: "restore_report \<Rightarrow> json" where
  "report_as_dict r = JObj
     [(''attemptedGenerations'', JList (map JInt (rr_attempted r))),
      (''completedAt'', JStr (timestamp (rr_completed_at r))),
      (''fallbackUsed'', JBool (rr_fallback_used r)),
      (''generation'', case_option JNull JInt (rr_generation r)),
      (''outcome'', JStr (outcome_text (rr_outcome r))),
      (''reasons'', JList (map JStr (rr_reasons r))),
      (''schemaVersion'', JInt 1)]"

datatype rename_outcome = Renamed | CrossDevice | RenameFails string

record 's restore_engine =
  re_sandbox :: string
  re_runtime_version :: string
  re_store :: "'s checkpoint_store"
  re_crypto :: crypto
  re_cipher :: sandbox_cipher
  re_decoder :: decoder
  re_fresh :: meta
  re_now :: time
  re_prefetch :: "string list \<Rightarrow> 's \<Rightarrow> 's \<times> (fault, unit) result"
  re_rename :: "nat \<Rightarrow> rename_outcome"
  re_mounts :: "string list"
  re_error_text :: "fault \<Rightarrow> string"

record 's restore_state =
  rs_store :: "'s store_state"
  rs_files :: workspace
  rs_renames :: nat
  rs_progress :: restore_progress

definition new_restore_engine :: "int \<Rightarrow> 's restore_engine \<Rightarrow> (fault, 's restore_engine) result" where
  "new_restore_engine fetch_workers en =
     (if re_runtime_version en = [] then Inl (Crash (ValueCrash ''Runtime version is required.''))
      else if fetch_workers < 1 then Inl (Crash (ValueCrash ''At least one fetch worker is required.''))
      else Inr en)"

definition write_file :: "'s restore_engine \<Rightarrow> string list \<Rightarrow> string \<Rightarrow> workspace \<Rightarrow> (fault, workspace) result" where
  "write_file en p text fs =
     and_then (make_dirs (re_fresh en) [] (butlast p) fs) (\<lambda>fs.
       Inr (put_node p (Regular ((re_fresh en)\<lparr>st_mode := 33152\<rparr>) text) fs))"

text \<open>\<open>_write_report\<close> goes through a temporary file that replaces the report at once.\<close>

definition write_report ::
  "'s restore_engine \<Rightarrow> restore_report \<Rightarrow> 's restore_state \<Rightarrow> 's restore_state \<times> (fault, unit) result" where
  "write_report en r st =
     (case write_file en report_path (json_dumps (report_as_dict r) @ [CHR 0x0A]) (rs_files st) of
        Inl e \<Rightarrow> (st, Inl e)
      | Inr fs \<Rightarrow> (st\<lparr>rs_files := fs\<rparr>, Inr ()))"

definition report ::
  "'s restore_engine \<Rightarrow> restore_outcome \<Rightarrow> int option \<Rightarrow> bool \<Rightarrow> string list \<Rightarrow> int list \<Rightarrow> restore_report" where
  "report en outcome generation fallback reasons attempts =
     \<lparr> rr_outcome = outcome, rr_generation = generation, rr_fallback_used = fallback, rr_reasons = reasons,
       rr_attempted = attempts, rr_completed_at = re_now en \<rparr>"

text \<open>\<open>_local_state\<close> and \<open>_restore_reasons\<close>\<close>

definition local_state :: "workspace \<Rightarrow> (string \<times> json) list option" where
  "local_state fs =
     (case map_of fs state_path of
        Some (Regular m text) \<Rightarrow>
          (case Option.bind (utf8_decode text) json_loads of
             Some (JObj v) \<Rightarrow> Some v
           | _ \<Rightarrow> None)
      | _ \<Rightarrow> None)"

definition restore_reasons ::
  "'s restore_engine \<Rightarrow> committed_generation \<Rightarrow> restore_conditions \<Rightarrow> workspace \<Rightarrow> string list" where
  "restore_reasons en latest cond fs =
     (let reasons =
        (case local_state fs of
           None \<Rightarrow> [''missing-or-empty-managed-storage'']
         | Some v \<Rightarrow>
             (if \<not> py_eq (get_key v ''generation'') (JInt (cg_generation latest))
               \<or> get_key v ''manifestDigest'' \<noteq> JStr (cg_manifest_digest latest)
              then [''local-generation-mismatch''] else [])
             @ (if get_key v ''runtimeVersion'' \<noteq> JStr (re_runtime_version en)
                then [''runtime-version-reset''] else []));
       reasons = reasons @ (if managed_session_expired cond then [''managed-session-expired''] else []);
       reasons = reasons @ (if runtime_version_reset cond \<and> ''runtime-version-reset'' \<notin> set reasons
                            then [''runtime-version-reset''] else []) in
      reasons @ (if local_integrity_ok cond then [] else [''local-integrity-failed'']))"

text \<open>\<open>_materialize\<close>: the chunks are all requested first, each once, in the order of the entries.\<close>

definition file_chunks :: "manifest \<Rightarrow> string list" where
  "file_chunks m = rev (remdups (rev (concat
     (map entry_chunks (filter (\<lambda>e. entry_type e = FileEntry) (manifest_entries m))))))"

definition fetch_chunk ::
  "'s restore_engine \<Rightarrow> string \<Rightarrow> 's restore_state \<Rightarrow> 's restore_state \<times> (fault, string) result" where
  "fetch_chunk en digest st =
     (case get_chunk (re_store en) digest (rs_store st) of
        (s, Inl e) \<Rightarrow> (st\<lparr>rs_store := s\<rparr>, Inl e)
      | (s, Inr ciphertext) \<Rightarrow>
          let st = st\<lparr>rs_store := s\<rparr> in
          trying st (decrypt (re_crypto en) (re_cipher en) \<lparr> blob_digest = digest, blob_ciphertext = ciphertext \<rparr>)
            (\<lambda>chunk. (st\<lparr>rs_progress := progress_advance (rs_progress st)\<rparr>, Inr chunk)))"

fun fetch_all :: "'s restore_engine \<Rightarrow> string list \<Rightarrow> 's restore_state
    \<Rightarrow> 's restore_state \<times> (string \<times> (fault, string) result) list" where
  "fetch_all en [] st = (st, [])"
| "fetch_all en (d # ds) st =
     (let (st, r) = fetch_chunk en d st; (st, rs) = fetch_all en ds st in (st, (d, r) # rs))"

fun gather :: "(string \<times> (fault, string) result) list \<Rightarrow> string list \<Rightarrow> (fault, string list) result" where
  "gather futures [] = Inr []"
| "gather futures (d # ds) =
     (case map_of futures d of
        None \<Rightarrow> Inl (Crash (KeyErr d))
      | Some r \<Rightarrow> and_then r (\<lambda>chunk. map_sum id (Cons chunk) (gather futures ds)))"

definition write_entry :: "'s restore_engine \<Rightarrow> (string \<times> (fault, string) result) list \<Rightarrow> manifest_entry
    \<Rightarrow> workspace \<Rightarrow> (fault, workspace) result" where
  "write_entry en futures e fs =
     (let dest = stage_path @ segments (pure_path (entry_path e)) in
      and_then (make_dirs (re_fresh en) [] (butlast dest) fs) (\<lambda>fs.
      case entry_type e of
        DirectoryEntry \<Rightarrow>
          (case map_of fs dest of
             None \<Rightarrow> Inr (put_node dest (Directory (re_fresh en)) fs)
           | Some n \<Rightarrow> if is_directory n then Inr fs else Inl in_the_way)
      | SymlinkEntry \<Rightarrow>
          (case entry_symlink_target e of
             None \<Rightarrow> Inl (ManifestValidationError ''Symlink target is missing.'')
           | Some target \<Rightarrow>
               if map_of fs dest \<noteq> None then Inl in_the_way
               else Inr (put_node dest (Symlink \<lparr> st_mode = 41471, st_mtime_ns = entry_mtime_ns e \<rparr> target) fs))
      | FileEntry \<Rightarrow>
          if (case map_of fs dest of None \<Rightarrow> False | Some n \<Rightarrow> is_directory n) then Inl in_the_way
          else
            and_then (gather futures (entry_chunks e)) (\<lambda>chunks.
              let content = concat chunks in
              if int (length content) \<noteq> entry_size e \<or> Some (sha256_hex (re_crypto en) content) \<noteq> entry_digest e
              then Inl (IntegrityError ''Restored file content does not match manifest.'')
              else Inr (put_node dest
                (Regular \<lparr> st_mode = 32768 + entry_mode e, st_mtime_ns = entry_mtime_ns e \<rparr> content) fs))))"

fun write_entries :: "'s restore_engine \<Rightarrow> (string \<times> (fault, string) result) list \<Rightarrow> manifest_entry list
    \<Rightarrow> workspace \<Rightarrow> (fault, workspace) result" where
  "write_entries en futures [] fs = Inr fs"
| "write_entries en futures (e # es) fs =
     and_then (write_entry en futures e fs) (write_entries en futures es)"

text \<open>The modes and times of the directories last, the deepest first.\<close>

definition stamp_directory :: "manifest_entry \<Rightarrow> workspace \<Rightarrow> workspace" where
  "stamp_directory e fs =
     put_node (stage_path @ segments (pure_path (entry_path e)))
       (Directory \<lparr> st_mode = 16384 + entry_mode e, st_mtime_ns = entry_mtime_ns e \<rparr>) fs"

definition stamp_directories :: "manifest_entry list \<Rightarrow> workspace \<Rightarrow> workspace" where
  "stamp_directories es fs =
     fold stamp_directory (rev (filter (\<lambda>e. entry_type e = DirectoryEntry) es)) fs"

definition on_restore_store :: "('s store_state \<Rightarrow> 's store_state \<times> 'a) \<Rightarrow> 's restore_state \<Rightarrow> 's restore_state \<times> 'a" where
  "on_restore_store f st = map_prod (\<lambda>s. st\<lparr>rs_store := s\<rparr>) id (f (rs_store st))"

definition materialize ::
  "'s restore_engine \<Rightarrow> manifest \<Rightarrow> 's restore_state \<Rightarrow> 's restore_state \<times> (fault, unit) result" where
  "materialize en m st =
     (let digests = file_chunks m;
          files = length (filter (\<lambda>e. entry_type e = FileEntry) (manifest_entries m));
          st = st\<lparr>rs_progress := progress_begin (length digests) files (rs_progress st)\<rparr> in
      then_do (on_restore_store (ask (re_prefetch en digests)) st) (\<lambda>st _.
      let (st, futures) = fetch_all en digests st in
      case write_entries en futures (manifest_entries m) (rs_files st) of
        Inl e \<Rightarrow> (st, Inl e)
      | Inr fs \<Rightarrow> (st\<lparr>rs_files := stamp_directories (manifest_entries m) fs\<rparr>, Inr ())))"

subsection \<open>Moving and removing\<close>

text \<open>\<open>_remove_tree_tolerating_mounts\<close>: a mount point is emptied and stays.\<close>

definition is_mount :: "'s restore_engine \<Rightarrow> string list \<Rightarrow> bool" where
  "is_mount en p = (\<exists>name\<in>set (re_mounts en). p = [name])"

definition remove_tree :: "'s restore_engine \<Rightarrow> string list \<Rightarrow> workspace \<Rightarrow> workspace" where
  "remove_tree en p fs =
     filter (\<lambda>(q, n). \<not> below p q \<or> q = p \<and> is_directory n \<and> is_mount en p) fs"

text \<open>\<open>_replace_path\<close>\<close>

definition replace_path ::
  "'s restore_engine \<Rightarrow> string list \<Rightarrow> string list \<Rightarrow> 's restore_state \<Rightarrow> 's restore_state \<times> (fault, unit) result" where
  "replace_path en src dst st =
     (let fs = rs_files st; outcome = re_rename en (rs_renames st); st = st\<lparr>rs_renames := Suc (rs_renames st)\<rparr> in
      case outcome of
        RenameFails e \<Rightarrow> (st, Inl (OSError e))
      | Renamed \<Rightarrow> trying st (rename src dst fs) (\<lambda>fs. (st\<lparr>rs_files := fs\<rparr>, Inr ()))
      | CrossDevice \<Rightarrow>
          (case map_of fs src of
             None \<Rightarrow> (st, Inl (OSError ''No such file or directory''))
           | Some n \<Rightarrow>
               if is_directory n
               then (case copy_tree src dst fs of (fs, ok) \<Rightarrow>
                 if ok then (st\<lparr>rs_files := remove_tree en src fs\<rparr>, Inr ())
                 else (st\<lparr>rs_files := fs\<rparr>, Inl (OSError ''copytree'')))
               else if (case map_of fs dst of None \<Rightarrow> False | Some m \<Rightarrow> is_directory m)
               then (st, Inl (OSError ''Is a directory''))
               else (st\<lparr>rs_files := AList.delete src (put_node dst n fs)\<rparr>, Inr ())))"

subsection \<open>\<open>_install\<close>\<close>

text \<open>
  The two loops over the entries of the workspace and of the stage; each reports what it moved
  before it failed.
\<close>

fun move_all :: "'s restore_engine \<Rightarrow> string list \<Rightarrow> string list \<Rightarrow> string list \<Rightarrow> string list \<Rightarrow> 's restore_state
    \<Rightarrow> 's restore_state \<times> string list \<times> (fault, unit) result" where
  "move_all en from into [] moved st = (st, moved, Inr ())"
| "move_all en from into (name # names) moved st =
     (case replace_path en (from @ [name]) (into @ [name]) st of
        (st, Inl e) \<Rightarrow> (st, moved, Inl e)
      | (st, Inr _) \<Rightarrow> move_all en from into names (moved @ [name]) st)"

definition managed :: "string list \<Rightarrow> workspace \<Rightarrow> string list" where
  "managed root fs = filter (\<lambda>name. name \<noteq> ''.agentcore'') (children root fs)"

record install_log =
  il_moved :: "string list"
  il_installed :: "string list"
  il_state_backed_up :: bool

definition backup_state :: "'s restore_engine \<Rightarrow> 's restore_state \<Rightarrow> 's restore_state \<times> bool \<times> (fault, unit) result" where
  "backup_state en st =
     (if map_of (rs_files st) state_path = None then (st, False, Inr ())
      else case replace_path en state_path (backup_path @ [''persistence.json'']) st of
        (st, Inl e) \<Rightarrow> (st, False, Inl e)
      | (st, Inr _) \<Rightarrow> (st, True, Inr ()))"

definition place_state :: "'s restore_engine \<Rightarrow> 's restore_state \<Rightarrow> 's restore_state \<times> (fault, unit) result" where
  "place_state en st =
     trying st (make_dirs (re_fresh en) [] agentcore (rs_files st)) (\<lambda>fs.
       replace_path en (stage_path @ state_path) state_path (st\<lparr>rs_files := fs\<rparr>))"

definition try_install :: "'s restore_engine \<Rightarrow> 's restore_state \<Rightarrow> 's restore_state \<times> install_log \<times> (fault, unit) result" where
  "try_install en st =
     (case backup_state en st of
        (st, backed, Inl e) \<Rightarrow> (st, \<lparr> il_moved = [], il_installed = [], il_state_backed_up = backed \<rparr>, Inl e)
      | (st, backed, Inr _) \<Rightarrow>
      (case move_all en [] backup_path (managed [] (rs_files st)) [] st of
        (st, moved, Inl e) \<Rightarrow> (st, \<lparr> il_moved = moved, il_installed = [], il_state_backed_up = backed \<rparr>, Inl e)
      | (st, moved, Inr _) \<Rightarrow>
      (case move_all en stage_path [] (managed stage_path (rs_files st)) [] st of
        (st, installed, Inl e) \<Rightarrow>
          (st, \<lparr> il_moved = moved, il_installed = installed, il_state_backed_up = backed \<rparr>, Inl e)
      | (st, installed, Inr _) \<Rightarrow>
          (case place_state en st of (st, r) \<Rightarrow>
            (st, \<lparr> il_moved = moved, il_installed = installed, il_state_backed_up = backed \<rparr>, r)))))"

text \<open>The \<open>except\<close> clause; an error of an undoing move takes the place of the first one.\<close>

fun move_back :: "'s restore_engine \<Rightarrow> string list \<Rightarrow> 's restore_state \<Rightarrow> 's restore_state \<times> (fault, unit) result" where
  "move_back en [] st = (st, Inr ())"
| "move_back en (name # names) st =
     (if map_of (rs_files st) (backup_path @ [name]) = None then move_back en names st
      else
        then_do (replace_path en (backup_path @ [name]) [name] (st\<lparr>rs_files := remove_tree en [name] (rs_files st)\<rparr>))
          (\<lambda>st _. move_back en names st))"

definition undo_install ::
  "'s restore_engine \<Rightarrow> install_log \<Rightarrow> 's restore_state \<Rightarrow> 's restore_state \<times> (fault, unit) result" where
  "undo_install en log st =
     then_do (move_back en (il_moved log)
       (st\<lparr>rs_files := fold (\<lambda>name. remove_tree en [name]) (il_installed log) (rs_files st)\<rparr>)) (\<lambda>st _.
     if il_state_backed_up log
     then replace_path en (backup_path @ [''persistence.json'']) state_path
       (st\<lparr>rs_files := remove_tree en state_path (rs_files st)\<rparr>)
     else (st, Inr ()))"

definition install :: "'s restore_engine \<Rightarrow> 's restore_state \<Rightarrow> 's restore_state \<times> (fault, unit) result" where
  "install en st =
     (if map_of (rs_files st) backup_path \<noteq> None then (st, Inl (OSError ''File exists''))
      else
        trying st (make_dirs (re_fresh en) [] backup_path (rs_files st)) (\<lambda>fs.
        case try_install en (st\<lparr>rs_files := fs\<rparr>) of
          (st, log, Inl e) \<Rightarrow> then_do (undo_install en log st) (\<lambda>st _. (st, Inl e))
        | (st, log, Inr _) \<Rightarrow>
            (st\<lparr>rs_files := remove_tree en backup_path (remove_tree en journal_path (rs_files st))\<rparr>, Inr ())))"

subsection \<open>\<open>_restore_generation\<close>\<close>

definition state_text :: "'s restore_engine \<Rightarrow> committed_generation \<Rightarrow> string" where
  "state_text en cg =
     json_dumps (JObj [(''generation'', JInt (cg_generation cg)), (''manifestDigest'', JStr (cg_manifest_digest cg)),
       (''runtimeVersion'', JStr (re_runtime_version en)), (''schemaVersion'', JInt 1)]) @ [CHR 0x0A]"

definition write_state ::
  "'s restore_engine \<Rightarrow> committed_generation \<Rightarrow> 's restore_state \<Rightarrow> 's restore_state \<times> (fault, unit) result" where
  "write_state en cg st =
     trying st (write_file en (stage_path @ state_path) (state_text en cg) (rs_files st)) (\<lambda>fs.
       (st\<lparr>rs_files := fs\<rparr>, Inr ()))"

definition prepare_stage :: "'s restore_engine \<Rightarrow> workspace \<Rightarrow> (fault, workspace) result" where
  "prepare_stage en fs =
     and_then (make_dirs (re_fresh en) [] [] fs) (\<lambda>fs.
       make_dirs (re_fresh en) [] stage_path (remove_tree en backup_path (remove_tree en stage_path fs)))"

definition staged_install ::
  "'s restore_engine \<Rightarrow> committed_generation \<Rightarrow> manifest \<Rightarrow> 's restore_state \<Rightarrow> 's restore_state \<times> (fault, unit) result" where
  "staged_install en cg m st =
     (case then_do (materialize en m st) (\<lambda>st _. then_do (write_state en cg st) (\<lambda>st _. install en st)) of
        (st, r) \<Rightarrow> (st\<lparr>rs_files := remove_tree en stage_path (rs_files st)\<rparr>, r))"

definition restore_generation ::
  "'s restore_engine \<Rightarrow> committed_generation \<Rightarrow> 's restore_state \<Rightarrow> 's restore_state \<times> (fault, unit) result" where
  "restore_generation en cg st =
     then_do (on_restore_store (get_manifest (re_store en) (cg_generation cg)) st) (\<lambda>st blob.
     if blob_digest blob \<noteq> cg_manifest_digest cg
     then (st, Inl (IntegrityError ''Committed manifest digest does not match object.''))
     else
       trying st (decrypt (re_crypto en) (re_cipher en) blob) (\<lambda>plaintext.
       trying st (decode (re_decoder en) plaintext (re_sandbox en) (cg_generation cg)) (\<lambda>m.
       trying st (prepare_stage en (rs_files st)) (\<lambda>fs.
         staged_install en cg m (st\<lparr>rs_files := fs\<rparr>)))))"

subsection \<open>\<open>restore\<close>\<close>

definition invalid_generation :: "fault \<Rightarrow> bool" where
  "invalid_generation e =
     (is_broker_error e \<or> (case e of IntegrityError _ \<Rightarrow> True | ManifestValidationError _ \<Rightarrow> True
        | ObjectNotFoundError _ \<Rightarrow> True | OSError _ \<Rightarrow> True | _ \<Rightarrow> False))"

definition failure_text :: "'s restore_engine \<Rightarrow> int \<Rightarrow> fault \<Rightarrow> string" where
  "failure_text en g e = take 200 (''generation-'' @ dec_int g @ ''-invalid:'' @ re_error_text en e)"

definition finish_restore ::
  "'s restore_engine \<Rightarrow> restore_report \<Rightarrow> 's restore_state \<Rightarrow> 's restore_state \<times> (fault, restore_report) result" where
  "finish_restore en r st = then_do (write_report en r st) (\<lambda>st _. (st, Inr r))"

definition restore_failed ::
  "'s restore_engine \<Rightarrow> restore_report \<Rightarrow> string \<Rightarrow> 's restore_state \<Rightarrow> 's restore_state \<times> (fault, restore_report) result" where
  "restore_failed en r message st = then_do (write_report en r st) (\<lambda>st _. (st, Inl (RestoreError message)))"

fun join_with :: "string \<Rightarrow> string list \<Rightarrow> string" where
  "join_with sep [] = []"
| "join_with sep [x] = x"
| "join_with sep (x # xs) = x @ sep @ join_with sep xs"

fun attempt_generations ::
  "'s restore_engine \<Rightarrow> string list \<Rightarrow> committed_generation list \<Rightarrow> bool \<Rightarrow> int list \<Rightarrow> string list
    \<Rightarrow> 's restore_state \<Rightarrow> 's restore_state \<times> (fault, restore_report) result" where
  "attempt_generations en reasons [] later attempts failures st =
     restore_failed en (report en Failed None False (reasons @ failures) attempts)
       (''PERSISTENCE_RESTORE_FAILED '' @ join_with ''; '' (reasons @ failures)) st"
| "attempt_generations en reasons (cg # cgs) later attempts failures st =
     (let attempts = attempts @ [cg_generation cg] in
      case restore_generation en cg st of
        (st, Inr _) \<Rightarrow>
          finish_restore en (report en (if later then Fallback else Restored) (Some (cg_generation cg)) later
            (reasons @ failures) attempts) st
      | (st, Inl e) \<Rightarrow>
          if invalid_generation e
          then attempt_generations en reasons cgs True attempts (failures @ [failure_text en (cg_generation cg) e]) st
          else (st, Inl e))"

definition restore ::
  "'s restore_engine \<Rightarrow> bool \<Rightarrow> restore_conditions \<Rightarrow> 's restore_state \<Rightarrow> 's restore_state \<times> (fault, restore_report) result" where
  "restore en existing cond st =
     then_do (on_restore_store (committed_generations (re_store en)) st) (\<lambda>st committed.
     if committed = []
     then
       if existing
       then restore_failed en (report en Failed None False [''no-retained-generation''] []) ''PERSISTENCE_RESTORE_FAILED'' st
       else
         trying st (make_dirs (re_fresh en) [] [] (rs_files st)) (\<lambda>fs.
           finish_restore en (report en Initialized None False [''new-sandbox''] []) (st\<lparr>rs_files := fs\<rparr>))
     else
       let latest = last committed;
           reasons = restore_reasons en latest cond (rs_files st) in
       if reasons = [] then finish_restore en (report en LocalOutcome (Some (cg_generation latest)) False [] []) st
       else attempt_generations en reasons (take 2 (rev committed)) False [] [] st)"

end
