(* ===== verification/RestoreFiles.thy ===== *)
theory RestoreFiles
  imports Restore
begin

text \<open>
  The file operations of a restore, read as functions on what is at each path: creating
  directories, removing and moving trees.
\<close>

lemma below_simps [simp]: "below p p" "below p (p @ q)" "below [] q"
  by (simp_all add: below_def)

lemma below_iff: "below p q \<longleftrightarrow> (\<exists>r. q = p @ r)"
  unfolding below_def by (metis append_eq_conv_conj)

lemma below_E:
  assumes "below p q"
  obtains r where "q = p @ r"
  using assms by (auto simp: below_iff)

lemma below_trans: "below p q \<Longrightarrow> below q r \<Longrightarrow> below p r"
  by (auto simp: below_iff)

lemma below_Cons [simp]: "below (x # p) (y # q) \<longleftrightarrow> x = y \<and> below p q" "\<not> below (x # p) []"
  by (auto simp: below_def)

lemma map_of_filter_key: "map_of (filter (\<lambda>(q, n). P q) fs) q = (if P q then map_of fs q else None)"
  by (induction fs) auto

lemma map_of_put_node [simp]: "map_of (put_node p n fs) = (map_of fs)(p \<mapsto> n)"
  by (simp add: put_node_def update_conv')

lemma map_of_remove_tree:
  assumes "re_mounts en = []"
  shows "map_of (remove_tree en p fs) q = (if below p q then None else map_of fs q)"
proof -
  have "remove_tree en p fs = filter (\<lambda>(q, n). \<not> below p q) fs"
    using assms by (simp add: remove_tree_def is_mount_def)
  then show ?thesis by (simp add: map_of_filter_key)
qed

lemma map_of_move_tree:
  assumes "\<not> below src dst" "\<not> below dst src"
  shows "map_of (move_tree src dst fs) q =
    (if below dst q then map_of fs (src @ drop (length dst) q) else if below src q then None else map_of fs q)"
proof -
  have apart: "\<not> below dst (src @ r)" for r
  proof
    assume "below dst (src @ r)"
    then obtain t where "src @ r = dst @ t" by (auto simp: below_iff)
    then have "(\<exists>u. src = dst @ u) \<or> (\<exists>u. dst = src @ u)" by (auto simp: append_eq_append_conv2)
    with assms show False by (auto simp: below_iff)
  qed
  have "\<not> (below dst k \<and> below src k)" for k using apart by (auto elim!: below_E [of src])
  then show ?thesis
  proof (induction fs)
    case (Cons kn fs)
    obtain k n where kn: "kn = (k, n)" by (cases kn)
    consider "below dst k" | r where "k = src @ r" "\<not> below dst k" | "\<not> below src k" "\<not> below dst k"
      by (auto elim: below_E)
    then show ?case
    proof cases
      case 1
      then have "k \<noteq> src @ t" "src @ t \<noteq> k" for t using apart by blast+
      with 1 Cons kn show ?thesis by (auto simp: move_tree_def)
    next
      case 2
      have cons: "move_tree src dst ((k, n) # fs) = (dst @ r, n) # move_tree src dst fs"
        using 2 by (simp add: move_tree_def)
      show ?thesis
      proof (cases "q = dst @ r")
        case True
        with 2 kn show ?thesis unfolding kn cons by simp
      next
        case False
        then have "below dst q \<Longrightarrow> src @ drop (length dst) q \<noteq> k" using 2 by (auto simp: below_iff)
        moreover have "q = k \<Longrightarrow> below src q" using 2 by simp
        ultimately show ?thesis using Cons False 2 unfolding kn cons by auto
      qed
    next
      case 3
      then have "k \<noteq> src @ t" for t by auto
      with 3 Cons kn show ?thesis by (auto simp: move_tree_def)
    qed
  qed (simp add: move_tree_def)
qed

text \<open>\<open>mkdir -p\<close> adds the directories that are missing on the way and nothing else.\<close>

lemma make_dirs_effect:
  assumes "make_dirs fresh p rest fs = Inr fs'"
  shows "map_of fs' q = (if (\<exists>n\<le>length rest. q = p @ take n rest) \<and> map_of fs q = None
      then Some (Directory fresh) else map_of fs q) \<and>
    (\<forall>n\<le>length rest. \<exists>d. map_of fs' (p @ take n rest) = Some d \<and> is_directory d)"
  using assms
proof (induction rest arbitrary: p fs q)
  case Nil
  then show ?case by (subst (asm) make_dirs.simps) (auto split: option.splits if_splits)
next
  case (Cons x rest)
  let ?fs = "if map_of fs p = None then put_node p (Directory fresh) fs else fs"
  have step: "make_dirs fresh (p @ [x]) rest ?fs = Inr fs'"
    and dir: "\<exists>d. map_of ?fs p = Some d \<and> is_directory d"
    using Cons.prems by (subst (asm) make_dirs.simps, auto split: option.splits if_splits)+
  note IH = Cons.IH [OF step]
  have range: "(\<exists>n\<le>length (x # rest). q = p @ take n (x # rest)) \<longleftrightarrow>
      q = p \<or> (\<exists>n\<le>length rest. q = (p @ [x]) @ take n rest)" for q
  proof
    assume "\<exists>n\<le>length (x # rest). q = p @ take n (x # rest)"
    then obtain n where "n \<le> length (x # rest)" "q = p @ take n (x # rest)" by blast
    then show "q = p \<or> (\<exists>n\<le>length rest. q = (p @ [x]) @ take n rest)" by (cases n) auto
  next
    assume "q = p \<or> (\<exists>n\<le>length rest. q = (p @ [x]) @ take n rest)"
    then show "\<exists>n\<le>length (x # rest). q = p @ take n (x # rest)"
    proof
      assume "q = p"
      then show ?thesis by (intro exI [of _ 0]) simp
    next
      assume "\<exists>n\<le>length rest. q = (p @ [x]) @ take n rest"
      then obtain n where "n \<le> length rest" "q = (p @ [x]) @ take n rest" by blast
      then show ?thesis by (intro exI [of _ "Suc n"]) simp
    qed
  qed
  have eff: "map_of fs' q = (if (\<exists>n\<le>length rest. q = (p @ [x]) @ take n rest) \<and> map_of ?fs q = None
      then Some (Directory fresh) else map_of ?fs q)" for q using IH [of q] by blast
  have "map_of fs' p = map_of ?fs p" using eff [of p] by auto
  with dir have here: "\<exists>d. map_of fs' p = Some d \<and> is_directory d" by simp
  have "\<exists>d. map_of fs' (p @ take n (x # rest)) = Some d \<and> is_directory d" if "n \<le> length (x # rest)" for n
  proof (cases n)
    case 0
    with here show ?thesis by simp
  next
    case (Suc m)
    with that have "m \<le> length rest" by simp
    with IH have "\<exists>d. map_of fs' ((p @ [x]) @ take m rest) = Some d \<and> is_directory d" by blast
    with Suc show ?thesis by simp
  qed
  moreover have "map_of fs' q = (if (\<exists>n\<le>length (x # rest). q = p @ take n (x # rest)) \<and> map_of fs q = None
      then Some (Directory fresh) else map_of fs q)"
  proof (cases "q = p")
    case True
    with eff [of p] show ?thesis unfolding range by simp
  next
    case False
    then have "map_of ?fs q = map_of fs q" by simp
    with eff [of q] False show ?thesis unfolding range by simp
  qed
  ultimately show ?case by blast
qed

lemma make_dirs_there:
  assumes "\<forall>n\<le>length rest. \<exists>d. map_of fs (p @ take n rest) = Some d \<and> is_directory d"
  shows "make_dirs fresh p rest fs = Inr fs"
  using assms
proof (induction rest arbitrary: p)
  case Nil
  then show ?case by (subst make_dirs.simps) auto
next
  case (Cons x rest)
  have "\<exists>d. map_of fs p = Some d \<and> is_directory d" using spec [OF Cons.prems, of 0] by simp
  moreover have "make_dirs fresh (p @ [x]) rest fs = Inr fs"
  proof (rule Cons.IH, intro allI impI)
    fix n assume "n \<le> length rest"
    with spec [OF Cons.prems, of "Suc n"] show "\<exists>d. map_of fs ((p @ [x]) @ take n rest) = Some d \<and> is_directory d" by simp
  qed
  ultimately show ?case by (subst make_dirs.simps) auto
qed

text \<open>The listing of a directory.\<close>

lemma children_names: "set (List.map_filter f xs) = {y. \<exists>x\<in>set xs. f x = Some y}"
  by (force simp: List.map_filter_def)

lemma set_children: "set (children p fs) = {x. map_of fs (p @ [x]) \<noteq> None}"
proof -
  have "x \<in> set (children p fs) \<longleftrightarrow> (\<exists>n. (p @ [x], n) \<in> set fs)" for x
  proof -
    have "length q = Suc (length p) \<and> below p q \<and> last q = x \<longleftrightarrow> q = p @ [x]" for q
    proof
      assume q: "length q = Suc (length p) \<and> below p q \<and> last q = x"
      then obtain r where "q = p @ r" by (auto elim: below_E)
      with q show "q = p @ [x]" by (cases r) auto
    qed simp
    then have "(if length q = Suc (length p) \<and> below p q then Some (last q) else None) = Some x \<longleftrightarrow> q = p @ [x]" for q
      by auto
    then show ?thesis by (fastforce simp: children_def children_names)
  qed
  moreover have "(\<exists>n. (p @ [x], n) \<in> set fs) \<longleftrightarrow> map_of fs (p @ [x]) \<noteq> None" for x
    by (force simp: map_of_eq_None_iff)
  ultimately show ?thesis by blast
qed

lemma distinct_children [simp]: "distinct (children p fs)"
  by (simp add: children_def)

lemma set_managed: "set (managed p fs) = {x. x \<noteq> ''.agentcore'' \<and> map_of fs (p @ [x]) \<noteq> None}"
  by (auto simp: managed_def set_children)

lemma distinct_managed [simp]: "distinct (managed p fs)"
  by (simp add: managed_def)

text \<open>A move that meets no failure, onto a free place.\<close>

lemma replace_renamed:
  assumes "re_rename en (rs_renames st) = Renamed" "map_of (rs_files st) src \<noteq> None" "map_of (rs_files st) dst = None"
  shows "replace_path en src dst st =
    (st\<lparr>rs_renames := Suc (rs_renames st), rs_files := move_tree src dst (rs_files st)\<rparr>, Inr ())"
  using assms by (auto simp: replace_path_def rename_def Let_def)

lemma replace_fails:
  assumes "re_rename en (rs_renames st) = RenameFails e"
  shows "replace_path en src dst st = (st\<lparr>rs_renames := Suc (rs_renames st)\<rparr>, Inl (OSError e))"
  using assms by (simp add: replace_path_def Let_def)

end
