(* ===== verification/RestoreInstall.thy ===== *)
theory RestoreInstall
  imports RestoreFiles
begin

text \<open>
  \<open>_install\<close>: the swap of the workspace for the staged tree is all or nothing.  The workspace is
  followed through the moves by saying which of its entries are in the backup.
\<close>

type_synonym view = "string list \<Rightarrow> meta node option"

definition closed_tree :: "view \<Rightarrow> bool" where
  "closed_tree F \<longleftrightarrow> (\<forall>p x. F (p @ [x]) \<noteq> None \<longrightarrow> F p \<noteq> None)"

lemma closed_tree_prefix: "closed_tree F \<Longrightarrow> F p = None \<Longrightarrow> F (p @ r) = None"
proof (induction r rule: rev_induct)
  case (snoc x r)
  then have "F (p @ r) = None" by simp
  with snoc.prems(1) have "F ((p @ r) @ [x]) = None" unfolding closed_tree_def by blast
  then show ?case by simp
qed simp

lemma closed_tree_below: "closed_tree F \<Longrightarrow> F p = None \<Longrightarrow> below p q \<Longrightarrow> F q = None"
  using closed_tree_prefix by (auto simp: below_iff)

lemmas special_paths = agentcore_def state_path_def stage_path_def backup_path_def journal_path_def

text \<open>The view when the entries of a set have been moved into the backup.\<close>

definition displaced :: "view \<Rightarrow> string set \<Rightarrow> view" where
  "displaced F A q =
     (if \<exists>n\<in>A. below [n] q then None
      else if \<exists>n\<in>A. below (backup_path @ [n]) q then F (drop 2 q) else F q)"

lemma displaced_empty [simp]: "displaced F {} = F"
  by (simp add: displaced_def fun_eq_iff)

definition backup_free :: "view \<Rightarrow> string set \<Rightarrow> bool" where
  "backup_free F A \<longleftrightarrow> ''.agentcore'' \<notin> A \<and> (\<forall>n\<in>A. \<forall>r. F (backup_path @ n # r) = None)"

lemma displaced_out:
  assumes "backup_free F (insert n A)" "n \<notin> A"
  shows "(if below (backup_path @ [n]) q then displaced F A ([n] @ drop (length (backup_path @ [n])) q)
      else if below [n] q then None else displaced F A q) = displaced F (insert n A) q"
proof (cases "below (backup_path @ [n]) q")
  case True
  then obtain r where q: "q = backup_path @ n # r" by (auto simp: below_iff)
  have "\<not> below [m] q" if "m \<in> insert n A" for m
    using assms(1) that q by (auto simp: backup_free_def special_paths)
  moreover have "\<not> below [m] (n # r)" "\<not> below (backup_path @ [m]) (n # r)" if "m \<in> A" for m
    using assms that by (auto simp: backup_free_def special_paths)
  ultimately show ?thesis using True q by (auto simp: displaced_def special_paths)
next
  case False
  then show ?thesis by (auto simp: displaced_def)
qed

lemma displaced_back:
  assumes "backup_free F A" "n \<in> A"
  shows "(if below [n] q then displaced F A ((backup_path @ [n]) @ drop (length [n]) q)
      else if below (backup_path @ [n]) q then None else displaced F A q) = displaced F (A - {n}) q"
proof -
  consider r where "q = n # r" | r where "q = backup_path @ n # r" | "\<not> below [n] q" "\<not> below (backup_path @ [n]) q"
    by (cases q) (auto simp: below_iff)
  then show ?thesis
  proof cases
    case 1
    have "\<not> below [m] ((backup_path @ [n]) @ r)" if "m \<in> A" for m
      using assms(1) that by (auto simp: backup_free_def special_paths)
    moreover have "\<not> below [m] q" "\<not> below (backup_path @ [m]) q" if "m \<in> A - {n}" for m
      using assms 1 that by (auto simp: backup_free_def special_paths)
    ultimately show ?thesis using 1 assms(2) by (auto simp: displaced_def special_paths)
  next
    case 2
    have "\<not> below [m] q" if "m \<in> A" for m
      using assms(1) that 2 by (auto simp: backup_free_def special_paths)
    moreover have "F q = None" using assms 2 by (auto simp: backup_free_def)
    ultimately show ?thesis using 2 assms by (auto simp: displaced_def special_paths)
  next
    case 3
    then show ?thesis by (auto simp: displaced_def)
  qed
qed

subsection \<open>The loops\<close>

text \<open>At most one rename fails, and every entry is on the same mount.\<close>

definition one_failure :: "'s restore_engine \<Rightarrow> bool" where
  "one_failure en \<longleftrightarrow> re_mounts en = [] \<and> (\<forall>n. re_rename en n \<noteq> CrossDevice) \<and>
     (\<forall>n m e. re_rename en n = RenameFails e \<longrightarrow> n < m \<longrightarrow> re_rename en m = Renamed)"

definition calm :: "'s restore_engine \<Rightarrow> 's restore_state \<Rightarrow> bool" where
  "calm en st \<longleftrightarrow> (\<forall>n\<ge>rs_renames st. re_rename en n = Renamed)"

lemma replace_cases:
  assumes "replace_path en src dst st = (st', r)" "one_failure en"
    "map_of (rs_files st) src \<noteq> None" "map_of (rs_files st) dst = None"
  obtains "r = Inr ()" "rs_files st' = move_tree src dst (rs_files st)" "calm en st \<longrightarrow> calm en st'"
  | e where "r = Inl (OSError e)" "rs_files st' = rs_files st" "calm en st'" "\<not> calm en st"
proof (cases "re_rename en (rs_renames st)")
  case Renamed
  with assms replace_renamed [OF Renamed assms(3,4)] that(1) show ?thesis by (auto simp: calm_def)
next
  case (RenameFails e)
  have later: "\<forall>m>rs_renames st. re_rename en m = Renamed"
    using assms(2) RenameFails unfolding one_failure_def by blast
  have here: "\<not> calm en st" using RenameFails unfolding calm_def by force
  show ?thesis
    by (rule that(2)) (use assms(1) replace_fails [OF RenameFails] later here in \<open>auto simp: calm_def Suc_le_eq\<close>)
next
  case CrossDevice
  with assms(2) show ?thesis by (simp add: one_failure_def)
qed

lemma move_out:
  assumes "move_all en [] backup_path names moved st = (st', moved', r)" "one_failure en"
    "map_of (rs_files st) = displaced F (set moved)" "backup_free F (set moved \<union> set names)"
    "distinct (moved @ names)" "\<forall>n\<in>set names. F [n] \<noteq> None"
  shows "map_of (rs_files st') = displaced F (set moved') \<and> set moved' \<subseteq> set moved \<union> set names \<and> distinct moved' \<and>
    (r = Inr () \<and> moved' = moved @ names \<or> (\<exists>e. r = Inl (OSError e)) \<and> calm en st')"
  using assms
proof (induction names arbitrary: moved st)
  case (Cons n names)
  have free: "backup_free F (insert n (set moved))" using Cons.prems(4) by (auto simp: backup_free_def)
  have n: "n \<notin> set moved" "n \<noteq> ''.agentcore''" using Cons.prems(4,5) by (auto simp: backup_free_def)
  have src: "map_of (rs_files st) [n] \<noteq> None" "map_of (rs_files st) (backup_path @ [n]) = None"
    using n Cons.prems(3,6) free by (auto simp: displaced_def special_paths backup_free_def)
  obtain st1 r1 where m: "replace_path en [n] (backup_path @ [n]) st = (st1, r1)" by fastforce
  show ?case
  proof (rule replace_cases [OF m Cons.prems(2) src])
    assume "r1 = Inr ()" and fs: "rs_files st1 = move_tree [n] (backup_path @ [n]) (rs_files st)"
    then have go: "move_all en [] backup_path names (moved @ [n]) st1 = (st', moved', r)"
      using Cons.prems(1) m by simp
    have "map_of (rs_files st1) = displaced F (set (moved @ [n]))"
    proof
      fix q
      have "\<not> below [n] (backup_path @ [n])" "\<not> below (backup_path @ [n]) [n]" using n by (auto simp: special_paths)
      from map_of_move_tree [OF this, of "rs_files st" q] displaced_out [OF free n(1), of q]
      show "map_of (rs_files st1) q = displaced F (set (moved @ [n])) q"
        unfolding fs Cons.prems(3) by (simp add: special_paths)
    qed
    from Cons.IH [OF go Cons.prems(2) this] Cons.prems(4-6) show ?thesis by auto
  next
    fix e
    assume "r1 = Inl (OSError e)" "rs_files st1 = rs_files st" "calm en st1"
    with Cons.prems m show ?thesis by auto
  qed
qed auto

text \<open>Off the stage, what is installed comes from there; on it, what is not installed is as before.\<close>

definition taken_in :: "view \<Rightarrow> string list \<Rightarrow> view \<Rightarrow> bool" where
  "taken_in S installed G \<longleftrightarrow>
     (\<forall>q. \<not> below stage_path q \<longrightarrow>
        G q = (if \<exists>n\<in>set installed. below [n] q then S (stage_path @ q) else S q)) \<and>
     (\<forall>n r. n \<notin> set installed \<longrightarrow> G (stage_path @ n # r) = S (stage_path @ n # r))"

lemma taken_in_Nil [simp]: "taken_in S [] S"
  by (simp add: taken_in_def)

lemma taken_in_step:
  assumes "taken_in S installed (map_of fs)" "n \<notin> set installed" "n \<noteq> ''.agentcore''"
  shows "taken_in S (installed @ [n]) (map_of (move_tree (stage_path @ [n]) [n] fs))"
proof -
  have apart: "\<not> below (stage_path @ [n]) [n]" "\<not> below [n] (stage_path @ [n])"
    using assms(3) by (auto simp: special_paths)
  note moved = map_of_move_tree [OF apart, of fs]
  have inside: "map_of fs (stage_path @ n # r) = S (stage_path @ n # r)" for r
    using assms(1,2) by (simp add: taken_in_def)
  have "map_of (move_tree (stage_path @ [n]) [n] fs) q =
      (if \<exists>m\<in>set (installed @ [n]). below [m] q then S (stage_path @ q) else S q)" if "\<not> below stage_path q" for q
  proof (cases "below [n] q")
    case True
    then obtain r where "q = n # r" by (auto simp: below_iff)
    with inside [of r] show ?thesis by (simp add: moved)
  next
    case False
    have "\<not> below (stage_path @ [n]) q" using that by (auto simp: below_iff)
    with False that assms(1) show ?thesis by (simp add: moved taken_in_def)
  qed
  moreover have "map_of (move_tree (stage_path @ [n]) [n] fs) (stage_path @ m # r) = S (stage_path @ m # r)"
    if "m \<notin> set (installed @ [n])" for m r
  proof -
    have "\<not> below [n] (stage_path @ m # r)" "\<not> below (stage_path @ [n]) (stage_path @ m # r)"
      using that assms(3) by (auto simp: special_paths)
    with that assms(1) show ?thesis by (simp add: moved taken_in_def)
  qed
  ultimately show ?thesis by (auto simp: taken_in_def)
qed

lemma move_in:
  assumes "move_all en stage_path [] names installed st = (st', installed', r)" "one_failure en"
    "taken_in S installed (map_of (rs_files st))" "distinct (installed @ names)" "''.agentcore'' \<notin> set names"
    "\<forall>n\<in>set names. S (stage_path @ [n]) \<noteq> None \<and> S [n] = None"
  shows "taken_in S installed' (map_of (rs_files st')) \<and> set installed' \<subseteq> set installed \<union> set names \<and>
    (r = Inr () \<and> installed' = installed @ names \<or> (\<exists>e. r = Inl (OSError e)) \<and> calm en st')"
  using assms
proof (induction names arbitrary: installed st)
  case (Cons n names)
  have n: "n \<notin> set installed" "n \<noteq> ''.agentcore''" using Cons.prems(4,5) by auto
  have "map_of (rs_files st) (stage_path @ n # []) = S (stage_path @ n # [])"
    using Cons.prems(3) n(1) unfolding taken_in_def by blast
  moreover have "map_of (rs_files st) [n] = S [n]"
    using Cons.prems(3) n unfolding taken_in_def by (auto simp: special_paths)
  ultimately have src: "map_of (rs_files st) (stage_path @ [n]) \<noteq> None" "map_of (rs_files st) [n] = None"
    using Cons.prems(6) by auto
  obtain st1 r1 where m: "replace_path en (stage_path @ [n]) [n] st = (st1, r1)" by fastforce
  show ?case
  proof (rule replace_cases [OF m Cons.prems(2) src])
    assume "r1 = Inr ()" and fs: "rs_files st1 = move_tree (stage_path @ [n]) [n] (rs_files st)"
    then have go: "move_all en stage_path [] names (installed @ [n]) st1 = (st', installed', r)"
      using Cons.prems(1) m by simp
    have "taken_in S (installed @ [n]) (map_of (rs_files st1))"
      unfolding fs by (rule taken_in_step [OF Cons.prems(3) n])
    from Cons.IH [OF go Cons.prems(2) this] Cons.prems(4-6) show ?thesis by auto
  next
    fix e
    assume "r1 = Inl (OSError e)" "rs_files st1 = rs_files st" "calm en st1"
    with Cons.prems m show ?thesis by auto
  qed
qed auto

lemma remove_all:
  assumes "re_mounts en = []"
  shows "map_of (fold (\<lambda>name. remove_tree en [name]) names fs) q =
    (if \<exists>n\<in>set names. below [n] q then None else map_of fs q)"
  by (induction names arbitrary: fs) (auto simp: map_of_remove_tree [OF assms])

lemma calm_move:
  assumes "calm en st" "map_of (rs_files st) src \<noteq> None" "map_of (rs_files st) dst = None"
  obtains st' where "replace_path en src dst st = (st', Inr ())" "rs_files st' = move_tree src dst (rs_files st)" "calm en st'"
proof -
  have "re_rename en (rs_renames st) = Renamed" using assms(1) by (simp add: calm_def)
  from replace_renamed [OF this assms(2,3)] assms(1) that show ?thesis by (auto simp: calm_def)
qed

lemma move_back_restores:
  assumes "calm en st" "re_mounts en = []" "distinct names" "backup_free F (set names)" "\<forall>n\<in>set names. F [n] \<noteq> None"
    "\<forall>q. \<not> below stage_path q \<longrightarrow> map_of (rs_files st) q = displaced F (set names) q"
  shows "\<exists>st'. move_back en names st = (st', Inr ()) \<and> calm en st' \<and>
    (\<forall>q. \<not> below stage_path q \<longrightarrow> map_of (rs_files st') q = F q)"
  using assms
proof (induction names arbitrary: st)
  case (Cons n names)
  have n: "n \<noteq> ''.agentcore''" "backup_free F (set names)" using Cons.prems(4) by (auto simp: backup_free_def)
  have off: "\<not> below stage_path (backup_path @ r)" "\<not> below stage_path (n # r)" for r
    using n(1) by (auto simp: special_paths)
  have saved: "displaced F (set (n # names)) (backup_path @ [n]) = F [n]"
    using Cons.prems(4) by (auto simp: displaced_def special_paths backup_free_def)
  let ?st = "st\<lparr>rs_files := remove_tree en [n] (rs_files st)\<rparr>"
  have gone: "map_of (rs_files ?st) q = map_of (rs_files st) q" if "\<not> below stage_path q" for q
    using that Cons.prems(6) by (simp add: map_of_remove_tree [OF Cons.prems(2)] displaced_def)
  have src: "map_of (rs_files st) (backup_path @ [n]) \<noteq> None" using saved off Cons.prems(5,6) by simp
  then have src': "map_of (rs_files ?st) (backup_path @ [n]) \<noteq> None" using gone off by metis
  have dst: "map_of (rs_files ?st) [n] = None" by (simp add: map_of_remove_tree [OF Cons.prems(2)])
  have "calm en ?st" using Cons.prems(1) by (simp add: calm_def)
  from calm_move [OF this src' dst] obtain st1 where st1: "replace_path en (backup_path @ [n]) [n] ?st = (st1, Inr ())"
    "rs_files st1 = move_tree (backup_path @ [n]) [n] (rs_files ?st)" "calm en st1" by metis
  have "map_of (rs_files st1) q = displaced F (set names) q" if q: "\<not> below stage_path q" for q
  proof -
    have apart: "\<not> below (backup_path @ [n]) [n]" "\<not> below [n] (backup_path @ [n])"
      using n(1) by (auto simp: special_paths)
    have "map_of (rs_files st1) q = (if below [n] q then displaced F (set (n # names)) ((backup_path @ [n]) @ drop (length [n]) q)
      else if below (backup_path @ [n]) q then None else displaced F (set (n # names)) q)"
      using map_of_move_tree [OF apart, of "rs_files ?st" q] st1(2) gone Cons.prems(6) off q by simp
    also have "\<dots> = displaced F (set (n # names) - {n}) q"
      by (rule displaced_back [OF Cons.prems(4)]) simp
    finally show ?thesis using Cons.prems(3) by simp
  qed
  with Cons.IH [OF st1(3) Cons.prems(2) _ n(2)] Cons.prems(3,5)
  obtain st' where "move_back en names st1 = (st', Inr ())" "calm en st'"
    "\<forall>q. \<not> below stage_path q \<longrightarrow> map_of (rs_files st') q = F q" by auto
  with src st1(1) show ?case by (auto simp: then_do_def)
qed simp

subsection \<open>Undoing\<close>

definition state_copy :: "string list" where
  "state_copy = backup_path @ [''persistence.json'']"

definition state_backed :: "view \<Rightarrow> bool \<Rightarrow> view" where
  "state_backed F b q =
     (if \<not> b then F q
      else if below state_copy q then F (state_path @ drop (length state_copy) q)
      else if below state_path q then None else F q)"

lemma state_apart: "\<not> below state_copy state_path" "\<not> below state_path state_copy"
  by (auto simp: state_copy_def special_paths)

definition undoable :: "'s restore_engine \<Rightarrow> view \<Rightarrow> install_log \<Rightarrow> 's restore_state \<Rightarrow> bool" where
  "undoable en F log st \<longleftrightarrow>
     calm en st \<and> re_mounts en = [] \<and> distinct (il_moved log) \<and>
     backup_free (state_backed F (il_state_backed_up log)) (set (il_moved log)) \<and>
     (\<forall>n\<in>set (il_moved log). state_backed F (il_state_backed_up log) [n] \<noteq> None) \<and>
     (\<forall>q. \<not> below stage_path q \<longrightarrow> (\<forall>n\<in>set (il_installed log). \<not> below [n] q) \<longrightarrow>
       map_of (rs_files st) q = displaced (state_backed F (il_state_backed_up log)) (set (il_moved log)) q) \<and>
     (\<forall>n\<in>set (il_installed log). \<forall>r. displaced (state_backed F (il_state_backed_up log)) (set (il_moved log)) (n # r) = None) \<and>
     (il_state_backed_up log \<longrightarrow> F state_path \<noteq> None)"

lemma undo_restores:
  assumes "undoable en F log st"
  shows "\<exists>st'. undo_install en log st = (st', Inr ()) \<and>
    (\<forall>q. \<not> below stage_path q \<longrightarrow> \<not> below backup_path q \<longrightarrow> map_of (rs_files st') q = F q)"
proof -
  note u = assms [unfolded undoable_def]
  let ?b = "il_state_backed_up log"
  let ?F = "state_backed F ?b"
  let ?st = "st\<lparr>rs_files := fold (\<lambda>name. remove_tree en [name]) (il_installed log) (rs_files st)\<rparr>"
  have "map_of (rs_files ?st) q = displaced ?F (set (il_moved log)) q" if "\<not> below stage_path q" for q
    using that u by (auto simp: remove_all below_iff)
  moreover have "calm en ?st" using u by (simp add: calm_def)
  ultimately obtain st1 where st1: "move_back en (il_moved log) ?st = (st1, Inr ())" "calm en st1"
    "\<forall>q. \<not> below stage_path q \<longrightarrow> map_of (rs_files st1) q = ?F q"
    using move_back_restores [of en ?st "il_moved log" ?F] u by blast
  show ?thesis
  proof (cases ?b)
    case False
    with st1 show ?thesis by (auto simp: undo_install_def then_do_def state_backed_def)
  next
    case True
    let ?st1 = "st1\<lparr>rs_files := remove_tree en state_path (rs_files st1)\<rparr>"
    have off: "\<not> below stage_path state_copy" by (simp add: state_copy_def special_paths)
    have "map_of (rs_files st1) state_copy = F state_path"
      using st1(3) off True by (simp add: state_backed_def)
    then have src: "map_of (rs_files ?st1) state_copy \<noteq> None"
      using u True state_apart by (simp add: map_of_remove_tree)
    have dst: "map_of (rs_files ?st1) state_path = None" using u by (simp add: map_of_remove_tree)
    have "calm en ?st1" using st1(2) by (simp add: calm_def)
    from calm_move [OF this src dst] obtain st2 where st2: "replace_path en state_copy state_path ?st1 = (st2, Inr ())"
      "rs_files st2 = move_tree state_copy state_path (rs_files ?st1)" by metis
    have "map_of (rs_files st2) q = F q" if "\<not> below stage_path q" "\<not> below backup_path q" for q
    proof -
      have "\<not> below state_copy q" using that(2) by (auto simp: state_copy_def below_iff)
      moreover have "map_of (rs_files ?st1) (state_copy @ r) = F (state_path @ r)" for r
        using st1(3) True u by (simp add: map_of_remove_tree state_backed_def state_copy_def special_paths)
      ultimately show ?thesis using that st1(3) True u
        by (auto simp: st2(2) map_of_move_tree [OF state_apart] map_of_remove_tree state_backed_def below_iff)
    qed
    with True st1(1) st2(1) show ?thesis by (auto simp: undo_install_def then_do_def state_copy_def)
  qed
qed

subsection \<open>All or nothing\<close>

text \<open>
  The tree as \<open>_install\<close> meets it, and what a complete swap leaves.  A file \<open>persistence.json\<close>
  beside the projects would take the place of the saved state file in the backup.
\<close>

definition staged :: "view \<Rightarrow> bool" where
  "staged F \<longleftrightarrow> closed_tree F \<and> (\<exists>d. F [] = Some d \<and> is_directory d) \<and>
     (\<exists>d. F agentcore = Some d \<and> is_directory d) \<and> (\<forall>n r. F (backup_path @ n # r) = None) \<and>
     F [''persistence.json''] = None \<and> F (stage_path @ state_path) \<noteq> None"

definition swapped :: "view \<Rightarrow> view \<Rightarrow> bool" where
  "swapped F G \<longleftrightarrow> (\<forall>x r. x \<noteq> ''.agentcore'' \<longrightarrow> G (x # r) = F (stage_path @ x # r)) \<and>
     G state_path = F (stage_path @ state_path)"

lemma state_backed_simps:
  "x \<noteq> ''.agentcore'' \<Longrightarrow> state_backed F b (x # r) = F (x # r)" "state_backed F b [] = F []"
  "state_backed F b agentcore = F agentcore" "state_backed F b (stage_path @ r) = F (stage_path @ r)"
  "n \<noteq> ''persistence.json'' \<Longrightarrow> state_backed F b (backup_path @ n # r) = F (backup_path @ n # r)"
  by (simp_all add: state_backed_def state_copy_def special_paths)

lemma backup_state_outcome:
  assumes "backup_state en st = (st', b, r)" "one_failure en" "staged (map_of (rs_files st))"
  shows "map_of (rs_files st') = state_backed (map_of (rs_files st)) b \<and> (b \<longrightarrow> map_of (rs_files st) state_path \<noteq> None) \<and>
    (r = Inr () \<and> state_backed (map_of (rs_files st)) b state_path = None \<or> (\<exists>e. r = Inl (OSError e)) \<and> \<not> b \<and> calm en st')"
proof (cases "map_of (rs_files st) state_path = None")
  case True
  with assms(1) show ?thesis by (auto simp: backup_state_def state_backed_def fun_eq_iff)
next
  case False
  obtain st1 r1 where m: "replace_path en state_path state_copy st = (st1, r1)" by fastforce
  have free: "map_of (rs_files st) state_copy = None" using assms(3) by (simp add: staged_def state_copy_def)
  show ?thesis
  proof (rule replace_cases [OF m assms(2) False free])
    assume r: "r1 = Inr ()" and fs: "rs_files st1 = move_tree state_path state_copy (rs_files st)"
    have "map_of (rs_files st1) = state_backed (map_of (rs_files st)) True"
      using state_apart by (simp add: fs map_of_move_tree state_backed_def fun_eq_iff)
    moreover have "state_backed (map_of (rs_files st)) True state_path = None"
      using state_apart by (simp add: state_backed_def)
    ultimately show ?thesis using assms(1) m r False by (auto simp: backup_state_def state_copy_def)
  next
    fix e
    assume "r1 = Inl (OSError e)" "rs_files st1 = rs_files st" "calm en st1"
    with assms(1) m False show ?thesis by (auto simp: backup_state_def state_copy_def state_backed_def fun_eq_iff)
  qed
qed

lemma place_state_outcome:
  assumes "place_state en st = (st', r)" "one_failure en"
    "\<exists>d. map_of (rs_files st) [] = Some d \<and> is_directory d" "\<exists>d. map_of (rs_files st) agentcore = Some d \<and> is_directory d"
    "map_of (rs_files st) (stage_path @ state_path) \<noteq> None" "map_of (rs_files st) state_path = None"
  shows "r = Inr () \<and> (\<forall>x r. x \<noteq> ''.agentcore'' \<longrightarrow> map_of (rs_files st') (x # r) = map_of (rs_files st) (x # r)) \<and>
      map_of (rs_files st') state_path = map_of (rs_files st) (stage_path @ state_path) \<or>
    (\<exists>e. r = Inl (OSError e)) \<and> rs_files st' = rs_files st \<and> calm en st'"
proof -
  have "\<forall>n\<le>length agentcore. \<exists>d. map_of (rs_files st) ([] @ take n agentcore) = Some d \<and> is_directory d"
    using assms(3,4) by (auto simp: special_paths le_Suc_eq)
  from make_dirs_there [OF this]
  have m: "replace_path en (stage_path @ state_path) state_path st = (st', r)"
    using assms(1) by (simp add: place_state_def)
  have apart: "\<not> below (stage_path @ state_path) state_path" "\<not> below state_path (stage_path @ state_path)"
    by (auto simp: special_paths)
  show ?thesis
  proof (rule replace_cases [OF m assms(2,5,6)])
    assume "r = Inr ()" and fs: "rs_files st' = move_tree (stage_path @ state_path) state_path (rs_files st)"
    moreover have "\<not> below state_path (x # q)" "\<not> below (stage_path @ state_path) (x # q)" if "x \<noteq> ''.agentcore''" for x q
      using that by (auto simp: special_paths)
    ultimately show ?thesis by (auto simp: map_of_move_tree [OF apart])
  qed auto
qed

lemma try_install_outcome:
  assumes "try_install en st = (st', log, r)" "one_failure en" "staged (map_of (rs_files st))"
  shows "r = Inr () \<and> swapped (map_of (rs_files st)) (map_of (rs_files st')) \<or>
    (\<exists>e. r = Inl (OSError e)) \<and> undoable en (map_of (rs_files st)) log st'"
proof -
  let ?F = "map_of (rs_files st)"
  note F = assms(3) [unfolded staged_def]
  have mounts: "re_mounts en = []" using assms(2) by (simp add: one_failure_def)
  obtain st1 b r1 where bs: "backup_state en st = (st1, b, r1)" by (cases "backup_state en st") auto
  note B = backup_state_outcome [OF bs assms(2,3)]
  let ?F1 = "state_backed ?F b"
  let ?names = "managed [] (rs_files st1)"
  have names: "set ?names = {x. x \<noteq> ''.agentcore'' \<and> ?F1 [x] \<noteq> None}" using B by (simp add: set_managed)
  then have no_state: "''persistence.json'' \<notin> set ?names" using F by (simp add: state_backed_simps)
  have free: "backup_free ?F1 A" if "A \<subseteq> set ?names" for A
  proof -
    have "''.agentcore'' \<notin> A" using that names by auto
    moreover have "?F1 (backup_path @ n # r) = None" if "n \<in> A" for n r
    proof -
      have "n \<noteq> ''persistence.json''" using that \<open>A \<subseteq> set ?names\<close> no_state by auto
      with F show ?thesis by (simp add: state_backed_simps)
    qed
    ultimately show ?thesis by (simp add: backup_free_def)
  qed
  show ?thesis
  proof (cases r1)
    case (Inl e)
    with assms(1) bs B mounts show ?thesis
      by (auto simp: try_install_def undoable_def backup_free_def)
  next
    case (Inr u)
    obtain st2 moved r2 where m2: "move_all en [] backup_path ?names [] st1 = (st2, moved, r2)"
      by (cases "move_all en [] backup_path ?names [] st1") auto
    have ne: "\<forall>n\<in>set ?names. ?F1 [n] \<noteq> None" using names by simp
    have M: "map_of (rs_files st2) = displaced ?F1 (set moved)" "set moved \<subseteq> set ?names" "distinct moved"
      "r2 = Inr () \<and> moved = ?names \<or> (\<exists>e. r2 = Inl (OSError e)) \<and> calm en st2"
      using move_out [OF m2 assms(2), of ?F1] B free [of "set ?names"] ne by auto
    show ?thesis
    proof (cases r2)
      case (Inl e)
      have "undoable en ?F \<lparr> il_moved = moved, il_installed = [], il_state_backed_up = b \<rparr> st2"
        using M B mounts free [OF M(2)] ne Inl by (auto simp: undoable_def)
      with assms(1) bs \<open>r1 = Inr u\<close> m2 M(4) Inl show ?thesis by (auto simp: try_install_def)
    next
      case (Inr u2)
      with M(4) have all: "moved = ?names" by simp
      let ?S = "displaced ?F1 (set ?names)"
      let ?staged = "managed stage_path (rs_files st2)"
      have S: "map_of (rs_files st2) = ?S" using M(1) all by simp
      have ac: "''.agentcore'' \<notin> set ?names" by (simp add: set_managed)
      have S_stage: "?S (stage_path @ q) = ?F (stage_path @ q)" for q
      proof -
        have "?S (stage_path @ q) = ?F1 (stage_path @ q)"
          using ac by (auto simp: displaced_def special_paths)
        then show ?thesis by (simp add: state_backed_simps)
      qed
      have S_gone: "?S (x # q) = None" if "x \<noteq> ''.agentcore''" for x q
      proof (cases "x \<in> set ?names")
        case False
        with that names have "?F [x] = None" by (simp add: state_backed_simps)
        then have "?F (x # q) = None" using closed_tree_prefix [of ?F "[x]" q] F by simp
        with that False show ?thesis by (auto simp: displaced_def special_paths state_backed_simps)
      qed (auto simp: displaced_def)
      have staged_names: "set ?staged = {x. x \<noteq> ''.agentcore'' \<and> ?F (stage_path @ [x]) \<noteq> None}"
        using S S_stage by (simp add: set_managed)
      obtain st3 installed r3 where m3: "move_all en stage_path [] ?staged [] st2 = (st3, installed, r3)"
        by (cases "move_all en stage_path [] ?staged [] st2") auto
      have I: "taken_in ?S installed (map_of (rs_files st3))" "set installed \<subseteq> set ?staged"
        "r3 = Inr () \<and> installed = ?staged \<or> (\<exists>e. r3 = Inl (OSError e)) \<and> calm en st3"
        using move_in [OF m3 assms(2), of ?S] S staged_names S_stage S_gone by auto
      have undo: "undoable en ?F \<lparr> il_moved = ?names, il_installed = installed, il_state_backed_up = b \<rparr> st4"
        if "calm en st4" "rs_files st4 = rs_files st3" for st4
        using that I(1,2) B mounts free [of "set ?names"] ne S_gone staged_names
        by (auto simp: undoable_def taken_in_def)
      show ?thesis
      proof (cases r3)
        case (Inl e)
        with I(3) assms(1) bs \<open>r1 = Inr u\<close> m2 \<open>r2 = Inr u2\<close> all m3 undo [of st3] show ?thesis
          by (auto simp: try_install_def)
      next
        case (Inr u3)
        with I(3) have put: "installed = ?staged" by simp
        obtain st4 r4 where p: "place_state en st3 = (st4, r4)" by fastforce
        have at: "map_of (rs_files st3) q = ?S q" if "\<not> below stage_path q" "q = [] \<or> hd q = ''.agentcore''" for q
          using I(1) that staged_names put unfolding taken_in_def by (cases q) auto
        have here: "map_of (rs_files st3) [] = ?F []" "map_of (rs_files st3) agentcore = ?F agentcore"
          "map_of (rs_files st3) state_path = None"
          using at [of "[]"] at [of agentcore] at [of state_path] ac B \<open>r1 = Inr u\<close>
          by (auto simp: displaced_def special_paths state_backed_simps state_backed_simps [unfolded special_paths])
        have kept: "map_of (rs_files st3) (stage_path @ state_path) = ?F (stage_path @ state_path)"
          using I(1) staged_names put S_stage [of state_path] unfolding taken_in_def by (auto simp: special_paths)
        have view: "map_of (rs_files st3) (x # q) = ?F (stage_path @ x # q)" if "x \<noteq> ''.agentcore''" for x q
        proof (cases "x \<in> set ?staged")
          case True
          with I(1) put that S_stage show ?thesis unfolding taken_in_def by (auto simp: special_paths)
        next
          case False
          with that staged_names have "?F (stage_path @ [x]) = None" by simp
          then have "?F ((stage_path @ [x]) @ q) = None" using closed_tree_prefix F by blast
          with I(1) put that False S_gone [OF that] show ?thesis unfolding taken_in_def by (auto simp: special_paths)
        qed
        have "r4 = Inr () \<and> swapped ?F (map_of (rs_files st4)) \<or>
            (\<exists>e. r4 = Inl (OSError e)) \<and> rs_files st4 = rs_files st3 \<and> calm en st4"
          using place_state_outcome [OF p assms(2)] here kept view F by (auto simp: swapped_def)
        with assms(1) bs \<open>r1 = Inr u\<close> m2 \<open>r2 = Inr u2\<close> all m3 \<open>r3 = Inr u3\<close> put p undo [of st4] show ?thesis
          by (auto simp: try_install_def)
      qed
    qed
  qed
qed

definition ready_to_install :: "workspace \<Rightarrow> bool" where
  "ready_to_install fs \<longleftrightarrow> closed_tree (map_of fs) \<and> (\<exists>d. map_of fs [] = Some d \<and> is_directory d) \<and>
     (\<exists>d. map_of fs agentcore = Some d \<and> is_directory d) \<and> map_of fs backup_path = None \<and>
     map_of fs [''persistence.json''] = None \<and> map_of fs (stage_path @ state_path) \<noteq> None"

lemma backup_made:
  assumes "make_dirs fresh [] backup_path fs = Inr fs'" "ready_to_install fs"
  shows "map_of fs' = (map_of fs)(backup_path \<mapsto> Directory fresh) \<and> staged (map_of fs')"
proof -
  note r = assms(2) [unfolded ready_to_install_def]
  have prefixes: "(\<exists>n\<le>length backup_path. q = [] @ take n backup_path) \<longleftrightarrow> q = [] \<or> q = agentcore \<or> q = backup_path" for q
  proof -
    have "n \<le> length backup_path \<longleftrightarrow> n = 0 \<or> n = 1 \<or> n = 2" for n by (auto simp: special_paths)
    moreover have "take 0 backup_path = []" "take 1 backup_path = agentcore" "take 2 backup_path = backup_path"
      by (simp_all add: special_paths)
    ultimately show ?thesis by (metis append_Nil)
  qed
  have eff: "map_of fs' q = ((map_of fs)(backup_path \<mapsto> Directory fresh)) q" for q
  proof -
    have "map_of fs' q = (if (q = [] \<or> q = agentcore \<or> q = backup_path) \<and> map_of fs q = None
        then Some (Directory fresh) else map_of fs q)"
      using make_dirs_effect [OF assms(1), of q] unfolding prefixes by blast
    moreover have "map_of fs [] \<noteq> None" "map_of fs agentcore \<noteq> None" "map_of fs backup_path = None" using r by auto
    ultimately show ?thesis by auto
  qed
  then have view: "map_of fs' = (map_of fs)(backup_path \<mapsto> Directory fresh)" by (simp add: fun_eq_iff)
  have "map_of fs' (p @ [x]) \<noteq> None \<Longrightarrow> map_of fs' p \<noteq> None" for p x
  proof (cases "p @ [x] = backup_path")
    case True
    then have "p = agentcore" by (simp add: special_paths)
    with r show ?thesis by (auto simp: view special_paths)
  next
    case False
    assume "map_of fs' (p @ [x]) \<noteq> None"
    with False r show ?thesis by (auto simp: view closed_tree_def)
  qed
  then have "closed_tree (map_of fs')" by (simp add: closed_tree_def)
  moreover have "map_of fs (backup_path @ n # q) = None" for n q
    using closed_tree_prefix r by blast
  ultimately show ?thesis using r view by (auto simp: staged_def special_paths)
qed

text \<open>
  Installing a restored generation is all or nothing: with every entry of the workspace on one
  mount and at most one rename failing, whichever it is, either the workspace outside the engine's
  own directory is exactly the staged tree, or everything outside the stage and the backup is as
  it was before.
\<close>

theorem install_all_or_nothing:
  assumes "install en st = (st', r)" "one_failure en" "ready_to_install (rs_files st)"
  shows "r = Inr () \<and> swapped (map_of (rs_files st)) (map_of (rs_files st')) \<or>
    \<not> is_ok r \<and> (\<forall>q. \<not> below stage_path q \<longrightarrow> \<not> below backup_path q \<longrightarrow>
      map_of (rs_files st') q = map_of (rs_files st) q)"
proof (cases "make_dirs (re_fresh en) [] backup_path (rs_files st)")
  case (Inl e)
  with assms(1,3) show ?thesis by (auto simp: install_def ready_to_install_def)
next
  case (Inr fs)
  have mounts: "re_mounts en = []" using assms(2) by (simp add: one_failure_def)
  note made = backup_made [OF Inr assms(3)]
  let ?st = "st\<lparr>rs_files := fs\<rparr>"
  obtain st1 log r1 where t: "try_install en ?st = (st1, log, r1)" by (cases "try_install en ?st") auto
  from made have same: "map_of fs q = map_of (rs_files st) q" if "\<not> below backup_path q" for q using that by auto
  have "staged (map_of fs)" using made by blast
  then have "staged (map_of (rs_files ?st))" by simp
  from try_install_outcome [OF t assms(2) this] show ?thesis
  proof (elim disjE conjE exE)
    assume r1: "r1 = Inr ()" and sw: "swapped (map_of (rs_files ?st)) (map_of (rs_files st1))"
    have "rs_files st' = remove_tree en backup_path (remove_tree en journal_path (rs_files st1))" "r = Inr ()"
      using assms(1,3) Inr t r1 by (auto simp: install_def ready_to_install_def)
    moreover have "map_of fs (stage_path @ q) = map_of (rs_files st) (stage_path @ q)" for q
      by (rule same) (auto simp: special_paths)
    ultimately show ?thesis using sw
      by (auto simp: swapped_def map_of_remove_tree [OF mounts]) (auto simp: special_paths)
  next
    fix e
    assume r1: "r1 = Inl (OSError e)" and u: "undoable en (map_of (rs_files ?st)) log st1"
    from undo_restores [OF u] obtain st2 where st2: "undo_install en log st1 = (st2, Inr ())"
      "\<forall>q. \<not> below stage_path q \<longrightarrow> \<not> below backup_path q \<longrightarrow> map_of (rs_files st2) q = map_of fs q" by auto
    then have "st' = st2 \<and> r = Inl (OSError e)"
      using assms(1,3) Inr t r1 by (auto simp: install_def ready_to_install_def then_do_def)
    with st2(2) same show ?thesis by auto
  qed
qed

subsection \<open>Two small workspaces\<close>

lemma closed_tree_list:
  "\<forall>(q, n)\<in>set fs. q \<noteq> [] \<longrightarrow> map_of fs (butlast q) \<noteq> None \<Longrightarrow> closed_tree (map_of fs)"
  unfolding closed_tree_def
proof (intro allI impI)
  fix p x
  assume all: "\<forall>(q, n)\<in>set fs. q \<noteq> [] \<longrightarrow> map_of fs (butlast q) \<noteq> None" and "map_of fs (p @ [x]) \<noteq> None"
  then obtain n where "(p @ [x], n) \<in> set fs" by (auto dest: map_of_SomeD)
  with all have "map_of fs (butlast (p @ [x])) \<noteq> None" by blast
  then show "map_of fs p \<noteq> None" by simp
qed

definition plain_engine :: "(nat \<Rightarrow> rename_outcome) \<Rightarrow> 's checkpoint_store \<Rightarrow> 's restore_engine" where
  "plain_engine renames cs =
     \<lparr> re_sandbox = ''sbx_'' @ replicate 26 (CHR ''0''), re_runtime_version = ''1'', re_store = cs,
       re_crypto = undefined, re_cipher = undefined, re_decoder = \<lparr> max_files = 100, max_bytes = 1000 \<rparr>,
       re_fresh = \<lparr> st_mode = 16877, st_mtime_ns = 0 \<rparr>, re_now = 5, re_prefetch = (\<lambda>ds s. (s, Inr ())),
       re_rename = renames, re_mounts = [], re_error_text = (\<lambda>e. ''error'') \<rparr>"

definition third_fails :: "nat \<Rightarrow> rename_outcome" where
  "third_fails n = (if n = 2 then RenameFails ''EIO'' else Renamed)"

lemma plain_engine_simps [simp]:
  "re_rename (plain_engine renames cs) = renames" "re_mounts (plain_engine renames cs) = []"
  "re_fresh (plain_engine renames cs) = \<lparr> st_mode = 16877, st_mtime_ns = 0 \<rparr>" "\<not> is_mount (plain_engine renames cs) p"
  "re_store (plain_engine renames cs) = cs" "re_sandbox (plain_engine renames cs) = ''sbx_'' @ replicate 26 (CHR ''0'')"
  by (simp_all add: plain_engine_def is_mount_def)

lemma one_failure_plain: "one_failure (plain_engine third_fails cs)"
  by (auto simp: one_failure_def third_fails_def)

definition staged_tree :: "string \<Rightarrow> workspace" where
  "staged_tree own =
     (let dir = Directory \<lparr> st_mode = 16877, st_mtime_ns = 0 \<rparr> in
      [([], dir), ([own], Regular \<lparr> st_mode = 33188, st_mtime_ns = 1 \<rparr> ''mine''), (agentcore, dir),
       (state_path, Regular \<lparr> st_mode = 33152, st_mtime_ns = 2 \<rparr> ''old''), (stage_path, dir),
       (stage_path @ agentcore, dir), (stage_path @ state_path, Regular \<lparr> st_mode = 33152, st_mtime_ns = 3 \<rparr> ''new'')])"

definition staged_state :: "string \<Rightarrow> unit restore_state" where
  "staged_state own = \<lparr> rs_store = \<lparr> behind = (), known_chunks = None \<rparr>, rs_files = staged_tree own, rs_renames = 0,
     rs_progress = new_progress \<rparr>"

theorem install_all_or_nothing_witness:
  "\<not> (let (st', r) = install (plain_engine third_fails undefined) (staged_state ''notes'') in
       is_ok r \<and> map_of (rs_files st') state_path = map_of (staged_tree ''notes'') state_path)"
proof -
  have "ready_to_install (staged_tree ''notes'')"
    unfolding ready_to_install_def
    by (intro conjI closed_tree_list) (simp_all add: staged_tree_def Let_def special_paths)
  then have "ready_to_install (rs_files (staged_state ''notes''))" by (simp add: staged_state_def)
  from install_all_or_nothing [OF prod.collapse [symmetric] one_failure_plain this, of undefined]
  show ?thesis
    by (auto simp: swapped_def staged_state_def staged_tree_def Let_def special_paths split: prod.splits)
qed


end
