(* ===== verification/RestoreContent.thy ===== *)
theory RestoreContent
  imports RestoreInstall
begin

text \<open>
  What \<open>_materialize\<close> puts on the stage: every entry of the manifest with the recorded content,
  mode and time, and only directories on the way beside them.
\<close>

definition entry_dest :: "manifest_entry \<Rightarrow> string list" where
  "entry_dest e = stage_path @ segments (pure_path (entry_path e))"

text \<open>What an entry is restored to; a directory gets its mode and time at the end.\<close>

definition written :: "'s restore_engine \<Rightarrow> manifest_entry \<Rightarrow> meta node option \<Rightarrow> bool" where
  "written en e node \<longleftrightarrow>
     (case entry_type e of
        FileEntry \<Rightarrow> (\<exists>content. node = Some (Regular \<lparr> st_mode = 32768 + entry_mode e, st_mtime_ns = entry_mtime_ns e \<rparr> content) \<and>
          int (length content) = entry_size e \<and> Some (sha256_hex (re_crypto en) content) = entry_digest e)
      | SymlinkEntry \<Rightarrow> (\<exists>t. entry_symlink_target e = Some t \<and>
          node = Some (Symlink \<lparr> st_mode = 41471, st_mtime_ns = entry_mtime_ns e \<rparr> t))
      | DirectoryEntry \<Rightarrow> (\<exists>d. node = Some d \<and> is_directory d))"

definition restored :: "'s restore_engine \<Rightarrow> manifest_entry \<Rightarrow> meta node option \<Rightarrow> bool" where
  "restored en e node \<longleftrightarrow>
     (if entry_type e = DirectoryEntry
      then node = Some (Directory \<lparr> st_mode = 16384 + entry_mode e, st_mtime_ns = entry_mtime_ns e \<rparr>)
      else written en e node)"

lemma make_dirs_closed:
  assumes "make_dirs fresh [] rest fs = Inr fs'" "closed_tree (map_of fs)"
  shows "closed_tree (map_of fs')"
proof -
  note eff = make_dirs_effect [OF assms(1), unfolded append_Nil]
  have "map_of fs' p \<noteq> None" if "map_of fs' (p @ [x]) \<noteq> None" for p x
  proof (cases "map_of fs (p @ [x]) = None")
    case True
    with that eff [of "p @ [x]"] obtain n where n: "n \<le> length rest" "p @ [x] = take n rest" by (auto split: if_splits)
    then have "length (p @ [x]) = n" by simp
    then have "p = take (n - 1) rest" using n by (metis One_nat_def butlast_snoc butlast_take)
    with n eff [of p] show ?thesis by (metis diff_le_self le_trans option.distinct(1))
  next
    case False
    with assms(2) have "map_of fs p \<noteq> None" by (auto simp: closed_tree_def)
    with eff [of p] show ?thesis by (auto split: if_splits)
  qed
  then show ?thesis by (simp add: closed_tree_def)
qed

lemma put_closed:
  assumes "closed_tree (map_of fs)" "p \<noteq> []" "map_of fs (butlast p) \<noteq> None"
  shows "closed_tree (map_of (put_node p n fs))"
  using assms by (auto simp: closed_tree_def)

text \<open>Apart from one path, directories may be added on the way to it and nothing else changes.\<close>

definition on_the_way :: "meta \<Rightarrow> string list \<Rightarrow> workspace \<Rightarrow> workspace \<Rightarrow> bool" where
  "on_the_way fresh dest fs fs' \<longleftrightarrow>
     (\<forall>q. q \<noteq> dest \<longrightarrow> map_of fs' q = map_of fs q \<or>
        map_of fs q = None \<and> map_of fs' q = Some (Directory fresh) \<and> below q dest)"

lemma make_dirs_on_the_way:
  assumes "make_dirs fresh [] (butlast dest) fs = Inr fs'"
  shows "on_the_way fresh dest fs fs'"
proof -
  have "below (take n (butlast dest)) dest" if "n \<le> length (butlast dest)" for n
    using that by (cases dest rule: rev_cases) (auto simp: below_def min_def)
  with make_dirs_effect [OF assms] show ?thesis unfolding on_the_way_def by (auto split: if_splits)
qed

lemma on_the_way_put: "on_the_way fresh dest fs fs' \<Longrightarrow> on_the_way fresh dest fs (put_node dest n fs')"
  by (simp add: on_the_way_def)

lemma parent_made:
  assumes "make_dirs fresh [] (butlast dest) fs = Inr fs'"
  shows "map_of fs' (butlast dest) \<noteq> None"
  using make_dirs_effect [OF assms, of "butlast dest"] by (metis append_Nil order_refl option.distinct(1) take_all)

lemma write_entry_effect:
  assumes "write_entry en futures e fs = Inr fs'"
  shows "written en e (map_of fs' (entry_dest e)) \<and> on_the_way (re_fresh en) (entry_dest e) fs fs' \<and>
    (closed_tree (map_of fs) \<longrightarrow> closed_tree (map_of fs'))"
proof -
  let ?dest = "entry_dest e"
  have ne: "?dest \<noteq> []" by (simp add: entry_dest_def special_paths)
  obtain fs1 where m: "make_dirs (re_fresh en) [] (butlast ?dest) fs = Inr fs1"
    using assms by (auto simp: write_entry_def Let_def entry_dest_def and_then_Inr)
  have way: "on_the_way (re_fresh en) ?dest fs fs1" by (rule make_dirs_on_the_way [OF m])
  have cl: "closed_tree (map_of fs) \<Longrightarrow> closed_tree (map_of (put_node ?dest n fs1))" for n
    by (rule put_closed [OF make_dirs_closed [OF m] ne parent_made [OF m]])
  show ?thesis
  proof (cases "entry_type e")
    case DirectoryEntry
    with assms m have "(\<exists>d. map_of fs1 ?dest = Some d \<and> is_directory d \<and> fs' = fs1) \<or>
        fs' = put_node ?dest (Directory (re_fresh en)) fs1"
      by (auto simp: write_entry_def Let_def entry_dest_def [symmetric] split: option.splits if_splits)
    with DirectoryEntry way cl make_dirs_closed [OF m] show ?thesis
      by (auto simp: written_def intro: on_the_way_put)
  next
    case SymlinkEntry
    with assms m obtain t where "entry_symlink_target e = Some t"
      "fs' = put_node ?dest (Symlink \<lparr> st_mode = 41471, st_mtime_ns = entry_mtime_ns e \<rparr> t) fs1"
      by (auto simp: write_entry_def Let_def entry_dest_def [symmetric] split: option.splits if_splits)
    with SymlinkEntry way cl show ?thesis by (auto simp: written_def intro: on_the_way_put)
  next
    case FileEntry
    with assms m obtain content where "int (length content) = entry_size e"
      "Some (sha256_hex (re_crypto en) content) = entry_digest e"
      "fs' = put_node ?dest (Regular \<lparr> st_mode = 32768 + entry_mode e, st_mtime_ns = entry_mtime_ns e \<rparr> content) fs1"
      by (auto simp: write_entry_def Let_def entry_dest_def [symmetric] and_then_Inr split: if_splits)
    with FileEntry way cl show ?thesis by (auto simp: written_def intro: on_the_way_put)
  qed
qed

lemma write_entries_effect:
  assumes "write_entries en futures es fs = Inr fs'" "distinct (map entry_dest es)"
  shows "(\<forall>e\<in>set es. written en e (map_of fs' (entry_dest e))) \<and>
    (\<forall>q. q \<notin> entry_dest ` set es \<longrightarrow> map_of fs' q = map_of fs q \<or>
      map_of fs q = None \<and> map_of fs' q = Some (Directory (re_fresh en)) \<and> (\<exists>e\<in>set es. below q (entry_dest e))) \<and>
    (closed_tree (map_of fs) \<longrightarrow> closed_tree (map_of fs'))"
  using assms
proof (induction es arbitrary: fs)
  case (Cons e es)
  from Cons.prems(1) obtain fs1 where w: "write_entry en futures e fs = Inr fs1" "write_entries en futures es fs1 = Inr fs'"
    by (auto simp: and_then_Inr)
  note one = write_entry_effect [OF w(1)]
  have d: "distinct (map entry_dest es)" "entry_dest e \<notin> entry_dest ` set es" using Cons.prems(2) by auto
  note IH = Cons.IH [OF w(2) d(1)]
  have "map_of fs1 (entry_dest e) \<noteq> None" using one by (auto simp: written_def split: entry_kind.splits)
  with IH d(2) have "map_of fs' (entry_dest e) = map_of fs1 (entry_dest e)" by metis
  with one IH have all: "\<forall>x\<in>set (e # es). written en x (map_of fs' (entry_dest x))" by simp
  have "map_of fs' q = map_of fs q \<or>
      map_of fs q = None \<and> map_of fs' q = Some (Directory (re_fresh en)) \<and> (\<exists>x\<in>set (e # es). below q (entry_dest x))"
    if "q \<notin> entry_dest ` set (e # es)" for q
  proof -
    from that have q: "q \<noteq> entry_dest e" "q \<notin> entry_dest ` set es" by auto
    from one q(1) have "map_of fs1 q = map_of fs q \<or>
      map_of fs q = None \<and> map_of fs1 q = Some (Directory (re_fresh en)) \<and> below q (entry_dest e)"
      unfolding on_the_way_def by blast
    moreover from IH q(2) have "map_of fs' q = map_of fs1 q \<or>
      map_of fs1 q = None \<and> map_of fs' q = Some (Directory (re_fresh en)) \<and> (\<exists>e\<in>set es. below q (entry_dest e))" by blast
    ultimately show ?thesis by auto
  qed
  with all one IH show ?case by blast
qed auto

lemma stamp_directories_effect:
  assumes "distinct (map entry_dest es)"
  shows "map_of (stamp_directories es fs) q =
    (case find (\<lambda>e. entry_type e = DirectoryEntry \<and> entry_dest e = q) es of
       Some e \<Rightarrow> Some (Directory \<lparr> st_mode = 16384 + entry_mode e, st_mtime_ns = entry_mtime_ns e \<rparr>)
     | None \<Rightarrow> map_of fs q)"
proof -
  have stamp: "stamp_directory e fs = put_node (entry_dest e)
      (Directory \<lparr> st_mode = 16384 + entry_mode e, st_mtime_ns = entry_mtime_ns e \<rparr>) fs" for e fs
    by (simp add: stamp_directory_def entry_dest_def)
  show ?thesis
    using assms unfolding stamp_directories_def
    by (induction es) (auto simp: foldr_conv_fold [symmetric] stamp rev_map split: option.splits)
qed

lemma fetch_all_same: "fetch_all en ds st = (st', rs) \<Longrightarrow> rs_files st' = rs_files st \<and> rs_renames st' = rs_renames st"
proof (induction ds arbitrary: st st' rs)
  case (Cons d ds)
  obtain st1 r where f: "fetch_chunk en d st = (st1, r)" by fastforce
  obtain st2 rs2 where a: "fetch_all en ds st1 = (st2, rs2)" by fastforce
  have "rs_files st1 = rs_files st \<and> rs_renames st1 = rs_renames st"
    using f by (auto simp: fetch_chunk_def Let_def split: prod.splits sum.splits elim!: trying_elim)
  with Cons.IH [OF a] Cons.prems f a show ?case by simp
qed simp

lemma on_restore_store_same:
  "on_restore_store f st = (st', r) \<Longrightarrow> rs_files st' = rs_files st \<and> rs_renames st' = rs_renames st"
  by (cases "f (rs_store st)") (auto simp: on_restore_store_def)

text \<open>A stage whose entries are those of the manifest, with directories on the way beside them.\<close>

definition holds_entries :: "'s restore_engine \<Rightarrow> manifest_entry list \<Rightarrow> view \<Rightarrow> view \<Rightarrow> bool" where
  "holds_entries en es F G \<longleftrightarrow>
     (\<forall>e\<in>set es. restored en e (G (entry_dest e))) \<and>
     (\<forall>q. q \<notin> entry_dest ` set es \<longrightarrow> G q = F q \<or>
        F q = None \<and> G q = Some (Directory (re_fresh en)) \<and> (\<exists>e\<in>set es. below q (entry_dest e)))"

lemma find_directory:
  assumes "distinct (map entry_dest es)" "e \<in> set es"
  shows "find (\<lambda>x. entry_type x = DirectoryEntry \<and> entry_dest x = entry_dest e) es =
    (if entry_type e = DirectoryEntry then Some e else None)"
  using assms by (induction es) (auto simp: find_None_iff image_iff)

lemma stamped_closed:
  assumes "closed_tree (map_of fs)" "\<forall>q. map_of fs q = None \<longleftrightarrow> map_of fs' q = None"
  shows "closed_tree (map_of fs')"
  using assms by (auto simp: closed_tree_def)

lemma materialize_effect:
  assumes "materialize en m st = (st', Inr ())" "distinct (map entry_dest (manifest_entries m))"
  shows "holds_entries en (manifest_entries m) (map_of (rs_files st)) (map_of (rs_files st')) \<and>
    (closed_tree (map_of (rs_files st)) \<longrightarrow> closed_tree (map_of (rs_files st')))"
proof -
  let ?es = "manifest_entries m"
  from assms(1) obtain futures fs where w: "write_entries en futures ?es (rs_files st) = Inr fs"
    "rs_files st' = stamp_directories ?es fs"
    by (auto simp: materialize_def Let_def dest!: fetch_all_same on_restore_store_same elim!: then_do_elim split: prod.splits sum.splits)
  note eff = write_entries_effect [OF w(1) assms(2)]
  note st = stamp_directories_effect [OF assms(2), of fs]
  have at: "restored en e (map_of (rs_files st') (entry_dest e))" if "e \<in> set ?es" for e
    using eff that find_directory [OF assms(2) that] by (simp add: w(2) st restored_def)
  have off: "map_of (rs_files st') q = map_of fs q" if "q \<notin> entry_dest ` set ?es" for q
  proof -
    have "find (\<lambda>e. entry_type e = DirectoryEntry \<and> entry_dest e = q) ?es = None"
      using that by (auto simp: find_None_iff)
    then show ?thesis by (simp add: w(2) st)
  qed
  have "map_of fs q = None \<longleftrightarrow> map_of (rs_files st') q = None" for q
  proof (cases "q \<in> entry_dest ` set ?es")
    case True
    then obtain e where e: "e \<in> set ?es" "q = entry_dest e" by auto
    with at [OF e(1)] eff show ?thesis
      by (auto simp: restored_def written_def split: if_splits entry_kind.splits)
  next
    case False
    with off show ?thesis by simp
  qed
  with eff at off stamped_closed [of fs "rs_files st'"] show ?thesis by (auto simp: holds_entries_def)
qed

lemma materialize_fails: "materialize en m st = (st', Inl e) \<Longrightarrow> rs_files st' = rs_files st"
  by (auto simp: materialize_def Let_def dest!: fetch_all_same on_restore_store_same elim!: then_do_elim split: prod.splits sum.splits)

lemma remove_tree_closed: "re_mounts en = [] \<Longrightarrow> closed_tree (map_of fs) \<Longrightarrow> closed_tree (map_of (remove_tree en p fs))"
  unfolding closed_tree_def map_of_remove_tree by (auto simp: below_iff)

text \<open>The workspace when its stage is empty and there is no backup.\<close>

definition prepared :: "meta \<Rightarrow> view \<Rightarrow> view \<Rightarrow> bool" where
  "prepared fresh F G \<longleftrightarrow> (closed_tree F \<longrightarrow> closed_tree G) \<and> (\<forall>r. G (backup_path @ r) = None) \<and> (\<forall>n r. G (stage_path @ n # r) = None) \<and>
     (\<exists>d. G [] = Some d \<and> is_directory d) \<and> (\<exists>d. G agentcore = Some d \<and> is_directory d) \<and>
     (\<forall>q. \<not> below stage_path q \<longrightarrow> \<not> below backup_path q \<longrightarrow>
        G q = F q \<or> F q = None \<and> G q = Some (Directory fresh) \<and> q \<in> {[], agentcore})"

lemma prepare_stage_effect:
  assumes "prepare_stage en fs = Inr fs'" "re_mounts en = []"
  shows "prepared (re_fresh en) (map_of fs) (map_of fs')"
proof -
  from assms(1) obtain fs1 where fs1: "make_dirs (re_fresh en) [] [] fs = Inr fs1"
    "make_dirs (re_fresh en) [] stage_path (remove_tree en backup_path (remove_tree en stage_path fs1)) = Inr fs'"
    by (auto simp: prepare_stage_def and_then_Inr)
  let ?fs2 = "remove_tree en backup_path (remove_tree en stage_path fs1)"
  have root: "map_of fs1 q = map_of fs q \<or> map_of fs q = None \<and> map_of fs1 q = Some (Directory (re_fresh en)) \<and> q = []" for q
    using make_dirs_effect [OF fs1(1), of q] by (auto split: if_splits)
  have two: "map_of ?fs2 q = (if below backup_path q \<or> below stage_path q then None else map_of fs1 q)" for q
    by (simp add: map_of_remove_tree [OF assms(2)])
  have prefixes: "(\<exists>n\<le>length stage_path. q = take n stage_path) \<longleftrightarrow> q = [] \<or> q = agentcore \<or> q = stage_path" for q
  proof -
    have "n \<le> length stage_path \<longleftrightarrow> n = 0 \<or> n = 1 \<or> n = 2" for n by (auto simp: special_paths)
    moreover have "take 0 stage_path = []" "take 1 stage_path = agentcore" "take 2 stage_path = stage_path"
      by (simp_all add: special_paths)
    ultimately show ?thesis by metis
  qed
  have eff: "map_of fs' q = (if (q = [] \<or> q = agentcore \<or> q = stage_path) \<and> map_of ?fs2 q = None
      then Some (Directory (re_fresh en)) else map_of ?fs2 q)" for q
    using make_dirs_effect [OF fs1(2), of q] unfolding append_Nil prefixes by blast
  have "\<exists>d. map_of fs' (take n stage_path) = Some d \<and> is_directory d" if "n \<le> length stage_path" for n
    using make_dirs_effect [OF fs1(2)] that unfolding append_Nil by blast
  from this [of 0] this [of 1] have dirs: "\<exists>d. map_of fs' [] = Some d \<and> is_directory d"
    "\<exists>d. map_of fs' agentcore = Some d \<and> is_directory d" by (simp_all add: special_paths)
  have "closed_tree (map_of fs')" if "closed_tree (map_of fs)"
    by (intro make_dirs_closed [OF fs1(2)] remove_tree_closed [OF assms(2)] make_dirs_closed [OF fs1(1)] that)
  moreover have "map_of fs' (backup_path @ r) = None" "map_of fs' (stage_path @ n # r) = None" for n r
    unfolding eff two by (auto simp: special_paths)
  moreover have "map_of fs' q = map_of fs q \<or>
      map_of fs q = None \<and> map_of fs' q = Some (Directory (re_fresh en)) \<and> q \<in> {[], agentcore}"
    if "\<not> below stage_path q" "\<not> below backup_path q" for q
    using that root [of q] unfolding eff two by auto
  ultimately show ?thesis using dirs unfolding prepared_def by blast
qed

lemma write_state_effect:
  assumes "write_state en cg st = (st', Inr ())"
  shows "map_of (rs_files st') (stage_path @ state_path) = Some (Regular ((re_fresh en)\<lparr>st_mode := 33152\<rparr>) (state_text en cg)) \<and>
    on_the_way (re_fresh en) (stage_path @ state_path) (rs_files st) (rs_files st') \<and>
    (closed_tree (map_of (rs_files st)) \<longrightarrow> closed_tree (map_of (rs_files st')))"
proof -
  let ?dest = "stage_path @ state_path"
  from assms obtain fs where m: "make_dirs (re_fresh en) [] (butlast ?dest) (rs_files st) = Inr fs"
    "rs_files st' = put_node ?dest (Regular ((re_fresh en)\<lparr>st_mode := 33152\<rparr>) (state_text en cg)) fs"
    by (auto simp: write_state_def write_file_def and_then_Inr elim!: trying_elim)
  have ne: "?dest \<noteq> []" by (simp add: special_paths)
  show ?thesis
    using make_dirs_on_the_way [OF m(1)] put_closed [OF make_dirs_closed [OF m(1)] ne parent_made [OF m(1)]]
    by (simp add: m(2) on_the_way_put)
qed

lemma write_state_fails: "write_state en cg st = (st', Inl e) \<Longrightarrow> rs_files st' = rs_files st"
  by (auto simp: write_state_def elim!: trying_elim)

end
