(* ===== verification/Journal.thy ===== *)
theory Journal
  imports Cipher Paths
begin

text \<open>
  \<open>persistence/journal.py\<close>: the dirty journal, the list of paths written since the last committed
  checkpoint, kept in memory and as one JSON line per event in a file.  The file is a string,
  \<open>None\<close> while it does not exist.  The inotify watcher only calls \<open>mark\<close> and is left out.
\<close>

record journal_event =
  sequence :: int
  ev_path :: string
  recorded_at :: time

record journal_snapshot =
  through_sequence :: int
  dirty_paths :: "string set"
  first_dirty_at :: "time option"

record journal =
  events :: "journal_event list"
  next_sequence :: int
  events_file :: "string option"

text \<open>\<open>datetime.isoformat()\<close> of an aware UTC time, with \<open>Z\<close> for its offset, is \<open>timestamp\<close>.\<close>

definition event_doc :: "journal_event \<Rightarrow> json" where
  "event_doc e = JObj [(''sequence'', JInt (sequence e)), (''path'', JStr (ev_path e)),
     (''recordedAt'', JStr (timestamp (recorded_at e)))]"

definition serialize :: "journal_event \<Rightarrow> string" where
  "serialize e = json_dumps (event_doc e)"

definition event_line :: "journal_event \<Rightarrow> string" where
  "event_line e = serialize e @ [CHR 0x0A]"

text \<open>\<open>_append\<close> and \<open>_rewrite\<close>: the rewrite replaces the file at once.\<close>

definition append_event :: "journal_event \<Rightarrow> string option \<Rightarrow> string option" where
  "append_event e f = Some (case_option [] id f @ event_line e)"

definition rewrite :: "journal_event list \<Rightarrow> string option" where
  "rewrite es = Some (concat (map event_line es))"

definition mark :: "string \<Rightarrow> time \<Rightarrow> journal \<Rightarrow> journal \<times> (fault, journal_event) result" where
  "mark relative now j =
     (let path = pure_path relative in
      if is_absolute path \<or> ''..'' \<in> set (parts path) \<or> path = pure_path ''.''
      then (j, Inl (Crash (ValueCrash ''Dirty path must be a safe relative workspace path.'')))
      else
        let e = \<lparr> sequence = next_sequence j, ev_path = as_posix path, recorded_at = now \<rparr> in
        (j\<lparr>next_sequence := next_sequence j + 1, events := events j @ [e],
           events_file := append_event e (events_file j)\<rparr>, Inr e))"

definition journal_snapshot :: "journal \<Rightarrow> journal_snapshot" where
  "journal_snapshot j =
     (if events j = [] then \<lparr> through_sequence = 0, dirty_paths = {}, first_dirty_at = None \<rparr>
      else \<lparr> through_sequence = sequence (last (events j)), dirty_paths = set (map ev_path (events j)),
             first_dirty_at = Some (recorded_at (hd (events j))) \<rparr>)"

definition clear_through :: "int \<Rightarrow> journal \<Rightarrow> journal" where
  "clear_through n j =
     (let kept = filter (\<lambda>e. sequence e > n) (events j) in
      j\<lparr>events := kept, events_file := rewrite kept\<rparr>)"

text \<open>
  \<open>_load\<close>.  \<open>splitlines\<close> also cuts at other line boundaries, none of which \<open>json.dumps\<close> leaves
  unescaped.  The line has the types \<open>_serialize\<close> writes: \<open>int\<close> and \<open>str\<close> would also convert a
  number or a text of another type, which raises here.
\<close>

fun split_lines :: "string \<Rightarrow> string \<Rightarrow> string list" where
  "split_lines acc [] = (if acc = [] then [] else [rev acc])"
| "split_lines acc (c # cs) = (if c = CHR 0x0A then rev acc # split_lines [] cs else split_lines (c # acc) cs)"

definition read_event :: "string \<Rightarrow> (fault, journal_event) result" where
  "read_event line =
     (case json_loads line of
        Some (JObj v) \<Rightarrow>
          (case (get_key v ''sequence'', get_key v ''path'', get_key v ''recordedAt'') of
             (JInt n, JStr path, JStr at_text) \<Rightarrow>
               (case read_timestamp at_text of
                  None \<Rightarrow> Inl (Crash (ValueCrash ''Invalid isoformat string''))
                | Some t \<Rightarrow> Inr \<lparr> sequence = n, ev_path = path, recorded_at = t \<rparr>)
           | _ \<Rightarrow> Inl (Crash (KeyErr ''sequence'')))
      | _ \<Rightarrow> Inl (Crash (ValueCrash ''Expecting value'')))"

fun read_events :: "string list \<Rightarrow> (fault, journal_event list) result" where
  "read_events [] = Inr []"
| "read_events (line # rest) =
     and_then (read_event line) (\<lambda>e. map_sum id (Cons e) (read_events rest))"

definition load_events :: "string option \<Rightarrow> (fault, journal_event list) result" where
  "load_events f = (case f of None \<Rightarrow> Inr [] | Some text \<Rightarrow> read_events (split_lines [] text))"

definition open_journal :: "string option \<Rightarrow> (fault, journal) result" where
  "open_journal f =
     and_then (load_events f) (\<lambda>es.
       Inr \<lparr> events = es, next_sequence = (if es = [] then 1 else sequence (last es) + 1), events_file = f \<rparr>)"

subsection \<open>The journal and its file\<close>

lemma hex_char_printable: "n < 16 \<Longrightarrow> 32 \<le> (of_char (hex_char n) :: nat) \<and> (of_char (hex_char n) :: nat) < 127"
proof -
  have "\<forall>i<16. 32 \<le> (of_char (hex_char i) :: nat) \<and> (of_char (hex_char i) :: nat) < 127"
    unfolding hex_char_def by (simp add: All_less_Suc eval_nat_numeral)
  then show "n < 16 \<Longrightarrow> ?thesis" by blast
qed

text \<open>Printed JSON is ASCII without control characters, so an event is one line.\<close>

definition printable :: "string \<Rightarrow> bool" where
  "printable s = list_all (\<lambda>c. 32 \<le> (of_char c :: nat) \<and> (of_char c :: nat) < 127) s"

lemma printable_simps [simp]:
  "printable []" "printable (c # s) \<longleftrightarrow> (32 \<le> (of_char c :: nat) \<and> (of_char c :: nat) < 127) \<and> printable s"
  "printable (s @ t) \<longleftrightarrow> printable s \<and> printable t"
  by (simp_all add: printable_def)

lemma printable_escape: "printable (escape_char c)"
proof -
  have "(of_char c :: nat) < 256" using of_char_mod_256 [of c, where ?'a = nat]
    by (metis mod_less_divisor zero_less_numeral)
  then have "(of_char c :: nat) div 16 < 16" by (simp add: less_mult_imp_div_less)
  then show ?thesis by (simp add: escape_char_def Let_def hex_char_printable)
qed

lemma printable_quote: "printable (json_quote s)"
  by (induction s) (simp_all add: json_quote_def printable_escape)

lemma printable_digits: "list_all is_digit s \<Longrightarrow> printable s"
  by (induction s) (auto simp: is_digit_def)

lemma printable_dec: "printable (dec n)"
  by (rule printable_digits [OF dec_digits(1)])

lemma printable_separated: "printable (separated xs) \<longleftrightarrow> list_all printable xs"
  by (induction xs rule: separated.induct) simp_all

lemma printable_print: "plain_json v \<Longrightarrow> printable (print_json v)"
proof (induction v rule: print_json.induct)
  case (6 vs)
  then show ?case by (simp add: printable_separated list_all_iff)
next
  case (7 kvs)
  then show ?case by (auto simp: printable_separated list_all_iff printable_quote)
qed (simp_all add: printable_quote dec_int_def printable_dec)

lemma utf8_decode_printable: "printable s \<Longrightarrow> utf8_decode s = Some s"
  by (induction s) (simp_all add: is_ascii_def)

lemma load_dumped: "plain_json v \<Longrightarrow> Option.bind (utf8_decode (json_dumps v)) json_loads = Some (sort_json v)"
  using printable_print [OF plain_sorted [of v]] json_loads_dumps [of v]
  by (simp add: json_dumps_def utf8_decode_printable)

lemma printable_no_newline: "printable s \<Longrightarrow> CHR 0x0A \<notin> set s"
  by (induction s) auto

lemma split_lines_line:
  "CHR 0x0A \<notin> set s \<Longrightarrow> split_lines acc (s @ CHR 0x0A # rest) = (rev acc @ s) # split_lines [] rest"
  by (induction s arbitrary: acc) auto

definition event_ok :: "journal_event \<Rightarrow> bool" where
  "event_ok e \<longleftrightarrow> 0 < sequence e \<and> valid_time (recorded_at e)"

lemma plain_event: "plain_json (event_doc e)"
  by (simp add: event_doc_def)

lemma read_event_serialize:
  assumes "event_ok e"
  shows "read_event (serialize e) = Inr e"
proof -
  let ?v = "[(''sequence'', JInt (sequence e)), (''path'', JStr (ev_path e)),
     (''recordedAt'', JStr (timestamp (recorded_at e)))]"
  have "json_loads (serialize e) = Some (JObj (sort_key fst ?v))"
    unfolding serialize_def json_loads_dumps [OF plain_event] by (simp add: event_doc_def)
  moreover have "map_of (sort_key fst ?v) = map_of ?v" by (rule map_of_sorted) simp
  ultimately show ?thesis using assms
    by (simp add: read_event_def get_key_def event_ok_def read_timestamp_timestamp del: sort_key_simps)
qed

lemma no_newline_serialize: "CHR 0x0A \<notin> set (serialize e)"
  using plain_sorted [OF plain_event] by (simp add: serialize_def json_dumps_def printable_print printable_no_newline)

lemma load_rewritten:
  "\<forall>e\<in>set es. event_ok e \<Longrightarrow> read_events (split_lines [] (concat (map event_line es))) = Inr es"
  by (induction es) (simp_all add: event_line_def split_lines_line no_newline_serialize read_event_serialize)

text \<open>
  The invariant: sequence numbers grow, and the file holds exactly the events in memory.
\<close>

definition journal_ok :: "journal \<Rightarrow> bool" where
  "journal_ok j \<longleftrightarrow> sorted_wrt (\<lambda>a b. sequence a < sequence b) (events j) \<and>
     (\<forall>e\<in>set (events j). event_ok e \<and> sequence e < next_sequence j) \<and> 0 < next_sequence j \<and>
     (events_file j = rewrite (events j) \<or> events_file j = None \<and> events j = [])"

lemma journal_ok_load: "journal_ok j \<Longrightarrow> load_events (events_file j) = Inr (events j)"
  by (auto simp: journal_ok_def load_events_def rewrite_def load_rewritten split: option.splits)

lemma mark_ok:
  assumes "journal_ok j" "valid_time now" "mark relative now j = (j', r)"
  shows "journal_ok j'"
  using assms by (auto simp: mark_def Let_def journal_ok_def event_ok_def sorted_wrt_append rewrite_def
      append_event_def split: if_splits) (meson order_less_imp_le)+

lemma clear_through_ok: "journal_ok j \<Longrightarrow> journal_ok (clear_through n j)"
  by (auto simp: clear_through_def Let_def journal_ok_def intro: sorted_wrt_filter)

fun mark_all :: "(string \<times> time) list \<Rightarrow> journal \<Rightarrow> journal" where
  "mark_all [] j = j"
| "mark_all ((relative, now) # rest) j = mark_all rest (fst (mark relative now j))"

lemma mark_grows:
  assumes "mark relative now j = (j', r)"
  shows "next_sequence j \<le> next_sequence j' \<and>
    (\<exists>later. events j' = events j @ later \<and> (\<forall>e\<in>set later. next_sequence j \<le> sequence e))"
  using assms by (auto simp: mark_def Let_def split: if_splits)

lemma mark_all_grows:
  "next_sequence j \<le> next_sequence (mark_all ws j) \<and>
    (\<exists>later. events (mark_all ws j) = events j @ later \<and> (\<forall>e\<in>set later. next_sequence j \<le> sequence e))"
proof (induction ws j rule: mark_all.induct)
  case (2 relative now rest j)
  obtain j' r where m: "mark relative now j = (j', r)" by (cases "mark relative now j")
  from mark_grows [OF m] 2 m show ?case by fastforce
qed simp

lemma mark_all_ok: "journal_ok j \<Longrightarrow> list_all (\<lambda>(p, t). valid_time t) ws \<Longrightarrow> journal_ok (mark_all ws j)"
proof (induction ws j rule: mark_all.induct)
  case (2 relative now rest j)
  then show ?case using mark_ok [of j now relative] by (cases "mark relative now j") auto
qed simp

text \<open>
  A checkpoint clears only what it saw: whatever is marked between its snapshot and the
  clearing stays dirty, in memory and in the file, so a restarted process reads it back.
\<close>

theorem later_writes_stay_dirty:
  assumes "journal_ok j" "list_all (\<lambda>(p, t). valid_time t) ws"
  shows "\<exists>later. events (mark_all ws j) = events j @ later \<and>
    (let j' = clear_through (through_sequence (journal_snapshot j)) (mark_all ws j) in
      events j' = later \<and> journal_ok j' \<and> load_events (events_file j') = Inr later)"
proof -
  obtain later where l: "events (mark_all ws j) = events j @ later" "\<forall>e\<in>set later. next_sequence j \<le> sequence e"
    using mark_all_grows by blast
  let ?n = "through_sequence (journal_snapshot j)"
  have "filter (\<lambda>e. sequence e > ?n) (events j) = []"
  proof (cases "events j" rule: rev_cases)
    case (snoc es e)
    with assms(1) show ?thesis
      by (auto simp: journal_snapshot_def journal_ok_def sorted_wrt_append filter_empty_conv)
  qed simp
  moreover have "filter (\<lambda>e. sequence e > ?n) later = later"
  proof (cases "events j" rule: rev_cases)
    case Nil
    with l(2) assms(1) show ?thesis
      by (auto simp: journal_snapshot_def journal_ok_def filter_id_conv)
  next
    case (snoc es e)
    with l(2) assms(1) show ?thesis
      by (fastforce simp: journal_snapshot_def journal_ok_def filter_id_conv)
  qed
  ultimately have "events (clear_through ?n (mark_all ws j)) = later"
    by (simp add: clear_through_def Let_def l(1))
  moreover have ok: "journal_ok (clear_through ?n (mark_all ws j))"
    by (intro clear_through_ok mark_all_ok assms)
  ultimately show ?thesis using l(1) journal_ok_load [OF ok] by (simp add: Let_def)
qed

definition sample_journal :: journal where
  "sample_journal = fst (mark ''memory/a'' 5 \<lparr> events = [], next_sequence = 1, events_file = None \<rparr>)"

lemma early_times: "valid_time 5" "valid_time 9"
  by (simp_all add: valid_time_def day_of_def split_year.simps [of 1970 0])

lemma sample_journal_ok: "journal_ok sample_journal"
  unfolding sample_journal_def
  by (rule mark_ok [OF _ _ prod.collapse [symmetric]]) (simp_all add: journal_ok_def early_times)

theorem later_writes_stay_dirty_witness:
  "journal_ok (clear_through (through_sequence (journal_snapshot sample_journal))
     (mark_all [(''memory/b'', 9)] sample_journal))"
  using later_writes_stay_dirty [OF sample_journal_ok, of "[(''memory/b'', 9)]"]
  by (simp add: Let_def early_times del: mark_all.simps)

end
