(* ===== verification/Checkpoint.thy ===== *)
theory Checkpoint
  imports Manifest Journal CheckpointStore
begin

text \<open>
  \<open>persistence/checkpoint.py\<close>: the checkpoint engine over the \<open>CheckpointStore\<close> protocol, with the
  in-memory store and the brokered store behind it.  The collaborators that only do I/O (the
  quiescer, the flusher, the failure injector, the write of the local state file) are the outcomes
  of their calls, chosen freely; what the watcher marks while the gateway runs is an input, and so
  is the order in which the upload threads finish.  The threads are taken one after the other: a
  chunk still in flight when another one fails counts as not uploaded.
\<close>

subsection \<open>The protocol\<close>

record 's store_ops =
  op_has_chunk :: "string \<Rightarrow> 's \<Rightarrow> 's \<times> (fault, bool) result"
  op_prefetch_uploads :: "string list \<Rightarrow> 's \<Rightarrow> 's \<times> (fault, unit) result"
  op_upload_chunk :: "string \<Rightarrow> string \<Rightarrow> 's \<Rightarrow> 's \<times> (fault, unit) result"
  op_upload_manifest :: "int \<Rightarrow> encrypted_blob \<Rightarrow> 's \<Rightarrow> 's \<times> (fault, unit) result"
  op_commit_generation :: "time \<Rightarrow> int \<Rightarrow> string \<Rightarrow> 's \<Rightarrow> 's \<times> (fault, unit) result"

text \<open>\<open>InMemoryCheckpointStore\<close>\<close>

record memory_store =
  mem_chunks :: "(string \<times> string) list"
  mem_manifests :: "(int \<times> encrypted_blob) list"
  mem_commits :: "(int \<times> string) list"

definition mem_has_chunk :: "string \<Rightarrow> memory_store \<Rightarrow> bool" where
  "mem_has_chunk digest s = (map_of (mem_chunks s) digest \<noteq> None)"

definition mem_upload_chunk :: "string \<Rightarrow> string \<Rightarrow> memory_store \<Rightarrow> memory_store" where
  "mem_upload_chunk digest ciphertext s = s\<lparr>mem_chunks := set_default digest ciphertext (mem_chunks s)\<rparr>"

definition mem_upload_manifest :: "int \<Rightarrow> encrypted_blob \<Rightarrow> memory_store \<Rightarrow> memory_store" where
  "mem_upload_manifest generation blob s = s\<lparr>mem_manifests := AList.update generation blob (mem_manifests s)\<rparr>"

definition mem_commit_generation :: "int \<Rightarrow> string \<Rightarrow> memory_store \<Rightarrow> memory_store \<times> (fault, unit) result" where
  "mem_commit_generation generation digest s =
     (case map_of (mem_manifests s) generation of
        None \<Rightarrow> (s, Inl (CheckpointError ''Manifest must exist before generation commit.''))
      | Some blob \<Rightarrow>
          if blob_digest blob \<noteq> digest
          then (s, Inl (CheckpointError ''Manifest must exist before generation commit.''))
          else if mem_commits s \<noteq> [] \<and> generation \<le> Max (fst ` set (mem_commits s))
          then (s, Inl (CheckpointError ''Generation commit must advance monotonically.''))
          else (s\<lparr>mem_commits := AList.update generation digest (mem_commits s)\<rparr>, Inr ()))"

definition mem_latest_committed :: "memory_store \<Rightarrow> int option" where
  "mem_latest_committed s = (if mem_commits s = [] then None else Some (Max (fst ` set (mem_commits s))))"

definition memory_ops :: "memory_store store_ops" where
  "memory_ops =
     \<lparr> op_has_chunk = (\<lambda>digest s. (s, Inr (mem_has_chunk digest s))),
       op_prefetch_uploads = (\<lambda>digests s. (s, Inr ())),
       op_upload_chunk = (\<lambda>digest ciphertext s. (mem_upload_chunk digest ciphertext s, Inr ())),
       op_upload_manifest = (\<lambda>generation blob s. (mem_upload_manifest generation blob s, Inr ())),
       op_commit_generation = (\<lambda>now. mem_commit_generation) \<rparr>"

text \<open>
  The brokered store; \<open>prefetch_uploads\<close> announces the digests to a broker that takes
  announcements, which is the broker's argument here.
\<close>

definition brokered_ops ::
  "(string list \<Rightarrow> 's \<Rightarrow> 's \<times> (fault, unit) result) \<Rightarrow> 's checkpoint_store \<Rightarrow> 's store_state store_ops" where
  "brokered_ops prefetch cs =
     \<lparr> op_has_chunk = has_chunk cs,
       op_prefetch_uploads = (\<lambda>digests. ask (prefetch digests)),
       op_upload_chunk = upload_chunk cs,
       op_upload_manifest = upload_manifest cs,
       op_commit_generation = commit_generation cs \<rparr>"

subsection \<open>The engine\<close>

record 's engine =
  en_sandbox :: string
  en_crypto :: crypto
  en_cipher :: sandbox_cipher
  en_store :: "'s store_ops"
  en_rpo :: timedelta
  en_runtime_version :: string

record 's engine_state =
  es_store :: 's
  es_journal :: journal
  es_builder :: builder
  es_local_state :: "string option"
  es_read_only :: bool
  es_gateway_paused :: bool
  es_holding :: bool

text \<open>What one run of \<open>checkpoint\<close> meets: clocks, the workspace, marks by the watcher, failures.\<close>

record run =
  at_start :: time
  at_failure :: time
  at_build_ns :: int
  run_files :: "stat files"
  run_marks :: "(string \<times> time) list"
  run_order :: "string list \<Rightarrow> string list"
  run_pause :: "(fault, unit) result"
  run_flush :: "(fault, unit) result"
  run_resume :: "(fault, unit) result"
  run_inject :: "string \<Rightarrow> (fault, unit) result"
  run_local_write :: "(fault, unit) result"

record receipt =
  rc_generation :: int
  rc_manifest_digest :: string
  rc_committed_at :: time
  rc_dirty_paths :: "string set"

definition new_engine :: "timedelta \<Rightarrow> string \<Rightarrow> int \<Rightarrow> 's engine \<Rightarrow> (fault, 's engine) result" where
  "new_engine rpo runtime_version upload_workers en =
     (if rpo \<le> 0 \<or> runtime_version = []
      then Inl (Crash (ValueCrash ''Recovery-point objective must be positive and runtime version required.''))
      else if upload_workers < 1 then Inl (Crash (ValueCrash ''Upload workers must be positive.''))
      else Inr (en\<lparr>en_rpo := rpo, en_runtime_version := runtime_version\<rparr>))"

definition enforce_rpo ::
  "'s engine \<Rightarrow> time \<Rightarrow> 's engine_state \<Rightarrow> 's engine_state \<times> (fault, unit) result" where
  "enforce_rpo en now st =
     (case first_dirty_at (journal_snapshot (es_journal st)) of
        None \<Rightarrow> (st, Inr ())
      | Some t \<Rightarrow>
          if now - t \<ge> en_rpo en
          then (st\<lparr>es_read_only := True\<rparr>,
                Inl (ReadOnlyPersistenceError ''Checkpoint recovery-point objective was breached.''))
          else (st, Inr ()))"

definition assert_writable ::
  "'s engine \<Rightarrow> time \<Rightarrow> 's engine_state \<Rightarrow> 's engine_state \<times> (fault, unit) result" where
  "assert_writable en now st =
     (if es_read_only st
      then (st, Inl (ReadOnlyPersistenceError ''Sandbox is read-only because durability is unavailable.''))
      else enforce_rpo en now st)"

definition on_store :: "('s \<Rightarrow> 's \<times> 'a) \<Rightarrow> 's engine_state \<Rightarrow> 's engine_state \<times> 'a" where
  "on_store f st = map_prod (\<lambda>s. st\<lparr>es_store := s\<rparr>) id (f (es_store st))"

text \<open>\<open>_upload_chunks\<close>\<close>

fun missing_chunks :: "'s store_ops \<Rightarrow> (string \<times> string) list \<Rightarrow> 's \<Rightarrow> 's \<times> (fault, (string \<times> string) list) result" where
  "missing_chunks ops [] s = (s, Inr [])"
| "missing_chunks ops ((digest, plaintext) # rest) s =
     then_do (op_has_chunk ops digest s) (\<lambda>s present.
     then_do (missing_chunks ops rest s) (\<lambda>s missing.
       (s, Inr (if present then missing else (digest, plaintext) # missing))))"

definition upload_one :: "crypto \<Rightarrow> sandbox_cipher \<Rightarrow> 's store_ops \<Rightarrow> string \<Rightarrow> string \<Rightarrow> 's \<Rightarrow> 's \<times> (fault, unit) result" where
  "upload_one c sc ops digest plaintext s =
     (let blob = encrypt c sc plaintext in
      if blob_digest blob \<noteq> digest then (s, Inl (CheckpointError ''Chunk digest changed during encryption.''))
      else op_upload_chunk ops digest (blob_ciphertext blob) s)"

fun upload_all :: "crypto \<Rightarrow> sandbox_cipher \<Rightarrow> 's store_ops \<Rightarrow> (string \<times> string) list \<Rightarrow> 's \<Rightarrow> 's \<times> (fault, unit) result" where
  "upload_all c sc ops [] s = (s, Inr ())"
| "upload_all c sc ops ((digest, plaintext) # rest) s =
     then_do (upload_one c sc ops digest plaintext s) (\<lambda>s _. upload_all c sc ops rest s)"

definition in_order :: "(string list \<Rightarrow> string list) \<Rightarrow> (string \<times> string) list \<Rightarrow> (string \<times> string) list" where
  "in_order order missing = List.map_filter (\<lambda>d. map_option (Pair d) (map_of missing d)) (order (map fst missing))"

definition upload_chunks :: "crypto \<Rightarrow> sandbox_cipher \<Rightarrow> 's store_ops \<Rightarrow> (string list \<Rightarrow> string list)
    \<Rightarrow> (string \<times> string) list \<Rightarrow> 's \<Rightarrow> 's \<times> (fault, unit) result" where
  "upload_chunks c sc ops order chunks s =
     then_do (missing_chunks ops (sort_key fst chunks) s) (\<lambda>s missing.
       if missing = [] then (s, Inr ())
       else
         then_do (op_prefetch_uploads ops (map fst missing) s) (\<lambda>s _.
           upload_all c sc ops (in_order order missing) s))"

text \<open>\<open>_write_local_state\<close>: the temporary file replaces the state file at once.\<close>

definition local_state_text :: "int \<Rightarrow> string \<Rightarrow> string \<Rightarrow> string" where
  "local_state_text generation digest runtime_version =
     json_dumps (JObj [(''schemaVersion'', JInt 1), (''generation'', JInt generation),
       (''manifestDigest'', JStr digest), (''runtimeVersion'', JStr runtime_version)]) @ [CHR 0x0A]"

definition pause_gateway :: "run \<Rightarrow> 's engine_state \<Rightarrow> 's engine_state \<times> (fault, unit) result" where
  "pause_gateway x st = (case run_pause x of
     Inl e \<Rightarrow> (st, Inl e)
   | Inr _ \<Rightarrow> (st\<lparr>es_gateway_paused := True, es_holding := True\<rparr>, Inr ()))"

definition resume_gateway :: "run \<Rightarrow> 's engine_state \<Rightarrow> 's engine_state \<times> (fault, unit) result" where
  "resume_gateway x st = (case run_resume x of
     Inl e \<Rightarrow> (st, Inl e)
   | Inr _ \<Rightarrow> (st\<lparr>es_gateway_paused := False\<rparr>, Inr ()))"

text \<open>
  The body of the \<open>try\<close>: after the commit, up to it, and before the uploads.  Marks of the watcher may fall between the
  snapshot and the end of the uploads; they are applied where the gateway runs again.
\<close>

definition commit_part ::
  "'s engine \<Rightarrow> run \<Rightarrow> int \<Rightarrow> built_manifest \<Rightarrow> 's engine_state \<Rightarrow> 's engine_state \<times> (fault, string) result" where
  "commit_part en x generation b st =
     then_do (on_store (upload_chunks (en_crypto en) (en_cipher en) (en_store en) (run_order x) (built_chunks b)) st) (\<lambda>st _.
     trying st (run_inject x ''chunks_uploaded'') (\<lambda>_.
     let blob = encrypt (en_crypto en) (en_cipher en) (to_json (built b)) in
     then_do (on_store (op_upload_manifest (en_store en) generation blob) st) (\<lambda>st _.
     trying st (run_inject x ''manifest_uploaded'') (\<lambda>_.
     then_do (on_store (op_commit_generation (en_store en) (at_start x) generation (blob_digest blob)) st) (\<lambda>st _.
       (st, Inr (blob_digest blob)))))))"

definition finish_part ::
  "'s engine \<Rightarrow> run \<Rightarrow> int \<Rightarrow> journal_snapshot \<Rightarrow> built_manifest \<Rightarrow> string \<Rightarrow> 's engine_state
    \<Rightarrow> 's engine_state \<times> (fault, receipt) result" where
  "finish_part en x generation snap b digest st =
     trying st (run_inject x ''generation_committed'') (\<lambda>_.
     let st = st\<lparr>es_builder := remember b (es_builder st)\<rparr> in
     trying st (run_local_write x) (\<lambda>_.
     let st = st\<lparr>es_local_state := Some (local_state_text generation digest (en_runtime_version en))\<rparr> in
     trying st (run_inject x ''local_state_written'') (\<lambda>_.
     let st = st\<lparr>es_journal := clear_through (through_sequence snap) (es_journal st)\<rparr> in
     trying st (run_inject x ''journal_cleared'') (\<lambda>_.
       (st\<lparr>es_read_only := False\<rparr>,
        Inr \<lparr> rc_generation = generation, rc_manifest_digest = digest, rc_committed_at = at_start x,
          rc_dirty_paths = dirty_paths snap \<rparr>)))))"

definition prepare_part ::
  "'s engine \<Rightarrow> run \<Rightarrow> int \<Rightarrow> bool \<Rightarrow> 's engine_state \<Rightarrow> 's engine_state \<times> (fault, built_manifest) result" where
  "prepare_part en x generation final st =
     then_do (pause_gateway x st) (\<lambda>st _.
     trying st (run_inject x ''quiesced'') (\<lambda>_.
     trying st (run_flush x) (\<lambda>_.
     trying st (run_inject x ''flushed'') (\<lambda>_.
     trying st (build (en_crypto en) (es_builder st) (at_build_ns x) (run_files x) generation (en_sandbox en)
         (timestamp (at_start x))) (\<lambda>b.
     trying st (run_inject x ''manifest_built'') (\<lambda>_.
     then_do (if final then (st, Inr ()) else
         then_do (resume_gateway x st) (\<lambda>st _. (st\<lparr>es_holding := False\<rparr>, Inr ()))) (\<lambda>st _.
       (st\<lparr>es_journal := mark_all (run_marks x) (es_journal st)\<rparr>, Inr b))))))))"

definition checkpoint_body ::
  "'s engine \<Rightarrow> run \<Rightarrow> int \<Rightarrow> bool \<Rightarrow> journal_snapshot \<Rightarrow> 's engine_state \<Rightarrow> 's engine_state \<times> (fault, receipt) result" where
  "checkpoint_body en x generation final snap st =
     then_do (prepare_part en x generation final st) (\<lambda>st b.
     then_do (commit_part en x generation b st) (\<lambda>st digest.
       finish_part en x generation snap b digest st))"

text \<open>The \<open>except\<close> clauses and the \<open>finally\<close>.\<close>

definition is_read_only :: "fault \<Rightarrow> bool" where
  "is_read_only e = (case e of ReadOnlyPersistenceError _ \<Rightarrow> True | _ \<Rightarrow> False)"

definition failed_checkpoint ::
  "'s engine \<Rightarrow> run \<Rightarrow> fault \<Rightarrow> 's engine_state \<Rightarrow> 's engine_state \<times> (fault, receipt) result" where
  "failed_checkpoint en x e st =
     (if is_read_only e then (st, Inl e)
      else
        then_do (enforce_rpo en (at_failure x) st) (\<lambda>st _.
          (st, Inl (CheckpointError ''Checkpoint did not commit completely.''))))"

definition release_gateway ::
  "run \<Rightarrow> bool \<Rightarrow> 's engine_state \<times> (fault, receipt) result \<Rightarrow> 's engine_state \<times> (fault, receipt) result" where
  "release_gateway x final outcome =
     (case outcome of (st, r) \<Rightarrow>
        if es_holding st \<and> (\<not> final \<or> \<not> is_ok r)
        then then_do (resume_gateway x st) (\<lambda>st _. (st\<lparr>es_holding := False\<rparr>, r))
        else (st, r))"

definition checkpoint ::
  "'s engine \<Rightarrow> run \<Rightarrow> int \<Rightarrow> bool \<Rightarrow> 's engine_state \<Rightarrow> 's engine_state \<times> (fault, receipt) result" where
  "checkpoint en x generation final st =
     (let snap = journal_snapshot (es_journal st) in
      release_gateway x final
        (case checkpoint_body en x generation final snap (st\<lparr>es_holding := False\<rparr>) of
           (st, Inr r) \<Rightarrow> (st, Inr r)
         | (st, Inl e) \<Rightarrow> failed_checkpoint en x e st))"

end
