(* ===== verification/ManifestProperties.thy ===== *)
theory ManifestProperties
  imports Manifest
begin

text \<open>
  What the checkpoint writes, the restore accepts: the manifest a build produces decodes to
  itself.  An incremental build equals a full one as long as an unchanged stamp means unchanged
  content, and the entries it reuses name chunks of the baseline.
\<close>

subsection \<open>Text\<close>

lemma utf8_decode_char: "utf8_decode (utf8_char c @ r) = map_option (Cons c) (utf8_decode r)"
proof -
  let ?n = "of_char c :: nat"
  have n: "?n < 256" using of_char_mod_256 [of c, where ?'a = nat] by (metis mod_less_divisor zero_less_numeral)
  show ?thesis
  proof (cases "?n < 128")
    case True
    then show ?thesis by (simp add: utf8_char_def Let_def is_ascii_def)
  next
    case False
    with n have d: "?n div 64 = 2 \<or> ?n div 64 = 3" by linarith
    have m: "(of_char (char_of (192 + ?n div 64) :: char) :: nat) = 192 + ?n div 64"
      "(of_char (char_of (128 + ?n mod 64) :: char) :: nat) = 128 + ?n mod 64"
      using d by auto
    have "?n div 64 * 64 + ?n mod 64 = ?n" by simp
    with d m False show ?thesis by (auto simp: utf8_char_def Let_def is_ascii_def)
  qed
qed

lemma utf8_decode_encode [simp]: "utf8_decode (utf8_encode s) = Some s"
  by (induction s) (simp_all add: utf8_encode_def utf8_decode_char)

lemma hex_char_set: "ch \<in> set ''0123456789abcdef'' \<longleftrightarrow> is_hex ch"
proof -
  have "ch \<in> set ''0123456789abcdef'' \<longleftrightarrow>
    (of_char ch :: nat) \<in> {48, 49, 50, 51, 52, 53, 54, 55, 56, 57, 97, 98, 99, 100, 101, 102}"
    unfolding list.set insert_iff empty_iff of_char_eq_iff [where ?'a = nat, of ch, symmetric] by simp
  also have "\<dots> \<longleftrightarrow> is_hex ch"
    unfolding is_hex_def is_decimal_char_def insert_iff empty_iff by presburger
  finally show ?thesis .
qed

lemma is_digest_str [simp]: "is_digest (JStr s) \<longleftrightarrow> digest_pattern s"
  by (simp add: is_digest_def digest_pattern_def hex_char_set del: list.set)

lemma is_digest_iff: "is_digest v \<longleftrightarrow> (\<exists>s. v = JStr s \<and> digest_pattern s)"
  by (cases v) (simp_all add: is_digest_def digest_pattern_def hex_char_set del: list.set)

subsection \<open>Entries\<close>

definition kind_ok :: "manifest_entry \<Rightarrow> bool" where
  "kind_ok e = (case entry_type e of
     FileEntry \<Rightarrow> (\<exists>d. entry_digest e = Some d \<and> digest_pattern d) \<and> entry_chunks e \<noteq> [] \<and>
       list_all digest_pattern (entry_chunks e) \<and> entry_symlink_target e = None
   | DirectoryEntry \<Rightarrow> entry_size e = 0 \<and> entry_digest e = None \<and> entry_chunks e = [] \<and>
       entry_symlink_target e = None
   | SymlinkEntry \<Rightarrow> entry_digest e = None \<and> entry_chunks e = [] \<and>
       (\<exists>t. entry_symlink_target e = Some t \<and> safe_symlink_target (pure_path (entry_path e)) t))"

definition entry_ok :: "manifest_entry \<Rightarrow> bool" where
  "entry_ok e \<longleftrightarrow> as_posix (pure_path (entry_path e)) = entry_path e \<and>
     policy_includes (pure_path (entry_path e)) \<and> 0 \<le> entry_mode e \<and> entry_mode e \<le> 4095 \<and>
     0 \<le> entry_mtime_ns e \<and> 0 \<le> entry_size e \<and> kind_ok e"

lemma sort_json_strs [simp]: "sort_json (JList (map JStr xs)) = JList (map JStr xs)"
  by (simp add: comp_def)

lemma distinct_dict: "distinct (map fst (entry_as_dict e))"
  by (auto simp: entry_as_dict_def split: option.splits)

lemma map_of_dict:
  "map_of (entry_as_dict e) ''path'' = Some (JStr (entry_path e))"
  "map_of (entry_as_dict e) ''type'' = Some (JStr (kind_text (entry_type e)))"
  "map_of (entry_as_dict e) ''mode'' = Some (JInt (entry_mode e))"
  "map_of (entry_as_dict e) ''mtimeNs'' = Some (JInt (entry_mtime_ns e))"
  "map_of (entry_as_dict e) ''size'' = Some (JInt (entry_size e))"
  "map_of (entry_as_dict e) ''digest'' = map_option JStr (entry_digest e)"
  "map_of (entry_as_dict e) ''chunks'' =
     (if entry_chunks e = [] then None else Some (JList (map JStr (entry_chunks e))))"
  "map_of (entry_as_dict e) ''symlinkTarget'' = map_option JStr (entry_symlink_target e)"
  by (simp_all add: entry_as_dict_def split: option.splits)

lemma plain_dict: "plain_json (JObj (entry_as_dict e))"
  using distinct_dict [of e] by (auto simp: entry_as_dict_def list_all_iff split: option.splits)

lemma sorted_dict: "sort_json (JObj (entry_as_dict e)) = JObj (sort_key fst (entry_as_dict e))"
proof -
  have "map (\<lambda>kv. (fst kv, sort_json (snd kv))) (entry_as_dict e) = entry_as_dict e"
    by (simp add: entry_as_dict_def comp_def split: option.splits)
  then show ?thesis by simp
qed

lemma read_kind_text [simp]: "read_kind (JStr (kind_text k)) = Inr (Some k)"
  by (cases k) (simp_all add: read_kind_def)

lemma read_entry_dict:
  assumes "entry_ok e"
  shows "read_entry (sort_json (JObj (entry_as_dict e))) = Inr (Some e)"
proof -
  let ?v = "sort_key fst (entry_as_dict e)"
  note m = map_of_sorted [OF distinct_dict [of e]]
  have "entry_metadata ?v = Inr (entry_path e, entry_type e, entry_mode e, entry_mtime_ns e, entry_size e)"
    using assms by (simp add: entry_metadata_def get_key_def m map_of_dict entry_ok_def)
  moreover have "read_chunk_list ?v = Inr (entry_chunks e)"
    using assms by (cases "entry_type e")
      (auto simp: read_chunk_list_def get_default_def m map_of_dict entry_ok_def kind_ok_def list_all_iff comp_def)
  moreover have "check_kind (entry_type e) (pure_path (entry_path e)) (entry_size e) (get_key ?v ''digest'')
      (entry_chunks e) (get_key ?v ''symlinkTarget'') = Inr ()"
    using assms by (cases "entry_type e")
      (auto simp: check_kind_def get_key_def m map_of_dict entry_ok_def kind_ok_def)
  moreover have "as_str (get_key ?v ''digest'') = entry_digest e"
    "as_str (get_key ?v ''symlinkTarget'') = entry_symlink_target e"
    by (simp_all add: get_key_def m map_of_dict split: option.splits)
  ultimately show ?thesis using assms
    by (simp add: sorted_dict read_entry_def entry_ok_def included_covered del: sort_json.simps)
qed

lemma read_entries_dicts:
  assumes "\<forall>e\<in>set es. entry_ok e" "distinct (map entry_path es)" "set seen \<inter> entry_path ` set es = {}"
    "bytes + sum_list (map entry_size es) \<le> max_bytes d"
  shows "read_entries d seen bytes (map (\<lambda>e. sort_json (JObj (entry_as_dict e))) es) = Inr es"
  using assms
proof (induction es arbitrary: seen bytes)
  case (Cons e es)
  from Cons.prems(1) have "0 \<le> sum_list (map entry_size es)"
    by (intro sum_list_nonneg) (auto simp: entry_ok_def)
  with Cons.prems Cons.IH [of "entry_path e # seen" "bytes + entry_size e"] show ?case
    by (auto simp: read_entry_dict simp del: sort_json.simps)
qed simp

subsection \<open>Manifests\<close>

definition manifest_ok :: "decoder \<Rightarrow> manifest \<Rightarrow> bool" where
  "manifest_ok d m \<longleftrightarrow> schema_version m = MANIFEST_SCHEMA_VERSION \<and>
     (\<forall>e\<in>set (manifest_entries m). entry_ok e) \<and> distinct (map entry_path (manifest_entries m)) \<and>
     sorted (map entry_path (manifest_entries m)) \<and> int (length (manifest_entries m)) \<le> max_files d \<and>
     sum_list (map entry_size (manifest_entries m)) \<le> max_bytes d"

lemma plain_manifest: "plain_json (manifest_doc m)"
  using plain_dict by (auto simp: manifest_doc_def list_all_iff simp del: plain_json.simps(3))
    (auto simp: list_all_iff)

definition sorted_doc :: "manifest \<Rightarrow> (string \<times> json) list" where
  "sorted_doc m = sort_key fst
     [(''schemaVersion'', JInt (schema_version m)), (''generation'', JInt (manifest_generation m)),
      (''sandboxId'', JStr (manifest_sandbox m)), (''createdAt'', JStr (created_at m)),
      (''categories'', JList (map JStr PERSISTENCE_CATEGORIES)),
      (''entries'', JList (map (\<lambda>e. sort_json (JObj (entry_as_dict e))) (manifest_entries m)))]"

lemma load_to_json: "load_object (to_json m) = Inr (sorted_doc m)"
proof -
  have "sort_json (manifest_doc m) = JObj (sorted_doc m)"
    by (simp add: manifest_doc_def sorted_doc_def comp_def)
  then show ?thesis
    using json_loads_dumps [OF plain_manifest [of m]] by (simp add: load_object_def to_json_def)
qed

lemma get_sorted_doc:
  "get_key (sorted_doc m) ''schemaVersion'' = JInt (schema_version m)"
  "get_key (sorted_doc m) ''generation'' = JInt (manifest_generation m)"
  "get_key (sorted_doc m) ''sandboxId'' = JStr (manifest_sandbox m)"
  "get_key (sorted_doc m) ''createdAt'' = JStr (created_at m)"
  "get_key (sorted_doc m) ''categories'' = JList (map JStr PERSISTENCE_CATEGORIES)"
  "get_key (sorted_doc m) ''entries'' = JList (map (\<lambda>e. sort_json (JObj (entry_as_dict e))) (manifest_entries m))"
  unfolding sorted_doc_def get_key_def by (simp_all add: map_of_sorted del: sort_key_simps)

lemma decode_to_json:
  assumes "manifest_ok d m"
  shows "decode d (to_json m) (manifest_sandbox m) (manifest_generation m) = Inr m"
proof -
  have "migrate (sorted_doc m) = Inr (sorted_doc m)"
    using assms by (simp add: migrate_def get_sorted_doc manifest_ok_def migrate_loop.simps)
  moreover have "read_entries d [] 0 (map (\<lambda>e. sort_json (JObj (entry_as_dict e))) (manifest_entries m))
      = Inr (manifest_entries m)"
    using assms by (intro read_entries_dicts) (simp_all add: manifest_ok_def)
  ultimately show ?thesis using assms
    by (simp add: decode_def load_to_json get_sorted_doc manifest_ok_def sorted_sort_id)
qed

subsection \<open>The walk\<close>

text \<open>A tree of files: no path twice, names as the kernel allows them, sizes as reported.\<close>

definition tree_ok :: "stat files \<Rightarrow> bool" where
  "tree_ok ws \<longleftrightarrow> distinct (map fst ws) \<and> (\<forall>(p, n)\<in>set ws. list_all file_name p) \<and>
     (\<forall>(p, n)\<in>set ws. \<forall>st content. n = Regular st content \<longrightarrow> st_size st = int (length content))"

lemma walk_in_dom: "p \<in> set (walk ws) \<Longrightarrow> \<exists>n. map_of ws p = Some n"
  by (auto simp: walk_def walk_root_def Let_def weak_map_of_SomeI split: if_splits option.splits
      dest: map_of_is_SomeI) (metis domD dom_map_of_conv_image_fst image_eqI fst_conv)+

lemma distinct_walk: "distinct (walk ws)"
  by (simp add: walk_def)

lemma tree_names: "tree_ok ws \<Longrightarrow> map_of ws p = Some n \<Longrightarrow> \<forall>x\<in>set p. file_name x"
  by (auto simp: tree_ok_def list_all_iff dest!: map_of_SomeD)

lemma tree_size: "tree_ok ws \<Longrightarrow> map_of ws p = Some (Regular st content) \<Longrightarrow> st_size st = int (length content)"
  by (auto simp: tree_ok_def dest!: map_of_SomeD)

lemma root_not_included: "\<not> policy_includes (rel_path [])"
proof -
  have "\<forall>root\<in>set policy_roots. segments (pure_path root) \<noteq> []" by code_simp
  then show ?thesis by (auto simp: policy_includes_def list_ex_iff is_relative_to_def rel_path_def
      dest!: arg_cong [where f = segments])
qed

subsection \<open>Entries of a build\<close>

text \<open>The entry a path contributes, whatever was built before it.\<close>

definition full_entry :: "crypto \<Rightarrow> nat \<Rightarrow> stat files \<Rightarrow> string list \<Rightarrow> manifest_entry option" where
  "full_entry c n ws p =
     (if \<not> policy_includes (rel_path p) then None
      else case the (map_of ws p) of
        Directory st \<Rightarrow> Some (directory_entry p st)
      | Symlink st raw \<Rightarrow>
          if safe_symlink_target (rel_path p) (as_posix (pure_path raw))
          then Some (symlink_entry p st (as_posix (pure_path raw))) else None
      | Regular st content \<Rightarrow> Some (file_entry c n p st content)
      | Special st \<Rightarrow> None)"

text \<open>
  The baseline is honest about a workspace at a time when every entry it offers for an unchanged
  stamp is the one a fresh read gives, and no stamp in it was racy at that time.
\<close>

definition honest :: "crypto \<Rightarrow> builder \<Rightarrow> int \<Rightarrow> stat files \<Rightarrow> bool" where
  "honest c bd now_ns ws \<longleftrightarrow>
     (\<forall>p st content stamp e. map_of ws p = Some (Regular st content) \<longrightarrow> policy_includes (rel_path p) \<longrightarrow>
        committed bd (as_posix (rel_path p)) = Some (stamp, e) \<longrightarrow>
        stamp_mtime_ns stamp < now_ns - RACY_WINDOW_NS \<and> stamp_ctime_ns stamp < now_ns - RACY_WINDOW_NS \<and>
        (stamp = stamp_of st \<longrightarrow> e = file_entry c (chunk_size bd) p st content))"

lemma honest_forget: "honest c (forget bd) now_ns ws"
  by (simp add: honest_def forget_def)

lemma read_file_simps [simp]:
  "b_entries (read_file c n racy p st content b) = b_entries b @ [file_entry c n p st content]"
  by (simp add: read_file_def Let_def)

lemma build_path_entry:
  assumes "honest c bd now_ns ws" "map_of ws p = Some node"
  shows "b_entries (build_path c bd racy ws p b) =
    b_entries b @ (case full_entry c (chunk_size bd) ws p of None \<Rightarrow> [] | Some e \<Rightarrow> [e])"
proof (cases "\<exists>st content. node = Regular st content \<and> policy_includes (rel_path p)")
  case True
  then obtain st content where n: "node = Regular st content" "policy_includes (rel_path p)" by blast
  then have "b_entries (build_file c bd racy p st content b) =
      b_entries b @ [file_entry c (chunk_size bd) p st content]"
    using assms by (auto simp: build_file_def Let_def honest_def split: option.splits)
  with n assms(2) show ?thesis by (simp add: build_path_def full_entry_def)
next
  case False
  with assms(2) show ?thesis
    by (cases node) (auto simp: build_path_def full_entry_def Let_def)
qed

lemma fold_entries:
  assumes "honest c bd now_ns ws" "\<forall>p\<in>set ps. \<exists>n. map_of ws p = Some n"
  shows "b_entries (fold (build_path c bd racy ws) ps b) =
    b_entries b @ List.map_filter (full_entry c (chunk_size bd) ws) ps"
  using assms(2)
proof (induction ps arbitrary: b)
  case (Cons p ps)
  then obtain n where "map_of ws p = Some n" by auto
  with Cons build_path_entry [OF assms(1) this, of racy b] show ?case
    by (simp add: map_filter_simps split: option.splits)
qed (simp add: map_filter_simps)

definition full_entries :: "crypto \<Rightarrow> nat \<Rightarrow> stat files \<Rightarrow> manifest_entry list" where
  "full_entries c n ws = sort_key entry_path (List.map_filter (full_entry c n ws) (walk ws))"

lemma build_entries:
  assumes "honest c bd now_ns ws" "build c bd now_ns ws generation sid created = Inr b"
  shows "built b = \<lparr> schema_version = MANIFEST_SCHEMA_VERSION, manifest_generation = generation,
    manifest_sandbox = sid, created_at = created, manifest_entries = full_entries c (chunk_size bd) ws \<rparr>"
  using assms fold_entries [OF assms(1), of "walk ws" "now_ns - RACY_WINDOW_NS" start_building]
  by (auto simp: build_def Let_def full_entries_def start_building_def walk_in_dom split: if_splits)

subsection \<open>What is built can be restored\<close>

definition datable :: "stat files \<Rightarrow> bool" where
  "datable ws \<longleftrightarrow> (\<forall>p n. map_of ws p = Some n \<longrightarrow> 0 \<le> st_mtime_ns (node_meta n))"

lemma s_imode_range [simp]: "0 \<le> s_imode m" "s_imode m \<le> 4095"
  using pos_mod_bound [of 4096 m] by (simp_all add: s_imode_def)

lemma read_chunks_digests: "crypto_documented c \<Longrightarrow> list_all digest_pattern (map (sha256_hex c) (read_chunks n s))"
  by (simp add: crypto_documented_def list_all_iff)

lemma read_chunks_not_Nil [simp]: "read_chunks n s \<noteq> []"
  by (simp add: read_chunks_def)

lemma full_entry_path: "full_entry c n ws p = Some e \<Longrightarrow> entry_path e = as_posix (rel_path p)"
  by (auto simp: full_entry_def directory_entry_def symlink_entry_def file_entry_def split: node.splits if_splits)

lemma full_entry_ok:
  assumes "crypto_documented c" "tree_ok ws" "datable ws" "map_of ws p = Some node" "full_entry c n ws p = Some e"
  shows "entry_ok e"
proof -
  have inc: "policy_includes (rel_path p)" using assms(5) by (auto simp: full_entry_def split: if_splits)
  then have ne: "p \<noteq> []" using root_not_included by metis
  have pp: "pure_path (as_posix (rel_path p)) = rel_path p"
    by (rule pure_path_as_posix [OF ne tree_names [OF assms(2,4)]])
  have "0 \<le> st_mtime_ns (node_meta node)" using assms(3,4) by (auto simp: datable_def)
  with assms inc pp tree_size [OF assms(2)] read_chunks_digests [OF assms(1)] show ?thesis
    by (cases node) (auto simp: full_entry_def entry_ok_def kind_ok_def directory_entry_def symlink_entry_def
        file_entry_def crypto_documented_def split: if_splits)
qed

lemma map_filter_set: "set (List.map_filter f xs) = {y. \<exists>x\<in>set xs. f x = Some y}"
  by (force simp: List.map_filter_def)

lemma distinct_full:
  assumes "tree_ok ws" "distinct ps" "\<forall>p\<in>set ps. \<exists>n. map_of ws p = Some n"
  shows "distinct (map entry_path (List.map_filter (full_entry c n ws) ps))"
  using assms(2,3)
proof (induction ps)
  case (Cons p ps)
  have "entry_path e \<noteq> entry_path e'"
    if "q \<in> set ps" "full_entry c n ws p = Some e" "full_entry c n ws q = Some e'" for q e e'
  proof -
    note q = that(1)
    have "p \<noteq> []" "q \<noteq> []"
      using that(2,3) root_not_included by (auto simp: full_entry_def)
    moreover obtain m where "map_of ws p = Some m" using Cons.prems by auto
    moreover obtain m' where "map_of ws q = Some m'" using Cons.prems(2) q by auto
    ultimately show ?thesis
      using join_inject [OF tree_names [OF assms(1)] tree_names [OF assms(1)]] Cons.prems(1) that(1)
      by (metis as_posix_rel distinct.simps(2) full_entry_path that(2,3))
  qed
  with Cons show ?case
    by (auto simp: map_filter_simps map_filter_set split: option.splits)
qed (simp add: map_filter_simps)

lemma full_entries_manifest:
  assumes "crypto_documented c" "tree_ok ws" "datable ws"
    "manifest_entries m = full_entries c n ws" "schema_version m = MANIFEST_SCHEMA_VERSION"
    "int (length (full_entries c n ws)) \<le> max_files d" "sum_list (map entry_size (full_entries c n ws)) \<le> max_bytes d"
  shows "manifest_ok d m"
proof -
  have "\<forall>e\<in>set (full_entries c n ws). entry_ok e"
    using walk_in_dom full_entry_ok [OF assms(1-3)] by (fastforce simp: full_entries_def map_filter_set)
  moreover have "distinct (map entry_path (full_entries c n ws))"
    using distinct_full [OF assms(2) distinct_walk ballI [OF walk_in_dom]]
    by (simp add: full_entries_def distinct_map)
  ultimately show ?thesis using assms by (simp add: manifest_ok_def full_entries_def)
qed

lemma build_decodes:
  assumes "crypto_documented c" "tree_ok ws" "datable ws" "honest c bd now_ns ws"
    "build c bd now_ns ws generation sid created = Inr b"
    "int (length (manifest_entries (built b))) \<le> max_files d"
    "sum_list (map entry_size (manifest_entries (built b))) \<le> max_bytes d"
  shows "decode d (to_json (built b)) sid generation = Inr (built b)"
proof -
  have b: "built b = \<lparr> schema_version = MANIFEST_SCHEMA_VERSION, manifest_generation = generation,
      manifest_sandbox = sid, created_at = created, manifest_entries = full_entries c (chunk_size bd) ws \<rparr>"
    by (rule build_entries [OF assms(4,5)])
  with assms have "manifest_ok d (built b)"
    by (intro full_entries_manifest [where n = "chunk_size bd"]) simp_all
  from decode_to_json [OF this] b show ?thesis by simp
qed

text \<open>
  (C26) The manifest a checkpoint of a workspace uploads is one the restore of any version with the
  same rules accepts: decoding it gives the same manifest, provided no modification time lies
  before 1970 and the restore limits are met.
\<close>

theorem built_manifest_decodes:
  assumes "crypto_documented c" "tree_ok ws" "datable ws" "honest c bd now_ns ws"
    "build c bd now_ns ws generation sid created = Inr b"
    "int (length (manifest_entries (built b))) \<le> max_files d"
    "sum_list (map entry_size (manifest_entries (built b))) \<le> max_bytes d"
  shows "decode d (to_json (built b)) sid generation = Inr (built b)"
  by (rule build_decodes [OF assms])

lemma read_entries_all: "read_entries d seen bytes items = Inr es \<Longrightarrow> item \<in> set items \<Longrightarrow> \<exists>r. read_entry item = Inr r"
proof (induction items arbitrary: seen bytes es)
  case (Cons i items)
  from Cons.prems(1) obtain r where r: "read_entry i = Inr r" by (auto simp: and_then_Inr)
  have "\<exists>seen' bytes' es'. read_entries d seen' bytes' items = Inr es'"
  proof (cases r)
    case None
    with Cons.prems(1) r show ?thesis by auto
  next
    case (Some e)
    with Cons.prems(1) r obtain es' where
      "read_entries d (entry_path e # seen) (bytes + entry_size e) items = Inr es'"
      by (cases "read_entries d (entry_path e # seen) (bytes + entry_size e) items") (auto split: if_splits)
    then show ?thesis by blast
  qed
  with Cons.IH Cons.prems(2) r show ?case by auto
qed simp

lemma old_entry_refused:
  assumes "entry_mtime_ns e < 0"
  shows "read_entry (sort_json (JObj (entry_as_dict e))) = Inl invalid_metadata"
proof -
  note m = map_of_sorted [OF distinct_dict [of e]]
  from assms have "entry_metadata (sort_key fst (entry_as_dict e)) = Inl invalid_metadata"
    by (simp add: entry_metadata_def get_key_def m map_of_dict)
  then show ?thesis by (simp add: sorted_dict read_entry_def del: sort_json.simps)
qed

text \<open>
  The builder records modification times as they are, and the decoder refuses one before
  1970: a single included file, directory or safe link of that age makes the whole generation
  unrestorable.
\<close>

theorem old_file_spoils_generation:
  assumes "honest c bd now_ns ws" "build c bd now_ns ws generation sid created = Inr b"
    "p \<in> set (walk ws)" "full_entry c (chunk_size bd) ws p = Some e" "entry_mtime_ns e < 0"
  shows "\<not> is_ok (decode d (to_json (built b)) sid generation)"
proof
  assume "is_ok (decode d (to_json (built b)) sid generation)"
  then obtain m es where "read_entries d [] 0 (map (\<lambda>e. sort_json (JObj (entry_as_dict e)))
      (manifest_entries (built b))) = Inr es"
    by (auto simp: is_ok_iff decode_def load_to_json get_sorted_doc and_then_Inr migrate_def
        migrate_loop.simps build_entries [OF assms(1,2)] split: if_splits)
  moreover have "e \<in> set (manifest_entries (built b))"
    using assms(3,4) by (auto simp: build_entries [OF assms(1,2)] full_entries_def map_filter_set)
  ultimately obtain r where "read_entry (sort_json (JObj (entry_as_dict e))) = Inr r"
    using read_entries_all by (metis (no_types, lifting) image_eqI set_map)
  with old_entry_refused [OF assms(5)] show False by simp
qed

subsection \<open>Incremental builds\<close>

lemma fold_set_default:
  "map_of (fold (\<lambda>x. set_default (f x) (g x)) xs m) k =
    (case map_of m k of Some v \<Rightarrow> Some v | None \<Rightarrow> map_option g (find (\<lambda>x. f x = k) xs))"
  by (induction xs arbitrary: m) (auto simp: set_default_def split: option.splits)

definition chunk_names_ok :: "crypto \<Rightarrow> (string \<times> string) list \<Rightarrow> bool" where
  "chunk_names_ok c m \<longleftrightarrow> (\<forall>d data. map_of m d = Some data \<longrightarrow> sha256_hex c data = d)"

lemma read_chunks_kept:
  "map_of m d \<noteq> None \<Longrightarrow> map_of (fold (\<lambda>data. set_default (sha256_hex c data) data) xs m) d \<noteq> None"
  by (auto simp: fold_set_default)

lemma read_chunks_added:
  "d \<in> sha256_hex c ` set xs \<Longrightarrow> map_of (fold (\<lambda>data. set_default (sha256_hex c data) data) xs m) d \<noteq> None"
  by (auto simp: fold_set_default find_None_iff simp del: not_None_eq split: option.splits)

lemma read_chunks_named:
  "chunk_names_ok c m \<Longrightarrow> chunk_names_ok c (fold (\<lambda>data. set_default (sha256_hex c data) data) xs m)"
  by (auto simp: chunk_names_ok_def fold_set_default find_Some_iff split: option.splits)

text \<open>What holds of a build in progress, after each path.\<close>

definition building_ok :: "crypto \<Rightarrow> builder \<Rightarrow> int \<Rightarrow> stat files \<Rightarrow> building \<Rightarrow> bool" where
  "building_ok c bd racy ws b \<longleftrightarrow>
     chunk_names_ok c (b_chunks b) \<and>
     (\<forall>e\<in>set (b_entries b). (\<forall>d\<in>set (entry_chunks e). map_of (b_chunks b) d \<noteq> None) \<or>
        (\<exists>stamp. committed bd (entry_path e) = Some (stamp, e))) \<and>
     (\<forall>k stamp e. b_stamps b k = Some (stamp, e) \<longrightarrow> e \<in> set (b_entries b) \<and>
        (\<exists>p st content. map_of ws p = Some (Regular st content) \<and> policy_includes (rel_path p) \<and>
           k = as_posix (rel_path p) \<and> stamp = stamp_of st \<and> e = file_entry c (chunk_size bd) p st content \<and>
           st_mtime_ns st < racy \<and> st_ctime_ns st < racy))"

lemma stamp_of_simps [simp]:
  "stamp_mtime_ns (stamp_of st) = st_mtime_ns st" "stamp_ctime_ns (stamp_of st) = st_ctime_ns st"
  by (simp_all add: stamp_of_def)

lemma building_ok_start [simp]: "building_ok c bd racy ws start_building"
  by (simp add: building_ok_def start_building_def chunk_names_ok_def)

lemma building_ok_plain:
  assumes "building_ok c bd racy ws b" "entry_chunks e = []"
  shows "building_ok c bd racy ws (b\<lparr>b_entries := b_entries b @ [e]\<rparr>)"
  using assms by (auto simp: building_ok_def)

lemma building_ok_read:
  assumes "building_ok c bd racy ws b" "map_of ws p = Some (Regular st content)" "policy_includes (rel_path p)"
  shows "building_ok c bd racy ws (read_file c (chunk_size bd) racy p st content b)"
proof -
  let ?b = "read_file c (chunk_size bd) racy p st content b"
  let ?e = "file_entry c (chunk_size bd) p st content"
  have ch: "b_chunks ?b = fold (\<lambda>data. set_default (sha256_hex c data) data) (read_chunks (chunk_size bd) content)
      (b_chunks b)" by (simp add: read_file_def Let_def)
  have 1: "chunk_names_ok c (b_chunks ?b)"
    using assms(1) unfolding ch building_ok_def by (intro read_chunks_named) simp
  have 2: "\<forall>d\<in>set (entry_chunks ?e). map_of (b_chunks ?b) d \<noteq> None"
    unfolding ch by (intro ballI read_chunks_added) (simp add: file_entry_def)
  have 3: "map_of (b_chunks ?b) d \<noteq> None" if "map_of (b_chunks b) d \<noteq> None" for d
    unfolding ch using that by (rule read_chunks_kept)
  have 4: "b_stamps ?b = (if st_mtime_ns st < racy \<and> st_ctime_ns st < racy
      then (b_stamps b)(as_posix (rel_path p) \<mapsto> (stamp_of st, ?e)) else b_stamps b)"
    by (simp add: read_file_def Let_def file_entry_def)
  show ?thesis
    unfolding building_ok_def
  proof (intro conjI)
    show "\<forall>e\<in>set (b_entries ?b). (\<forall>d\<in>set (entry_chunks e). map_of (b_chunks ?b) d \<noteq> None) \<or>
        (\<exists>stamp. committed bd (entry_path e) = Some (stamp, e))"
      using assms(1) 2 3 unfolding building_ok_def by (auto simp del: not_None_eq) blast+
    show "\<forall>k stamp e. b_stamps ?b k = Some (stamp, e) \<longrightarrow> e \<in> set (b_entries ?b) \<and>
        (\<exists>p st content. map_of ws p = Some (Regular st content) \<and> policy_includes (rel_path p) \<and>
           k = as_posix (rel_path p) \<and> stamp = stamp_of st \<and> e = file_entry c (chunk_size bd) p st content \<and>
           st_mtime_ns st < racy \<and> st_ctime_ns st < racy)"
      using assms unfolding 4 building_ok_def by auto
  qed (rule 1)
qed

lemma building_ok_path:
  assumes "building_ok c bd (now_ns - RACY_WINDOW_NS) ws b" "honest c bd now_ns ws" "map_of ws p = Some node"
  shows "building_ok c bd (now_ns - RACY_WINDOW_NS) ws (build_path c bd (now_ns - RACY_WINDOW_NS) ws p b)"
proof (cases "\<exists>st content. node = Regular st content \<and> policy_includes (rel_path p)")
  case False
  with assms show ?thesis
    by (cases node) (auto simp: build_path_def Let_def directory_entry_def symlink_entry_def
        intro!: building_ok_plain)
next
  case True
  then obtain st content where n: "node = Regular st content" "policy_includes (rel_path p)" by blast
  let ?racy = "now_ns - RACY_WINDOW_NS"
  have "building_ok c bd ?racy ws (build_file c bd ?racy p st content b)"
  proof (cases "\<exists>e. committed bd (as_posix (rel_path p)) = Some (stamp_of st, e)")
    case True
    then obtain e where e: "committed bd (as_posix (rel_path p)) = Some (stamp_of st, e)" by blast
    with assms(2,3) n have "e = file_entry c (chunk_size bd) p st content"
      "st_mtime_ns st < ?racy" "st_ctime_ns st < ?racy"
      unfolding honest_def by (metis stamp_of_simps)+
    moreover from this(1) have "entry_path e = as_posix (rel_path p)" by (simp add: file_entry_def)
    ultimately show ?thesis using assms(1,3) e n by (auto simp: build_file_def Let_def building_ok_def)
  next
    case False
    then have "build_file c bd ?racy p st content b = read_file c (chunk_size bd) ?racy p st content b"
      by (auto simp: build_file_def Let_def split: option.splits)
    with building_ok_read [OF assms(1)] assms(3) n show ?thesis by simp
  qed
  with n assms(3) show ?thesis by (simp add: build_path_def)
qed

lemma building_ok_fold:
  assumes "honest c bd now_ns ws" "\<forall>p\<in>set ps. \<exists>n. map_of ws p = Some n"
    "building_ok c bd (now_ns - RACY_WINDOW_NS) ws b"
  shows "building_ok c bd (now_ns - RACY_WINDOW_NS) ws (fold (build_path c bd (now_ns - RACY_WINDOW_NS) ws) ps b)"
  using assms(2,3)
proof (induction ps arbitrary: b)
  case (Cons p ps)
  then obtain n where "map_of ws p = Some n" by auto
  with Cons building_ok_path [OF Cons.prems(2) assms(1) this] show ?case by simp
qed simp

lemma build_building_ok:
  assumes "honest c bd now_ns ws" "build c bd now_ns ws generation sid created = Inr b"
  shows "building_ok c bd (now_ns - RACY_WINDOW_NS) ws
    \<lparr> b_entries = manifest_entries (built b), b_chunks = built_chunks b, b_stamps = built_stamps b \<rparr>"
proof -
  let ?b = "fold (build_path c bd (now_ns - RACY_WINDOW_NS) ws) (walk ws) start_building"
  have "building_ok c bd (now_ns - RACY_WINDOW_NS) ws ?b"
    by (rule building_ok_fold [OF assms(1) ballI [OF walk_in_dom] building_ok_start])
  moreover have "manifest_entries (built b) = sort_key entry_path (b_entries ?b)" "built_chunks b = b_chunks ?b"
    "built_stamps b = b_stamps ?b"
    using assms(2) by (auto simp: build_def Let_def split: if_splits)
  ultimately show ?thesis by (simp add: building_ok_def)
qed

text \<open>
  What the stamp is trusted for: a regular file with the same size, times, inode and mode as when
  it was read, and whose times were past the racy window then, has the same content.
\<close>

definition stamps_tell :: "int \<Rightarrow> stat files \<Rightarrow> stat files \<Rightarrow> bool" where
  "stamps_tell now_ns ws ws' \<longleftrightarrow>
     (\<forall>p st content st' content'. map_of ws p = Some (Regular st content) \<longrightarrow>
        map_of ws' p = Some (Regular st' content') \<longrightarrow> stamp_of st = stamp_of st' \<longrightarrow>
        st_mtime_ns st < now_ns - RACY_WINDOW_NS \<longrightarrow> st_ctime_ns st < now_ns - RACY_WINDOW_NS \<longrightarrow>
        content = content')"

lemma file_entry_stamp: "stamp_of st = stamp_of st' \<Longrightarrow> file_entry c n p st content = file_entry c n p st' content"
  by (simp add: stamp_of_def file_entry_def)

text \<open>
  (C25) Reusing the entries of the last committed generation changes nothing: the incremental build
  gives the manifest a build from scratch gives, every chunk its entries name was either read now
  or belongs to a reused entry, and remembering it is again safe for whatever the workspace
  becomes, as long as an unchanged stamp outside the racy window means unchanged content.
\<close>

theorem incremental_build_equals_full:
  assumes "honest c bd now_ns ws" "build c bd now_ns ws generation sid created = Inr b" "tree_ok ws"
  shows "(\<exists>fresh. build c (forget bd) now_ns ws generation sid created = Inr fresh \<and> built b = built fresh) \<and>
    (\<forall>e\<in>set (manifest_entries (built b)). (\<forall>d\<in>set (entry_chunks e). map_of (built_chunks b) d \<noteq> None) \<or>
        (\<exists>stamp. committed bd (entry_path e) = Some (stamp, e))) \<and>
    (\<forall>now' ws'. now_ns \<le> now' \<longrightarrow> tree_ok ws' \<longrightarrow> stamps_tell now_ns ws ws' \<longrightarrow>
        honest c (remember b bd) now' ws')"
proof (intro conjI allI impI)
  obtain fresh where f: "build c (forget bd) now_ns ws generation sid created = Inr fresh"
    using assms(2) by (auto simp: build_def Let_def split: if_splits)
  have "built b = built fresh"
    using build_entries [OF assms(1,2)] build_entries [OF honest_forget f] by (simp add: forget_def)
  with f show "\<exists>fresh. build c (forget bd) now_ns ws generation sid created = Inr fresh \<and> built b = built fresh"
    by blast
  have ok: "building_ok c bd (now_ns - RACY_WINDOW_NS) ws
    \<lparr> b_entries = manifest_entries (built b), b_chunks = built_chunks b, b_stamps = built_stamps b \<rparr>"
    by (rule build_building_ok [OF assms(1,2)])
  then show "\<forall>e\<in>set (manifest_entries (built b)). (\<forall>d\<in>set (entry_chunks e). map_of (built_chunks b) d \<noteq> None) \<or>
        (\<exists>stamp. committed bd (entry_path e) = Some (stamp, e))"
    by (simp add: building_ok_def)
  fix now' ws'
  assume n: "now_ns \<le> now'" and t: "tree_ok ws'" and s: "stamps_tell now_ns ws ws'"
  show "honest c (remember b bd) now' ws'"
    unfolding honest_def
  proof (intro allI impI)
    fix p' st' content' stamp e
    assume p': "map_of ws' p' = Some (Regular st' content')" "policy_includes (rel_path p')"
      "committed (remember b bd) (as_posix (rel_path p')) = Some (stamp, e)"
    then have "built_stamps b (as_posix (rel_path p')) = Some (stamp, e)" by (simp add: remember_def)
    with ok obtain p st content where p: "map_of ws p = Some (Regular st content)" "policy_includes (rel_path p)"
      "as_posix (rel_path p') = as_posix (rel_path p)" "stamp = stamp_of st"
      "e = file_entry c (chunk_size bd) p st content"
      "st_mtime_ns st < now_ns - RACY_WINDOW_NS" "st_ctime_ns st < now_ns - RACY_WINDOW_NS"
      unfolding building_ok_def by simp blast
    have "p \<noteq> []" "p' \<noteq> []" using p(2) p'(2) root_not_included by auto
    then have [simp]: "p' = p"
      using p(3) join_inject [OF tree_names [OF t p'(1)] tree_names [OF assms(3) p(1)]]
      by (simp add: as_posix_rel)
    have "e = file_entry c (chunk_size bd) p' st' content'" if "stamp = stamp_of st'"
      using s p p'(1) that file_entry_stamp [of st st'] unfolding stamps_tell_def by (metis \<open>p' = p\<close>)
    with p n show "stamp_mtime_ns stamp < now' - RACY_WINDOW_NS \<and> stamp_ctime_ns stamp < now' - RACY_WINDOW_NS \<and>
        (stamp = stamp_of st' \<longrightarrow> e = file_entry c (chunk_size (remember b bd)) p' st' content')"
      by (simp add: remember_def)
  qed
qed

subsection \<open>A concrete workspace\<close>

definition sample_digest :: "string \<Rightarrow> string" where
  "sample_digest m = pad 64 (fold (\<lambda>ch n. n * 256 + of_char ch + 1) m 0)"

definition sample_tag :: "string \<Rightarrow> string" where
  "sample_tag a = pad 16 (fold (\<lambda>ch n. n * 7 + of_char ch) a 0)"

definition sample_crypto :: crypto where
  "sample_crypto =
     \<lparr> sha256_hex = sample_digest, hmac_sha256 = (\<lambda>k m. replicate 32 (CHR ''n'')),
       aead_seal = (\<lambda>k n p a. p @ sample_tag a),
       aead_open = (\<lambda>k n ct a. if ends_with ct (sample_tag a) then Some (take (length ct - 16) ct) else None) \<rparr>"

lemma length_padded [simp]: "length (pad k n) = k"
  by (induction k arbitrary: n) simp_all

lemma digit_hex: "n < 10 \<Longrightarrow> is_hex (digit n)"
  by (auto simp: digit_def is_hex_def is_decimal_char_def)

lemma pad_hex: "list_all is_hex (pad k n)"
proof (induction k arbitrary: n)
  case (Suc k)
  have "is_hex (digit (n mod 10))"
    by (rule digit_hex) simp
  with Suc show ?case by simp
qed simp

lemma sample_crypto_documented: "crypto_documented sample_crypto"
  using pad_hex by (simp add: crypto_documented_def sample_crypto_def sample_digest_def sample_tag_def digest_pattern_def)

definition sample_stat :: "int \<Rightarrow> int \<Rightarrow> stat" where
  "sample_stat mode bytes = \<lparr> st_mode = mode, st_mtime_ns = 1000, st_ctime_ns = 1000, st_ino = 7, st_size = bytes \<rparr>"

definition sample_files :: "stat files" where
  "sample_files =
     [([], Directory (sample_stat 16877 4096)),
      ([''projects''], Directory (sample_stat 16877 4096)),
      ([''projects'', ''a''], Regular (sample_stat 33188 2) ''hi''),
      ([''projects'', ''up''], Symlink (sample_stat 41471 9) ''../../etc''),
      ([''projects'', ''z''], Symlink (sample_stat 41471 1) ''a''),
      ([''scratch''], Regular (sample_stat 33188 0) [])]"

definition sample_builder :: builder where
  "sample_builder = \<lparr> chunk_size = 1, committed = (\<lambda>k. None) \<rparr>"

definition sample_build :: built_manifest where
  "sample_build = projr (build sample_crypto sample_builder 9000000000 sample_files 3 ''sbx'' ''now'')"

lemma sample_tree: "tree_ok sample_files"
  by (simp add: tree_ok_def sample_files_def file_name_def sample_stat_def)

lemma sample_datable: "datable sample_files"
  by (simp add: datable_def sample_files_def sample_stat_def)

lemma sample_honest: "honest c sample_builder now_ns ws"
  by (simp add: honest_def sample_builder_def)

lemma sample_build: "build sample_crypto sample_builder 9000000000 sample_files 3 ''sbx'' ''now'' = Inr sample_build"
  by (simp add: sample_build_def build_def Let_def)

lemma sum_list_sorted [simp]: "sum_list (map f (sort_key k xs)) = sum_list (map f xs)"
  for f :: "'a \<Rightarrow> 'b::comm_monoid_add"
  by (metis mset_map mset_sort sum_mset_sum_list)

lemma sample_walk: "walk sample_files =
    [[''projects''], [''projects'', ''a''], [''projects'', ''up''], [''projects'', ''z'']]"
  by code_simp

lemma sample_included:
  "policy_includes (rel_path [''projects''])" "policy_includes (rel_path [''projects'', ''a''])"
  "policy_includes (rel_path [''projects'', ''up''])" "policy_includes (rel_path [''projects'', ''z''])"
  "policy_includes (rel_path [''memory''])"
  by code_simp+

lemma sample_links:
  "\<not> safe_symlink_target (rel_path [''projects'', ''up'']) (as_posix (pure_path ''../../etc''))"
  "safe_symlink_target (rel_path [''projects'', ''z'']) ''a''"
  "as_posix (pure_path ''a'') = ''a''"
  by code_simp+

lemma sample_tree_entries:
  "length (full_entries sample_crypto 1 sample_files) = 3"
  "sum_list (map entry_size (full_entries sample_crypto 1 sample_files)) = 3"
  unfolding full_entries_def sample_walk
  by (simp_all add: map_filter_simps full_entry_def sample_included sample_links
      sample_files_def sample_stat_def directory_entry_def file_entry_def symlink_entry_def utf8_encode_def
      utf8_char_def)

lemma sample_manifest: "manifest_entries (built sample_build) = full_entries sample_crypto 1 sample_files"
  using build_entries [OF sample_honest sample_build] by (simp add: sample_builder_def)

theorem built_manifest_decodes_witness:
  "decode \<lparr> max_files = 3, max_bytes = 3 \<rparr> (to_json (built sample_build)) ''sbx'' 3 = Inr (built sample_build)"
  by (rule built_manifest_decodes [OF sample_crypto_documented sample_tree sample_datable sample_honest sample_build])
    (simp_all add: sample_manifest sample_tree_entries [simplified])

definition old_files :: "stat files" where
  "old_files =
     [([], Directory (sample_stat 16877 4096)),
      ([''memory''], Directory ((sample_stat 16877 4096)\<lparr>st_mtime_ns := -1\<rparr>))]"

definition old_build :: built_manifest where
  "old_build = projr (build sample_crypto sample_builder 9000000000 old_files 3 ''sbx'' ''now'')"

theorem old_file_spoils_generation_witness: "\<not> is_ok (decode \<lparr> max_files = 3, max_bytes = 3 \<rparr> (to_json (built old_build)) ''sbx'' 3)"
proof (rule old_file_spoils_generation [OF sample_honest])
  show "build sample_crypto sample_builder 9000000000 old_files 3 ''sbx'' ''now'' = Inr old_build"
    by (simp add: old_build_def build_def Let_def)
  show "[''memory''] \<in> set (walk old_files)" by code_simp
  show "full_entry sample_crypto (chunk_size sample_builder) old_files [''memory''] =
    Some (directory_entry [''memory''] ((sample_stat 16877 4096)\<lparr>st_mtime_ns := -1\<rparr>))"
    by (simp add: full_entry_def sample_included old_files_def)
  show "entry_mtime_ns (directory_entry [''memory''] ((sample_stat 16877 4096)\<lparr>st_mtime_ns := -1\<rparr>)) < 0"
    by (simp add: directory_entry_def)
qed

theorem incremental_build_equals_full_witness:
  "honest sample_crypto (remember sample_build sample_builder) 9000000000 sample_files"
  using incremental_build_equals_full [OF sample_honest sample_build sample_tree] sample_tree
  by (auto simp: stamps_tell_def)

end
