(* ===== verification/CheckpointProperties.thy ===== *)
theory CheckpointProperties
  imports Checkpoint ManifestProperties
begin

text \<open>
  The checkpoint engine against an interface of its store: what a checkpoint commits is complete,
  whatever call fails.  The interface is a locale over three views of the store (the chunks, the
  manifests and the commits), interpreted on the in-memory store and, through the interface of
  the broker, on the brokered store.
\<close>

section \<open>Complete stores\<close>

text \<open>
  Every chunk opens, and every committed generation has its manifest, which opens to the text of a
  manifest of that generation and sandbox, all of whose chunks are present.
\<close>

definition complete_generation ::
  "crypto \<Rightarrow> sandbox_cipher \<Rightarrow> string \<Rightarrow> (string \<Rightarrow> string option) \<Rightarrow> (int \<Rightarrow> encrypted_blob option) \<Rightarrow> int \<Rightarrow> string \<Rightarrow> bool"
where
  "complete_generation c sc sid chunk_of manifest_of g m \<longleftrightarrow>
     (\<exists>blob mf. manifest_of g = Some blob \<and> blob_digest blob = m \<and> decrypt c sc blob = Inr (to_json mf) \<and>
        manifest_generation mf = g \<and> manifest_sandbox mf = sid \<and>
        (\<forall>e\<in>set (manifest_entries mf). \<forall>d\<in>set (entry_chunks e). chunk_of d \<noteq> None))"

definition complete_store ::
  "crypto \<Rightarrow> sandbox_cipher \<Rightarrow> string \<Rightarrow> (string \<Rightarrow> string option) \<Rightarrow> (int \<Rightarrow> encrypted_blob option) \<Rightarrow> (int \<Rightarrow> string option) \<Rightarrow> bool"
where
  "complete_store c sc sid chunk_of manifest_of commit_of \<longleftrightarrow>
     (\<forall>d ct. chunk_of d = Some ct \<longrightarrow> is_ok (decrypt c sc \<lparr> blob_digest = d, blob_ciphertext = ct \<rparr>)) \<and>
     (\<forall>g m. commit_of g = Some m \<longrightarrow> complete_generation c sc sid chunk_of manifest_of g m)"

text \<open>Every entry the builder may reuse names chunks that are in the store.\<close>

definition baseline_durable :: "baseline \<Rightarrow> (string \<Rightarrow> string option) \<Rightarrow> bool" where
  "baseline_durable bl chunk_of \<longleftrightarrow>
     (\<forall>k stamp e. bl k = Some (stamp, e) \<longrightarrow> (\<forall>d\<in>set (entry_chunks e). chunk_of d \<noteq> None))"

lemma complete_generation_mono:
  "complete_generation c sc sid ch mf g m \<Longrightarrow> dom ch \<subseteq> dom ch' \<Longrightarrow> complete_generation c sc sid ch' mf g m"
  unfolding complete_generation_def dom_def by blast

lemma complete_generation_other:
  "complete_generation c sc sid ch (mf(g' := b)) g m \<longleftrightarrow> complete_generation c sc sid ch mf g m" if "g \<noteq> g'"
  using that by (simp add: complete_generation_def)

lemma baseline_durable_mono: "baseline_durable bl ch \<Longrightarrow> dom ch \<subseteq> dom ch' \<Longrightarrow> baseline_durable bl ch'"
  unfolding baseline_durable_def dom_def by blast

section \<open>The interface of a checkpoint store\<close>

locale checkpoint_protocol =
  fixes ops :: "'s store_ops"
    and good :: "'s \<Rightarrow> bool"
    and chunk_of :: "'s \<Rightarrow> string \<Rightarrow> string option"
    and manifest_of :: "'s \<Rightarrow> int \<Rightarrow> encrypted_blob option"
    and commit_of :: "'s \<Rightarrow> int \<Rightarrow> string option"
  assumes has_chunk_law: "\<And>s d s' r. \<lbrakk>good s; op_has_chunk ops d s = (s', r)\<rbrakk> \<Longrightarrow>
      good s' \<and> chunk_of s' = chunk_of s \<and> manifest_of s' = manifest_of s \<and> commit_of s' = commit_of s \<and>
      (r = Inr True \<longrightarrow> chunk_of s d \<noteq> None)"
    and prefetch_law: "\<And>s ds s' r. \<lbrakk>good s; op_prefetch_uploads ops ds s = (s', r)\<rbrakk> \<Longrightarrow>
      good s' \<and> chunk_of s' = chunk_of s \<and> manifest_of s' = manifest_of s \<and> commit_of s' = commit_of s"
    and upload_chunk_law: "\<And>s d ct s' r. \<lbrakk>good s; op_upload_chunk ops d ct s = (s', r)\<rbrakk> \<Longrightarrow>
      good s' \<and> manifest_of s' = manifest_of s \<and> commit_of s' = commit_of s \<and>
      (chunk_of s' = chunk_of s \<or> chunk_of s' = (chunk_of s)(d \<mapsto> ct)) \<and>
      (is_ok r \<longrightarrow> chunk_of s' d \<noteq> None)"
    and upload_manifest_law: "\<And>s g blob s' r. \<lbrakk>good s; op_upload_manifest ops g blob s = (s', r)\<rbrakk> \<Longrightarrow>
      good s' \<and> chunk_of s' = chunk_of s \<and> commit_of s' = commit_of s \<and>
      (manifest_of s' = manifest_of s \<or> manifest_of s' = (manifest_of s)(g \<mapsto> blob)) \<and>
      (is_ok r \<longrightarrow> manifest_of s' g = Some blob)"
    and commit_law: "\<And>s now g m s' r. \<lbrakk>good s; digest_pattern m; valid_time now; op_commit_generation ops now g m s = (s', r)\<rbrakk> \<Longrightarrow>
      good s' \<and> chunk_of s' = chunk_of s \<and> manifest_of s' = manifest_of s \<and>
      (commit_of s' = commit_of s \<or>
       commit_of s' = (commit_of s)(g \<mapsto> m) \<and> (\<forall>g'. commit_of s g' \<noteq> None \<longrightarrow> g' < g) \<and>
         map_option blob_digest (manifest_of s g) = Some m) \<and>
      (is_ok r \<longrightarrow> commit_of s' g = Some m)"
begin

text \<open>Nothing durable is lost, and what is new in the chunks is a sealed chunk of that name.\<close>

definition grown :: "crypto \<Rightarrow> sandbox_cipher \<Rightarrow> 's \<Rightarrow> 's \<Rightarrow> bool" where
  "grown c sc s s' \<longleftrightarrow> good s' \<and> manifest_of s' = manifest_of s \<and> commit_of s' = commit_of s \<and>
     dom (chunk_of s) \<subseteq> dom (chunk_of s') \<and>
     (\<forall>d ct. chunk_of s' d = Some ct \<longrightarrow> chunk_of s d = Some ct \<or>
        (\<exists>p. encrypt c sc p = \<lparr> blob_digest = d, blob_ciphertext = ct \<rparr>))"

lemma grown_refl: "good s \<Longrightarrow> grown c sc s s"
  by (auto simp: grown_def)

lemma grown_trans: "grown c sc s s' \<Longrightarrow> grown c sc s' s'' \<Longrightarrow> grown c sc s s''"
  unfolding grown_def by (metis subset_trans)

lemma has_chunk_grown: "good s \<Longrightarrow> op_has_chunk ops d s = (s', r) \<Longrightarrow> grown c sc s s'"
  using has_chunk_law by (auto simp: grown_def)

lemma missing_grown:
  assumes "missing_chunks ops chunks s = (s', r)" "good s"
  shows "grown c sc s s' \<and> chunk_of s' = chunk_of s \<and>
    (\<forall>missing. r = Inr missing \<longrightarrow> set missing \<subseteq> set chunks \<and>
      (\<forall>(d, p)\<in>set chunks. (d, p) \<in> set missing \<or> chunk_of s d \<noteq> None))"
  using assms
proof (induction chunks arbitrary: s s' r)
  case Nil
  then show ?case using grown_refl by auto
next
  case (Cons dp rest)
  obtain d p where dp: "dp = (d, p)" by (cases dp)
  obtain s1 r1 where h: "op_has_chunk ops d s = (s1, r1)" by (cases "op_has_chunk ops d s")
  note law = has_chunk_law [OF Cons.prems(2) h]
  have g1: "grown c sc s s1" by (rule has_chunk_grown [OF Cons.prems(2) h])
  show ?case
  proof (cases r1)
    case (Inl e)
    with Cons.prems(1) dp h g1 law show ?thesis by auto
  next
    case (Inr present)
    obtain s2 r2 where m: "missing_chunks ops rest s1 = (s2, r2)" by (cases "missing_chunks ops rest s1")
    from law have "good s1" by simp
    from Cons.IH [OF m this] have IH: "grown c sc s1 s2" "chunk_of s2 = chunk_of s1"
      "\<forall>missing. r2 = Inr missing \<longrightarrow> set missing \<subseteq> set rest \<and>
        (\<forall>(d, p)\<in>set rest. (d, p) \<in> set missing \<or> chunk_of s1 d \<noteq> None)" by blast+
    have s2: "s' = s2" using Cons.prems(1) dp h m Inr by (cases r2) auto
    show ?thesis
    proof (cases r2)
      case (Inl e)
      with Cons.prems(1) dp h m Inr g1 IH law s2 grown_trans [OF g1 IH(1)] show ?thesis by auto
    next
      case (Inr missing)
      with Cons.prems(1) dp h m \<open>r1 = Inr present\<close> have "r = Inr (if present then missing else (d, p) # missing)"
        by simp
      with Inr IH law \<open>r1 = Inr present\<close> s2 dp grown_trans [OF g1 IH(1)] show ?thesis
        by (auto split: if_splits)
    qed
  qed
qed

lemma upload_one_grown:
  assumes "upload_one c sc ops d p s = (s', r)" "good s"
  shows "grown c sc s s' \<and> (is_ok r \<longrightarrow> chunk_of s' d \<noteq> None)"
proof (cases "blob_digest (encrypt c sc p) = d")
  case False
  with assms show ?thesis using grown_refl by (auto simp: upload_one_def Let_def)
next
  case True
  let ?ct = "blob_ciphertext (encrypt c sc p)"
  from True assms(1) have u: "op_upload_chunk ops d ?ct s = (s', r)" by (simp add: upload_one_def Let_def)
  have "\<exists>p. encrypt c sc p = \<lparr> blob_digest = d, blob_ciphertext = ?ct \<rparr>"
    using True by (intro exI [of _ p]) simp
  with upload_chunk_law [OF assms(2) u] show ?thesis by (auto simp: grown_def split: if_splits)
qed

lemma upload_all_grown:
  assumes "upload_all c sc ops chunks s = (s', r)" "good s"
  shows "grown c sc s s' \<and> (is_ok r \<longrightarrow> (\<forall>(d, p)\<in>set chunks. chunk_of s' d \<noteq> None))"
  using assms
proof (induction chunks arbitrary: s)
  case Nil
  then show ?case using grown_refl by auto
next
  case (Cons dp rest)
  obtain d p where dp: "dp = (d, p)" by (cases dp)
  obtain s1 r1 where u: "upload_one c sc ops d p s = (s1, r1)" by (cases "upload_one c sc ops d p s")
  note one = upload_one_grown [OF u Cons.prems(2)]
  show ?case
  proof (cases r1)
    case (Inl e)
    with Cons.prems dp u one show ?thesis by auto
  next
    case (Inr x)
    with Cons.prems(1) dp u have rest: "upload_all c sc ops rest s1 = (s', r)" by simp
    from one have "good s1" by (simp add: grown_def)
    from Cons.IH [OF rest this] one Inr dp grown_trans [of c sc s s1 s'] show ?thesis
      by (auto simp: grown_def)
  qed
qed

lemma upload_chunks_grown:
  assumes "upload_chunks c sc ops order chunks s = (s', r)" "good s" "\<And>ds. set (order ds) = set ds"
  shows "grown c sc s s' \<and> (is_ok r \<longrightarrow> (\<forall>d. map_of chunks d \<noteq> None \<longrightarrow> chunk_of s' d \<noteq> None))"
proof -
  obtain s1 r1 where m: "missing_chunks ops (sort_key fst chunks) s = (s1, r1)"
    by (cases "missing_chunks ops (sort_key fst chunks) s")
  note mg = missing_grown [OF m assms(2), of c sc]
  then have g1: "good s1" by (simp add: grown_def)
  show ?thesis
  proof (cases r1)
    case (Inl e)
    with assms(1) m mg show ?thesis by (auto simp: upload_chunks_def)
  next
    case (Inr missing)
    have there: "chunk_of s d \<noteq> None \<or> map_of missing d \<noteq> None" if "map_of chunks d \<noteq> None" for d
    proof -
      from that obtain p where "(d, p) \<in> set chunks" by (auto dest: map_of_SomeD)
      with mg Inr have "(d, p) \<in> set missing \<or> chunk_of s d \<noteq> None" by auto
      then show ?thesis by (auto dest: weak_map_of_SomeI)
    qed
    show ?thesis
    proof (cases "missing = []")
      case True
      with assms(1) m Inr mg there show ?thesis by (auto simp: upload_chunks_def)
    next
      case False
      obtain s2 r2 where p: "op_prefetch_uploads ops (map fst missing) s1 = (s2, r2)"
        by (cases "op_prefetch_uploads ops (map fst missing) s1")
      have g2: "grown c sc s s2"
        using prefetch_law [OF g1 p] mg grown_trans [of c sc s s1 s2] by (auto simp: grown_def)
      show ?thesis
      proof (cases r2)
        case (Inl e)
        with assms(1) m Inr \<open>r1 = Inr missing\<close> False p g2 show ?thesis by (auto simp: upload_chunks_def)
      next
        case (Inr u)
        with assms(1) m \<open>r1 = Inr missing\<close> False p
        have a: "upload_all c sc ops (in_order order missing) s2 = (s', r)" by (simp add: upload_chunks_def)
        from g2 have "good s2" by (simp add: grown_def)
        note ag = upload_all_grown [OF a this]
        have "\<exists>p. (d, p) \<in> set (in_order order missing)" if "map_of missing d \<noteq> None" for d
        proof -
          from that have "d \<in> fst ` set missing" by (simp add: map_of_eq_None_iff)
          then have "d \<in> set (order (map fst missing))" by (simp add: assms(3))
          with that show ?thesis by (auto simp: in_order_def map_filter_set)
        qed
        with ag have up: "is_ok r \<Longrightarrow> map_of missing d \<noteq> None \<Longrightarrow> chunk_of s' d \<noteq> None" for d by fast
        from ag g2 have g: "grown c sc s s'" using grown_trans by blast
        then have keep: "chunk_of s d \<noteq> None \<Longrightarrow> chunk_of s' d \<noteq> None" for d by (auto simp: grown_def dom_def)
        show ?thesis using g up keep there by blast
      qed
    qed
  qed
qed

text \<open>The engine keeps what its store holds complete.\<close>

definition sound :: "'s engine \<Rightarrow> 's engine_state \<Rightarrow> bool" where
  "sound en st \<longleftrightarrow> good (es_store st) \<and>
     complete_store (en_crypto en) (en_cipher en) (en_sandbox en) (chunk_of (es_store st))
       (manifest_of (es_store st)) (commit_of (es_store st)) \<and>
     baseline_durable (committed (es_builder st)) (chunk_of (es_store st))"

text \<open>What a step may do: commits of other generations stay, no chunk goes away.\<close>

definition advances :: "int \<Rightarrow> 's engine_state \<Rightarrow> 's engine_state \<Rightarrow> bool" where
  "advances generation st st' \<longleftrightarrow> dom (chunk_of (es_store st)) \<subseteq> dom (chunk_of (es_store st')) \<and>
     (\<forall>g. g \<noteq> generation \<longrightarrow> commit_of (es_store st') g = commit_of (es_store st) g)"

lemma advances_refl [simp]: "advances g st st"
  by (simp add: advances_def)

lemma advances_trans: "advances g st st' \<Longrightarrow> advances g st' st'' \<Longrightarrow> advances g st st''"
  unfolding advances_def by (metis subset_trans)

lemma complete_grown:
  assumes "crypto_documented c" "grown c sc s s'"
    "complete_store c sc sid (chunk_of s) (manifest_of s) (commit_of s)"
  shows "complete_store c sc sid (chunk_of s') (manifest_of s') (commit_of s')"
proof -
  have "is_ok (decrypt c sc \<lparr> blob_digest = d, blob_ciphertext = ct \<rparr>)" if "chunk_of s' d = Some ct" for d ct
  proof -
    from assms(2) that consider "chunk_of s d = Some ct"
      | p where "encrypt c sc p = \<lparr> blob_digest = d, blob_ciphertext = ct \<rparr>"
      unfolding grown_def by blast
    then show ?thesis
    proof cases
      case 1
      with assms(3) show ?thesis by (simp add: complete_store_def)
    next
      case 2
      with decrypt_encrypt [OF assms(1), of sc p] show ?thesis by simp
    qed
  qed
  moreover have "complete_generation c sc sid (chunk_of s') (manifest_of s') g m" if "commit_of s' g = Some m" for g m
    using complete_generation_mono [of c sc sid "chunk_of s" "manifest_of s" g m "chunk_of s'"] assms(2,3) that
    by (simp add: complete_store_def grown_def)
  ultimately show ?thesis by (simp add: complete_store_def)
qed

lemma sound_grown:
  assumes "crypto_documented (en_crypto en)" "sound en st" "grown (en_crypto en) (en_cipher en) (es_store st) s'"
  shows "sound en (st\<lparr>es_store := s'\<rparr>) \<and> advances g st (st\<lparr>es_store := s'\<rparr>)"
  using assms complete_grown [OF assms(1,3)] baseline_durable_mono
  by (fastforce simp: sound_def advances_def grown_def)

lemma upload_manifest_sound:
  assumes "sound en st" "commit_of (es_store st) g = None"
    "op_upload_manifest ops g blob (es_store st) = (s', r)"
  shows "sound en (st\<lparr>es_store := s'\<rparr>) \<and> advances g st (st\<lparr>es_store := s'\<rparr>) \<and>
    commit_of s' g = None \<and> chunk_of s' = chunk_of (es_store st) \<and> (is_ok r \<longrightarrow> manifest_of s' g = Some blob)"
proof -
  have "good (es_store st)" using assms(1) by (simp add: sound_def)
  note law = upload_manifest_law [OF this assms(3)]
  have "complete_generation c sc sid ch (manifest_of s') g' m"
    if "complete_generation c sc sid ch (manifest_of (es_store st)) g' m" "g' \<noteq> g" for c sc sid ch g' m
    using that law by (auto simp: complete_generation_other)
  with assms law show ?thesis
    unfolding sound_def complete_store_def advances_def by (auto; metis option.distinct(1))
qed

lemma commit_sound:
  assumes "sound en st" "commit_of (es_store st) g = None" "manifest_of (es_store st) g = Some blob"
    "decrypt (en_crypto en) (en_cipher en) blob = Inr (to_json mf)" "manifest_generation mf = g"
    "manifest_sandbox mf = en_sandbox en"
    "\<forall>e\<in>set (manifest_entries mf). \<forall>d\<in>set (entry_chunks e). chunk_of (es_store st) d \<noteq> None"
    "op_commit_generation ops now g (blob_digest blob) (es_store st) = (s', r)"
    "digest_pattern (blob_digest blob)" "valid_time now"
  shows "sound en (st\<lparr>es_store := s'\<rparr>) \<and> advances g st (st\<lparr>es_store := s'\<rparr>) \<and>
    chunk_of s' = chunk_of (es_store st) \<and> manifest_of s' = manifest_of (es_store st) \<and>
    (is_ok r \<longrightarrow> commit_of s' g = Some (blob_digest blob))"
proof -
  have "good (es_store st)" using assms(1) by (simp add: sound_def)
  note law = commit_law [OF this assms(9,10,8)]
  have "complete_generation (en_crypto en) (en_cipher en) (en_sandbox en) (chunk_of (es_store st))
      (manifest_of (es_store st)) g (blob_digest blob)"
    using assms(3-7) unfolding complete_generation_def by blast
  with assms(1) law show ?thesis
    by (auto simp: sound_def complete_store_def advances_def split: if_splits)
qed

lemma commit_part_sound:
  assumes "commit_part en x generation b st = (st', r)" "en_store en = ops" "crypto_documented (en_crypto en)"
    "\<And>ds. set (run_order x ds) = set ds" "sound en st" "commit_of (es_store st) generation = None"
    "manifest_generation (built b) = generation" "manifest_sandbox (built b) = en_sandbox en"
    "\<forall>e\<in>set (manifest_entries (built b)). (\<forall>d\<in>set (entry_chunks e). map_of (built_chunks b) d \<noteq> None) \<or>
        (\<exists>stamp. committed (es_builder st) (entry_path e) = Some (stamp, e))"
    "valid_time (at_start x)"
  shows "sound en st' \<and> advances generation st st' \<and> es_builder st' = es_builder st \<and>
    es_journal st' = es_journal st \<and> es_gateway_paused st' = es_gateway_paused st \<and> es_holding st' = es_holding st \<and>
    (\<forall>m. r = Inr m \<longrightarrow> commit_of (es_store st') generation = Some m \<and>
      manifest_of (es_store st') generation = Some (encrypt (en_crypto en) (en_cipher en) (to_json (built b))) \<and>
      m = blob_digest (encrypt (en_crypto en) (en_cipher en) (to_json (built b))) \<and>
      (\<forall>e\<in>set (manifest_entries (built b)). \<forall>d\<in>set (entry_chunks e). chunk_of (es_store st') d \<noteq> None))"
proof -
  let ?c = "en_crypto en" and ?sc = "en_cipher en"
  let ?blob = "encrypt ?c ?sc (to_json (built b))"
  obtain s1 r1 where u: "upload_chunks ?c ?sc ops (run_order x) (built_chunks b) (es_store st) = (s1, r1)"
    by (cases "upload_chunks ?c ?sc ops (run_order x) (built_chunks b) (es_store st)")
  have "good (es_store st)" using assms(5) by (simp add: sound_def)
  note g1 = upload_chunks_grown [OF u this assms(4)]
  let ?st1 = "st\<lparr>es_store := s1\<rparr>"
  have s1: "sound en ?st1" "advances generation st ?st1" using sound_grown [OF assms(3,5)] g1 by blast+
  have n1: "commit_of s1 generation = None" using g1 assms(6) by (simp add: grown_def)
  have ch: "\<forall>e\<in>set (manifest_entries (built b)). \<forall>d\<in>set (entry_chunks e). chunk_of s1 d \<noteq> None" if "is_ok r1"
    using g1 that assms(9) s1(1) unfolding sound_def baseline_durable_def by auto
  obtain s2 r2 where m: "op_upload_manifest ops generation ?blob s1 = (s2, r2)"
    by (cases "op_upload_manifest ops generation ?blob s1")
  have m2: "sound en (st\<lparr>es_store := s2\<rparr>)" "advances generation ?st1 (st\<lparr>es_store := s2\<rparr>)"
    "commit_of s2 generation = None" "chunk_of s2 = chunk_of s1" "is_ok r2 \<Longrightarrow> manifest_of s2 generation = Some ?blob"
    using upload_manifest_sound [OF s1(1), of generation ?blob s2 r2] n1 m by auto
  obtain s3 r3 where k: "op_commit_generation ops (at_start x) generation (blob_digest ?blob) s2 = (s3, r3)"
    by (cases "op_commit_generation ops (at_start x) generation (blob_digest ?blob) s2")
  have k3: "sound en (st\<lparr>es_store := s3\<rparr>) \<and> advances generation (st\<lparr>es_store := s2\<rparr>) (st\<lparr>es_store := s3\<rparr>) \<and>
    chunk_of s3 = chunk_of s2 \<and> manifest_of s3 = manifest_of s2 \<and> (is_ok r3 \<longrightarrow> commit_of s3 generation = Some (blob_digest ?blob))"
    if "is_ok r1" "is_ok r2"
    using commit_sound [OF m2(1), of generation ?blob "built b" "at_start x" s3 r3] that ch m2 k
      decrypt_encrypt [OF assms(3)] assms(3,7,8,10) by (simp add: crypto_documented_def)
  have adv: "advances generation st (st\<lparr>es_store := s2\<rparr>)" by (rule advances_trans [OF s1(2) m2(2)])
  note simps = commit_part_def assms(2) on_store_def u m k k [unfolded blob_digest_encrypt] Let_def
  consider "\<not> is_ok r1" | "is_ok r1" "\<not> is_ok (run_inject x ''chunks_uploaded'')"
    | "is_ok r1" "is_ok (run_inject x ''chunks_uploaded'')" "\<not> is_ok r2"
    | "is_ok r1" "is_ok (run_inject x ''chunks_uploaded'')" "is_ok r2" "\<not> is_ok (run_inject x ''manifest_uploaded'')"
    | "is_ok r1" "is_ok (run_inject x ''chunks_uploaded'')" "is_ok r2" "is_ok (run_inject x ''manifest_uploaded'')"
    by blast
  then show ?thesis
  proof cases
    case 1
    with assms(1) s1 show ?thesis by (cases r1) (auto simp: simps)
  next
    case 2
    with assms(1) s1 show ?thesis by (cases "run_inject x ''chunks_uploaded''") (auto simp: simps is_ok_iff)
  next
    case 3
    with assms(1) m2 adv show ?thesis by (cases r2) (auto simp: simps is_ok_iff)
  next
    case 4
    with assms(1) m2 adv show ?thesis by (cases "run_inject x ''manifest_uploaded''") (auto simp: simps is_ok_iff)
  next
    case 5
    then show ?thesis
      using assms(1) k3 ch m2(4,5) advances_trans [OF adv] by (cases r3) (auto simp: simps is_ok_iff)
  qed
qed

lemma finish_part_kept:
  assumes "finish_part en x generation snap b digest st = (st', r)" "sound en st"
    "commit_of (es_store st) generation = Some digest"
    "baseline_durable (built_stamps b) (chunk_of (es_store st))"
  shows "sound en st' \<and> es_store st' = es_store st \<and> es_gateway_paused st' = es_gateway_paused st \<and>
    es_holding st' = es_holding st \<and>
    (\<forall>rc. r = Inr rc \<longrightarrow> rc_generation rc = generation \<and> rc_manifest_digest rc = digest \<and> es_read_only st' = False)"
  using assms unfolding finish_part_def Let_def
  by (auto simp: sound_def remember_def elim!: trying_elim)

lemma stamps_durable:
  assumes "honest c bd now_ns ws" "build c bd now_ns ws generation sid created = Inr b"
    "\<forall>e\<in>set (manifest_entries (built b)). \<forall>d\<in>set (entry_chunks e). ch d \<noteq> None"
  shows "baseline_durable (built_stamps b) ch"
  using build_building_ok [OF assms(1,2)] assms(3) unfolding baseline_durable_def building_ok_def
  by auto

lemma prepare_part_same:
  assumes "prepare_part en x generation final st = (st', r)"
  shows "es_store st' = es_store st \<and> es_builder st' = es_builder st \<and>
    set (events (es_journal st)) \<subseteq> set (events (es_journal st')) \<and>
    (\<forall>b. r = Inr b \<longrightarrow> build (en_crypto en) (es_builder st) (at_build_ns x) (run_files x) generation (en_sandbox en)
         (timestamp (at_start x)) = Inr b)"
proof -
  have grow: "set (events j) \<subseteq> set (events (mark_all ws j))" for ws j
    using mark_all_grows [of j ws] by auto
  show ?thesis
    using assms unfolding prepare_part_def
    by (elim then_do_elim trying_elim)
      (auto simp: pause_gateway_def resume_gateway_def intro: subsetD [OF grow] split: sum.splits if_splits)
qed

lemma checkpoint_body_kept:
  assumes "checkpoint_body en x generation final snap st = (st', r)" "en_store en = ops"
    "crypto_documented (en_crypto en)" "\<And>ds. set (run_order x ds) = set ds" "sound en st"
    "commit_of (es_store st) generation = None"
    "honest (en_crypto en) (es_builder st) (at_build_ns x) (run_files x)" "valid_time (at_start x)"
  shows "sound en st' \<and> advances generation st st' \<and>
    (commit_of (es_store st') generation = None \<longrightarrow> set (events (es_journal st)) \<subseteq> set (events (es_journal st'))) \<and>
    (\<forall>rc. r = Inr rc \<longrightarrow> rc_generation rc = generation \<and>
       commit_of (es_store st') generation = Some (rc_manifest_digest rc) \<and>
       (\<exists>b. build (en_crypto en) (es_builder st) (at_build_ns x) (run_files x) generation (en_sandbox en)
              (timestamp (at_start x)) = Inr b \<and>
          manifest_of (es_store st') generation = Some (encrypt (en_crypto en) (en_cipher en) (to_json (built b))) \<and>
          rc_manifest_digest rc = blob_digest (encrypt (en_crypto en) (en_cipher en) (to_json (built b))) \<and>
          (\<forall>e\<in>set (manifest_entries (built b)). \<forall>d\<in>set (entry_chunks e). chunk_of (es_store st') d \<noteq> None)))"
proof -
  obtain st1 r1 where p: "prepare_part en x generation final st = (st1, r1)"
    by (cases "prepare_part en x generation final st")
  note same = prepare_part_same [OF p]
  have s1: "sound en st1" "advances generation st st1" "commit_of (es_store st1) generation = None"
    using same assms(5,6) by (simp_all add: sound_def advances_def)
  show ?thesis
  proof (cases r1)
    case (Inl e)
    with assms(1) p same s1 show ?thesis by (auto simp: checkpoint_body_def)
  next
    case (Inr b)
    with same have b: "build (en_crypto en) (es_builder st) (at_build_ns x) (run_files x) generation (en_sandbox en)
         (timestamp (at_start x)) = Inr b" by simp
    note ok = build_building_ok [OF assms(7) b]
    have head: "manifest_generation (built b) = generation" "manifest_sandbox (built b) = en_sandbox en"
      using build_entries [OF assms(7) b] by simp_all
    have reuse: "\<forall>e\<in>set (manifest_entries (built b)). (\<forall>d\<in>set (entry_chunks e). map_of (built_chunks b) d \<noteq> None) \<or>
        (\<exists>stamp. committed (es_builder st1) (entry_path e) = Some (stamp, e))"
      using ok same by (simp add: building_ok_def)
    obtain st2 r2 where c: "commit_part en x generation b st1 = (st2, r2)"
      by (cases "commit_part en x generation b st1")
    note part = commit_part_sound [OF c assms(2-4) s1(1,3) head reuse assms(8)]
    have adv: "advances generation st st2" using advances_trans [OF s1(2)] part by blast
    show ?thesis
    proof (cases r2)
      case (Inl e)
      with assms(1) p \<open>r1 = Inr b\<close> c part adv same show ?thesis by (auto simp: checkpoint_body_def)
    next
      case (Inr digest)
      with assms(1) p \<open>r1 = Inr b\<close> c
      have f: "finish_part en x generation snap b digest st2 = (st', r)" by (simp add: checkpoint_body_def)
      have "baseline_durable (built_stamps b) (chunk_of (es_store st2))"
        using stamps_durable [OF assms(7) b] part Inr by blast
      then show ?thesis
        using finish_part_kept [OF f] part Inr adv b by (auto simp: advances_def)
    qed
  qed
qed

lemma failed_checkpoint_same:
  "failed_checkpoint en x e st = (st', r) \<Longrightarrow>
    es_store st' = es_store st \<and> es_builder st' = es_builder st \<and> es_journal st' = es_journal st \<and> \<not> is_ok r"
  by (auto simp: failed_checkpoint_def enforce_rpo_def elim!: then_do_elim split: if_splits option.splits)

lemma release_gateway_same:
  "release_gateway x final (st, r) = (st', r') \<Longrightarrow>
    es_store st' = es_store st \<and> es_builder st' = es_builder st \<and> es_journal st' = es_journal st \<and>
    (is_ok r' \<longrightarrow> r' = r)"
  by (auto simp: release_gateway_def resume_gateway_def elim!: then_do_elim split: if_splits sum.splits)

lemma checkpoint_kept:
  assumes "checkpoint en x generation final st = (st', r)" "en_store en = ops"
    "crypto_documented (en_crypto en)" "\<And>ds. set (run_order x ds) = set ds" "sound en st"
    "commit_of (es_store st) generation = None"
    "honest (en_crypto en) (es_builder st) (at_build_ns x) (run_files x)" "valid_time (at_start x)"
  shows "sound en st' \<and> advances generation st st' \<and>
    (commit_of (es_store st') generation = None \<longrightarrow> set (events (es_journal st)) \<subseteq> set (events (es_journal st'))) \<and>
    (\<forall>rc. r = Inr rc \<longrightarrow> rc_generation rc = generation \<and>
       commit_of (es_store st') generation = Some (rc_manifest_digest rc) \<and>
       (\<exists>b. build (en_crypto en) (es_builder st) (at_build_ns x) (run_files x) generation (en_sandbox en)
              (timestamp (at_start x)) = Inr b \<and>
          manifest_of (es_store st') generation = Some (encrypt (en_crypto en) (en_cipher en) (to_json (built b))) \<and>
          rc_manifest_digest rc = blob_digest (encrypt (en_crypto en) (en_cipher en) (to_json (built b))) \<and>
          (\<forall>e\<in>set (manifest_entries (built b)). \<forall>d\<in>set (entry_chunks e). chunk_of (es_store st') d \<noteq> None)))"
proof -
  let ?snap = "journal_snapshot (es_journal st)"
  obtain st1 r1 where b: "checkpoint_body en x generation final ?snap (st\<lparr>es_holding := False\<rparr>) = (st1, r1)"
    by (cases "checkpoint_body en x generation final ?snap (st\<lparr>es_holding := False\<rparr>)")
  have "sound en (st\<lparr>es_holding := False\<rparr>)" using assms(5) by (simp add: sound_def)
  note kept = checkpoint_body_kept [OF b assms(2-4) this]
  obtain st2 r2 where f: "(case r1 of Inr rc \<Rightarrow> (st1, Inr rc) | Inl e \<Rightarrow> failed_checkpoint en x e st1) = (st2, r2)"
    by (cases "case r1 of Inr rc \<Rightarrow> (st1, Inr rc) | Inl e \<Rightarrow> failed_checkpoint en x e st1")
  have g: "release_gateway x final (st2, r2) = (st', r)"
    using assms(1) b f by (cases r1) (simp_all add: checkpoint_def Let_def)
  have "es_store st2 = es_store st1 \<and> es_builder st2 = es_builder st1 \<and> es_journal st2 = es_journal st1 \<and>
      (is_ok r2 \<longrightarrow> r2 = r1)"
    using f by (cases r1) (auto dest: failed_checkpoint_same)
  with release_gateway_same [OF g] have e: "es_store st' = es_store st1" "es_builder st' = es_builder st1"
    "es_journal st' = es_journal st1" "is_ok r \<Longrightarrow> r = r1" by auto
  have k: "sound en st1 \<and> advances generation (st\<lparr>es_holding := False\<rparr>) st1 \<and>
    (commit_of (es_store st1) generation = None \<longrightarrow> set (events (es_journal st)) \<subseteq> set (events (es_journal st1))) \<and>
    (\<forall>rc. r1 = Inr rc \<longrightarrow> rc_generation rc = generation \<and>
       commit_of (es_store st1) generation = Some (rc_manifest_digest rc) \<and>
       (\<exists>b. build (en_crypto en) (es_builder st) (at_build_ns x) (run_files x) generation (en_sandbox en)
              (timestamp (at_start x)) = Inr b \<and>
          manifest_of (es_store st1) generation = Some (encrypt (en_crypto en) (en_cipher en) (to_json (built b))) \<and>
          rc_manifest_digest rc = blob_digest (encrypt (en_crypto en) (en_cipher en) (to_json (built b))) \<and>
          (\<forall>e\<in>set (manifest_entries (built b)). \<forall>d\<in>set (entry_chunks e). chunk_of (es_store st1) d \<noteq> None)))"
    using kept assms(6-8) by simp
  then have "sound en st'" "advances generation st st'" using e(1,2) by (simp_all add: sound_def advances_def)
  moreover have "r1 = Inr rc" if "r = Inr rc" for rc using e(4) that by simp
  ultimately show ?thesis using k unfolding e(1,3) by blast
qed

end

subsection \<open>The in-memory store\<close>

lemma map_of_set_default: "map_of (set_default k v m) = (if map_of m k = None then (map_of m)(k \<mapsto> v) else map_of m)"
  by (auto simp: set_default_def map_add_def fun_eq_iff split: option.splits)

lemma map_of_update [simp]: "map_of (AList.update k v m) = (map_of m)(k \<mapsto> v)"
  by (simp add: update_conv')

interpretation memory: checkpoint_protocol memory_ops "\<lambda>s. True"
  "\<lambda>s. map_of (mem_chunks s)" "\<lambda>s. map_of (mem_manifests s)" "\<lambda>s. map_of (mem_commits s)"
proof unfold_locales
  fix s now g m s' and r :: "(fault, unit) result"
  assume c: "op_commit_generation memory_ops now g m s = (s', r)"
  have "g' < g" if "\<not> (mem_commits s \<noteq> [] \<and> g \<le> Max (fst ` set (mem_commits s)))" "map_of (mem_commits s) g' \<noteq> None" for g'
  proof -
    from that(2) obtain v where "(g', v) \<in> set (mem_commits s)" by (auto dest: map_of_SomeD)
    then have "mem_commits s \<noteq> []" "g' \<le> Max (fst ` set (mem_commits s))"
      by (auto intro!: Max_ge image_eqI [where x = "(g', v)"])
    with that(1) show ?thesis by simp
  qed
  with c show "True \<and> map_of (mem_chunks s') = map_of (mem_chunks s) \<and>
     map_of (mem_manifests s') = map_of (mem_manifests s) \<and>
     (map_of (mem_commits s') = map_of (mem_commits s) \<or>
       map_of (mem_commits s') = (map_of (mem_commits s))(g \<mapsto> m) \<and>
       (\<forall>g'. map_of (mem_commits s) g' \<noteq> None \<longrightarrow> g' < g) \<and>
       map_option blob_digest (map_of (mem_manifests s) g) = Some m) \<and>
     (is_ok r \<longrightarrow> map_of (mem_commits s') g = Some m)"
    by (auto simp: memory_ops_def mem_commit_generation_def split: option.splits if_splits)
qed (auto simp: memory_ops_def mem_has_chunk_def mem_upload_chunk_def mem_upload_manifest_def map_of_set_default
    split: if_splits)

end
