(* ===== verification/StoreProperties.thy ===== *)
theory StoreProperties
  imports CheckpointProperties
begin

text \<open>
  The interface of a checkpoint broker as a locale over the objects it stores, the brokered
  checkpoint store proved against it, and the local broker of \<open>durability.py\<close> as its model.
\<close>

section \<open>Object names\<close>

definition chunk_name :: "string \<Rightarrow> string" where
  "chunk_name d = ''chunks/'' @ d @ ''.bin''"

definition manifest_name :: "int \<Rightarrow> string" where
  "manifest_name g = ''manifests/'' @ dec_int g @ ''.json.enc''"

definition commit_name :: "int \<Rightarrow> string" where
  "commit_name g = ''commits/'' @ dec_int g @ ''.json''"

lemma read_int_dec_int [simp]: "read_int (dec_int i) = Some i"
proof -
  obtain ch cs where d: "dec (nat i) = ch # cs" using dec_digits(2) [of "nat i"] by (cases "dec (nat i)") auto
  with read_digits_dec [of "nat i"] have "ch \<noteq> CHR ''-''" by (metis option.distinct(1) read_digits_minus)
  with d read_digits_dec [of "nat i"] read_digits_dec [of "nat (- i)"] dec_digits(2) show ?thesis
    by (auto simp: dec_int_def read_int_def)
qed

lemma dec_int_inject [simp]: "dec_int i = dec_int j \<longleftrightarrow> i = j"
  by (metis option.inject read_int_dec_int)

lemma names_distinct [simp]:
  "chunk_name d \<noteq> manifest_name g" "chunk_name d \<noteq> commit_name g" "manifest_name g \<noteq> commit_name h"
  "manifest_name g \<noteq> chunk_name d" "commit_name g \<noteq> chunk_name d" "commit_name h \<noteq> manifest_name g"
  "chunk_name d = chunk_name d' \<longleftrightarrow> d = d'" "manifest_name g = manifest_name g' \<longleftrightarrow> g = g'"
  "commit_name g = commit_name g' \<longleftrightarrow> g = g'"
  by (auto simp: chunk_name_def manifest_name_def commit_name_def)

section \<open>What the store reads back\<close>

lemma read_manifest_payload [simp]: "read_manifest_payload (manifest_payload blob) = Inr blob"
proof -
  let ?v = "[(''ciphertext'', JStr (base64 (blob_ciphertext blob))), (''digest'', JStr (blob_digest blob))]"
  have "Option.bind (utf8_decode (manifest_payload blob)) json_loads = Some (JObj (sort_key fst ?v))"
    unfolding manifest_payload_def by (subst load_dumped) simp_all
  moreover have "map_of (sort_key fst ?v) = map_of ?v" by (rule map_of_sorted) simp
  ultimately show ?thesis
    by (simp add: read_manifest_payload_def get_key_def del: sort_key_simps)
qed

lemma read_commit_payload [simp]:
  assumes "digest_pattern m" "valid_time now"
  shows "read_commit g (commit_payload g m now) =
    Inr \<lparr> cg_generation = g, cg_manifest_digest = m, cg_committed_at = now \<rparr>"
proof -
  let ?v = "[(''committedAt'', JStr (timestamp now)), (''generation'', JInt g),
      (''manifestDigest'', JStr m), (''schemaVersion'', JInt 1)]"
  have "Option.bind (utf8_decode (commit_payload g m now)) json_loads = Some (JObj (sort_key fst ?v))"
    unfolding commit_payload_def by (subst load_dumped) simp_all
  moreover have "map_of (sort_key fst ?v) = map_of ?v" by (rule map_of_sorted) simp
  ultimately show ?thesis using assms
    by (simp add: read_commit_def get_key_def read_timestamp_timestamp del: sort_key_simps)
qed

lemma read_commit_generation: "read_commit g raw = Inr c \<Longrightarrow> cg_generation c = g"
  by (auto simp: read_commit_def split: option.splits json.splits if_splits)

section \<open>The interface of a broker\<close>

locale checkpoint_objects =
  fixes cb :: "'s checkpoint_broker"
    and sid :: string
    and index_chunks :: bool
    and prefetch :: "string list \<Rightarrow> 's \<Rightarrow> 's \<times> (fault, unit) result"
    and fine :: "'s \<Rightarrow> bool"
    and obj :: "'s \<Rightarrow> string \<Rightarrow> string option"
    and granted :: "'s \<Rightarrow> presigned \<Rightarrow> storage_operation \<Rightarrow> string \<Rightarrow> bool"
  assumes presign_chunk_law: "\<And>s d op s' r. \<lbrakk>fine s; cb_presign_chunk cb sid d op s = (s', r)\<rbrakk> \<Longrightarrow>
      fine s' \<and> obj s' = obj s \<and> (\<forall>g. r = Inr g \<longrightarrow> granted s' g op (chunk_name d))"
    and presign_manifest_law: "\<And>s n op s' r. \<lbrakk>fine s; cb_presign_manifest cb sid n op s = (s', r)\<rbrakk> \<Longrightarrow>
      fine s' \<and> obj s' = obj s \<and> (\<forall>g. r = Inr g \<longrightarrow> granted s' g op (manifest_name n))"
    and presign_commit_law: "\<And>s n op s' r. \<lbrakk>fine s; cb_presign_commit cb sid n op s = (s', r)\<rbrakk> \<Longrightarrow>
      fine s' \<and> obj s' = obj s \<and> (\<forall>g. r = Inr g \<longrightarrow> granted s' g op (commit_name n))"
    and put_law: "\<And>s g k b s' r. \<lbrakk>fine s; granted s g PUT k; cb_request cb g PUT (Some b) s = (s', r)\<rbrakk> \<Longrightarrow>
      fine s' \<and> (obj s' = obj s \<or> obj s' = (obj s)(k \<mapsto> b)) \<and> (is_ok r \<longrightarrow> obj s' k = Some b)"
    and get_law: "\<And>s g k s' r. \<lbrakk>fine s; granted s g GET k; cb_request cb g GET None s = (s', r)\<rbrakk> \<Longrightarrow>
      fine s' \<and> obj s' = obj s \<and> (\<forall>b. r = Inr (Bytes b) \<longrightarrow> obj s k = Some b)"
    and keys_law: "\<And>s category s' r. \<lbrakk>fine s; category \<in> {''chunks'', ''manifests'', ''commits''};
      cb_internal_keys cb sid category s = (s', r)\<rbrakk> \<Longrightarrow>
      fine s' \<and> obj s' = obj s \<and>
      (\<forall>ks. r = Inr ks \<longrightarrow> after_slash ` set ks = {n. obj s (category @ ''/'' @ n) \<noteq> None})"
    and exists_law: "\<And>s d s' r. \<lbrakk>fine s; cb_chunk_exists cb sid d s = (s', r)\<rbrakk> \<Longrightarrow>
      fine s' \<and> obj s' = obj s \<and> (r = Inr True \<longrightarrow> obj s (chunk_name d) \<noteq> None)"
    and prefetch_broker_law: "\<And>s ds s' r. \<lbrakk>fine s; prefetch ds s = (s', r)\<rbrakk> \<Longrightarrow> fine s' \<and> obj s' = obj s"
begin

definition store :: "'s checkpoint_store" where
  "store = \<lparr> cs_broker = cb, cs_sandbox = sid, cs_index_chunks = index_chunks \<rparr>"

lemma brokered_store_simps [simp]:
  "cs_broker store = cb" "cs_sandbox store = sid" "cs_index_chunks store = index_chunks"
  by (simp_all add: store_def)

definition good_state :: "'s store_state \<Rightarrow> bool" where
  "good_state st \<longleftrightarrow> fine (behind st) \<and>
     (\<forall>known. known_chunks st = Some known \<longrightarrow> (\<forall>d\<in>set known. obj (behind st) (chunk_name d) \<noteq> None))"

definition chunks_in :: "'s store_state \<Rightarrow> string \<Rightarrow> string option" where
  "chunks_in st d = obj (behind st) (chunk_name d)"

definition manifests_in :: "'s store_state \<Rightarrow> int \<Rightarrow> encrypted_blob option" where
  "manifests_in st g = Option.bind (obj (behind st) (manifest_name g))
     (\<lambda>raw. case read_manifest_payload raw of Inr blob \<Rightarrow> Some blob | Inl _ \<Rightarrow> None)"

definition commits_in :: "'s store_state \<Rightarrow> int \<Rightarrow> string option" where
  "commits_in st g = Option.bind (obj (behind st) (commit_name g))
     (\<lambda>raw. case read_commit g raw of Inr c \<Rightarrow> Some (cg_manifest_digest c) | Inl _ \<Rightarrow> None)"

text \<open>A call that leaves the objects alone.\<close>

definition quiet :: "'s store_state \<Rightarrow> 's store_state \<Rightarrow> bool" where
  "quiet st st' \<longleftrightarrow> good_state st' \<and> obj (behind st') = obj (behind st)"

lemma quiet_trans: "quiet st st' \<Longrightarrow> quiet st' st'' \<Longrightarrow> quiet st st''"
  by (simp add: quiet_def)

lemma quiet_views: "quiet st st' \<Longrightarrow> chunks_in st' = chunks_in st \<and> manifests_in st' = manifests_in st \<and>
    commits_in st' = commits_in st \<and> good_state st'"
  by (simp add: quiet_def chunks_in_def manifests_in_def commits_in_def fun_eq_iff)

lemma ask_elim:
  assumes "ask f st = (st', r)"
  obtains s where "f (behind st) = (s, r)" "st' = st\<lparr>behind := s\<rparr>"
  using assms by (cases "f (behind st)") (simp add: ask_def)

lemma ask_quiet:
  assumes "ask f st = (st', r)" "good_state st"
    "\<And>s. f (behind st) = (s, r) \<Longrightarrow> fine s \<and> obj s = obj (behind st)"
  shows "quiet st st'"
  using assms by (auto elim!: ask_elim simp: quiet_def good_state_def)

lemma get_object_law:
  assumes "get_object store presigning st = (st', r)" "good_state st"
    "\<And>s' r. presigning (behind st) = (s', r) \<Longrightarrow>
      fine s' \<and> obj s' = obj (behind st) \<and> (\<forall>g. r = Inr g \<longrightarrow> granted s' g GET k)"
  shows "quiet st st' \<and> (\<forall>raw. r = Inr raw \<longrightarrow> obj (behind st) k = Some raw)"
  using assms(1) unfolding get_object_def transfer_def
proof (elim then_do_elim ask_elim, goal_cases)
  case (1 e e' s)
  with assms(2,3) show ?case by (auto simp: quiet_def good_state_def)
next
  case (2 e s1 g s2 s3)
  with assms(3) [of s2 "Inr g"] have "fine s2" "obj s2 = obj (behind st)" "granted s2 g GET k" by auto
  with 2 get_law [of s2 g k s3 "Inl e"] assms(2) show ?case by (auto simp: quiet_def good_state_def)
next
  case 3
  then show ?case by simp
next
  case (4 s1 a s2 g s3 s4)
  with assms(3) [of s3 "Inr g"] have "fine s3" "obj s3 = obj (behind st)" "granted s3 g GET k" by auto
  with 4 get_law [of s3 g k s4 "Inr a"] assms(2) show ?case
    by (auto simp: quiet_def good_state_def as_bytes_def split: stored_answer.splits)
qed

lemma transfer_put_law:
  assumes "transfer store presigning PUT (Some b) st = (st', r)" "good_state st"
    "\<And>s' r. presigning (behind st) = (s', r) \<Longrightarrow>
      fine s' \<and> obj s' = obj (behind st) \<and> (\<forall>g. r = Inr g \<longrightarrow> granted s' g PUT k)"
  shows "good_state st' \<and> known_chunks st' = known_chunks st \<and>
    (obj (behind st') = obj (behind st) \<or> obj (behind st') = (obj (behind st))(k \<mapsto> b)) \<and>
    (is_ok r \<longrightarrow> obj (behind st') k = Some b)"
  using assms(1) unfolding transfer_def
proof (elim then_do_elim ask_elim, goal_cases)
  case (1 e s1)
  with assms(2,3) show ?case by (auto simp: good_state_def)
next
  case (2 s1 g s2 s3)
  with assms(3) [of s2 "Inr g"] have g: "fine s2" "obj s2 = obj (behind st)" "granted s2 g PUT k" by auto
  have "cb_request cb g PUT (Some b) s2 = (s3, r)" using 2 by simp
  from put_law [OF g(1,3) this] g(2) 2 assms(2) show ?case
    by (auto simp: good_state_def)
qed

lemma ask_keys_law:
  assumes "ask (cb_internal_keys cb sid category) st = (st', r)" "good_state st"
    "category \<in> {''chunks'', ''manifests'', ''commits''}"
  shows "quiet st st' \<and> known_chunks st' = known_chunks st \<and>
    (\<forall>ks. r = Inr ks \<longrightarrow> after_slash ` set ks = {n. obj (behind st) (category @ ''/'' @ n) \<noteq> None})"
proof -
  obtain s where s: "cb_internal_keys cb sid category (behind st) = (s, r)" "st' = st\<lparr>behind := s\<rparr>"
    using assms(1) by (elim ask_elim)
  have "fine (behind st)" using assms(2) by (simp add: good_state_def)
  from keys_law [OF this assms(3) s(1)] s(2) assms(2) show ?thesis
    by (auto simp: quiet_def good_state_def)
qed

lemma listed_chunk:
  assumes "after_slash ` set ks = {n. obj s (''chunks'' @ ''/'' @ n) \<noteq> None}" "d \<in> set (List.map_filter chunk_name_of ks)"
  shows "obj s (chunk_name d) \<noteq> None"
proof -
  from assms(2) obtain key where k: "key \<in> set ks" "chunk_name_of key = Some d" by (auto simp: map_filter_set)
  then have n: "after_slash key = d @ ''.bin''"
    by (auto simp: chunk_name_of_def Let_def ends_with_iff split: if_splits)
  from k(1) assms(1) have "obj s (''chunks'' @ ''/'' @ after_slash key) \<noteq> None" by blast
  with n show ?thesis by (simp add: chunk_name_def)
qed

lemma load_known_store:
  "load_known_chunks store st =
     (if \<not> index_chunks then (st, Inr None)
      else case known_chunks st of
        Some known \<Rightarrow> (st, Inr (Some known))
      | None \<Rightarrow>
          (case ask (cb_internal_keys cb sid ''chunks'') st of
             (st, Inl e) \<Rightarrow> if is_broker_error e then (st, Inr None) else (st, Inl e)
           | (st, Inr keys) \<Rightarrow>
               let known = List.map_filter chunk_name_of keys in
               (st\<lparr>known_chunks := Some known\<rparr>, Inr (Some known))))"
  by (simp only: load_known_chunks_def brokered_store_simps)

lemma load_known_law:
  assumes "load_known_chunks store st = (st', r)" "good_state st"
  shows "quiet st st' \<and> (\<forall>known. r = Inr (Some known) \<longrightarrow> (\<forall>d\<in>set known. obj (behind st) (chunk_name d) \<noteq> None))"
proof (cases "index_chunks \<and> known_chunks st = None")
  case False
  with assms(1)[unfolded load_known_store] assms(2) show ?thesis
    by (auto simp: quiet_def good_state_def split: option.splits if_splits)
next
  case True
  obtain st1 r1 where a: "ask (cb_internal_keys cb sid ''chunks'') st = (st1, r1)"
    by (cases "ask (cb_internal_keys cb sid ''chunks'') st")
  note law = ask_keys_law [OF a assms(2)]
  show ?thesis
  proof (cases r1)
    case (Inl e)
    with assms(1)[unfolded load_known_store] True a law show ?thesis by (auto split: if_splits)
  next
    case (Inr ks)
    let ?known = "List.map_filter chunk_name_of ks"
    have known: "\<forall>d\<in>set ?known. obj (behind st) (chunk_name d) \<noteq> None"
    proof
      fix d
      assume "d \<in> set ?known"
      then show "obj (behind st) (chunk_name d) \<noteq> None"
        by (rule listed_chunk [rotated]) (use law Inr in simp)
    qed
    from assms(1)[unfolded load_known_store] True a Inr
    have "st' = st1\<lparr>known_chunks := Some ?known\<rparr>" "r = Inr (Some ?known)"
      by (auto simp: Let_def)
    moreover have "good_state st1" "obj (behind st1) = obj (behind st)" using law by (simp_all add: quiet_def)
    ultimately show ?thesis using known by (simp add: quiet_def good_state_def)
  qed
qed

lemma has_chunk_store_law:
  assumes "has_chunk store d st = (st', r)" "good_state st"
  shows "quiet st st' \<and> (r = Inr True \<longrightarrow> obj (behind st) (chunk_name d) \<noteq> None)"
proof -
  obtain st1 r1 where l: "load_known_chunks store st = (st1, r1)" by (cases "load_known_chunks store st")
  note law = load_known_law [OF l assms(2)]
  show ?thesis
  proof (cases "r1 = Inr None")
    case False
    with assms(1) l law show ?thesis
      by (cases r1) (auto simp: has_chunk_def split: option.splits)
  next
    case True
    with assms(1) l have a: "ask (cb_chunk_exists cb sid d) st1 = (st', r)" by (simp add: has_chunk_def)
    then obtain s where s: "cb_chunk_exists cb sid d (behind st1) = (s, r)" "st' = st1\<lparr>behind := s\<rparr>"
      by (elim ask_elim)
    have "fine (behind st1)" using law by (simp add: quiet_def good_state_def)
    from exists_law [OF this s(1)] s(2) law show ?thesis by (auto simp: quiet_def good_state_def)
  qed
qed

lemma read_commits_law:
  assumes "read_commits store keys st = (st', r)" "good_state st"
  shows "quiet st st' \<and> (\<forall>cs. r = Inr cs \<longrightarrow>
    (\<forall>key\<in>set keys. \<exists>c\<in>set cs. commit_number key = Inr (cg_generation c)))"
  using assms
proof (induction keys arbitrary: st st' r)
  case Nil
  then show ?case by (auto simp: quiet_def)
next
  case (Cons key keys)
  show ?case
  proof (cases "commit_number key")
    case (Inl e)
    with Cons.prems show ?thesis by (auto simp: quiet_def)
  next
    case (Inr g)
    let ?get = "get_object store (cb_presign_commit cb sid g GET)"
    obtain st1 r1 where o: "?get st = (st1, r1)" by (cases "?get st")
    have "fine (behind st)" using Cons.prems(2) by (simp add: good_state_def)
    then have q1: "quiet st st1"
      using get_object_law [OF o Cons.prems(2), where k = "commit_name g"] presign_commit_law by blast
    show ?thesis
    proof (cases "\<exists>raw c. r1 = Inr raw \<and> read_commit g raw = Inr c")
      case False
      with Cons.prems(1) Inr o q1 show ?thesis by (cases r1; cases "read_commit g (projr r1)") auto
    next
      case True
      then obtain raw c where c: "r1 = Inr raw" "read_commit g raw = Inr c" by blast
      obtain st2 r2 where rest: "read_commits store keys st1 = (st2, r2)" by (cases "read_commits store keys st1")
      have "good_state st1" using q1 by (simp add: quiet_def)
      note IH = Cons.IH [OF rest this]
      then have q2: "quiet st st2" using q1 quiet_trans by blast
      have "read_commits store (key # keys) st = (st2, map_sum id (Cons c) r2)"
        by (cases r2) (simp_all add: Inr o c rest)
      with Cons.prems(1) have r: "st' = st2" "r = map_sum id (Cons c) r2" by simp_all
      show ?thesis
      proof (cases r2)
        case (Inl e)
        with r q2 show ?thesis by simp
      next
        case (Inr cs)
        with IH r q2 \<open>commit_number key = Inr g\<close> read_commit_generation [OF c(2)] show ?thesis by simp
      qed
    qed
  qed
qed

lemma committed_law:
  assumes "committed_generations store st = (st', r)" "good_state st"
  shows "quiet st st' \<and> (\<forall>cs. r = Inr cs \<longrightarrow> sorted (map cg_generation cs) \<and>
    (\<forall>g. obj (behind st) (commit_name g) \<noteq> None \<longrightarrow> g \<in> cg_generation ` set cs))"
proof -
  obtain st1 r1 where a: "ask (cb_internal_keys cb sid ''commits'') st = (st1, r1)"
    by (cases "ask (cb_internal_keys cb sid ''commits'') st")
  note law = ask_keys_law [OF a assms(2)]
  show ?thesis
  proof (cases r1)
    case (Inl e)
    with assms(1) a law show ?thesis by (auto simp: committed_generations_def)
  next
    case (Inr ks)
    obtain st2 r2 where c: "read_commits store ks st1 = (st2, r2)" by (cases "read_commits store ks st1")
    have "good_state st1" using law by (simp add: quiet_def)
    note rc = read_commits_law [OF c this]
    then have q: "quiet st st2" using law quiet_trans by blast
    have there: "g \<in> cg_generation ` set cs" if "r2 = Inr cs" "obj (behind st) (commit_name g) \<noteq> None" for cs g
    proof -
      have "after_slash ` set ks = {n. obj (behind st) (''commits'' @ ''/'' @ n) \<noteq> None}" using law Inr by blast
      with that(2) have "dec_int g @ ''.json'' \<in> after_slash ` set ks" by (simp add: commit_name_def)
      then obtain key where k: "key \<in> set ks" "after_slash key = dec_int g @ ''.json''" by auto
      then have "commit_number key = Inr g" by (simp add: commit_number_def)
      with rc that(1) k(1) show ?thesis by fastforce
    qed
    have "committed_generations store st = (st2, map_sum id (sort_key cg_generation) r2)"
      unfolding committed_generations_def brokered_store_simps a Inr then_do_simps c by (cases r2) simp_all
    with assms(1) have r: "st' = st2" "r = map_sum id (sort_key cg_generation) r2" by simp_all
    show ?thesis
    proof (cases r2)
      case (Inl e)
      with r q show ?thesis by simp
    next
      case (Inr cs)
      with r q there show ?thesis by simp
    qed
  qed
qed

lemma get_manifest_law:
  assumes "get_manifest store g st = (st', r)" "good_state st"
  shows "quiet st st' \<and> (\<forall>blob. r = Inr blob \<longrightarrow> manifests_in st g = Some blob)"
proof -
  let ?get = "get_object store (cb_presign_manifest cb sid g GET)"
  obtain st1 r1 where o: "?get st = (st1, r1)" by (cases "?get st")
  have "fine (behind st)" using assms(2) by (simp add: good_state_def)
  then have law: "quiet st st1 \<and> (\<forall>raw. r1 = Inr raw \<longrightarrow> obj (behind st) (manifest_name g) = Some raw)"
    using get_object_law [OF o assms(2), where k = "manifest_name g"] presign_manifest_law by blast
  have "get_manifest store g st = (st1, and_then r1 read_manifest_payload)"
    unfolding get_manifest_def brokered_store_simps o by (cases r1) simp_all
  with assms(1) have "st' = st1" "r = and_then r1 read_manifest_payload" by simp_all
  with law show ?thesis by (auto simp: and_then_Inr manifests_in_def)
qed

lemma put_views:
  assumes "obj (behind st') = (obj (behind st))(k \<mapsto> b)"
  shows "k = chunk_name d \<Longrightarrow> chunks_in st' = (chunks_in st)(d \<mapsto> b) \<and> manifests_in st' = manifests_in st \<and>
      commits_in st' = commits_in st"
    and "k = manifest_name g \<Longrightarrow> chunks_in st' = chunks_in st \<and> commits_in st' = commits_in st \<and>
      (\<forall>blob. read_manifest_payload b = Inr blob \<longrightarrow> manifests_in st' = (manifests_in st)(g \<mapsto> blob))"
    and "k = commit_name g \<Longrightarrow> chunks_in st' = chunks_in st \<and> manifests_in st' = manifests_in st \<and>
      (\<forall>c. read_commit g b = Inr c \<longrightarrow> commits_in st' = (commits_in st)(g \<mapsto> cg_manifest_digest c))"
  using assms by (auto simp: chunks_in_def manifests_in_def commits_in_def fun_eq_iff)

lemma same_views:
  "obj (behind st') = obj (behind st) \<Longrightarrow>
    chunks_in st' = chunks_in st \<and> manifests_in st' = manifests_in st \<and> commits_in st' = commits_in st"
  by (auto simp: chunks_in_def manifests_in_def commits_in_def fun_eq_iff)

lemma upload_chunk_store_law:
  assumes "upload_chunk store d ct st = (st', r)" "good_state st"
  shows "good_state st' \<and> manifests_in st' = manifests_in st \<and> commits_in st' = commits_in st \<and>
    (chunks_in st' = chunks_in st \<or> chunks_in st' = (chunks_in st)(d \<mapsto> ct)) \<and>
    (is_ok r \<longrightarrow> chunks_in st' d \<noteq> None)"
proof -
  obtain st1 r1 where h: "has_chunk store d st = (st1, r1)" by (cases "has_chunk store d st")
  note law = has_chunk_store_law [OF h assms(2)]
  show ?thesis
  proof (cases "r1 = Inr False")
    case False
    then have "upload_chunk store d ct st = (st1, map_sum id (\<lambda>_. ()) r1)"
      unfolding upload_chunk_def h by (cases r1) simp_all
    with assms(1) have "st' = st1" "r = map_sum id (\<lambda>_. ()) r1" by simp_all
    with law quiet_views [of st st1] False show ?thesis by (cases r1) (auto simp: chunks_in_def)
  next
    case True
    let ?put = "transfer store (cb_presign_chunk cb sid d PUT) PUT (Some ct) st1"
    obtain st2 r2 where p: "?put = (st2, r2)" by (cases "?put")
    have g1: "good_state st1" using law by (simp add: quiet_def)
    then have "fine (behind st1)" by (simp add: good_state_def)
    then have put: "good_state st2 \<and> known_chunks st2 = known_chunks st1 \<and>
      (obj (behind st2) = obj (behind st1) \<or> obj (behind st2) = (obj (behind st1))(chunk_name d \<mapsto> ct)) \<and>
      (is_ok r2 \<longrightarrow> obj (behind st2) (chunk_name d) = Some ct)"
      using transfer_put_law [OF p g1, where k = "chunk_name d"] presign_chunk_law by blast
    let ?st = "if is_ok r2 then st2\<lparr>known_chunks := map_option ((#) d) (known_chunks st2)\<rparr> else st2"
    have "upload_chunk store d ct st = (?st, map_sum id (\<lambda>_. ()) r2)"
      unfolding upload_chunk_def h brokered_store_simps True then_do_simps p if_False by (cases r2) simp_all
    with assms(1) have s': "st' = ?st" "r = map_sum id (\<lambda>_. ()) r2" by simp_all
    have b: "behind st' = behind st2" using s' by simp
    have "good_state st2" "is_ok r2 \<Longrightarrow> obj (behind st2) (chunk_name d) = Some ct" using put by simp_all
    then have "good_state st'" using s' by (cases "known_chunks st2") (auto simp: good_state_def)
    moreover have "chunks_in st1 = chunks_in st" "manifests_in st1 = manifests_in st" "commits_in st1 = commits_in st"
      using quiet_views [of st st1] law by auto
    moreover have "is_ok r = is_ok r2" using s'(2) by (cases r2) simp_all
    ultimately show ?thesis
      using put b put_views(1) [of st' st1 "chunk_name d" ct d] same_views [of st' st1]
      by (auto simp: chunks_in_def)
  qed
qed

lemma upload_manifest_store_law:
  assumes "upload_manifest store g blob st = (st', r)" "good_state st"
  shows "good_state st' \<and> chunks_in st' = chunks_in st \<and> commits_in st' = commits_in st \<and>
    (manifests_in st' = manifests_in st \<or> manifests_in st' = (manifests_in st)(g \<mapsto> blob)) \<and>
    (is_ok r \<longrightarrow> manifests_in st' g = Some blob)"
proof -
  let ?put = "transfer store (cb_presign_manifest cb sid g PUT) PUT (Some (manifest_payload blob)) st"
  obtain st1 r1 where p: "?put = (st1, r1)" by (cases "?put")
  have "fine (behind st)" using assms(2) by (simp add: good_state_def)
  then have put: "good_state st1 \<and>
    (obj (behind st1) = obj (behind st) \<or> obj (behind st1) = (obj (behind st))(manifest_name g \<mapsto> manifest_payload blob)) \<and>
    (is_ok r1 \<longrightarrow> obj (behind st1) (manifest_name g) = Some (manifest_payload blob))"
    using transfer_put_law [OF p assms(2), where k = "manifest_name g"] presign_manifest_law by blast
  have "upload_manifest store g blob st = (st1, map_sum id (\<lambda>_. ()) r1)"
    unfolding upload_manifest_def brokered_store_simps p by (cases r1) simp_all
  with assms(1) have e: "st' = st1" "r = map_sum id (\<lambda>_. ()) r1" by simp_all
  have s': "st' = st1" "is_ok r = is_ok r1" using e by (cases r1; simp)+
  have "is_ok r \<Longrightarrow> manifests_in st' g = Some blob" using put s' by (simp add: manifests_in_def)
  moreover have "chunks_in st' = chunks_in st \<and> commits_in st' = commits_in st \<and>
      (manifests_in st' = manifests_in st \<or> manifests_in st' = (manifests_in st)(g \<mapsto> blob))"
    using put s'(1) put_views(2) [of st' st "manifest_name g" "manifest_payload blob" g] same_views [of st' st]
      read_manifest_payload [of blob] by blast
  ultimately show ?thesis using put s'(1) by simp
qed

lemma commit_store_law:
  assumes "digest_pattern m" "valid_time now" "commit_generation store now g m st = (st', r)" "good_state st"
  shows "good_state st' \<and> chunks_in st' = chunks_in st \<and> manifests_in st' = manifests_in st \<and>
    (commits_in st' = commits_in st \<or>
     commits_in st' = (commits_in st)(g \<mapsto> m) \<and> (\<forall>g'. commits_in st g' \<noteq> None \<longrightarrow> g' < g) \<and>
       map_option blob_digest (manifests_in st g) = Some m) \<and>
    (is_ok r \<longrightarrow> commits_in st' g = Some m)"
proof -
  obtain st1 r1 where gm: "get_manifest store g st = (st1, r1)" by (cases "get_manifest store g st")
  note gl = get_manifest_law [OF gm assms(4)]
  then have g1: "good_state st1" by (simp add: quiet_def)
  obtain st2 r2 where cg: "committed_generations store st1 = (st2, r2)" by (cases "committed_generations store st1")
  note cl = committed_law [OF cg g1]
  then have q2: "quiet st st2" using gl quiet_trans by blast
  then have g2: "good_state st2" by (simp add: quiet_def)
  note views = quiet_views [OF q2]
  show ?thesis
  proof (cases "\<exists>blob cs. r1 = Inr blob \<and> blob_digest blob = m \<and> r2 = Inr cs \<and> \<not> (cs \<noteq> [] \<and> g \<le> cg_generation (last cs))")
    case False
    have "commit_generation store now g m st \<in> {(s, Inl e) | s e. s = st1 \<or> s = st2}"
      unfolding commit_generation_def gm using False by (cases r1; cases r2) (auto simp: cg)
    with assms(3) have "st' = st1 \<or> st' = st2" "\<not> is_ok r" by auto
    with views quiet_views [of st st1] gl show ?thesis by auto
  next
    case True
    then obtain blob cs where t: "r1 = Inr blob" "blob_digest blob = m" "r2 = Inr cs"
      "\<not> (cs \<noteq> [] \<and> g \<le> cg_generation (last cs))" by blast
    let ?put = "transfer store (cb_presign_commit cb sid g PUT) PUT (Some (commit_payload g m now)) st2"
    obtain st3 r3 where p: "?put = (st3, r3)" by (cases "?put")
    have "fine (behind st2)" using g2 by (simp add: good_state_def)
    then have put: "good_state st3 \<and>
      (obj (behind st3) = obj (behind st2) \<or> obj (behind st3) = (obj (behind st2))(commit_name g \<mapsto> commit_payload g m now)) \<and>
      (is_ok r3 \<longrightarrow> obj (behind st3) (commit_name g) = Some (commit_payload g m now))"
      using transfer_put_law [OF p g2, where k = "commit_name g"] presign_commit_law by blast
    have "commit_generation store now g m st = (st3, map_sum id (\<lambda>_. ()) r3)"
      unfolding commit_generation_def gm t(1) then_do_simps cg t(3) brokered_store_simps
      using t(2,4) by (cases r3) (simp_all add: p del: de_Morgan_conj)
    with assms(3) have e: "st' = st3" "r = map_sum id (\<lambda>_. ()) r3" by simp_all
    have s': "st' = st3" "is_ok r = is_ok r3" using e by (cases r3; simp)+
    have "g' < g" if "commits_in st g' \<noteq> None" for g'
    proof -
      have "obj (behind st1) = obj (behind st)" using gl by (simp add: quiet_def)
      with that have "obj (behind st1) (commit_name g') \<noteq> None"
        by (auto simp: commits_in_def bind_eq_Some_conv)
      with cl t(3) have g': "g' \<in> cg_generation ` set cs" "sorted (map cg_generation cs)" by blast+
      then have "cs \<noteq> []" "g' \<le> cg_generation (last cs)"
        by (cases cs rule: rev_cases; auto simp: sorted_append)+
      with t(4) show ?thesis by auto
    qed
    moreover have "map_option blob_digest (manifests_in st g) = Some m" using gl t(1,2) by simp
    moreover have "chunks_in st' = chunks_in st2 \<and> manifests_in st' = manifests_in st2 \<and>
        (commits_in st' = commits_in st2 \<or> commits_in st' = (commits_in st2)(g \<mapsto> m))"
      using put s'(1) put_views(3) [of st' st2 "commit_name g" "commit_payload g m now" g] same_views [of st' st2]
        read_commit_payload [OF assms(1,2), of g] by (metis committed_generation.select_convs(2))
    moreover have "is_ok r \<Longrightarrow> commits_in st' g = Some m"
      using put s' read_commit_payload [OF assms(1,2), of g] by (simp add: commits_in_def)
    ultimately show ?thesis using put s'(1) views by simp
  qed
qed

end

sublocale checkpoint_objects \<subseteq> protocol: checkpoint_protocol "brokered_ops prefetch store" good_state
  chunks_in manifests_in commits_in
proof unfold_locales
  fix s :: "'s store_state" and d s' and r :: "(fault, bool) result"
  assume "good_state s" "op_has_chunk (brokered_ops prefetch store) d s = (s', r)"
  with has_chunk_store_law [of d s s' r] quiet_views [of s s']
  show "good_state s' \<and> chunks_in s' = chunks_in s \<and> manifests_in s' = manifests_in s \<and> commits_in s' = commits_in s \<and>
      (r = Inr True \<longrightarrow> chunks_in s d \<noteq> None)"
    by (simp add: brokered_ops_def chunks_in_def)
next
  fix s :: "'s store_state" and ds s' and r :: "(fault, unit) result"
  assume g: "good_state s" "op_prefetch_uploads (brokered_ops prefetch store) ds s = (s', r)"
  then have "ask (prefetch ds) s = (s', r)" by (simp add: brokered_ops_def)
  then have "quiet s s'"
    by (rule ask_quiet) (use g(1) prefetch_broker_law in \<open>auto simp: good_state_def\<close>)
  from quiet_views [OF this] show "good_state s' \<and> chunks_in s' = chunks_in s \<and> manifests_in s' = manifests_in s \<and>
      commits_in s' = commits_in s" by simp
next
  fix s :: "'s store_state" and now g m s' and r :: "(fault, unit) result"
  assume "good_state s" "digest_pattern m" "valid_time now"
    "op_commit_generation (brokered_ops prefetch store) now g m s = (s', r)"
  then show "good_state s' \<and> chunks_in s' = chunks_in s \<and> manifests_in s' = manifests_in s \<and>
      (commits_in s' = commits_in s \<or>
       commits_in s' = (commits_in s)(g \<mapsto> m) \<and> (\<forall>g'. commits_in s g' \<noteq> None \<longrightarrow> g' < g) \<and>
         map_option blob_digest (manifests_in s g) = Some m) \<and>
      (is_ok r \<longrightarrow> commits_in s' g = Some m)"
    by (intro commit_store_law) (simp_all add: brokered_ops_def)
qed (simp_all add: brokered_ops_def upload_chunk_store_law upload_manifest_store_law)

end
