(* ===== verification/LocalBroker.thy ===== *)
theory LocalBroker
  imports StoreProperties
begin

text \<open>
  The local broker of \<open>durability.py\<close> meets the interface: grants lead to the object they were
  issued for, and a listing shows exactly the objects of one sandbox.  Through the two
  interpretations the checkpoint engine is proved on the brokered store over the local broker.
\<close>

subsection \<open>Keys\<close>

lemma split_at_append: "split_at sep acc (xs @ sep # ys) = split_at sep acc xs @ split_at sep [] ys"
  by (induction xs arbitrary: acc) auto

lemma split_at_not_Nil: "split_at sep acc xs \<noteq> []"
  by (induction xs arbitrary: acc) auto

lemma after_slash_append: "CHR ''/'' \<notin> set n \<Longrightarrow> after_slash (x @ CHR ''/'' # n) = n"
  using split_at_no_sep [of "CHR ''/''" n "[]" "[]"]
  by (simp add: after_slash_def split_on_def split_at_append split_at_not_Nil)

definition named :: "string \<Rightarrow> bool" where
  "named k \<longleftrightarrow> (\<exists>d. digest_pattern d \<and> k = chunk_name d) \<or> (\<exists>g>0. k = manifest_name g \<or> k = commit_name g)"

definition fine_objects :: "string \<Rightarrow> object_store \<Rightarrow> bool" where
  "fine_objects sid s \<longleftrightarrow> (\<forall>key\<in>fst ` set (objects s). starts_with key (snapshot_key sid []) \<longrightarrow>
     (\<exists>k. named k \<and> key = snapshot_key sid k))"

definition object_at :: "string \<Rightarrow> object_store \<Rightarrow> string \<Rightarrow> string option" where
  "object_at sid s k = map_of (objects s) (snapshot_key sid k)"

definition grant_for :: "string \<Rightarrow> object_store \<Rightarrow> presigned \<Rightarrow> storage_operation \<Rightarrow> string \<Rightarrow> bool" where
  "grant_for sid s g op k \<longleftrightarrow> named k \<and>
     (\<exists>h. map_of (grants s) (remove_prefix (grant_url g) local_prefix) = Some h \<and>
        granted_operation h = op \<and> granted_key h = snapshot_key sid k)"

lemma snapshot_key_inject [simp]: "snapshot_key sid k = snapshot_key sid k' \<longleftrightarrow> k = k'"
  by (simp add: snapshot_key_def)

lemma snapshot_key_append: "snapshot_key sid (k @ n) = snapshot_key sid k @ n"
  by (simp add: snapshot_key_def)

lemma starts_snapshot [simp]: "starts_with (snapshot_key sid k) (snapshot_key sid k') \<longleftrightarrow> starts_with k k'"
  by (auto simp: starts_with_iff snapshot_key_def)

lemma starts_Nil [simp]: "starts_with k []"
  by (simp add: starts_with_def)

lemma digit_no_slash: "list_all is_digit ds \<Longrightarrow> CHR ''/'' \<notin> set ds"
  by (induction ds) (auto simp: is_digit_def)

lemma dec_int_no_slash: "CHR ''/'' \<notin> set (dec_int i)"
  using digit_no_slash [OF dec_digits(1)] by (simp add: dec_int_def)

lemma hex_name_no_slash: "digest_pattern d \<Longrightarrow> CHR ''/'' \<notin> set d"
  by (auto simp: digest_pattern_def list_all_iff is_hex_def is_decimal_char_def)

text \<open>The part after the category of a named object has no slash.\<close>

lemma named_part:
  assumes "named k" "category \<in> {''chunks'', ''manifests'', ''commits''}" "k = category @ ''/'' @ n"
  shows "CHR ''/'' \<notin> set n"
  using assms hex_name_no_slash dec_int_no_slash
  by (auto simp: named_def chunk_name_def manifest_name_def commit_name_def)

subsection \<open>The laws\<close>

lemma local_presign_law:
  assumes "local_presign b sid k op s = (s', r)" "named k" "fine_objects sid s"
  shows "fine_objects sid s' \<and> object_at sid s' = object_at sid s \<and> (\<forall>g. r = Inr g \<longrightarrow> grant_for sid s' g op k)"
  using assms
  by (auto simp: local_presign_def validate_sandbox_def store_presign_def Let_def fine_objects_def object_at_def
      grant_for_def fun_eq_iff split: if_splits)

lemma local_put_law:
  assumes "local_request g PUT (Some body) s = (s', r)" "fine_objects sid s" "grant_for sid s g PUT k"
  shows "fine_objects sid s' \<and> (object_at sid s' = object_at sid s \<or> object_at sid s' = (object_at sid s)(k \<mapsto> body)) \<and>
    (is_ok r \<longrightarrow> object_at sid s' k = Some body)"
proof -
  from assms(3) obtain h where h: "named k" "map_of (grants s) (remove_prefix (grant_url g) local_prefix) = Some h"
    "granted_operation h = PUT" "granted_key h = snapshot_key sid k" by (auto simp: grant_for_def)
  have "fine_objects sid (s\<lparr>objects := AList.update (snapshot_key sid k) body (objects s)\<rparr>)"
    using assms(2) h(1) by (auto simp: fine_objects_def dom_update)
  with assms(1,2) h show ?thesis
    by (auto simp: local_request_def store_request_def object_at_def fun_eq_iff fine_objects_def split: if_splits)
qed

lemma local_get_law:
  assumes "local_request g GET None s = (s', r)" "grant_for sid s g GET k"
  shows "s' = s \<and> (\<forall>b. r = Inr (Bytes b) \<longrightarrow> object_at sid s k = Some b)"
  using assms
  by (auto simp: local_request_def store_request_def object_at_def grant_for_def split: if_splits option.splits)

lemma object_key: "object_at sid s k \<noteq> None \<longleftrightarrow> snapshot_key sid k \<in> fst ` set (objects s)"
  by (auto simp: object_at_def map_of_eq_None_iff)

lemma fine_named: "fine_objects sid s \<Longrightarrow> object_at sid s k \<noteq> None \<Longrightarrow> named k"
  unfolding object_key fine_objects_def by (metis snapshot_key_inject starts_Nil starts_snapshot)

lemma local_keys_law:
  assumes "local_internal_keys sid category s = Inr ks" "fine_objects sid s"
    "category \<in> {''chunks'', ''manifests'', ''commits''}"
  shows "after_slash ` set ks = {n. object_at sid s (category @ ''/'' @ n) \<noteq> None}"
proof -
  let ?p = "snapshot_key sid (category @ ''/'')"
  have ks: "set ks = {key \<in> fst ` set (objects s). starts_with key ?p}"
  proof -
    have "ks = store_internal_list ?p s"
      using assms(1,3) by (auto simp: local_internal_keys_def validate_sandbox_def and_then_Inr split: if_splits)
    then show ?thesis by (simp add: store_internal_list_def)
  qed
  have slash: "after_slash (?p @ n) = n" if "named (category @ ''/'' @ n)" for n
    using after_slash_append [OF named_part [OF that assms(3) refl], of "snapshot_key sid category"]
    by (simp add: snapshot_key_append)
  have key: "snapshot_key sid (category @ ''/'' @ n) = ?p @ n" for n by (simp add: snapshot_key_def)
  show ?thesis
  proof (intro equalityI subsetI)
    fix n
    assume "n \<in> after_slash ` set ks"
    then obtain e where e: "e \<in> fst ` set (objects s)" "starts_with e ?p" "n = after_slash e" using ks by auto
    then obtain m where m: "e = ?p @ m" by (auto simp: starts_with_iff)
    have o: "object_at sid s (category @ ''/'' @ m) \<noteq> None" unfolding object_key key using e(1) m by simp
    from slash [OF fine_named [OF assms(2) this]] e(3) m have "n = m" by simp
    with o show "n \<in> {n. object_at sid s (category @ ''/'' @ n) \<noteq> None}" by simp
  next
    fix n
    assume n: "n \<in> {n. object_at sid s (category @ ''/'' @ n) \<noteq> None}"
    then have "?p @ n \<in> set ks" unfolding ks mem_Collect_eq object_key key by simp
    moreover have "after_slash (?p @ n) = n" by (rule slash, rule fine_named [OF assms(2)]) (use n in simp)
    ultimately show "n \<in> after_slash ` set ks" by (metis image_eqI)
  qed
qed

lemma local_exists_law:
  assumes "local_chunk_exists sid d s = Inr True" "fine_objects sid s"
  shows "object_at sid s (chunk_name d) \<noteq> None"
proof -
  let ?key = "snapshot_key sid (chunk_name d)"
  from assms(1) obtain e where e: "e \<in> fst ` set (objects s)" "starts_with e ?key" "digest_pattern d"
  proof -
    have "digest_pattern d" "store_internal_list ?key s \<noteq> []"
      using assms(1) by (auto simp: local_chunk_exists_def validate_sandbox_def and_then_Inr chunk_name_def
          split: if_splits)
    then have "filter (\<lambda>key. starts_with key ?key) (map fst (objects s)) \<noteq> []"
      by (metis store_internal_list_def sort_key_simps(1))
    with \<open>digest_pattern d\<close> that show ?thesis unfolding filter_empty_conv by auto
  qed
  then obtain m where m: "e = snapshot_key sid (chunk_name d @ m)" by (auto simp: starts_with_iff snapshot_key_append)
  with e(1) have "object_at sid s (chunk_name d @ m) \<noteq> None" unfolding object_key by simp
  then have "named (chunk_name d @ m)" by (rule fine_named [OF assms(2)])
  then obtain d' where "digest_pattern d'" "chunk_name d @ m = chunk_name d'"
    by (auto simp: named_def chunk_name_def manifest_name_def commit_name_def)
  with e(3) have "m = []" by (auto simp: chunk_name_def digest_pattern_def)
  with m e(1) show ?thesis unfolding object_key by simp
qed

definition no_prefetch :: "string list \<Rightarrow> 's \<Rightarrow> 's \<times> (fault, unit) result" where
  "no_prefetch ds s = (s, Inr ())"

lemma positive_generation: "validate_generation n = Inr m \<longleftrightarrow> m = n \<and> 0 < n"
  by (auto simp: validate_generation_def)

interpretation local_objects: checkpoint_objects "local_broker b" sid index_chunks no_prefetch
  "fine_objects sid" "object_at sid" "grant_for sid" for b sid index_chunks
proof unfold_locales
  fix s d op s' and r :: "(fault, presigned) result"
  assume a: "fine_objects sid s" "cb_presign_chunk (local_broker b) sid d op s = (s', r)"
  show "fine_objects sid s' \<and> object_at sid s' = object_at sid s \<and> (\<forall>g. r = Inr g \<longrightarrow> grant_for sid s' g op (chunk_name d))"
  proof (cases "digest_pattern d")
    case True
    then have "named (chunk_name d)" by (auto simp: named_def)
    then show ?thesis
      using a True local_presign_law [of b sid "chunk_name d" op s s' r]
      by (simp add: local_broker_def local_presign_chunk_def chunk_name_def)
  next
    case False
    with a show ?thesis by (auto simp: local_broker_def local_presign_chunk_def)
  qed
next
  fix s n op s' and r :: "(fault, presigned) result"
  assume a: "fine_objects sid s" "cb_presign_manifest (local_broker b) sid n op s = (s', r)"
  show "fine_objects sid s' \<and> object_at sid s' = object_at sid s \<and> (\<forall>g. r = Inr g \<longrightarrow> grant_for sid s' g op (manifest_name n))"
  proof (cases "0 < n")
    case True
    then have "named (manifest_name n)" by (auto simp: named_def)
    with a True local_presign_law [of b sid "manifest_name n" op s s' r] show ?thesis
      by (simp add: local_broker_def local_presign_manifest_def manifest_name_def validate_generation_def)
  next
    case False
    with a show ?thesis by (auto simp: local_broker_def local_presign_manifest_def validate_generation_def)
  qed
next
  fix s n op s' and r :: "(fault, presigned) result"
  assume a: "fine_objects sid s" "cb_presign_commit (local_broker b) sid n op s = (s', r)"
  show "fine_objects sid s' \<and> object_at sid s' = object_at sid s \<and> (\<forall>g. r = Inr g \<longrightarrow> grant_for sid s' g op (commit_name n))"
  proof (cases "0 < n")
    case True
    then have "named (commit_name n)" by (auto simp: named_def)
    with a True local_presign_law [of b sid "commit_name n" op s s' r] show ?thesis
      by (simp add: local_broker_def local_presign_commit_def commit_name_def validate_generation_def)
  next
    case False
    with a show ?thesis by (auto simp: local_broker_def local_presign_commit_def validate_generation_def)
  qed
next
  fix s g k body s' and r :: "(fault, stored_answer) result"
  assume "fine_objects sid s" "grant_for sid s g PUT k" "cb_request (local_broker b) g PUT (Some body) s = (s', r)"
  then show "fine_objects sid s' \<and> (object_at sid s' = object_at sid s \<or> object_at sid s' = (object_at sid s)(k \<mapsto> body)) \<and>
      (is_ok r \<longrightarrow> object_at sid s' k = Some body)"
    by (intro local_put_law) (simp_all add: local_broker_def)
next
  fix s g k s' and r :: "(fault, stored_answer) result"
  assume "fine_objects sid s" "grant_for sid s g GET k" "cb_request (local_broker b) g GET None s = (s', r)"
  then show "fine_objects sid s' \<and> object_at sid s' = object_at sid s \<and> (\<forall>b. r = Inr (Bytes b) \<longrightarrow> object_at sid s k = Some b)"
    using local_get_law [of g s s' r sid k] by (simp add: local_broker_def)
next
  fix s category s' and r :: "(fault, string list) result"
  assume "fine_objects sid s" "category \<in> {''chunks'', ''manifests'', ''commits''}"
    "cb_internal_keys (local_broker b) sid category s = (s', r)"
  moreover from this have "s' = s" "r = local_internal_keys sid category s" by (auto simp: local_broker_def)
  ultimately show "fine_objects sid s' \<and> object_at sid s' = object_at sid s \<and>
      (\<forall>ks. r = Inr ks \<longrightarrow> after_slash ` set ks = {n. object_at sid s (category @ ''/'' @ n) \<noteq> None})"
    using local_keys_law [of sid category s] by simp
next
  fix s d s' and r :: "(fault, bool) result"
  assume "fine_objects sid s" "cb_chunk_exists (local_broker b) sid d s = (s', r)"
  then show "fine_objects sid s' \<and> object_at sid s' = object_at sid s \<and> (r = Inr True \<longrightarrow> object_at sid s (chunk_name d) \<noteq> None)"
    using local_exists_law [of sid d s] by (auto simp: local_broker_def)
qed (simp add: no_prefetch_def)

end
