(* ===== verification/CheckpointGuarantees.thy ===== *)
theory CheckpointGuarantees
  imports LocalBroker
begin

text \<open>
  What the checkpoint engine guarantees over the brokered store with the local broker behind it,
  written out over the objects in the bucket: the interpretation of the broker's interface gives
  the views, the interface of a checkpoint store the proofs.
\<close>

subsection \<open>The views\<close>

definition chunks_at :: "string \<Rightarrow> object_store store_state \<Rightarrow> string \<Rightarrow> string option" where
  "chunks_at sid st d = object_at sid (behind st) (chunk_name d)"

definition manifests_at :: "string \<Rightarrow> object_store store_state \<Rightarrow> int \<Rightarrow> encrypted_blob option" where
  "manifests_at sid st g = Option.bind (object_at sid (behind st) (manifest_name g))
     (\<lambda>raw. case read_manifest_payload raw of Inr blob \<Rightarrow> Some blob | Inl _ \<Rightarrow> None)"

definition commits_at :: "string \<Rightarrow> object_store store_state \<Rightarrow> int \<Rightarrow> string option" where
  "commits_at sid st g = Option.bind (object_at sid (behind st) (commit_name g))
     (\<lambda>raw. case read_commit g raw of Inr c \<Rightarrow> Some (cg_manifest_digest c) | Inl _ \<Rightarrow> None)"

text \<open>
  The invariant: the bucket holds no foreign names below the sandbox's prefix, the index of chunks
  names stored chunks only, every commit is complete and the builder's baseline is durable.
\<close>

definition durable ::
  "object_store store_state engine \<Rightarrow> object_store store_state \<Rightarrow> baseline \<Rightarrow> bool" where
  "durable en st bl \<longleftrightarrow>
     fine_objects (en_sandbox en) (behind st) \<and>
     (\<forall>known. known_chunks st = Some known \<longrightarrow> (\<forall>d\<in>set known. chunks_at (en_sandbox en) st d \<noteq> None)) \<and>
     complete_store (en_crypto en) (en_cipher en) (en_sandbox en) (chunks_at (en_sandbox en) st)
       (manifests_at (en_sandbox en) st) (commits_at (en_sandbox en) st) \<and>
     baseline_durable bl (chunks_at (en_sandbox en) st)"

lemma views:
  "local_objects.chunks_in sid = chunks_at sid" "local_objects.manifests_in sid = manifests_at sid"
  "local_objects.commits_in sid = commits_at sid"
  by (simp_all add: fun_eq_iff local_objects.chunks_in_def local_objects.manifests_in_def local_objects.commits_in_def
      chunks_at_def manifests_at_def commits_at_def)

lemma durable_iff: "durable en (es_store st) (committed (es_builder st)) \<longleftrightarrow> local_objects.protocol.sound (en_sandbox en) en st"
  unfolding durable_def local_objects.protocol.sound_def
  unfolding local_objects.good_state_def views
  by (simp add: chunks_at_def)

lemma store_eq: "local_objects.store b sid index = \<lparr> cs_broker = local_broker b, cs_sandbox = sid, cs_index_chunks = index \<rparr>"
  by (simp add: local_objects.store_def)

definition local_store :: "broker_settings \<Rightarrow> string \<Rightarrow> bool \<Rightarrow> object_store store_state store_ops" where
  "local_store b sid index =
     brokered_ops no_prefetch \<lparr> cs_broker = local_broker b, cs_sandbox = sid, cs_index_chunks = index \<rparr>"

text \<open>The guarantee of the interface in these terms.\<close>

lemmas local_checkpoint_kept = local_objects.protocol.checkpoint_kept
  [of en x generation final st st' r b "en_sandbox en" index for en x generation final st st' r b index,
    folded durable_iff, unfolded store_eq local_objects.protocol.advances_def, unfolded views, folded local_store_def]

subsection \<open>A checkpoint commits completely or not at all\<close>


text \<open>
  A receipt is only handed out for a generation that is committed under the digest it names,
  and the committed manifest is the full image of the workspace as it was when the gateway stood
  still: it opens to the manifest with the entry of every included file, and every chunk these
  entries name is stored.
\<close>

theorem receipt_means_committed_image:
  assumes "checkpoint en x generation final st = (st', r)"
    and "en_store en = local_store b (en_sandbox en) index" "crypto_documented (en_crypto en)"
    and "\<And>ds. set (run_order x ds) = set ds"
    and "durable en (es_store st) (committed (es_builder st))"
    and "commits_at (en_sandbox en) (es_store st) generation = None"
    and "honest (en_crypto en) (es_builder st) (at_build_ns x) (run_files x)" "valid_time (at_start x)"
  shows "\<forall>rc. r = Inr rc \<longrightarrow> rc_generation rc = generation \<and>
    commits_at (en_sandbox en) (es_store st') generation = Some (rc_manifest_digest rc) \<and>
    (\<exists>blob mf. manifests_at (en_sandbox en) (es_store st') generation = Some blob \<and>
      blob_digest blob = rc_manifest_digest rc \<and>
      decrypt (en_crypto en) (en_cipher en) blob = Inr (to_json mf) \<and> manifest_generation mf = generation \<and>
      manifest_sandbox mf = en_sandbox en \<and>
      manifest_entries mf = full_entries (en_crypto en) (chunk_size (es_builder st)) (run_files x) \<and>
      (\<forall>e\<in>set (manifest_entries mf). \<forall>d\<in>set (entry_chunks e). chunks_at (en_sandbox en) (es_store st') d \<noteq> None))"
proof (intro allI impI)
  fix rc
  let ?s = "es_store st'"
  assume "r = Inr rc"
  with local_checkpoint_kept [OF assms] obtain m where m: "rc_generation rc = generation"
    "commits_at (en_sandbox en) ?s generation = Some (rc_manifest_digest rc)"
    "build (en_crypto en) (es_builder st) (at_build_ns x) (run_files x) generation (en_sandbox en)
       (timestamp (at_start x)) = Inr m"
    "manifests_at (en_sandbox en) ?s generation = Some (encrypt (en_crypto en) (en_cipher en) (to_json (built m)))"
    "rc_manifest_digest rc = blob_digest (encrypt (en_crypto en) (en_cipher en) (to_json (built m)))"
    "\<forall>e\<in>set (manifest_entries (built m)). \<forall>d\<in>set (entry_chunks e). chunks_at (en_sandbox en) ?s d \<noteq> None" by auto
  show "rc_generation rc = generation \<and>
    commits_at (en_sandbox en) ?s generation = Some (rc_manifest_digest rc) \<and>
    (\<exists>blob mf. manifests_at (en_sandbox en) ?s generation = Some blob \<and>
      blob_digest blob = rc_manifest_digest rc \<and>
      decrypt (en_crypto en) (en_cipher en) blob = Inr (to_json mf) \<and> manifest_generation mf = generation \<and>
      manifest_sandbox mf = en_sandbox en \<and>
      manifest_entries mf = full_entries (en_crypto en) (chunk_size (es_builder st)) (run_files x) \<and>
      (\<forall>e\<in>set (manifest_entries mf). \<forall>d\<in>set (entry_chunks e). chunks_at (en_sandbox en) ?s d \<noteq> None))"
    using m(1,2,4-6) build_entries [OF assms(7) m(3)] decrypt_encrypt [OF assms(3)]
    by (intro conjI exI [of _ "built m"] exI [of _ "encrypt (en_crypto en) (en_cipher en) (to_json (built m))"]) auto
qed

text \<open>The gateway is frozen no longer than the build, unless a final checkpoint commits.\<close>

lemma on_store_holding [simp]:
  "es_holding (fst (on_store f st)) = es_holding st" "es_gateway_paused (fst (on_store f st)) = es_gateway_paused st"
  by (simp_all add: on_store_def)

lemma on_store_same:
  "on_store f st = (st', r) \<Longrightarrow> es_holding st' = es_holding st \<and> es_gateway_paused st' = es_gateway_paused st"
  by (metis fst_conv on_store_holding)

lemma prepare_holding:
  assumes "prepare_part en x generation final st = (st', r)" "run_resume x = Inr ()"
    "es_gateway_paused st = es_holding st"
  shows "es_gateway_paused st' = es_holding st'"
  using assms unfolding prepare_part_def
  by (elim then_do_elim trying_elim)
    (auto simp: pause_gateway_def resume_gateway_def split: sum.splits if_splits)

lemma commit_holding:
  assumes "commit_part en x generation b st = (st', r)"
  shows "es_holding st' = es_holding st \<and> es_gateway_paused st' = es_gateway_paused st"
  using assms unfolding commit_part_def Let_def
  by (elim then_do_elim trying_elim) (auto dest!: on_store_same)

lemma finish_holding:
  assumes "finish_part en x generation snap b digest st = (st', r)"
  shows "es_holding st' = es_holding st \<and> es_gateway_paused st' = es_gateway_paused st"
  using assms unfolding finish_part_def Let_def by (elim trying_elim) auto

lemma holding_is_paused:
  assumes "checkpoint_body en x generation final snap st = (st', r)" "run_resume x = Inr ()"
    "es_gateway_paused st = es_holding st"
  shows "es_gateway_paused st' = es_holding st'"
  using assms unfolding checkpoint_body_def
  by (elim then_do_elim) (auto dest!: prepare_holding commit_holding finish_holding)

lemma failed_checkpoint_holding:
  "failed_checkpoint en x e st = (st', r) \<Longrightarrow> es_holding st' = es_holding st \<and> es_gateway_paused st' = es_gateway_paused st"
  by (auto simp: failed_checkpoint_def enforce_rpo_def elim!: then_do_elim split: if_splits option.splits)

text \<open>
  (C28) Once a checkpoint returns the gateway runs again, whatever failed in between, unless the
  checkpoint is the final one and succeeded; only a resume that itself fails can leave it frozen.
\<close>

theorem gateway_released:
  assumes "checkpoint en x generation final st = (st', r)" "run_resume x = Inr ()"
    and "\<not> es_gateway_paused st" "\<not> final \<or> \<not> is_ok r"
  shows "\<not> es_gateway_paused st'"
proof -
  obtain st1 r1 where b: "checkpoint_body en x generation final (journal_snapshot (es_journal st)) (st\<lparr>es_holding := False\<rparr>)
      = (st1, r1)" by fastforce
  obtain st2 r2 where f: "(case r1 of Inr rc \<Rightarrow> (st1, Inr rc) | Inl e \<Rightarrow> failed_checkpoint en x e st1) = (st2, r2)"
    by fastforce
  have "release_gateway x final (st2, r2) = (st', r)"
    using assms(1) b f by (cases r1) (simp_all add: checkpoint_def Let_def)
  moreover have "es_gateway_paused st1 = es_holding st1"
    using holding_is_paused [OF b assms(2)] assms(3) by simp
  then have "es_gateway_paused st2 = es_holding st2"
    using f by (cases r1) (auto dest: failed_checkpoint_holding)
  ultimately show ?thesis
    using assms(2,4) by (auto simp: release_gateway_def resume_gateway_def split: if_splits)
qed

text \<open>
  (C29) Writes are only accepted while the oldest change that no commit covers is younger than the
  recovery-point objective; once it was older, writes stay refused until a checkpoint succeeds.
\<close>

theorem writable_within_objective:
  assumes "assert_writable en now st = (st', r)"
  shows "(r = Inr () \<longrightarrow> st' = st \<and> \<not> es_read_only st \<and>
      (\<forall>t. first_dirty_at (journal_snapshot (es_journal st)) = Some t \<longrightarrow> now - t < en_rpo en)) \<and>
    (\<forall>t. first_dirty_at (journal_snapshot (es_journal st)) = Some t \<longrightarrow> en_rpo en \<le> now - t \<longrightarrow>
      es_read_only st' \<and> \<not> is_ok r \<and>
      (\<forall>later. \<not> is_ok (snd (assert_writable en later st')) \<and> es_read_only (fst (assert_writable en later st'))))"
  using assms by (auto simp: assert_writable_def enforce_rpo_def split: option.splits if_splits)

text \<open>Only a checkpoint that succeeds lifts the refusal.\<close>

lemma on_store_read_only: "on_store f st = (st', r) \<Longrightarrow> es_read_only st' = es_read_only st"
  by (cases "f (es_store st)") (auto simp: on_store_def)

lemma body_lifts_refusal:
  assumes "checkpoint_body en x generation final snap st = (st', r)" "es_read_only st" "\<not> is_ok r"
  shows "es_read_only st'"
proof -
  have "es_read_only s2" if "prepare_part en x generation final s1 = (s2, q)" "es_read_only s1" for s1 s2 q
    using that unfolding prepare_part_def
    by (elim then_do_elim trying_elim) (auto simp: pause_gateway_def resume_gateway_def split: sum.splits if_splits)
  moreover have "es_read_only s2" if "commit_part en x generation m s1 = (s2, q)" "es_read_only s1" for m s1 s2 q
    using that unfolding commit_part_def Let_def
    by (elim then_do_elim trying_elim) (auto dest!: on_store_read_only)
  moreover have "es_read_only s2 \<or> is_ok q" if "finish_part en x generation snap m digest s1 = (s2, q)" "es_read_only s1"
    for m digest s1 s2 q
    using that unfolding finish_part_def Let_def by (elim trying_elim) auto
  ultimately show ?thesis using assms unfolding checkpoint_body_def by (elim then_do_elim) blast+
qed

lemma refusal_lifted_by_success:
  assumes "checkpoint en x generation final st = (st', r)" "es_read_only st" "\<not> is_ok r" "run_resume x = Inr ()"
  shows "es_read_only st'"
proof -
  obtain st1 r1 where b: "checkpoint_body en x generation final (journal_snapshot (es_journal st)) (st\<lparr>es_holding := False\<rparr>)
      = (st1, r1)" by fastforce
  with assms show ?thesis
    using body_lifts_refusal [OF b]
    by (cases r1) (auto simp: checkpoint_def Let_def release_gateway_def resume_gateway_def failed_checkpoint_def enforce_rpo_def
        split: if_splits option.splits)
qed

subsection \<open>The hypotheses hold on a new sandbox\<close>

definition new_settings :: broker_settings where
  "new_settings = \<lparr> bucket_name = ''bucket'', url_ttl = seconds 300, next_token = dec,
     broker_master = replicate 32 (CHR ''m'') \<rparr>"

definition new_sandbox_engine :: "object_store store_state engine" where
  "new_sandbox_engine =
     \<lparr> en_sandbox = ''sbx_'' @ replicate 26 (CHR ''0''), en_crypto = sample_crypto,
       en_cipher = \<lparr> cipher_key = replicate 32 (CHR ''k''), cipher_sandbox = ''sbx_'' @ replicate 26 (CHR ''0'') \<rparr>,
       en_store = local_store new_settings (''sbx_'' @ replicate 26 (CHR ''0'')) True, en_rpo = seconds 30,
       en_runtime_version = ''1'' \<rparr>"

definition dirty_journal :: journal where
  "dirty_journal =
     \<lparr> events = [\<lparr> sequence = 1, ev_path = ''memory/a'', recorded_at = 5 \<rparr>], next_sequence = 2,
       events_file = None \<rparr>"

definition new_sandbox_state :: "object_store store_state engine_state" where
  "new_sandbox_state =
     \<lparr> es_store = \<lparr> behind = \<lparr> objects = [], object_metadata = [], grants = [], drawn = 0, store_now = 5 \<rparr>,
         known_chunks = None \<rparr>, es_journal = dirty_journal, es_builder = sample_builder, es_local_state = None,
       es_read_only = False, es_gateway_paused = False, es_holding = False \<rparr>"

definition sample_run :: run where
  "sample_run =
     \<lparr> at_start = 5, at_failure = 9, at_build_ns = 9000000000, run_files = sample_files, run_marks = [(''memory/b'', 9)],
       run_order = rev, run_pause = Inr (), run_flush = Inr (), run_resume = Inr (), run_inject = (\<lambda>s. Inr ()),
       run_local_write = Inr () \<rparr>"

lemma new_sandbox:
  "en_store new_sandbox_engine = local_store new_settings (en_sandbox new_sandbox_engine) True"
  "crypto_documented (en_crypto new_sandbox_engine)" "set (run_order sample_run ds) = set ds"
  "durable new_sandbox_engine (es_store new_sandbox_state) (committed (es_builder new_sandbox_state))"
  "commits_at (en_sandbox new_sandbox_engine) (es_store new_sandbox_state) g = None"
  "honest (en_crypto new_sandbox_engine) (es_builder new_sandbox_state) (at_build_ns sample_run) (run_files sample_run)"
  "valid_time (at_start sample_run)"
  using sample_crypto_documented sample_honest early_times
  by (simp_all add: new_sandbox_engine_def new_sandbox_state_def sample_run_def durable_def fine_objects_def chunks_at_def
      manifests_at_def commits_at_def object_at_def complete_store_def baseline_durable_def sample_builder_def)


theorem receipt_means_committed_image_witness:
  "\<not> (\<exists>rc. snd (checkpoint new_sandbox_engine sample_run 1 False new_sandbox_state) = Inr rc \<and> rc_generation rc \<noteq> 1)"
  using receipt_means_committed_image [OF prod.collapse [symmetric] new_sandbox, of 1 False] by blast

theorem gateway_released_witness:
  "\<not> es_gateway_paused (fst (checkpoint new_sandbox_engine sample_run 1 False new_sandbox_state))"
  by (rule gateway_released [OF prod.collapse [symmetric]]) (simp_all add: sample_run_def new_sandbox_state_def)

theorem writable_within_objective_witness:
  "\<not> is_ok (snd (assert_writable new_sandbox_engine (5 + seconds 30) new_sandbox_state))"
proof -
  have "first_dirty_at (journal_snapshot (es_journal new_sandbox_state)) = Some 5"
    by (simp add: new_sandbox_state_def dirty_journal_def journal_snapshot_def)
  moreover have "en_rpo new_sandbox_engine = seconds 30" by (simp add: new_sandbox_engine_def)
  ultimately show ?thesis
    using writable_within_objective [OF prod.collapse [symmetric], of new_sandbox_engine "5 + seconds 30" new_sandbox_state]
    by simp
qed

end
