(* ===== verification/RestoreProperties.thy ===== *)
theory RestoreProperties
  imports RestoreContent CheckpointGuarantees
begin

text \<open>
  What a restore guarantees: the decoder keeps a manifest within the durable roots, a restored
  generation is what the manifest says and nothing else, with the checkpoint's guarantee the
  workspace as it was, and the decisions of \<open>restore\<close>.
\<close>

subsection \<open>What the decoder lets through\<close>

text \<open>
  A path below a durable root that the policy keeps, and a symbolic link only to a place that
  following the link from its directory does not leave the workspace.
\<close>

definition confined :: "manifest_entry \<Rightarrow> bool" where
  "confined e \<longleftrightarrow>
     (let p = pure_path (entry_path e) in
        as_posix p = entry_path e \<and> anchor p = [] \<and> segments p \<noteq> [] \<and> ''..'' \<notin> set (segments p) \<and>
        ''.agentcore'' \<notin> set (segments p) \<and> policy_includes p \<and> 0 \<le> entry_size e \<and>
        (entry_type e = SymlinkEntry \<longrightarrow> (\<exists>t. entry_symlink_target e = Some t \<and> anchor (pure_path t) = [] \<and>
           follow (butlast (segments p)) (segments (pure_path t)) \<noteq> None)))"

lemma included_path:
  assumes "policy_includes p"
  shows "anchor p = [] \<and> segments p \<noteq> [] \<and> ''..'' \<notin> set (segments p) \<and> ''.agentcore'' \<notin> set (segments p)"
proof -
  have c: "policy_covers p" using assms by (rule included_covered)
  then have a: "anchor p = []" "''..'' \<notin> set (parts p)"
    by (auto simp: policy_covers_def is_absolute_def split: if_splits)
  then have "parts p = segments p" by (simp add: parts_def)
  moreover have "segments p \<noteq> []"
  proof
    assume "segments p = []"
    with a(1) have "p = rel_path []" by (simp add: rel_path_def)
    moreover have "\<not> policy_covers (rel_path [])" by code_simp
    ultimately show False using c by simp
  qed
  ultimately show ?thesis using a agentcore_not_included [of p] assms by auto
qed

lemma safe_target_follows:
  "safe_symlink_target p t \<Longrightarrow> anchor p = [] \<Longrightarrow>
    anchor (pure_path t) = [] \<and> follow (butlast (segments p)) (segments (pure_path t)) \<noteq> None"
  using climb_follow [of "butlast (segments p)" "segments (pure_path t)"]
  by (auto simp: safe_symlink_target_def is_absolute_def parts_def path_parent_def Let_def split: if_splits)

lemma metadata_size:
  assumes "entry_metadata v = Inr (path, k, mode, mtime, bytes)"
  shows "0 \<le> bytes"
proof -
  from assms obtain p where p: "get_key v ''path'' = JStr p" by (auto simp: entry_metadata_def split: json.splits)
  with assms obtain kind where kind: "read_kind (get_key v ''type'') = Inr kind"
    by (auto simp: entry_metadata_def and_then_Inr)
  show ?thesis
    using assms p kind
    by (cases kind; cases "as_int (get_key v ''mode'')"; cases "as_int (get_key v ''mtimeNs'')";
        cases "as_int (get_key v ''size'')") (auto simp: entry_metadata_def split: if_splits)
qed

lemma cons_Inr: "map_sum id (Cons x) r = Inr xs \<longleftrightarrow> (\<exists>rest. r = Inr rest \<and> xs = x # rest)"
  by (cases r) auto

lemma read_entry_confined:
  assumes "read_entry v = Inr (Some e)"
  shows "confined e"
proof -
  from assms obtain x path k mode mtime bytes chunks where
    m: "entry_metadata x = Inr (path, k, mode, mtime, bytes)" and inc: "policy_includes (pure_path path)"
    and k: "check_kind k (pure_path path) bytes (get_key x ''digest'') chunks (get_key x ''symlinkTarget'') = Inr ()"
    and path: "path = as_posix (pure_path path)"
    and e: "entry_path e = path" "entry_type e = k" "entry_size e = bytes" "entry_symlink_target e = as_str (get_key x ''symlinkTarget'')"
    by (auto simp: read_entry_def and_then_Inr Let_def split: json.splits if_splits)
  have "0 \<le> bytes" by (rule metadata_size [OF m])
  moreover have "\<exists>t. entry_symlink_target e = Some t \<and> safe_symlink_target (pure_path path) t" if "k = SymlinkEntry"
    using k that e by (auto simp: check_kind_def split: json.splits if_splits)
  ultimately show ?thesis
    using included_path [OF inc] safe_target_follows [of "pure_path path"] path e inc
    unfolding confined_def Let_def by metis
qed

lemma read_entries_confined:
  assumes "read_entries d seen bytes items = Inr es"
  shows "list_all confined es \<and> distinct (map entry_path es) \<and> set seen \<inter> entry_path ` set es = {} \<and>
    (es = [] \<or> bytes + sum_list (map entry_size es) \<le> max_bytes d) \<and> length es \<le> length items"
  using assms
proof (induction items arbitrary: seen bytes es)
  case (Cons item items)
  from Cons.prems obtain found where f: "read_entry item = Inr found" by (auto simp: and_then_Inr)
  show ?case
  proof (cases found)
    case None
    with Cons.prems f have "read_entries d seen bytes items = Inr es" by simp
    from Cons.IH [OF this] show ?thesis by auto
  next
    case (Some e)
    with Cons.prems f obtain rest where r: "entry_path e \<notin> set seen" "bytes + entry_size e \<le> max_bytes d"
      "read_entries d (entry_path e # seen) (bytes + entry_size e) items = Inr rest" "es = e # rest"
      by (auto simp: cons_Inr split: if_splits)
    from Cons.IH [OF r(3)] read_entry_confined [of item e] f Some r show ?thesis by auto
  qed
qed auto

lemma decode_confines:
  assumes "decode d raw sid g = Inr m"
  shows "manifest_generation m = g \<and> manifest_sandbox m = sid \<and> (\<forall>e\<in>set (manifest_entries m). confined e) \<and>
    distinct (map entry_path (manifest_entries m)) \<and> sorted (map entry_path (manifest_entries m)) \<and>
    int (length (manifest_entries m)) \<le> max_files d \<and>
    (manifest_entries m = [] \<or> sum_list (map entry_size (manifest_entries m)) \<le> max_bytes d)"
proof -
  from assms obtain items es where "read_entries d [] 0 items = Inr es" "int (length items) \<le> max_files d"
    "map entry_path es = sort (map entry_path es)" "manifest_generation m = g" "manifest_sandbox m = sid"
    "manifest_entries m = es"
    by (auto simp: decode_def and_then_Inr split: json.splits if_splits)
  moreover from this have "sorted (map entry_path es)" by (metis sorted_sort)
  ultimately show ?thesis using read_entries_confined [of d "[]" 0 items es] by (auto simp: list_all_iff)
qed

text \<open>
  (C27) A manifest the decoder accepts cannot reach outside the durable roots: every path in it is
  relative, below a root the policy keeps, names no parent directory and nothing of the engine's
  own directory, every symbolic link resolves inside the workspace, the paths are distinct and
  sorted, and the limits on entries and bytes hold.
\<close>

theorem decoder_confines:
  assumes "decode d raw sid g = Inr m"
  shows "manifest_generation m = g \<and> manifest_sandbox m = sid \<and> (\<forall>e\<in>set (manifest_entries m). confined e) \<and>
    distinct (map entry_path (manifest_entries m)) \<and> sorted (map entry_path (manifest_entries m)) \<and>
    int (length (manifest_entries m)) \<le> max_files d \<and>
    (manifest_entries m = [] \<or> sum_list (map entry_size (manifest_entries m)) \<le> max_bytes d)"
  by (rule decode_confines [OF assms])

lemma sample_decoded: "decode \<lparr> max_files = 3, max_bytes = 3 \<rparr> (to_json (built sample_build)) ''sbx'' 3 = Inr (built sample_build)"
  by (rule build_decodes [OF sample_crypto_documented sample_tree sample_datable sample_honest sample_build])
    (simp_all add: sample_manifest sample_tree_entries [simplified])

theorem decoder_confines_witness:
  "length (manifest_entries (built sample_build)) \<le> 3 \<and> list_all confined (manifest_entries (built sample_build))"
  using decoder_confines [OF sample_decoded] by (simp add: list_all_iff)

subsection \<open>A restored generation\<close>

text \<open>The workspace holds the entries of a manifest, and directories on the way beside them.\<close>

definition entry_place :: "manifest_entry \<Rightarrow> string list" where
  "entry_place e = segments (pure_path (entry_path e))"

definition mirrors :: "'s restore_engine \<Rightarrow> manifest \<Rightarrow> workspace \<Rightarrow> bool" where
  "mirrors en m fs \<longleftrightarrow>
     (\<forall>e\<in>set (manifest_entries m). restored en e (map_of fs (entry_place e))) \<and>
     (\<forall>x r. x \<noteq> ''.agentcore'' \<longrightarrow> map_of fs (x # r) \<noteq> None \<longrightarrow>
        (\<exists>e\<in>set (manifest_entries m). entry_place e = x # r) \<or>
        map_of fs (x # r) = Some (Directory (re_fresh en)) \<and> (\<exists>e\<in>set (manifest_entries m). below (x # r) (entry_place e)))"

text \<open>Nothing changed outside the stage and the backup, but for the two directories on the way to them.\<close>

definition left_alone :: "'s restore_engine \<Rightarrow> workspace \<Rightarrow> workspace \<Rightarrow> bool" where
  "left_alone en fs fs' \<longleftrightarrow>
     (\<forall>q. \<not> below stage_path q \<longrightarrow> \<not> below backup_path q \<longrightarrow> map_of fs' q = map_of fs q \<or>
        map_of fs q = None \<and> map_of fs' q = Some (Directory (re_fresh en)) \<and> q \<in> {[], agentcore})"

lemma left_alone_refl [simp]: "left_alone en fs fs"
  by (simp add: left_alone_def)

lemma confined_dests:
  assumes "\<forall>e\<in>set es. confined e" "distinct (map entry_path es)"
  shows "distinct (map entry_dest es)"
proof -
  have "entry_path e = entry_path e'" if "e \<in> set es" "e' \<in> set es" "entry_dest e = entry_dest e'" for e e'
  proof -
    have c: "confined e" "confined e'" using assms(1) that by auto
    then have "pure_path (entry_path e) = pure_path (entry_path e')"
      using that(3) by (auto simp: confined_def Let_def entry_dest_def)
    with c show ?thesis by (simp add: confined_def Let_def)
  qed
  then show ?thesis using assms(2) unfolding distinct_map inj_on_def by blast
qed

lemma stage_ready:
  assumes "prepared fresh F (map_of fs0)" "closed_tree F" "F [''persistence.json''] = None"
    "holds_entries en es (map_of fs0) (map_of fs1)" "closed_tree (map_of fs0) \<longrightarrow> closed_tree (map_of fs1)"
    "map_of fs2 (stage_path @ state_path) \<noteq> None"
    "on_the_way fresh (stage_path @ state_path) fs1 fs2" "closed_tree (map_of fs1) \<longrightarrow> closed_tree (map_of fs2)"
  shows "ready_to_install fs2"
proof -
  note p = assms(1) [unfolded prepared_def]
  have dest: "below stage_path (entry_dest e)" for e by (simp add: entry_dest_def)
  have same: "map_of fs2 q = map_of fs0 q" if "\<not> below q stage_path" "\<not> below stage_path q" for q
  proof -
    have off: "\<not> below q (stage_path @ r)" for r
      using that by (auto simp: below_iff append_eq_append_conv2)
    then have "map_of fs1 q = map_of fs0 q"
      using assms(4) dest that(2) unfolding holds_entries_def by (metis below_iff imageE)
    moreover have "map_of fs2 q = map_of fs1 q"
      using assms(7) off [of state_path] that(2) unfolding on_the_way_def by (metis below_simps(2))
    ultimately show ?thesis by simp
  qed
  have keep: "map_of fs2 q = map_of fs0 q" if "map_of fs0 q \<noteq> None" "\<not> below stage_path q" for q
  proof -
    have "map_of fs1 q = map_of fs0 q"
      using assms(4) dest that unfolding holds_entries_def by (metis imageE)
    then show ?thesis using assms(7) that unfolding on_the_way_def by (metis below_simps(2))
  qed
  have "map_of fs2 [] = map_of fs0 []" "map_of fs2 agentcore = map_of fs0 agentcore"
    using keep [of "[]"] keep [of agentcore] p by (auto simp: special_paths)
  moreover have "map_of fs2 backup_path = None"
    using same [of backup_path] p spec [of _ "[]"] by (auto simp: special_paths)
  moreover have "map_of fs2 [''persistence.json''] = None"
  proof -
    have q: "\<not> below [''persistence.json''] stage_path" "\<not> below stage_path [''persistence.json'']"
      "\<not> below backup_path [''persistence.json'']" by (auto simp: special_paths)
    have "map_of fs0 [''persistence.json''] = F [''persistence.json''] \<or> [''persistence.json''] \<in> {[], agentcore}"
      using p q by blast
    then have "map_of fs0 [''persistence.json''] = None" using assms(3) by (simp add: special_paths)
    with same q show ?thesis by metis
  qed
  ultimately show ?thesis using p assms(2,5,6,8) by (simp add: ready_to_install_def)
qed

lemma stage_mirrors:
  assumes "\<forall>e\<in>set (manifest_entries m). confined e" "prepared fresh F (map_of fs0)"
    "holds_entries en (manifest_entries m) (map_of fs0) (map_of fs1)"
    "on_the_way fresh (stage_path @ state_path) fs1 fs2"
    "swapped (map_of fs2) (map_of fs3)" "\<forall>x r. x \<noteq> ''.agentcore'' \<longrightarrow> map_of fs4 (x # r) = map_of fs3 (x # r)"
  shows "mirrors en m fs4"
proof -
  have two: "map_of fs2 (stage_path @ x # r) = map_of fs1 (stage_path @ x # r)" if "x \<noteq> ''.agentcore''" for x r
  proof -
    have "stage_path @ x # r \<noteq> stage_path @ state_path" "\<not> below (stage_path @ x # r) (stage_path @ state_path)"
      using that by (auto simp: special_paths)
    then show ?thesis using assms(4) unfolding on_the_way_def by blast
  qed
  have view: "map_of fs4 (x # r) = map_of fs1 (stage_path @ x # r)" if "x \<noteq> ''.agentcore''" for x r
    using assms(5,6) that two [OF that] by (simp add: swapped_def)
  have place: "\<exists>x r. entry_place e = x # r \<and> x \<noteq> ''.agentcore'' \<and> entry_dest e = stage_path @ x # r"
    if "e \<in> set (manifest_entries m)" for e
    using assms(1) that by (cases "entry_place e") (auto simp: confined_def Let_def entry_place_def entry_dest_def)
  have "restored en e (map_of fs4 (entry_place e))" if "e \<in> set (manifest_entries m)" for e
    using place [OF that] view assms(3) that unfolding holds_entries_def by metis
  moreover have "(\<exists>e\<in>set (manifest_entries m). entry_place e = x # r) \<or>
      map_of fs4 (x # r) = Some (Directory (re_fresh en)) \<and> (\<exists>e\<in>set (manifest_entries m). below (x # r) (entry_place e))"
    if "x \<noteq> ''.agentcore''" "map_of fs4 (x # r) \<noteq> None" for x r
  proof (cases "stage_path @ x # r \<in> entry_dest ` set (manifest_entries m)")
    case True
    then show ?thesis by (auto simp: entry_dest_def entry_place_def)
  next
    case False
    have "map_of fs0 (stage_path @ x # r) = None" using assms(2) by (simp add: prepared_def)
    with False assms(3) view [OF that(1)] that(2) obtain e where e: "e \<in> set (manifest_entries m)"
      "map_of fs4 (x # r) = Some (Directory (re_fresh en))" "below (stage_path @ x # r) (entry_dest e)"
      unfolding holds_entries_def by metis
    then have "below (x # r) (entry_place e)" by (auto simp: entry_dest_def entry_place_def below_iff)
    with e show ?thesis by blast
  qed
  ultimately show ?thesis by (auto simp: mirrors_def)
qed

lemma remove_stage:
  assumes "re_mounts en = []"
  shows "x \<noteq> ''.agentcore'' \<Longrightarrow> map_of (remove_tree en stage_path fs) (x # r) = map_of fs (x # r)"
    "map_of (remove_tree en stage_path fs) state_path = map_of fs state_path"
    "\<not> below stage_path q \<Longrightarrow> map_of (remove_tree en stage_path fs) q = map_of fs q"
  by (auto simp: map_of_remove_tree [OF assms]) (auto simp: special_paths)

lemma materialized_off_stage:
  assumes "prepared fresh F (map_of fs0)" "holds_entries en es (map_of fs0) (map_of fs1)"
    "on_the_way fresh (stage_path @ state_path) fs1 fs2" "\<not> below stage_path q"
  shows "map_of fs2 q = map_of fs0 q"
proof (cases "map_of fs0 q = None")
  case False
  have "q \<notin> entry_dest ` set es" "q \<noteq> stage_path @ state_path" using assms(4) by (auto simp: entry_dest_def)
  with assms(2,3) False show ?thesis unfolding holds_entries_def on_the_way_def by metis
next
  case True
  have off: "q \<notin> entry_dest ` set es" "q \<noteq> stage_path @ state_path" using assms(4) by (auto simp: entry_dest_def)
  have up: "q \<in> {[], agentcore}" if "below q (stage_path @ r)" for r
  proof -
    consider "q = []" | x where "q = [x]" | x y s where "q = x # y # s" by (cases q; cases "tl q") auto
    then show ?thesis
    proof cases
      case 2
      with that show ?thesis by (simp add: special_paths)
    next
      case 3
      with that have "x = ''.agentcore''" "y = ''restore-stage''" by (simp_all add: special_paths)
      with 3 have "q = stage_path @ s" by (simp add: special_paths)
      with assms(4) show ?thesis by simp
    qed simp
  qed
  have none: "q \<notin> {[], agentcore}" using True assms(1) by (auto simp: prepared_def)
  have "map_of fs1 q = map_of fs0 q \<or> (\<exists>e\<in>set es. below q (entry_dest e))"
    using assms(2) off(1) unfolding holds_entries_def by blast
  then have one: "map_of fs1 q = None" using True up none by (auto simp: entry_dest_def)
  have "\<not> below q (stage_path @ state_path)" using up none by blast
  with assms(3) [unfolded on_the_way_def, rule_format, OF off(2)] one True show ?thesis by simp
qed

lemma generation_outcome:
  assumes "restore_generation en cg st = (st', r)" "one_failure en" "closed_tree (map_of (rs_files st))"
    "map_of (rs_files st) [''persistence.json''] = None"
  shows "r = Inr () \<and> (\<exists>blob raw m. snd (get_manifest (re_store en) (cg_generation cg) (rs_store st)) = Inr blob \<and>
      blob_digest blob = cg_manifest_digest cg \<and>
      decrypt (re_crypto en) (re_cipher en) blob = Inr raw \<and>
      decode (re_decoder en) raw (re_sandbox en) (cg_generation cg) = Inr m \<and> mirrors en m (rs_files st') \<and>
      map_of (rs_files st') state_path = Some (Regular ((re_fresh en)\<lparr>st_mode := 33152\<rparr>) (state_text en cg))) \<or>
    \<not> is_ok r \<and> left_alone en (rs_files st) (rs_files st')"
proof -
  have mounts: "re_mounts en = []" using assms(2) by (simp add: one_failure_def)
  obtain st1 r1 where g: "on_restore_store (get_manifest (re_store en) (cg_generation cg)) st = (st1, r1)" by fastforce
  have st1: "rs_files st1 = rs_files st" using on_restore_store_same [OF g] by simp
  show ?thesis
  proof (cases "\<exists>blob raw m fs. r1 = Inr blob \<and> blob_digest blob = cg_manifest_digest cg \<and>
      decrypt (re_crypto en) (re_cipher en) blob = Inr raw \<and>
      decode (re_decoder en) raw (re_sandbox en) (cg_generation cg) = Inr m \<and> prepare_stage en (rs_files st1) = Inr fs")
    case False
    have "\<not> is_ok r \<and> rs_files st' = rs_files st1"
    proof (cases r1)
      case (Inl e)
      with assms(1) g show ?thesis by (auto simp: restore_generation_def then_do_def)
    next
      case (Inr blob)
      with assms(1) g False show ?thesis
        by (auto simp: restore_generation_def then_do_def split: if_splits elim!: trying_elim)
    qed
    with st1 show ?thesis by simp
  next
    case True
    then obtain blob raw m fs where c: "r1 = Inr blob" "blob_digest blob = cg_manifest_digest cg"
      "decrypt (re_crypto en) (re_cipher en) blob = Inr raw"
      "decode (re_decoder en) raw (re_sandbox en) (cg_generation cg) = Inr m" "prepare_stage en (rs_files st1) = Inr fs"
      by blast
    let ?st = "st1\<lparr>rs_files := fs\<rparr>"
    have s: "staged_install en cg m ?st = (st', r)"
      using assms(1) g c by (simp add: restore_generation_def then_do_def)
    have prep: "prepared (re_fresh en) (map_of (rs_files st)) (map_of fs)"
      using prepare_stage_effect [OF c(5) mounts] st1 by simp
    have alone: "left_alone en (rs_files st) (remove_tree en stage_path fs')"
      if "\<forall>q. \<not> below stage_path q \<longrightarrow> \<not> below backup_path q \<longrightarrow> map_of fs' q = map_of fs q" for fs'
      using that prep remove_stage(3) [OF mounts] by (auto simp: left_alone_def prepared_def)
    note conf = decode_confines [OF c(4)]
    have dests: "distinct (map entry_dest (manifest_entries m))" using conf confined_dests by blast
    obtain st2 r2 where mat: "materialize en m ?st = (st2, r2)" by fastforce
    show ?thesis
    proof (cases r2)
      case (Inl e)
      with s mat materialize_fails [of en m ?st st2 e] alone [of fs] show ?thesis by (auto simp: staged_install_def then_do_def)
    next
      case (Inr u)
      with mat materialize_effect [OF _ dests, of en ?st st2]
      have held: "holds_entries en (manifest_entries m) (map_of fs) (map_of (rs_files st2))"
        "closed_tree (map_of fs) \<longrightarrow> closed_tree (map_of (rs_files st2))" by auto
      obtain st3 r3 where w: "write_state en cg st2 = (st3, r3)" by fastforce
      have none: "on_the_way (re_fresh en) (stage_path @ state_path) (rs_files st2) (rs_files st2)"
        by (simp add: on_the_way_def)
      show ?thesis
      proof (cases r3)
        case (Inl e)
        with s mat \<open>r2 = Inr u\<close> w write_state_fails [of en cg st2 st3 e]
        have "st' = st3\<lparr>rs_files := remove_tree en stage_path (rs_files st2)\<rparr>" "r = Inl e"
          by (auto simp: staged_install_def then_do_def)
        with alone [of "rs_files st2"] materialized_off_stage [OF prep held(1) none] show ?thesis by simp
      next
        case (Inr u3)
        with w write_state_effect [of en cg st2 st3] have state: "map_of (rs_files st3) (stage_path @ state_path) =
            Some (Regular ((re_fresh en)\<lparr>st_mode := 33152\<rparr>) (state_text en cg))"
          "on_the_way (re_fresh en) (stage_path @ state_path) (rs_files st2) (rs_files st3)"
          "closed_tree (map_of (rs_files st2)) \<longrightarrow> closed_tree (map_of (rs_files st3))" by auto
        obtain st4 where i: "install en st3 = (st4, r)" "st' = st4\<lparr>rs_files := remove_tree en stage_path (rs_files st4)\<rparr>"
          using s mat \<open>r2 = Inr u\<close> w Inr by (auto simp: staged_install_def then_do_def split: prod.splits)
        have "map_of (rs_files st3) (stage_path @ state_path) \<noteq> None" using state(1) by simp
        note ready = stage_ready [OF prep assms(3,4) held this state(2,3)]
        from install_all_or_nothing [OF i(1) assms(2) ready] show ?thesis
        proof (elim disjE conjE)
          assume ok: "r = Inr ()" and sw: "swapped (map_of (rs_files st3)) (map_of (rs_files st4))"
          have "mirrors en m (rs_files st')"
            using stage_mirrors [OF _ prep held(1) state(2) sw, of "rs_files st'"] conf i(2) remove_stage(1) [OF mounts] by simp
          moreover have "map_of (rs_files st') state_path = map_of (rs_files st3) (stage_path @ state_path)"
            using sw i(2) remove_stage(2) [OF mounts] by (simp add: swapped_def)
          moreover have "snd (get_manifest (re_store en) (cg_generation cg) (rs_store st)) = Inr blob"
            using g c(1) by (cases "get_manifest (re_store en) (cg_generation cg) (rs_store st)")
              (simp add: on_restore_store_def)
          ultimately show ?thesis using ok c state(1) by auto
        next
          assume bad: "\<not> is_ok r" and "\<forall>q. \<not> below stage_path q \<longrightarrow> \<not> below backup_path q \<longrightarrow>
            map_of (rs_files st4) q = map_of (rs_files st3) q"
          with materialized_off_stage [OF prep held(1) state(2)] alone [of "rs_files st4"] i(2) show ?thesis by simp
        qed
      qed
    qed
  qed
qed


subsection \<open>A checkpoint, then a restore\<close>

lemma concat_pieces: "0 < n \<Longrightarrow> concat (pieces n s) = s"
proof (induction n s rule: pieces.induct)
  case (1 n s)
  then show ?case by (subst pieces.simps) simp
qed

lemma concat_read_chunks: "0 < n \<Longrightarrow> concat (read_chunks n s) = s"
  using concat_pieces [of n s] by (auto simp: read_chunks_def)

text \<open>What a file of the workspace comes back as: the inode, the owner and the change time are not kept.\<close>

definition comes_back :: "crypto \<Rightarrow> string list \<Rightarrow> stat node \<Rightarrow> meta node option \<Rightarrow> bool" where
  "comes_back c p node node' \<longleftrightarrow>
     (case node of
        Regular s content \<Rightarrow>
          (\<exists>content'. node' = Some (Regular \<lparr> st_mode = 32768 + s_imode (st_mode s), st_mtime_ns = st_mtime_ns s \<rparr> content') \<and>
             length content' = length content \<and> sha256_hex c content' = sha256_hex c content)
      | Symlink s raw \<Rightarrow>
          safe_symlink_target (rel_path p) (as_posix (pure_path raw)) \<longrightarrow>
          node' = Some (Symlink \<lparr> st_mode = 41471, st_mtime_ns = st_mtime_ns s \<rparr> (as_posix (pure_path raw)))
      | Directory s \<Rightarrow> node' = Some (Directory \<lparr> st_mode = 16384 + s_imode (st_mode s), st_mtime_ns = st_mtime_ns s \<rparr>)
      | Special s \<Rightarrow> True)"

lemma full_entry_comes_back:
  assumes "full_entry (re_crypto en) n ws p = Some e" "map_of ws p = Some node" "tree_ok ws" "0 < n"
    "restored en e node'"
  shows "comes_back (re_crypto en) p node node'"
proof -
  have "st_size s = int (length content)" if "node = Regular s content" for s content
    using assms(2,3) that by (auto simp: tree_ok_def dest!: map_of_SomeD)
  with assms show ?thesis
    by (cases node) (auto simp: full_entry_def comes_back_def restored_def written_def file_entry_def symlink_entry_def
        directory_entry_def concat_read_chunks split: if_splits)
qed

lemma mirrored_workspace:
  assumes "mirrors en m fs" "manifest_entries m = full_entries (re_crypto en) n ws" "tree_ok ws" "0 < n"
    "p \<in> set (walk ws)" "policy_includes (rel_path p)" "map_of ws p = Some node"
  shows "comes_back (re_crypto en) p node (map_of fs p)"
proof (cases "full_entry (re_crypto en) n ws p")
  case None
  with assms(6,7) show ?thesis by (auto simp: full_entry_def comes_back_def split: node.splits if_splits)
next
  case (Some e)
  with assms(2,5) have e: "e \<in> set (manifest_entries m)" by (auto simp: full_entries_def map_filter_set)
  have "p \<noteq> []" using included_path [OF assms(6)] by simp
  then have "entry_place e = p"
    using pure_path_as_posix [of p] tree_names [OF assms(3,7)] full_entry_path [OF Some]
    by (simp add: entry_place_def)
  with e assms(1) have "restored en e (map_of fs p)" by (auto simp: mirrors_def)
  with full_entry_comes_back [OF Some assms(7,3,4)] show ?thesis by blast
qed

text \<open>
  (C1) What a checkpoint acknowledges comes back: when a checkpoint hands out a receipt and a
  restore of that generation from the same objects succeeds, every file, link and directory the
  policy includes is back with its content (up to a collision of SHA-256), target, mode and
  modification time, and the only other things outside the engine's directory are directories on
  the way to them.
\<close>

theorem checkpoint_comes_back:
  assumes "checkpoint en x generation final st = (st', r)"
    and "en_store en = local_store b (en_sandbox en) index" "crypto_documented (en_crypto en)"
    and "\<And>ds. set (run_order x ds) = set ds"
    and "durable en (es_store st) (committed (es_builder st))"
    and "commits_at (en_sandbox en) (es_store st) generation = None"
    and "honest (en_crypto en) (es_builder st) (at_build_ns x) (run_files x)" "valid_time (at_start x)"
    and "tree_ok (run_files x)" "datable (run_files x)" "0 < chunk_size (es_builder st)"
    and "int (length (full_entries (en_crypto en) (chunk_size (es_builder st)) (run_files x))) \<le> max_files (re_decoder ren)"
    and "sum_list (map entry_size (full_entries (en_crypto en) (chunk_size (es_builder st)) (run_files x))) \<le> max_bytes (re_decoder ren)"
    and "restore_generation ren cg rst = (rst', rr)" "one_failure ren" "closed_tree (map_of (rs_files rst))"
    and "map_of (rs_files rst) [''persistence.json''] = None" "re_crypto ren = en_crypto en"
    and "re_cipher ren = en_cipher en" "re_sandbox ren = en_sandbox en"
    and "re_store ren = \<lparr> cs_broker = local_broker b, cs_sandbox = en_sandbox en, cs_index_chunks = index' \<rparr>"
    and "behind (rs_store rst) = behind (es_store st')" "known_chunks (rs_store rst) = None"
  shows "\<forall>rc. r = Inr rc \<longrightarrow> cg_generation cg = rc_generation rc \<longrightarrow> rr = Inr () \<longrightarrow>
    (\<forall>p node. p \<in> set (walk (run_files x)) \<longrightarrow> policy_includes (rel_path p) \<longrightarrow> map_of (run_files x) p = Some node \<longrightarrow>
       comes_back (en_crypto en) p node (map_of (rs_files rst') p)) \<and>
    (\<forall>n q. n \<noteq> ''.agentcore'' \<longrightarrow> map_of (rs_files rst') (n # q) \<noteq> None \<longrightarrow>
       n # q \<in> set (walk (run_files x)) \<or>
       map_of (rs_files rst') (n # q) = Some (Directory (re_fresh ren)) \<and> (\<exists>p\<in>set (walk (run_files x)). below (n # q) p))"
proof (intro allI impI)
  fix rc
  assume rc: "r = Inr rc" "cg_generation cg = rc_generation rc" "rr = Inr ()"
  let ?sid = "en_sandbox en" and ?ws = "run_files x" and ?n = "chunk_size (es_builder st)"
  from local_checkpoint_kept [OF assms(1-8)] rc(1) obtain m where m: "rc_generation rc = generation"
    "build (en_crypto en) (es_builder st) (at_build_ns x) ?ws generation ?sid (timestamp (at_start x)) = Inr m"
    "manifests_at ?sid (es_store st') generation = Some (encrypt (en_crypto en) (en_cipher en) (to_json (built m)))"
    "durable en (es_store st') (committed (es_builder st'))" by auto
  note entries = build_entries [OF assms(7) m(2)]
  have decodes: "decode (re_decoder ren) (to_json (built m)) ?sid generation = Inr (built m)"
    by (rule build_decodes [OF assms(3,9,10,7) m(2)]) (use assms(12,13) entries in simp_all)
  from generation_outcome [OF assms(14-17)] rc(3) obtain blob raw dm where
    got: "snd (get_manifest (re_store ren) (cg_generation cg) (rs_store rst)) = Inr blob"
    "decrypt (re_crypto ren) (re_cipher ren) blob = Inr raw"
    "decode (re_decoder ren) raw (re_sandbox ren) (cg_generation cg) = Inr dm" "mirrors ren dm (rs_files rst')" by auto
  have "manifests_at ?sid (rs_store rst) generation = Some blob"
  proof -
    obtain s' where g: "get_manifest (local_objects.store b ?sid index') generation (rs_store rst) = (s', Inr blob)"
      using got(1) rc(2) m(1) assms(21) by (cases "get_manifest (re_store ren) (cg_generation cg) (rs_store rst)")
        (simp add: store_eq)
    have "local_objects.good_state ?sid (rs_store rst)"
      using m(4) assms(22,23) by (simp add: local_objects.good_state_def durable_def)
    from local_objects.get_manifest_law [OF g this] show ?thesis by (simp add: views)
  qed
  then have "blob = encrypt (en_crypto en) (en_cipher en) (to_json (built m))"
    using m(3) assms(22) by (simp add: manifests_at_def)
  with got(2) decrypt_encrypt [OF assms(3)] assms(18,19) have "raw = to_json (built m)" by simp
  with got(3) decodes rc(2) m(1) assms(20) have dm: "dm = built m" by simp
  have full: "manifest_entries dm = full_entries (re_crypto ren) ?n ?ws" using dm entries assms(18) by simp
  have "n # q \<in> set (walk ?ws) \<or> map_of (rs_files rst') (n # q) = Some (Directory (re_fresh ren)) \<and>
      (\<exists>p\<in>set (walk ?ws). below (n # q) p)"
    if "n \<noteq> ''.agentcore''" "map_of (rs_files rst') (n # q) \<noteq> None" for n q
  proof -
    have walked: "entry_place e \<in> set (walk ?ws)" if e: "e \<in> set (manifest_entries dm)" for e
    proof -
      from e obtain p where p: "p \<in> set (walk ?ws)" "full_entry (re_crypto ren) ?n ?ws p = Some e"
        by (auto simp: full full_entries_def map_filter_set)
      from walk_in_dom [OF p(1)] obtain node where "map_of ?ws p = Some node" by blast
      moreover have "policy_includes (rel_path p)" using p(2) by (auto simp: full_entry_def split: if_splits)
      then have "p \<noteq> []" using included_path [of "rel_path p"] by simp
      ultimately have "entry_place e = p"
        using pure_path_as_posix [of p] tree_names [OF assms(9)] full_entry_path [OF p(2)] by (simp add: entry_place_def)
      with p(1) show ?thesis by simp
    qed
    with got(4) that show ?thesis unfolding mirrors_def by metis
  qed
  with mirrored_workspace [OF got(4) full assms(9,11)] assms(18)
  show "(\<forall>p node. p \<in> set (walk ?ws) \<longrightarrow> policy_includes (rel_path p) \<longrightarrow> map_of ?ws p = Some node \<longrightarrow>
       comes_back (en_crypto en) p node (map_of (rs_files rst') p)) \<and>
    (\<forall>n q. n \<noteq> ''.agentcore'' \<longrightarrow> map_of (rs_files rst') (n # q) \<noteq> None \<longrightarrow>
       n # q \<in> set (walk ?ws) \<or>
       map_of (rs_files rst') (n # q) = Some (Directory (re_fresh ren)) \<and> (\<exists>p\<in>set (walk ?ws). below (n # q) p))"
    by auto
qed

subsection \<open>The decisions of a restore\<close>

lemma finish_restore_Inr: "finish_restore en rep st = (st', Inr rep') \<Longrightarrow> rep' = rep"
  by (auto simp: finish_restore_def then_do_def split: prod.splits sum.splits)

lemma restore_failed_Inl: "restore_failed en rep message st = (st', r) \<Longrightarrow> \<not> is_ok r"
  by (auto simp: restore_failed_def then_do_def split: prod.splits sum.splits)

lemma attempts_outcome:
  assumes "attempt_generations en reasons cgs later attempts failures st = (st', Inr rep)"
  shows "\<exists>before cg after s s'. cgs = before @ cg # after \<and> restore_generation en cg s = (s', Inr ()) \<and>
    rr_generation rep = Some (cg_generation cg) \<and> rr_attempted rep = attempts @ map cg_generation (before @ [cg]) \<and>
    rr_outcome rep = (if later \<or> before \<noteq> [] then Fallback else Restored) \<and>
    rr_fallback_used rep = (later \<or> before \<noteq> [])"
  using assms
proof (induction cgs arbitrary: later attempts failures st)
  case Nil
  then show ?case by (auto dest: restore_failed_Inl)
next
  case (Cons cg cgs)
  obtain s r where g: "restore_generation en cg st = (s, r)" by fastforce
  show ?case
  proof (cases r)
    case (Inr u)
    with Cons.prems g have "rep = report en (if later then Fallback else Restored) (Some (cg_generation cg)) later
      (reasons @ failures) (attempts @ [cg_generation cg])"
      by (auto simp: Let_def dest: finish_restore_Inr)
    with g Inr show ?thesis
      by (intro exI [of _ "[]"] exI [of _ cg] exI [of _ cgs] exI [of _ st] exI [of _ s]) (simp add: report_def)
  next
    case (Inl e)
    with Cons.prems g have "attempt_generations en reasons cgs True (attempts @ [cg_generation cg])
      (failures @ [failure_text en (cg_generation cg) e]) s = (st', Inr rep)"
      by (auto simp: Let_def split: if_splits)
    from Cons.IH [OF this] obtain before c after s1 s2 where "cgs = before @ c # after"
      "restore_generation en c s1 = (s2, Inr ())" "rr_generation rep = Some (cg_generation c)"
      "rr_attempted rep = attempts @ map cg_generation ((cg # before) @ [c])" "rr_outcome rep = Fallback" "rr_fallback_used rep"
      by auto
    then show ?thesis
      by (intro exI [of _ "cg # before"] exI [of _ c] exI [of _ after] exI [of _ s1] exI [of _ s2]) simp
  qed
qed

text \<open>
  The decisions of a restore: a sandbox that has existed is never started empty; the local
  files are kept only when nothing speaks against them; otherwise the latest committed generation
  is restored, or the one before it when the latest cannot be, never an older one, and the report
  says which.
\<close>

theorem restore_decides:
  assumes "restore en existing cond st = (st', r)"
    "committed_generations (re_store en) (rs_store st) = (s, Inr gens)"
  shows "(existing \<and> gens = [] \<longrightarrow> \<not> is_ok r) \<and>
    (\<forall>rep. r = Inr rep \<longrightarrow>
      (case rr_outcome rep of
         Initialized \<Rightarrow> gens = [] \<and> \<not> existing \<and> rr_generation rep = None
       | LocalOutcome \<Rightarrow> gens \<noteq> [] \<and> restore_reasons en (last gens) cond (rs_files st) = [] \<and>
           rr_generation rep = Some (cg_generation (last gens))
       | Restored \<Rightarrow> gens \<noteq> [] \<and> rr_generation rep = Some (cg_generation (last gens)) \<and>
           (\<exists>s1 s2. restore_generation en (last gens) s1 = (s2, Inr ()))
       | Fallback \<Rightarrow> (\<exists>older prev. gens = older @ [prev, last gens] \<and> rr_generation rep = Some (cg_generation prev) \<and>
           rr_attempted rep = [cg_generation (last gens), cg_generation prev] \<and>
           (\<exists>s1 s2. restore_generation en prev s1 = (s2, Inr ())))
       | Failed \<Rightarrow> False))"
proof -
  let ?st = "st\<lparr>rs_store := s\<rparr>"
  have first: "on_restore_store (committed_generations (re_store en)) st = (?st, Inr gens)"
    using assms(2) by (simp add: on_restore_store_def)
  show ?thesis
  proof (cases "gens = []")
    case True
    with assms(1) first show ?thesis
      by (auto simp: restore_def report_def dest!: restore_failed_Inl finish_restore_Inr elim!: trying_elim split: if_splits)
  next
    case False
    let ?reasons = "restore_reasons en (last gens) cond (rs_files st)"
    show ?thesis
    proof (cases "?reasons = []")
      case True
      with assms(1) first False show ?thesis
        by (auto simp: restore_def report_def dest!: finish_restore_Inr)
    next
      case tried: False
      with assms(1) first False
      have a: "attempt_generations en ?reasons (take 2 (rev gens)) False [] [] ?st = (st', r)"
        by (simp add: restore_def Let_def)
      from False obtain older latest where c: "gens = older @ [latest]" by (cases gens rule: rev_cases) auto
      have "case rr_outcome rep of
         Initialized \<Rightarrow> gens = [] \<and> \<not> existing \<and> rr_generation rep = None
       | LocalOutcome \<Rightarrow> gens \<noteq> [] \<and> ?reasons = [] \<and> rr_generation rep = Some (cg_generation (last gens))
       | Restored \<Rightarrow> gens \<noteq> [] \<and> rr_generation rep = Some (cg_generation (last gens)) \<and>
           (\<exists>s1 s2. restore_generation en (last gens) s1 = (s2, Inr ()))
       | Fallback \<Rightarrow> (\<exists>older prev. gens = older @ [prev, last gens] \<and> rr_generation rep = Some (cg_generation prev) \<and>
           rr_attempted rep = [cg_generation (last gens), cg_generation prev] \<and>
           (\<exists>s1 s2. restore_generation en prev s1 = (s2, Inr ())))
       | Failed \<Rightarrow> False" if "r = Inr rep" for rep
      proof -
        from attempts_outcome [OF a [unfolded that]] obtain before cg after s1 s2 where
          o: "take 2 (rev gens) = before @ cg # after" "restore_generation en cg s1 = (s2, Inr ())"
          "rr_generation rep = Some (cg_generation cg)" "rr_attempted rep = [] @ map cg_generation (before @ [cg])"
          "rr_outcome rep = (if False \<or> before \<noteq> [] then Fallback else Restored)" by blast
        show ?thesis
        proof (cases before)
          case Nil
          with o c have "cg = latest" by simp
          with o Nil c show ?thesis by auto
        next
          case (Cons b bs)
          have "length (before @ cg # after) \<le> 2" unfolding o(1) [symmetric] by simp
          with Cons have "bs = []" "after = []" by auto
          with o(1) c Cons have b: "b = latest" "take 1 (rev older) = [cg]" by (simp_all add: numeral_2_eq_2)
          then obtain most where "older = most @ [cg]" by (cases older rule: rev_cases) auto
          with o Cons \<open>bs = []\<close> b c show ?thesis by auto
        qed
      qed
      with False show ?thesis by blast
    qed
  qed
qed

subsection \<open>A new container\<close>

definition new_store_view :: "bool \<Rightarrow> object_store checkpoint_store" where
  "new_store_view index = \<lparr> cs_broker = local_broker new_settings, cs_sandbox = en_sandbox new_sandbox_engine, cs_index_chunks = index \<rparr>"

definition container_engine :: "object_store restore_engine" where
  "container_engine = (plain_engine third_fails (new_store_view False))\<lparr>re_crypto := sample_crypto,
     re_cipher := en_cipher new_sandbox_engine\<rparr>"

definition empty_objects :: object_store where
  "empty_objects = \<lparr> objects = [], object_metadata = [], grants = [], drawn = 0, store_now = 5 \<rparr>"

definition new_volume :: workspace where
  "new_volume = [([], Directory \<lparr> st_mode = 16877, st_mtime_ns = 0 \<rparr>)]"

definition container_state :: "object_store \<Rightarrow> object_store restore_state" where
  "container_state s = \<lparr> rs_store = \<lparr> behind = s, known_chunks = None \<rparr>, rs_files = new_volume, rs_renames = 0,
     rs_progress = new_progress \<rparr>"

definition some_commit :: "int \<Rightarrow> committed_generation" where
  "some_commit g = \<lparr> cg_generation = g, cg_manifest_digest = [], cg_committed_at = 5 \<rparr>"

lemma container:
  "one_failure container_engine" "closed_tree (map_of (rs_files (container_state s)))"
  "map_of (rs_files (container_state s)) [''persistence.json''] = None" "re_sandbox container_engine = en_sandbox new_sandbox_engine"
  "re_crypto container_engine = en_crypto new_sandbox_engine" "re_cipher container_engine = en_cipher new_sandbox_engine"
  "re_store container_engine = \<lparr> cs_broker = local_broker new_settings, cs_sandbox = en_sandbox new_sandbox_engine, cs_index_chunks = False \<rparr>"
  "behind (rs_store (container_state s)) = s" "known_chunks (rs_store (container_state s)) = None"
  "max_files (re_decoder container_engine) = 100" "max_bytes (re_decoder container_engine) = 1000"
  "rs_files (container_state s) = new_volume"
  by (simp_all add: container_engine_def container_state_def one_failure_def third_fails_def plain_engine_def new_store_view_def
      new_sandbox_engine_def new_volume_def closed_tree_def)


theorem checkpoint_comes_back_witness:
  "case checkpoint new_sandbox_engine sample_run 1 False new_sandbox_state of
     (st', Inl e) \<Rightarrow> True
   | (st', Inr rc) \<Rightarrow>
       (case restore_generation container_engine (some_commit (rc_generation rc)) (container_state (behind (es_store st'))) of
          (rst', Inl e) \<Rightarrow> True
        | (rst', Inr u) \<Rightarrow> comes_back sample_crypto [''projects'', ''a''] (Regular (sample_stat 33188 2) ''hi'')
            (map_of (rs_files rst') [''projects'', ''a'']))"
proof -
  obtain st' r where c: "checkpoint new_sandbox_engine sample_run 1 False new_sandbox_state = (st', r)" by fastforce
  have same: "run_files sample_run = sample_files" "en_crypto new_sandbox_engine = sample_crypto"
    "chunk_size (es_builder new_sandbox_state) = 1"
    by (simp_all add: sample_run_def new_sandbox_engine_def new_sandbox_state_def sample_builder_def)
  have at: "[''projects'', ''a''] \<in> set (walk (run_files sample_run))" "policy_includes (rel_path [''projects'', ''a''])"
    "map_of (run_files sample_run) [''projects'', ''a''] = Some (Regular (sample_stat 33188 2) ''hi'')"
    using sample_included by (simp_all add: same sample_walk) (simp add: sample_files_def)
  have "comes_back sample_crypto [''projects'', ''a''] (Regular (sample_stat 33188 2) ''hi'')
      (map_of (rs_files rst') [''projects'', ''a''])"
    if "r = Inr rc" "restore_generation container_engine (some_commit (rc_generation rc)) (container_state (behind (es_store st'))) = (rst', Inr ())"
    for rc rst'
    using checkpoint_comes_back [OF c new_sandbox _ _ _ _ _ that(2) container(1-3,5,6,4,7-9)] that(1) at
    by (simp add: same sample_tree sample_datable sample_tree_entries [simplified] container some_commit_def)
  with c show ?thesis by (auto split: prod.splits sum.splits)
qed

theorem restore_decides_witness:
  "\<not> is_ok (snd (restore container_engine True \<lparr> managed_session_expired = False, runtime_version_reset = False,
      local_integrity_ok = True \<rparr> (container_state empty_objects)))"
proof -
  have "sandbox_pattern (en_sandbox new_sandbox_engine)" unfolding new_sandbox_engine_def engine.simps by code_simp
  then have "committed_generations (re_store container_engine) (rs_store (container_state empty_objects)) =
      (rs_store (container_state empty_objects), Inr [])"
    by (simp add: container(7) committed_generations_def ask_def local_broker_def local_internal_keys_def validate_sandbox_def
        store_internal_list_def container_state_def empty_objects_def)
  from restore_decides [OF prod.collapse [symmetric] this, of True] show ?thesis by blast
qed

end
