(* ===== verification/Retention.thy ===== *)
theory Retention
  imports CheckpointStore
begin

text \<open>
  The end of \<open>persistence/durability.py\<close>: \<open>RetentionManager\<close>, which marks what no retained
  generation needs and sweeps it after a grace period, and \<open>IntegrityAuditor\<close>.  Clock readings are
  arguments; a set is visited in the order of the listing it comes from.
\<close>

subsection \<open>Retention\<close>

record gc_plan =
  retained_generations :: "int list"
  generation_candidates :: "int set"
  chunk_candidates :: "string set"

record 's retention =
  rt_store :: "'s checkpoint_store"
  rt_crypto :: crypto
  rt_cipher :: sandbox_cipher
  rt_manifest_chunks :: "string \<Rightarrow> (fault, string list) result"
  rt_retain :: nat
  rt_grace :: timedelta

type_synonym gc_marks = "((string \<times> string) \<times> time) list"

record 's retention_state =
  gs_store :: "'s store_state"
  gs_marks :: gc_marks

definition new_retention :: "'s retention \<Rightarrow> (fault, 's retention) result" where
  "new_retention rt =
     (if rt_retain rt < 2 \<or> rt_grace rt \<le> 0
      then Inl (Crash (ValueCrash ''At least two generations and a positive grace period are required.''))
      else Inr rt)"

text \<open>\<open>committed[-self._retain :]\<close>\<close>

definition last_of :: "nat \<Rightarrow> 'a list \<Rightarrow> 'a list" where
  "last_of n xs = drop (length xs - n) xs"

fun referenced_chunks ::
  "'s retention \<Rightarrow> committed_generation list \<Rightarrow> 's store_state \<Rightarrow> 's store_state \<times> (fault, string list) result" where
  "referenced_chunks rt [] st = (st, Inr [])"
| "referenced_chunks rt (cg # cgs) st =
     then_do (get_manifest (rt_store rt) (cg_generation cg) st) (\<lambda>st blob.
     trying st (decrypt (rt_crypto rt) (rt_cipher rt) blob) (\<lambda>plaintext.
     trying st (rt_manifest_chunks rt plaintext) (\<lambda>chunks.
     then_do (referenced_chunks rt cgs st) (\<lambda>st rest. (st, Inr (chunks @ rest))))))"

definition gc_keys :: "int list \<Rightarrow> string list \<Rightarrow> (string \<times> string) list" where
  "gc_keys generations chunks =
     map (\<lambda>g. (''generation'', dec_int g)) (remdups generations) @ map (\<lambda>d. (''chunk'', d)) (remdups chunks)"

definition renew_marks :: "time \<Rightarrow> (string \<times> string) list \<Rightarrow> gc_marks \<Rightarrow> gc_marks" where
  "renew_marks now keys marks = map (\<lambda>key. (key, case map_of marks key of None \<Rightarrow> now | Some t \<Rightarrow> t)) keys"

definition gc_mark :: "'s retention \<Rightarrow> time \<Rightarrow> 's retention_state \<Rightarrow> 's retention_state \<times> (fault, gc_plan) result" where
  "gc_mark rt now st =
     (case then_do (committed_generations (rt_store rt) (gs_store st)) (\<lambda>s gens.
          let retained = last_of (rt_retain rt) gens in
          then_do (referenced_chunks rt retained s) (\<lambda>s referenced.
          then_do (chunk_digests (rt_store rt) s) (\<lambda>s digests.
            let numbers = map cg_generation retained;
                generations = filter (\<lambda>g. g \<notin> set numbers) (map cg_generation gens);
                chunks = filter (\<lambda>d. d \<notin> set referenced) digests in
            (s, Inr (gc_keys generations chunks,
               \<lparr> retained_generations = numbers, generation_candidates = set generations,
                 chunk_candidates = set chunks \<rparr>))))) of
        (s, Inl e) \<Rightarrow> (st\<lparr>gs_store := s\<rparr>, Inl e)
      | (s, Inr (keys, plan)) \<Rightarrow> (st\<lparr>gs_store := s, gs_marks := renew_marks now keys (gs_marks st)\<rparr>, Inr plan))"

definition gc_remove :: "'s retention \<Rightarrow> string \<times> string \<Rightarrow> 's store_state \<Rightarrow> 's store_state \<times> (fault, unit) result" where
  "gc_remove rt key s =
     (case key of (kind, value) \<Rightarrow>
        if kind = ''generation''
        then (case read_int value of
            None \<Rightarrow> (s, Inl (Crash (ValueCrash ''invalid literal for int()'')))
          | Some g \<Rightarrow> remove_generation (rt_store rt) g s)
        else remove_chunk (rt_store rt) value s)"

fun sweep_marked :: "'s retention \<Rightarrow> time \<Rightarrow> gc_marks \<Rightarrow> 's retention_state \<Rightarrow> 's retention_state \<times> (fault, unit) result" where
  "sweep_marked rt now [] st = (st, Inr ())"
| "sweep_marked rt now ((key, marked_at) # items) st =
     (if now - marked_at < rt_grace rt then sweep_marked rt now items st
      else case gc_remove rt key (gs_store st) of
        (s, Inl e) \<Rightarrow> (st\<lparr>gs_store := s\<rparr>, Inl e)
      | (s, Inr _) \<Rightarrow>
          sweep_marked rt now items (st\<lparr>gs_store := s, gs_marks := AList.delete key (gs_marks st)\<rparr>))"

definition gc_sweep :: "'s retention \<Rightarrow> time \<Rightarrow> time \<Rightarrow> 's retention_state \<Rightarrow> 's retention_state \<times> (fault, gc_plan) result" where
  "gc_sweep rt marking now st =
     then_do (gc_mark rt marking st) (\<lambda>st plan.
     then_do (sweep_marked rt now (gs_marks st) st) (\<lambda>st _. (st, Inr plan)))"

subsection \<open>The audit\<close>

record audit_result =
  au_sandbox :: string
  au_generations :: "int list"
  au_ok :: bool
  au_failures :: "string list"
  au_checked_at :: time

record audit_sink =
  sink_results :: "audit_result list"
  failure_metrics :: nat

definition sink_record :: "audit_result \<Rightarrow> audit_sink \<Rightarrow> audit_sink" where
  "sink_record r s =
     s\<lparr>sink_results := sink_results s @ [r],
       failure_metrics := (if au_ok r then failure_metrics s else failure_metrics s + 1)\<rparr>"

record 's auditor =
  ad_sandbox :: string
  ad_store :: "'s checkpoint_store"
  ad_crypto :: crypto
  ad_cipher :: sandbox_cipher
  ad_manifest_chunks :: "string \<Rightarrow> (fault, string list) result"

text \<open>What the \<open>except\<close> clause takes for a broken generation; \<open>RuntimeError\<close> covers the engine's own errors.\<close>

definition audit_catches :: "fault \<Rightarrow> bool" where
  "audit_catches e = (case e of IntegrityError _ \<Rightarrow> True | ObjectNotFoundError _ \<Rightarrow> True
     | CheckpointError _ \<Rightarrow> True | ReadOnlyPersistenceError _ \<Rightarrow> True
     | ManifestValidationError _ \<Rightarrow> True | RestoreError _ \<Rightarrow> True | _ \<Rightarrow> False)"

fun audit_chunks :: "'s checkpoint_store \<Rightarrow> string \<Rightarrow> string list \<Rightarrow> 's store_state
    \<Rightarrow> 's store_state \<times> string list \<times> fault option" where
  "audit_chunks cs missing [] st = (st, [], None)"
| "audit_chunks cs missing (d # ds) st =
     (case has_chunk cs d st of
        (st, Inl e) \<Rightarrow> (st, [], Some e)
      | (st, Inr present) \<Rightarrow>
          (case audit_chunks cs missing ds st of (st, failures, e) \<Rightarrow>
             (st, (if present then [] else [missing]) @ failures, e)))"

definition audit_generation :: "'s auditor \<Rightarrow> committed_generation \<Rightarrow> 's store_state
    \<Rightarrow> 's store_state \<times> string list \<times> fault option" where
  "audit_generation ad cg st =
     (case get_manifest (ad_store ad) (cg_generation cg) st of
        (st, Inl e) \<Rightarrow> (st, [], Some e)
      | (st, Inr blob) \<Rightarrow>
          (case and_then (decrypt (ad_crypto ad) (ad_cipher ad) blob) (ad_manifest_chunks ad) of
             Inl e \<Rightarrow> (st, [], Some e)
           | Inr digests \<Rightarrow>
               audit_chunks (ad_store ad) (''generation '' @ dec_int (cg_generation cg) @ '': missing referenced chunk'')
                 (remdups digests) st))"

fun audit_all :: "'s auditor \<Rightarrow> committed_generation list \<Rightarrow> 's store_state \<Rightarrow> 's store_state \<times> (fault, string list) result" where
  "audit_all ad [] st = (st, Inr [])"
| "audit_all ad (cg # cgs) st =
     (case audit_generation ad cg st of
        (st, failures, Some e) \<Rightarrow>
          if audit_catches e
          then then_do (audit_all ad cgs st) (\<lambda>st rest. (st, Inr (failures @
            [''generation '' @ dec_int (cg_generation cg) @ '': manifest integrity failure''] @ rest)))
          else (st, Inl e)
      | (st, failures, None) \<Rightarrow> then_do (audit_all ad cgs st) (\<lambda>st rest. (st, Inr (failures @ rest))))"

definition run_audit :: "'s auditor \<Rightarrow> time \<Rightarrow> audit_sink \<Rightarrow> 's store_state
    \<Rightarrow> 's store_state \<times> audit_sink \<times> (fault, audit_result) result" where
  "run_audit ad now sink st =
     (case then_do (committed_generations (ad_store ad) st) (\<lambda>st gens.
         let checked = last_of 2 gens in
         then_do (audit_all ad checked st) (\<lambda>st failures.
           (st, Inr \<lparr> au_sandbox = ad_sandbox ad, au_generations = map cg_generation checked, au_ok = (failures = []),
             au_failures = failures, au_checked_at = now \<rparr>))) of
        (st, Inl e) \<Rightarrow> (st, sink, Inl e)
      | (st, Inr r) \<Rightarrow> (st, sink_record r sink, Inr r))"

text \<open>
  \<open>run_scheduled_audits\<close>: one after the other, the first error ends it.  The auditors share the
  sink and, asking per chunk, keep no index of their own.
\<close>

fun run_scheduled_audits :: "('s auditor \<times> time) list \<Rightarrow> audit_sink \<Rightarrow> 's store_state
    \<Rightarrow> 's store_state \<times> audit_sink \<times> (fault, audit_result list) result" where
  "run_scheduled_audits [] sink st = (st, sink, Inr [])"
| "run_scheduled_audits ((ad, now) # ads) sink st =
     (case run_audit ad now sink st of
        (st, sink, Inl e) \<Rightarrow> (st, sink, Inl e)
      | (st, sink, Inr r) \<Rightarrow>
          (case run_scheduled_audits ads sink st of
             (st, sink, Inl e) \<Rightarrow> (st, sink, Inl e)
           | (st, sink, Inr rs) \<Rightarrow> (st, sink, Inr (r # rs))))"

end
