(* ===== verification/RetentionProperties.thy ===== *)
theory RetentionProperties
  imports Retention CheckpointGuarantees
begin

text \<open>
  What retention and the audit guarantee.  The interface of a broker whose objects may be deleted
  extends the one of the checkpoint; the local broker has it.
\<close>

subsection \<open>A broker that deletes\<close>

text \<open>What a key of the collector stands for.\<close>

definition stands_for :: "string \<times> string \<Rightarrow> string \<Rightarrow> bool" where
  "stands_for key k \<longleftrightarrow>
     (if fst key = ''generation'' then \<exists>g. read_int (snd key) = Some g \<and> (k = manifest_name g \<or> k = commit_name g)
      else k = chunk_name (snd key))"

locale collectable_objects = checkpoint_objects +
  fixes listed_once :: "'a \<Rightarrow> bool"
  assumes listed_law: "\<And>s s' ks. \<lbrakk>fine s; listed_once s; cb_internal_keys cb sid ''commits'' s = (s', Inr ks)\<rbrakk> \<Longrightarrow>
      \<exists>gs. distinct gs \<and> map commit_number ks = map Inr gs"
    and delete_law: "\<And>s category name s' r. \<lbrakk>fine s; category \<in> {''chunks'', ''manifests'', ''commits''};
      cb_internal_delete cb sid category name s = (s', r)\<rbrakk> \<Longrightarrow>
      fine s' \<and> (\<forall>k. k \<noteq> category @ ''/'' @ name \<longrightarrow> obj s' k = obj s k)"
begin

lemma ask_delete:
  assumes "ask (cb_internal_delete cb sid category name) st = (st', r)" "good_state st" "known_chunks st = None"
    "category \<in> {''chunks'', ''manifests'', ''commits''}"
  shows "good_state st' \<and> known_chunks st' = None \<and>
    (\<forall>k. k \<noteq> category @ ''/'' @ name \<longrightarrow> obj (behind st') k = obj (behind st) k)"
proof -
  obtain s where s: "cb_internal_delete cb sid category name (behind st) = (s, r)" "st' = st\<lparr>behind := s\<rparr>"
    using assms(1) by (elim ask_elim)
  have "fine (behind st)" using assms(2) by (simp add: good_state_def)
  from delete_law [OF this assms(4) s(1)] s(2) assms(3) show ?thesis by (simp add: good_state_def)
qed

lemma gc_remove_frame:
  assumes "gc_remove rt key st = (st', r)" "rt_store rt = store" "good_state st" "known_chunks st = None"
  shows "good_state st' \<and> known_chunks st' = None \<and>
    (\<forall>k. \<not> stands_for key k \<longrightarrow> obj (behind st') k = obj (behind st) k)"
proof (cases "fst key = ''generation''")
  case False
  then have "ask (cb_internal_delete cb sid ''chunks'' (snd key @ ''.bin'')) st = (st', r)"
    using assms(1,2) by (cases key) (simp add: gc_remove_def remove_chunk_def)
  from ask_delete [OF this assms(3,4)] False show ?thesis by (simp add: stands_for_def chunk_name_def)
next
  case True
  show ?thesis
  proof (cases "read_int (snd key)")
    case None
    with True assms show ?thesis by (cases key) (auto simp: gc_remove_def)
  next
    case (Some g)
    let ?m = "ask (cb_internal_delete cb sid ''manifests'' (dec_int g @ ''.json.enc''))"
    have e: "then_do (?m st) (\<lambda>st _. ask (cb_internal_delete cb sid ''commits'' (dec_int g @ ''.json'')) st) = (st', r)"
      using assms(1,2) True Some by (cases key) (simp add: gc_remove_def remove_generation_def generation_object_names_def)
    obtain st1 r1 where m: "?m st = (st1, r1)" by fastforce
    from ask_delete [OF m assms(3,4)] have one: "good_state st1" "known_chunks st1 = None"
      "\<forall>k. k \<noteq> manifest_name g \<longrightarrow> obj (behind st1) k = obj (behind st) k"
      by (simp_all add: manifest_name_def)
    show ?thesis
    proof (cases r1)
      case (Inl x)
      with e m one True Some show ?thesis by (auto simp: stands_for_def)
    next
      case (Inr u)
      with e m have "ask (cb_internal_delete cb sid ''commits'' (dec_int g @ ''.json'')) st1 = (st', r)" by simp
      from ask_delete [OF this one(1,2)] have "good_state st'" "known_chunks st' = None"
        "\<forall>k. k \<noteq> commit_name g \<longrightarrow> obj (behind st') k = obj (behind st1) k"
        by (simp_all add: commit_name_def)
      with one True Some show ?thesis by (auto simp: stands_for_def)
    qed
  qed
qed

lemma sweep_marked_frame:
  assumes "sweep_marked rt now items st = (st', r)" "rt_store rt = store" "good_state (gs_store st)" "known_chunks (gs_store st) = None"
    "\<forall>(key, at)\<in>set items. rt_grace rt \<le> now - at \<longrightarrow> \<not> stands_for key k"
  shows "obj (behind (gs_store st')) k = obj (behind (gs_store st)) k"
  using assms
proof (induction items arbitrary: st)
  case (Cons item items)
  obtain key at where item: "item = (key, at)" by (cases item)
  show ?case
  proof (cases "now - at < rt_grace rt")
    case True
    with Cons item show ?thesis by simp
  next
    case False
    obtain s q where g: "gc_remove rt key (gs_store st) = (s, q)" by fastforce
    note frame = gc_remove_frame [OF g Cons.prems(2-4)]
    have same: "obj (behind s) k = obj (behind (gs_store st)) k" using frame Cons.prems(5) item False by auto
    show ?thesis
    proof (cases q)
      case (Inl e)
      with Cons.prems(1) item False g same show ?thesis by auto
    next
      case (Inr u)
      let ?st = "st\<lparr>gs_store := s, gs_marks := AList.delete key (gs_marks st)\<rparr>"
      have "sweep_marked rt now items ?st = (st', r)" using Cons.prems(1) item False g Inr by simp
      from Cons.IH [OF this Cons.prems(2)] frame Cons.prems(5) same show ?thesis by simp
    qed
  qed
qed simp

subsection \<open>Marking\<close>

lemma get_object_known:
  "get_object cs presigning st = (st', r) \<Longrightarrow> known_chunks st' = known_chunks st"
  unfolding get_object_def transfer_def by (elim then_do_elim ask_elim) auto

lemma get_manifest_known: "get_manifest cs g st = (st', r) \<Longrightarrow> known_chunks st' = known_chunks st"
  unfolding get_manifest_def by (elim then_do_elim) (auto dest: get_object_known)

lemma read_commits_known: "read_commits cs keys st = (st', r) \<Longrightarrow> known_chunks st' = known_chunks st"
  by (induction keys arbitrary: st r) (auto elim!: then_do_elim trying_elim dest!: get_object_known)

lemma read_commits_found:
  assumes "read_commits store keys st = (st', Inr cs)" "good_state st"
  shows "map commit_number keys = map Inr (map cg_generation cs) \<and>
    (\<forall>c\<in>set cs. commits_in st (cg_generation c) = Some (cg_manifest_digest c))"
  using assms
proof (induction keys arbitrary: st cs)
  case (Cons key keys)
  obtain g where g: "commit_number key = Inr g" using Cons.prems(1) by (cases "commit_number key") auto
  let ?get = "get_object store (cb_presign_commit cb sid g GET)"
  obtain st1 r1 where o: "?get st = (st1, r1)" by fastforce
  have "fine (behind st)" using Cons.prems(2) by (simp add: good_state_def)
  then have law: "quiet st st1 \<and> (\<forall>raw. r1 = Inr raw \<longrightarrow> obj (behind st) (commit_name g) = Some raw)"
    using get_object_law [OF o Cons.prems(2), where k = "commit_name g"] presign_commit_law by blast
  obtain raw c rest where c: "r1 = Inr raw" "read_commit g raw = Inr c" "read_commits store keys st1 = (st', Inr rest)"
      "cs = c # rest"
    using Cons.prems(1) g o
    by (cases r1; cases "read_commit g (projr r1)"; cases "read_commits store keys st1"; cases "snd (read_commits store keys st1)") auto
  have "good_state st1" using law by (simp add: quiet_def)
  from Cons.IH [OF c(3) this] quiet_views [of st st1] law
  show ?case using c g read_commit_generation [OF c(2)] by (auto simp: commits_in_def)
qed simp

lemma committed_found:
  assumes "committed_generations store st = (st', r)" "good_state st" "known_chunks st = None"
  shows "quiet st st' \<and> known_chunks st' = None \<and> (\<forall>cs. r = Inr cs \<longrightarrow> sorted (map cg_generation cs) \<and>
    (listed_once (behind st) \<longrightarrow> distinct (map cg_generation cs)) \<and>
    (\<forall>c\<in>set cs. commits_in st (cg_generation c) = Some (cg_manifest_digest c)) \<and>
    (\<forall>g. obj (behind st) (commit_name g) \<noteq> None \<longrightarrow> g \<in> cg_generation ` set cs))"
proof -
  obtain s r0 where k: "cb_internal_keys cb sid ''commits'' (behind st) = (s, r0)" by fastforce
  let ?st1 = "st\<lparr>behind := s\<rparr>"
  have a: "ask (cb_internal_keys cb sid ''commits'') st = (?st1, r0)" by (simp add: ask_def k)
  have q1: "quiet st ?st1" "known_chunks ?st1 = None" using ask_keys_law [OF a assms(2)] assms(3) by simp_all
  have fine: "fine (behind st)" using assms(2) by (simp add: good_state_def)
  show ?thesis
  proof (cases r0)
    case (Inl e)
    with assms a q1 show ?thesis by (auto simp: committed_generations_def)
  next
    case (Inr ks)
    obtain st2 r2 where c: "read_commits store ks ?st1 = (st2, r2)" by fastforce
    have e: "committed_generations store st = (st2, map_sum id (sort_key cg_generation) r2)"
      unfolding committed_generations_def brokered_store_simps a Inr then_do_simps c by (cases r2) simp_all
    with assms(1) have r: "st' = st2" "r = map_sum id (sort_key cg_generation) r2" by simp_all
    note law = committed_law [OF assms(1,2)]
    have kn: "known_chunks st' = None" using read_commits_known [OF c] q1(2) r(1) by simp
    show ?thesis
    proof (cases r2)
      case (Inl e)
      with r law kn show ?thesis by simp
    next
      case (Inr cs)
      have good: "good_state ?st1" using q1 by (simp add: quiet_def)
      note f = read_commits_found [OF c [unfolded Inr] good]
      have d: "distinct (map cg_generation cs)" if "listed_once (behind st)"
      proof -
        from listed_law [OF fine that k [unfolded \<open>r0 = Inr ks\<close>]] obtain gs where
          "distinct gs" "map commit_number ks = map Inr gs" by blast
        with f have "map (Inr :: int \<Rightarrow> (fault, int) result) (map cg_generation cs) = map Inr gs" by simp
        then have "map cg_generation cs = gs" by (simp only: inj_map_eq_map [OF inj_Inr])
        with \<open>distinct gs\<close> show ?thesis by simp
      qed
      have "distinct (map cg_generation (sort_key cg_generation cs))" if "listed_once (behind st)"
        using d [OF that] by (simp add: distinct_map)
      with r Inr law kn f quiet_views [OF q1(1)] show ?thesis by simp
    qed
  qed
qed

lemma referenced_law:
  assumes "referenced_chunks rt cgs st = (st', r)" "rt_store rt = store" "good_state st" "known_chunks st = None"
  shows "quiet st st' \<and> known_chunks st' = None \<and>
    (\<forall>refs. r = Inr refs \<longrightarrow> (\<forall>cg\<in>set cgs. \<exists>blob plain chunks. manifests_in st (cg_generation cg) = Some blob \<and>
       decrypt (rt_crypto rt) (rt_cipher rt) blob = Inr plain \<and> rt_manifest_chunks rt plain = Inr chunks \<and> set chunks \<subseteq> set refs))"
  using assms
proof (induction cgs arbitrary: st r)
  case (Cons cg cgs)
  obtain st1 r1 where m: "get_manifest store (cg_generation cg) st = (st1, r1)" by fastforce
  note law = get_manifest_law [OF m Cons.prems(3)]
  have q1: "good_state st1" "known_chunks st1 = None"
    using law get_manifest_known [OF m] Cons.prems(4) by (simp_all add: quiet_def)
  show ?case
  proof (cases "\<exists>blob plain chunks. r1 = Inr blob \<and> decrypt (rt_crypto rt) (rt_cipher rt) blob = Inr plain \<and>
      rt_manifest_chunks rt plain = Inr chunks")
    case False
    with Cons.prems m have "st' = st1 \<and> \<not> is_ok r"
      by (cases r1; cases "decrypt (rt_crypto rt) (rt_cipher rt) (projr r1)";
          cases "rt_manifest_chunks rt (projr (decrypt (rt_crypto rt) (rt_cipher rt) (projr r1)))")
        (auto dest!: sym [of "Inl _"])
    with law q1 show ?thesis by auto
  next
    case True
    then obtain blob plain chunks where b: "r1 = Inr blob" "decrypt (rt_crypto rt) (rt_cipher rt) blob = Inr plain"
      "rt_manifest_chunks rt plain = Inr chunks" by blast
    obtain st2 r2 where rest: "referenced_chunks rt cgs st1 = (st2, r2)" by fastforce
    have "referenced_chunks rt (cg # cgs) st = (st2, map_sum id ((@) chunks) r2)"
      by (cases r2) (simp_all add: Cons.prems(2) m b rest)
    with Cons.prems(1) have r: "st' = st2" "r = map_sum id ((@) chunks) r2" by simp_all
    note IH = Cons.IH [OF rest [folded r(1)] Cons.prems(2) q1]
    have q: "quiet st st1" using law by simp
    have q2: "quiet st st'" "known_chunks st' = None" using quiet_trans [OF q] IH r(1) by simp_all
    have head: "manifests_in st (cg_generation cg) = Some blob" using law b(1) by simp
    show ?thesis
    proof (cases r2)
      case (Inl e)
      with r q2 show ?thesis by simp
    next
      case (Inr rest)
      with IH quiet_views [OF q] have "\<forall>cg\<in>set cgs. \<exists>blob plain ch. manifests_in st (cg_generation cg) = Some blob \<and>
          decrypt (rt_crypto rt) (rt_cipher rt) blob = Inr plain \<and> rt_manifest_chunks rt plain = Inr ch \<and>
          set ch \<subseteq> set rest" by simp
      then have tail: "\<forall>cg\<in>set cgs. \<exists>blob plain ch. manifests_in st (cg_generation cg) = Some blob \<and>
          decrypt (rt_crypto rt) (rt_cipher rt) blob = Inr plain \<and> rt_manifest_chunks rt plain = Inr ch \<and>
          set ch \<subseteq> set (chunks @ rest)" by (metis le_supI2 set_append)
      have "r = Inr (chunks @ rest)" using r(2) Inr by simp
      with q2 head b tail show ?thesis by simp
    qed
  qed
qed (auto simp: quiet_def)

text \<open>What the marks after a successful marking leave alone.\<close>

definition spared :: "'a retention \<Rightarrow> 'a store_state \<Rightarrow> gc_marks \<Rightarrow> int \<Rightarrow> bool" where
  "spared rt st marks g \<longleftrightarrow>
     (\<forall>key\<in>fst ` set marks. \<not> stands_for key (manifest_name g) \<and> \<not> stands_for key (commit_name g)) \<and>
     (\<exists>blob plain chunks. manifests_in st g = Some blob \<and> decrypt (rt_crypto rt) (rt_cipher rt) blob = Inr plain \<and>
        rt_manifest_chunks rt plain = Inr chunks \<and>
        (\<forall>d\<in>set chunks. \<forall>key\<in>fst ` set marks. \<not> stands_for key (chunk_name d)))"

lemma keys_of_marks: "fst ` set (renew_marks now (gc_keys gs ds) marks) =
    (\<lambda>g. (''generation'', dec_int g)) ` set gs \<union> (\<lambda>d. (''chunk'', d)) ` set ds"
  by (auto simp: renew_marks_def gc_keys_def image_image image_Un)

lemma stands_for_simps [simp]:
  "\<not> stands_for (''chunk'', d) (manifest_name g)" "\<not> stands_for (''chunk'', d) (commit_name g)"
  "\<not> stands_for (''generation'', dec_int h) (chunk_name d)"
  "stands_for (''generation'', dec_int h) (manifest_name g) \<longleftrightarrow> g = h"
  "stands_for (''generation'', dec_int h) (commit_name g) \<longleftrightarrow> g = h"
  "stands_for (''chunk'', d) (chunk_name d') \<longleftrightarrow> d = d'"
  by (auto simp: stands_for_def)

lemma chunk_digests_law:
  assumes "chunk_digests store st = (st', r)" "good_state st" "known_chunks st = None"
  shows "quiet st st' \<and> known_chunks st' = None"
proof -
  obtain st1 r1 where a: "ask (cb_internal_keys cb sid ''chunks'') st = (st1, r1)" by fastforce
  have "st' = st1" using assms(1) a by (cases r1) (auto simp: chunk_digests_def)
  with ask_keys_law [OF a assms(2)] assms(3) show ?thesis by simp
qed

lemma gc_mark_law:
  assumes "gc_mark rt now st = (st', r)" "rt_store rt = store" "good_state (gs_store st)" "known_chunks (gs_store st) = None"
  shows "quiet (gs_store st) (gs_store st') \<and> known_chunks (gs_store st') = None \<and>
    (\<forall>plan. r = Inr plan \<longrightarrow> (\<exists>(gens :: committed_generation list) keys. gs_marks st' = renew_marks now keys (gs_marks st) \<and>
       retained_generations plan = map cg_generation (last_of (rt_retain rt) gens) \<and>
       sorted (map cg_generation gens) \<and> (listed_once (behind (gs_store st)) \<longrightarrow> distinct (map cg_generation gens)) \<and>
       (\<forall>c\<in>set gens. commits_in (gs_store st) (cg_generation c) = Some (cg_manifest_digest c)) \<and>
       (\<forall>g. obj (behind (gs_store st)) (commit_name g) \<noteq> None \<longrightarrow> g \<in> cg_generation ` set gens) \<and>
       (\<forall>g\<in>set (retained_generations plan). spared rt (gs_store st) (gs_marks st') g)))"
proof -
  obtain s1 r1 where c: "committed_generations store (gs_store st) = (s1, r1)" by fastforce
  note l1 = committed_found [OF c assms(3,4)]
  show ?thesis
  proof (cases r1)
    case (Inl e)
    with assms(1,2) c l1 show ?thesis by (auto simp: gc_mark_def)
  next
    case (Inr gens)
    let ?kept = "last_of (rt_retain rt) gens"
    obtain s2 r2 where f: "referenced_chunks rt ?kept s1 = (s2, r2)" by fastforce
    have q1: "quiet (gs_store st) s1" "good_state s1" "known_chunks s1 = None" using l1 by (simp_all add: quiet_def)
    note l2 = referenced_law [OF f assms(2) q1(2,3)]
    have q2: "quiet (gs_store st) s2" "good_state s2" "known_chunks s2 = None"
      using quiet_trans [OF q1(1), of s2] l2 by (simp_all add: quiet_def)
    show ?thesis
    proof (cases r2)
      case (Inl e)
      with assms(1,2) c \<open>r1 = Inr gens\<close> f q2 show ?thesis by (auto simp: gc_mark_def Let_def)
    next
      case (Inr refs)
      obtain s3 r3 where d: "chunk_digests store s2 = (s3, r3)" by fastforce
      have q3: "quiet (gs_store st) s3" "known_chunks s3 = None"
        using quiet_trans [OF q2(1), of s3] chunk_digests_law [OF d q2(2,3)] by simp_all
      show ?thesis
      proof (cases r3)
        case (Inl e)
        with assms(1,2) c \<open>r1 = Inr gens\<close> f Inr d q3 show ?thesis by (auto simp: gc_mark_def Let_def)
      next
        case (Inr ds)
        let ?numbers = "map cg_generation ?kept"
        let ?keys = "gc_keys (filter (\<lambda>g. g \<notin> set ?numbers) (map cg_generation gens)) (filter (\<lambda>d. d \<notin> set refs) ds)"
        have st': "gs_store st' = s3" "gs_marks st' = renew_marks now ?keys (gs_marks st)"
          and plan: "\<And>plan. r = Inr plan \<Longrightarrow> retained_generations plan = ?numbers"
          using assms(1,2) c \<open>r1 = Inr gens\<close> f \<open>r2 = Inr refs\<close> d Inr by (auto simp: gc_mark_def Let_def)
        have kept: "spared rt (gs_store st) (gs_marks st') g" if "g \<in> set ?numbers" for g
        proof -
          from that obtain cg where "cg \<in> set ?kept" "g = cg_generation cg" by auto
          with l2 \<open>r2 = Inr refs\<close> quiet_views [OF q1(1)] obtain blob plain chunks where b:
            "manifests_in (gs_store st) g = Some blob" "decrypt (rt_crypto rt) (rt_cipher rt) blob = Inr plain"
            "rt_manifest_chunks rt plain = Inr chunks" "set chunks \<subseteq> set refs" by force
          have "g \<notin> set (filter (\<lambda>g. g \<notin> set ?numbers) (map cg_generation gens))" using that by (simp only: set_filter) blast
          then have "\<forall>key\<in>fst ` set (gs_marks st'). \<not> stands_for key (manifest_name g) \<and> \<not> stands_for key (commit_name g)"
            unfolding st'(2) keys_of_marks ball_Un ball_simps by (simp only: stands_for_simps) blast
          moreover have "\<forall>d\<in>set chunks. \<forall>key\<in>fst ` set (gs_marks st'). \<not> stands_for key (chunk_name d)"
            unfolding st'(2) keys_of_marks using b(4) by auto
          ultimately show ?thesis unfolding spared_def using b(1-3) by blast
        qed
        have l1: "sorted (map cg_generation gens)" "listed_once (behind (gs_store st)) \<longrightarrow> distinct (map cg_generation gens)"
          "\<forall>c\<in>set gens. commits_in (gs_store st) (cg_generation c) = Some (cg_manifest_digest c)"
          "\<forall>g. obj (behind (gs_store st)) (commit_name g) \<noteq> None \<longrightarrow> g \<in> cg_generation ` set gens"
          using l1 \<open>r1 = Inr gens\<close> by blast+
        show ?thesis
        proof (intro conjI allI impI)
          show "quiet (gs_store st) (gs_store st')" "known_chunks (gs_store st') = None" using st' q3 by simp_all
          fix plan
          assume p: "r = Inr plan"
          have "\<forall>g\<in>set (retained_generations plan). spared rt (gs_store st) (gs_marks st') g"
            unfolding plan [OF p] using kept by (rule ballI)
          with l1 st'(2) plan [OF p] show "\<exists>(gens :: committed_generation list) keys. gs_marks st' = renew_marks now keys (gs_marks st) \<and>
              retained_generations plan = map cg_generation (last_of (rt_retain rt) gens) \<and>
              sorted (map cg_generation gens) \<and> (listed_once (behind (gs_store st)) \<longrightarrow> distinct (map cg_generation gens)) \<and>
              (\<forall>c\<in>set gens. commits_in (gs_store st) (cg_generation c) = Some (cg_manifest_digest c)) \<and>
              (\<forall>g. obj (behind (gs_store st)) (commit_name g) \<noteq> None \<longrightarrow> g \<in> cg_generation ` set gens) \<and>
              (\<forall>g\<in>set (retained_generations plan). spared rt (gs_store st) (gs_marks st') g)" by blast
        qed
      qed
    qed
  qed
qed

text \<open>A sweep leaves every spared generation alone.\<close>

lemma gc_sweep_law:
  assumes "gc_sweep rt marking now st = (st', r)" "rt_store rt = store" "good_state (gs_store st)" "known_chunks (gs_store st) = None"
    "obj (behind (gs_store st')) \<noteq> obj (behind (gs_store st))"
  obtains st1 plan where "gc_mark rt marking st = (st1, Inr plan)"
    "sweep_marked rt now (gs_marks st1) st1 = (st', map_sum id (\<lambda>_. ()) r)" "quiet (gs_store st) (gs_store st1)"
    "\<And>k. \<forall>key\<in>fst ` set (gs_marks st1). \<not> stands_for key k \<Longrightarrow> obj (behind (gs_store st')) k = obj (behind (gs_store st)) k"
proof -
  obtain st1 r1 where m: "gc_mark rt marking st = (st1, r1)" by fastforce
  note law = conjunct1 [OF gc_mark_law [OF m assms(2-4)]] conjunct1 [OF conjunct2 [OF gc_mark_law [OF m assms(2-4)]]]
  show ?thesis
  proof (cases r1)
    case (Inl e)
    with assms(1,5) m law show ?thesis by (auto simp: gc_sweep_def quiet_def)
  next
    case (Inr plan)
    obtain st2 r2 where s: "sweep_marked rt now (gs_marks st1) st1 = (st2, r2)" by fastforce
    have r: "st2 = st'" "r2 = map_sum id (\<lambda>_. ()) r" using assms(1) m Inr s by (cases r2; auto simp: gc_sweep_def)+
    have g: "good_state (gs_store st1)" "known_chunks (gs_store st1) = None" "obj (behind (gs_store st1)) = obj (behind (gs_store st))"
      using law by (simp_all add: quiet_def)
    show ?thesis
      using that [OF m [unfolded Inr]] s r law sweep_marked_frame [OF s assms(2) g(1,2)] g(3) by fastforce
  qed
qed

lemma spared_kept:
  assumes "spared rt st marks g"
    "\<And>k. \<forall>key\<in>fst ` set marks. \<not> stands_for key k \<Longrightarrow> obj (behind st') k = obj (behind st) k"
  shows "manifests_in st' g = manifests_in st g \<and> commits_in st' g = commits_in st g \<and>
    (\<exists>blob plain chunks. manifests_in st g = Some blob \<and> decrypt (rt_crypto rt) (rt_cipher rt) blob = Inr plain \<and>
        rt_manifest_chunks rt plain = Inr chunks \<and> (\<forall>d\<in>set chunks. chunks_in st' d = chunks_in st d))"
  using assms unfolding spared_def manifests_in_def commits_in_def chunks_in_def by (metis (no_types, lifting))

text \<open>Only what was marked long enough ago goes.\<close>

lemma sweep_grace:
  assumes "gc_sweep rt marking now st = (st', r)" "rt_store rt = store" "good_state (gs_store st)" "known_chunks (gs_store st) = None"
    "obj (behind (gs_store st')) k \<noteq> obj (behind (gs_store st)) k" "now - marking < rt_grace rt"
  shows "\<exists>key t. map_of (gs_marks st) key = Some t \<and> rt_grace rt \<le> now - t \<and> stands_for key k"
proof -
  have "obj (behind (gs_store st')) \<noteq> obj (behind (gs_store st))" using assms(5) by auto
  from gc_sweep_law [OF assms(1-4) this] obtain st1 plan where s: "gc_mark rt marking st = (st1, Inr plan)"
    "sweep_marked rt now (gs_marks st1) st1 = (st', map_sum id (\<lambda>_. ()) r)" "quiet (gs_store st) (gs_store st1)" by metis
  note law = gc_mark_law [OF s(1) assms(2-4)]
  then have k1: "known_chunks (gs_store st1) = None" by simp
  from law obtain keys where keys: "gs_marks st1 = renew_marks marking keys (gs_marks st)" by blast
  have g: "good_state (gs_store st1)" "obj (behind (gs_store st1)) = obj (behind (gs_store st))"
    using s(3) by (simp_all add: quiet_def)
  from sweep_marked_frame [OF s(2) assms(2) g(1) k1, of k] assms(5) g(2) obtain key t where
    kt: "(key, t) \<in> set (gs_marks st1)" "rt_grace rt \<le> now - t" "stands_for key k" by fastforce
  moreover from kt(1) keys have "map_of (gs_marks st) key = Some t \<or> t = marking"
    by (auto simp: renew_marks_def split: option.splits)
  ultimately have "map_of (gs_marks st) key = Some t" using assms(6) by auto
  with kt(2,3) show ?thesis by blast
qed

subsection \<open>The audit\<close>

definition intact :: "'a auditor \<Rightarrow> 'a store_state \<Rightarrow> int \<Rightarrow> bool" where
  "intact ad st g \<longleftrightarrow>
     (\<exists>blob plain chunks. manifests_in st g = Some blob \<and> decrypt (ad_crypto ad) (ad_cipher ad) blob = Inr plain \<and>
        ad_manifest_chunks ad plain = Inr chunks \<and> (\<forall>d\<in>set chunks. chunks_in st d \<noteq> None))"

lemma quiet_intact: "quiet st st' \<Longrightarrow> intact ad st' g = intact ad st g"
  using quiet_views [of st st'] by (simp add: intact_def)

lemma audit_chunks_law:
  assumes "audit_chunks store missing ds st = (st', failures, e)" "good_state st"
  shows "quiet st st' \<and> (failures = [] \<longrightarrow> e = None \<longrightarrow> (\<forall>d\<in>set ds. chunks_in st d \<noteq> None))"
  using assms
proof (induction ds arbitrary: st failures)
  case (Cons d ds)
  obtain st1 r1 where h: "has_chunk store d st = (st1, r1)" by fastforce
  note law = has_chunk_store_law [OF h Cons.prems(2)]
  show ?case
  proof (cases r1)
    case (Inl x)
    with Cons.prems(1) h law show ?thesis by auto
  next
    case (Inr present)
    obtain st2 fs2 e2 where rest: "audit_chunks store missing ds st1 = (st2, fs2, e2)" by (metis prod_cases3)
    have r: "st2 = st'" "e2 = e" "failures = (if present then [] else [missing]) @ fs2"
      using Cons.prems(1) h Inr rest by auto
    have q1: "quiet st st1" "good_state st1" using law by (simp_all add: quiet_def)
    note IH = Cons.IH [OF rest [unfolded r(1,2)] q1(2)]
    have "quiet st st'" using quiet_trans [OF q1(1), of st'] IH by simp
    moreover have "chunks_in st1 = chunks_in st" using quiet_views [OF q1(1)] by simp
    moreover have "chunks_in st d \<noteq> None" if "present" using law Inr that by (simp add: chunks_in_def)
    ultimately show ?thesis using IH r(3) by (auto split: if_splits)
  qed
qed (simp add: quiet_def)

lemma audit_generation_law:
  assumes "audit_generation ad cg st = (st', failures, e)" "ad_store ad = store" "good_state st"
  shows "quiet st st' \<and> (failures = [] \<longrightarrow> e = None \<longrightarrow> intact ad st (cg_generation cg))"
proof -
  obtain st1 r1 where m: "get_manifest store (cg_generation cg) st = (st1, r1)" by fastforce
  note law = get_manifest_law [OF m assms(3)]
  show ?thesis
  proof (cases "\<exists>blob chunks. r1 = Inr blob \<and> and_then (decrypt (ad_crypto ad) (ad_cipher ad) blob) (ad_manifest_chunks ad) = Inr chunks")
    case False
    with assms(1,2) m have "st' = st1" "e \<noteq> None"
      by (auto simp: audit_generation_def split: sum.splits)
    with law show ?thesis by auto
  next
    case True
    then obtain blob chunks where b: "r1 = Inr blob"
      "and_then (decrypt (ad_crypto ad) (ad_cipher ad) blob) (ad_manifest_chunks ad) = Inr chunks" by blast
    then obtain missing where a: "audit_chunks store missing (remdups chunks) st1 = (st', failures, e)"
      using assms(1,2) m by (auto simp: audit_generation_def)
    have q: "quiet st st1" "good_state st1" using law by (simp_all add: quiet_def)
    from audit_chunks_law [OF a q(2)] quiet_trans [OF q(1), of st'] quiet_views [OF q(1)] law b show ?thesis
      by (auto simp: intact_def and_then_Inr)
  qed
qed

lemma audit_all_law:
  assumes "audit_all ad cgs st = (st', r)" "ad_store ad = store" "good_state st"
  shows "quiet st st' \<and> (r = Inr [] \<longrightarrow> (\<forall>cg\<in>set cgs. intact ad st (cg_generation cg)))"
  using assms
proof (induction cgs arbitrary: st r)
  case (Cons cg cgs)
  obtain st1 fs e where g: "audit_generation ad cg st = (st1, fs, e)" by (metis prod_cases3)
  note law = audit_generation_law [OF g Cons.prems(2,3)]
  then have q: "quiet st st1" "good_state st1" by (simp_all add: quiet_def)
  obtain st2 r2 where rest: "audit_all ad cgs st1 = (st2, r2)" by fastforce
  show ?case
  proof (cases "\<exists>x. e = Some x \<and> \<not> audit_catches x")
    case True
    with Cons.prems(1) g q show ?thesis by auto
  next
    case False
    with Cons.prems(1) g rest have "st2 = st'" and r: "r = Inr [] \<Longrightarrow> r2 = Inr [] \<and> fs = [] \<and> e = None"
      by (cases e; cases r2; auto)+
    note IH = Cons.IH [OF rest [unfolded \<open>st2 = st'\<close>] Cons.prems(2) q(2)]
    from quiet_trans [OF q(1), of st'] IH r law quiet_intact [OF q(1)] show ?thesis by auto
  qed
qed (simp add: quiet_def)

lemma run_audit_law:
  assumes "run_audit ad now sink st = (st', sink', r)" "ad_store ad = store" "good_state st" "known_chunks st = None"
  shows "quiet st st' \<and> (\<forall>res. r = Inr res \<longrightarrow> (\<exists>gens :: committed_generation list.
      au_generations res = map cg_generation (last_of 2 gens) \<and> sorted (map cg_generation gens) \<and>
      (listed_once (behind st) \<longrightarrow> distinct (map cg_generation gens)) \<and>
      (\<forall>c\<in>set gens. commits_in st (cg_generation c) = Some (cg_manifest_digest c)) \<and>
      (\<forall>g. obj (behind st) (commit_name g) \<noteq> None \<longrightarrow> g \<in> cg_generation ` set gens) \<and>
      (au_ok res \<longrightarrow> (\<forall>g\<in>set (au_generations res). intact ad st g))))"
proof -
  obtain st1 r1 where c: "committed_generations store st = (st1, r1)" by fastforce
  note l1 = committed_found [OF c assms(3,4)]
  then have q: "quiet st st1" "good_state st1" by (simp_all add: quiet_def)
  show ?thesis
  proof (cases r1)
    case (Inl e)
    with assms(1,2) c q show ?thesis by (auto simp: run_audit_def)
  next
    case (Inr gens)
    obtain st2 r2 where a: "audit_all ad (last_of 2 gens) st1 = (st2, r2)" by fastforce
    note l2 = audit_all_law [OF a assms(2) q(2)]
    have st': "st' = st2" and res: "\<And>res. r = Inr res \<Longrightarrow> au_generations res = map cg_generation (last_of 2 gens) \<and>
        (au_ok res \<longrightarrow> r2 = Inr [])"
      using assms(1,2) c Inr a by (cases r2; auto simp: run_audit_def Let_def)+
    have "quiet st st'" using quiet_trans [OF q(1), of st'] l2 st' by simp
    moreover have "\<forall>g\<in>set (au_generations res). intact ad st g" if "r = Inr res" "au_ok res" for res
      using res [OF that(1)] that(2) l2 quiet_intact [OF q(1)] by auto
    moreover have gens: "sorted (map cg_generation gens)" "listed_once (behind st) \<longrightarrow> distinct (map cg_generation gens)"
      "\<forall>c\<in>set gens. commits_in st (cg_generation c) = Some (cg_manifest_digest c)"
      "\<forall>g. obj (behind st) (commit_name g) \<noteq> None \<longrightarrow> g \<in> cg_generation ` set gens"
      using l1 Inr by blast+
    ultimately show ?thesis
      by (intro conjI allI impI exI [of _ gens]) (simp_all add: res gens del: not_None_eq)
  qed
qed

end

subsection \<open>The local broker deletes\<close>

lemma commit_number_key: "commit_number (snapshot_key sid (commit_name g)) = Inr g"
proof -
  have "after_slash (snapshot_key sid ''commits'' @ CHR ''/'' # (dec_int g @ ''.json'')) = dec_int g @ ''.json''"
    by (rule after_slash_append) (use dec_int_no_slash in auto)
  then show ?thesis by (simp add: snapshot_key_def commit_name_def commit_number_def)
qed

lemma local_listed_once:
  assumes "local_internal_keys sid ''commits'' s = Inr ks" "fine_objects sid s" "distinct (map fst (objects s))"
  shows "\<exists>gs. distinct gs \<and> map commit_number ks = map Inr gs"
proof -
  let ?p = "snapshot_key sid ''commits/''"
  have ks: "ks = store_internal_list ?p s"
    using assms(1) by (auto simp: local_internal_keys_def validate_sandbox_def and_then_Inr split: if_splits)
  have d: "distinct ks" using assms(3) by (simp add: ks store_internal_list_def)
  have number: "\<exists>g. key = snapshot_key sid (commit_name g) \<and> commit_number key = Inr g" if "key \<in> set ks" for key
  proof -
    have key: "key \<in> fst ` set (objects s)" "starts_with key ?p" using that by (auto simp: ks store_internal_list_def)
    then obtain n where "key = ?p @ n" by (auto simp: starts_with_iff)
    then have n: "key = snapshot_key sid (''commits/'' @ n)" by (simp only: snapshot_key_append)
    with assms(2) key(1) obtain k where k: "named k" "key = snapshot_key sid k" unfolding fine_objects_def by force
    then have "named (''commits/'' @ n)" using n by simp
    then obtain g where g: "''commits/'' @ n = commit_name g"
      by (auto simp: named_def chunk_name_def manifest_name_def commit_name_def)
    with n show ?thesis using commit_number_key by auto
  qed
  let ?g = "\<lambda>key. projr (commit_number key)"
  have "inj_on ?g (set ks)"
  proof (rule inj_onI)
    fix x y
    assume "x \<in> set ks" "y \<in> set ks" "?g x = ?g y"
    then show "x = y" using number [of x] number [of y] by auto
  qed
  with d have "distinct (map ?g ks)" by (simp add: distinct_map)
  moreover have "map commit_number ks = map Inr (map ?g ks)"
    using number by (auto intro!: map_cong dest!: number)
  ultimately show ?thesis by blast
qed

lemma local_delete_law:
  assumes "local_internal_delete sid category name s = (s', r)" "fine_objects sid s"
  shows "fine_objects sid s' \<and> (\<forall>k. k \<noteq> category @ ''/'' @ name \<longrightarrow> object_at sid s' k = object_at sid s k)"
proof -
  have "fine_objects sid (store_internal_delete key s)" for key
    using assms(2) by (auto simp: fine_objects_def store_internal_delete_def AList.delete_eq)
  moreover have "object_at sid (store_internal_delete (snapshot_key sid k') s) k = object_at sid s k" if "k \<noteq> k'" for k k'
    using that by (simp add: object_at_def store_internal_delete_def delete_conv')
  ultimately show ?thesis
    using assms by (auto simp: local_internal_delete_def validate_sandbox_def split: if_splits)
qed

interpretation local_collectable: collectable_objects "local_broker b" sid index_chunks no_prefetch
  "fine_objects sid" "object_at sid" "grant_for sid" "\<lambda>s. distinct (map fst (objects s))" for b sid index_chunks
proof unfold_locales
  fix s s' ks
  assume "fine_objects sid s" "distinct (map fst (objects s))" "cb_internal_keys (local_broker b) sid ''commits'' s = (s', Inr ks)"
  then show "\<exists>gs. distinct gs \<and> map commit_number ks = map Inr gs"
    by (intro local_listed_once) (auto simp: local_broker_def)
next
  fix s category name s' and r :: "(fault, unit) result"
  assume "fine_objects sid s" "cb_internal_delete (local_broker b) sid category name s = (s', r)"
  then show "fine_objects sid s' \<and> (\<forall>k. k \<noteq> category @ ''/'' @ name \<longrightarrow> object_at sid s' k = object_at sid s k)"
    by (intro local_delete_law) (simp_all add: local_broker_def)
qed

subsection \<open>The digests a manifest names\<close>

lemma references_of_entries:
  assumes "references_of (map (\<lambda>e. sort_json (JObj (entry_as_dict e))) es) = Inr refs" "e \<in> set es"
  shows "set (entry_chunks e) \<subseteq> set refs"
  using assms
proof (induction es arbitrary: refs)
  case (Cons x es)
  have "get_default (sort_key fst (entry_as_dict x)) ''chunks'' (JList []) = JList (map JStr (entry_chunks x))"
    by (simp add: get_default_def map_of_sorted [OF distinct_dict] map_of_dict)
  with Cons.prems(1) obtain rest where r: "references_of (map (\<lambda>e. sort_json (JObj (entry_as_dict e))) es) = Inr rest"
    "refs = entry_chunks x @ rest"
    by (cases "references_of (map (\<lambda>e. sort_json (JObj (entry_as_dict e))) es)")
      (auto simp: sorted_dict comp_def split: if_splits simp del: sort_json.simps)
  with Cons.IH [OF r(1)] Cons.prems(2) show ?case by auto
qed simp

lemma references_of_manifest:
  assumes "chunk_references (to_json m) = Inr refs" "e \<in> set (manifest_entries m)"
  shows "set (entry_chunks e) \<subseteq> set refs"
proof (rule references_of_entries)
  show "references_of (map (\<lambda>e. sort_json (JObj (entry_as_dict e))) (manifest_entries m)) = Inr refs"
    using assms(1) by (simp add: chunk_references_def load_to_json get_sorted_doc del: sort_json.simps)
qed (fact assms(2))

text \<open>The newest of a sorted list.\<close>

lemma newest_kept:
  assumes "sorted xs" "distinct xs" "x \<in> set xs" "card {y \<in> set xs. x < y} < n"
  shows "x \<in> set (last_of n xs)"
proof (rule ccontr)
  let ?k = "length xs - n"
  assume "x \<notin> set (last_of n xs)"
  then have "x \<in> set (take ?k xs)"
    using assms(3) by (metis Un_iff append_take_drop_id last_of_def set_append)
  then have k: "?k > 0" by (cases ?k) auto
  have "sorted (take ?k xs @ drop ?k xs)" using assms(1) by simp
  with \<open>x \<in> set (take ?k xs)\<close> have "\<forall>y\<in>set (drop ?k xs). x \<le> y" unfolding sorted_append by blast
  moreover have "x \<notin> set (drop ?k xs)" using \<open>x \<notin> set (last_of n xs)\<close> by (simp add: last_of_def)
  ultimately have "set (drop ?k xs) \<subseteq> {y \<in> set xs. x < y}"
    using set_drop_subset [of ?k xs] by (auto simp: order.strict_iff_order)
  then have "card (set (drop ?k xs)) \<le> card {y \<in> set xs. x < y}" by (intro card_mono) simp_all
  moreover have "card (set (drop ?k xs)) = n" using assms(2) k by (simp add: distinct_card)
  ultimately show False using assms(4) by simp
qed

lemma newest_listed:
  fixes gens :: "committed_generation list"
  assumes "sorted (map cg_generation gens)" "distinct (map cg_generation gens)"
    "\<forall>c\<in>set gens. commits_at sid st (cg_generation c) = Some (cg_manifest_digest c)"
    "\<forall>g. object_at sid (behind st) (commit_name g) \<noteq> None \<longrightarrow> g \<in> cg_generation ` set gens"
    "commits_at sid st g \<noteq> None" "card {h. g < h \<and> commits_at sid st h \<noteq> None} < n"
  shows "g \<in> set (map cg_generation (last_of n gens))"
proof -
  have "object_at sid (behind st) (commit_name h) \<noteq> None" if "commits_at sid st h \<noteq> None" for h
    using that by (cases "object_at sid (behind st) (commit_name h)") (simp_all add: commits_at_def)
  with assms(3,4) have commits: "set (map cg_generation gens) = {h. commits_at sid st h \<noteq> None}" by auto
  then have "{h \<in> set (map cg_generation gens). g < h} = {h. g < h \<and> commits_at sid st h \<noteq> None}" by blast
  moreover have "g \<in> set (map cg_generation gens)" using commits assms(5) by simp
  ultimately have "g \<in> set (last_of n (map cg_generation gens))" using newest_kept [OF assms(1,2)] assms(6) by simp
  then show ?thesis by (simp add: last_of_def drop_map)
qed

subsection \<open>The guarantees\<close>

text \<open>
  (C7) A sweep of the collector never touches a retained generation: a committed generation with
  fewer than \<open>retain_generations\<close> newer commits keeps its commit, its manifest and every chunk its
  manifest names, wherever the sweep fails and whatever marks are left from earlier sweeps.
\<close>

theorem sweep_keeps_retained:
  assumes "gc_sweep rt marking now st = (st', r)"
    and "rt_store rt = \<lparr> cs_broker = local_broker b, cs_sandbox = sid, cs_index_chunks = index \<rparr>"
    and "rt_manifest_chunks rt = chunk_references"
    and "fine_objects sid (behind (gs_store st))" "distinct (map fst (objects (behind (gs_store st))))"
    and "known_chunks (gs_store st) = None"
    and "commits_at sid (gs_store st) g = Some m"
    and "complete_generation (rt_crypto rt) (rt_cipher rt) sid (chunks_at sid (gs_store st)) (manifests_at sid (gs_store st)) g m"
    and "card {h. g < h \<and> commits_at sid (gs_store st) h \<noteq> None} < rt_retain rt"
  shows "commits_at sid (gs_store st') g = Some m \<and>
    complete_generation (rt_crypto rt) (rt_cipher rt) sid (chunks_at sid (gs_store st')) (manifests_at sid (gs_store st')) g m"
proof (cases "object_at sid (behind (gs_store st')) = object_at sid (behind (gs_store st))")
  case True
  then have "commits_at sid (gs_store st') = commits_at sid (gs_store st)" "chunks_at sid (gs_store st') = chunks_at sid (gs_store st)"
    "manifests_at sid (gs_store st') = manifests_at sid (gs_store st)"
    by (simp_all add: fun_eq_iff commits_at_def chunks_at_def manifests_at_def)
  with assms(7,8) show ?thesis by simp
next
  case False
  let ?s = "gs_store st" and ?s' = "gs_store st'"
  have store: "rt_store rt = local_objects.store b sid index" using assms(2) by (simp add: store_eq)
  have good: "local_objects.good_state sid ?s" using assms(4,6) by (simp add: local_objects.good_state_def)
  obtain st1 plan where m: "gc_mark rt marking st = (st1, Inr plan)"
    and frame: "\<And>k. \<forall>key\<in>fst ` set (gs_marks st1). \<not> stands_for key k \<Longrightarrow>
      object_at sid (behind ?s') k = object_at sid (behind ?s) k"
    using local_collectable.gc_sweep_law [OF assms(1) store good assms(6) False] by metis
  obtain gens :: "committed_generation list" where gens:
    "retained_generations plan = map cg_generation (last_of (rt_retain rt) gens)" "sorted (map cg_generation gens)"
    "distinct (map cg_generation gens)" "\<forall>c\<in>set gens. commits_at sid ?s (cg_generation c) = Some (cg_manifest_digest c)"
    "\<forall>g. object_at sid (behind ?s) (commit_name g) \<noteq> None \<longrightarrow> g \<in> cg_generation ` set gens"
    "\<forall>g\<in>set (retained_generations plan). local_collectable.spared sid rt ?s (gs_marks st1) g"
    using local_collectable.gc_mark_law [OF m store good assms(6)] assms(5) unfolding views by blast
  have "g \<in> set (retained_generations plan)"
    unfolding gens(1) by (rule newest_listed [OF gens(2-5)]) (use assms(7,9) in simp_all)
  with gens(6) have "local_collectable.spared sid rt ?s (gs_marks st1) g" by blast
  from local_collectable.spared_kept [OF this frame, unfolded views]
  obtain blob plain chunks where kept: "manifests_at sid ?s' g = manifests_at sid ?s g" "commits_at sid ?s' g = commits_at sid ?s g"
    "manifests_at sid ?s g = Some blob" "decrypt (rt_crypto rt) (rt_cipher rt) blob = Inr plain"
    "chunk_references plain = Inr chunks" "\<forall>d\<in>set chunks. chunks_at sid ?s' d = chunks_at sid ?s d"
    using assms(3) by auto
  from assms(8) obtain mf where mf: "blob_digest blob = m" "plain = to_json mf" "manifest_generation mf = g"
    "manifest_sandbox mf = sid" "\<forall>e\<in>set (manifest_entries mf). \<forall>d\<in>set (entry_chunks e). chunks_at sid ?s d \<noteq> None"
    using kept(3,4) unfolding complete_generation_def by auto
  have "chunks_at sid ?s' d \<noteq> None" if "e \<in> set (manifest_entries mf)" "d \<in> set (entry_chunks e)" for e d
  proof -
    have "d \<in> set chunks" using references_of_manifest [OF kept(5) [unfolded mf(2)] that(1)] that(2) by blast
    with kept(6) mf(5) that show ?thesis by auto
  qed
  then show ?thesis using kept mf assms(7) unfolding complete_generation_def by auto
qed

text \<open>
  Nothing is deleted before its grace period is over: when the clock advances less than the
  grace period during a sweep, every object that goes had been marked by an earlier sweep at least
  one grace period ago.
\<close>

theorem sweep_respects_grace:
  assumes "gc_sweep rt marking now st = (st', r)"
    and "rt_store rt = \<lparr> cs_broker = local_broker b, cs_sandbox = sid, cs_index_chunks = index \<rparr>"
    and "fine_objects sid (behind (gs_store st))" "known_chunks (gs_store st) = None"
    and "now - marking < rt_grace rt"
  shows "object_at sid (behind (gs_store st')) k = object_at sid (behind (gs_store st)) k \<or>
    (\<exists>key t. map_of (gs_marks st) key = Some t \<and> rt_grace rt \<le> now - t \<and> stands_for key k)"
  using assms local_collectable.sweep_grace [of rt marking now st st' r b sid index k]
  by (simp add: store_eq local_objects.good_state_def) blast

text \<open>
  An audit that reports no failure has found the two newest generations intact: their
  manifests decrypt and every chunk these name is stored.  An audit changes no object.
\<close>

theorem audit_ok_means_intact:
  assumes "run_audit ad now sink st = (st', sink', Inr res)" "au_ok res"
    and "ad_store ad = \<lparr> cs_broker = local_broker b, cs_sandbox = sid, cs_index_chunks = index \<rparr>"
    and "fine_objects sid (behind st)" "distinct (map fst (objects (behind st)))" "known_chunks st = None"
    and "commits_at sid st g \<noteq> None" "card {h. g < h \<and> commits_at sid st h \<noteq> None} < 2"
  shows "object_at sid (behind st') = object_at sid (behind st) \<and> g \<in> set (au_generations res) \<and>
    (\<exists>blob plain chunks. manifests_at sid st g = Some blob \<and> decrypt (ad_crypto ad) (ad_cipher ad) blob = Inr plain \<and>
        ad_manifest_chunks ad plain = Inr chunks \<and> (\<forall>d\<in>set chunks. chunks_at sid st d \<noteq> None))"
proof -
  have store: "ad_store ad = local_objects.store b sid index" using assms(3) by (simp add: store_eq)
  have good: "local_objects.good_state sid st" using assms(4,6) by (simp add: local_objects.good_state_def)
  note law = local_collectable.run_audit_law [OF assms(1) store good assms(6)]
  from law have "object_at sid (behind st') = object_at sid (behind st)" by (simp add: local_objects.quiet_def)
  moreover obtain gens :: "committed_generation list" where gens:
    "au_generations res = map cg_generation (last_of 2 gens)" "sorted (map cg_generation gens)"
    "distinct (map cg_generation gens)" "\<forall>c\<in>set gens. commits_at sid st (cg_generation c) = Some (cg_manifest_digest c)"
    "\<forall>g. object_at sid (behind st) (commit_name g) \<noteq> None \<longrightarrow> g \<in> cg_generation ` set gens"
    "\<forall>g\<in>set (au_generations res). local_collectable.intact sid ad st g"
    using law assms(2,5) unfolding views by blast
  have "g \<in> set (au_generations res)"
    unfolding gens(1) by (rule newest_listed [OF gens(2-5) assms(7,8)])
  ultimately show ?thesis using gens(6) unfolding local_collectable.intact_def views by blast
qed

subsection \<open>A bucket with one generation\<close>

definition bucket_sandbox :: string where
  "bucket_sandbox = ''sbx_'' @ replicate 26 (CHR ''0'')"

definition bucket_cipher :: sandbox_cipher where
  "bucket_cipher = \<lparr> cipher_key = replicate 32 (CHR ''k''), cipher_sandbox = bucket_sandbox \<rparr>"

definition bucket_manifest :: manifest where
  "bucket_manifest = \<lparr> schema_version = 1, manifest_generation = 1, manifest_sandbox = bucket_sandbox,
     created_at = timestamp 5, manifest_entries = [] \<rparr>"

definition bucket_blob :: encrypted_blob where
  "bucket_blob = encrypt sample_crypto bucket_cipher (to_json bucket_manifest)"

definition bucket_state :: "object_store store_state" where
  "bucket_state = \<lparr> behind = \<lparr>
       objects = [(snapshot_key bucket_sandbox (commit_name 1), commit_payload 1 (blob_digest bucket_blob) 5),
         (snapshot_key bucket_sandbox (manifest_name 1), manifest_payload bucket_blob),
         (snapshot_key bucket_sandbox (chunk_name (replicate 64 (CHR ''0''))), ''left over'')],
       object_metadata = [], grants = [], drawn = 0, store_now = 5 \<rparr>, known_chunks = None \<rparr>"

definition bucket_store :: "object_store checkpoint_store" where
  "bucket_store = \<lparr> cs_broker = local_broker new_settings, cs_sandbox = bucket_sandbox, cs_index_chunks = False \<rparr>"

definition bucket_retention :: "object_store retention" where
  "bucket_retention = \<lparr> rt_store = bucket_store, rt_crypto = sample_crypto, rt_cipher = bucket_cipher,
     rt_manifest_chunks = chunk_references, rt_retain = 2, rt_grace = 10 \<rparr>"

definition bucket_auditor :: "object_store auditor" where
  "bucket_auditor = \<lparr> ad_sandbox = bucket_sandbox, ad_store = bucket_store, ad_crypto = sample_crypto,
     ad_cipher = bucket_cipher, ad_manifest_chunks = chunk_references \<rparr>"

lemma bucket_fine:
  "fine_objects bucket_sandbox (behind bucket_state)" "distinct (map fst (objects (behind bucket_state)))"
  "known_chunks bucket_state = None"
proof -
  have "named (commit_name 1)" "named (manifest_name 1)" "named (chunk_name (replicate 64 (CHR ''0'')))"
    by (auto simp: named_def digest_pattern_def list_all_iff is_hex_def is_decimal_char_def)
  then show "fine_objects bucket_sandbox (behind bucket_state)" by (auto simp: fine_objects_def bucket_state_def)
qed (simp_all add: bucket_state_def)

lemma bucket_views:
  "manifests_at bucket_sandbox bucket_state 1 = Some bucket_blob"
  "commits_at bucket_sandbox bucket_state h = (if h = 1 then Some (blob_digest bucket_blob) else None)"
proof -
  have "digest_pattern (blob_digest bucket_blob)"
    using sample_crypto_documented by (simp add: crypto_documented_def bucket_blob_def)
  with early_times show "commits_at bucket_sandbox bucket_state h = (if h = 1 then Some (blob_digest bucket_blob) else None)"
    by (auto simp: commits_at_def object_at_def bucket_state_def)
qed (simp add: manifests_at_def object_at_def bucket_state_def)

lemma bucket_complete: "complete_generation sample_crypto bucket_cipher bucket_sandbox (chunks_at bucket_sandbox bucket_state)
    (manifests_at bucket_sandbox bucket_state) 1 (blob_digest bucket_blob)"
  unfolding complete_generation_def bucket_views
  using decrypt_encrypt [OF sample_crypto_documented]
  by (intro exI [of _ bucket_blob] exI [of _ bucket_manifest]) (simp add: bucket_blob_def bucket_manifest_def)

lemma nothing_newer: "{h. 1 < h \<and> commits_at bucket_sandbox bucket_state h \<noteq> None} = {}"
  by (auto simp: bucket_views)

theorem sweep_keeps_retained_witness:
  "commits_at bucket_sandbox
     (gs_store (fst (gc_sweep bucket_retention 100 100 \<lparr> gs_store = bucket_state, gs_marks = [((''generation'', ''1''), 0)] \<rparr>))) 1
     = Some (blob_digest bucket_blob)"
  using sweep_keeps_retained [OF prod.collapse [symmetric],
      of bucket_retention new_settings bucket_sandbox False "\<lparr> gs_store = bucket_state, gs_marks = [((''generation'', ''1''), 0)] \<rparr>"
      1 "blob_digest bucket_blob" 100 100]
    bucket_fine bucket_complete nothing_newer
  by (simp add: bucket_retention_def bucket_store_def bucket_views(2) del: not_None_eq)

theorem sweep_respects_grace_witness:
  "let k = chunk_name (replicate 64 (CHR ''0'')) in
     object_at bucket_sandbox (behind (gs_store (fst (gc_sweep bucket_retention 100 105 \<lparr> gs_store = bucket_state, gs_marks = [] \<rparr>)))) k
       = object_at bucket_sandbox (behind bucket_state) k"
  using sweep_respects_grace [OF prod.collapse [symmetric],
      of bucket_retention new_settings bucket_sandbox False "\<lparr> gs_store = bucket_state, gs_marks = [] \<rparr>" 105 100
        "chunk_name (replicate 64 (CHR ''0''))"] bucket_fine
  by (simp add: bucket_retention_def bucket_store_def)

text \<open>On the local broker a fresh grant serves its object.\<close>

lemma local_get_serves:
  assumes "sandbox_pattern sid" "0 < url_ttl b" "map_of (objects (behind st)) (snapshot_key sid k) = Some raw"
  obtains s where "objects s = objects (behind st)"
    "get_object \<lparr> cs_broker = local_broker b, cs_sandbox = sid, cs_index_chunks = index \<rparr> (local_presign b sid k GET) st
      = (st\<lparr>behind := s\<rparr>, Inr raw)"
proof -
  let ?s = "(behind st)\<lparr>grants := AList.update (next_token b (drawn (behind st)))
      \<lparr> granted_key = snapshot_key sid k, granted_operation = GET, granted_until = store_now (behind st) + url_ttl b,
        granted_headers = presign_headers b sid \<rparr> (grants (behind st)), drawn := Suc (drawn (behind st))\<rparr>"
  show ?thesis
    by (rule that [of ?s]) (use assms in \<open>simp_all add: get_object_def transfer_def ask_def local_presign_def validate_sandbox_def
      store_presign_def Let_def local_broker_def local_request_def store_request_def as_bytes_def update_conv'\<close>)
qed

lemma bucket_pattern: "sandbox_pattern bucket_sandbox"
  by (auto simp: bucket_sandbox_def sandbox_pattern_def list_all_iff id_char_def less_eq_char_def)

lemma bucket_objects:
  "map_of (objects (behind bucket_state)) (snapshot_key bucket_sandbox (''commits/'' @ dec_int 1 @ ''.json''))
     = Some (commit_payload 1 (blob_digest bucket_blob) 5)"
  "map_of (objects (behind bucket_state)) (snapshot_key bucket_sandbox (''manifests/'' @ dec_int 1 @ ''.json.enc''))
     = Some (manifest_payload bucket_blob)"
  by (simp_all add: bucket_state_def commit_name_def manifest_name_def)

lemma bucket_ttl: "0 < url_ttl new_settings"
  by (simp add: new_settings_def)

lemma bucket_generations:
  obtains st where "committed_generations bucket_store bucket_state =
      (st, Inr [\<lparr> cg_generation = 1, cg_manifest_digest = blob_digest bucket_blob, cg_committed_at = 5 \<rparr>])"
    "objects (behind st) = objects (behind bucket_state)"
proof -
  let ?k = "snapshot_key bucket_sandbox (commit_name 1)"
  have keys: "ask (cb_internal_keys (local_broker new_settings) bucket_sandbox ''commits'') bucket_state = (bucket_state, Inr [?k])"
    using bucket_pattern
    by (simp add: ask_def local_broker_def local_internal_keys_def validate_sandbox_def store_internal_list_def bucket_state_def
        commit_name_def manifest_name_def chunk_name_def snapshot_key_append starts_with_def snapshot_key_def)
  have number: "commit_number ?k = Inr 1"
    by (rule commit_number_key)
  obtain s where s: "objects s = objects (behind bucket_state)"
    "get_object bucket_store (local_presign new_settings bucket_sandbox (''commits/'' @ dec_int 1 @ ''.json'') GET) bucket_state
      = (bucket_state\<lparr>behind := s\<rparr>, Inr (commit_payload 1 (blob_digest bucket_blob) 5))"
    unfolding bucket_store_def by (rule local_get_serves [OF bucket_pattern bucket_ttl bucket_objects(1)])
  have presign: "cb_presign_commit (cs_broker bucket_store) (cs_sandbox bucket_store) 1 GET =
      local_presign new_settings bucket_sandbox (''commits/'' @ dec_int 1 @ ''.json'') GET"
    by (simp add: bucket_store_def local_broker_def local_presign_commit_def validate_generation_def fun_eq_iff)
  have "digest_pattern (blob_digest bucket_blob)"
    using sample_crypto_documented by (simp add: crypto_documented_def bucket_blob_def)
  then have "read_commits bucket_store [?k] bucket_state = (bucket_state\<lparr>behind := s\<rparr>,
      Inr [\<lparr> cg_generation = 1, cg_manifest_digest = blob_digest bucket_blob, cg_committed_at = 5 \<rparr>])"
    using number s(2) early_times by (simp add: presign)
  moreover have "cs_broker bucket_store = local_broker new_settings" "cs_sandbox bucket_store = bucket_sandbox"
    by (simp_all add: bucket_store_def)
  ultimately have "committed_generations bucket_store bucket_state = (bucket_state\<lparr>behind := s\<rparr>,
      Inr [\<lparr> cg_generation = 1, cg_manifest_digest = blob_digest bucket_blob, cg_committed_at = 5 \<rparr>])"
    using keys by (simp add: committed_generations_def)
  then show ?thesis by (rule that) (simp add: s(1))
qed

lemma bucket_audit:
  "snd (snd (run_audit bucket_auditor 7 \<lparr> sink_results = [], failure_metrics = 0 \<rparr> bucket_state)) =
     Inr \<lparr> au_sandbox = bucket_sandbox, au_generations = [1], au_ok = True, au_failures = [], au_checked_at = 7 \<rparr>"
proof -
  obtain st where st: "committed_generations bucket_store bucket_state =
      (st, Inr [\<lparr> cg_generation = 1, cg_manifest_digest = blob_digest bucket_blob, cg_committed_at = 5 \<rparr>])"
    "objects (behind st) = objects (behind bucket_state)" by (rule bucket_generations)
  obtain s where s: "get_object bucket_store (local_presign new_settings bucket_sandbox (''manifests/'' @ dec_int 1 @ ''.json.enc'') GET) st
      = (st\<lparr>behind := s\<rparr>, Inr (manifest_payload bucket_blob))"
    unfolding bucket_store_def using bucket_objects(2) st(2)
    by (metis local_get_serves [OF bucket_pattern bucket_ttl])
  have "cb_presign_manifest (cs_broker bucket_store) (cs_sandbox bucket_store) 1 GET =
      local_presign new_settings bucket_sandbox (''manifests/'' @ dec_int 1 @ ''.json.enc'') GET"
    by (simp add: bucket_store_def local_broker_def local_presign_manifest_def validate_generation_def fun_eq_iff)
  with s have manifest: "get_manifest bucket_store 1 st = (st\<lparr>behind := s\<rparr>, Inr bucket_blob)" by (simp add: get_manifest_def)
  have "chunk_references (to_json bucket_manifest) = Inr []"
    by (simp add: chunk_references_def load_to_json get_sorted_doc bucket_manifest_def)
  moreover have "decrypt sample_crypto bucket_cipher bucket_blob = Inr (to_json bucket_manifest)"
    unfolding bucket_blob_def by (rule decrypt_encrypt [OF sample_crypto_documented])
  ultimately show ?thesis using st manifest
    by (simp add: run_audit_def bucket_auditor_def audit_generation_def last_of_def Let_def)
qed

theorem audit_ok_means_intact_witness:
  "object_at bucket_sandbox (behind (fst (run_audit bucket_auditor 7 \<lparr> sink_results = [], failure_metrics = 0 \<rparr> bucket_state)))
     = object_at bucket_sandbox (behind bucket_state)"
proof -
  obtain st sink r where run: "run_audit bucket_auditor 7 \<lparr> sink_results = [], failure_metrics = 0 \<rparr> bucket_state = (st, sink, r)"
    by (metis prod_cases3)
  with bucket_audit have "r = Inr \<lparr> au_sandbox = bucket_sandbox, au_generations = [1], au_ok = True, au_failures = [], au_checked_at = 7 \<rparr>"
    by simp
  with run have run': "run_audit bucket_auditor 7 \<lparr> sink_results = [], failure_metrics = 0 \<rparr> bucket_state = (st, sink,
      Inr \<lparr> au_sandbox = bucket_sandbox, au_generations = [1], au_ok = True, au_failures = [], au_checked_at = 7 \<rparr>)" by simp
  have this_store: "ad_store bucket_auditor = \<lparr> cs_broker = local_broker new_settings, cs_sandbox = bucket_sandbox, cs_index_chunks = False \<rparr>"
    by (simp add: bucket_auditor_def bucket_store_def)
  have "card {h. 1 < h \<and> commits_at bucket_sandbox bucket_state h \<noteq> None} < 2" unfolding nothing_newer by simp
  from audit_ok_means_intact [OF run' _ this_store bucket_fine _ this] show ?thesis
    unfolding run fst_conv by (simp add: bucket_views(2))
qed

end
