(* ===== verification/Urls.thy ===== *)
theory Urls
  imports PyText Encoding
begin

text \<open>
  \<open>urllib.parse.urlsplit\<close> of Python 3.12 with the host name of its result, as the sources use it to
  tell which address a text names, and \<open>unquote\<close>.  A host in brackets must be an IPv6 address of
  \<open>ipaddress\<close> or an \<open>IPvFuture\<close> literal, else splitting raises \<open>ValueError\<close>.
\<close>

subsection \<open>Partitions\<close>

definition find_char :: "char \<Rightarrow> string \<Rightarrow> nat option" where
  "find_char c s = (if c \<in> set s then Some (length (takeWhile (\<lambda>x. x \<noteq> c) s)) else None)"

definition part_before :: "char \<Rightarrow> string \<Rightarrow> string" where
  "part_before c s = takeWhile (\<lambda>x. x \<noteq> c) s"

definition part_after :: "char \<Rightarrow> string \<Rightarrow> string" where
  "part_after c s = drop 1 (dropWhile (\<lambda>x. x \<noteq> c) s)"

text \<open>\<open>s.rpartition(c)[2]\<close>: all of the text when the separator is missing.\<close>

definition last_part :: "char \<Rightarrow> string \<Rightarrow> string" where
  "last_part c s = rev (takeWhile (\<lambda>x. x \<noteq> c) (rev s))"

lemma part_before_append: "c \<notin> set a \<Longrightarrow> part_before c (a @ c # b) = a"
  by (auto simp: part_before_def takeWhile_append)

lemma part_after_append: "c \<notin> set a \<Longrightarrow> part_after c (a @ c # b) = b"
  by (auto simp: part_after_def dropWhile_append)

lemma part_before_all: "c \<notin> set a \<Longrightarrow> part_before c a = a"
  by (auto simp: part_before_def)

lemma part_after_none: "c \<notin> set a \<Longrightarrow> part_after c a = []"
  by (induction a) (auto simp: part_after_def)

lemma last_part_all: "c \<notin> set a \<Longrightarrow> last_part c a = a"
proof -
  assume "c \<notin> set a"
  then have "takeWhile (\<lambda>x. x \<noteq> c) (rev a) = rev a" unfolding takeWhile_eq_all_conv by auto
  then show ?thesis unfolding last_part_def by (simp only: rev_rev_ident)
qed

subsection \<open>Addresses in brackets\<close>

definition is_hex_any :: "char \<Rightarrow> bool" where
  "is_hex_any c = (let n = (of_char c :: nat) in
     (48 \<le> n \<and> n \<le> 57) \<or> (65 \<le> n \<and> n \<le> 70) \<or> (97 \<le> n \<and> n \<le> 102))"

definition hextet :: "string \<Rightarrow> bool" where
  "hextet s = (s \<noteq> [] \<and> length s \<le> 4 \<and> list_all is_hex_any s)"

definition octet :: "string \<Rightarrow> bool" where
  "octet s = (s \<noteq> [] \<and> length s \<le> 3 \<and> list_all is_decimal_char s \<and> (length s = 1 \<or> s ! 0 \<noteq> CHR ''0'') \<and>
     digits_of s \<le> 255)"

definition ip4_address :: "string \<Rightarrow> bool" where
  "ip4_address s = (let ps = split_on (CHR ''.'') s in length ps = 4 \<and> list_all octet ps)"

text \<open>The parts between the colons; an embedded IPv4 address counts as two.\<close>

definition ip6_parts :: "string list \<Rightarrow> bool" where
  "ip6_parts parts =
     (let inner = [1..<length parts - 1];
          gaps = filter (\<lambda>i. parts ! i = []) inner in
      3 \<le> length parts \<and> length parts \<le> 9 \<and>
      (case gaps of
         [] \<Rightarrow> length parts = 8 \<and> list_all hextet parts
       | [g] \<Rightarrow>
           (let hi = take g parts; lo = drop (Suc g) parts;
                hi' = (if hd parts = [] then tl hi else hi);
                lo' = (if last parts = [] then butlast lo else lo) in
            (hd parts = [] \<longrightarrow> hi' = []) \<and> (last parts = [] \<longrightarrow> lo' = []) \<and>
            length hi' + length lo' < 8 \<and> list_all hextet hi' \<and> list_all hextet lo')
       | _ \<Rightarrow> False))"

definition ip6_address :: "string \<Rightarrow> bool" where
  "ip6_address s =
     (let addr = part_before (CHR ''%'') s; scope = part_after (CHR ''%'') s;
          parts = split_on (CHR '':'') addr in
      CHR ''/'' \<notin> set s \<and> (CHR ''%'' \<in> set s \<longrightarrow> scope \<noteq> [] \<and> CHR ''%'' \<notin> set scope) \<and>
      (if CHR ''.'' \<in> set (last parts)
       then ip4_address (last parts) \<and> ip6_parts (butlast parts @ [''0'', ''0''])
       else ip6_parts parts))"

text \<open>\<open>_check_bracketed_host\<close>: \<open>\A\<close>\<open>v[a-fA-F0-9]+\..+\Z\<close> or an address.\<close>

definition bracketed_host :: "string \<Rightarrow> bool" where
  "bracketed_host h =
     (if starts_with h ''v''
      then (let ds = takeWhile is_hex_any (drop 1 h); rest = drop (1 + length ds) h in
        ds \<noteq> [] \<and> starts_with rest ''.'' \<and> drop 1 rest \<noteq> [] \<and> CHR 0x0A \<notin> set (drop 1 rest))
      else ip6_address h)"

definition bracketed_netloc :: "string \<Rightarrow> bool" where
  "bracketed_netloc netloc =
     (let hp = last_part (CHR ''@'') netloc in
      if CHR ''['' \<in> set hp
      then (let inner = part_after (CHR ''['') hp; port = part_after (CHR '']'') inner in
        part_before (CHR ''['') hp = [] \<and> (port = [] \<or> starts_with port '':'') \<and>
        bracketed_host (part_before (CHR '']'') inner))
      else bracketed_host (part_before (CHR '':'') hp))"

subsection \<open>Splitting\<close>

record split_result =
  url_scheme :: string
  url_netloc :: string
  url_path :: string
  url_query :: string
  url_fragment :: string

definition scheme_char :: "char \<Rightarrow> bool" where
  "scheme_char c = (let n = (of_char c :: nat) in
     (48 \<le> n \<and> n \<le> 57) \<or> (65 \<le> n \<and> n \<le> 90) \<or> (97 \<le> n \<and> n \<le> 122) \<or> c \<in> {CHR ''+'', CHR ''-'', CHR ''.''})"

definition ascii_alpha :: "char \<Rightarrow> bool" where
  "ascii_alpha c = (let n = (of_char c :: nat) in (65 \<le> n \<and> n \<le> 90) \<or> (97 \<le> n \<and> n \<le> 122))"

definition cleaned_url :: "string \<Rightarrow> string" where
  "cleaned_url url =
     filter (\<lambda>c. c \<notin> {CHR 0x09, CHR 0x0A, CHR 0x0D}) (dropWhile (\<lambda>c. (of_char c :: nat) \<le> 32) url)"

definition split_scheme :: "string \<Rightarrow> string \<times> string" where
  "split_scheme url =
     (let name = part_before (CHR '':'') url in
      if CHR '':'' \<in> set url \<and> name \<noteq> [] \<and> ascii_alpha (hd url) \<and> list_all scheme_char name
      then (str_lower name, part_after (CHR '':'') url)
      else ([], url))"

definition split_netloc :: "string \<Rightarrow> string \<times> string" where
  "split_netloc url =
     (if starts_with url ''//''
      then (let inside = (\<lambda>c. c \<notin> {CHR ''/'', CHR ''?'', CHR ''#''}) in
        (takeWhile inside (drop 2 url), dropWhile inside (drop 2 url)))
      else ([], url))"

definition urlsplit :: "string \<Rightarrow> split_result option" where
  "urlsplit url =
     (let (scheme, rest) = split_scheme (cleaned_url url); (netloc, rest) = split_netloc rest in
      if (CHR ''['' \<in> set netloc) \<noteq> (CHR '']'' \<in> set netloc) then None
      else if CHR ''['' \<in> set netloc \<and> \<not> bracketed_netloc netloc then None
      else
        let before = part_before (CHR ''#'') rest in
        Some \<lparr> url_scheme = scheme, url_netloc = netloc, url_path = part_before (CHR ''?'') before,
          url_query = part_after (CHR ''?'') before, url_fragment = part_after (CHR ''#'') rest \<rparr>)"

definition host_of :: "string \<Rightarrow> string" where
  "host_of netloc =
     (let info = last_part (CHR ''@'') netloc in
      if CHR ''['' \<in> set info then part_before (CHR '']'') (part_after (CHR ''['') info)
      else part_before (CHR '':'') info)"

definition url_hostname :: "split_result \<Rightarrow> string option" where
  "url_hostname u =
     (let h = host_of (url_netloc u) in
      if h = [] then None
      else Some (str_lower (part_before (CHR ''%'') h) @ drop (length (part_before (CHR ''%'') h)) h))"

subsection \<open>Decoding\<close>

text \<open>\<open>unquote_to_bytes\<close>: a percent sign without two hexadecimal digits stays as it is.\<close>

definition hex_any_value :: "char \<Rightarrow> nat" where
  "hex_any_value c = (let n = (of_char c :: nat) in if n \<le> 57 then n - 48 else if n \<le> 70 then n - 55 else n - 87)"

fun unquote_bytes :: "string \<Rightarrow> string" where
  "unquote_bytes (c # a # b # rest) =
     (if c = CHR ''%'' \<and> is_hex_any a \<and> is_hex_any b
      then char_of (16 * hex_any_value a + hex_any_value b) # unquote_bytes rest
      else c # unquote_bytes (a # b # rest))"
| "unquote_bytes s = s"

lemma urlsplit_plain:
  assumes "list_all (\<lambda>c. (of_char c :: nat) > 32 \<and> c \<notin> {CHR '':'', CHR ''?'', CHR ''#''}) p" "\<not> starts_with p ''//''"
  shows "urlsplit p = Some \<lparr> url_scheme = [], url_netloc = [], url_path = p, url_query = [], url_fragment = [] \<rparr>"
proof -
  have ne: "CHR '':'' \<notin> set p" "CHR ''?'' \<notin> set p" "CHR ''#'' \<notin> set p"
    using assms(1) unfolding list_all_iff by blast+
  have "\<forall>x\<in>set p. x \<notin> {CHR 0x09, CHR 0x0A, CHR 0x0D}"
  proof
    fix x
    assume "x \<in> set p"
    then have "(of_char x :: nat) > 32" using assms(1) unfolding list_all_iff by blast
    then show "x \<notin> {CHR 0x09, CHR 0x0A, CHR 0x0D}" by (intro notI) (elim insertE emptyE; simp)
  qed
  moreover have "dropWhile (\<lambda>c. (of_char c :: nat) \<le> 32) p = p" using assms(1) by (cases p) auto
  ultimately have "cleaned_url p = p" by (simp add: cleaned_url_def filter_id_conv)
  moreover have "split_scheme p = ([], p)" using ne by (simp add: split_scheme_def)
  moreover have "split_netloc p = ([], p)" using assms(2) by (simp add: split_netloc_def)
  ultimately show ?thesis using ne by (simp add: urlsplit_def Let_def part_before_all part_after_none)
qed

end
