(* ===== verification/Remote.thy ===== *)
theory Remote
  imports CheckpointStore Urls
begin

text \<open>
  \<open>persistence/remote.py\<close>: the container's side of the broker.  Every operation is an invocation of
  the broker function, every object moves through a URL the broker granted.  The Lambda client and
  the HTTP stack are parameters over a world they may change; the clock of the broker client is a
  field of its state, and the lock is left out, as every operation holds it from start to end.
\<close>

subsection \<open>Invoking the broker\<close>

text \<open>
  \<open>client.invoke\<close> answers whether \<open>FunctionError\<close> is set, with the payload, or raises.
  \<open>urlopen\<close> with the body read answers a status, or raises an \<open>HTTPError\<close> with its code, a
  \<open>URLError\<close>, or something else, which is passed on.
\<close>

datatype invocation = Invoked bool string | InvokeRaises fault

datatype http_answer = Served int string | StatusError int | NoConnection | HttpRaises fault

record 'w aws =
  invoke_function :: "string \<Rightarrow> string \<Rightarrow> 'w \<Rightarrow> 'w \<times> invocation"
  open_url :: "storage_operation \<Rightarrow> string \<Rightarrow> (string \<times> string) list \<Rightarrow> string option \<Rightarrow> 'w \<Rightarrow> 'w \<times> http_answer"

definition error_type :: "string \<Rightarrow> string option" where
  "error_type payload =
     (case Option.bind (utf8_decode payload) json_loads of
        Some (JObj v) \<Rightarrow> as_str (get_key v ''errorType'')
      | _ \<Rightarrow> None)"

definition broker_request :: "string \<Rightarrow> string \<Rightarrow> string \<Rightarrow> string \<Rightarrow> (string \<times> json) list \<Rightarrow> string" where
  "broker_request operation token sid session values =
     print_json (JObj ([(''bindingToken'', JStr token), (''operation'', JStr operation),
       (''runtimeSessionId'', JStr session), (''sandboxId'', JStr sid)] @ values))"

definition read_answer :: "invocation \<Rightarrow> (fault, (string \<times> json) list) result" where
  "read_answer a = (case a of
     InvokeRaises e \<Rightarrow> Inl e
   | Invoked failed payload \<Rightarrow>
       if failed
       then (if error_type payload = Some ''PermissionError''
         then Inl (BrokerRefusalError ''Persistence broker refused the binding.'')
         else Inl (BrokerAuthorizationError ''Persistence broker rejected the operation.''))
       else (case Option.bind (utf8_decode payload) json_loads of
           None \<Rightarrow> Inl (Crash (ValueCrash ''invalid JSON''))
         | Some (JObj v) \<Rightarrow> Inr v
         | Some _ \<Rightarrow> Inl (BrokerAuthorizationError ''Persistence broker response is invalid.'')))"

definition invoke_broker :: "'w aws \<Rightarrow> string \<Rightarrow> string \<Rightarrow> string \<Rightarrow> string \<Rightarrow> string \<Rightarrow> (string \<times> json) list
    \<Rightarrow> 'w \<Rightarrow> 'w \<times> (fault, (string \<times> json) list) result" where
  "invoke_broker aws arn operation token sid session values w =
     map_prod id read_answer (invoke_function aws arn (broker_request operation token sid session values) w)"

subsection \<open>The client\<close>

record broker_client =
  function_arn :: string
  client_sandbox :: string
  client_session :: string
  binding_token :: string
  base_generation :: "int option"
  next_due_at :: "int option"
  next_due_job :: string
  restore_seconds :: "int option"
  holder_instance :: "string option"

definition new_broker_client :: "string \<Rightarrow> string \<Rightarrow> string \<Rightarrow> string \<Rightarrow> (fault, broker_client) result" where
  "new_broker_client arn sid session token =
     (if [] \<in> {arn, sid, session, token}
      then Inl (Crash (ValueCrash ''Complete persistence broker binding is required.''))
      else Inr \<lparr> function_arn = arn, client_sandbox = sid, client_session = session, binding_token = token,
        base_generation = None, next_due_at = None, next_due_job = [], restore_seconds = None, holder_instance = None \<rparr>)"

definition client_call :: "'w aws \<Rightarrow> broker_client \<Rightarrow> string \<Rightarrow> (string \<times> json) list
    \<Rightarrow> 'w \<Rightarrow> 'w \<times> (fault, (string \<times> json) list) result" where
  "client_call aws cl operation values w =
     invoke_broker aws (function_arn cl) operation (binding_token cl) (client_sandbox cl) (client_session cl) values w"

definition optional_field :: "string \<Rightarrow> ('a \<Rightarrow> json) \<Rightarrow> 'a option \<Rightarrow> (string \<times> json) list" where
  "optional_field k f v = (case v of None \<Rightarrow> [] | Some x \<Rightarrow> [(k, f x)])"

definition receipt_values :: "broker_client \<Rightarrow> int \<Rightarrow> string \<Rightarrow> bool \<Rightarrow> (string \<times> json) list" where
  "receipt_values cl generation digest final =
     [(''final'', JBool final), (''generation'', JInt generation), (''manifestDigest'', JStr digest)] @
     optional_field ''baseGeneration'' JInt (base_generation cl) @
     (case next_due_at cl of None \<Rightarrow> [] | Some due \<Rightarrow> [(''nextDueAt'', JInt due), (''nextDueJob'', JStr (next_due_job cl))]) @
     optional_field ''restoreSeconds'' JInt (restore_seconds cl) @
     optional_field ''holderInstance'' JStr (holder_instance cl)"

definition checkpoint_receipt :: "'w aws \<Rightarrow> int \<Rightarrow> string \<Rightarrow> bool \<Rightarrow> broker_client \<times> 'w
    \<Rightarrow> (broker_client \<times> 'w) \<times> (fault, string) result" where
  "checkpoint_receipt aws generation digest final st =
     (case st of (cl, w) \<Rightarrow>
        (case client_call aws cl ''checkpointReceipt'' (receipt_values cl generation digest final) w of
           (w, Inl e) \<Rightarrow> ((cl, w), Inl e)
         | (w, Inr v) \<Rightarrow>
             (case get_key v ''checkpointReceipt'' of
                JStr receipt \<Rightarrow> ((cl\<lparr>base_generation := Some generation\<rparr>, w), Inr receipt)
              | _ \<Rightarrow> ((cl, w), Inl (BrokerAuthorizationError ''Checkpoint receipt is unavailable.'')))))"

subsection \<open>The broker behind the store\<close>

definition BATCH_GRANTS :: nat where
  "BATCH_GRANTS = 128"

definition GRANT_MARGIN :: timedelta where
  "GRANT_MARGIN = seconds 60"

type_synonym grant_key = "string \<times> storage_operation"

record 'w remote =
  rm_client :: broker_client
  rm_sandbox :: string
  rm_grants :: "(grant_key \<times> presigned) list"
  rm_wanted :: "(storage_operation \<times> string list) list"
  rm_batch_supported :: bool
  rm_world :: 'w
  rm_now :: time

definition new_remote :: "broker_client \<Rightarrow> string \<Rightarrow> 'w \<Rightarrow> time \<Rightarrow> 'w remote" where
  "new_remote cl sid w now =
     \<lparr> rm_client = cl, rm_sandbox = sid, rm_grants = [], rm_wanted = [], rm_batch_supported = True, rm_world = w, rm_now = now \<rparr>"

definition own_sandbox :: "'w remote \<Rightarrow> string \<Rightarrow> (fault, unit) result" where
  "own_sandbox rm sid =
     (if sid \<noteq> rm_sandbox rm then Inl (BrokerAuthorizationError ''Cross-sandbox persistence access is denied.'') else Inr ())"

definition remote_call :: "'w aws \<Rightarrow> string \<Rightarrow> (string \<times> json) list \<Rightarrow> 'w remote
    \<Rightarrow> 'w remote \<times> (fault, (string \<times> json) list) result" where
  "remote_call aws operation values rm =
     map_prod (\<lambda>w. rm\<lparr>rm_world := w\<rparr>) id (client_call aws (rm_client rm) operation values (rm_world rm))"

definition wanted_chunks :: "'w remote \<Rightarrow> storage_operation \<Rightarrow> string list" where
  "wanted_chunks rm operation = (case map_of (rm_wanted rm) operation of None \<Rightarrow> [] | Some ds \<Rightarrow> ds)"

definition prefetch_chunks :: "string \<Rightarrow> string list \<Rightarrow> storage_operation \<Rightarrow> 'w remote \<Rightarrow> 'w remote \<times> (fault, unit) result" where
  "prefetch_chunks sid digests operation rm =
     trying rm (own_sandbox rm sid) (\<lambda>_.
       if operation \<notin> {GET, PUT} \<or> \<not> rm_batch_supported rm then (rm, Inr ())
       else (rm\<lparr>rm_wanted := AList.update operation (wanted_chunks rm operation @ digests) (rm_wanted rm)\<rparr>, Inr ()))"

definition remote_cipher :: "'w aws \<Rightarrow> string \<Rightarrow> 'w remote \<Rightarrow> 'w remote \<times> (fault, sandbox_cipher) result" where
  "remote_cipher aws sid rm =
     trying rm (own_sandbox rm sid) (\<lambda>_.
     then_do (remote_call aws ''dataKey'' [] rm) (\<lambda>rm v.
       (rm, case get_key v ''plaintextKey'' of
          JStr encoded \<Rightarrow>
            (case unbase64 encoded of
               None \<Rightarrow> Inl (BrokerAuthorizationError ''Persistence data key is invalid.'')
             | Some key \<Rightarrow> new_cipher key sid)
        | _ \<Rightarrow> Inl (BrokerAuthorizationError ''Persistence data key is unavailable.''))))"

definition remote_context :: "'w remote \<Rightarrow> string \<Rightarrow> (fault, (string \<times> string) list) result" where
  "remote_context rm sid =
     and_then (own_sandbox rm sid) (\<lambda>_.
       Inr [(''application'', ''kirocrew-agentcore''), (''purpose'', ''sandbox-checkpoint''), (''sandboxId'', sid)])"

subsection \<open>Grants\<close>

text \<open>\<open>_grant_from\<close>: the keys of a JSON object are strings, so only the values can be of another type.\<close>

definition grant_from :: "(string \<times> json) list \<Rightarrow> storage_operation \<Rightarrow> (fault, presigned) result" where
  "grant_from v operation =
     (case (get_key v ''url'', get_key v ''expiresAt'', get_key v ''headers'') of
        (JStr url, JStr expires, JObj headers) \<Rightarrow>
          (case read_timestamp expires of
             None \<Rightarrow> Inl (BrokerAuthorizationError ''Persistence grant expiry is invalid.'')
           | Some t \<Rightarrow>
               let safe = List.map_filter (\<lambda>(k, i). map_option (Pair k) (as_str i)) headers in
               if length safe \<noteq> length headers
               then Inl (BrokerAuthorizationError ''Persistence grant headers are invalid.'')
               else Inr \<lparr> grant_url = url, grant_method = operation, grant_expires_at = t, grant_headers = safe \<rparr>)
      | _ \<Rightarrow> Inl (BrokerAuthorizationError ''Persistence grant is invalid.''))"

definition operation_text :: "storage_operation \<Rightarrow> string" where
  "operation_text op = (case op of GET \<Rightarrow> ''GET'' | PUT \<Rightarrow> ''PUT'' | HEAD \<Rightarrow> ''HEAD'')"

definition remote_presign :: "'w aws \<Rightarrow> string \<Rightarrow> string \<Rightarrow> string \<Rightarrow> storage_operation
    \<Rightarrow> 'w remote \<Rightarrow> 'w remote \<times> (fault, presigned) result" where
  "remote_presign aws sid category name operation rm =
     trying rm (own_sandbox rm sid) (\<lambda>_.
     then_do (remote_call aws ''presign''
         [(''category'', JStr category), (''method'', JStr (operation_text operation)), (''name'', JStr name)] rm)
       (\<lambda>rm v. (rm, grant_from v operation)))"

text \<open>\<open>_take_grant\<close> takes the grant out of the cache, fresh or not.\<close>

definition take_grant :: "string \<Rightarrow> storage_operation \<Rightarrow> 'w remote \<Rightarrow> 'w remote \<times> presigned option" where
  "take_grant digest operation rm =
     (rm\<lparr>rm_grants := AList.delete (digest, operation) (rm_grants rm)\<rparr>,
      case map_of (rm_grants rm) (digest, operation) of
        None \<Rightarrow> None
      | Some g \<Rightarrow> if grant_expires_at g - rm_now rm < GRANT_MARGIN then None else Some g)"

text \<open>The loop that fills a batch: what it takes, and what stays announced.\<close>

fun fill_batch :: "(string \<Rightarrow> bool) \<Rightarrow> string list \<Rightarrow> string list \<Rightarrow> string list \<times> string list" where
  "fill_batch skip names [] = (names, [])"
| "fill_batch skip names (d # ds) =
     (if BATCH_GRANTS \<le> length names then (names, d # ds)
      else fill_batch skip (if skip d then names else names @ [d]) ds)"

definition invalid_batch :: fault where
  "invalid_batch = BrokerAuthorizationError ''Persistence batch grant is invalid.''"

fun store_grants :: "storage_operation \<Rightarrow> json list \<Rightarrow> 'w remote \<Rightarrow> 'w remote \<times> (fault, unit) result" where
  "store_grants operation [] rm = (rm, Inr ())"
| "store_grants operation (item # items) rm =
     (case item of
        JObj entry \<Rightarrow>
          (case get_key entry ''name'' of
             JStr name \<Rightarrow>
               if \<not> ends_with name ''.bin'' then (rm, Inl invalid_batch)
               else trying rm (grant_from entry operation) (\<lambda>g.
                 store_grants operation items
                   (rm\<lparr>rm_grants := AList.update (remove_suffix name ''.bin'', operation) g (rm_grants rm)\<rparr>))
           | _ \<Rightarrow> (rm, Inl invalid_batch))
      | _ \<Rightarrow> (rm, Inl invalid_batch))"

definition batch_values :: "storage_operation \<Rightarrow> string list \<Rightarrow> (string \<times> json) list" where
  "batch_values operation names =
     [(''method'', JStr (operation_text operation)), (''names'', JList (map (\<lambda>n. JStr (n @ ''.bin'')) names))]"

definition fetch_batch :: "'w aws \<Rightarrow> string \<Rightarrow> storage_operation \<Rightarrow> 'w remote \<Rightarrow> 'w remote \<times> (fault, unit) result" where
  "fetch_batch aws digest operation rm =
     (let skip = (\<lambda>c. c = digest \<or> map_of (rm_grants rm) (c, operation) \<noteq> None);
          (names, left) = fill_batch skip [digest] (wanted_chunks rm operation);
          rm = rm\<lparr>rm_wanted := AList.update operation left (rm_wanted rm)\<rparr> in
      case remote_call aws ''presignBatch'' (batch_values operation names) rm of
        (rm, Inl (BrokerRefusalError e)) \<Rightarrow> (rm, Inl (BrokerRefusalError e))
      | (rm, Inl (BrokerAuthorizationError _)) \<Rightarrow> (rm\<lparr>rm_batch_supported := False, rm_wanted := []\<rparr>, Inr ())
      | (rm, Inl e) \<Rightarrow> (rm, Inl e)
      | (rm, Inr v) \<Rightarrow>
          (case get_key v ''grants'' of
             JList items \<Rightarrow> store_grants operation items rm
           | _ \<Rightarrow> (rm, Inl invalid_batch)))"

definition remote_presign_chunk :: "'w aws \<Rightarrow> string \<Rightarrow> string \<Rightarrow> storage_operation
    \<Rightarrow> 'w remote \<Rightarrow> 'w remote \<times> (fault, presigned) result" where
  "remote_presign_chunk aws sid digest operation rm =
     trying rm (own_sandbox rm sid) (\<lambda>_.
       let alone = remote_presign aws sid ''chunks'' (digest @ ''.bin'') operation in
       (case take_grant digest operation rm of
          (rm, Some g) \<Rightarrow> (rm, Inr g)
        | (rm, None) \<Rightarrow>
            if \<not> rm_batch_supported rm \<or> wanted_chunks rm operation = [] then alone rm
            else then_do (fetch_batch aws digest operation rm) (\<lambda>rm _.
              (case take_grant digest operation rm of
                 (rm, Some g) \<Rightarrow> (rm, Inr g)
               | (rm, None) \<Rightarrow> alone rm))))"

definition remote_presign_manifest :: "'w aws \<Rightarrow> string \<Rightarrow> int \<Rightarrow> storage_operation
    \<Rightarrow> 'w remote \<Rightarrow> 'w remote \<times> (fault, presigned) result" where
  "remote_presign_manifest aws sid generation operation rm =
     remote_presign aws sid ''manifests'' (dec_int generation @ ''.json.enc'') operation rm"

definition remote_presign_commit :: "'w aws \<Rightarrow> string \<Rightarrow> int \<Rightarrow> storage_operation
    \<Rightarrow> 'w remote \<Rightarrow> 'w remote \<times> (fault, presigned) result" where
  "remote_presign_commit aws sid generation operation rm =
     remote_presign aws sid ''commits'' (dec_int generation @ ''.json'') operation rm"

subsection \<open>Requests\<close>

definition trusted_host :: "string \<Rightarrow> bool" where
  "trusted_host h = (ends_with h ''.amazonaws.com'' \<or> ends_with h ''.amazonaws.com.cn'')"

definition object_failed :: fault where
  "object_failed = BrokerAuthorizationError ''Persistence object operation failed.''"

definition trusted_url :: "string \<Rightarrow> (fault, unit) result" where
  "trusted_url url =
     (case urlsplit url of
        None \<Rightarrow> Inl (Crash (ValueCrash ''Invalid IPv6 URL''))
      | Some parsed \<Rightarrow>
          if url_scheme parsed \<noteq> ''https'' \<or> \<not> trusted_host (case url_hostname parsed of None \<Rightarrow> [] | Some h \<Rightarrow> h)
          then Inl (BrokerAuthorizationError ''Persistence grant URL is not trusted.'')
          else Inr ())"

definition remote_request :: "'w aws \<Rightarrow> presigned \<Rightarrow> storage_operation \<Rightarrow> string option
    \<Rightarrow> 'w remote \<Rightarrow> 'w remote \<times> (fault, stored_answer) result" where
  "remote_request aws grant operation body rm =
     (if grant_method grant \<noteq> operation
      then (rm, Inl (BrokerAuthorizationError ''Persistence grant operation does not match.''))
      else trying rm (trusted_url (grant_url grant)) (\<lambda>_.
        (case open_url aws operation (grant_url grant) (grant_headers grant) body (rm_world rm) of
           (w, answer) \<Rightarrow> (rm\<lparr>rm_world := w\<rparr>,
             case answer of
               Served status content \<Rightarrow> Inr (if operation = HEAD then Exists (status = 200) else Bytes content)
             | StatusError code \<Rightarrow> if operation = HEAD \<and> code = 404 then Inr (Exists False) else Inl object_failed
             | NoConnection \<Rightarrow> Inl object_failed
             | HttpRaises e \<Rightarrow> Inl e))))"

subsection \<open>Listings\<close>

definition listed_names :: "(string \<times> json) list \<Rightarrow> (fault, string list) result" where
  "listed_names v =
     (case get_key v ''names'' of
        JList items \<Rightarrow>
          if list_all (\<lambda>i. as_str i \<noteq> None) items then Inr (map (\<lambda>i. the (as_str i)) items)
          else Inl (BrokerAuthorizationError ''Persistence object listing is invalid.'')
      | _ \<Rightarrow> Inl (BrokerAuthorizationError ''Persistence object listing is invalid.''))"

definition remote_chunk_exists :: "'w aws \<Rightarrow> string \<Rightarrow> string \<Rightarrow> 'w remote \<Rightarrow> 'w remote \<times> (fault, bool) result" where
  "remote_chunk_exists aws sid digest rm =
     trying rm (own_sandbox rm sid) (\<lambda>_.
     then_do (remote_call aws ''list'' [(''category'', JStr ''chunks''), (''name'', JStr (digest @ ''.bin''))] rm)
       (\<lambda>rm v. (rm, map_sum id (\<lambda>names. digest @ ''.bin'' \<in> set names) (listed_names v))))"

definition remote_internal_keys :: "'w aws \<Rightarrow> string \<Rightarrow> string \<Rightarrow> 'w remote \<Rightarrow> 'w remote \<times> (fault, string list) result" where
  "remote_internal_keys aws sid category rm =
     trying rm (own_sandbox rm sid) (\<lambda>_.
     then_do (remote_call aws ''list'' [(''category'', JStr category)] rm)
       (\<lambda>rm v. (rm, map_sum id (map (\<lambda>n. ''sandboxes/'' @ sid @ ''/'' @ category @ ''/'' @ n)) (listed_names v))))"

definition remote_internal_delete :: "string \<Rightarrow> string \<Rightarrow> string \<Rightarrow> 'w remote \<Rightarrow> 'w remote \<times> (fault, unit) result" where
  "remote_internal_delete sid category name rm =
     (rm, Inl (BrokerAuthorizationError ''Runtime checkpoint deletion is not permitted.''))"

text \<open>The protocol of the checkpoint store over it; the context is fixed when the store is made.\<close>

definition remote_broker :: "'w aws \<Rightarrow> 'w remote \<Rightarrow> 'w remote checkpoint_broker" where
  "remote_broker aws rm =
     \<lparr> cb_context = remote_context rm,
       cb_presign_chunk = remote_presign_chunk aws,
       cb_presign_manifest = remote_presign_manifest aws,
       cb_presign_commit = remote_presign_commit aws,
       cb_request = remote_request aws,
       cb_chunk_exists = remote_chunk_exists aws,
       cb_internal_keys = remote_internal_keys aws,
       cb_internal_delete = remote_internal_delete \<rparr>"

end
