(* ===== verification/RemoteProperties.thy ===== *)
theory RemoteProperties
  imports Remote BrokerProperties Journal
begin

text \<open>
  What the container's side of the broker guarantees: which grants it hands out and how many calls
  they cost, what it does when the broker refuses, which addresses it opens, and, composed with the
  model of the broker function, what a receipt means for the sandbox record.
\<close>

subsection \<open>Batches\<close>

lemma fill_batch_bound:
  "fill_batch skip names ds = (names', left) \<Longrightarrow> length names \<le> BATCH_GRANTS \<Longrightarrow>
     length names' \<le> BATCH_GRANTS \<and>
     (\<exists>taken. ds = taken @ left \<and> names' = names @ filter (\<lambda>d. \<not> skip d) taken) \<and>
     (left \<noteq> [] \<longrightarrow> length names' = BATCH_GRANTS)"
proof (induction ds arbitrary: names)
  case (Cons d ds)
  show ?case
  proof (cases "BATCH_GRANTS \<le> length names")
    case True
    with Cons.prems show ?thesis by auto
  next
    case False
    with Cons.prems(1) have "fill_batch skip (if skip d then names else names @ [d]) ds = (names', left)" by simp
    moreover have "length (if skip d then names else names @ [d]) \<le> BATCH_GRANTS" using False by simp
    ultimately obtain taken where taken: "length names' \<le> BATCH_GRANTS" "ds = taken @ left"
      "names' = (if skip d then names else names @ [d]) @ filter (\<lambda>d. \<not> skip d) taken"
      "left \<noteq> [] \<longrightarrow> length names' = BATCH_GRANTS" using Cons.IH by blast
    then have "d # ds = (d # taken) @ left" "names' = names @ filter (\<lambda>d. \<not> skip d) (d # taken)" by simp_all
    with taken(1,4) show ?thesis by blast
  qed
qed simp

lemma fill_batch_distinct:
  assumes "length names \<le> BATCH_GRANTS" "\<forall>d\<in>set ds. \<not> skip d"
  shows "fill_batch skip names ds = (names @ take (BATCH_GRANTS - length names) ds, drop (BATCH_GRANTS - length names) ds)"
  using assms
proof (induction ds arbitrary: names)
  case (Cons d ds)
  show ?case
  proof (cases "BATCH_GRANTS - length names")
    case 0
    with Cons.prems show ?thesis by simp
  next
    case (Suc n)
    then have "BATCH_GRANTS - Suc (length names) = n" "length names < BATCH_GRANTS" by simp_all
    with Cons Suc show ?thesis by simp
  qed
qed simp

text \<open>The caller's loop: one grant after the other.\<close>

fun presign_each :: "'w aws \<Rightarrow> string \<Rightarrow> storage_operation \<Rightarrow> string list \<Rightarrow> 'w remote \<Rightarrow> 'w remote \<times> (fault, presigned list) result" where
  "presign_each aws sid operation [] rm = (rm, Inr [])"
| "presign_each aws sid operation (d # ds) rm =
     then_do (remote_presign_chunk aws sid d operation rm) (\<lambda>rm g.
     then_do (presign_each aws sid operation ds rm) (\<lambda>rm gs. (rm, Inr (g # gs))))"

text \<open>A broker that answers every batch with the grants asked for, each call counted.\<close>

definition batch_service :: "'w aws \<Rightarrow> broker_client \<Rightarrow> storage_operation \<Rightarrow> ('w \<Rightarrow> nat) \<Rightarrow> (string \<Rightarrow> presigned) \<Rightarrow> bool" where
  "batch_service aws cl operation calls grant \<longleftrightarrow>
     (\<forall>names w. \<exists>w' v item. client_call aws cl ''presignBatch'' (batch_values operation names) w = (w', Inr v) \<and>
        calls w' = Suc (calls w) \<and> get_key v ''grants'' = JList (map (\<lambda>n. JObj (item n)) names) \<and>
        (\<forall>n. get_key (item n) ''name'' = JStr (n @ ''.bin'') \<and> grant_from (item n) operation = Inr (grant n)))"

lemma store_grants_served:
  assumes "\<forall>n. get_key (item n) ''name'' = JStr (n @ ''.bin'') \<and> grant_from (item n) operation = Inr (grant n)"
  shows "\<exists>grants. store_grants operation (map (\<lambda>n. JObj (item n)) names) rm = (rm\<lparr>rm_grants := grants\<rparr>, Inr ()) \<and>
    (\<forall>d. map_of grants (d, operation) =
       (if d \<in> set names then Some (grant d) else map_of (rm_grants rm) (d, operation)))"
proof (induction names arbitrary: rm)
  case (Cons n names)
  let ?rm = "rm\<lparr>rm_grants := AList.update (n, operation) (grant n) (rm_grants rm)\<rparr>"
  from Cons.IH [of ?rm] obtain grants where
    "store_grants operation (map (\<lambda>n. JObj (item n)) names) ?rm = (?rm\<lparr>rm_grants := grants\<rparr>, Inr ())"
    "\<forall>d. map_of grants (d, operation) =
       (if d \<in> set names then Some (grant d) else map_of (rm_grants ?rm) (d, operation))" by blast
  with assms show ?case by (intro exI [of _ grants]) (auto simp: update_conv')
next
  case Nil
  show ?case by (intro exI [of _ "rm_grants rm"]) simp
qed

definition announced :: "string list \<Rightarrow> nat \<Rightarrow> storage_operation \<Rightarrow> (string \<Rightarrow> presigned) \<Rightarrow> 'w remote \<Rightarrow> bool" where
  "announced ds k operation grant rm \<longleftrightarrow> rm_batch_supported rm \<and> wanted_chunks rm operation = drop k ds \<and>
     (\<forall>d. map_of (rm_grants rm) (d, operation) = (if d \<in> set (take k ds) then Some (grant d) else None))"

lemma fetch_announced:
  assumes "batch_service aws (rm_client rm) operation calls grant" "announced (d # ds) 0 operation grant rm" "distinct (d # ds)"
  shows "\<exists>rm'. fetch_batch aws d operation rm = (rm', Inr ()) \<and> announced (d # ds) BATCH_GRANTS operation grant rm' \<and>
    calls (rm_world rm') = Suc (calls (rm_world rm)) \<and> rm_client rm' = rm_client rm \<and> rm_sandbox rm' = rm_sandbox rm \<and>
    rm_now rm' = rm_now rm"
proof -
  let ?skip = "\<lambda>c. c = d \<or> map_of (rm_grants rm) (c, operation) \<noteq> None"
  let ?names = "take BATCH_GRANTS (d # ds)"
  have fill: "fill_batch ?skip [d] (wanted_chunks rm operation) = (?names, drop BATCH_GRANTS (d # ds))"
  proof -
    have "fill_batch ?skip [d] (d # ds) = fill_batch ?skip [d] ds" by (simp add: BATCH_GRANTS_def)
    also have "\<dots> = ([d] @ take (BATCH_GRANTS - 1) ds, drop (BATCH_GRANTS - 1) ds)"
      using assms(2,3) by (subst fill_batch_distinct) (auto simp: announced_def BATCH_GRANTS_def)
    finally show ?thesis using assms(2) by (simp add: announced_def BATCH_GRANTS_def)
  qed
  let ?rm = "rm\<lparr>rm_wanted := AList.update operation (drop BATCH_GRANTS (d # ds)) (rm_wanted rm)\<rparr>"
  from assms(1) obtain w' v item where call:
    "client_call aws (rm_client rm) ''presignBatch'' (batch_values operation ?names) (rm_world rm) = (w', Inr v)"
    "calls w' = Suc (calls (rm_world rm))" "get_key v ''grants'' = JList (map (\<lambda>n. JObj (item n)) ?names)"
    "\<forall>n. get_key (item n) ''name'' = JStr (n @ ''.bin'') \<and> grant_from (item n) operation = Inr (grant n)"
    unfolding batch_service_def by metis
  from store_grants_served [OF call(4), of ?names "?rm\<lparr>rm_world := w'\<rparr>"] obtain grants where
    grants: "store_grants operation (map (\<lambda>n. JObj (item n)) ?names) (?rm\<lparr>rm_world := w'\<rparr>) =
      (?rm\<lparr>rm_world := w', rm_grants := grants\<rparr>, Inr ())"
    "\<forall>c. map_of grants (c, operation) =
       (if c \<in> set ?names then Some (grant c) else map_of (rm_grants rm) (c, operation))" by auto
  have "remote_call aws ''presignBatch'' (batch_values operation ?names) ?rm = (?rm\<lparr>rm_world := w'\<rparr>, Inr v)"
    using call(1) by (simp add: remote_call_def)
  then have "fetch_batch aws d operation rm = (?rm\<lparr>rm_world := w', rm_grants := grants\<rparr>, Inr ())"
    unfolding fetch_batch_def fill Let_def prod.case using call(3) grants(1) by simp
  moreover have "announced (d # ds) BATCH_GRANTS operation grant (?rm\<lparr>rm_world := w', rm_grants := grants\<rparr>)"
    using assms(2) grants(2) by (simp add: announced_def wanted_chunks_def update_conv')
  ultimately show ?thesis
    using call(2) by (intro exI [of _ "?rm\<lparr>rm_world := w', rm_grants := grants\<rparr>"]) simp
qed

lemma take_announced:
  assumes "announced (d # ds) (Suc k) operation grant rm" "distinct (d # ds)" "GRANT_MARGIN \<le> grant_expires_at (grant d) - rm_now rm"
  shows "\<exists>rm'. take_grant d operation rm = (rm', Some (grant d)) \<and> announced ds k operation grant rm' \<and>
    rm_world rm' = rm_world rm \<and> rm_client rm' = rm_client rm \<and> rm_sandbox rm' = rm_sandbox rm \<and> rm_now rm' = rm_now rm"
proof -
  have "d \<notin> set (take k ds)" using assms(2) by (auto dest: in_set_takeD)
  then show ?thesis
    using assms(1,3) by (simp add: take_grant_def announced_def wanted_chunks_def delete_conv')
qed

lemma round_up_step: "Suc ((n - 127 + 127) div 128) = (Suc n + 127) div (128 :: nat)"
proof (cases "127 \<le> n")
  case True
  then obtain m where "n = 127 + m" by (metis le_iff_add)
  then have "(Suc n + 127) div 128 = (m + 127 + 128) div 128" by simp
  also have "\<dots> = Suc ((m + 127) div 128)" by (subst div_add_self2) simp_all
  finally show ?thesis using \<open>n = 127 + m\<close> by simp
next
  case False
  then have "(Suc n + 127) div 128 = 1" by (intro div_nat_eqI) simp_all
  with False show ?thesis by simp
qed

lemma announced_cost:
  assumes "announced ds k operation grant rm" "distinct ds" "sid = rm_sandbox rm"
    "batch_service aws (rm_client rm) operation calls grant" "\<forall>d. GRANT_MARGIN \<le> grant_expires_at (grant d) - rm_now rm"
  shows "\<exists>rm'. presign_each aws sid operation ds rm = (rm', Inr (map grant ds)) \<and>
    calls (rm_world rm') = calls (rm_world rm) + (length ds - k + BATCH_GRANTS - 1) div BATCH_GRANTS"
  using assms
proof (induction ds arbitrary: k rm)
  case Nil
  then show ?case by (simp add: BATCH_GRANTS_def)
next
  case (Cons d ds)
  have margin: "GRANT_MARGIN \<le> grant_expires_at (grant d) - rm_now rm" using Cons.prems(5) by simp
  have own: "own_sandbox rm sid = Inr ()" using Cons.prems(3) by (simp add: own_sandbox_def)
  show ?case
  proof (cases k)
    case (Suc j)
    from take_announced [OF Cons.prems(1) [unfolded Suc] Cons.prems(2) margin] obtain rm1 where
      t: "take_grant d operation rm = (rm1, Some (grant d))" "announced ds j operation grant rm1"
      "rm_world rm1 = rm_world rm" "rm_client rm1 = rm_client rm" "rm_sandbox rm1 = rm_sandbox rm" "rm_now rm1 = rm_now rm" by blast
    from Cons.IH [OF t(2)] Cons.prems(2-5) t(3-6) obtain rm2 where
      "presign_each aws sid operation ds rm1 = (rm2, Inr (map grant ds))"
      "calls (rm_world rm2) = calls (rm_world rm) + (length ds - j + BATCH_GRANTS - 1) div BATCH_GRANTS" by auto
    with t(1) own Suc show ?thesis by (simp add: remote_presign_chunk_def)
  next
    case 0
    let ?rm0 = "rm\<lparr>rm_grants := AList.delete (d, operation) (rm_grants rm)\<rparr>"
    have t: "take_grant d operation rm = (?rm0, None)" using Cons.prems(1) 0 by (simp add: take_grant_def announced_def)
    have a0: "announced (d # ds) 0 operation grant ?rm0"
      using Cons.prems(1) 0 by (simp add: announced_def wanted_chunks_def delete_conv')
    from fetch_announced [OF _ a0 Cons.prems(2)] Cons.prems(4) obtain rm1 where f:
      "fetch_batch aws d operation ?rm0 = (rm1, Inr ())" "announced (d # ds) BATCH_GRANTS operation grant rm1"
      "calls (rm_world rm1) = Suc (calls (rm_world rm))" "rm_client rm1 = rm_client rm" "rm_sandbox rm1 = rm_sandbox rm"
      "rm_now rm1 = rm_now rm" by auto
    have batch: "BATCH_GRANTS = Suc 127" by (simp add: BATCH_GRANTS_def)
    from take_announced [OF f(2) [unfolded batch] Cons.prems(2)] margin f(6) obtain rm2 where
      t2: "take_grant d operation rm1 = (rm2, Some (grant d))" "announced ds 127 operation grant rm2"
      "rm_world rm2 = rm_world rm1" "rm_client rm2 = rm_client rm1" "rm_sandbox rm2 = rm_sandbox rm1" "rm_now rm2 = rm_now rm1" by auto
    from Cons.IH [OF t2(2)] Cons.prems(2-5) t2(3-6) f(4-6) obtain rm3 where
      p: "presign_each aws sid operation ds rm2 = (rm3, Inr (map grant ds))"
      "calls (rm_world rm3) = calls (rm_world rm1) + (length ds - 127 + BATCH_GRANTS - 1) div BATCH_GRANTS" by auto
    have "\<not> (\<not> rm_batch_supported ?rm0 \<or> wanted_chunks ?rm0 operation = [])" using a0 by (simp add: announced_def)
    then have "presign_each aws sid operation (d # ds) rm = (rm3, Inr (map grant (d # ds)))"
      using t f(1) t2(1) p(1) own by (simp add: remote_presign_chunk_def)
    moreover have "Suc ((length ds - 127 + 128 - 1) div 128) = (length (d # ds) + 128 - 1) div 128"
      using round_up_step [of "length ds"] by simp
    ultimately show ?thesis using p(2) f(3) 0 by (simp add: BATCH_GRANTS_def)
  qed
qed

text \<open>
  Announced chunks cost one broker call per batch: after \<open>prefetch_chunks\<close> the grants of \<open>N\<close>
  chunks, asked for one by one, are fetched with \<open>N / 128\<close> calls, rounded up, and each chunk gets
  its own grant.
\<close>

theorem batches_save_calls:
  assumes "prefetch_chunks sid ds operation rm = (rm1, Inr ())" "operation \<in> {GET, PUT}" "distinct ds"
    and "rm_batch_supported rm" "wanted_chunks rm operation = []" "\<forall>d. map_of (rm_grants rm) (d, operation) = None"
    and "batch_service aws (rm_client rm) operation calls grant"
    and "\<forall>d. GRANT_MARGIN \<le> grant_expires_at (grant d) - rm_now rm"
  shows "\<exists>rm2. presign_each aws sid operation ds rm1 = (rm2, Inr (map grant ds)) \<and>
    calls (rm_world rm2) = calls (rm_world rm) + (length ds + 127) div 128"
proof -
  have own: "sid = rm_sandbox rm" using assms(1) by (auto simp: prefetch_chunks_def own_sandbox_def split: if_splits)
  with assms have rm1: "rm1 = rm\<lparr>rm_wanted := AList.update operation ds (rm_wanted rm)\<rparr>"
    by (auto simp: prefetch_chunks_def own_sandbox_def)
  have "announced ds 0 operation grant rm1"
    using assms(4,6) by (simp add: announced_def rm1 wanted_chunks_def update_conv')
  from announced_cost [OF this assms(3), of sid aws calls] own assms(7,8) show ?thesis by (simp add: rm1 BATCH_GRANTS_def add.commute)
qed

subsection \<open>Grants handed out\<close>

definition cached_by_method :: "'w remote \<Rightarrow> bool" where
  "cached_by_method rm \<longleftrightarrow> (\<forall>k g. map_of (rm_grants rm) k = Some g \<longrightarrow> grant_method g = snd k)"

lemma grant_from_method: "grant_from v operation = Inr g \<Longrightarrow> grant_method g = operation"
  by (auto simp: grant_from_def Let_def split: json.splits option.splits if_splits)

lemma store_grants_frame:
  "store_grants operation items rm = (rm', r) \<Longrightarrow> cached_by_method rm \<Longrightarrow>
     cached_by_method rm' \<and> rm_now rm' = rm_now rm \<and> rm_client rm' = rm_client rm \<and> rm_sandbox rm' = rm_sandbox rm"
proof (induction items arbitrary: rm)
  case (Cons item items)
  show ?case
  proof (cases "\<exists>entry name g. item = JObj entry \<and> get_key entry ''name'' = JStr name \<and> ends_with name ''.bin'' \<and>
      grant_from entry operation = Inr g")
    case True
    then obtain entry name g where i: "item = JObj entry" "get_key entry ''name'' = JStr name" "ends_with name ''.bin''"
      "grant_from entry operation = Inr g" by blast
    let ?rm = "rm\<lparr>rm_grants := AList.update (remove_suffix name ''.bin'', operation) g (rm_grants rm)\<rparr>"
    have "cached_by_method ?rm"
      using Cons.prems(2) grant_from_method [OF i(4)] by (auto simp: cached_by_method_def update_conv' split: if_splits)
    moreover have "store_grants operation items ?rm = (rm', r)" using Cons.prems(1) i by simp
    ultimately show ?thesis using Cons.IH by fastforce
  next
    case False
    with Cons.prems show ?thesis
      by (auto split: json.splits if_splits elim!: trying_elim)
  qed
qed simp

lemma remote_call_iff:
  "remote_call aws operation values rm = (rm', r) \<longleftrightarrow>
     (\<exists>w. client_call aws (rm_client rm) operation values (rm_world rm) = (w, r) \<and> rm' = rm\<lparr>rm_world := w\<rparr>)"
  by (cases "client_call aws (rm_client rm) operation values (rm_world rm)") (auto simp: remote_call_def)

lemma remote_call_frame:
  "remote_call aws operation values rm = (rm', r) \<Longrightarrow> rm' = rm\<lparr>rm_world := rm_world rm'\<rparr>"
  by (auto simp: remote_call_iff)

lemma fetch_batch_frame:
  assumes "fetch_batch aws d operation rm = (rm', r)" "cached_by_method rm"
  shows "cached_by_method rm' \<and> rm_now rm' = rm_now rm \<and> rm_client rm' = rm_client rm \<and> rm_sandbox rm' = rm_sandbox rm"
proof -
  let ?skip = "\<lambda>c. c = d \<or> map_of (rm_grants rm) (c, operation) \<noteq> None"
  obtain names left where f: "fill_batch ?skip [d] (wanted_chunks rm operation) = (names, left)" by fastforce
  let ?rm = "rm\<lparr>rm_wanted := AList.update operation left (rm_wanted rm)\<rparr>"
  obtain rm1 r1 where c: "remote_call aws ''presignBatch'' (batch_values operation names) ?rm = (rm1, r1)" by fastforce
  have rm1: "rm1 = ?rm\<lparr>rm_world := rm_world rm1\<rparr>" by (rule remote_call_frame [OF c])
  have k: "cached_by_method rm1" using assms(2) by (subst rm1) (simp add: cached_by_method_def)
  have s: "rm_now rm1 = rm_now rm" "rm_client rm1 = rm_client rm" "rm_sandbox rm1 = rm_sandbox rm" by (subst rm1, simp)+
  show ?thesis
  proof (cases "\<exists>v items. r1 = Inr v \<and> get_key v ''grants'' = JList items")
    case True
    then obtain v items where v: "r1 = Inr v" "get_key v ''grants'' = JList items" by blast
    with assms(1) f c have "store_grants operation items rm1 = (rm', r)" by (simp add: fetch_batch_def)
    from store_grants_frame [OF this k] s show ?thesis by simp
  next
    case False
    with assms(1) f c k s show ?thesis
      by (auto simp: fetch_batch_def cached_by_method_def split: sum.splits fault.splits json.splits)
  qed
qed

lemma take_grant_frame:
  assumes "take_grant d operation rm = (rm', r)" "cached_by_method rm"
  shows "cached_by_method rm' \<and> rm_now rm' = rm_now rm \<and> rm_client rm' = rm_client rm \<and> rm_sandbox rm' = rm_sandbox rm \<and>
    map_of (rm_grants rm') (d, operation) = None \<and>
    (\<forall>g. r = Some g \<longrightarrow> GRANT_MARGIN \<le> grant_expires_at g - rm_now rm \<and> grant_method g = operation)"
  using assms by (auto simp: take_grant_def cached_by_method_def delete_conv' split: option.splits if_splits)

definition issued_alone :: "'w aws \<Rightarrow> broker_client \<Rightarrow> string \<Rightarrow> storage_operation \<Rightarrow> presigned \<Rightarrow> bool" where
  "issued_alone aws cl name operation g \<longleftrightarrow>
     (\<exists>w w' v. client_call aws cl ''presign'' [(''category'', JStr ''chunks''), (''method'', JStr (operation_text operation)),
        (''name'', JStr name)] w = (w', Inr v) \<and> grant_from v operation = Inr g)"

lemma remote_presign_alone:
  assumes "remote_presign aws sid ''chunks'' name operation rm = (rm', Inr g)"
  shows "issued_alone aws (rm_client rm) name operation g \<and> rm' = rm\<lparr>rm_world := rm_world rm'\<rparr> \<and> grant_method g = operation"
  using assms unfolding remote_presign_def
  by (elim trying_elim then_do_elim) (auto simp: remote_call_iff issued_alone_def dest: grant_from_method)

text \<open>
  A grant is handed out once and never close to its expiry: what \<open>presign_chunk\<close> answers is
  either a cached grant with at least a minute to live, which leaves the cache, or one the broker
  has just issued for exactly this chunk and operation.
\<close>

lemma presign_chunk_grants:
  assumes "remote_presign_chunk aws sid d operation rm = (rm', Inr g)" "cached_by_method rm"
  shows "grant_method g = operation \<and> map_of (rm_grants rm') (d, operation) = None \<and> cached_by_method rm' \<and>
    (GRANT_MARGIN \<le> grant_expires_at g - rm_now rm \<or> issued_alone aws (rm_client rm) (d @ ''.bin'') operation g)"
proof -
  let ?alone = "remote_presign aws sid ''chunks'' (d @ ''.bin'') operation"
  have alone: ?thesis if "?alone rm0 = (rm', Inr g)" "cached_by_method rm0" "map_of (rm_grants rm0) (d, operation) = None"
    "rm_client rm0 = rm_client rm" for rm0
  proof -
    note p = remote_presign_alone [OF that(1)]
    have "rm_grants rm' = rm_grants rm0" using p by (metis remote.select_convs(3) remote.surjective remote.update_convs(6))
    with p that show ?thesis by (simp add: cached_by_method_def)
  qed
  obtain rm1 r1 where t1: "take_grant d operation rm = (rm1, r1)" by fastforce
  note f1 = take_grant_frame [OF t1 assms(2)]
  have own: "own_sandbox rm sid = Inr ()" using assms(1) by (auto simp: remote_presign_chunk_def own_sandbox_def split: if_splits)
  show ?thesis
  proof (cases r1)
    case (Some g1)
    with assms(1) t1 f1 own show ?thesis by (auto simp: remote_presign_chunk_def)
  next
    case None
    show ?thesis
    proof (cases "\<not> rm_batch_supported rm1 \<or> wanted_chunks rm1 operation = []")
      case True
      with assms(1) t1 None own have "?alone rm1 = (rm', Inr g)" by (simp add: remote_presign_chunk_def)
      with f1 show ?thesis by (intro alone [of rm1]) simp_all
    next
      case False
      obtain rm2 r2 where b: "fetch_batch aws d operation rm1 = (rm2, r2)" by fastforce
      note f2 = fetch_batch_frame [OF b conjunct1 [OF f1]]
      from assms(1) t1 None own False b have "\<exists>u. r2 = Inr u" by (cases r2) (auto simp: remote_presign_chunk_def)
      then obtain u where r2: "r2 = Inr u" by blast
      obtain rm3 r3 where t2: "take_grant d operation rm2 = (rm3, r3)" by fastforce
      note f3 = take_grant_frame [OF t2 conjunct1 [OF f2]]
      show ?thesis
      proof (cases r3)
        case (Some g3)
        with assms(1) t1 None own False b r2 t2 f1 f2 f3 show ?thesis by (auto simp: remote_presign_chunk_def)
      next
        case None
        with assms(1) t1 \<open>r1 = None\<close> own False b r2 t2 have "?alone rm3 = (rm', Inr g)" by (simp add: remote_presign_chunk_def)
        with f1 f2 f3 show ?thesis by (intro alone [of rm3]) simp_all
      qed
    qed
  qed
qed

subsection \<open>When the broker refuses\<close>

lemma batch_answer:
  assumes "take_grant d operation rm = (rm1, None)" "own_sandbox rm sid = Inr ()" "rm_batch_supported rm" "wanted_chunks rm operation \<noteq> []"
  shows "remote_presign_chunk aws sid d operation rm = then_do (fetch_batch aws d operation rm1) (\<lambda>rm _.
      case take_grant d operation rm of
        (rm, Some g) \<Rightarrow> (rm, Inr g)
      | (rm, None) \<Rightarrow> remote_presign aws sid ''chunks'' (d @ ''.bin'') operation rm)"
proof -
  have "rm_batch_supported rm1" "wanted_chunks rm1 operation = wanted_chunks rm operation"
    using assms(1,3) by (auto simp: take_grant_def wanted_chunks_def)
  with assms show ?thesis by (simp add: remote_presign_chunk_def)
qed

text \<open>
  A broker without the batch operation is remembered once: an ordinary error of the batch call
  turns batching off, drops what was announced, and the chunk gets a grant of its own; a refused
  binding is not a missing feature and reaches the caller.
\<close>

theorem batch_error_falls_back:
  assumes "take_grant d operation rm = (rm1, None)" "own_sandbox rm sid = Inr ()" "rm_batch_supported rm"
    and "wanted_chunks rm operation \<noteq> []"
    and "\<And>names. client_call aws (rm_client rm) ''presignBatch'' (batch_values operation names) (rm_world rm) = (w, Inl e)"
    and "is_broker_error e"
  shows "remote_presign_chunk aws sid d operation rm =
    (case e of
       BrokerRefusalError msg \<Rightarrow> (fst (fetch_batch aws d operation rm1), Inl (BrokerRefusalError msg))
     | _ \<Rightarrow> remote_presign aws sid ''chunks'' (d @ ''.bin'') operation
         (rm\<lparr>rm_world := w, rm_wanted := [], rm_batch_supported := False, rm_grants := AList.delete (d, operation) (rm_grants rm)\<rparr>))"
proof -
  let ?rm = "\<lambda>left. rm1\<lparr>rm_wanted := AList.update operation left (rm_wanted rm1)\<rparr>"
  have rm1: "rm1 = rm\<lparr>rm_grants := AList.delete (d, operation) (rm_grants rm)\<rparr>" using assms(1) by (simp add: take_grant_def)
  have call: "remote_call aws ''presignBatch'' (batch_values operation names) (?rm left) = ((?rm left)\<lparr>rm_world := w\<rparr>, Inl e)"
    for names left using assms(5) by (simp add: remote_call_iff rm1)
  note answer = batch_answer [OF assms(1-4), of aws]
  show ?thesis
  proof (cases "\<exists>msg. e = BrokerRefusalError msg")
    case True
    then obtain msg where e: "e = BrokerRefusalError msg" by blast
    have "snd (fetch_batch aws d operation rm1) = Inl (BrokerRefusalError msg)"
      by (simp add: fetch_batch_def Let_def call e split: prod.split)
    then show ?thesis unfolding answer e by (cases "fetch_batch aws d operation rm1") simp
  next
    case False
    with assms(6) obtain msg where e: "e = BrokerAuthorizationError msg" by (cases e) (auto simp: is_broker_error_def)
    have fetch: "fetch_batch aws d operation rm1 =
        (rm\<lparr>rm_grants := AList.delete (d, operation) (rm_grants rm), rm_world := w, rm_wanted := [], rm_batch_supported := False\<rparr>, Inr ())"
      by (simp add: fetch_batch_def Let_def call e split: prod.split) (simp add: rm1)
    show ?thesis unfolding answer fetch e by (simp add: take_grant_def delete_conv' AList.delete_idem)
  qed
qed

subsection \<open>Addresses\<close>


subsection \<open>Other sandboxes\<close>

text \<open>
  The protocol serves one sandbox only: asked for any other one, every operation of the
  broker the store is given fails, without a call and without a change.
\<close>

theorem other_sandbox_denied:
  assumes "sid \<noteq> rm_sandbox rm"
  shows "\<not> is_ok (cb_context (remote_broker aws rm) sid) \<and>
    (let cb = remote_broker aws rm in
     \<forall>(s, r) \<in> {map_prod id is_ok (cb_presign_chunk cb sid d op rm), map_prod id is_ok (cb_presign_manifest cb sid g op rm),
         map_prod id is_ok (cb_presign_commit cb sid g op rm), map_prod id is_ok (cb_chunk_exists cb sid d rm),
         map_prod id is_ok (cb_internal_keys cb sid category rm), map_prod id is_ok (cb_internal_delete cb sid category name rm),
         map_prod id is_ok (prefetch_chunks sid ds op rm), map_prod id is_ok (remote_cipher aws sid rm)}.
       s = rm \<and> \<not> r)"
  using assms
  by (simp add: remote_broker_def own_sandbox_def remote_context_def remote_presign_chunk_def remote_presign_manifest_def
      remote_presign_commit_def remote_presign_def remote_chunk_exists_def remote_internal_keys_def remote_internal_delete_def
      prefetch_chunks_def remote_cipher_def)

subsection \<open>The broker function behind the client\<close>

text \<open>
  Lambda runs the handler on the parsed payload and answers its printed result; an exception sets
  \<open>FunctionError\<close> and names its class in \<open>errorType\<close>.
\<close>

definition class_name :: "crash \<Rightarrow> string" where
  "class_name c = (case c of RuntimeErr _ \<Rightarrow> ''RuntimeError'' | ValueCrash _ \<Rightarrow> ''ValueError'' | ClientCrash _ \<Rightarrow> ''ClientError''
     | PermissionErr _ \<Rightarrow> ''PermissionError'' | KeyErr _ \<Rightarrow> ''KeyError'' | TypeErr _ \<Rightarrow> ''TypeError''
     | AttributeErr _ \<Rightarrow> ''AttributeError'')"

definition hosted :: "('s, 'o) broker_env \<Rightarrow> time \<Rightarrow> time \<Rightarrow> ('s, 'o) broker_state aws" where
  "hosted e checked now =
     \<lparr> invoke_function = (\<lambda>arn payload st.
         case Option.bind (utf8_decode payload) json_loads of
           Some (JObj event) \<Rightarrow>
             (case broker_handler e checked now event st of
                (st', Inr answer) \<Rightarrow> (st', Invoked False (print_json (JObj answer)))
              | (st', Inl c) \<Rightarrow> (st', Invoked True (print_json (JObj [(''errorType'', JStr (class_name c))]))))
         | _ \<Rightarrow> (st, Invoked True (print_json (JObj [(''errorType'', JStr ''Runtime.UnmarshalError'')])))),
       open_url = (\<lambda>operation url headers body st. (st, NoConnection)) \<rparr>"

definition wire_event :: "broker_client \<Rightarrow> string \<Rightarrow> (string \<times> json) list \<Rightarrow> (string \<times> json) list" where
  "wire_event cl operation values =
     [(''bindingToken'', JStr (binding_token cl)), (''operation'', JStr operation),
      (''runtimeSessionId'', JStr (client_session cl)), (''sandboxId'', JStr (client_sandbox cl))] @ values"

lemma load_printed: "plain_json v \<Longrightarrow> Option.bind (utf8_decode (print_json v)) json_loads = Some v"
  by (simp add: utf8_decode_printable printable_print json_loads_print)

lemma request_loads:
  assumes "plain_json (JObj (wire_event cl operation values))"
  shows "Option.bind (utf8_decode (broker_request operation (binding_token cl) (client_sandbox cl) (client_session cl) values)) json_loads
      = Some (JObj (wire_event cl operation values))"
  using load_printed [OF assms] by (simp add: broker_request_def wire_event_def)

lemma read_answer_printed: "plain_json (JObj v) \<Longrightarrow> read_answer (Invoked False (print_json (JObj v))) = Inr v"
  unfolding read_answer_def invocation.case if_False by (subst load_printed) simp_all

text \<open>What the handler is given is what the client was asked to send.\<close>

lemma client_call_hosted:
  assumes "client_call (hosted e checked now) cl operation values st = (st', r)" "plain_json (JObj (wire_event cl operation values))"
  shows "st' = fst (broker_handler e checked now (wire_event cl operation values) st) \<and>
    (is_ok r \<longrightarrow> is_ok (snd (broker_handler e checked now (wire_event cl operation values) st)))"
proof -
  note request_loads [OF assms(2)]
  moreover obtain st1 r1 where h: "broker_handler e checked now (wire_event cl operation values) st = (st1, r1)" by fastforce
  ultimately show ?thesis
    using assms(1) by (cases r1) (auto simp: client_call_def invoke_broker_def hosted_def read_answer_def split: if_splits)
qed

text \<open>A refusal of the handler arrives as a refusal, every other exception as an ordinary broker error.\<close>

lemma refusal_arrives:
  assumes "broker_handler e checked now (wire_event cl operation values) st = (st1, Inl c)"
    "plain_json (JObj (wire_event cl operation values))"
  shows "snd (client_call (hosted e checked now) cl operation values st) =
    Inl (case c of PermissionErr _ \<Rightarrow> BrokerRefusalError ''Persistence broker refused the binding.''
       | _ \<Rightarrow> BrokerAuthorizationError ''Persistence broker rejected the operation.'')"
proof -
  note request_loads [OF assms(2)]
  moreover have "error_type (print_json (JObj [(''errorType'', JStr (class_name c))])) = Some (class_name c)"
    by (simp only: error_type_def) (subst load_printed; simp)
  ultimately show ?thesis
    using assms(1) by (cases c) (auto simp: client_call_def invoke_broker_def hosted_def read_answer_def class_name_def)
qed

lemma receipt_plain: "plain_json (JObj (wire_event cl ''checkpointReceipt'' (receipt_values cl g d final)))"
  by (auto simp: wire_event_def receipt_values_def optional_field_def split: option.splits)

lemma receipt_fields:
  "get_key (wire_event cl ''checkpointReceipt'' (receipt_values cl g d final)) ''operation'' = JStr ''checkpointReceipt''"
  "get_key (wire_event cl ''checkpointReceipt'' (receipt_values cl g d final)) ''sandboxId'' = JStr (client_sandbox cl)"
  "get_key (wire_event cl ''checkpointReceipt'' (receipt_values cl g d final)) ''generation'' = JInt g"
  "get_key (wire_event cl ''checkpointReceipt'' (receipt_values cl g d final)) ''manifestDigest'' = JStr d"
  "get_key (wire_event cl ''checkpointReceipt'' (receipt_values cl g d final)) ''baseGeneration'' =
     (case base_generation cl of None \<Rightarrow> JNull | Some b \<Rightarrow> JInt b)"
  "get_key (wire_event cl ''checkpointReceipt'' (receipt_values cl g d final)) ''holderInstance'' =
     (case holder_instance cl of None \<Rightarrow> JNull | Some h \<Rightarrow> JStr h)"
  by (auto simp: wire_event_def receipt_values_def optional_field_def split: option.splits)

lemma receipt_applied:
  assumes "dynamo_documented (be_db e)" "Broker.checkpoint_receipt e sid claims event now s ob = (s', Inr answer)"
  obtains rq holder hints where "receipt_request_of claims event = Inr rq" "receipt_holder event = Inr holder"
    "fst ` set hints \<subseteq> schedule_names"
    "holds (receipt_condition rq holder) (item_at (table_of (be_db e) s) (record_key sid))"
    "item_at (table_of (be_db e) s') (record_key sid) =
       apply_update (receipt_update rq hints now) (item_at (table_of (be_db e) s) (record_key sid))"
proof -
  from assms(2) obtain rq ws where p: "receipt_writes e sid claims event now ob = Inr (rq, ws)"
    and t: "transact_items (be_db e) ws s = (s', Written)"
    unfolding Broker.checkpoint_receipt_def by (elim trying_elim) (auto split: outcome.splits prod.splits)
  from p show ?thesis
  proof (rule receipt_writes_elim)
    fix created hints holder
    assume f: "receipt_request_of claims event = Inr rq" "receipt_holder event = Inr holder"
      and hints: "schedule_hints event now = Inr hints"
      and ws: "ws = [Update (record_key sid) (receipt_update rq hints now) (receipt_condition rq holder),
           Put (checkpoint_item sid rq created) Always]"
    from dynamo_transact [OF assms(1) t] have "written (table_of (be_db e) s) ws (table_of (be_db e) s')" by simp
    with that [OF f schedule_hint_names [OF hints]] show ?thesis
      unfolding ws receipt_written by (auto simp: after_update_def item_at_def checkpoint_key_def record_key_def)
  qed
qed

text \<open>
  (C2) Across the wire: when the broker function hands the container a receipt, the sandbox record
  points at the generation and manifest the container committed, the pointer was not ahead of the
  base the working copy descends from, unless this very receipt put it there, and no other
  instance held the sandbox; the client then takes the generation as its new base.
\<close>

theorem receipt_moves_record:
  assumes "dynamo_documented (be_db e)"
    and "Remote.checkpoint_receipt (hosted e checked now) g digest final (cl, st) = ((cl', st'), Inr receipt)"
  shows "(let before = item_at (tbl e st) (record_key (client_sandbox cl)); after = item_at (tbl e st') (record_key (client_sandbox cl)) in
     after ''lastCheckpointGeneration'' = Some (AttrN g) \<and> after ''lastCheckpointManifestDigest'' = Some (AttrS digest) \<and>
     cl' = cl\<lparr>base_generation := Some g\<rparr> \<and>
     (\<forall>base pointer. base_generation cl = Some base \<and> before ''lastCheckpointGeneration'' = Some (AttrN pointer) \<longrightarrow>
        pointer \<le> base \<or> (pointer = g \<and> before ''lastCheckpointManifestDigest'' = Some (AttrS digest))) \<and>
     (\<forall>h. holder_instance cl = Some h \<longrightarrow> before ''holderInstance'' \<in> {None, Some (AttrS h)}))"
proof -
  let ?event = "wire_event cl ''checkpointReceipt'' (receipt_values cl g digest final)"
  let ?sid = "client_sandbox cl"
  obtain st1 r1 where c: "client_call (hosted e checked now) cl ''checkpointReceipt'' (receipt_values cl g digest final) st = (st1, r1)"
    by fastforce
  with assms(2) have cl': "st1 = st'" "is_ok r1" "cl' = cl\<lparr>base_generation := Some g\<rparr>"
    by (cases r1; auto simp: Remote.checkpoint_receipt_def split: json.splits)+
  obtain answer where h: "broker_handler e checked now ?event st = (st', Inr answer)"
    using client_call_hosted [OF c receipt_plain] cl'(1,2) by (cases "broker_handler e checked now ?event st") (auto simp: is_ok_iff)
  obtain claims sid where a: "authorize e claims ?event checked (bs_table st) = Inr sid"
    and op: "broker_operation e ''checkpointReceipt'' sid claims ?event now st = (st', Inr answer)"
    using h unfolding broker_handler_def
    by (auto simp: receipt_fields wire_event_def elim!: trying_elim split: if_splits)
  have sid: "sid = ?sid" using authorize_Inr(1) [OF a] by (simp add: receipt_fields)
  have "Broker.checkpoint_receipt e ?sid claims ?event now (bs_table st) (bs_objects st) = (bs_table st', Inr answer)"
    using op by (auto simp: broker_operation_def on_table_def sid Let_def prod_eq_iff)
  from receipt_applied [OF assms(1) this] obtain rq holder hints where r: "receipt_request_of claims ?event = Inr rq"
    "receipt_holder ?event = Inr holder" "fst ` set hints \<subseteq> schedule_names" "holds (receipt_condition rq holder) (item_at (tbl e st) (record_key ?sid))"
    "item_at (tbl e st') (record_key ?sid) = apply_update (receipt_update rq hints now) (item_at (tbl e st) (record_key ?sid))"
    unfolding tbl_def by blast
  have rq: "rq_generation rq = g" "rq_digest rq = digest" "base_generation cl = None \<or> rq_base rq = base_generation cl"
    using r(1) by (auto simp: receipt_request_of_def and_then_Inr Broker.base_generation_def receipt_fields
        split: json.splits if_splits option.splits)
  have holder: "holder_instance cl = Some i \<Longrightarrow> holder = Some i" for i
    using r(2) by (auto simp: receipt_holder_def receipt_fields split: if_splits)
  show ?thesis
    using r(4) rq holder receipt_effect(1,2) [OF r(3), of rq now "item_at (tbl e st) (record_key ?sid)"] cl'(3)
    by (auto simp: Let_def r(5) receipt_condition_def advance_condition_def same_holder_def)
qed

subsection \<open>Concrete calls\<close>

definition sample_client :: broker_client where
  "sample_client = \<lparr> function_arn = ''broker'', client_sandbox = broker_sid, client_session = ''session'',
     binding_token = sample_token, base_generation = Some 5, next_due_at = None, next_due_job = [],
     restore_seconds = Some 12, holder_instance = Some new_instance \<rparr>"

definition sample_committed :: "(table, memory_bucket) broker_state" where
  "sample_committed = broker_state_of
     (broker_item_at ''READY'' [(''lastCheckpointGeneration'', AttrN 5), (''holderInstance'', AttrS new_instance)])
     [((''value-of-CHECKPOINT_BUCKET'', commit_key broker_sid 6), commit_payload 6 (replicate 64 (CHR ''d'')) 5)]"

lemma sample_receipt:
  obtains cl' st' receipt where
    "Remote.checkpoint_receipt (hosted sample_broker_env (seconds 5) (seconds 6)) 6 (replicate 64 (CHR ''d'')) False
       (sample_client, sample_committed) = ((cl', st'), Inr receipt)"
proof (rule sample_binding)
  fix claims
  let ?d = "replicate 64 (CHR ''d'')"
  let ?event = "wire_event sample_client ''checkpointReceipt'' (receipt_values sample_client 6 ?d False)"
  assume b: "binding sample_broker_env (seconds 5) sample_token = Inr claims"
    and g: "\<And>key. get_key claims key = sort_json (get_key sample_session_claims key)"
  have claims: "get_key claims ''sandboxId'' = JStr broker_sid" "get_key claims ''runtimeSessionId'' = JStr ''session''"
    "get_key claims ''subjectHash'' = JStr (replicate 64 (CHR ''a''))" "get_key claims ''type'' = JStr ''runtime-session''"
    by (simp_all add: g sample_session_claims_def)
  have event: "get_key ?event ''bindingToken'' = JStr sample_token" "get_key ?event ''sandboxId'' = JStr broker_sid"
    "get_key ?event ''runtimeSessionId'' = JStr ''session''" "get_default ?event ''final'' v = JBool False"
    "get_key ?event ''nextDueAt'' = JNull" "get_key ?event ''restoreSeconds'' = JInt 12" for v
    by (simp_all add: wire_event_def sample_client_def receipt_values_def optional_field_def get_default_def)
  have item: "item_at (bs_table sample_committed) (record_key broker_sid) =
      broker_item_at ''READY'' [(''lastCheckpointGeneration'', AttrN 5), (''holderInstance'', AttrS new_instance)]"
    "bs_table sample_committed (record_key broker_sid) =
      Some (broker_item_at ''READY'' [(''lastCheckpointGeneration'', AttrN 5), (''holderInstance'', AttrS new_instance)])"
    by (simp_all add: sample_committed_def item_at_def)
  have auth: "authorize sample_broker_env claims ?event (seconds 5) (bs_table sample_committed) = Inr broker_sid"
    by (simp add: authorize_def claimed_sandbox_def event claims broker_item_def item authorized_item_def broker_item_at_def
        attr_s_def opt_json_def LIVE_STATES_def)
  let ?rq = "\<lparr>rq_generation = 6, rq_digest = ?d, rq_session = ''session'', rq_subject = replicate 64 (CHR ''a''),
      rq_final = False, rq_base = Some 5\<rparr>"
  have patterns: "digest_pattern ?d" "digest_pattern (replicate 64 (CHR ''a''))"
    by (auto simp: digest_pattern_def list_all_iff is_hex_def is_decimal_char_def)
  have request: "receipt_request_of claims ?event = Inr ?rq"
    using patterns by (simp add: receipt_request_of_def receipt_fields event claims Broker.base_generation_def)
      (simp add: sample_client_def)
  let ?commit = "[(''committedAt'', JStr (timestamp 5)), (''generation'', JInt 6), (''manifestDigest'', JStr ?d), (''schemaVersion'', JInt 1)]"
  have load: "json_loads (commit_payload 6 ?d 5) = Some (JObj (sort_key fst ?commit))"
    unfolding commit_payload_def by (subst json_loads_dumps) simp_all
  have "map_of (sort_key fst ?commit) = map_of ?commit" by (rule map_of_sorted) simp
  then have committed: "committed_at (commit_payload 6 ?d 5) ?rq = Inr (timestamp 5)"
    by (simp add: committed_at_def load get_key_def del: sort_key_simps)
  have hints: "schedule_hints ?event (seconds 6) = Inr [(''restoreSeconds'', AttrN 12)]"
    by (simp add: schedule_hints_def due_hints_def restore_hint_def event)
  have holder: "receipt_holder ?event = Inr (Some new_instance)"
    by (simp add: receipt_holder_def receipt_fields) (simp add: sample_client_def)
  have cond: "holds (receipt_condition ?rq (Some new_instance)) (item_at (bs_table sample_committed) (record_key broker_sid))"
    by (simp add: item receipt_condition_def advance_condition_def same_holder_def receipt_states_def broker_item_at_def)
  let ?writes = "[Update (record_key broker_sid) (receipt_update ?rq [(''restoreSeconds'', AttrN 12)] (seconds 6)) (receipt_condition ?rq (Some new_instance)),
       Put (checkpoint_item broker_sid ?rq (timestamp 5)) Always]"
  have get: "s3_get_object memory_s3 ''value-of-CHECKPOINT_BUCKET'' (commit_key broker_sid 6) (bs_objects sample_committed) = Inr (commit_payload 6 ?d 5)"
    by (simp add: memory_s3_def sample_committed_def)
  have writes: "receipt_writes sample_broker_env broker_sid claims ?event (seconds 6) (bs_objects sample_committed) = Inr (?rq, ?writes)"
    by (simp add: receipt_writes_def request get committed hints holder)
  have "list_all (allowed (bs_table sample_committed)) ?writes" using cond by (simp add: allowed_def item)
  then obtain s' where t: "transact_items (be_db sample_broker_env) ?writes (bs_table sample_committed) = (s', Written)" by simp
  obtain token where token: "receipt_token sample_broker_env broker_sid ?rq (seconds 6) =
      Inr [(''checkpointReceipt'', JStr token), (''generation'', JInt 6), (''manifestDigest'', JStr ?d)]"
    by (auto simp: receipt_token_def sign_claims_def sample_kms_def Let_def)
  let ?answer = "[(''checkpointReceipt'', JStr token), (''generation'', JInt 6), (''manifestDigest'', JStr ?d)]"
  have "Broker.checkpoint_receipt sample_broker_env broker_sid claims ?event (seconds 6) (bs_table sample_committed) (bs_objects sample_committed)
      = (s', Inr ?answer)"
    by (simp only: Broker.checkpoint_receipt_def writes trying_simps prod.case t outcome.case token)
  then have "broker_handler sample_broker_env (seconds 5) (seconds 6) ?event sample_committed = (sample_committed\<lparr>bs_table := s'\<rparr>, Inr ?answer)"
    by (simp add: broker_handler_def receipt_fields event b auth broker_operation_def on_table_def Let_def)
  moreover have "read_answer (Invoked False (print_json (JObj ?answer))) = Inr ?answer" by (rule read_answer_printed) simp
  moreover note request_loads [OF receipt_plain]
  ultimately have "Remote.checkpoint_receipt (hosted sample_broker_env (seconds 5) (seconds 6)) 6 ?d False (sample_client, sample_committed) =
      ((sample_client\<lparr>base_generation := Some 6\<rparr>, sample_committed\<lparr>bs_table := s'\<rparr>), Inr token)"
    by (simp add: Remote.checkpoint_receipt_def client_call_def invoke_broker_def hosted_def)
  then show ?thesis by (rule that)
qed

theorem receipt_moves_record_witness:
  "case Remote.checkpoint_receipt (hosted sample_broker_env (seconds 5) (seconds 6)) 6 (replicate 64 (CHR ''d'')) False
      (sample_client, sample_committed) of
     ((cl', st'), Inr receipt) \<Rightarrow>
       item_at (tbl sample_broker_env st') (record_key broker_sid) ''lastCheckpointGeneration'' = Some (AttrN 6)
   | _ \<Rightarrow> False"
proof (rule sample_receipt)
  fix cl' st' receipt
  assume r: "Remote.checkpoint_receipt (hosted sample_broker_env (seconds 5) (seconds 6)) 6 (replicate 64 (CHR ''d'')) False
      (sample_client, sample_committed) = ((cl', st'), Inr receipt)"
  have "client_sandbox sample_client = broker_sid" by (simp add: sample_client_def)
  with receipt_moves_record [OF _ r] show ?thesis by (simp add: r Let_def)
qed

text \<open>A service that grants whatever a batch names and counts its calls.\<close>

definition counted_item :: "json \<Rightarrow> json" where
  "counted_item name = JObj [(''name'', name), (''url'', JStr ''https://bucket.s3.amazonaws.com/''),
     (''expiresAt'', JStr (timestamp 5)), (''headers'', JObj [])]"

definition counting_aws :: "nat aws" where
  "counting_aws =
     \<lparr> invoke_function = (\<lambda>arn payload n. (Suc n,
         case Option.bind (utf8_decode payload) json_loads of
           Some (JObj event) \<Rightarrow>
             (case get_key event ''names'' of
                JList names \<Rightarrow> Invoked False (print_json (JObj [(''grants'', JList (map counted_item names))]))
              | _ \<Rightarrow> Invoked True [])
         | _ \<Rightarrow> Invoked True [])),
       open_url = (\<lambda>operation url headers body n. (n, NoConnection)) \<rparr>"

lemma counting_service:
  "batch_service counting_aws cl operation id
     (\<lambda>d. \<lparr> grant_url = ''https://bucket.s3.amazonaws.com/'', grant_method = operation, grant_expires_at = 5, grant_headers = [] \<rparr>)"
  unfolding batch_service_def
proof (intro allI)
  fix names and n :: nat
  let ?names = "map (\<lambda>n. JStr (n @ ''.bin'')) names"
  let ?item = "\<lambda>n. [(''name'', JStr (n @ ''.bin'')), (''url'', JStr ''https://bucket.s3.amazonaws.com/''),
     (''expiresAt'', JStr (timestamp 5)), (''headers'', JObj [])]"
  let ?v = "[(''grants'', JList (map (\<lambda>n. JObj (?item n)) names))]"
  have items: "map counted_item ?names = map (\<lambda>n. JObj (?item n)) names" by (simp add: counted_item_def)
  have "plain_json (JObj (wire_event cl ''presignBatch'' (batch_values operation names)))"
    by (simp add: wire_event_def batch_values_def list_all_iff)
  note event = request_loads [OF this]
  have "get_key (wire_event cl ''presignBatch'' (batch_values operation names)) ''names'' = JList ?names"
    by (simp add: wire_event_def batch_values_def)
  with event have invoked: "invoke_function counting_aws (function_arn cl) (broker_request ''presignBatch'' (binding_token cl)
      (client_sandbox cl) (client_session cl) (batch_values operation names)) n = (Suc n, Invoked False (print_json (JObj ?v)))"
    by (simp add: counting_aws_def items del: map_map print_json.simps)
  have "plain_json (JObj ?v)" by (simp add: list_all_iff)
  note answer = read_answer_printed [OF this]
  have "client_call counting_aws cl ''presignBatch'' (batch_values operation names) n = (Suc n, Inr ?v)"
    unfolding client_call_def invoke_broker_def invoked by (simp only: map_prod_simp id_apply answer)
  moreover have "grant_from (?item d) operation = Inr \<lparr> grant_url = ''https://bucket.s3.amazonaws.com/'', grant_method = operation,
      grant_expires_at = 5, grant_headers = [] \<rparr>" for d
    using early_times by (simp add: grant_from_def read_timestamp_timestamp map_filter_simps)
  ultimately show "\<exists>w' v item. client_call counting_aws cl ''presignBatch'' (batch_values operation names) n = (w', Inr v) \<and>
      id w' = Suc (id n) \<and> get_key v ''grants'' = JList (map (\<lambda>n. JObj (item n)) names) \<and>
      (\<forall>n. get_key (item n) ''name'' = JStr (n @ ''.bin'') \<and> grant_from (item n) operation =
        Inr \<lparr> grant_url = ''https://bucket.s3.amazonaws.com/'', grant_method = operation, grant_expires_at = 5, grant_headers = [] \<rparr>)"
    by (intro exI [of _ "Suc n"] exI [of _ ?v] exI [of _ ?item]) simp
qed

theorem batches_save_calls_witness:
  "let rm = new_remote sample_client broker_sid (0 :: nat) (5 - seconds 60); ds = map dec [0..<300] in
   \<exists>rm2. presign_each counting_aws broker_sid GET ds (fst (prefetch_chunks broker_sid ds GET rm)) =
       (rm2, Inr (map (\<lambda>d. \<lparr> grant_url = ''https://bucket.s3.amazonaws.com/'', grant_method = GET, grant_expires_at = 5, grant_headers = [] \<rparr>) ds)) \<and>
     rm_world rm2 = 3"
proof -
  let ?rm = "new_remote sample_client broker_sid (0 :: nat) (5 - seconds 60)"
  let ?ds = "map dec [0..<300]"
  let ?grant = "\<lambda>d. \<lparr> grant_url = ''https://bucket.s3.amazonaws.com/'', grant_method = GET, grant_expires_at = 5, grant_headers = [] \<rparr> :: presigned"
  have pre: "prefetch_chunks broker_sid ?ds GET ?rm = (fst (prefetch_chunks broker_sid ?ds GET ?rm), Inr ())"
    by (simp add: prefetch_chunks_def own_sandbox_def new_remote_def)
  have "inj dec" by (metis injI int_eq_iff nat_int option.inject read_digits_dec)
  then have "distinct ?ds" by (auto simp: distinct_map intro: inj_on_subset)
  from batches_save_calls [OF pre _ this, of counting_aws id ?grant] counting_service [of sample_client GET] show ?thesis
    by (simp add: new_remote_def wanted_chunks_def GRANT_MARGIN_def)
qed

end
