(* ===== verification/Auth.thy ===== *)
theory Auth
  imports ToolToken
begin

text \<open>
  \<open>auth/lambda_handler.py\<close>: the only path to registration and sign-in.  The user pool (Cognito) is
  a record of the calls the code makes over a world they may change; a call answers or raises, a
  \<open>ClientError\<close> with the code of its response.  Logging is left out.
\<close>

subsection \<open>Errors and the user pool\<close>

datatype auth_error = AuthRequestError nat string string | AuthCrash crash

datatype pool_error = PoolError "string option" | PoolCrash crash

type_synonym ('w, 'a) pool_call = "'w \<Rightarrow> 'w \<times> (pool_error, 'a) result"

record 'w cognito =
  admin_create_user :: "string \<Rightarrow> ('w, unit) pool_call"
  admin_delete_user :: "string \<Rightarrow> ('w, unit) pool_call"
  admin_get_user :: "string \<Rightarrow> ('w, (string \<times> string) list) pool_call"
  admin_set_user_password :: "string \<Rightarrow> string \<Rightarrow> ('w, unit) pool_call"
  sign_in_with_password :: "string \<Rightarrow> string \<Rightarrow> ('w, (string \<times> json) list) pool_call"
  sign_in_with_refresh :: "string \<Rightarrow> ('w, (string \<times> json) list) pool_call"
  send_verification_code :: "string \<Rightarrow> ('w, unit) pool_call"
  verify_user_attribute :: "string \<Rightarrow> string \<Rightarrow> ('w, unit) pool_call"
  pool_forgot_password :: "string \<Rightarrow> ('w, unit) pool_call"
  confirm_forgot_password :: "string \<Rightarrow> string \<Rightarrow> string \<Rightarrow> ('w, unit) pool_call"

text \<open>\<open>except ClientError\<close>: what the clause makes of the code; every other exception passes.\<close>

definition rescued :: "('w \<times> (pool_error, 'a) result) \<Rightarrow> (string option \<Rightarrow> auth_error) \<Rightarrow> 'w \<times> (auth_error, 'a) result" where
  "rescued r f = map_prod id (map_sum (case_pool_error f AuthCrash) id) r"

text \<open>A call outside a \<open>try\<close>.\<close>

definition bare :: "('w \<times> (pool_error, 'a) result) \<Rightarrow> 'w \<times> (auth_error, 'a) result" where
  "bare r = rescued r (\<lambda>code. AuthCrash (ClientCrash (case code of None \<Rightarrow> [] | Some c \<Rightarrow> c)))"

definition and_next :: "'w \<times> ('e, 'a) result \<Rightarrow> ('w \<Rightarrow> 'a \<Rightarrow> 'w \<times> ('e, 'b) result) \<Rightarrow> 'w \<times> ('e, 'b) result" where
  "and_next r f = (case r of (w, Inl e) \<Rightarrow> (w, Inl e) | (w, Inr x) \<Rightarrow> f w x)"

lemma and_next_simps [simp]: "and_next (w, Inl e) f = (w, Inl e)" "and_next (w, Inr x) f = f w x"
  by (simp_all add: and_next_def)

lemma and_next_elim:
  assumes "and_next r f = (w', y)"
  obtains (raised) e where "r = (w', Inl e)" "y = Inl e"
  | (next_step) w x where "r = (w, Inr x)" "f w x = (w', y)"
  using assms by (cases r; cases "snd r") auto

lemma rescued_simps [simp]:
  "rescued (w, Inr x) f = (w, Inr x)" "rescued (w, Inl (PoolError code)) f = (w, Inl (f code))"
  "rescued (w, Inl (PoolCrash c)) f = (w, Inl (AuthCrash c))"
  by (simp_all add: rescued_def)

subsection \<open>The email policy\<close>

record email_policy =
  allowed_domains :: "string list"
  allowed_patterns :: "(string \<Rightarrow> bool) list"

definition new_policy :: "string list \<Rightarrow> (string \<Rightarrow> bool) list \<Rightarrow> (auth_error, email_policy) result" where
  "new_policy domains patterns =
     (if domains = [] \<or> [] \<in> set domains
      then Inl (AuthCrash (ValueCrash ''At least one allowed email domain is required.''))
      else Inr \<lparr> allowed_domains = domains, allowed_patterns = patterns \<rparr>)"

text \<open>
  \<open>str.casefold\<close> below code point 256, where it is \<open>lower\<close> except for the sharp s (and the micro
  sign, which leaves the range; addresses that hold it are outside the model).
\<close>

definition casefold :: "string \<Rightarrow> string" where
  "casefold s = concat (map (\<lambda>c. if (of_char c :: nat) = 223 then ''ss'' else [lower_char c]) s)"

text \<open>\<open>from_environment\<close>; the regular expressions of the deployment are compiled by a parameter.\<close>

definition policy_from_environment ::
  "(string \<Rightarrow> (crash, string \<Rightarrow> bool) result) \<Rightarrow> string \<Rightarrow> string \<Rightarrow> (auth_error, email_policy) result" where
  "policy_from_environment compile domains patterns =
     (let parsed = map (\<lambda>d. casefold (str_strip d)) (filter (\<lambda>d. str_strip d \<noteq> []) (split_on (CHR '','') domains)) in
      case json_loads patterns of
        None \<Rightarrow> Inl (AuthCrash (ValueCrash ''invalid JSON''))
      | Some (JList raw) \<Rightarrow>
          if \<not> list_all (\<lambda>i. as_str i \<noteq> None) raw
          then Inl (AuthCrash (ValueCrash ''ALLOWED_EMAIL_PATTERNS must be a JSON list of strings.''))
          else
            (case those (map (\<lambda>p. case compile p of Inl _ \<Rightarrow> None | Inr m \<Rightarrow> Some m)
                (filter (\<lambda>p. str_strip p \<noteq> []) (List.map_filter as_str raw))) of
               None \<Rightarrow> Inl (AuthCrash (ValueCrash ''re.error''))
             | Some compiled \<Rightarrow> new_policy parsed compiled)
      | Some _ \<Rightarrow> Inl (AuthCrash (ValueCrash ''ALLOWED_EMAIL_PATTERNS must be a JSON list of strings.'')))"

text \<open>
  \<open>_EMAIL_PATTERN\<close>: the local part and the domain hold no further \<open>@\<close>, so the first one divides
  them; the top-level domain holds no dot, so the last dot divides the domain.
\<close>

definition domain_char :: "char \<Rightarrow> bool" where
  "domain_char c = (let n = (of_char c :: nat) in
     (48 \<le> n \<and> n \<le> 57) \<or> (65 \<le> n \<and> n \<le> 90) \<or> (97 \<le> n \<and> n \<le> 122) \<or> c = CHR ''.'' \<or> c = CHR ''-'')"

definition letter_char :: "char \<Rightarrow> bool" where
  "letter_char c = (let n = (of_char c :: nat) in (65 \<le> n \<and> n \<le> 90) \<or> (97 \<le> n \<and> n \<le> 122))"

definition email_domain :: "string \<Rightarrow> string option" where
  "email_domain s =
     (let local_part = takeWhile (\<lambda>c. c \<noteq> CHR ''@'') s; domain = drop 1 (dropWhile (\<lambda>c. c \<noteq> CHR ''@'') s);
          top = rev (takeWhile (\<lambda>c. c \<noteq> CHR ''.'') (rev domain)) in
      if CHR ''@'' \<in> set s \<and> local_part \<noteq> [] \<and> \<not> list_ex is_white local_part \<and> list_all domain_char domain \<and>
         CHR ''.'' \<in> set domain \<and> 2 \<le> length top \<and> list_all letter_char top \<and> length top + 1 < length domain
      then Some domain else None)"

definition invalid_email :: auth_error where
  "invalid_email = AuthRequestError 400 ''INVALID_EMAIL'' ''A valid email address is required.''"

definition domain_not_allowed :: "email_policy \<Rightarrow> auth_error" where
  "domain_not_allowed p = AuthRequestError 422 ''DOMAIN_NOT_ALLOWED''
     (''Registration and sign-in are limited to: '' @
      concat (map (\<lambda>(i, d). (if i = 0 then [] else '', '') @ d) (enumerate 0 (allowed_domains p))) @ ''.'')"

definition validate_email :: "email_policy \<Rightarrow> json \<Rightarrow> (auth_error, string) result" where
  "validate_email p email =
     (case email of
        JStr text \<Rightarrow>
          if 254 < length text then Inl invalid_email
          else
            let candidate = casefold (str_strip text) in
            (case email_domain candidate of
               None \<Rightarrow> Inl invalid_email
             | Some domain \<Rightarrow>
                 if domain \<in> set (allowed_domains p) \<or> list_ex (\<lambda>m. m candidate) (allowed_patterns p) then Inr candidate
                 else Inl (domain_not_allowed p))
      | _ \<Rightarrow> Inl invalid_email)"

subsection \<open>Passwords, codes and tokens\<close>

definition strength_requirement :: string where
  "strength_requirement = ''Passwords need at least 12 characters, including an uppercase letter, a lowercase letter and a number.''"

definition check_password :: "json \<Rightarrow> (auth_error, string) result" where
  "check_password v =
     (case v of
        JStr s \<Rightarrow> if 8 \<le> length s \<and> length s \<le> 256 then Inr s
          else Inl (AuthRequestError 400 ''INVALID_PASSWORD'' ''A password of 8-256 characters is required.'')
      | _ \<Rightarrow> Inl (AuthRequestError 400 ''INVALID_PASSWORD'' ''A password of 8-256 characters is required.''))"

definition invalid_code :: auth_error where
  "invalid_code = AuthRequestError 400 ''INVALID_CODE'' ''The code is incorrect or has expired.''"

definition check_code :: "json \<Rightarrow> (auth_error, string) result" where
  "check_code v =
     (case v of
        JStr s \<Rightarrow> if str_strip s \<noteq> [] \<and> length (str_strip s) \<le> 64 then Inr (str_strip s) else Inl invalid_code
      | _ \<Rightarrow> Inl invalid_code)"

record token_set =
  access_token :: string
  id_token :: string
  refresh_token :: "string option"
  expires_in :: int

definition token_payload :: "token_set \<Rightarrow> (string \<times> json) list" where
  "token_payload t =
     [(''accessToken'', JStr (access_token t)), (''expiresIn'', JInt (expires_in t)), (''idToken'', JStr (id_token t)),
      (''tokenType'', JStr ''Bearer'')] @
     (case refresh_token t of None \<Rightarrow> [] | Some r \<Rightarrow> [(''refreshToken'', JStr r)])"

definition sign_in_unavailable :: auth_error where
  "sign_in_unavailable = AuthRequestError 502 ''SIGN_IN_UNAVAILABLE'' ''Sign-in is unavailable.''"

text \<open>\<open>_tokens\<close>: a challenge name is a text, and counts when it is not empty.\<close>

definition read_tokens :: "bool \<Rightarrow> (string \<times> json) list \<Rightarrow> (auth_error, token_set) result" where
  "read_tokens refresh_required response =
     (if get_key response ''ChallengeName'' \<notin> {JNull, JStr []}
      then Inl (AuthRequestError 501 ''CHALLENGE_NOT_SUPPORTED''
        ''This account requires an interactive challenge that is not supported.'')
      else case get_key response ''AuthenticationResult'' of
          JObj v \<Rightarrow>
            (case (get_key v ''AccessToken'', get_key v ''IdToken'', get_key v ''ExpiresIn'') of
               (JStr access, JStr ident, JInt expires) \<Rightarrow>
                 (case get_key v ''RefreshToken'' of
                    JStr refresh \<Rightarrow>
                      if 0 < expires
                      then Inr \<lparr> access_token = access, id_token = ident, refresh_token = Some refresh, expires_in = expires \<rparr>
                      else Inl sign_in_unavailable
                  | JNull \<Rightarrow>
                      if 0 < expires \<and> \<not> refresh_required
                      then Inr \<lparr> access_token = access, id_token = ident, refresh_token = None, expires_in = expires \<rparr>
                      else Inl sign_in_unavailable
                  | _ \<Rightarrow> Inl sign_in_unavailable)
             | _ \<Rightarrow> Inl sign_in_unavailable)
        | _ \<Rightarrow> Inl sign_in_unavailable)"

subsection \<open>The answers to the pool's errors\<close>

definition reset_failed :: "string option \<Rightarrow> auth_error" where
  "reset_failed code =
     (if code \<in> {Some ''LimitExceededException'', Some ''TooManyRequestsException'', Some ''TooManyFailedAttemptsException''}
      then AuthRequestError 429 ''TOO_MANY_ATTEMPTS'' ''Too many attempts. Try again later.''
      else AuthRequestError 502 ''RESET_UNAVAILABLE'' ''Password reset is unavailable.'')"

definition invalid_password :: "string option \<Rightarrow> auth_error" where
  "invalid_password code =
     (if code = Some ''InvalidPasswordException'' then AuthRequestError 400 ''INVALID_PASSWORD'' strength_requirement
      else AuthRequestError 502 ''REGISTRATION_FAILED'' ''Registration is unavailable.'')"

definition sign_in_failed :: "string option \<Rightarrow> auth_error" where
  "sign_in_failed code =
     (if code \<in> {Some ''NotAuthorizedException'', Some ''UserNotFoundException''}
      then AuthRequestError 401 ''SIGN_IN_FAILED'' ''Incorrect email or password.''
      else if code = Some ''PasswordResetRequiredException''
      then AuthRequestError 409 ''PASSWORD_RESET_REQUIRED'' ''An administrator reset this password.''
      else sign_in_unavailable)"

subsection \<open>The service\<close>

record 'w auth_service =
  as_cognito :: "'w cognito"
  as_policy :: email_policy

definition new_service :: "'w cognito \<Rightarrow> string \<Rightarrow> string \<Rightarrow> email_policy \<Rightarrow> (auth_error, 'w auth_service) result" where
  "new_service c pool_id client_id p =
     (if pool_id = [] \<or> client_id = []
      then Inl (AuthCrash (ValueCrash ''User pool and app client identifiers are required.''))
      else Inr \<lparr> as_cognito = c, as_policy = p \<rparr>)"

definition is_verified :: "'w auth_service \<Rightarrow> string \<Rightarrow> 'w \<Rightarrow> 'w \<times> (auth_error, bool) result" where
  "is_verified a address w =
     and_next (rescued (admin_get_user (as_cognito a) address w) reset_failed)
       (\<lambda>w attributes. (w, Inr ((''email_verified'', ''true'') \<in> set attributes)))"

definition authenticate :: "'w auth_service \<Rightarrow> string \<Rightarrow> string \<Rightarrow> 'w \<Rightarrow> 'w \<times> (auth_error, (string \<times> json) list) result" where
  "authenticate a address secret w = rescued (sign_in_with_password (as_cognito a) address secret w) sign_in_failed"

definition send_confirmation_code :: "'w auth_service \<Rightarrow> string \<Rightarrow> string \<Rightarrow> 'w \<Rightarrow> 'w \<times> (auth_error, unit) result" where
  "send_confirmation_code a address secret w =
     and_next (authenticate a address secret w) (\<lambda>w response.
     trying w (read_tokens True response) (\<lambda>tokens.
       rescued (send_verification_code (as_cognito a) (access_token tokens) w) reset_failed))"

text \<open>\<open>register\<close>: an unverified account on the address yields, a half-created one is removed.\<close>

definition make_account :: "'w auth_service \<Rightarrow> string \<Rightarrow> 'w \<Rightarrow> 'w \<times> (auth_error, unit) result" where
  "make_account a address w =
     (case admin_create_user (as_cognito a) address w of
        (w, Inl (PoolError code)) \<Rightarrow>
          if code \<noteq> Some ''UsernameExistsException'' then (w, Inl (invalid_password code))
          else and_next (is_verified a address w) (\<lambda>w verified.
            if verified
            then (w, Inl (AuthRequestError 409 ''USER_EXISTS'' ''An account with this email already exists.''))
            else and_next (bare (admin_delete_user (as_cognito a) address w)) (\<lambda>w _.
              rescued (admin_create_user (as_cognito a) address w) invalid_password))
      | (w, Inl (PoolCrash c)) \<Rightarrow> (w, Inl (AuthCrash c))
      | (w, Inr u) \<Rightarrow> (w, Inr u))"

definition set_password_or_undo :: "'w auth_service \<Rightarrow> string \<Rightarrow> string \<Rightarrow> 'w \<Rightarrow> 'w \<times> (auth_error, unit) result" where
  "set_password_or_undo a address secret w =
     (case admin_set_user_password (as_cognito a) address secret w of
        (w, Inl (PoolError code)) \<Rightarrow>
          and_next (bare (admin_delete_user (as_cognito a) address w)) (\<lambda>w _. (w, Inl (invalid_password code)))
      | (w, Inl (PoolCrash c)) \<Rightarrow> (w, Inl (AuthCrash c))
      | (w, Inr u) \<Rightarrow> (w, Inr u))"

definition register :: "'w auth_service \<Rightarrow> json \<Rightarrow> json \<Rightarrow> 'w \<Rightarrow> 'w \<times> (auth_error, unit) result" where
  "register a email password w =
     trying w (validate_email (as_policy a) email) (\<lambda>address.
     trying w (check_password password) (\<lambda>secret.
     and_next (make_account a address w) (\<lambda>w _.
     and_next (set_password_or_undo a address secret w) (\<lambda>w _.
       send_confirmation_code a address secret w))))"

definition confirm_failed :: "string option \<Rightarrow> auth_error" where
  "confirm_failed code =
     (if code \<in> {Some ''CodeMismatchException'', Some ''ExpiredCodeException''} then invalid_code else reset_failed code)"

definition confirm :: "'w auth_service \<Rightarrow> json \<Rightarrow> json \<Rightarrow> json \<Rightarrow> 'w \<Rightarrow> 'w \<times> (auth_error, token_set) result" where
  "confirm a email password code w =
     trying w (validate_email (as_policy a) email) (\<lambda>address.
     trying w (check_password password) (\<lambda>secret.
     trying w (check_code code) (\<lambda>digits.
     and_next (authenticate a address secret w) (\<lambda>w response.
     trying w (read_tokens True response) (\<lambda>tokens.
     and_next (rescued (verify_user_attribute (as_cognito a) (access_token tokens) digits w) confirm_failed)
       (\<lambda>w _. (w, Inr tokens)))))))"

definition resend :: "'w auth_service \<Rightarrow> json \<Rightarrow> json \<Rightarrow> 'w \<Rightarrow> 'w \<times> (auth_error, unit) result" where
  "resend a email password w =
     trying w (validate_email (as_policy a) email) (\<lambda>address.
     trying w (check_password password) (\<lambda>secret. send_confirmation_code a address secret w))"

definition login :: "'w auth_service \<Rightarrow> json \<Rightarrow> json \<Rightarrow> 'w \<Rightarrow> 'w \<times> (auth_error, token_set) result" where
  "login a email password w =
     trying w (validate_email (as_policy a) email) (\<lambda>address.
     trying w (check_password password) (\<lambda>secret.
     and_next (authenticate a address secret w) (\<lambda>w response.
     trying w (read_tokens True response) (\<lambda>tokens.
     and_next (is_verified a address w) (\<lambda>w verified.
       (w, if verified then Inr tokens
           else Inl (AuthRequestError 409 ''EMAIL_NOT_VERIFIED'' ''Confirm your email address first.'')))))))"

definition refresh :: "'w auth_service \<Rightarrow> json \<Rightarrow> 'w \<Rightarrow> 'w \<times> (auth_error, token_set) result" where
  "refresh a token w =
     (case token of
        JStr t \<Rightarrow>
          if t = [] then (w, Inl (AuthRequestError 400 ''INVALID_REQUEST'' ''A refresh token is required.''))
          else and_next (rescued (sign_in_with_refresh (as_cognito a) t w) sign_in_failed)
            (\<lambda>w response. (w, read_tokens False response))
      | _ \<Rightarrow> (w, Inl (AuthRequestError 400 ''INVALID_REQUEST'' ''A refresh token is required.'')))"

definition forgot_password :: "'w auth_service \<Rightarrow> json \<Rightarrow> 'w \<Rightarrow> 'w \<times> (auth_error, unit) result" where
  "forgot_password a email w =
     trying w (validate_email (as_policy a) email) (\<lambda>address.
       (case pool_forgot_password (as_cognito a) address w of
          (w, Inl (PoolError code)) \<Rightarrow>
            if code \<in> {Some ''UserNotFoundException'', Some ''NotAuthorizedException''} then (w, Inr ())
            else (w, Inl (reset_failed code))
        | (w, Inl (PoolCrash c)) \<Rightarrow> (w, Inl (AuthCrash c))
        | (w, Inr u) \<Rightarrow> (w, Inr u)))"

definition reset_answer :: "string option \<Rightarrow> auth_error" where
  "reset_answer code =
     (if code \<in> {Some ''CodeMismatchException'', Some ''ExpiredCodeException'', Some ''UserNotFoundException''} then invalid_code
      else if code = Some ''InvalidPasswordException'' then AuthRequestError 400 ''INVALID_PASSWORD'' strength_requirement
      else reset_failed code)"

definition reset_password :: "'w auth_service \<Rightarrow> json \<Rightarrow> json \<Rightarrow> json \<Rightarrow> 'w \<Rightarrow> 'w \<times> (auth_error, unit) result" where
  "reset_password a email code password w =
     trying w (validate_email (as_policy a) email) (\<lambda>address.
     trying w (check_password password) (\<lambda>secret.
     trying w (check_code code) (\<lambda>digits.
       rescued (confirm_forgot_password (as_cognito a) address digits secret w) reset_answer)))"

subsection \<open>The handler\<close>

record auth_response =
  status_code :: nat
  response_body :: string

definition auth_response_of :: "nat \<Rightarrow> (string \<times> json) list \<Rightarrow> auth_response" where
  "auth_response_of status body = \<lparr> status_code = status, response_body = json_dumps (JObj body) \<rparr>"

definition body_required :: auth_error where
  "body_required = AuthRequestError 400 ''INVALID_REQUEST'' ''A JSON request body is required.''"

definition request_body :: "(string \<times> json) list \<Rightarrow> (auth_error, (string \<times> json) list) result" where
  "request_body event =
     (case get_key event ''body'' of
        JStr raw \<Rightarrow>
          if 4096 < length (utf8_encode raw) then Inl body_required
          else (case json_loads raw of Some (JObj v) \<Rightarrow> Inr v | _ \<Rightarrow> Inl body_required)
      | _ \<Rightarrow> Inl body_required)"

definition answering :: "('a \<Rightarrow> auth_response) \<Rightarrow> 'w \<times> (auth_error, 'a) result \<Rightarrow> 'w \<times> (auth_error, auth_response) result" where
  "answering f r = map_prod id (map_sum id f) r"

definition routed :: "'w auth_service \<Rightarrow> string \<Rightarrow> (string \<times> json) list \<Rightarrow> 'w \<Rightarrow> 'w \<times> (auth_error, auth_response) result" where
  "routed a route body w =
     (let email = get_key body ''email''; password = get_key body ''password''; code = get_key body ''code'' in
      if route = ''POST /auth/v1/register''
      then answering (\<lambda>_. auth_response_of 201 [(''confirmationRequired'', JBool True), (''registered'', JBool True)])
        (register a email password w)
      else if route = ''POST /auth/v1/confirm''
      then answering (\<lambda>t. auth_response_of 200 (token_payload t)) (confirm a email password code w)
      else if route = ''POST /auth/v1/resend''
      then answering (\<lambda>_. auth_response_of 200 [(''sent'', JBool True)]) (resend a email password w)
      else if route = ''POST /auth/v1/login''
      then answering (\<lambda>t. auth_response_of 200 (token_payload t)) (login a email password w)
      else if route = ''POST /auth/v1/refresh''
      then answering (\<lambda>t. auth_response_of 200 (token_payload t)) (refresh a (get_key body ''refreshToken'') w)
      else if route = ''POST /auth/v1/forgot''
      then answering (\<lambda>_. auth_response_of 200 [(''sent'', JBool True)]) (forgot_password a email w)
      else if route = ''POST /auth/v1/reset''
      then answering (\<lambda>_. auth_response_of 200 [(''reset'', JBool True)]) (reset_password a email code password w)
      else (w, Inr (auth_response_of 404 [(''code'', JStr ''NOT_FOUND''), (''message'', JStr ''Unknown route.'')])))"

definition auth_handler :: "'w auth_service \<Rightarrow> (string \<times> json) list \<Rightarrow> 'w \<Rightarrow> 'w \<times> (crash, auth_response) result" where
  "auth_handler a event w =
     (case trying w (request_body event) (\<lambda>body.
        routed a (case get_key event ''routeKey'' of JStr r \<Rightarrow> r | _ \<Rightarrow> []) body w) of
        (w, Inr r) \<Rightarrow> (w, Inr r)
      | (w, Inl (AuthRequestError status code message)) \<Rightarrow>
          (w, Inr (auth_response_of status [(''code'', JStr code), (''message'', JStr message)]))
      | (w, Inl (AuthCrash c)) \<Rightarrow> (w, Inl c))"

end
