(* ===== verification/AuthProperties.thy ===== *)
theory AuthProperties
  imports Auth
begin

text \<open>
  Sign-in and registration: which addresses reach the pool, what an answer tells about an account,
  and what becomes of the accounts, under the pool's documented behaviour.
\<close>

subsection \<open>The allowlist\<close>

definition admitted :: "email_policy \<Rightarrow> string \<Rightarrow> bool" where
  "admitted p address = (case email_domain address of
     None \<Rightarrow> False | Some d \<Rightarrow> d \<in> set (allowed_domains p) \<or> list_ex (\<lambda>m. m address) (allowed_patterns p))"

text \<open>The pool that breaks as soon as it is asked about an address outside the policy.\<close>

definition off_limits :: "'w \<Rightarrow> 'w \<times> (pool_error, 'a) result" where
  "off_limits w = (w, Inl (PoolCrash (ValueCrash ''address outside the policy'')))"

definition guarded_pool :: "email_policy \<Rightarrow> 'w cognito \<Rightarrow> 'w cognito" where
  "guarded_pool p c = c \<lparr>
     admin_create_user := (\<lambda>x. if admitted p x then admin_create_user c x else off_limits),
     admin_delete_user := (\<lambda>x. if admitted p x then admin_delete_user c x else off_limits),
     admin_get_user := (\<lambda>x. if admitted p x then admin_get_user c x else off_limits),
     admin_set_user_password := (\<lambda>x s. if admitted p x then admin_set_user_password c x s else off_limits),
     sign_in_with_password := (\<lambda>x s. if admitted p x then sign_in_with_password c x s else off_limits),
     pool_forgot_password := (\<lambda>x. if admitted p x then pool_forgot_password c x else off_limits),
     confirm_forgot_password := (\<lambda>x d s. if admitted p x then confirm_forgot_password c x d s else off_limits) \<rparr>"

definition guarded_service :: "'w auth_service \<Rightarrow> 'w auth_service" where
  "guarded_service a = a \<lparr> as_cognito := guarded_pool (as_policy a) (as_cognito a) \<rparr>"

lemma validated_admitted: "validate_email p email = Inr x \<Longrightarrow> admitted p x"
  by (auto simp: validate_email_def admitted_def Let_def split: json.splits option.splits if_splits)

lemma guarded_calls [simp]:
  assumes "admitted (as_policy a) x"
  shows "admin_create_user (as_cognito (guarded_service a)) x = admin_create_user (as_cognito a) x"
    and "admin_delete_user (as_cognito (guarded_service a)) x = admin_delete_user (as_cognito a) x"
    and "admin_get_user (as_cognito (guarded_service a)) x = admin_get_user (as_cognito a) x"
    and "admin_set_user_password (as_cognito (guarded_service a)) x = admin_set_user_password (as_cognito a) x"
    and "sign_in_with_password (as_cognito (guarded_service a)) x = sign_in_with_password (as_cognito a) x"
    and "pool_forgot_password (as_cognito (guarded_service a)) x = pool_forgot_password (as_cognito a) x"
    and "confirm_forgot_password (as_cognito (guarded_service a)) x = confirm_forgot_password (as_cognito a) x"
  using assms by (simp_all add: guarded_service_def guarded_pool_def)

lemma guarded_rest [simp]:
  "as_policy (guarded_service a) = as_policy a"
  "sign_in_with_refresh (as_cognito (guarded_service a)) = sign_in_with_refresh (as_cognito a)"
  "send_verification_code (as_cognito (guarded_service a)) = send_verification_code (as_cognito a)"
  "verify_user_attribute (as_cognito (guarded_service a)) = verify_user_attribute (as_cognito a)"
  by (simp_all add: guarded_service_def guarded_pool_def)

lemma guarded_helpers [simp]:
  assumes "admitted (as_policy a) x"
  shows "is_verified (guarded_service a) x = is_verified a x"
    and "authenticate (guarded_service a) x = authenticate a x"
    and "send_confirmation_code (guarded_service a) x = send_confirmation_code a x"
    and "set_password_or_undo (guarded_service a) x = set_password_or_undo a x"
    and "make_account (guarded_service a) x = make_account a x"
proof -
  show v: "is_verified (guarded_service a) x = is_verified a x"
    using assms by (intro ext) (simp add: is_verified_def)
  show s: "authenticate (guarded_service a) x = authenticate a x"
    using assms by (intro ext) (simp add: authenticate_def)
  show "send_confirmation_code (guarded_service a) x = send_confirmation_code a x"
    by (intro ext) (simp add: send_confirmation_code_def s)
  show "set_password_or_undo (guarded_service a) x = set_password_or_undo a x"
    unfolding set_password_or_undo_def guarded_calls [OF assms] ..
  show "make_account (guarded_service a) x = make_account a x"
    unfolding make_account_def v guarded_calls [OF assms] ..
qed

lemma trying_validated:
  assumes "\<And>x. admitted p x \<Longrightarrow> f x = g x"
  shows "trying w (validate_email p email) f = trying w (validate_email p email) g"
  using assms validated_admitted [of p email] by (cases "validate_email p email") auto

lemma guarded_operations [simp]:
  "register (guarded_service a) email password w = register a email password w"
  "confirm (guarded_service a) email password code w = confirm a email password code w"
  "resend (guarded_service a) email password w = resend a email password w"
  "login (guarded_service a) email password w = login a email password w"
  "refresh (guarded_service a) token w = refresh a token w"
  "forgot_password (guarded_service a) email w = forgot_password a email w"
  "reset_password (guarded_service a) email code password w = reset_password a email code password w"
proof -
  show "refresh (guarded_service a) token w = refresh a token w"
    by (simp add: refresh_def split: json.split)
  show "register (guarded_service a) email password w = register a email password w"
    "confirm (guarded_service a) email password code w = confirm a email password code w"
    "resend (guarded_service a) email password w = resend a email password w"
    "login (guarded_service a) email password w = login a email password w"
    "forgot_password (guarded_service a) email w = forgot_password a email w"
    "reset_password (guarded_service a) email code password w = reset_password a email code password w"
    unfolding register_def confirm_def resend_def login_def forgot_password_def reset_password_def
    unfolding guarded_rest by (rule trying_validated; simp only: guarded_helpers guarded_calls guarded_rest)+
qed

text \<open>
  (C20) On every route, the pool is never asked about an address outside the deployment's allowed
  domains and patterns: the handler answers alike over a pool that breaks on every such address.
\<close>

theorem only_admitted_addresses:
  "auth_handler (guarded_service a) event w = auth_handler a event w"
  unfolding auth_handler_def routed_def Let_def guarded_operations by (rule refl)

subsection \<open>What an answer tells of an account\<close>


subsection \<open>The accounts\<close>

text \<open>
  What the pool's documentation promises of the calls, over the accounts a world holds and whether
  their address is verified.
\<close>

definition pool_documented :: "('w \<Rightarrow> string \<Rightarrow> bool option) \<Rightarrow> 'w cognito \<Rightarrow> bool" where
  "pool_documented acc c \<longleftrightarrow>
     (\<forall>w x w' u. admin_create_user c x w = (w', Inr u) \<longrightarrow> acc w x = None \<and> acc w' = (acc w)(x := Some False)) \<and>
     (\<forall>w x w' e. admin_create_user c x w = (w', Inl e) \<longrightarrow> acc w' = acc w) \<and>
     (\<forall>w x w' u. admin_delete_user c x w = (w', Inr u) \<longrightarrow> acc w' = (acc w)(x := None)) \<and>
     (\<forall>w x w' e. admin_delete_user c x w = (w', Inl e) \<longrightarrow> acc w' = acc w) \<and>
     (\<forall>w x w' attributes. admin_get_user c x w = (w', Inr attributes) \<longrightarrow>
        acc w x = Some ((''email_verified'', ''true'') \<in> set attributes)) \<and>
     (\<forall>w x. acc (fst (admin_get_user c x w)) = acc w) \<and>
     (\<forall>w x s. acc (fst (admin_set_user_password c x s w)) = acc w) \<and>
     (\<forall>w x s. acc (fst (sign_in_with_password c x s w)) = acc w) \<and>
     (\<forall>w t. acc (fst (send_verification_code c t w)) = acc w)"

lemma documentedD:
  assumes "pool_documented acc c"
  shows "admin_create_user c x w = (w', Inr u) \<Longrightarrow> acc w x = None \<and> acc w' = (acc w)(x := Some False)"
    and "admin_create_user c x w = (w', Inl e) \<Longrightarrow> acc w' = acc w"
    and "admin_delete_user c x w = (w', Inr u) \<Longrightarrow> acc w' = (acc w)(x := None)"
    and "admin_delete_user c x w = (w', Inl e) \<Longrightarrow> acc w' = acc w"
    and "admin_get_user c x w = (w', Inr attributes) \<Longrightarrow> acc w x = Some ((''email_verified'', ''true'') \<in> set attributes)"
    and "admin_get_user c x w = (w', g) \<Longrightarrow> acc w' = acc w"
    and "admin_set_user_password c x s w = (w', r) \<Longrightarrow> acc w' = acc w"
    and "sign_in_with_password c x s w = (w', q) \<Longrightarrow> acc w' = acc w"
    and "send_verification_code c t w = (w', r) \<Longrightarrow> acc w' = acc w"
proof -
  note laws = assms [unfolded pool_documented_def]
  show "admin_create_user c x w = (w', Inr u) \<Longrightarrow> acc w x = None \<and> acc w' = (acc w)(x := Some False)"
    by (rule laws [THEN conjunct1, rule_format])
  show "admin_create_user c x w = (w', Inl e) \<Longrightarrow> acc w' = acc w"
    by (rule laws [THEN conjunct2, THEN conjunct1, rule_format])
  show "admin_delete_user c x w = (w', Inr u) \<Longrightarrow> acc w' = (acc w)(x := None)"
    by (rule laws [THEN conjunct2, THEN conjunct2, THEN conjunct1, rule_format])
  show "admin_delete_user c x w = (w', Inl e) \<Longrightarrow> acc w' = acc w"
    by (rule laws [THEN conjunct2, THEN conjunct2, THEN conjunct2, THEN conjunct1, rule_format])
  show "admin_get_user c x w = (w', Inr attributes) \<Longrightarrow> acc w x = Some ((''email_verified'', ''true'') \<in> set attributes)"
    by (rule laws [THEN conjunct2, THEN conjunct2, THEN conjunct2, THEN conjunct2, THEN conjunct1, rule_format])
  show "admin_get_user c x w = (w', g) \<Longrightarrow> acc w' = acc w"
    by (drule arg_cong [where f = fst]) (use laws [THEN conjunct2, THEN conjunct2, THEN conjunct2, THEN conjunct2, THEN conjunct2, THEN conjunct1, rule_format] in auto)
  show "admin_set_user_password c x s w = (w', r) \<Longrightarrow> acc w' = acc w"
    by (drule arg_cong [where f = fst]) (use laws [THEN conjunct2, THEN conjunct2, THEN conjunct2, THEN conjunct2, THEN conjunct2, THEN conjunct2, THEN conjunct1, rule_format] in auto)
  show "sign_in_with_password c x s w = (w', q) \<Longrightarrow> acc w' = acc w"
    by (drule arg_cong [where f = fst]) (use laws [THEN conjunct2, THEN conjunct2, THEN conjunct2, THEN conjunct2, THEN conjunct2, THEN conjunct2, THEN conjunct2, THEN conjunct1, rule_format] in auto)
  show "send_verification_code c t w = (w', r) \<Longrightarrow> acc w' = acc w"
    by (drule arg_cong [where f = fst]) (use laws [THEN conjunct2, THEN conjunct2, THEN conjunct2, THEN conjunct2, THEN conjunct2, THEN conjunct2, THEN conjunct2, THEN conjunct2, rule_format] in auto)
qed

lemma rescued_elim:
  assumes "rescued r f = (w', y)"
  obtains (answered) x where "r = (w', Inr x)" "y = Inr x"
  | (refused) code where "r = (w', Inl (PoolError code))" "y = Inl (f code)"
  | (broken) c where "r = (w', Inl (PoolCrash c))" "y = Inl (AuthCrash c)"
  using assms by (cases r; cases "snd r"; cases "projl (snd r)") (auto simp: rescued_def)

lemma verified_reads:
  assumes "pool_documented acc (as_cognito a)" and "is_verified a x w = (w', r)"
  shows "acc w' = acc w" and "r = Inr v \<Longrightarrow> acc w x = Some v"
  using assms(2) documentedD(5,6) [OF assms(1)]
  by (auto simp: is_verified_def elim!: and_next_elim rescued_elim dest: sym)

lemma authenticate_keeps:
  "pool_documented acc (as_cognito a) \<Longrightarrow> authenticate a x s w = (w', r) \<Longrightarrow> acc w' = acc w"
  by (auto simp: authenticate_def elim!: rescued_elim dest: documentedD(8))

lemma sending_keeps:
  assumes "pool_documented acc (as_cognito a)" and "send_confirmation_code a x s w = (w', r)"
  shows "acc w' = acc w"
  using assms(2) unfolding send_confirmation_code_def
  by (auto elim!: and_next_elim trying_elim rescued_elim
      dest!: authenticate_keeps [OF assms(1)] documentedD(9) [OF assms(1)])

text \<open>Making the account takes the address over, stops, or loses an unverified account.\<close>

lemma make_account_elim:
  assumes doc: "pool_documented acc (as_cognito a)" and "make_account a x w = (w', r)"
  obtains (made) "acc w x \<noteq> Some True" "acc w' = (acc w)(x := Some False)" "r = Inr ()"
  | (stopped) e where "acc w' = acc w" "r = Inl e"
  | (lost) e where "acc w x \<noteq> Some True" "acc w' = (acc w)(x := None)" "r = Inl e"
proof -
  note laws = documentedD [OF doc]
  obtain w1 y where create: "admin_create_user (as_cognito a) x w = (w1, y)" by (cases "admin_create_user (as_cognito a) x w")
  show ?thesis
  proof (cases "y = Inl (PoolError (Some ''UsernameExistsException''))")
    case False
    then show ?thesis
      using assms(2) create made stopped laws(1) [of x w] laws(2) [of x w]
      by (auto simp: make_account_def split: sum.splits pool_error.splits if_splits)
  next
    case True
    obtain w2 v where get: "is_verified a x w1 = (w2, v)" by (cases "is_verified a x w1")
    have kept: "acc w2 = acc w" and seen: "\<And>b. v = Inr b \<Longrightarrow> acc w x = Some b"
      using verified_reads [OF doc get] laws(2) create True by auto
    show ?thesis
    proof (cases "v = Inr False")
      case False
      then show ?thesis
        using assms(2) create True get kept stopped
        by (cases v) (auto simp: make_account_def)
    next
      case unverified: True
      obtain w3 d where del: "admin_delete_user (as_cognito a) x w2 = (w3, d)" by (cases "admin_delete_user (as_cognito a) x w2")
      obtain w4 y' where again: "admin_create_user (as_cognito a) x w3 = (w4, y')" by (cases "admin_create_user (as_cognito a) x w3")
      have all: "and_next (bare (w3, d)) (\<lambda>w _. rescued (admin_create_user (as_cognito a) x w) invalid_password) = (w', r)"
        using assms(2) create True get unverified del by (simp add: make_account_def)
      have no: "acc w x \<noteq> Some True" using seen [OF unverified] by simp
      show ?thesis
      proof (cases d)
        case (Inl e)
        have "acc w' = acc w \<and> (\<exists>e. r = Inl e)"
          using all laws(4) [OF del [unfolded Inl]] kept Inl
          by (cases e) (auto simp: bare_def)
        then show ?thesis using stopped by blast
      next
        case (Inr u)
        have gone: "acc w3 = (acc w)(x := None)" using laws(3) [OF del [unfolded Inr]] kept by simp
        have "rescued (w4, y') invalid_password = (w', r)"
          using all again Inr by (simp add: bare_def)
        then show ?thesis
        proof (cases rule: rescued_elim)
          case (answered z)
          then show ?thesis using made laws(1) [of x w3] again gone no by auto
        next
          case (refused code)
          then show ?thesis using lost laws(2) [of x w3] again gone no by auto
        next
          case (broken c)
          then show ?thesis using lost laws(2) [of x w3] again gone no by auto
        qed
      qed
    qed
  qed
qed

lemma undoing:
  assumes doc: "pool_documented acc (as_cognito a)" and "set_password_or_undo a x s w = (w', r)"
  shows "r = Inr () \<and> acc w' = acc w \<or> (\<exists>e. r = Inl e) \<and> acc w' = (acc w)(x := None) \<or> (\<exists>c. r = Inl (AuthCrash c) \<and> acc w' = acc w)"
proof -
  note laws = documentedD [OF doc]
  obtain w1 y where setting: "admin_set_user_password (as_cognito a) x s w = (w1, y)"
    by (cases "admin_set_user_password (as_cognito a) x s w")
  obtain w2 d where del: "admin_delete_user (as_cognito a) x w1 = (w2, d)"
    by (cases "admin_delete_user (as_cognito a) x w1")
  show ?thesis
  proof (cases "\<exists>code. y = Inl (PoolError code)")
    case False
    then show ?thesis
      using assms(2) setting laws(7) [OF setting]
      by (auto simp: set_password_or_undo_def split: sum.splits pool_error.splits)
  next
    case True
    then obtain code where y: "y = Inl (PoolError code)" by blast
    have run: "and_next (bare (w2, d)) (\<lambda>w _. (w, Inl (invalid_password code))) = (w', r)"
      using assms(2) by (simp add: set_password_or_undo_def setting y del)
    show ?thesis
    proof (cases d)
      case (Inl e)
      have "\<exists>c. bare (w2, d) = (w2, Inl (AuthCrash c))"
        unfolding Inl by (cases e) (simp_all add: bare_def)
      then obtain c where "w' = w2" "r = Inl (AuthCrash c)" using run by auto
      then show ?thesis
        using laws(4) [OF del [unfolded Inl]] laws(7) [OF setting] by metis
    next
      case (Inr u)
      then have "w' = w2" "r = Inl (invalid_password code)" using run by (simp_all add: bare_def)
      then show ?thesis
        using laws(3) [OF del [unfolded Inr]] laws(7) [OF setting] by metis
    qed
  qed
qed

lemma read_tokens_answer:
  assumes "read_tokens b response = Inl (AuthRequestError n c m)"
  shows "n \<in> {501, 502}"
proof (cases "get_key response ''ChallengeName'' \<in> {JNull, JStr []}")
  case True
  then have run: "read_tokens b response = (case get_key response ''AuthenticationResult'' of
      JObj v \<Rightarrow> read_tokens b [(''AuthenticationResult'', JObj v)] | _ \<Rightarrow> Inl sign_in_unavailable)"
    by (auto simp: read_tokens_def get_key_def split: json.split)
  have "read_tokens b [(''AuthenticationResult'', JObj v)] = Inl sign_in_unavailable \<or>
      (\<exists>t. read_tokens b [(''AuthenticationResult'', JObj v)] = Inr t)" for v
    by (simp add: read_tokens_def get_key_def split: json.split)
  then have "read_tokens b response = Inl sign_in_unavailable \<or> (\<exists>t. read_tokens b response = Inr t)"
    unfolding run by (simp split: json.split)
  then show ?thesis
    using assms by (auto simp: sign_in_unavailable_def)
qed (use assms in \<open>auto simp: read_tokens_def\<close>)

lemma sending_answer:
  assumes "send_confirmation_code a x s w = (w', Inl (AuthRequestError n c m))"
  shows "n \<noteq> 400"
proof -
  have failed: "f code = AuthRequestError n c m \<Longrightarrow> n \<noteq> 400" if "f \<in> {sign_in_failed, reset_failed}" for f code
    using that by (auto simp: sign_in_failed_def reset_failed_def sign_in_unavailable_def split: if_splits)
  show ?thesis
    using assms failed [of reset_failed] failed [of sign_in_failed] read_tokens_answer
    unfolding send_confirmation_code_def authenticate_def
    by (elim and_next_elim trying_elim rescued_elim) fastforce+
qed

text \<open>
  (C21) Registering changes no account but the address's own, and never a verified one; when it
  succeeds the address has an unverified account, and when the password is refused no half-created
  account is left to block the next try.
\<close>

theorem register_spares_accounts:
  assumes doc: "pool_documented acc (as_cognito a)" and run: "register a email password w = (w', r)"
  shows "(\<forall>y. acc w' y \<noteq> acc w y \<longrightarrow> validate_email (as_policy a) email = Inr y \<and> acc w y \<noteq> Some True) \<and>
    (r = Inr () \<longrightarrow> (\<exists>x. validate_email (as_policy a) email = Inr x \<and> acc w' x = Some False)) \<and>
    (\<forall>m. r = Inl (AuthRequestError 400 ''INVALID_PASSWORD'' m) \<longrightarrow> acc w' = acc w \<or> (\<exists>x. acc w' = (acc w)(x := None)))"
proof (cases "validate_email (as_policy a) email")
  case (Inr x)
  show ?thesis
  proof (cases "check_password password")
    case secret: (Inr s)
    obtain w1 m where made: "make_account a x w = (w1, m)" by (cases "make_account a x w")
    obtain w2 u where set: "set_password_or_undo a x s w1 = (w2, u)" by (cases "set_password_or_undo a x s w1")
    obtain w3 v where sent: "send_confirmation_code a x s w2 = (w3, v)" by (cases "send_confirmation_code a x s w2")
    have run': "and_next (w1, m) (\<lambda>w _. and_next (set_password_or_undo a x s w) (\<lambda>w _. send_confirmation_code a x s w)) = (w', r)"
      using run Inr secret made by (simp add: register_def)
    from doc made show ?thesis
    proof (cases rule: make_account_elim)
      case made_it: made
      have later: "(\<exists>e. u = Inl e) \<and> r = u \<and> w' = w2 \<or> u = Inr () \<and> w' = w3 \<and> r = v"
        using run' made_it(3) set sent by (cases u) auto
      have shape: "\<exists>b. acc w' = (acc w)(x := b)" and ok: "r = Inr () \<longrightarrow> acc w' x = Some False"
        using later undoing [OF doc set] sending_keeps [OF doc sent] made_it(2) by auto
      have "acc w' = (acc w)(x := None)" if "r = Inl (AuthRequestError 400 ''INVALID_PASSWORD'' msg)" for msg
        using later undoing [OF doc set] sending_answer [of a x s w2 w3] sent that made_it(2) by auto
      then show ?thesis
        using shape ok Inr made_it(1) by (auto split: if_splits)
    next
      case (stopped e)
      then show ?thesis using run' by auto
    next
      case (lost e)
      then show ?thesis using run' Inr by auto
    qed
  qed (use run Inr in \<open>auto simp: register_def\<close>)
qed (use run in \<open>auto simp: register_def\<close>)

subsection \<open>Signing in\<close>

text \<open>
  (C22) Signing in hands out tokens only to a verified account on an admitted address, and they are
  the ones the pool issued for this address and password.
\<close>

theorem login_needs_verified_account:
  assumes doc: "pool_documented acc (as_cognito a)" and run: "login a email password w = (w', Inr t)"
  shows "\<exists>x s issued. validate_email (as_policy a) email = Inr x \<and> password = JStr s \<and> acc w x = Some True \<and>
    snd (sign_in_with_password (as_cognito a) x s w) = Inr issued \<and> read_tokens True issued = Inr t \<and> acc w' = acc w"
proof -
  obtain x s w1 issued w2 where parts: "validate_email (as_policy a) email = Inr x" "check_password password = Inr s"
    "authenticate a x s w = (w1, Inr issued)" "read_tokens True issued = Inr t" "is_verified a x w1 = (w2, Inr True)" "w' = w2"
    using run unfolding login_def
    by (elim trying_elim and_next_elim) (simp_all split: if_splits)
  have "password = JStr s"
    using parts(2) by (auto simp: check_password_def split: json.splits if_splits)
  moreover have "snd (sign_in_with_password (as_cognito a) x s w) = Inr issued"
    using parts(3) by (auto simp: authenticate_def elim!: rescued_elim)
  ultimately show ?thesis
    using parts authenticate_keeps [OF doc parts(3)] verified_reads [OF doc parts(5)] by auto
qed

subsection \<open>A pool in memory\<close>

text \<open>Accounts with their verified flag and password; a strong password has twelve characters.\<close>

type_synonym sample_world = "string \<Rightarrow> (bool \<times> string) option"

definition sample_accounts :: "sample_world \<Rightarrow> string \<Rightarrow> bool option" where
  "sample_accounts w = map_option fst \<circ> w"

definition sample_pool :: "sample_world cognito" where
  "sample_pool = \<lparr>
     admin_create_user = (\<lambda>x w. if w x = None then (w(x \<mapsto> (False, [])), Inr ())
       else (w, Inl (PoolError (Some ''UsernameExistsException'')))),
     admin_delete_user = (\<lambda>x w. if w x = None then (w, Inl (PoolError (Some ''UserNotFoundException'')))
       else (w(x := None), Inr ())),
     admin_get_user = (\<lambda>x w. (w, case w x of None \<Rightarrow> Inl (PoolError (Some ''UserNotFoundException''))
       | Some (v, _) \<Rightarrow> Inr [(''email'', x), (''email_verified'', if v then ''true'' else ''false'')])),
     admin_set_user_password = (\<lambda>x s w. case w x of None \<Rightarrow> (w, Inl (PoolError (Some ''UserNotFoundException'')))
       | Some (v, _) \<Rightarrow> if length s < 12 then (w, Inl (PoolError (Some ''InvalidPasswordException'')))
           else (w(x \<mapsto> (v, s)), Inr ())),
     sign_in_with_password = (\<lambda>x s w. (w, case w x of None \<Rightarrow> Inl (PoolError (Some ''UserNotFoundException''))
       | Some (v, t) \<Rightarrow> if s = t then Inr [(''AuthenticationResult'', JObj [(''AccessToken'', JStr x), (''IdToken'', JStr x),
             (''RefreshToken'', JStr x), (''ExpiresIn'', JInt 3600)])]
           else Inl (PoolError (Some ''NotAuthorizedException'')))),
     sign_in_with_refresh = (\<lambda>t w. (w, Inl (PoolError (Some ''NotAuthorizedException'')))),
     send_verification_code = (\<lambda>t w. (w, Inr ())),
     verify_user_attribute = (\<lambda>t d w. (w, Inl (PoolError (Some ''CodeMismatchException'')))),
     pool_forgot_password = (\<lambda>x w. (w, if w x = None then Inl (PoolError (Some ''UserNotFoundException'')) else Inr ())),
     confirm_forgot_password = (\<lambda>x d s w. (w, Inl (PoolError (Some ''CodeMismatchException'')))) \<rparr>"

definition sample_service :: "sample_world auth_service" where
  "sample_service = \<lparr> as_cognito = sample_pool, as_policy = \<lparr> allowed_domains = [''a.io''], allowed_patterns = [] \<rparr> \<rparr>"

lemma sample_pool_documented: "pool_documented sample_accounts sample_pool"
  unfolding pool_documented_def sample_pool_def sample_accounts_def
  by (auto intro!: ext split: if_splits option.splits)

definition sample_users :: sample_world where
  "sample_users = [''m@a.io'' \<mapsto> (True, ''Passw0rdPassw0rd''), ''n@a.io'' \<mapsto> (False, ''x'')]"

lemmas sample_defs = sample_service_def sample_pool_def sample_users_def sample_accounts_def

lemma sample_addresses:
  "validate_email (as_policy sample_service) (JStr ''M@A.io '') = Inr ''m@a.io''"
  "validate_email (as_policy sample_service) (JStr ''n@a.io'') = Inr ''n@a.io''"
  by (simp_all add: sample_service_def, code_simp+)

lemma sample_secret: "check_password (JStr ''Passw0rdPassw0rd'') = Inr ''Passw0rdPassw0rd''"
  by code_simp

definition probed :: "string \<Rightarrow> string \<Rightarrow> sample_world auth_service" where
  "probed signing resetting = sample_service \<lparr> as_cognito := sample_pool \<lparr>
     sign_in_with_password := (\<lambda>x s w. (w, Inl (PoolError (Some signing)))),
     pool_forgot_password := (\<lambda>x w. (w, Inl (PoolError (Some signing)))),
     confirm_forgot_password := (\<lambda>x d s w. (w, Inl (PoolError (Some resetting)))) \<rparr> \<rparr>"

definition probe_event :: "(string \<times> json) list" where
  "probe_event = [(''routeKey'', JStr ''POST /auth/v1/login''),
     (''body'', JStr (json_dumps (JObj [(''email'', JStr ''m@a.io''), (''password'', JStr ''Passw0rdPassw0rd'')])))]"


theorem register_spares_accounts_witness:
  "register sample_service (JStr ''n@a.io'') (JStr ''Passw0rdPassw0rd'') sample_users =
     (sample_users(''n@a.io'' \<mapsto> (False, ''Passw0rdPassw0rd'')), Inr ()) \<and>
   sample_accounts (sample_users(''n@a.io'' \<mapsto> (False, ''Passw0rdPassw0rd''))) ''n@a.io'' = Some False"
proof -
  have run: "register sample_service (JStr ''n@a.io'') (JStr ''Passw0rdPassw0rd'') sample_users =
      (sample_users(''n@a.io'' \<mapsto> (False, ''Passw0rdPassw0rd'')), Inr ())"
    unfolding register_def sample_addresses sample_secret trying_simps
    by (simp add: make_account_def set_password_or_undo_def send_confirmation_code_def authenticate_def is_verified_def bare_def
        read_tokens_def sample_defs)
  show ?thesis
    using register_spares_accounts [of sample_accounts sample_service, OF _ run] sample_pool_documented run sample_addresses(2)
    by (simp add: sample_service_def)
qed

theorem login_needs_verified_account_witness:
  "(\<exists>t. snd (login sample_service (JStr ''M@A.io '') (JStr ''Passw0rdPassw0rd'') sample_users) = Inr t) \<and>
   sample_accounts sample_users ''m@a.io'' = Some True"
proof -
  obtain t where run: "login sample_service (JStr ''M@A.io '') (JStr ''Passw0rdPassw0rd'') sample_users = (sample_users, Inr t)"
    unfolding login_def sample_addresses sample_secret trying_simps
    by (simp add: authenticate_def is_verified_def read_tokens_def sample_defs)
  show ?thesis
    using login_needs_verified_account [of sample_accounts sample_service, OF _ run] sample_pool_documented run sample_addresses(1)
    by (auto simp: sample_service_def)
qed

end
