(* ===== verification/Protocol.thy ===== *)
theory Protocol
  imports Remote
begin

text \<open>
  \<open>adapter/protocol.py\<close> and the three JSON schemas of the contract: validation of messages, frame
  chunks, sequence numbers, the idempotency window and the sanitising of errors.  The validator
  (\<open>jsonschema\<close>) is the schemas written out; its check of a \<open>date-time\<close> depends on an optional
  package, and is a parameter.
\<close>

subsection \<open>The errors of the adapter\<close>

datatype adapter_error =
  ProtocolContractError string string
| AdapterRequestError nat string string string bool
| BindingVerificationError string
| LeaseAuthorizationError string
| SessionInitializationError string
| TransientBackendError string
| GatewayError string
| GatewayExitedError string string string
| Uncaught fault

subsection \<open>The schemas\<close>

text \<open>\<open>^[0-9A-HJKMNP-TV-Z]{26}$\<close> with \<open>re.search\<close>: the dollar also stands before a last newline.\<close>

definition ulid_pattern :: "string \<Rightarrow> bool" where
  "ulid_pattern s = (let t = if ends_with s [CHR 0x0A] then butlast s else s in
     length t = 26 \<and> list_all (\<lambda>c. c \<in> set crockford) t)"

definition ulid_value :: "json \<Rightarrow> bool" where
  "ulid_value v = (case v of JStr s \<Rightarrow> ulid_pattern s | _ \<Rightarrow> False)"

definition one_of :: "string list \<Rightarrow> json \<Rightarrow> bool" where
  "one_of names v = (case v of JStr s \<Rightarrow> s \<in> set names | _ \<Rightarrow> False)"

definition is_object :: "json \<Rightarrow> bool" where
  "is_object v = (case v of JObj _ \<Rightarrow> True | _ \<Rightarrow> False)"

definition closed_object :: "string list \<Rightarrow> string list \<Rightarrow> (string \<times> json) list \<Rightarrow> bool" where
  "closed_object needed optional v =
     (list_all (\<lambda>k. k \<in> set (map fst v)) needed \<and> list_all (\<lambda>kv. fst kv \<in> set (needed @ optional)) v)"

definition http_operations :: "string list" where
  "http_operations = [''kirocrew.http'', ''chat.submit'', ''chat.cancel'', ''kiro.login.start'', ''kiro.status'',
     ''kiro.logout'', ''kirocrew.ws.send'', ''kirocrew.ws.close'', ''sandbox.prepare_stop'', ''ping'']"

definition invocation_valid :: "json \<Rightarrow> bool" where
  "invocation_valid j = (case j of
     JObj v \<Rightarrow> closed_object [''version'', ''requestId'', ''bindingToken'', ''operation'', ''payload''] [] v \<and>
       get_key v ''version'' = JStr PROTOCOL_VERSION \<and> ulid_value (get_key v ''requestId'') \<and>
       (case get_key v ''bindingToken'' of JStr t \<Rightarrow> 32 \<le> length t \<and> length t \<le> 8192 | _ \<Rightarrow> False) \<and>
       one_of http_operations (get_key v ''operation'') \<and> is_object (get_key v ''payload'')
   | _ \<Rightarrow> False)"

definition CLIENT_OPERATIONS :: "string list" where
  "CLIENT_OPERATIONS = [''connection.hello'', ''chat.submit'', ''chat.cancel'', ''kiro.login.start'', ''kiro.status'',
     ''kiro.logout'', ''kirocrew.ws.send'', ''kirocrew.ws.close'', ''sandbox.prepare_stop'', ''ping'']"

definition SERVER_OPERATIONS :: "string list" where
  "SERVER_OPERATIONS = [''connection.ready'', ''sandbox.state'', ''kiro.auth_status'', ''kiro.auth_required'',
     ''kiro.authenticated'', ''request.accepted'', ''output.delta'', ''tool.activity'', ''artifact.created'',
     ''request.completed'', ''checkpoint.committed'', ''error'', ''pong'']"

text \<open>\<open>"type": "integer", "minimum": 0\<close>: a float without a fraction is one, a boolean is not.\<close>

definition natural_value :: "json \<Rightarrow> int option" where
  "natural_value v = (case v of
     JInt i \<Rightarrow> if 0 \<le> i then Some i else None
   | JFloat m \<Rightarrow> if 0 \<le> m \<and> m mod 1000000 = 0 then Some (m div 1000000) else None
   | _ \<Rightarrow> None)"

definition envelope_valid :: "(string \<Rightarrow> bool) \<Rightarrow> json \<Rightarrow> bool" where
  "envelope_valid date_time j = (case j of
     JObj v \<Rightarrow> closed_object [''version'', ''messageId'', ''operation'', ''sequence'', ''timestamp'', ''correlationId'', ''payload'']
         [''requestId''] v \<and>
       get_key v ''version'' = JStr PROTOCOL_VERSION \<and> ulid_value (get_key v ''messageId'') \<and>
       (get_key v ''requestId'' = JNull \<or> ulid_value (get_key v ''requestId'')) \<and>
       one_of (CLIENT_OPERATIONS @ SERVER_OPERATIONS) (get_key v ''operation'') \<and>
       natural_value (get_key v ''sequence'') \<noteq> None \<and>
       (case get_key v ''timestamp'' of JStr t \<Rightarrow> date_time t | _ \<Rightarrow> False) \<and>
       ulid_value (get_key v ''correlationId'') \<and> is_object (get_key v ''payload'')
   | _ \<Rightarrow> False)"

definition ERROR_CODES :: "string list" where
  "ERROR_CODES = [''INVALID_MESSAGE'', ''UNSUPPORTED_PROTOCOL'', ''FRAME_TOO_LARGE'', ''SEQUENCE_ERROR'',
     ''IDEMPOTENCY_CONFLICT'', ''AUTHENTICATION_FAILED'', ''AUTHORIZATION_FAILED'', ''BINDING_MISMATCH'',
     ''SANDBOX_CONFLICT'', ''CHECKPOINT_FAILED'', ''PERSISTENCE_RESTORE_FAILED'', ''KIRO_AUTH_REQUIRED'',
     ''KIROCREW_UNAVAILABLE'', ''FEATURE_UNAVAILABLE_IN_AGENTCORE'', ''THROTTLED'', ''INTERNAL_ERROR'']"

definition ERROR_CATEGORIES :: "string list" where
  "ERROR_CATEGORIES = [''AUTHENTICATION'', ''AUTHORIZATION'', ''BINDING'', ''LIFECYCLE'', ''PROVISIONING'', ''TRANSPORT'',
     ''KIRO_AUTH'', ''KIROCREW'', ''PERSISTENCE'', ''THROTTLING'', ''INTERNAL'']"

definition scalar_value :: "json \<Rightarrow> bool" where
  "scalar_value v = (case v of JObj _ \<Rightarrow> False | JList _ \<Rightarrow> False | _ \<Rightarrow> True)"

definition error_valid :: "json \<Rightarrow> bool" where
  "error_valid j = (case j of
     JObj v \<Rightarrow> closed_object [''code'', ''category'', ''message'', ''retryable'', ''correlationId''] [''details''] v \<and>
       one_of ERROR_CODES (get_key v ''code'') \<and> one_of ERROR_CATEGORIES (get_key v ''category'') \<and>
       (case get_key v ''message'' of JStr t \<Rightarrow> 1 \<le> length t \<and> length t \<le> 512 | _ \<Rightarrow> False) \<and>
       (case get_key v ''retryable'' of JBool _ \<Rightarrow> True | _ \<Rightarrow> False) \<and> ulid_value (get_key v ''correlationId'') \<and>
       (case map_of v ''details'' of None \<Rightarrow> True
        | Some (JObj d) \<Rightarrow> list_all (\<lambda>kv. scalar_value (snd kv)) d | Some _ \<Rightarrow> False)
   | _ \<Rightarrow> False)"

text \<open>\<open>validate_schema\<close>: of the two refusals, a foreign version comes first.\<close>

definition validate_schema :: "(json \<Rightarrow> bool) \<Rightarrow> json \<Rightarrow> (adapter_error, unit) result" where
  "validate_schema valid j =
     (if valid j then Inr ()
      else case j of
          JObj v \<Rightarrow>
            if get_key v ''version'' \<noteq> JStr PROTOCOL_VERSION
            then Inl (ProtocolContractError ''UNSUPPORTED_PROTOCOL'' ''Unsupported protocol version.'')
            else Inl (ProtocolContractError ''INVALID_MESSAGE'' ''Message does not match the protocol contract.'')
        | _ \<Rightarrow> Inl (ProtocolContractError ''INVALID_MESSAGE'' ''Message does not match the protocol contract.''))"

definition validate_envelope :: "(string \<Rightarrow> bool) \<Rightarrow> json \<Rightarrow> (adapter_error, (string \<times> json) list) result" where
  "validate_envelope date_time j =
     (case validate_schema (envelope_valid date_time) j of
        Inl e \<Rightarrow> Inl e
      | Inr _ \<Rightarrow> (case j of JObj v \<Rightarrow> Inr v | _ \<Rightarrow> Inr []))"

subsection \<open>Frame chunks\<close>

definition FRAME_PAYLOAD_LIMIT :: nat where
  "FRAME_PAYLOAD_LIMIT = 24 * 1024"

record frame_chunk =
  fc_index :: nat
  fc_total :: nat
  fc_data :: string

definition chunk_parts :: "string \<Rightarrow> nat \<Rightarrow> string list" where
  "chunk_parts payload limit =
     (let parts = map (\<lambda>i. take limit (drop (i * limit) payload)) [0 ..< (length payload + limit - 1) div limit] in
      if parts = [] then [[]] else parts)"

definition chunk_payload :: "string \<Rightarrow> int \<Rightarrow> (adapter_error, frame_chunk list) result" where
  "chunk_payload payload limit =
     (if limit \<le> 0 then Inl (Uncaught (Crash (ValueCrash ''Chunk limit must be positive.'')))
      else
        let parts = chunk_parts payload (nat limit) in
        Inr (map (\<lambda>(i, data). \<lparr> fc_index = i, fc_total = length parts, fc_data = data \<rparr>) (enumerate 0 parts)))"

definition reassemble_chunks :: "frame_chunk list \<Rightarrow> (adapter_error, string) result" where
  "reassemble_chunks chunks =
     (case chunks of
        [] \<Rightarrow> Inl (ProtocolContractError ''INVALID_MESSAGE'' ''At least one frame chunk is required.'')
      | first # _ \<Rightarrow>
          if fc_total first \<noteq> length chunks \<or>
             list_ex (\<lambda>(i, c). fc_total c \<noteq> fc_total first \<or> fc_index c \<noteq> i) (enumerate 0 chunks)
          then Inl (ProtocolContractError ''SEQUENCE_ERROR'' ''Frame chunks are incomplete or out of order.'')
          else Inr (concat (map fc_data chunks)))"

subsection \<open>Sequence numbers and the idempotency window\<close>

type_synonym sequence_tracker = "string \<Rightarrow> int option"

definition accept_sequence :: "string \<Rightarrow> int \<Rightarrow> sequence_tracker \<Rightarrow> sequence_tracker \<times> (adapter_error, unit) result" where
  "accept_sequence stream n t =
     (if n \<noteq> (case t stream of None \<Rightarrow> - 1 | Some seen \<Rightarrow> seen) + 1
      then (t, Inl (ProtocolContractError ''SEQUENCE_ERROR'' ''Message sequence is not contiguous.''))
      else (t(stream \<mapsto> n), Inr ()))"

datatype idempotency_result = NEW | DUPLICATE

type_synonym idempotency_window = "string \<Rightarrow> string option"

definition check_request :: "(string \<Rightarrow> string) \<Rightarrow> string \<Rightarrow> (string \<times> json) list \<Rightarrow> idempotency_window
    \<Rightarrow> idempotency_window \<times> (adapter_error, idempotency_result) result" where
  "check_request sha request_id payload w =
     (let digest = sha (json_dumps (JObj payload)) in
      case w request_id of
        None \<Rightarrow> (w(request_id \<mapsto> digest), Inr NEW)
      | Some existing \<Rightarrow>
          if existing = digest then (w, Inr DUPLICATE)
          else (w, Inl (ProtocolContractError ''IDEMPOTENCY_CONFLICT'' ''Request ID was reused with another payload.'')))"

subsection \<open>Sanitised errors\<close>

text \<open>\<open>_SECRET_TEXT\<close>: a bearer credential, a JSON web token or the head of a private key, anywhere.\<close>

definition token_char :: "char \<Rightarrow> bool" where
  "token_char c = (let n = (of_char c :: nat) in
     (48 \<le> n \<and> n \<le> 57) \<or> (65 \<le> n \<and> n \<le> 90) \<or> (97 \<le> n \<and> n \<le> 122) \<or> c = CHR ''_'' \<or> c = CHR ''-'')"

definition skips :: "string \<Rightarrow> string \<Rightarrow> string option" where
  "skips p s = (if str_lower (take (length p) s) = p then Some (drop (length p) s) else None)"

definition skip_white :: "string \<Rightarrow> string option" where
  "skip_white s = (case s of c # _ \<Rightarrow> if is_white c then Some (dropWhile is_white s) else None | [] \<Rightarrow> None)"

definition skip_segment :: "string \<Rightarrow> string option" where
  "skip_segment s = (case s of c # _ \<Rightarrow> if token_char c then Some (dropWhile token_char s) else None | [] \<Rightarrow> None)"

definition bearer_here :: "string \<Rightarrow> bool" where
  "bearer_here s = (case Option.bind (skips ''bearer'' s) skip_white of Some (_ # _) \<Rightarrow> True | _ \<Rightarrow> False)"

definition web_token_here :: "string \<Rightarrow> bool" where
  "web_token_here s = (do {
     a \<leftarrow> skips ''eyj'' s; b \<leftarrow> skip_segment a; c \<leftarrow> skips ''.'' b;
     d \<leftarrow> skip_segment c; e \<leftarrow> skips ''.'' d; skip_segment e } \<noteq> None)"

definition private_key_here :: "string \<Rightarrow> bool" where
  "private_key_here s = (case Option.bind (skips ''-----begin'' s) skip_white of
     None \<Rightarrow> False
   | Some rest \<Rightarrow>
       skips ''private key-----'' rest \<noteq> None \<or>
       list_ex (\<lambda>kind. Option.bind (Option.bind (skips kind rest) skip_white) (skips ''private key-----'') \<noteq> None)
         [''rsa'', ''ec'', ''openssh''])"

definition secret_text :: "string \<Rightarrow> bool" where
  "secret_text s = list_ex (\<lambda>n. let t = drop n s in bearer_here t \<or> web_token_here t \<or> private_key_here t) [0 ..< length s]"

definition SAFE_DETAIL_KEYS :: "string list" where
  "SAFE_DETAIL_KEYS = [''feature'', ''generation'', ''limit'', ''operation'', ''retryAfterSeconds'', ''state'']"

record error_value =
  er_code :: string
  er_category :: string
  er_message :: string
  er_retryable :: bool
  er_correlation :: string
  er_details :: "(string \<times> json) list"

definition safe_message :: "string \<Rightarrow> string" where
  "safe_message m = (if secret_text m then ''The request could not be completed.'' else take 512 m)"

text \<open>A detail's text is the detail itself or that of a scalar, in which no secret can hide.\<close>

definition safe_detail :: "string \<times> json \<Rightarrow> bool" where
  "safe_detail kv = (fst kv \<in> set SAFE_DETAIL_KEYS \<and> scalar_value (snd kv) \<and>
     (case snd kv of JStr s \<Rightarrow> \<not> secret_text s | _ \<Rightarrow> True))"

definition sanitized_fields :: "error_value \<Rightarrow> (string \<times> json) list" where
  "sanitized_fields v =
     (let details = filter safe_detail (er_details v) in
      [(''code'', JStr (if er_code v \<in> set ERROR_CODES then er_code v else ''INTERNAL_ERROR'')),
       (''category'', JStr (if er_category v \<in> set ERROR_CATEGORIES then er_category v else ''INTERNAL'')),
       (''message'', JStr (safe_message (er_message v))), (''retryable'', JBool (er_retryable v)),
       (''correlationId'', JStr (er_correlation v))] @
      (if details = [] then [] else [(''details'', JObj details)]))"

definition sanitize_error :: "error_value \<Rightarrow> (adapter_error, (string \<times> json) list) result" where
  "sanitize_error v =
     (case validate_schema error_valid (JObj (sanitized_fields v)) of Inl e \<Rightarrow> Inl e | Inr _ \<Rightarrow> Inr (sanitized_fields v))"

end
