(* ===== verification/Adapter.thy ===== *)
theory Adapter
  imports Protocol
begin

text \<open>
  \<open>adapter/transport.py\<close>: the verification of binding tokens and the adapter that serves the
  container's HTTP and WebSocket routes.  The lease authorizer, the session initializer and the
  backend are the code's protocol classes, here a record of calls over a world; a backend's
  generator is what it yields and how it ends.  One handler runs at a time, with one reading of the
  clock; a reading client stays until the end of its stream.
\<close>

subsection \<open>Binding tokens\<close>

record binding_claims =
  bc_sandbox :: string
  bc_session :: string
  bc_expires :: int

record binding_verifier =
  bv_kms :: kms
  bv_audience :: string
  bv_issuer :: string
  bv_accepts_scheduler :: bool

definition new_binding_verifier :: "kms \<Rightarrow> string \<Rightarrow> string \<Rightarrow> bool \<Rightarrow> (adapter_error, binding_verifier) result" where
  "new_binding_verifier k audience issuer scheduler =
     (if audience = [] \<or> issuer = []
      then Inl (Uncaught (Crash (ValueCrash ''Binding audience and issuer are required.'')))
      else Inr \<lparr> bv_kms = k, bv_audience = audience, bv_issuer = issuer, bv_accepts_scheduler = scheduler \<rparr>)"

text \<open>\<open>AwsKmsSignatureVerifier.verify\<close>: a \<open>ClientError\<close> passes, a false answer is an invalid signature.\<close>

definition aws_verify :: "kms \<Rightarrow> string \<Rightarrow> string \<Rightarrow> (adapter_error, unit) result" where
  "aws_verify k m sig = (case kms_verify k m sig of
     Inl code \<Rightarrow> Inl (Uncaught (Crash (ClientCrash code)))
   | Inr valid \<Rightarrow> if valid then Inr () else Inl (BindingVerificationError ''Binding token is invalid.''))"

definition token_claims :: "kms \<Rightarrow> string \<Rightarrow> (adapter_error, (string \<times> json) list) result" where
  "token_claims k token =
     (let invalid = Inl (BindingVerificationError ''Binding token is invalid.'') in
      case split_dot token of
        None \<Rightarrow> invalid
      | Some (payload_encoded, signature_encoded) \<Rightarrow>
          (case (unbase64url payload_encoded, unbase64url signature_encoded) of
             (Some payload, Some sig) \<Rightarrow>
               (case aws_verify k payload_encoded sig of
                  Inl e \<Rightarrow> Inl e
                | Inr _ \<Rightarrow> (case Option.bind (utf8_decode payload) json_loads of Some (JObj claims) \<Rightarrow> Inr claims | _ \<Rightarrow> invalid))
           | _ \<Rightarrow> invalid))"

definition binding_mismatch :: adapter_error where
  "binding_mismatch = BindingVerificationError ''Binding token does not match this runtime request.''"

definition expected_subject ::
  "(string \<Rightarrow> string) \<Rightarrow> binding_verifier \<Rightarrow> (string \<times> json) list \<Rightarrow> string option \<Rightarrow> (adapter_error, json) result" where
  "expected_subject sha v claims subject =
     (if get_key claims ''type'' = JStr ''scheduler''
      then if \<not> bv_accepts_scheduler v \<or> subject \<noteq> None
        then Inl (BindingVerificationError ''Scheduler binding is not accepted on this runtime.'')
        else Inr (get_key claims ''subjectHash'')
      else if get_key claims ''type'' = JStr ''binding''
      then (case subject of
          None \<Rightarrow> Inl (BindingVerificationError ''Forwarded Cognito authorization is missing.'')
        | Some s \<Rightarrow> Inr (JStr (subject_hash sha \<lparr> id_subject = s, id_issuer = bv_issuer v, id_administrator = False \<rparr>)))
      else Inl binding_mismatch)"

definition verify_binding ::
  "(string \<Rightarrow> string) \<Rightarrow> binding_verifier \<Rightarrow> time \<Rightarrow> string \<Rightarrow> string option \<Rightarrow> (adapter_error, binding_claims) result" where
  "verify_binding sha v now token subject =
     (case token_claims (bv_kms v) token of
        Inl e \<Rightarrow> Inl e
      | Inr claims \<Rightarrow>
          (case expected_subject sha v claims subject of
             Inl e \<Rightarrow> Inl e
           | Inr expected \<Rightarrow>
               (case (expected, get_key claims ''sandboxId'', get_key claims ''runtimeSessionId'', get_key claims ''exp'') of
                  (JStr h, JStr sid, JStr session, JInt expires) \<Rightarrow>
                    if get_key claims ''aud'' \<noteq> JStr (bv_audience v) \<or> get_key claims ''subjectHash'' \<noteq> JStr h \<or>
                       expires \<le> epoch now
                    then Inl binding_mismatch
                    else Inr \<lparr> bc_sandbox = sid, bc_session = session, bc_expires = expires \<rparr>
                | _ \<Rightarrow> Inl binding_mismatch)))"

text \<open>\<open>_cognito_subject\<close>: the header's token was checked by the platform; here it is only read.\<close>

definition bad_authorization :: adapter_error where
  "bad_authorization = BindingVerificationError ''Forwarded Cognito authorization is invalid.''"

definition cognito_subject :: "string option \<Rightarrow> (adapter_error, string) result" where
  "cognito_subject authorization =
     (case authorization of
        None \<Rightarrow> Inl (BindingVerificationError ''Forwarded Cognito authorization is missing.'')
      | Some header \<Rightarrow>
          (let scheme = part_before (CHR '' '') header; token = part_after (CHR '' '') header; segments = split_on (CHR ''.'') token in
           if str_lower scheme \<noteq> ''bearer'' \<or> CHR '' '' \<notin> set header \<or> token = [] \<or> CHR '' '' \<in> set token \<or> length segments \<noteq> 3
           then Inl bad_authorization
           else case Option.bind (Option.bind (unbase64url (segments ! 1)) utf8_decode) json_loads of
               Some (JObj payload) \<Rightarrow>
                 (case get_key payload ''sub'' of
                    JStr s \<Rightarrow> if s = [] then Inl (BindingVerificationError ''Forwarded Cognito subject is missing.'') else Inr s
                  | _ \<Rightarrow> Inl (BindingVerificationError ''Forwarded Cognito subject is missing.''))
             | _ \<Rightarrow> Inl bad_authorization))"

subsection \<open>Events\<close>

record runtime_event =
  ev_id :: int
  ev_request :: "string option"
  ev_operation :: string
  ev_payload :: "(string \<times> json) list"
  ev_correlation :: string
  ev_timestamp :: string

definition new_ulid :: "nat \<Rightarrow> string" where
  "new_ulid value = map (\<lambda>shift. crockford ! (value div 2 ^ (5 * shift) mod 32)) (rev [0 ..< 26])"

definition event_envelope :: "nat \<Rightarrow> runtime_event \<Rightarrow> json" where
  "event_envelope random e =
     JObj [(''correlationId'', JStr (ev_correlation e)), (''messageId'', JStr (new_ulid random)),
       (''operation'', JStr (ev_operation e)), (''payload'', JObj (ev_payload e)),
       (''requestId'', case ev_request e of None \<Rightarrow> JNull | Some r \<Rightarrow> JStr r), (''sequence'', JInt (ev_id e)),
       (''timestamp'', JStr (ev_timestamp e)), (''version'', JStr PROTOCOL_VERSION)]"

record event_buffer =
  eb_events :: "string \<Rightarrow> runtime_event list option"
  eb_next :: "string \<Rightarrow> int option"
  eb_max :: nat

definition new_buffer :: "int \<Rightarrow> (adapter_error, event_buffer) result" where
  "new_buffer n =
     (if n \<le> 0 then Inl (Uncaught (Crash (ValueCrash ''Event buffer size must be positive.'')))
      else Inr \<lparr> eb_events = Map.empty, eb_next = Map.empty, eb_max = nat n \<rparr>)"

definition all_events :: "string \<Rightarrow> event_buffer \<Rightarrow> runtime_event list" where
  "all_events r b = (case eb_events b r of None \<Rightarrow> [] | Some es \<Rightarrow> es)"

definition upcoming :: "string \<Rightarrow> event_buffer \<Rightarrow> int" where
  "upcoming r b = (case eb_next b r of None \<Rightarrow> 0 | Some n \<Rightarrow> n)"

text \<open>A \<open>deque\<close> with a maximum drops from the left.\<close>

definition bounded_push :: "nat \<Rightarrow> 'a \<Rightarrow> 'a list \<Rightarrow> 'a list" where
  "bounded_push n x xs = (let ys = xs @ [x] in drop (length ys - n) ys)"

definition append_event ::
  "string \<Rightarrow> string \<Rightarrow> (string \<times> json) list \<Rightarrow> string \<Rightarrow> string \<Rightarrow> event_buffer \<Rightarrow> event_buffer" where
  "append_event r operation payload correlation at b =
     (let n = upcoming r b;
          e = \<lparr> ev_id = n, ev_request = Some r, ev_operation = operation, ev_payload = payload,
                ev_correlation = correlation, ev_timestamp = at \<rparr> in
      b\<lparr> eb_next := (eb_next b)(r \<mapsto> n + 1),
         eb_events := (eb_events b)(r \<mapsto> bounded_push (eb_max b) e (all_events r b)) \<rparr>)"

definition events_after :: "string \<Rightarrow> int \<Rightarrow> event_buffer \<Rightarrow> runtime_event list" where
  "events_after r n b = filter (\<lambda>e. n < ev_id e) (all_events r b)"

definition EVENT_CHUNK_BYTES :: int where
  "EVENT_CHUNK_BYTES = 16 * 1024"

text \<open>\<open>_append\<close>: a large payload goes in chunks of its JSON.\<close>

definition chunk_event :: "frame_chunk \<Rightarrow> (string \<times> json) list" where
  "chunk_event c =
     [(''chunkData'', JStr (base64 (fc_data c))), (''chunkIndex'', JInt (int (fc_index c))),
      (''chunkTotal'', JInt (int (fc_total c)))]"

definition append_payload ::
  "string \<Rightarrow> string \<Rightarrow> (string \<times> json) list \<Rightarrow> string \<Rightarrow> time \<Rightarrow> event_buffer \<Rightarrow> event_buffer" where
  "append_payload r operation payload correlation now b =
     (case chunk_payload (json_dumps (JObj payload)) EVENT_CHUNK_BYTES of
        Inl _ \<Rightarrow> b
      | Inr [_] \<Rightarrow> append_event r operation payload correlation (timestamp now) b
      | Inr chunks \<Rightarrow> fold (\<lambda>c. append_event r operation (chunk_event c) correlation (timestamp now)) chunks b)"

subsection \<open>The adapter\<close>

type_synonym backend_event = "string \<times> (string \<times> json) list"

type_synonym headers = "string \<Rightarrow> string option"

record 'w adapter =
  ad_sha :: "string \<Rightarrow> string"
  ad_date_time :: "string \<Rightarrow> bool"
  ad_verifier :: binding_verifier
  ad_max_attempts :: nat
  ad_random :: "'w \<Rightarrow> 'w \<times> nat"
  ad_lease :: "string \<Rightarrow> string \<Rightarrow> string \<Rightarrow> string \<Rightarrow> 'w \<Rightarrow> 'w \<times> (adapter_error, unit) result"
  ad_initialize :: "string \<Rightarrow> string \<Rightarrow> binding_claims \<Rightarrow> 'w \<Rightarrow> 'w \<times> (adapter_error, unit) result"
  ad_healthy :: "'w \<Rightarrow> bool"
  ad_initializing :: "'w \<Rightarrow> bool"
  ad_execute :: "string \<Rightarrow> string \<Rightarrow> (string \<times> json) list \<Rightarrow> 'w \<Rightarrow> 'w \<times> backend_event list \<times> adapter_error option"
  ad_cancel :: "string \<Rightarrow> 'w \<Rightarrow> 'w \<times> (adapter_error, bool) result"
  ad_busy :: "('w \<Rightarrow> 'w \<times> (adapter_error, bool) result) option"

record 'w adapter_state =
  st_window :: idempotency_window
  st_buffer :: event_buffer
  st_world :: 'w

definition in_world :: "('w \<Rightarrow> 'w \<times> 'a) \<Rightarrow> 'w adapter_state \<Rightarrow> 'w adapter_state \<times> 'a" where
  "in_world f st = (case f (st_world st) of (w, x) \<Rightarrow> (st\<lparr>st_world := w\<rparr>, x))"

definition then_run :: "'s \<times> ('e, 'a) result \<Rightarrow> ('s \<Rightarrow> 'a \<Rightarrow> 's \<times> ('e, 'b) result) \<Rightarrow> 's \<times> ('e, 'b) result" where
  "then_run r f = (case r of (s, Inl e) \<Rightarrow> (s, Inl e) | (s, Inr x) \<Rightarrow> f s x)"

lemma then_run_simps [simp]: "then_run (s, Inl e) f = (s, Inl e)" "then_run (s, Inr x) f = f s x"
  by (simp_all add: then_run_def)

lemma then_run_elim:
  assumes "then_run r f = (s', y)"
  obtains (raised) e where "r = (s', Inl e)" "y = Inl e"
  | (next_step) s x where "r = (s, Inr x)" "f s x = (s', y)"
  using assms by (cases r; cases "snd r") auto

definition correlation_of :: "'w adapter \<Rightarrow> string option \<Rightarrow> 'w adapter_state \<Rightarrow> 'w adapter_state \<times> string" where
  "correlation_of a v st =
     (case v of
        Some c \<Rightarrow> if length c = 26 \<and> list_all (\<lambda>x. x \<in> set crockford) c then (st, c)
          else apsnd new_ulid (in_world (ad_random a) st)
      | None \<Rightarrow> apsnd new_ulid (in_world (ad_random a) st))"

definition ping_answer :: "'w adapter \<Rightarrow> 'w \<Rightarrow> 'w \<times> (adapter_error, string) result" where
  "ping_answer a w =
     (if ad_initializing a w then (w, Inr ''HealthyBusy'')
      else case ad_busy a of
          None \<Rightarrow> (w, Inr ''Healthy'')
        | Some probe \<Rightarrow> then_run (probe w) (\<lambda>w busy. (w, Inr (if busy then ''HealthyBusy'' else ''Healthy''))))"

definition authorize :: "'w adapter \<Rightarrow> headers \<Rightarrow> string \<Rightarrow> time \<Rightarrow> 'w adapter_state
    \<Rightarrow> 'w adapter_state \<times> (adapter_error, string \<times> binding_claims) result" where
  "authorize a h token now st =
     (let authorization = h ''authorization'' in
      trying st (if authorization = None \<and> bv_accepts_scheduler (ad_verifier a) then Inr None
                 else map_sum id Some (cognito_subject authorization)) (\<lambda>subject.
      trying st (verify_binding (ad_sha a) (ad_verifier a) now token subject) (\<lambda>claims.
      let s = (case subject of None \<Rightarrow> [] | Some x \<Rightarrow> x) in
      then_run (in_world (ad_lease a s (bc_sandbox claims) (bc_session claims) token) st)
        (\<lambda>st _. (st, Inr (s, claims))))))"

definition not_ready :: adapter_error where
  "not_ready = AdapterRequestError 503 ''KIROCREW_UNAVAILABLE'' ''KIROCREW'' ''The sandbox is not ready.'' True"

text \<open>Authorization, initialization and \<open>_assert_ready\<close>, in the order of both routes.\<close>

definition admit :: "'w adapter \<Rightarrow> headers \<Rightarrow> string \<Rightarrow> time \<Rightarrow> 'w adapter_state
    \<Rightarrow> 'w adapter_state \<times> (adapter_error, unit) result" where
  "admit a h token now st =
     then_run (authorize a h token now st) (\<lambda>st (s, claims).
     then_run (in_world (ad_initialize a s token claims) st) (\<lambda>st _.
       (st, if ad_healthy a (st_world st) then Inr () else Inl not_ready)))"

definition backend_unavailable :: adapter_error where
  "backend_unavailable =
     AdapterRequestError 503 ''KIROCREW_UNAVAILABLE'' ''KIROCREW'' ''The runtime backend is temporarily unavailable.'' True"

definition appended :: "string \<Rightarrow> string \<Rightarrow> time \<Rightarrow> backend_event list \<Rightarrow> event_buffer \<Rightarrow> event_buffer" where
  "appended r correlation now = fold (\<lambda>(operation, payload). append_payload r operation payload correlation now)"

text \<open>\<open>_execute\<close>: the number counts the attempts left after this one.\<close>

primrec execute_attempts :: "nat \<Rightarrow> 'w adapter \<Rightarrow> string \<Rightarrow> string \<Rightarrow> (string \<times> json) list \<Rightarrow> string \<Rightarrow> time
    \<Rightarrow> 'w adapter_state \<Rightarrow> 'w adapter_state \<times> (adapter_error, unit) result" where
  "execute_attempts 0 a operation r payload correlation now st =
     (case ad_execute a operation r payload (st_world st) of (w, events, ending) \<Rightarrow>
        (st\<lparr> st_world := w, st_buffer := appended r correlation now events (st_buffer st) \<rparr>,
         case ending of None \<Rightarrow> Inr () | Some (TransientBackendError _) \<Rightarrow> Inl backend_unavailable | Some e \<Rightarrow> Inl e))"
| "execute_attempts (Suc n) a operation r payload correlation now st =
     (case ad_execute a operation r payload (st_world st) of (w, events, ending) \<Rightarrow>
        let st = st\<lparr> st_world := w, st_buffer := appended r correlation now events (st_buffer st) \<rparr> in
        case ending of
          None \<Rightarrow> (st, Inr ())
        | Some (TransientBackendError _) \<Rightarrow> execute_attempts n a operation r payload correlation now st
        | Some e \<Rightarrow> (st, Inl e))"

definition run_cancel :: "'w adapter \<Rightarrow> string \<Rightarrow> string \<Rightarrow> string \<Rightarrow> time \<Rightarrow> 'w adapter_state
    \<Rightarrow> 'w adapter_state \<times> (adapter_error, unit) result" where
  "run_cancel a r target correlation now st =
     then_run (in_world (ad_cancel a target) st) (\<lambda>st cancelled.
       (st\<lparr> st_buffer := append_payload r ''request.completed''
              [(''cancelled'', JBool cancelled), (''targetRequestId'', JStr target)] correlation now (st_buffer st) \<rparr>,
        Inr ()))"

end
