(* ===== verification/AdapterRoutes.thy ===== *)
theory AdapterRoutes
  imports Adapter
begin

text \<open>
  The routes of \<open>adapter/transport.py\<close>: \<open>_invocations\<close> with its live stream, and the WebSocket
  conversation.
\<close>

subsection \<open>Answers\<close>

text \<open>
  A stream that was started with status 200 and is then followed by the error answer of the
  handler is told apart from one that ends by itself.
\<close>

datatype adapter_response =
  JsonAnswer nat json
| EventStream "string list"
| InterruptedStream "string list" nat json

definition error_json :: "string \<Rightarrow> string \<Rightarrow> string \<Rightarrow> string \<Rightarrow> bool \<Rightarrow> (adapter_error, (string \<times> json) list) result" where
  "error_json code category message correlation retryable =
     sanitize_error \<lparr> er_code = code, er_category = category, er_message = message, er_retryable = retryable,
       er_correlation = correlation, er_details = [] \<rparr>"

text \<open>The \<open>except\<close> clauses of \<open>_invocations\<close>.\<close>

definition answer_of_error :: "adapter_error \<Rightarrow> nat \<times> string \<times> string \<times> string \<times> bool" where
  "answer_of_error e = (case e of
     ProtocolContractError code message \<Rightarrow> (400, code, ''TRANSPORT'', message, False)
   | AdapterRequestError status code category message retryable \<Rightarrow> (status, code, category, message, retryable)
   | BindingVerificationError _ \<Rightarrow> (403, ''BINDING_MISMATCH'', ''BINDING'', ''Runtime binding is invalid.'', False)
   | LeaseAuthorizationError _ \<Rightarrow> (403, ''BINDING_MISMATCH'', ''BINDING'', ''Runtime binding is invalid.'', False)
   | SessionInitializationError _ \<Rightarrow> (503, ''PERSISTENCE_RESTORE_FAILED'', ''PERSISTENCE'',
       ''The authoritative sandbox checkpoint could not be restored.'', False)
   | _ \<Rightarrow> (500, ''INTERNAL_ERROR'', ''INTERNAL'', ''The request could not be completed.'', False))"

definition error_response :: "adapter_error \<Rightarrow> string \<Rightarrow> (adapter_error, nat \<times> json) result" where
  "error_response e correlation =
     (case answer_of_error e of (status, code, category, message, retryable) \<Rightarrow>
        map_sum id (\<lambda>v. (status, JObj v)) (error_json code category message correlation retryable))"

subsection \<open>Events for the wire\<close>

text \<open>Each envelope takes a fresh message id.\<close>

fun envelopes :: "'w adapter \<Rightarrow> runtime_event list \<Rightarrow> 'w adapter_state \<Rightarrow> 'w adapter_state \<times> json list" where
  "envelopes a [] st = (st, [])"
| "envelopes a (e # es) st =
     (case in_world (ad_random a) st of (st, n) \<Rightarrow> apsnd (Cons (event_envelope n e)) (envelopes a es st))"

definition newline :: string where
  "newline = [CHR 0x0A]"

definition sse_frame :: "runtime_event \<Rightarrow> json \<Rightarrow> string" where
  "sse_frame e envelope =
     ''id: '' @ dec_int (ev_id e) @ newline @ ''event: '' @ ev_operation e @ newline @ ''data: '' @ json_dumps envelope @
     newline @ newline"

definition sse_frames :: "'w adapter \<Rightarrow> runtime_event list \<Rightarrow> 'w adapter_state \<Rightarrow> 'w adapter_state \<times> string list" where
  "sse_frames a es st = (case envelopes a es st of (st, vs) \<Rightarrow> (st, map2 sse_frame es vs))"

subsection \<open>The live stream\<close>

definition last_id :: "int \<Rightarrow> runtime_event list \<Rightarrow> int" where
  "last_id cursor es = (if es = [] then cursor else ev_id (last es))"

text \<open>One event of the generator: appended, and everything new written.\<close>

fun stream_events :: "'w adapter \<Rightarrow> string \<Rightarrow> string \<Rightarrow> time \<Rightarrow> backend_event list \<Rightarrow> int \<Rightarrow> string list \<Rightarrow> 'w adapter_state
    \<Rightarrow> 'w adapter_state \<times> int \<times> string list" where
  "stream_events a r correlation now [] cursor out st = (st, cursor, out)"
| "stream_events a r correlation now ((operation, payload) # rest) cursor out st =
     (let st = st\<lparr> st_buffer := append_payload r operation payload correlation now (st_buffer st) \<rparr>;
          fresh = events_after r cursor (st_buffer st) in
      case sse_frames a fresh st of (st, frames) \<Rightarrow>
        stream_events a r correlation now rest (last_id cursor fresh) (out @ frames) st)"

definition stream_error :: "'w adapter \<Rightarrow> string \<Rightarrow> string \<Rightarrow> time \<Rightarrow> int \<Rightarrow> string list \<Rightarrow> 'w adapter_state
    \<Rightarrow> 'w adapter_state \<times> string list \<times> adapter_error option" where
  "stream_error a r correlation now cursor out st =
     (case error_json ''KIROCREW_UNAVAILABLE'' ''KIROCREW'' ''The runtime backend is temporarily unavailable.'' correlation True of
        Inl e \<Rightarrow> (st, out, Some e)
      | Inr v \<Rightarrow>
          (case stream_events a r correlation now [(''error'', v)] cursor out st of (st, _, out) \<Rightarrow> (st, out, None)))"

primrec stream_attempts :: "nat \<Rightarrow> 'w adapter \<Rightarrow> string \<Rightarrow> string \<Rightarrow> (string \<times> json) list \<Rightarrow> string \<Rightarrow> time \<Rightarrow> int \<Rightarrow> int
    \<Rightarrow> string list \<Rightarrow> 'w adapter_state \<Rightarrow> 'w adapter_state \<times> string list \<times> adapter_error option" where
  "stream_attempts 0 a operation r payload correlation now seen cursor out st =
     (case ad_execute a operation r payload (st_world st) of (w, events, ending) \<Rightarrow>
        case stream_events a r correlation now events cursor out (st\<lparr>st_world := w\<rparr>) of (st, cursor, out) \<Rightarrow>
        (case ending of
           None \<Rightarrow> (st, out, None)
         | Some (TransientBackendError _) \<Rightarrow> stream_error a r correlation now cursor out st
         | Some e \<Rightarrow> (st, out, Some e)))"
| "stream_attempts (Suc n) a operation r payload correlation now seen cursor out st =
     (case ad_execute a operation r payload (st_world st) of (w, events, ending) \<Rightarrow>
        case stream_events a r correlation now events cursor out (st\<lparr>st_world := w\<rparr>) of (st, cursor, out) \<Rightarrow>
        (case ending of
           None \<Rightarrow> (st, out, None)
         | Some (TransientBackendError _) \<Rightarrow>
             if seen < cursor then stream_error a r correlation now cursor out st
             else stream_attempts n a operation r payload correlation now seen cursor out st
         | Some e \<Rightarrow> (st, out, Some e)))"

subsection \<open>\<open>POST /invocations\<close>\<close>

record request =
  rq_headers :: headers
  rq_body :: string

definition MAX_REQUEST_BYTES :: nat where
  "MAX_REQUEST_BYTES = 1024 * 1024"

text \<open>\<open>request.read\<close> refuses a body of the application's \<open>client_max_size\<close> itself.\<close>

definition read_invocation :: "request \<Rightarrow> (adapter_error, (string \<times> json) list) result" where
  "read_invocation q =
     (if MAX_REQUEST_BYTES * 2 \<le> length (rq_body q) then Inl (Uncaught (Crash (RuntimeErr ''Request Entity Too Large'')))
      else if MAX_REQUEST_BYTES < length (rq_body q)
      then Inl (AdapterRequestError 413 ''FRAME_TOO_LARGE'' ''TRANSPORT'' ''Invocation payload is too large.'' False)
      else case Option.bind (utf8_decode (rq_body q)) json_loads of
          None \<Rightarrow> Inl (AdapterRequestError 400 ''INVALID_MESSAGE'' ''TRANSPORT'' ''Invocation payload is invalid.'' False)
        | Some value \<Rightarrow>
            (case validate_schema invocation_valid value of
               Inl e \<Rightarrow> Inl e
             | Inr _ \<Rightarrow> (case value of JObj v \<Rightarrow> Inr v | _ \<Rightarrow> Inr [])))"

text \<open>\<open>int(text)\<close>: blanks around, a sign, digits with single underscores between them.\<close>

definition digit_groups :: "string \<Rightarrow> bool" where
  "digit_groups s = list_all (\<lambda>g. g \<noteq> [] \<and> list_all is_decimal_char g) (split_on (CHR ''_'') s)"

definition py_int :: "string \<Rightarrow> int option" where
  "py_int text =
     (let s = str_strip text; digits = (if starts_with s ''-'' \<or> starts_with s ''+'' then tl s else s) in
      if digit_groups digits
      then map_option (\<lambda>n. if starts_with s ''-'' then - int n else int n)
        (read_digits 0 (filter (\<lambda>c. c \<noteq> CHR ''_'') digits))
      else None)"

definition last_event_id :: "headers \<Rightarrow> (adapter_error, int) result" where
  "last_event_id h =
     (let invalid = Inl (AdapterRequestError 400 ''INVALID_MESSAGE'' ''TRANSPORT'' ''Last-Event-ID is invalid.'' False) in
      case py_int (case h ''last-event-id'' of None \<Rightarrow> ''-1'' | Some v \<Rightarrow> v) of
        None \<Rightarrow> invalid
      | Some n \<Rightarrow> if n < -1 then invalid else Inr n)"

fun contains :: "string \<Rightarrow> string \<Rightarrow> bool" where
  "contains p s = (starts_with s p \<or> (case s of [] \<Rightarrow> False | _ # t \<Rightarrow> contains p t))"

declare contains.simps [simp del]

definition accepts_sse :: "headers \<Rightarrow> bool" where
  "accepts_sse h = contains ''text/event-stream'' (case h ''accept'' of None \<Rightarrow> [] | Some v \<Rightarrow> v)"

definition text_of :: "json \<Rightarrow> string" where
  "text_of v = (case v of JStr s \<Rightarrow> s | _ \<Rightarrow> [])"

definition members_of :: "json \<Rightarrow> (string \<times> json) list" where
  "members_of v = (case v of JObj m \<Rightarrow> m | _ \<Rightarrow> [])"

text \<open>The events the buffer holds for a request, as the client asked for them.\<close>

definition replay :: "'w adapter \<Rightarrow> bool \<Rightarrow> string \<Rightarrow> int \<Rightarrow> 'w adapter_state
    \<Rightarrow> 'w adapter_state \<times> (adapter_error, adapter_response) result" where
  "replay a sse r seen st =
     (let es = events_after r seen (st_buffer st) in
      if sse then apsnd (\<lambda>frames. Inr (EventStream frames)) (sse_frames a es st)
      else apsnd (\<lambda>vs. Inr (JsonAnswer 200 (JObj [(''events'', JList vs)]))) (envelopes a es st))"

definition live :: "'w adapter \<Rightarrow> string \<Rightarrow> string \<Rightarrow> (string \<times> json) list \<Rightarrow> string \<Rightarrow> time \<Rightarrow> int \<Rightarrow> 'w adapter_state
    \<Rightarrow> 'w adapter_state \<times> (adapter_error, adapter_response) result" where
  "live a operation r payload correlation now seen st =
     (case stream_attempts (ad_max_attempts a - 1) a operation r payload correlation now seen seen [] st of
        (st, frames, None) \<Rightarrow> (st, Inr (EventStream frames))
      | (st, frames, Some e) \<Rightarrow>
          (st, map_sum id (\<lambda>(status, v). InterruptedStream frames status v) (error_response e correlation)))"

definition perform :: "'w adapter \<Rightarrow> headers \<Rightarrow> string \<Rightarrow> time \<Rightarrow> (string \<times> json) list \<Rightarrow> 'w adapter_state
    \<Rightarrow> 'w adapter_state \<times> (adapter_error, adapter_response) result" where
  "perform a h correlation now invocation st =
     (let r = text_of (get_key invocation ''requestId''); operation = text_of (get_key invocation ''operation'');
          payload = members_of (get_key invocation ''payload'') in
      case check_request (ad_sha a) r invocation (st_window st) of
        (window, Inl e) \<Rightarrow> (st, Inl e)
      | (window, Inr disposition) \<Rightarrow>
          trying (st\<lparr>st_window := window\<rparr>) (last_event_id h) (\<lambda>seen.
            let st = st\<lparr>st_window := window\<rparr> in
            if disposition = DUPLICATE then replay a (accepts_sse h) r seen st
            else if operation = ''chat.cancel''
            then (case get_key payload ''requestId'' of
                JStr target \<Rightarrow>
                  then_run (run_cancel a r target correlation now st) (\<lambda>st _. replay a (accepts_sse h) r seen st)
              | _ \<Rightarrow> (st, Inl (AdapterRequestError 400 ''INVALID_MESSAGE'' ''TRANSPORT'' ''Cancellation request ID is required.'' False)))
            else if accepts_sse h then live a operation r payload correlation now seen st
            else then_run (execute_attempts (ad_max_attempts a - 1) a operation r payload correlation now st)
              (\<lambda>st _. replay a False r seen st)))"

definition invocations :: "'w adapter \<Rightarrow> request \<Rightarrow> time \<Rightarrow> 'w adapter_state
    \<Rightarrow> 'w adapter_state \<times> (adapter_error, adapter_response) result" where
  "invocations a q now st =
     (case correlation_of a (rq_headers q ''x-correlation-id'') st of (st, correlation) \<Rightarrow>
        case trying st (read_invocation q) (\<lambda>invocation.
          then_run (admit a (rq_headers q) (text_of (get_key invocation ''bindingToken'')) now st) (\<lambda>st _.
            perform a (rq_headers q) correlation now invocation st)) of
          (st, Inr answer) \<Rightarrow> (st, Inr answer)
        | (st, Inl e) \<Rightarrow> (st, map_sum id (\<lambda>(status, v). JsonAnswer status v) (error_response e correlation)))"

subsection \<open>The WebSocket conversation\<close>

datatype ws_input = WsText string | WsOther | WsGone | WsTimeout

datatype ws_output = WsFrame string | WsClose nat

record 'w conversation =
  ws_state :: "'w adapter_state"
  ws_sequence :: sequence_tracker
  ws_authorized :: bool
  ws_sent :: "ws_output list"

definition MAX_WEBSOCKET_FRAME_BYTES :: nat where
  "MAX_WEBSOCKET_FRAME_BYTES = 32 * 1024"

definition in_state :: "('w adapter_state \<Rightarrow> 'w adapter_state \<times> 'a) \<Rightarrow> 'w conversation \<Rightarrow> 'w conversation \<times> 'a" where
  "in_state f c = (case f (ws_state c) of (st, x) \<Rightarrow> (c\<lparr>ws_state := st\<rparr>, x))"

definition send_event :: "'w adapter \<Rightarrow> runtime_event \<Rightarrow> 'w conversation \<Rightarrow> 'w conversation \<times> (adapter_error, unit) result" where
  "send_event a e c =
     (case in_state (in_world (ad_random a)) c of (c, n) \<Rightarrow>
        let encoded = json_dumps (event_envelope n e) in
        if FRAME_PAYLOAD_LIMIT < length encoded
        then (c, Inl (ProtocolContractError ''FRAME_TOO_LARGE'' ''Encoded event exceeds the WebSocket frame limit.''))
        else (c\<lparr>ws_sent := ws_sent c @ [WsFrame encoded]\<rparr>, Inr ()))"

definition ws_error :: "'w adapter \<Rightarrow> string \<Rightarrow> string \<Rightarrow> string \<Rightarrow> string \<Rightarrow> time \<Rightarrow> 'w conversation
    \<Rightarrow> 'w conversation \<times> (adapter_error, unit) result" where
  "ws_error a code category message correlation now c =
     trying c (error_json code category message correlation False) (\<lambda>v.
       send_event a \<lparr> ev_id = 0, ev_request = None, ev_operation = ''error'', ev_payload = v, ev_correlation = correlation,
         ev_timestamp = timestamp now \<rparr> c)"

fun send_events :: "'w adapter \<Rightarrow> runtime_event list \<Rightarrow> 'w conversation \<Rightarrow> 'w conversation \<times> (adapter_error, unit) result" where
  "send_events a [] c = (c, Inr ())"
| "send_events a (e # es) c = then_run (send_event a e c) (\<lambda>c _. send_events a es c)"

text \<open>The hello, and then the commands.\<close>

definition ws_hello :: "'w adapter \<Rightarrow> headers \<Rightarrow> (string \<times> json) list \<Rightarrow> time \<Rightarrow> 'w conversation
    \<Rightarrow> 'w conversation \<times> (adapter_error, unit) result" where
  "ws_hello a h envelope now c =
     (if get_key envelope ''operation'' \<noteq> JStr ''connection.hello''
      then (c, Inl (BindingVerificationError ''Connection hello is required.''))
      else case get_key (members_of (get_key envelope ''payload'')) ''bindingToken'' of
          JStr token \<Rightarrow>
            then_run (in_state (admit a h token now) c) (\<lambda>c _.
              send_event a \<lparr> ev_id = 0, ev_request = None, ev_operation = ''connection.ready'', ev_payload = [],
                ev_correlation = text_of (get_key envelope ''correlationId''), ev_timestamp = timestamp now \<rparr>
                (c\<lparr>ws_authorized := True\<rparr>))
        | _ \<Rightarrow> (c, Inl (BindingVerificationError ''Binding token is required.'')))"

definition ws_command :: "'w adapter \<Rightarrow> string \<Rightarrow> string \<Rightarrow> (string \<times> json) list \<Rightarrow> string \<Rightarrow> time \<Rightarrow> 'w conversation
    \<Rightarrow> 'w conversation \<times> (adapter_error, unit) result" where
  "ws_command a operation r payload correlation now c =
     (let command = filter (\<lambda>kv. fst kv \<noteq> ''lastEventId'') payload in
      case check_request (ad_sha a) r [(''operation'', JStr operation), (''payload'', JObj command), (''requestId'', JStr r)]
          (st_window (ws_state c)) of
        (window, Inl e) \<Rightarrow> (c, Inl e)
      | (window, Inr disposition) \<Rightarrow>
          let c = c\<lparr>ws_state := (ws_state c)\<lparr>st_window := window\<rparr>\<rparr> in
          then_run
            (if disposition = DUPLICATE then (c, Inr ())
             else if operation = ''chat.cancel''
             then (case get_key payload ''requestId'' of
                 JStr target \<Rightarrow> in_state (run_cancel a r target correlation now) c
               | _ \<Rightarrow> (c, Inl (ProtocolContractError ''INVALID_MESSAGE'' ''Cancellation request ID is required.'')))
             else in_state (execute_attempts (ad_max_attempts a - 1) a operation r command correlation now) c)
            (\<lambda>c _. case get_default payload ''lastEventId'' (JInt (- 1)) of
               JInt seen \<Rightarrow> send_events a (events_after r seen (st_buffer (ws_state c))) c
             | _ \<Rightarrow> (c, Inl (ProtocolContractError ''INVALID_MESSAGE'' ''Last event ID must be an integer.''))))"

text \<open>The \<open>try\<close> block of the loop, for one text frame.\<close>

definition ws_frame :: "'w adapter \<Rightarrow> headers \<Rightarrow> string \<Rightarrow> time \<Rightarrow> 'w conversation \<Rightarrow> 'w conversation \<times> (adapter_error, unit) result" where
  "ws_frame a h text now c =
     trying c (case json_loads text of
         None \<Rightarrow> Inl (ProtocolContractError ''INVALID_MESSAGE'' ''WebSocket message is invalid.'')
       | Some v \<Rightarrow> validate_envelope (ad_date_time a) v) (\<lambda>envelope.
       case natural_value (get_key envelope ''sequence'') of
         None \<Rightarrow> (c, Inr ())
       | Some n \<Rightarrow>
           (case accept_sequence ''connection'' n (ws_sequence c) of
              (_, Inl e) \<Rightarrow> (c, Inl e)
            | (tracker, Inr _) \<Rightarrow>
                let c = c\<lparr>ws_sequence := tracker\<rparr>; correlation = text_of (get_key envelope ''correlationId'') in
                if \<not> ws_authorized c then ws_hello a h envelope now c
                else if get_key envelope ''operation'' = JStr ''ping''
                then send_event a \<lparr> ev_id = n, ev_request = as_str (get_key envelope ''requestId''), ev_operation = ''pong'',
                  ev_payload = [], ev_correlation = correlation, ev_timestamp = timestamp now \<rparr> c
                else (case get_key envelope ''requestId'' of
                    JStr r \<Rightarrow>
                      ws_command a (text_of (get_key envelope ''operation'')) r (members_of (get_key envelope ''payload''))
                        correlation now c
                  | _ \<Rightarrow> (c, Inl (ProtocolContractError ''INVALID_MESSAGE'' ''Request ID is required for commands.'')))))"

text \<open>The \<open>except\<close> clauses: the answer and, for all but a contract error, the code the socket closes with.\<close>

definition ws_refusal :: "adapter_error \<Rightarrow> (string \<times> string \<times> string \<times> nat option) option" where
  "ws_refusal e = (case e of
     ProtocolContractError code message \<Rightarrow> Some (code, ''TRANSPORT'', message, None)
   | BindingVerificationError _ \<Rightarrow> Some (''BINDING_MISMATCH'', ''BINDING'', ''Runtime binding is invalid.'', Some 1008)
   | LeaseAuthorizationError _ \<Rightarrow> Some (''BINDING_MISMATCH'', ''BINDING'', ''Runtime binding is invalid.'', Some 1008)
   | SessionInitializationError _ \<Rightarrow> Some (''PERSISTENCE_RESTORE_FAILED'', ''PERSISTENCE'',
       ''The authoritative sandbox checkpoint could not be restored.'', Some 1011)
   | AdapterRequestError _ code category message retryable \<Rightarrow> Some (code, category, message, Some (if retryable then 1013 else 1008))
   | _ \<Rightarrow> None)"

text \<open>One turn of the loop: whether it goes on, or the exception that leaves it.\<close>

definition ws_step :: "'w adapter \<Rightarrow> headers \<Rightarrow> string \<Rightarrow> ws_input \<times> time \<Rightarrow> 'w conversation
    \<Rightarrow> 'w conversation \<times> (adapter_error, bool) result" where
  "ws_step a h correlation input c =
     (let complain = (\<lambda>code category message now c. then_run (ws_error a code category message correlation now c) (\<lambda>c _. (c, Inr True))) in
      case input of
        (WsTimeout, _) \<Rightarrow> (c\<lparr>ws_sent := ws_sent c @ [WsClose 1001]\<rparr>, Inr False)
      | (WsGone, _) \<Rightarrow> (c, Inr False)
      | (WsOther, now) \<Rightarrow> complain ''INVALID_MESSAGE'' ''TRANSPORT'' ''Text frames are required.'' now c
      | (WsText text, now) \<Rightarrow>
          if MAX_WEBSOCKET_FRAME_BYTES < length (utf8_encode text)
          then complain ''FRAME_TOO_LARGE'' ''TRANSPORT'' ''WebSocket frame is too large.'' now c
          else (case ws_frame a h text now c of
              (c, Inr _) \<Rightarrow> (c, Inr True)
            | (c, Inl e) \<Rightarrow>
                (case ws_refusal e of
                   None \<Rightarrow> (c, Inl e)
                 | Some (code, category, message, None) \<Rightarrow> complain code category message now c
                 | Some (code, category, message, Some n) \<Rightarrow>
                     then_run (ws_error a code category message correlation now c) (\<lambda>c _.
                       (c\<lparr>ws_sent := ws_sent c @ [WsClose n]\<rparr>, Inr False)))))"

fun ws_loop :: "'w adapter \<Rightarrow> headers \<Rightarrow> string \<Rightarrow> (ws_input \<times> time) list \<Rightarrow> 'w conversation
    \<Rightarrow> 'w conversation \<times> (adapter_error, unit) result" where
  "ws_loop a h correlation [] c = (c, Inr ())"
| "ws_loop a h correlation (i # is) c =
     (case ws_step a h correlation i c of
        (c, Inl e) \<Rightarrow> (c, Inl e)
      | (c, Inr False) \<Rightarrow> (c, Inr ())
      | (c, Inr True) \<Rightarrow> ws_loop a h correlation is c)"

text \<open>The \<open>finally\<close> clause closes a socket that is still open.\<close>

definition is_close :: "ws_output \<Rightarrow> bool" where
  "is_close x = (case x of WsClose _ \<Rightarrow> True | _ \<Rightarrow> False)"

definition websocket :: "'w adapter \<Rightarrow> headers \<Rightarrow> (ws_input \<times> time) list \<Rightarrow> 'w adapter_state
    \<Rightarrow> 'w adapter_state \<times> ws_output list \<times> adapter_error option" where
  "websocket a h inputs st =
     (case correlation_of a (h ''x-correlation-id'') st of (st, correlation) \<Rightarrow>
        case ws_loop a h correlation inputs \<lparr> ws_state = st, ws_sequence = Map.empty, ws_authorized = False, ws_sent = [] \<rparr> of
          (c, r) \<Rightarrow>
            (ws_state c, ws_sent c @ (if list_ex is_close (ws_sent c) then [] else [WsClose 1000]),
             case r of Inl e \<Rightarrow> Some e | Inr _ \<Rightarrow> None))"

end
