(* ===== verification/AdapterEvents.thy ===== *)
theory AdapterEvents
  imports AdapterRoutes
begin

text \<open>
  The event buffer of the adapter: its sequence numbers, what a reconnecting client gets, and that
  every route of the adapter keeps it in order.
\<close>

subsection \<open>Ranges of sequence numbers\<close>

lemma drop_upto: "drop k [a..b] = [a + int k..(b::int)]"
proof (induction k arbitrary: a)
  case (Suc k)
  show ?case
  proof (cases "a \<le> b")
    case True
    then have "drop (Suc k) [a..b] = drop k [a + 1..b]" by (simp add: upto.simps [of a b])
    then show ?thesis using Suc.IH [of "a + 1"] by (simp add: ac_simps)
  next
    case False
    then show ?thesis by simp
  qed
qed simp

lemma filter_upto: "filter (\<lambda>x. n < x) [a..b] = [max a (n + 1)..(b::int)]"
proof (induction a b rule: upto.induct)
  case (1 i j)
  show ?case
  proof (cases "i \<le> j")
    case True
    show ?thesis
    proof (cases "n < i")
      case True
      then have "max i (n + 1) = i" "max (i + 1) (n + 1) = i + 1" by simp_all
      then show ?thesis
        using "1.IH" [OF \<open>i \<le> j\<close>] True \<open>i \<le> j\<close> by (simp add: upto.simps [of i j])
    next
      case False
      then have "max i (n + 1) = n + 1" "max (i + 1) (n + 1) = n + 1" by simp_all
      then show ?thesis
        using "1.IH" [OF \<open>i \<le> j\<close>] False \<open>i \<le> j\<close> by (simp add: upto.simps [of i j])
    qed
  qed simp
qed

lemma upto_snoc: "a \<le> b + 1 \<Longrightarrow> [a..b] @ [b + 1] = [a..b + (1::int)]"
  using upto_rec2 [of a "b + 1"] by simp

subsection \<open>The buffer\<close>

lemma append_event_parts [simp]:
  "upcoming r' (append_event r operation payload c at b) = (if r' = r then upcoming r b + 1 else upcoming r' b)"
  "eb_max (append_event r operation payload c at b) = eb_max b"
  "all_events r' (append_event r operation payload c at b) =
     (if r' = r
      then bounded_push (eb_max b) \<lparr> ev_id = upcoming r b, ev_request = Some r, ev_operation = operation,
        ev_payload = payload, ev_correlation = c, ev_timestamp = at \<rparr> (all_events r b)
      else all_events r' b)"
  by (simp_all add: append_event_def Let_def upcoming_def all_events_def)

text \<open>
  A request's events carry the last sequence numbers without a gap; no more than the maximum is
  kept, and nothing is lost before that.
\<close>

definition in_order :: "event_buffer \<Rightarrow> bool" where
  "in_order b \<longleftrightarrow> (\<forall>r. 0 \<le> upcoming r b \<and>
     map ev_id (all_events r b) = [upcoming r b - int (length (all_events r b)) .. upcoming r b - 1] \<and>
     length (all_events r b) = min (eb_max b) (nat (upcoming r b)))"

lemma new_buffer_in_order: "new_buffer n = Inr b \<Longrightarrow> in_order b"
  by (auto simp: new_buffer_def in_order_def upcoming_def all_events_def split: if_splits)

lemma append_in_order:
  assumes "in_order b"
  shows "in_order (append_event r operation payload c at b)"
  unfolding in_order_def
proof
  fix r'
  let ?b = "append_event r operation payload c at b" and ?n = "upcoming r b" and ?es = "all_events r b"
  have old: "0 \<le> upcoming x b" "map ev_id (all_events x b) = [upcoming x b - int (length (all_events x b)) .. upcoming x b - 1]"
    "length (all_events x b) = min (eb_max b) (nat (upcoming x b))" for x
    using assms by (simp_all add: in_order_def)
  show "0 \<le> upcoming r' ?b \<and>
     map ev_id (all_events r' ?b) = [upcoming r' ?b - int (length (all_events r' ?b)) .. upcoming r' ?b - 1] \<and>
     length (all_events r' ?b) = min (eb_max ?b) (nat (upcoming r' ?b))"
  proof (cases "r' = r")
    case True
    let ?e = "\<lparr> ev_id = ?n, ev_request = Some r, ev_operation = operation, ev_payload = payload, ev_correlation = c, ev_timestamp = at \<rparr>"
    let ?ys = "?es @ [?e]" and ?k = "length ?es + 1 - eb_max b"
    have now: "all_events r ?b = drop ?k ?ys" by (simp add: bounded_push_def Let_def)
    have "map ev_id ?ys = [?n - int (length ?es) .. ?n]"
      using old(2) [of r] upto_snoc [of "?n - int (length ?es)" "?n - 1"] by simp
    then have ids: "map ev_id (drop ?k ?ys) = [?n - int (length ?es) + int ?k .. ?n]"
      by (simp only: drop_map [symmetric] drop_upto)
    have len: "length (drop ?k ?ys) = length ?es + 1 - ?k" by simp
    have "?n - int (length ?es) + int ?k = ?n + 1 - int (length (drop ?k ?ys))"
      unfolding len using old(3) [of r] by (simp add: of_nat_diff)
    then have ids': "map ev_id (all_events r ?b) = [?n + 1 - int (length (all_events r ?b)) .. ?n]"
      unfolding now using ids by (simp only:)
    have len': "length (all_events r ?b) = min (eb_max b) (nat (?n + 1))"
      unfolding now len using old(1,3) [of r] by (simp add: nat_add_distrib min_def)
    show ?thesis
      using True old(1) [of r] ids' len' by (simp del: append_event_parts(3))
  qed (use old [of r'] in simp)
qed

text \<open>What a client that saw the events up to a number gets.\<close>

lemma events_after_ids:
  assumes "in_order b"
  shows "map ev_id (events_after r n b) =
    [max (upcoming r b - int (length (all_events r b))) (n + 1) .. upcoming r b - 1]"
proof -
  have "map ev_id (events_after r n b) = filter (\<lambda>i. n < i) (map ev_id (all_events r b))"
    by (simp add: events_after_def filter_map comp_def)
  also have "map ev_id (all_events r b) = [upcoming r b - int (length (all_events r b)) .. upcoming r b - 1]"
    using assms by (simp add: in_order_def)
  finally show ?thesis by (simp only: filter_upto)
qed

subsection \<open>What every route keeps of the buffer\<close>

text \<open>
  The routes change the buffer by appending only: a property that an append keeps is kept by all of
  them, whatever the backend does.
\<close>

locale kept_by_append =
  fixes good :: "idempotency_window \<Rightarrow> event_buffer \<Rightarrow> bool"
  assumes append_keeps: "good w b \<Longrightarrow> good w (append_event r operation payload c at b)"
    and check_keeps: "good w b \<Longrightarrow> check_request sha r payload w = (w', x) \<Longrightarrow> good w' b"
begin

abbreviation fine :: "'w adapter_state \<Rightarrow> bool" where
  "fine st \<equiv> good (st_window st) (st_buffer st)"

lemma payload_keeps: "good w b \<Longrightarrow> good w (append_payload r operation payload c now b)"
proof -
  have "good w (fold (\<lambda>ch. append_event r operation (chunk_event ch) c at) chunks b)" if "good w b" for chunks at b
    using that by (induction chunks arbitrary: b) (simp_all add: append_keeps)
  then show "good w b \<Longrightarrow> ?thesis"
    by (auto simp: append_payload_def append_keeps split: sum.split list.split)
qed

lemma appended_keeps: "good w b \<Longrightarrow> good w (appended r c now events b)"
  by (induction events arbitrary: b) (auto simp: appended_def payload_keeps)

lemma world_keeps: "in_world f st = (st', x) \<Longrightarrow> fine st \<Longrightarrow> fine st'"
  by (auto simp: in_world_def split: prod.splits)

lemma correlation_keeps: "correlation_of a v st = (st', x) \<Longrightarrow> fine st \<Longrightarrow> fine st'"
  by (auto simp: correlation_of_def in_world_def apsnd_def map_prod_def split: option.splits if_splits prod.splits)

lemma admit_keeps: "admit a h token now st = (st', x) \<Longrightarrow> fine st \<Longrightarrow> fine st'"
  unfolding admit_def authorize_def Let_def
  by (auto elim!: then_run_elim trying_elim dest: world_keeps split: prod.splits)

lemma execute_keeps: "execute_attempts n a operation r payload c now st = (st', x) \<Longrightarrow> fine st \<Longrightarrow> fine st'"
proof (induction n arbitrary: st)
  case 0
  then show ?case by (auto simp: appended_keeps split: prod.splits)
next
  case (Suc n)
  obtain w events ending where run: "ad_execute a operation r payload (st_world st) = (w, events, ending)"
    by (cases "ad_execute a operation r payload (st_world st)")
  let ?st = "st\<lparr> st_world := w, st_buffer := appended r c now events (st_buffer st) \<rparr>"
  have "fine ?st" using Suc.prems(2) by (simp add: appended_keeps)
  then show ?case
    using Suc.prems(1) Suc.IH [of ?st] by (auto simp: run Let_def split: option.splits adapter_error.splits)
qed

lemma cancel_keeps: "run_cancel a r target c now st = (st', x) \<Longrightarrow> fine st \<Longrightarrow> fine st'"
  unfolding run_cancel_def by (auto elim!: then_run_elim simp: payload_keeps dest: world_keeps)

lemma envelopes_keep: "envelopes a es st = (st', x) \<Longrightarrow> fine st \<Longrightarrow> fine st'"
proof (induction es arbitrary: st st' x)
  case (Cons e es)
  obtain st1 n where w: "in_world (ad_random a) st = (st1, n)" by (cases "in_world (ad_random a) st")
  show ?case
    using Cons.prems Cons.IH [of st1] world_keeps [OF w] by (cases "envelopes a es st1") (auto simp: w)
qed simp

lemma frames_keep: "sse_frames a es st = (st', x) \<Longrightarrow> fine st \<Longrightarrow> fine st'"
  by (auto simp: sse_frames_def dest: envelopes_keep split: prod.splits)

lemma stream_events_keep: "stream_events a r c now events cursor out st = (st', x) \<Longrightarrow> fine st \<Longrightarrow> fine st'"
proof (induction events arbitrary: cursor out st)
  case (Cons e events)
  obtain operation payload where e: "e = (operation, payload)" by (cases e)
  let ?st = "st\<lparr> st_buffer := append_payload r operation payload c now (st_buffer st) \<rparr>"
  obtain st1 frames where f: "sse_frames a (events_after r cursor (st_buffer ?st)) ?st = (st1, frames)"
    by (cases "sse_frames a (events_after r cursor (st_buffer ?st)) ?st")
  have "fine ?st" using Cons.prems(2) by (simp add: payload_keeps)
  then show ?case
    using Cons.IH Cons.prems(1) frames_keep [OF f] f by (simp add: e Let_def)
qed simp

lemma stream_error_keeps: "stream_error a r c now cursor out st = (st', x) \<Longrightarrow> fine st \<Longrightarrow> fine st'"
  by (auto simp: stream_error_def simp del: stream_events.simps dest: stream_events_keep split: sum.splits prod.splits)

lemma stream_keeps: "stream_attempts n a operation r payload c now seen cursor out st = (st', x) \<Longrightarrow> fine st \<Longrightarrow> fine st'"
proof (induction n arbitrary: cursor out st)
  case 0
  then show ?case
    by (auto dest!: stream_events_keep stream_error_keeps split: prod.splits option.splits adapter_error.splits)
next
  case (Suc n)
  obtain w events ending where run: "ad_execute a operation r payload (st_world st) = (w, events, ending)"
    by (cases "ad_execute a operation r payload (st_world st)")
  obtain st1 cursor1 out1 where s: "stream_events a r c now events cursor out (st\<lparr>st_world := w\<rparr>) = (st1, cursor1, out1)"
    by (cases "stream_events a r c now events cursor out (st\<lparr>st_world := w\<rparr>)")
  have "fine st1" using stream_events_keep [OF s] Suc.prems(2) by simp
  then show ?case
    using Suc.prems(1) Suc.IH [of cursor1 out1 st1] stream_error_keeps [of a r c now cursor1 out1 st1]
    by (auto simp: run s split: option.splits adapter_error.splits if_splits)
qed

lemma replay_keeps: "replay a sse r seen st = (st', x) \<Longrightarrow> fine st \<Longrightarrow> fine st'"
  by (auto simp: replay_def Let_def apsnd_def map_prod_def dest: envelopes_keep frames_keep split: if_splits prod.splits)

lemma live_keeps: "live a operation r payload c now seen st = (st', x) \<Longrightarrow> fine st \<Longrightarrow> fine st'"
  by (auto simp: live_def dest: stream_keeps split: prod.splits option.splits)

lemma perform_keeps:
  assumes "perform a h c now invocation st = (st', x)" "fine st"
  shows "fine st'"
proof -
  have keeps: "replay a sse r seen st1 = (st', y) \<Longrightarrow> fine st1 \<longrightarrow> fine st'"
    "live a operation r payload c now seen st1 = (st', y) \<Longrightarrow> fine st1 \<longrightarrow> fine st'"
    "run_cancel a r target c now st1 = (st2, z) \<Longrightarrow> fine st1 \<longrightarrow> fine st2"
    "execute_attempts n a operation r payload c now st1 = (st2, z) \<Longrightarrow> fine st1 \<longrightarrow> fine st2"
    for sse r seen st1 y operation payload target st2 z n
    by (rule impI, (erule (1) replay_keeps | erule (1) live_keeps | erule (1) cancel_keeps | erule (1) execute_keeps))+
  let ?r = "text_of (get_key invocation ''requestId'')"
  obtain window d where check: "check_request (ad_sha a) ?r invocation (st_window st) = (window, d)"
    by (cases "check_request (ad_sha a) ?r invocation (st_window st)")
  then have checked: "fine (st\<lparr>st_window := window\<rparr>)" using check_keeps [OF assms(2) check] by simp
  show ?thesis
  proof (cases "\<exists>disposition seen. d = Inr disposition \<and> last_event_id h = Inr seen")
    case False
    then show ?thesis
      using assms checked by (cases d; cases "last_event_id h") (auto simp: perform_def Let_def check)
  next
    case True
    then obtain disposition seen where d: "d = Inr disposition" "last_event_id h = Inr seen" by blast
    have fine1: "fine (st\<lparr>st_window := window\<rparr>)" using checked .
    consider (again) "disposition = DUPLICATE" | (cancel) "disposition \<noteq> DUPLICATE" "text_of (get_key invocation ''operation'') = ''chat.cancel''"
      | (run) "disposition \<noteq> DUPLICATE" "text_of (get_key invocation ''operation'') \<noteq> ''chat.cancel''" by blast
    then show ?thesis
    proof cases
      case again
      then show ?thesis
        using assms(1) keeps(1) fine1 by (simp add: perform_def Let_def check d)
    next
      case cancel
      then show ?thesis
        using assms(1) fine1
        by (cases "get_key (members_of (get_key invocation ''payload'')) ''requestId''")
          (auto simp: perform_def Let_def check d elim!: then_run_elim dest!: keeps)
    next
      case run
      then show ?thesis
        using assms(1) fine1
        by (auto simp: perform_def Let_def check d elim!: then_run_elim dest!: keeps split: if_splits)
    qed
  qed
qed

theorem invocations_keep:
  assumes "invocations a q now st = (st', x)" "fine st"
  shows "fine st'"
proof -
  obtain st1 c where c: "correlation_of a (rq_headers q ''x-correlation-id'') st = (st1, c)"
    by (cases "correlation_of a (rq_headers q ''x-correlation-id'') st")
  have "fine (fst (trying st1 (read_invocation q) (\<lambda>invocation.
      then_run (admit a (rq_headers q) (text_of (get_key invocation ''bindingToken'')) now st1) (\<lambda>st _.
        perform a (rq_headers q) c now invocation st))))" (is "fine (fst ?run)")
  proof (cases ?run)
    case (Pair s y)
    then show ?thesis
      using correlation_keeps [OF c assms(2)]
      by (auto elim!: then_run_elim trying_elim dest: admit_keeps perform_keeps)
  qed
  then show ?thesis
    using assms(1) by (auto simp: invocations_def c split: prod.splits sum.splits)
qed

abbreviation fine_ws :: "'w conversation \<Rightarrow> bool" where
  "fine_ws c \<equiv> fine (ws_state c)"

lemma send_keeps: "send_event a e c = (c', x) \<Longrightarrow> fine_ws c \<Longrightarrow> fine_ws c'"
  by (auto simp: send_event_def in_state_def in_world_def Let_def split: prod.splits if_splits)

lemma sends_keep: "send_events a es c = (c', x) \<Longrightarrow> fine_ws c \<Longrightarrow> fine_ws c'"
proof (induction es arbitrary: c)
  case (Cons e es)
  show ?case
    using Cons.prems
  proof (simp, elim then_run_elim)
    fix c1 u assume "send_event a e c = (c1, Inr u)" "send_events a es c1 = (c', x)"
    then show ?thesis using Cons.IH Cons.prems(2) send_keeps by blast
  next
    fix err assume "send_event a e c = (c', Inl err)"
    then show ?thesis using Cons.prems(2) send_keeps by blast
  qed
qed simp

lemma ws_error_keeps: "ws_error a code category message k now c = (c', x) \<Longrightarrow> fine_ws c \<Longrightarrow> fine_ws c'"
  unfolding ws_error_def by (elim trying_elim) (auto dest: send_keeps)

lemma hello_keeps: "ws_hello a h envelope now c = (c', x) \<Longrightarrow> fine_ws c \<longrightarrow> fine_ws c'"
  by (auto simp: ws_hello_def in_state_def elim!: then_run_elim dest!: send_keeps admit_keeps split: if_splits json.splits prod.splits)

lemma command_keeps:
  assumes "ws_command a operation r payload k now c = (c', x)" "fine_ws c"
  shows "fine_ws c'"
proof -
  let ?command = "filter (\<lambda>kv. fst kv \<noteq> ''lastEventId'') payload"
  let ?checked = "check_request (ad_sha a) r [(''operation'', JStr operation), (''payload'', JObj ?command), (''requestId'', JStr r)] (st_window (ws_state c))"
  obtain window d where check: "?checked = (window, d)" by (cases ?checked)
  let ?c = "c\<lparr>ws_state := (ws_state c)\<lparr>st_window := window\<rparr>\<rparr>"
  define run where "run = (if d = Inr DUPLICATE then (?c, Inr ())
      else if operation = ''chat.cancel''
      then (case get_key payload ''requestId'' of
          JStr target \<Rightarrow> in_state (run_cancel a r target k now) ?c
        | _ \<Rightarrow> (?c, Inl (ProtocolContractError ''INVALID_MESSAGE'' ''Cancellation request ID is required.'')))
      else in_state (execute_attempts (ad_max_attempts a - 1) a operation r ?command k now) ?c)"
  obtain c1 y where run_eq: "run = (c1, y)" by (cases run)
  have start: "fine_ws ?c" using check_keeps [OF assms(2) check] by simp
  have mid: "fine_ws c1"
  proof -
    have "fine st'" if "run_cancel a r target k now (ws_state ?c) = (st', z)" for st' z target
      using cancel_keeps [OF that start] .
    moreover have "fine st'" if "execute_attempts n a operation r ?command k now (ws_state ?c) = (st', z)" for st' z n
      using execute_keeps [OF that start] .
    ultimately show ?thesis
      using run_eq start unfolding run_def in_state_def
      by (cases "get_key payload ''requestId''") (auto split: if_splits prod.splits)
  qed
  show ?thesis
  proof (cases d)
    case (Inl e)
    then show ?thesis using assms check by (simp add: ws_command_def Let_def)
  next
    case (Inr disposition)
    have "then_run run (\<lambda>c _. case get_default payload ''lastEventId'' (JInt (- 1)) of
        JInt seen \<Rightarrow> send_events a (events_after r seen (st_buffer (ws_state c))) c
      | _ \<Rightarrow> (c, Inl (ProtocolContractError ''INVALID_MESSAGE'' ''Last event ID must be an integer.''))) = (c', x)"
      using assms(1) by (simp add: ws_command_def Let_def check Inr run_def)
    then show ?thesis
      using mid sends_keep by (auto simp: run_eq elim!: then_run_elim split: json.splits)
  qed
qed

lemma ws_frame_keeps:
  assumes "ws_frame a h text now c = (c', x)" "fine_ws c"
  shows "fine_ws c'"
proof -
  have steps: "ws_hello a h envelope now (c\<lparr>ws_sequence := t\<rparr>) = (c', x) \<Longrightarrow> fine_ws c'"
    "ws_command a operation r payload k now (c\<lparr>ws_sequence := t\<rparr>) = (c', x) \<Longrightarrow> fine_ws c'"
    "send_event a e (c\<lparr>ws_sequence := t\<rparr>) = (c', x) \<Longrightarrow> fine_ws c'" for envelope t operation r payload k e
    using hello_keeps [of a h envelope now "c\<lparr>ws_sequence := t\<rparr>" c' x]
      command_keeps [of a operation r payload k now "c\<lparr>ws_sequence := t\<rparr>" c' x] send_keeps [of a e "c\<lparr>ws_sequence := t\<rparr>" c' x]
      assms(2) by auto
  show ?thesis
    using assms unfolding ws_frame_def
    by (elim trying_elim) (auto simp: Let_def dest: steps split: option.splits prod.splits sum.splits if_splits json.splits)
qed

lemma ws_step_keeps:
  assumes "ws_step a h k i c = (c', x)" "fine_ws c"
  shows "fine_ws c'"
proof -
  have complain: "fine_ws c2" if "then_run (ws_error a code category message k now c1) f = (c2, y)" "fine_ws c1"
      "\<And>c3 u c4 z. f c3 u = (c4, z) \<Longrightarrow> fine_ws c3 \<longrightarrow> fine_ws c4" for code category message now c1 c2 y f
    using that ws_error_keeps by (elim then_run_elim) blast+
  obtain input now where i: "i = (input, now)" by (cases i)
  show ?thesis
  proof (cases input)
    case (WsText frame)
    obtain c1 y where f: "ws_frame a h frame now c = (c1, y)" by (cases "ws_frame a h frame now c")
    have fine1: "fine_ws c1" using ws_frame_keeps [OF f assms(2)] .
    show ?thesis
    proof (cases "MAX_WEBSOCKET_FRAME_BYTES < length (utf8_encode frame) \<or> (\<exists>u. y = Inr u)")
      case True
      then show ?thesis
        using assms fine1 by (auto simp: ws_step_def Let_def i WsText f dest: complain split: if_splits)
    next
      case False
      then obtain e where y: "y = Inl e" by (cases y) auto
      show ?thesis
      proof (cases "ws_refusal e")
        case None
        then show ?thesis using assms(1) fine1 False y by (simp add: ws_step_def Let_def i WsText f)
      next
        case (Some refusal)
        obtain code category message close where r: "refusal = (code, category, message, close)" by (cases refusal)
        show ?thesis
          using assms(1) fine1 False y Some
          by (cases close) (auto simp: ws_step_def Let_def i WsText f r dest: complain)
      qed
    qed
  qed (use assms in \<open>auto simp: ws_step_def Let_def i dest: complain\<close>)
qed

lemma ws_loop_keeps: "ws_loop a h k is c = (c', x) \<Longrightarrow> fine_ws c \<Longrightarrow> fine_ws c'"
proof (induction "is" arbitrary: c)
  case (Cons i "is")
  obtain c1 y where s: "ws_step a h k i c = (c1, y)" by (cases "ws_step a h k i c")
  show ?case
    using Cons.prems(1) Cons.IH [of c1] ws_step_keeps [OF s Cons.prems(2)]
    by (auto simp: s split: sum.splits bool.splits)
qed simp

theorem websocket_keeps:
  assumes "websocket a h inputs st = (st', x)" "fine st"
  shows "fine st'"
proof -
  obtain st1 k where c: "correlation_of a (h ''x-correlation-id'') st = (st1, k)" by (cases "correlation_of a (h ''x-correlation-id'') st")
  obtain c' y where l: "ws_loop a h k inputs \<lparr> ws_state = st1, ws_sequence = Map.empty, ws_authorized = False, ws_sent = [] \<rparr> = (c', y)"
    by (cases "ws_loop a h k inputs \<lparr> ws_state = st1, ws_sequence = Map.empty, ws_authorized = False, ws_sent = [] \<rparr>")
  show ?thesis
    using assms(1) ws_loop_keeps [OF l] correlation_keeps [OF c assms(2)] by (auto simp: websocket_def c l)
qed

end

interpretation sequence_numbers: kept_by_append "\<lambda>_. in_order"
  by unfold_locales (rule append_in_order)

text \<open>And what the window holds, it holds for good.\<close>

definition remembers :: "idempotency_window \<Rightarrow> idempotency_window \<Rightarrow> event_buffer \<Rightarrow> bool" where
  "remembers old w b = (old \<subseteq>\<^sub>m w)"

interpretation window: kept_by_append "remembers old"
proof unfold_locales
  show "remembers old w' b" if "remembers old w b" "check_request sha r payload w = (w', x)" for w b sha r payload w' x
    using that by (auto simp: remembers_def check_request_def map_le_def dom_def Let_def split: option.splits if_splits)
qed (simp add: remembers_def)

end
