(* ===== verification/AdapterProperties.thy ===== *)
theory AdapterProperties
  imports AdapterEvents Journal
begin

text \<open>
  The guarantees of the adapter: which binding tokens it takes, that strangers reach nothing and
  repeated requests run nothing, and that a client loses no event.
\<close>

subsection \<open>Binding tokens\<close>

lemma token_claims_issued:
  assumes "kms_documented k" "issue_token k claims = Inr token" "plain_json (JObj claims)"
  obtains claims' where "token_claims k token = Inr claims'"
    "\<And>key. get_key claims' key = sort_json (get_key claims key)"
proof -
  let ?payload = "base64url (json_dumps (JObj claims))"
  from assms(2) obtain sig where sign: "signer_sign k ?payload = Inr sig" and token: "token = ?payload @ ''.'' @ base64url sig"
    by (auto simp: issue_token_def Let_def split: sum.splits)
  obtain claims' where v: "verify_token k token = Inr claims'" "\<And>key. get_key claims' key = sort_json (get_key claims key)"
    by (rule verify_issued [OF assms]) (rule that, assumption, simp)
  have "kms_sign k ?payload = Inr (Some sig)"
    using sign by (auto simp: signer_sign_def split: sum.splits option.splits)
  then have "kms_verify k ?payload sig = Inr True" using assms(1) by (simp add: kms_documented_def)
  moreover have "Option.bind (utf8_decode (json_dumps (JObj claims))) json_loads = Some (sort_json (JObj claims))"
    using assms(3) by (rule load_dumped)
  moreover have "json_loads (json_dumps (JObj claims)) = Some (sort_json (JObj claims))"
    using assms(3) by (rule json_loads_dumps)
  ultimately have "\<exists>c. verify_token k token = Inr c \<and> token_claims k token = Inr c"
    using split_dot_append [OF base64url_no_dot]
    by (simp add: token_claims_def verify_token_def token Let_def aws_verify_def signer_verify_def)
  then show thesis using v that by auto
qed

text \<open>
  (C8) A binding the control plane issued is accepted by the adapter of its audience until it
  expires, for exactly the subjects that hash like its owner, and names the sandbox and the session
  it was issued for; without a forwarded subject it is refused.
\<close>

theorem issued_binding_accepted:
  assumes "kms_documented (bv_kms v)"
    and "issue_binding sha (bv_kms v) (bv_audience v) now nonce i r = Inr (token, expires)"
  shows "verify_binding sha v later token subject =
    (case subject of
       None \<Rightarrow> Inl (BindingVerificationError ''Forwarded Cognito authorization is missing.'')
     | Some s \<Rightarrow>
         if subject_hash sha \<lparr> id_subject = s, id_issuer = bv_issuer v, id_administrator = False \<rparr> = subject_hash sha i \<and>
            epoch later < epoch expires
         then Inr \<lparr> bc_sandbox = sandbox_id r, bc_session = runtime_session_id r, bc_expires = epoch expires \<rparr>
         else Inl binding_mismatch)"
proof -
  let ?claims = "session_claims sha (bv_audience v) now nonce i r ''binding''"
  have issued: "issue_token (bv_kms v) ?claims = Inr token" "expires = now + BINDING_TTL"
    using assms(2) by (auto simp: issue_binding_def split: sum.splits)
  have "plain_json (JObj ?claims)" by (simp add: session_claims_def)
  then obtain claims where read: "token_claims (bv_kms v) token = Inr claims"
    "\<And>key. get_key claims key = sort_json (get_key ?claims key)"
    using token_claims_issued [OF assms(1) issued(1)] by blast
  show ?thesis
    unfolding verify_binding_def expected_subject_def read(1)
    by (auto simp: read(2) session_claims_def issued(2) binding_mismatch_def split: option.split)
qed

subsection \<open>Strangers\<close>

text \<open>The same adapter with other collaborators behind the authorization.\<close>

definition backed_by :: "'w adapter \<Rightarrow> 'w adapter \<Rightarrow> 'w adapter" where
  "backed_by a a' = a\<lparr> ad_lease := ad_lease a', ad_initialize := ad_initialize a', ad_execute := ad_execute a',
     ad_cancel := ad_cancel a', ad_healthy := ad_healthy a' \<rparr>"

lemma backed_simps [simp]:
  "ad_random (backed_by a a') = ad_random a" "ad_verifier (backed_by a a') = ad_verifier a" "ad_sha (backed_by a a') = ad_sha a"
  "ad_date_time (backed_by a a') = ad_date_time a" "ad_max_attempts (backed_by a a') = ad_max_attempts a"
  "ad_execute (backed_by a a') = ad_execute a'" "ad_cancel (backed_by a a') = ad_cancel a'"
  by (simp_all add: backed_by_def)

lemma backed_correlation [simp]: "correlation_of (backed_by a a') = correlation_of a"
  by (intro ext) (simp add: correlation_of_def split: option.split)

lemma backed_envelopes [simp]: "envelopes (backed_by a a') es st = envelopes a es st"
  by (induction es arbitrary: st) simp_all

lemma backed_frames [simp]: "sse_frames (backed_by a a') es st = sse_frames a es st"
  by (simp add: sse_frames_def)

lemma backed_replay [simp]: "replay (backed_by a a') sse r n st = replay a sse r n st"
  by (simp add: replay_def Let_def)

lemma backed_send [simp]: "send_event (backed_by a a') e c = send_event a e c"
  by (simp add: send_event_def)

lemma backed_sends [simp]: "send_events (backed_by a a') es c = send_events a es c"
  by (induction es arbitrary: c) (simp_all add: then_run_def)

lemma backed_ws_error [simp]: "ws_error (backed_by a a') code category message k now c = ws_error a code category message k now c"
  by (simp add: ws_error_def)

text \<open>The caller's headers and token do not get past the verification.\<close>

definition refused_with :: "'w adapter \<Rightarrow> headers \<Rightarrow> string \<Rightarrow> time \<Rightarrow> adapter_error \<Rightarrow> bool" where
  "refused_with a h token now e =
     (if h ''authorization'' = None \<and> bv_accepts_scheduler (ad_verifier a)
      then verify_binding (ad_sha a) (ad_verifier a) now token None = Inl e
      else cognito_subject (h ''authorization'') = Inl e \<or>
        (\<exists>s. cognito_subject (h ''authorization'') = Inr s \<and> verify_binding (ad_sha a) (ad_verifier a) now token (Some s) = Inl e))"

lemma admit_refused: "refused_with a h token now e \<Longrightarrow> admit a h token now st = (st, Inl e)"
  by (auto simp: admit_def authorize_def refused_with_def Let_def split: if_splits)

lemma refused_behind [simp]: "refused_with (backed_by a a') h token now e = refused_with a h token now e"
  by (simp add: refused_with_def)


subsection \<open>Repeated requests\<close>

lemma backed_command:
  assumes "st_window (ws_state c) r \<noteq> None"
  shows "ws_command (backed_by a a') operation r payload k now c = ws_command a operation r payload k now c"
proof -
  obtain digest where seen: "st_window (ws_state c) r = Some digest" using assms by blast
  show ?thesis
    unfolding ws_command_def Let_def check_request_def seen option.case backed_simps
    by (simp add: then_run_def split: json.split)
qed

lemma backed_perform:
  assumes "st_window st (text_of (get_key invocation ''requestId'')) \<noteq> None"
  shows "perform (backed_by a a') h k now invocation st = perform a h k now invocation st"
  using assms by (auto simp: perform_def Let_def check_request_def split: option.splits)

text \<open>
  (C13) A request id the adapter has taken runs nothing a second time: once it is in the window it
  stays there through every route, and from then on the answer to it, over HTTP and over the
  WebSocket, is the same whatever the backend would do.
\<close>

theorem repeated_request_runs_nothing:
  assumes "st_window st r = Some digest"
    and "invocations a q now st = (st', x) \<or> websocket a hs inputs st = (st', y)"
  shows "st_window st' r = Some digest \<and>
    (text_of (get_key invocation ''requestId'') = r \<longrightarrow>
       perform (backed_by a a') h k later invocation st' = perform a h k later invocation st') \<and>
    (ws_state c = st' \<longrightarrow> ws_command (backed_by a a') operation r payload k later c = ws_command a operation r payload k later c)"
proof -
  have "remembers (st_window st) (st_window st) b" for b by (simp add: remembers_def)
  then have "remembers (st_window st) (st_window st') (st_buffer st')"
    using assms(2) window.invocations_keep [where old = "st_window st" and st = st and st' = st']
      window.websocket_keeps [where old = "st_window st" and st = st and st' = st'] by blast
  then have "st_window st' r = Some digest"
    using assms(1) by (auto simp: remembers_def map_le_def dom_def)
  then show ?thesis using backed_perform backed_command by fastforce
qed

subsection \<open>Reconnecting\<close>


subsection \<open>Large payloads\<close>

lemma concat_payload_pieces: "concat (map (\<lambda>i. take l (drop (i * l) p)) [0 ..< k]) = take (k * l) p"
proof (induction k)
  case (Suc k)
  have "take (k * l) p @ take l (drop (k * l) p) = take (Suc k * l) p"
    using take_add [of "k * l" l p] by (simp add: add.commute)
  then show ?case using Suc by simp
qed simp

lemma chunk_parts_concat: "0 < l \<Longrightarrow> concat (chunk_parts p l) = p"
proof -
  assume l: "0 < l"
  have "length p + l - 1 < (length p + l - 1) div l * l + l"
    using l by (metis div_mult_mod_eq mod_less_divisor nat_add_left_cancel_less)
  then have "length p \<le> (length p + l - 1) div l * l" by simp
  then have "concat (map (\<lambda>i. take l (drop (i * l) p)) [0 ..< (length p + l - 1) div l]) = p"
    by (simp add: concat_payload_pieces)
  then show ?thesis by (auto simp: chunk_parts_def Let_def)
qed

lemma chunk_parts_small: "0 < l \<Longrightarrow> x \<in> set (chunk_parts p l) \<Longrightarrow> length x \<le> l"
  by (auto simp: chunk_parts_def Let_def split: if_splits)

text \<open>Chunks go back together, and none exceeds the limit.\<close>

theorem chunks_come_back:
  assumes "0 < limit"
  shows "\<exists>chunks. chunk_payload payload limit = Inr chunks \<and> reassemble_chunks chunks = Inr payload \<and>
    (\<forall>c \<in> set chunks. int (length (fc_data c)) \<le> limit)"
proof -
  let ?parts = "chunk_parts payload (nat limit)"
  let ?chunks = "map (\<lambda>(i, data). \<lparr> fc_index = i, fc_total = length ?parts, fc_data = data \<rparr>) (enumerate 0 ?parts)"
  have data: "map fc_data ?chunks = ?parts"
    by (simp add: comp_def case_prod_beta)
  have ok: "\<not> list_ex (\<lambda>(i, c). fc_total c \<noteq> length ?parts \<or> fc_index c \<noteq> i) (enumerate 0 ?chunks)"
    by (auto simp: list_ex_iff in_set_enumerate_eq nth_enumerate_eq)
  have "?parts \<noteq> []" by (simp add: chunk_parts_def Let_def)
  then obtain first rest where chunks: "?chunks = first # rest" "fc_total first = length ?parts"
    by (cases ?parts) auto
  have len: "length ?chunks = length ?parts" by simp
  have "reassemble_chunks ?chunks = Inr (concat (map fc_data ?chunks))"
    using ok len unfolding reassemble_chunks_def chunks(1) by (simp add: chunks(2))
  then have "reassemble_chunks ?chunks = Inr payload"
    using chunk_parts_concat [of "nat limit" payload] assms unfolding data by simp
  moreover have "chunk_payload payload limit = Inr ?chunks" using assms by (simp add: chunk_payload_def Let_def)
  moreover have "int (length (fc_data c)) \<le> limit" if "c \<in> set ?chunks" for c
  proof -
    have "fc_data c \<in> set (map fc_data ?chunks)" using that unfolding set_map by (rule imageI)
    then show ?thesis using chunk_parts_small [of "nat limit" "fc_data c" payload] assms unfolding data by linarith
  qed
  ultimately show ?thesis by blast
qed

subsection \<open>Errors\<close>

lemma skips_append: "skips p s = Some r \<Longrightarrow> skips p (s @ z) = Some (r @ z)"
proof -
  assume "skips p s = Some r"
  then have found: "str_lower (take (length p) s) = p" "r = drop (length p) s"
    by (auto simp: skips_def split: if_splits)
  have "length (str_lower (take (length p) s)) = length p" by (simp only: found(1))
  then have "length p \<le> length s" by (simp add: str_lower_def)
  then show ?thesis using found by (simp add: skips_def)
qed

lemma skip_white_append: "skip_white s = Some r \<Longrightarrow> r \<noteq> [] \<Longrightarrow> skip_white (s @ z) = Some (r @ z)"
  by (auto simp: skip_white_def dropWhile_append split: list.splits if_splits)

lemma skip_segment_append: "skip_segment s = Some r \<Longrightarrow> r \<noteq> [] \<Longrightarrow> skip_segment (s @ z) = Some (r @ z)"
  by (auto simp: skip_segment_def dropWhile_append split: list.splits if_splits)

lemma skip_segment_more: "skip_segment s \<noteq> None \<Longrightarrow> skip_segment (s @ z) \<noteq> None"
  by (auto simp: skip_segment_def split: list.splits if_splits)

lemma skips_not_empty: "skips p s = Some r \<Longrightarrow> p \<noteq> [] \<Longrightarrow> s \<noteq> []"
  by (auto simp: skips_def str_lower_def split: if_splits)

lemma secret_here_append:
  "bearer_here s \<Longrightarrow> bearer_here (s @ z)" "web_token_here s \<Longrightarrow> web_token_here (s @ z)" "private_key_here s \<Longrightarrow> private_key_here (s @ z)"
proof -
  note more = skips_append [of _ _ _ z] skip_white_append [of _ _ z] skip_segment_append [of _ _ z] skip_segment_more [of _ z]
  show "bearer_here s \<Longrightarrow> bearer_here (s @ z)"
    by (auto simp: bearer_here_def bind_eq_Some_conv more split: option.splits list.splits dest!: more(1) more(2))
  show "web_token_here s \<Longrightarrow> web_token_here (s @ z)"
  proof -
    assume "web_token_here s"
    then obtain a b c d e f where "skips ''eyj'' s = Some a" "skip_segment a = Some b" "skips ''.'' b = Some c"
      "skip_segment c = Some d" "skips ''.'' d = Some e" "skip_segment e = Some f"
      by (auto simp: web_token_here_def bind_eq_Some_conv)
    moreover from this have "b \<noteq> []" "d \<noteq> []" using skips_not_empty by blast+
    ultimately show ?thesis
      using skip_segment_more [of e z] by (simp add: web_token_here_def more)
  qed
  show "private_key_here s \<Longrightarrow> private_key_here (s @ z)"
  proof -
    assume "private_key_here s"
    then obtain a rest where start: "skips ''-----begin'' s = Some a" "skip_white a = Some rest"
      and ends: "skips ''private key-----'' rest \<noteq> None \<or> (\<exists>kind \<in> {''rsa'', ''ec'', ''openssh''}.
        Option.bind (Option.bind (skips kind rest) skip_white) (skips ''private key-----'') \<noteq> None)"
      by (auto simp: private_key_here_def bind_eq_Some_conv split: option.splits)
    have "rest \<noteq> []"
      using ends by (auto simp: bind_eq_Some_conv dest: skips_not_empty)
    then have start': "skips ''-----begin'' (s @ z) = Some (a @ z)" "skip_white (a @ z) = Some (rest @ z)"
      using start by (simp_all add: more)
    have "skips ''private key-----'' (rest @ z) \<noteq> None" if "skips ''private key-----'' rest \<noteq> None"
      using that more(1) by blast
    moreover have "Option.bind (Option.bind (skips kind (rest @ z)) skip_white) (skips ''private key-----'') \<noteq> None"
      if found: "Option.bind (Option.bind (skips kind rest) skip_white) (skips ''private key-----'') \<noteq> None" for kind
    proof -
      obtain x y t where k: "skips kind rest = Some x" "skip_white x = Some y" "skips ''private key-----'' y = Some t"
        using found by (auto simp: bind_eq_Some_conv)
      then have "y \<noteq> []" using skips_not_empty by blast
      then show ?thesis using k by (simp add: more)
    qed
    ultimately show ?thesis using ends start' by (auto simp: private_key_here_def)
  qed
qed

lemma secret_text_take: "secret_text (take n s) \<Longrightarrow> secret_text s"
proof -
  assume "secret_text (take n s)"
  then obtain i where i: "i < length (take n s)" "bearer_here (drop i (take n s)) \<or> web_token_here (drop i (take n s)) \<or> private_key_here (drop i (take n s))"
    by (auto simp: secret_text_def list_ex_iff Let_def)
  have "drop i s = drop i (take n s) @ drop n s"
    using i(1) by (metis append_take_drop_id drop_append length_take less_imp_le_nat diff_is_0_eq drop0)
  then have "bearer_here (drop i s) \<or> web_token_here (drop i s) \<or> private_key_here (drop i s)"
    using i(2) secret_here_append by metis
  moreover have "i \<in> set [0 ..< length s]" using i(1) by simp
  ultimately show ?thesis unfolding secret_text_def list_ex_iff Let_def by blast
qed

text \<open>
  (C39) An error that leaves the adapter fits the contract's schema, and neither its message nor a
  detail holds a bearer credential, a web token or the head of a private key.
\<close>

theorem errors_hide_secrets:
  assumes "sanitize_error v = Inr r"
  shows "error_valid (JObj r) \<and> (\<exists>m. get_key r ''message'' = JStr m \<and> \<not> secret_text m) \<and>
    (\<forall>k t. (k, JStr t) \<in> set (members_of (get_key r ''details'')) \<longrightarrow> k \<in> set SAFE_DETAIL_KEYS \<and> \<not> secret_text t)"
proof -
  let ?details = "filter safe_detail (er_details v)"
  have r: "r = sanitized_fields v" and valid: "validate_schema error_valid (JObj r) = Inr ()"
    using assms by (auto simp: sanitize_error_def split: sum.splits)
  have "\<not> secret_text ''The request could not be completed.''" by code_simp
  then have "\<not> secret_text (safe_message (er_message v))"
    unfolding safe_message_def using secret_text_take [of 512 "er_message v"] by (cases "secret_text (er_message v)") auto
  moreover have "get_key r ''message'' = JStr (safe_message (er_message v))"
    by (simp add: r sanitized_fields_def Let_def)
  moreover have "members_of (get_key r ''details'') = ?details"
    by (simp add: r sanitized_fields_def members_of_def Let_def)
  moreover have "error_valid (JObj r)"
    using valid by (simp add: validate_schema_def split: if_splits)
  moreover have "k \<in> set SAFE_DETAIL_KEYS \<and> \<not> secret_text t" if "(k, JStr t) \<in> set ?details" for k t
    using that by (simp add: safe_detail_def)
  ultimately show ?thesis by metis
qed

subsection \<open>Two weaknesses of the window\<close>

text \<open>
  When every attempt of a new request fails before its first event, the client is told 503,
  retryable; the same request sent again is a duplicate and is answered 200 with no event at all.
\<close>

theorem retryable_request_cannot_be_retried:
  assumes failing: "\<And>operation r payload w. ad_execute a operation r payload w = (w, [], Some (TransientBackendError m))"
    and fresh: "st_window st (text_of (get_key invocation ''requestId'')) = None"
      "all_events (text_of (get_key invocation ''requestId'')) (st_buffer st) = []"
    and plain: "text_of (get_key invocation ''operation'') \<noteq> ''chat.cancel''" "\<not> accepts_sse h" "h ''last-event-id'' = None"
  obtains st1 where "perform a h k now invocation st = (st1, Inl backend_unavailable)"
    "perform a h k' later invocation st1 = (st1, Inr (JsonAnswer 200 (JObj [(''events'', JList [])])))"
proof -
  have minus: "last_event_id h = Inr (- 1)"
  proof -
    have "py_int ''-1'' = Some (- 1)" by code_simp
    then show ?thesis by (simp add: last_event_id_def plain(3) Let_def)
  qed
  have run: "execute_attempts n a operation r payload c t s = (s, Inl backend_unavailable)" for n operation r payload c t s
    by (induction n) (simp_all add: failing appended_def)
  let ?r = "text_of (get_key invocation ''requestId'')"
  define st1 where "st1 = st\<lparr>st_window := (st_window st)(?r \<mapsto> ad_sha a (json_dumps (JObj invocation)))\<rparr>"
  have "perform a h k now invocation st = (st1, Inl backend_unavailable)"
    using plain by (simp add: perform_def Let_def check_request_def fresh minus run st1_def)
  moreover have "perform a h k' later invocation st1 = (st1, Inr (JsonAnswer 200 (JObj [(''events'', JList [])])))"
    using plain(2) fresh(2) by (simp add: perform_def Let_def check_request_def minus st1_def replay_def events_after_def)
  ultimately show thesis by (rule that)
qed

subsection \<open>The witnesses\<close>

definition sample_adapter :: "nat adapter" where
  "sample_adapter = \<lparr> ad_sha = id, ad_date_time = (\<lambda>_. True),
     ad_verifier = \<lparr> bv_kms = sample_kms, bv_audience = ''kirocrew'', bv_issuer = ''https://issuer'', bv_accepts_scheduler = False \<rparr>,
     ad_max_attempts = 3, ad_random = (\<lambda>w. (w + 1, w)), ad_lease = (\<lambda>_ _ _ _ w. (w, Inr ())),
     ad_initialize = (\<lambda>_ _ _ w. (w, Inr ())), ad_healthy = (\<lambda>_. True), ad_initializing = (\<lambda>_. False),
     ad_execute = (\<lambda>operation r payload w.
       (w, [(''request.accepted'', [(''operation'', JStr operation)]), (''request.completed'', [])], None)),
     ad_cancel = (\<lambda>_ w. (w, Inr True)), ad_busy = None \<rparr>"

definition sample_owner :: identity where
  "sample_owner = \<lparr> id_subject = ''alice'', id_issuer = ''https://issuer'', id_administrator = False \<rparr>"

theorem issued_binding_accepted_witness:
  "\<exists>token expires. issue_binding id sample_kms ''kirocrew'' 0 ''nonce'' sample_owner sample_record = Inr (token, expires) \<and>
     verify_binding id (ad_verifier sample_adapter) (minutes 29) token (Some ''alice'') =
       Inr \<lparr> bc_sandbox = sandbox_id sample_record, bc_session = runtime_session_id sample_record, bc_expires = 1800 \<rparr> \<and>
     verify_binding id (ad_verifier sample_adapter) (minutes 29) token (Some ''bob'') = Inl binding_mismatch"
proof -
  have doc: "kms_documented (bv_kms (ad_verifier sample_adapter))"
    using sample_kms_documented by (simp add: sample_adapter_def)
  obtain token where t: "issue_binding id (bv_kms (ad_verifier sample_adapter)) (bv_audience (ad_verifier sample_adapter)) 0
      ''nonce'' sample_owner sample_record = Inr (token, minutes 30)"
    by (simp add: sample_adapter_def issue_binding_def issue_token_def sample_kms_def signer_sign_def Let_def BINDING_TTL_def)
  show ?thesis
    using issued_binding_accepted [OF doc t, of "minutes 29" "Some ''alice''"]
      issued_binding_accepted [OF doc t, of "minutes 29" "Some ''bob''"] t
    by (simp add: sample_adapter_def sample_owner_def subject_hash_def epoch_def minutes_def seconds_def)
qed

definition sample_state :: "nat adapter_state" where
  "sample_state = \<lparr> st_window = [''01ARZ3NDEKTSV4RRFFQ69G5FAV'' \<mapsto> ''digest''],
     st_buffer = \<lparr> eb_events = Map.empty, eb_next = Map.empty, eb_max = 512 \<rparr>, st_world = 7 \<rparr>"

definition sample_invocation :: "(string \<times> json) list" where
  "sample_invocation = [(''version'', JStr PROTOCOL_VERSION), (''requestId'', JStr ''01ARZ3NDEKTSV4RRFFQ69G5FAV''),
     (''bindingToken'', JStr (replicate 40 (CHR ''t''))), (''operation'', JStr ''chat.submit''), (''payload'', JObj [])]"

definition sample_call :: request where
  "sample_call = \<lparr> rq_headers = Map.empty, rq_body = json_dumps (JObj sample_invocation) \<rparr>"

lemma sample_call_reads: "\<exists>v. read_invocation sample_call = Inr v"
proof -
  have plain: "plain_json (JObj sample_invocation)" by (simp add: sample_invocation_def)
  have short: "length (json_dumps (JObj sample_invocation)) < 1000" by code_simp
  have valid: "invocation_valid (sort_json (JObj sample_invocation))" by code_simp
  show ?thesis
    using load_dumped [OF plain] short valid
    by (simp add: read_invocation_def sample_call_def MAX_REQUEST_BYTES_def validate_schema_def)
qed


theorem repeated_request_runs_nothing_witness:
  "st_window (fst (invocations sample_adapter sample_call 0 sample_state)) ''01ARZ3NDEKTSV4RRFFQ69G5FAV'' = Some ''digest''"
proof -
  obtain st' x where run: "invocations sample_adapter sample_call 0 sample_state = (st', x)"
    by (cases "invocations sample_adapter sample_call 0 sample_state")
  have "st_window sample_state ''01ARZ3NDEKTSV4RRFFQ69G5FAV'' = Some ''digest''" by (simp add: sample_state_def)
  from repeated_request_runs_nothing [OF this disjI1 [OF run]] show ?thesis by (simp add: run)
qed


theorem chunks_come_back_witness:
  "\<exists>chunks. chunk_payload ''abcdefg'' 3 = Inr chunks \<and> reassemble_chunks chunks = Inr ''abcdefg'' \<and> length chunks = 3"
proof -
  have "chunk_payload ''abcdefg'' 3 = Inr [\<lparr> fc_index = 0, fc_total = 3, fc_data = ''abc'' \<rparr>,
      \<lparr> fc_index = 1, fc_total = 3, fc_data = ''def'' \<rparr>, \<lparr> fc_index = 2, fc_total = 3, fc_data = ''g'' \<rparr>]" by code_simp
  then show ?thesis using chunks_come_back [of 3 "''abcdefg''"] by auto
qed

definition sample_error :: error_value where
  "sample_error = \<lparr> er_code = ''THROTTLED'', er_category = ''LIFECYCLE'', er_message = ''sent Bearer abc'', er_retryable = True,
     er_correlation = ''01ARZ3NDEKTSV4RRFFQ69G5FAV'', er_details = [(''state'', JStr ''READY''), (''token'', JStr ''x'')] \<rparr>"

theorem errors_hide_secrets_witness:
  "\<exists>r m. sanitize_error sample_error = Inr r \<and> get_key r ''message'' = JStr m \<and> \<not> secret_text m \<and> secret_text (er_message sample_error)"
proof -
  have secret: "safe_message ''sent Bearer abc'' = ''The request could not be completed.''" by code_simp
  have details: "filter safe_detail [(''state'', JStr ''READY''), (''token'', JStr ''x'')] = [(''state'', JStr ''READY'')]" by code_simp
  have fields: "sanitized_fields sample_error = [(''code'', JStr ''THROTTLED''), (''category'', JStr ''LIFECYCLE''),
      (''message'', JStr ''The request could not be completed.''), (''retryable'', JBool True),
      (''correlationId'', JStr ''01ARZ3NDEKTSV4RRFFQ69G5FAV''), (''details'', JObj [(''state'', JStr ''READY'')])]"
    by (simp add: sanitized_fields_def sample_error_def secret details ERROR_CODES_def ERROR_CATEGORIES_def Let_def del: filter.simps)
  have "error_valid (JObj (sanitized_fields sample_error))" unfolding fields by code_simp
  then have run: "sanitize_error sample_error = Inr (sanitized_fields sample_error)"
    by (simp add: sanitize_error_def validate_schema_def)
  have "secret_text (er_message sample_error)" by code_simp
  then show ?thesis using errors_hide_secrets [OF run] run by blast
qed

end
