(* ===== verification/Loopback.thy ===== *)
theory Loopback
  imports Protocol "HOL-Library.AList"
begin

text \<open>
  \<open>adapter/loopback.py\<close>: the tunnel from the adapter to the gateway in the container.  The HTTP
  session is a record of calls over a world; a response is its status, its headers, the chunks of
  its body and the failure that ends them, a socket the messages it receives.  Everything the
  generator yields is a list, followed by how it ends; \<open>response.json()\<close> is a parameter.  The handlers
  run one at a time, so that a cancellation finds no stream to stop.
\<close>

subsection \<open>The route policy\<close>

datatype disposition = ALLOWED | SYNTHETIC | UNAVAILABLE | DENIED

record route_rule =
  rr_methods :: "string list"
  rr_path :: string
  rr_prefix :: bool

definition rule_matches :: "route_rule \<Rightarrow> string \<Rightarrow> string \<Rightarrow> bool" where
  "rule_matches rule method path =
     (method \<in> set (rr_methods rule) \<and> (path = rr_path rule \<or> rr_prefix rule \<and> starts_with path (rr_path rule @ ''/'')))"

definition SYNTHETIC_RULES :: "route_rule list" where
  "SYNTHETIC_RULES =
     [\<lparr> rr_methods = [''GET''], rr_path = ''/api/auth/status'', rr_prefix = False \<rparr>,
      \<lparr> rr_methods = [''GET''], rr_path = ''/api/auth/local-token'', rr_prefix = False \<rparr>,
      \<lparr> rr_methods = [''POST''], rr_path = ''/api/auth/refresh'', rr_prefix = False \<rparr>,
      \<lparr> rr_methods = [''POST''], rr_path = ''/api/auth/logout'', rr_prefix = False \<rparr>]"

definition UNAVAILABLE_PREFIXES :: "string list" where
  "UNAVAILABLE_PREFIXES = [''/api/desktop'', ''/api/files/pick'']"

definition DENIED_PREFIXES :: "string list" where
  "DENIED_PREFIXES = [''/api/token'', ''/api/auth/token'', ''/api/secrets'', ''/api/config/export'', ''/api/shutdown'',
     ''/api/restart'', ''/api/update'', ''/api/debug'', ''/api/kas-bundle/install'']"

definition under_any :: "string list \<Rightarrow> string \<Rightarrow> bool" where
  "under_any prefixes path = list_ex (\<lambda>p. path = p \<or> starts_with path (p @ ''/'')) prefixes"

fun has_double_slash :: "string \<Rightarrow> bool" where
  "has_double_slash (a # b # s) = (a = CHR ''/'' \<and> b = CHR ''/'' \<or> has_double_slash (b # s))"
| "has_double_slash _ = False"

definition classify :: "string \<Rightarrow> string \<Rightarrow> (adapter_error, disposition) result" where
  "classify method path_with_query =
     (case urlsplit path_with_query of
        None \<Rightarrow> Inl (Uncaught (Crash (ValueCrash ''Invalid IPv6 URL'')))
      | Some parsed \<Rightarrow>
          let path = url_path parsed in
          if url_scheme parsed \<noteq> [] \<or> url_netloc parsed \<noteq> [] \<or> url_fragment parsed \<noteq> [] \<or>
             \<not> starts_with path ''/api/'' \<or> has_double_slash path \<or>
             list_ex (\<lambda>part. part \<in> {''.'', ''..''}) (split_on (CHR ''/'') path)
          then Inr DENIED
          else if under_any DENIED_PREFIXES path then Inr DENIED
          else if under_any UNAVAILABLE_PREFIXES path then Inr UNAVAILABLE
          else if list_ex (\<lambda>rule. rule_matches rule (str_upper method) path) SYNTHETIC_RULES then Inr SYNTHETIC
          else Inr ALLOWED)"

subsection \<open>Requests\<close>

definition SAFE_REQUEST_HEADERS :: "string list" where
  "SAFE_REQUEST_HEADERS = [''accept'', ''content-type'', ''if-match'', ''if-none-match'', ''range'']"

definition SAFE_RESPONSE_HEADERS :: "string list" where
  "SAFE_RESPONSE_HEADERS = [''cache-control'', ''content-range'', ''content-type'', ''etag'', ''last-modified'']"

definition MAX_LOOPBACK_BODY_BYTES :: nat where
  "MAX_LOOPBACK_BODY_BYTES = 1024 * 1024"

definition MAX_LOOPBACK_RESPONSE_BYTES :: nat where
  "MAX_LOOPBACK_RESPONSE_BYTES = 8 * 1024 * 1024"

definition MAX_LOOPBACK_ERROR_BODY_BYTES :: nat where
  "MAX_LOOPBACK_ERROR_BODY_BYTES = 64 * 1024"

definition invalid_loopback :: adapter_error where
  "invalid_loopback = AdapterRequestError 400 ''INVALID_MESSAGE'' ''TRANSPORT'' ''The loopback request is invalid.'' False"

record loopback_request =
  lr_method :: string
  lr_path :: string
  lr_transport :: string
  lr_headers :: "(string \<times> string) list"
  lr_body :: string
  lr_frames :: "string list"

definition keep_safe :: "string list \<Rightarrow> (string \<times> string) list \<Rightarrow> (string \<times> string) list" where
  "keep_safe safe headers =
     fold (\<lambda>(k, v) kept. if str_lower k \<in> set safe then AList.update (str_lower k) v kept else kept) headers []"

definition all_texts :: "(string \<times> json) list \<Rightarrow> (string \<times> string) list option" where
  "all_texts kvs = those (map (\<lambda>(k, v). map_option (Pair k) (as_str v)) kvs)"

definition decode_body :: "json \<Rightarrow> string \<Rightarrow> string option" where
  "decode_body encoding body =
     (if encoding = JStr ''base64'' then unbase64 body
      else if encoding = JStr ''utf8'' then Some (utf8_encode body)
      else None)"

definition from_payload :: "(string \<times> json) list \<Rightarrow> (adapter_error, loopback_request) result" where
  "from_payload payload =
     (case (get_default payload ''method'' (JStr ''GET''), get_key payload ''path'', get_default payload ''transport'' (JStr ''http''),
            get_default payload ''headers'' (JObj []), get_default payload ''body'' (JStr []), get_default payload ''frames'' (JList [])) of
        (JStr method, JStr path, JStr transport, JObj headers, JStr body, JList frames) \<Rightarrow>
          if transport \<notin> {''http'', ''sse'', ''websocket''} then Inl invalid_loopback
          else (case (all_texts headers, those (map as_str frames)) of
              (Some texts, Some frames) \<Rightarrow>
                (case decode_body (get_default payload ''bodyEncoding'' (JStr ''utf8'')) body of
                   None \<Rightarrow> Inl invalid_loopback
                 | Some bytes \<Rightarrow>
                     if MAX_LOOPBACK_BODY_BYTES < length bytes
                     then Inl (AdapterRequestError 413 ''FRAME_TOO_LARGE'' ''TRANSPORT'' ''Loopback request body is too large.'' False)
                     else Inr \<lparr> lr_method = str_upper method, lr_path = path, lr_transport = transport,
                       lr_headers = keep_safe SAFE_REQUEST_HEADERS texts, lr_body = bytes, lr_frames = frames \<rparr>)
            | _ \<Rightarrow> Inl invalid_loopback)
      | _ \<Rightarrow> Inl invalid_loopback)"

subsection \<open>The session\<close>

text \<open>
  \<open>Unreachable\<close> stands for the exceptions \<open>execute\<close> turns into a transient failure.
\<close>

datatype session_failure = Unreachable | SessionRaises adapter_error

record http_response =
  hr_status :: int
  hr_headers :: "(string \<times> string) list"
  hr_chunks :: "string list"
  hr_failure :: "session_failure option"

datatype ws_message = TextMessage string | BinaryMessage string | CloseMessage | OtherMessage

datatype tunnel_frame = TextFrame string | BytesFrame string

record 'w loopback_env =
  le_token :: "'w \<Rightarrow> 'w \<times> (adapter_error, string) result"
  le_request :: "string \<Rightarrow> string \<Rightarrow> (string \<times> string) list \<Rightarrow> string option \<Rightarrow> bool \<Rightarrow> 'w \<Rightarrow> 'w \<times> (session_failure, http_response) result"
  le_connect :: "string \<Rightarrow> (string \<times> string) list \<Rightarrow> string \<Rightarrow> 'w \<Rightarrow> 'w \<times> (session_failure, ws_message list \<times> session_failure option) result"
  le_send :: "string \<Rightarrow> tunnel_frame \<Rightarrow> 'w \<Rightarrow> 'w \<times> (session_failure, unit) result"
  le_close :: "string \<Rightarrow> 'w \<Rightarrow> 'w \<times> (session_failure, unit) result"
  le_closed :: "string \<Rightarrow> 'w \<Rightarrow> bool"
  le_json :: "http_response \<Rightarrow> (session_failure, json) result"

record 'w loopback =
  lb_tunnels :: "string list"
  lb_world :: 'w

definition transient_status :: adapter_error where
  "transient_status = TransientBackendError ''Loopback KiroCrew returned a transient status.''"

definition unavailable_now :: adapter_error where
  "unavailable_now = TransientBackendError ''Loopback KiroCrew is temporarily unavailable.''"

definition as_raised :: "session_failure \<Rightarrow> adapter_error" where
  "as_raised f = (case f of Unreachable \<Rightarrow> unavailable_now | SessionRaises e \<Rightarrow> e)"

subsection \<open>Answers\<close>

type_synonym tunnel_event = "string \<times> (string \<times> json) list"

definition accepted_event :: "string \<Rightarrow> (string \<times> string) list \<Rightarrow> int \<Rightarrow> string \<Rightarrow> tunnel_event" where
  "accepted_event content_type headers status transport =
     (''request.accepted'', [(''contentType'', JStr content_type), (''headers'', JObj (map (\<lambda>(k, v). (k, JStr v)) headers)),
       (''status'', JInt status), (''transport'', JStr transport)])"

definition delta_event :: "string \<Rightarrow> string \<Rightarrow> tunnel_event" where
  "delta_event transport bytes =
     (''output.delta'', [(''data'', JStr (base64 bytes)), (''encoding'', JStr ''base64''), (''transport'', JStr transport)])"

definition completed_event :: "int \<Rightarrow> tunnel_event" where
  "completed_event status = (''request.completed'', [(''status'', JInt status)])"

definition synthetic_body :: "string \<Rightarrow> (string \<times> json) list" where
  "synthetic_body path =
     (if path = ''/api/auth/logout'' then [(''disconnected'', JBool True), (''remoteSession'', JBool True)]
      else [(''authenticated'', JBool True), (''mode'', JStr ''agentcore''), (''remoteSession'', JBool True), (''token'', JNull)])"

definition synthetic_response :: "string \<Rightarrow> tunnel_event list" where
  "synthetic_response path =
     [accepted_event ''application/json'' [(''content-type'', ''application/json'')] 200 ''http'',
      delta_event ''http'' (print_json (JObj (synthetic_body path))), completed_event 200]"

definition buffered_response :: "string \<Rightarrow> int \<Rightarrow> string \<Rightarrow> tunnel_event list" where
  "buffered_response transport status body =
     [accepted_event ''application/json'' [(''content-type'', ''application/json'')] status transport] @
     (if body = [] then [] else [delta_event transport body]) @ [completed_event status]"

definition agents_prefix :: string where
  "agents_prefix = ''/api/agents/''"

definition template_model_pin :: "loopback_request \<Rightarrow> (adapter_error, string option) result" where
  "template_model_pin q =
     (if lr_method q \<noteq> ''PUT'' \<or> lr_transport q \<noteq> ''http'' then Inr None
      else case urlsplit (lr_path q) of
          None \<Rightarrow> Inl (Uncaught (Crash (ValueCrash ''Invalid IPv6 URL'')))
        | Some parsed \<Rightarrow>
            let path = url_path parsed in
            if \<not> starts_with path agents_prefix \<or> CHR ''/'' \<in> set (drop (length agents_prefix) path) \<or> path = agents_prefix
            then Inr None
            else (case Option.bind (utf8_decode (lr_body q)) json_loads of
                Some (JObj [(k, JStr model)]) \<Rightarrow> Inr (if k = ''model'' then Some model else None)
              | _ \<Rightarrow> Inr None))"

text \<open>\<open>unquote\<close>; what does not decode becomes a replacement character, and equals no text here.\<close>

definition pinned_agent :: "string \<Rightarrow> string option" where
  "pinned_agent path =
     (case urlsplit path of
        None \<Rightarrow> None
      | Some parsed \<Rightarrow> utf8_decode (unquote_bytes (utf8_encode (drop (length agents_prefix) (url_path parsed)))))"

definition is_agent_not_found :: "string \<Rightarrow> string option \<Rightarrow> bool" where
  "is_agent_not_found body agent =
     (case Option.bind (utf8_decode body) json_loads of
        Some (JObj v) \<Rightarrow>
          get_key v ''code'' = JStr ''agent_not_found'' \<or>
          ''code'' \<notin> set (map fst v) \<and>
          (case agent of None \<Rightarrow> False
           | Some a \<Rightarrow> get_key v ''error'' = JStr (''Agent '' @ [CHR 0x27] @ a @ [CHR 0x27] @ '' not found''))
      | _ \<Rightarrow> False)"

definition is_application_response :: "string \<Rightarrow> bool" where
  "is_application_response body =
     (body \<noteq> [] \<and> (case Option.bind (utf8_decode body) json_loads of
        Some (JObj v) \<Rightarrow> as_str (get_key v ''code'') \<noteq> None
      | _ \<Rightarrow> False))"

text \<open>\<open>_read_bounded_body\<close>: the chunks up to the one that passes the limit.\<close>

fun bounded_body :: "string \<Rightarrow> string list \<Rightarrow> session_failure option \<Rightarrow> (session_failure, string) result" where
  "bounded_body got [] failure = (case failure of None \<Rightarrow> Inr got | Some f \<Rightarrow> Inl f)"
| "bounded_body got (chunk # chunks) failure =
     (if MAX_LOOPBACK_ERROR_BODY_BYTES < length (got @ chunk) then Inr (got @ chunk)
      else bounded_body (got @ chunk) chunks failure)"

text \<open>The body streamed in chunks, with the bytes counted.\<close>

fun stream_body :: "string \<Rightarrow> nat \<Rightarrow> string list \<Rightarrow> session_failure option \<Rightarrow> tunnel_event list \<times> adapter_error option" where
  "stream_body transport seen [] failure = ([], map_option as_raised failure)"
| "stream_body transport seen (chunk # chunks) failure =
     (if MAX_LOOPBACK_RESPONSE_BYTES < seen + length chunk
      then ([], Some (AdapterRequestError 413 ''FRAME_TOO_LARGE'' ''TRANSPORT'' ''Loopback response body is too large.'' False))
      else apfst (Cons (delta_event transport chunk)) (stream_body transport (seen + length chunk) chunks failure))"

definition header_value :: "(string \<times> string) list \<Rightarrow> string \<Rightarrow> string \<Rightarrow> string" where
  "header_value headers name fallback =
     (case filter (\<lambda>kv. str_lower (fst kv) = name) headers of [] \<Rightarrow> fallback | kv # _ \<Rightarrow> snd kv)"

definition response_head :: "string \<Rightarrow> http_response \<Rightarrow> tunnel_event" where
  "response_head transport r =
     accepted_event (header_value (hr_headers r) ''content-type'' ''application/octet-stream'')
       (keep_safe SAFE_RESPONSE_HEADERS (hr_headers r)) (hr_status r) transport"

text \<open>What follows once the response to pass on is known.\<close>

definition deliver :: "string \<Rightarrow> http_response \<Rightarrow> tunnel_event list \<times> adapter_error option" where
  "deliver transport r =
     (if hr_status r = 503
      then (case bounded_body [] (hr_chunks r) (hr_failure r) of
          Inl f \<Rightarrow> ([], Some (as_raised f))
        | Inr body \<Rightarrow>
            if \<not> is_application_response body then ([], Some transient_status)
            else ([response_head transport r, delta_event transport body, completed_event (hr_status r)], None))
      else (case stream_body transport 0 (hr_chunks r) (hr_failure r) of
          (deltas, Some e) \<Rightarrow> (response_head transport r # deltas, Some e)
        | (deltas, None) \<Rightarrow> (response_head transport r # deltas @ [completed_event (hr_status r)], None)))"

definition LOOPBACK_ORIGIN :: string where
  "LOOPBACK_ORIGIN = ''http://127.0.0.1:5476''"

definition pin_patch :: "string \<Rightarrow> string" where
  "pin_patch model = ''{'' @ json_quote ''path'' @ '': '' @ json_quote ''agent.model'' @ '', '' @ json_quote ''value'' @ '': '' @
     json_quote model @ ''}''"

definition fallback_headers :: "(string \<times> string) list \<Rightarrow> (string \<times> string) list" where
  "fallback_headers headers =
     AList.update ''content-type'' ''application/json'' (filter (\<lambda>kv. fst kv \<noteq> ''content-length'') headers)"

definition loopback_http :: "'w loopback_env \<Rightarrow> loopback_request \<Rightarrow> (string \<times> string) list \<Rightarrow> 'w
    \<Rightarrow> 'w \<times> tunnel_event list \<times> adapter_error option" where
  "loopback_http en q headers w =
     (case le_request en (lr_method q) (LOOPBACK_ORIGIN @ lr_path q) headers (if lr_body q = [] then None else Some (lr_body q))
             (lr_transport q = ''sse'') w of
        (w, Inl f) \<Rightarrow> (w, [], Some (as_raised f))
      | (w, Inr r) \<Rightarrow>
          if hr_status r \<in> {502, 504} then (w, [], Some transient_status)
          else (case template_model_pin q of
              Inl e \<Rightarrow> (w, [], Some e)
            | Inr None \<Rightarrow> (w, deliver (lr_transport q) r)
            | Inr (Some model) \<Rightarrow>
                if hr_status r \<noteq> 404 then (w, deliver (lr_transport q) r)
                else (case bounded_body [] (hr_chunks r) (hr_failure r) of
                    Inl f \<Rightarrow> (w, [], Some (as_raised f))
                  | Inr body \<Rightarrow>
                      if \<not> is_agent_not_found body (pinned_agent (lr_path q))
                      then (w, buffered_response (lr_transport q) 404 body, None)
                      else (case le_request en ''PATCH'' (LOOPBACK_ORIGIN @ ''/api/config/kirocrew'') (fallback_headers headers)
                              (Some (pin_patch model)) False w of
                          (w, Inl f) \<Rightarrow> (w, [], Some (as_raised f))
                        | (w, Inr r) \<Rightarrow>
                            if hr_status r \<in> {502, 504} then (w, [], Some transient_status)
                            else (w, deliver (lr_transport q) r)))))"

subsection \<open>Tunnels\<close>

definition MAX_TUNNEL_BATCH_FRAMES :: nat where
  "MAX_TUNNEL_BATCH_FRAMES = 256"

definition decode_frame :: "json \<Rightarrow> json \<Rightarrow> (adapter_error, tunnel_frame) result" where
  "decode_frame data encoding =
     (case data of
        JStr text \<Rightarrow>
          if encoding = JStr ''utf8'' then Inr (TextFrame text)
          else if encoding = JStr ''base64''
          then (case unbase64 text of None \<Rightarrow> Inl invalid_loopback | Some bytes \<Rightarrow> Inr (BytesFrame bytes))
          else Inl invalid_loopback
      | _ \<Rightarrow> Inl invalid_loopback)"

definition data_length :: "json \<Rightarrow> nat" where
  "data_length data = (case data of JStr text \<Rightarrow> length text | _ \<Rightarrow> 0)"

fun decode_frames :: "nat \<Rightarrow> json list \<Rightarrow> (adapter_error, tunnel_frame list) result" where
  "decode_frames seen [] = Inr []"
| "decode_frames seen (item # items) =
     (case item of
        JObj v \<Rightarrow>
          let seen = seen + data_length (get_key v ''data'') in
          if MAX_LOOPBACK_BODY_BYTES < seen then Inl invalid_loopback
          else (case decode_frame (get_key v ''data'') (get_default v ''encoding'' (JStr ''utf8'')) of
              Inl e \<Rightarrow> Inl e
            | Inr frame \<Rightarrow> map_sum id (Cons frame) (decode_frames seen items))
      | _ \<Rightarrow> Inl invalid_loopback)"

definition tunnel_frames :: "(string \<times> json) list \<Rightarrow> (adapter_error, tunnel_frame list) result" where
  "tunnel_frames payload =
     (case get_key payload ''frames'' of
        JNull \<Rightarrow>
          decode_frames 0 [JObj [(''data'', get_key payload ''data''), (''encoding'', get_default payload ''encoding'' (JStr ''utf8''))]]
      | JList items \<Rightarrow>
          if items \<noteq> [] \<and> length items \<le> MAX_TUNNEL_BATCH_FRAMES then decode_frames 0 items else Inl invalid_loopback
      | _ \<Rightarrow> Inl invalid_loopback)"

fun send_frames :: "'w loopback_env \<Rightarrow> string \<Rightarrow> tunnel_frame list \<Rightarrow> 'w \<Rightarrow> 'w \<times> (session_failure, unit) result" where
  "send_frames en tunnel [] w = (w, Inr ())"
| "send_frames en tunnel (f # fs) w =
     (case le_send en tunnel f w of (w, Inl e) \<Rightarrow> (w, Inl e) | (w, Inr _) \<Rightarrow> send_frames en tunnel fs w)"

definition tunnel_send :: "'w loopback_env \<Rightarrow> (string \<times> json) list \<Rightarrow> 'w loopback \<Rightarrow> 'w loopback \<times> (adapter_error, unit) result" where
  "tunnel_send en payload s =
     (case get_key payload ''tunnelId'' of
        JStr tunnel \<Rightarrow>
          (case tunnel_frames payload of
             Inl e \<Rightarrow> (s, Inl e)
           | Inr frames \<Rightarrow>
               if tunnel \<notin> set (lb_tunnels s) \<or> le_closed en tunnel (lb_world s)
               then (s, Inl (AdapterRequestError 409 ''INVALID_MESSAGE'' ''TRANSPORT'' ''The WebSocket tunnel is not open.'' False))
               else (case send_frames en tunnel frames (lb_world s) of
                   (w, r) \<Rightarrow> (s\<lparr>lb_world := w\<rparr>,
                     map_sum (\<lambda>f. case f of Unreachable \<Rightarrow> Uncaught (OSError ''connection'') | SessionRaises e \<Rightarrow> e) id r)))
      | _ \<Rightarrow> (s, Inl invalid_loopback))"

definition tunnel_close :: "'w loopback_env \<Rightarrow> (string \<times> json) list \<Rightarrow> 'w loopback \<Rightarrow> 'w loopback \<times> (adapter_error, bool) result" where
  "tunnel_close en payload s =
     (case get_key payload ''tunnelId'' of
        JStr tunnel \<Rightarrow>
          if tunnel \<in> set (lb_tunnels s)
          then (case le_close en tunnel (lb_world s) of
              (w, r) \<Rightarrow> (s\<lparr> lb_world := w, lb_tunnels := removeAll tunnel (lb_tunnels s) \<rparr>,
                map_sum (\<lambda>f. case f of Unreachable \<Rightarrow> Uncaught (OSError ''connection'') | SessionRaises e \<Rightarrow> e) (\<lambda>_. True) r))
          else (s, Inr False)
      | _ \<Rightarrow> (s, Inr False))"

text \<open>The messages of a socket, up to the one that closes it.\<close>

fun ws_messages :: "ws_message list \<Rightarrow> session_failure option \<Rightarrow> tunnel_event list \<times> session_failure option" where
  "ws_messages [] failure = ([], failure)"
| "ws_messages (TextMessage t # ms) failure =
     apfst (Cons (''output.delta'', [(''data'', JStr t), (''encoding'', JStr ''utf8''), (''transport'', JStr ''websocket'')]))
       (ws_messages ms failure)"
| "ws_messages (BinaryMessage b # ms) failure = apfst (Cons (delta_event ''websocket'' b)) (ws_messages ms failure)"
| "ws_messages (CloseMessage # ms) failure = ([], None)"
| "ws_messages (OtherMessage # ms) failure = ws_messages ms failure"

definition loopback_websocket :: "'w loopback_env \<Rightarrow> string \<Rightarrow> loopback_request \<Rightarrow> (string \<times> string) list \<Rightarrow> 'w loopback
    \<Rightarrow> 'w loopback \<times> tunnel_event list \<times> adapter_error option" where
  "loopback_websocket en r q headers s =
     (case le_connect en (''ws://127.0.0.1:5476'' @ lr_path q) headers r (lb_world s) of
        (w, Inl f) \<Rightarrow> (s\<lparr>lb_world := w\<rparr>, [], Some (as_raised f))
      | (w, Inr (messages, failure)) \<Rightarrow>
          let opening = (''request.accepted'', [(''status'', JInt 101), (''transport'', JStr ''websocket'')]);
              closed = (\<lambda>w. s\<lparr> lb_world := fst (le_close en r w), lb_tunnels := removeAll r (lb_tunnels s) \<rparr>) in
          (case send_frames en r (map TextFrame (lr_frames q)) w of
             (w, Inl f) \<Rightarrow> (closed w, [opening], Some (as_raised f))
           | (w, Inr _) \<Rightarrow>
               (case ws_messages messages failure of
                  (events, Some f) \<Rightarrow> (closed w, opening # events, Some (as_raised f))
                | (events, None) \<Rightarrow> (closed w, opening # events @ [completed_event 101], None))))"

subsection \<open>\<open>execute\<close>\<close>

definition gateway_headers :: "string \<Rightarrow> (string \<times> string) list \<Rightarrow> (string \<times> string) list" where
  "gateway_headers token headers =
     AList.update ''cookie'' (''mc_token_5476='' @ token) (AList.update ''authorization'' (''Bearer '' @ token) headers)"

definition loopback_execute :: "'w loopback_env \<Rightarrow> string \<Rightarrow> string \<Rightarrow> (string \<times> json) list \<Rightarrow> 'w loopback
    \<Rightarrow> 'w loopback \<times> tunnel_event list \<times> adapter_error option" where
  "loopback_execute en operation r payload s =
     (if operation = ''kirocrew.ws.send''
      then (case tunnel_send en payload s of
          (s, Inl e) \<Rightarrow> (s, [], Some e)
        | (s, Inr _) \<Rightarrow> (s, [(''request.completed'', [(''delivered'', JBool True)])], None))
      else if operation = ''kirocrew.ws.close''
      then (case tunnel_close en payload s of
          (s, Inl e) \<Rightarrow> (s, [], Some e)
        | (s, Inr closed) \<Rightarrow> (s, [(''request.completed'', [(''closed'', JBool closed)])], None))
      else if operation \<noteq> ''kirocrew.http''
      then (s, [], Some (AdapterRequestError 400 ''INVALID_MESSAGE'' ''TRANSPORT'' ''The loopback operation is unsupported.'' False))
      else case from_payload payload of
          Inl e \<Rightarrow> (s, [], Some e)
        | Inr q \<Rightarrow>
            (case classify (lr_method q) (lr_path q) of
               Inl e \<Rightarrow> (s, [], Some e)
             | Inr SYNTHETIC \<Rightarrow> (s, synthetic_response (lr_path q), None)
             | Inr UNAVAILABLE \<Rightarrow> (s, [], Some (AdapterRequestError 501 ''FEATURE_UNAVAILABLE_IN_AGENTCORE'' ''KIROCREW''
                 ''This host-native feature is unavailable in AgentCore.'' False))
             | Inr DENIED \<Rightarrow> (s, [], Some (AdapterRequestError 403 ''AUTHORIZATION_FAILED'' ''AUTHORIZATION''
                 ''The upstream route is not permitted.'' False))
             | Inr ALLOWED \<Rightarrow>
                 (case le_token en (lb_world s) of
                    (w, Inl e) \<Rightarrow> (s\<lparr>lb_world := w\<rparr>, [], Some e)
                  | (w, Inr token) \<Rightarrow>
                      let headers = gateway_headers token (lr_headers q) in
                      if lr_transport q = ''websocket'' then loopback_websocket en r q headers (s\<lparr>lb_world := w\<rparr>)
                      else (case loopback_http en q headers w of (w, answer) \<Rightarrow> (s\<lparr>lb_world := w\<rparr>, answer)))))"

text \<open>\<open>fetch_json\<close>: the runtime's own questions to the gateway.\<close>

definition fetch_json :: "'w loopback_env \<Rightarrow> string \<Rightarrow> 'w \<Rightarrow> 'w \<times> (adapter_error, json) result" where
  "fetch_json en path w =
     (case le_token en w of
        (w, Inl e) \<Rightarrow> (w, Inl e)
      | (w, Inr token) \<Rightarrow>
          (case le_request en ''GET'' (LOOPBACK_ORIGIN @ path)
                 [(''authorization'', ''Bearer '' @ token), (''cookie'', ''mc_token_5476='' @ token)] None False w of
             (w, Inl f) \<Rightarrow> (w, Inl (as_raised f))
           | (w, Inr r) \<Rightarrow>
               (w, if hr_status r \<noteq> 200
                   then Inl (TransientBackendError (''Loopback probe answered '' @ dec_int (hr_status r) @ ''.''))
                   else map_sum as_raised id (le_json en r))))"

end
