(* ===== verification/LoopbackProperties.thy ===== *)
theory LoopbackProperties
  imports Loopback
begin

text \<open>
  What the tunnel guarantees: which requests reach the gateway, that a body arrives whole or not as
  completed, and that a batch of frames is sent in order or not at all.
\<close>

subsection \<open>What reaches the gateway\<close>

definition path_after :: "string \<Rightarrow> string \<Rightarrow> string option" where
  "path_after origin url = (if starts_with url origin then Some (drop (length origin) url) else None)"

definition forwarded_headers :: "(string \<times> string) list \<Rightarrow> bool" where
  "forwarded_headers headers =
     list_all (\<lambda>kv. fst kv \<in> set SAFE_REQUEST_HEADERS \<union> {''authorization'', ''cookie''}) headers"

definition may_request :: "string \<Rightarrow> string \<Rightarrow> (string \<times> string) list \<Rightarrow> bool" where
  "may_request method url headers =
     (forwarded_headers headers \<and>
      (case path_after LOOPBACK_ORIGIN url of None \<Rightarrow> False | Some path \<Rightarrow> classify method path = Inr ALLOWED))"

definition may_connect :: "string \<Rightarrow> (string \<times> string) list \<Rightarrow> bool" where
  "may_connect url headers =
     (forwarded_headers headers \<and>
      (case path_after ''ws://127.0.0.1:5476'' url of None \<Rightarrow> False | Some path \<Rightarrow> classify [] path = Inr ALLOWED))"

text \<open>A session that breaks on every other request.\<close>

definition guarded :: "session_failure \<Rightarrow> 'w loopback_env \<Rightarrow> 'w loopback_env" where
  "guarded broken en = en\<lparr>
     le_request := (\<lambda>method url headers body sse w.
       if may_request method url headers then le_request en method url headers body sse w else (w, Inl broken)),
     le_connect := (\<lambda>url headers r w.
       if may_connect url headers then le_connect en url headers r w else (w, Inl broken))\<rparr>"

lemma guarded_simps [simp]:
  "le_token (guarded broken en) = le_token en" "le_send (guarded broken en) = le_send en"
  "le_close (guarded broken en) = le_close en" "le_closed (guarded broken en) = le_closed en"
  by (simp_all add: guarded_def)

lemma guarded_request: "may_request method url headers \<Longrightarrow>
    le_request (guarded broken en) method url headers body sse w = le_request en method url headers body sse w"
  by (simp add: guarded_def)

lemma guarded_connect: "may_connect url headers \<Longrightarrow>
    le_connect (guarded broken en) url headers r w = le_connect en url headers r w"
  by (simp add: guarded_def)

lemma path_after_append [simp]: "path_after origin (origin @ path) = Some path"
  by (simp add: path_after_def starts_with_def)

lemma guarded_send_frames [simp]: "send_frames (guarded broken en) t fs w = send_frames en t fs w"
  by (induction fs arbitrary: w) simp_all

lemma guarded_tunnel_send [simp]: "tunnel_send (guarded broken en) payload s = tunnel_send en payload s"
  unfolding tunnel_send_def guarded_simps guarded_send_frames ..

lemma guarded_tunnel_close [simp]: "tunnel_close (guarded broken en) payload s = tunnel_close en payload s"
  unfolding tunnel_close_def guarded_simps ..

lemma update_keys:
  assumes "\<forall>kv\<in>set xs. P (fst kv)" "P k"
  shows "\<forall>kv\<in>set (AList.update k v xs). P (fst kv)"
proof -
  have "fst ` set (AList.update k v xs) = insert k (fst ` set xs)" by (simp add: dom_update)
  with assms show ?thesis by (metis (no_types, lifting) image_iff insert_iff)
qed

lemma keep_safe_keys: "(k, v) \<in> set (keep_safe safe headers) \<Longrightarrow> k \<in> set safe"
proof -
  have "\<forall>kv\<in>set (fold (\<lambda>(k, v) kept. if str_lower k \<in> set safe then AList.update (str_lower k) v kept else kept) headers kept).
      fst kv \<in> set safe" if "\<forall>kv\<in>set kept. fst kv \<in> set safe" for kept
    using that
  proof (induction headers arbitrary: kept)
    case (Cons h headers)
    obtain a b where "h = (a, b)" by fastforce
    moreover have "\<forall>kv\<in>set (AList.update a' b kept). fst kv \<in> set safe" if "a' \<in> set safe" for a'
      using Cons.prems that by (intro update_keys) auto
    ultimately show ?case using Cons.prems Cons.IH [of kept] Cons.IH [of "AList.update (str_lower a) b kept"] by simp
  qed simp
  from this [of "[]"] show "(k, v) \<in> set (keep_safe safe headers) \<Longrightarrow> k \<in> set safe" unfolding keep_safe_def by fastforce
qed

lemma forwarded_gateway_headers:
  assumes "\<forall>kv\<in>set headers. fst kv \<in> set SAFE_REQUEST_HEADERS"
  shows "forwarded_headers (gateway_headers token headers)"
  unfolding forwarded_headers_def gateway_headers_def list_all_iff
  using assms by (intro update_keys) auto

lemma forwarded_fallback_headers: "forwarded_headers headers \<Longrightarrow> forwarded_headers (fallback_headers headers)"
  unfolding forwarded_headers_def fallback_headers_def list_all_iff
  by (intro update_keys) (auto simp: SAFE_REQUEST_HEADERS_def)

lemma from_payload_headers: "from_payload payload = Inr q \<Longrightarrow> \<forall>kv\<in>set (lr_headers q). fst kv \<in> set SAFE_REQUEST_HEADERS"
  by (auto simp: from_payload_def split: json.splits if_splits option.splits dest: keep_safe_keys)

lemma pin_route_allowed: "classify ''PATCH'' ''/api/config/kirocrew'' = Inr ALLOWED"
  by code_simp

lemma no_synthetic_method: "\<not> list_ex (\<lambda>rule. rule_matches rule (str_upper []) path) SYNTHETIC_RULES"
  by (simp add: rule_matches_def SYNTHETIC_RULES_def str_upper_def)

lemma allowed_any_method: "classify method path = Inr ALLOWED \<Longrightarrow> classify [] path = Inr ALLOWED"
  unfolding classify_def Let_def using no_synthetic_method
  by (cases "urlsplit path") (simp_all only: option.case sum.distinct disposition.distinct sum.inject if_False split: if_split_asm)

lemma guarded_http:
  assumes "may_request (lr_method q) (LOOPBACK_ORIGIN @ lr_path q) headers"
  shows "loopback_http (guarded broken en) q headers w = loopback_http en q headers w"
proof -
  have "may_request ''PATCH'' (LOOPBACK_ORIGIN @ ''/api/config/kirocrew'') (fallback_headers headers)"
    using assms pin_route_allowed by (simp add: may_request_def forwarded_fallback_headers)
  note pin = guarded_request [OF this]
  show ?thesis unfolding loopback_http_def guarded_request [OF assms] pin ..
qed

lemma guarded_websocket:
  assumes "may_connect (''ws://127.0.0.1:5476'' @ lr_path q) headers"
  shows "loopback_websocket (guarded broken en) r q headers s = loopback_websocket en r q headers s"
  unfolding loopback_websocket_def guarded_connect [OF assms] guarded_simps guarded_send_frames ..

text \<open>
  Only routes the policy allows reach the gateway, with none of the caller's headers but
  the harmless ones: whatever the operation and its payload, a session that breaks on every
  request or connection of another path or with another header gives the same answer.
\<close>

theorem only_allowed_routes:
  "loopback_execute (guarded broken en) operation r payload s = loopback_execute en operation r payload s"
proof (cases "\<exists>q. operation = ''kirocrew.http'' \<and> from_payload payload = Inr q \<and> classify (lr_method q) (lr_path q) = Inr ALLOWED")
  case True
  then obtain q where q: "operation = ''kirocrew.http''" "from_payload payload = Inr q"
    "classify (lr_method q) (lr_path q) = Inr ALLOWED" by blast
  have h: "forwarded_headers (gateway_headers token (lr_headers q))" for token
    using from_payload_headers [OF q(2)] by (rule forwarded_gateway_headers)
  have "may_request (lr_method q) (LOOPBACK_ORIGIN @ lr_path q) (gateway_headers token (lr_headers q))" for token
    using h q(3) by (simp add: may_request_def)
  note http = guarded_http [OF this]
  have "may_connect (''ws://127.0.0.1:5476'' @ lr_path q) (gateway_headers token (lr_headers q))" for token
    unfolding may_connect_def using h allowed_any_method [OF q(3)] by (simp only: path_after_append option.case simp_thms)
  note ws = guarded_websocket [OF this]
  show ?thesis 
    unfolding loopback_execute_def q Let_def guarded_simps guarded_tunnel_send guarded_tunnel_close sum.case http ws
    by (simp add: q(3))
next
  case False
  then show ?thesis
    unfolding loopback_execute_def by (auto simp: Let_def split: sum.splits disposition.splits)
qed

text \<open>The same path with a percent sign is not the one the policy denies; the client then sends the denied one.\<close>

theorem encoded_path_not_denied:
  "classify ''GET'' ''/api/token/local'' = Inr DENIED \<and> classify ''GET'' ''/api/%74oken/local'' = Inr ALLOWED"
  by code_simp

subsection \<open>What comes back\<close>

definition event_headers :: "tunnel_event \<Rightarrow> (string \<times> json) list" where
  "event_headers ev = (case get_key (snd ev) ''headers'' of JObj hs \<Rightarrow> hs | _ \<Rightarrow> [])"

definition event_bytes :: "tunnel_event \<Rightarrow> string" where
  "event_bytes ev = (case get_key (snd ev) ''data'' of JStr t \<Rightarrow> (case unbase64 t of Some b \<Rightarrow> b | None \<Rightarrow> []) | _ \<Rightarrow> [])"

definition harmless :: "tunnel_event \<Rightarrow> bool" where
  "harmless ev = (\<forall>k \<in> fst ` set (event_headers ev). k \<in> set SAFE_RESPONSE_HEADERS)"

lemma event_bytes_simps [simp]:
  "event_bytes (delta_event t b) = b" "event_bytes (completed_event st) = []" "event_bytes (response_head t r) = []"
  by (simp_all add: event_bytes_def delta_event_def completed_event_def response_head_def accepted_event_def)

lemma harmless_simps [simp]:
  "harmless (delta_event t b)" "harmless (completed_event st)"
  by (simp_all add: harmless_def event_headers_def delta_event_def completed_event_def)

lemma harmless_head [simp]: "harmless (response_head t r)"
  by (auto simp: harmless_def event_headers_def response_head_def accepted_event_def dest: keep_safe_keys)

lemma harmless_json [simp]: "harmless (accepted_event c [(''content-type'', v)] st t)"
  by (simp add: harmless_def event_headers_def accepted_event_def SAFE_RESPONSE_HEADERS_def)

lemma stream_body_harmless: "stream_body t n chunks f = (events, e) \<Longrightarrow> list_all harmless events"
  by (induction chunks arbitrary: n events e) (auto split: if_splits simp: apfst_def map_prod_def split: prod.splits)

lemma deliver_harmless: "deliver t r = (events, e) \<Longrightarrow> list_all harmless events"
  by (auto simp: deliver_def split: if_splits sum.splits prod.splits option.splits dest: stream_body_harmless)

lemma stream_body_whole:
  "stream_body t n chunks f = (events, None) \<Longrightarrow>
     concat (map event_bytes events) = concat chunks \<and> f = None \<and>
     (chunks \<noteq> [] \<longrightarrow> n + length (concat chunks) \<le> MAX_LOOPBACK_RESPONSE_BYTES)"
proof (induction chunks arbitrary: n events)
  case (Cons c chunks)
  then obtain evs where "stream_body t (n + length c) chunks f = (evs, None)" "events = delta_event t c # evs"
    "n + length c \<le> MAX_LOOPBACK_RESPONSE_BYTES" by (auto split: if_splits prod.splits simp: apfst_def map_prod_def)
  with Cons.IH [OF this(1)] show ?case by (cases chunks) auto
qed simp

text \<open>
  A body arrives whole or is not reported as completed: when a request that is no model pin ends
  without an error, the data of its events put together is the body the gateway sent, at most
  8 MiB, the last event carries its status, and no header but the harmless ones came along.
\<close>

theorem response_arrives_whole:
  assumes "loopback_http en q headers w = (w', events, None)" "template_model_pin q = Inr None"
  shows "\<exists>r. le_request en (lr_method q) (LOOPBACK_ORIGIN @ lr_path q) headers (if lr_body q = [] then None else Some (lr_body q))
      (lr_transport q = ''sse'') w = (w', Inr r) \<and> list_all harmless events \<and> last events = completed_event (hr_status r) \<and>
    (if hr_status r = 503 then is_application_response (concat (map event_bytes events))
     else hr_failure r = None \<and> concat (map event_bytes events) = concat (hr_chunks r) \<and>
       length (concat (hr_chunks r)) \<le> MAX_LOOPBACK_RESPONSE_BYTES)"
proof -
  obtain w1 a where req: "le_request en (lr_method q) (LOOPBACK_ORIGIN @ lr_path q) headers
      (if lr_body q = [] then None else Some (lr_body q)) (lr_transport q = ''sse'') w = (w1, a)" by fastforce
  from assms req obtain r where r: "a = Inr r" "w1 = w'" "deliver (lr_transport q) r = (events, None)"
    by (auto simp: loopback_http_def split: sum.splits if_splits)
  from deliver_harmless [OF r(3)] have harmless: "list_all harmless events" .
  show ?thesis
  proof (cases "hr_status r = 503")
    case True
    with r(3) obtain body where "bounded_body [] (hr_chunks r) (hr_failure r) = Inr body" "is_application_response body"
      "events = [response_head (lr_transport q) r, delta_event (lr_transport q) body, completed_event (hr_status r)]"
      by (auto simp: deliver_def split: sum.splits if_splits)
    with True req r harmless show ?thesis by auto
  next
    case False
    with r(3) obtain deltas where d: "stream_body (lr_transport q) 0 (hr_chunks r) (hr_failure r) = (deltas, None)"
      "events = response_head (lr_transport q) r # deltas @ [completed_event (hr_status r)]"
      by (auto simp: deliver_def split: prod.splits option.splits)
    from stream_body_whole [OF d(1)] d(2) have "concat (map event_bytes events) = concat (hr_chunks r)" "hr_failure r = None"
      "length (concat (hr_chunks r)) \<le> MAX_LOOPBACK_RESPONSE_BYTES" by (cases "hr_chunks r", auto)
    with False req r harmless d(2) show ?thesis by auto
  qed
qed

subsection \<open>Frames into a tunnel\<close>

definition frame_bytes :: "tunnel_frame \<Rightarrow> nat" where
  "frame_bytes f = (case f of TextFrame t \<Rightarrow> length t | BytesFrame b \<Rightarrow> length b)"

lemma b64_decode_length: "b64_decode s = Some ns \<Longrightarrow> length ns \<le> length s"
  by (induction s arbitrary: ns rule: b64_decode.induct)
    (fastforce split: if_splits option.splits bind_splits)+

lemma unbase64_length: "unbase64 s = Some b \<Longrightarrow> length b \<le> length s"
  by (auto simp: unbase64_def split: if_splits dest: b64_decode_length)

lemma decode_frame_length: "decode_frame data encoding = Inr f \<Longrightarrow> frame_bytes f \<le> data_length data"
  by (auto simp: decode_frame_def frame_bytes_def data_length_def dest: unbase64_length
      split: json.splits if_splits option.splits)

lemma map_sum_Inr: "map_sum id f r = Inr y \<longleftrightarrow> (\<exists>x. r = Inr x \<and> y = f x)"
  by (cases r) auto

lemma decode_frames_bound:
  "decode_frames seen items = Inr frames \<Longrightarrow>
     length frames = length items \<and> (items \<noteq> [] \<longrightarrow> seen + sum_list (map frame_bytes frames) \<le> MAX_LOOPBACK_BODY_BYTES)"
proof (induction items arbitrary: seen frames)
  case (Cons item items)
  from Cons.prems obtain v f fs where v: "item = JObj v" "seen + data_length (get_key v ''data'') \<le> MAX_LOOPBACK_BODY_BYTES"
    "decode_frame (get_key v ''data'') (get_default v ''encoding'' (JStr ''utf8'')) = Inr f"
    "decode_frames (seen + data_length (get_key v ''data'')) items = Inr fs" "frames = f # fs"
    by (auto simp: Let_def map_sum_Inr split: json.splits if_splits sum.splits)
  from Cons.IH [OF v(4)] decode_frame_length [OF v(3)] v(2,5) show ?case by (cases items) auto
qed simp

lemma tunnel_frames_bound:
  assumes "tunnel_frames payload = Inr frames"
  shows "frames \<noteq> [] \<and> length frames \<le> MAX_TUNNEL_BATCH_FRAMES \<and> sum_list (map frame_bytes frames) \<le> MAX_LOOPBACK_BODY_BYTES"
proof -
  from assms obtain items where "decode_frames 0 items = Inr frames" "items \<noteq> []" "length items \<le> MAX_TUNNEL_BATCH_FRAMES"
    unfolding tunnel_frames_def by (cases "get_key payload ''frames''") (auto simp: MAX_TUNNEL_BATCH_FRAMES_def split: if_splits simp del: decode_frames.simps)
  with decode_frames_bound [OF this(1)] show ?thesis by (cases frames) auto
qed

lemma send_frames_in_order:
  assumes "\<forall>t f w. \<exists>w'. le_send en t f w = (w', Inr ()) \<and> sent w' = sent w @ [(t, f)]"
  shows "\<exists>w'. send_frames en tunnel frames w = (w', Inr ()) \<and> sent w' = sent w @ map (Pair tunnel) frames"
proof (induction frames arbitrary: w)
  case (Cons f frames)
  from assms obtain w1 where "le_send en tunnel f w = (w1, Inr ())" "sent w1 = sent w @ [(tunnel, f)]" by blast
  moreover from Cons.IH [of w1] obtain w2 where "send_frames en tunnel frames w1 = (w2, Inr ())"
    "sent w2 = sent w1 @ map (Pair tunnel) frames" by blast
  ultimately show ?case by (intro exI [of _ w2]) simp
qed simp

text \<open>
  A batch of frames goes into the tunnel whole and in order, at most 256 frames of at most 1 MiB
  together, or not at all: over a socket that takes what it is given, a refused batch leaves
  everything as it was, and a batch that is taken was sent exactly as it was decoded.
\<close>

theorem tunnel_batch_whole:
  assumes "\<forall>t f w. \<exists>w'. le_send en t f w = (w', Inr ()) \<and> sent w' = sent w @ [(t, f)]"
    and "tunnel_send en payload s = (s', r)"
  shows "(\<exists>e. r = Inl e \<and> s' = s) \<or>
    (\<exists>tunnel frames. get_key payload ''tunnelId'' = JStr tunnel \<and> tunnel_frames payload = Inr frames \<and> r = Inr () \<and>
       tunnel \<in> set (lb_tunnels s) \<and> sent (lb_world s') = sent (lb_world s) @ map (Pair tunnel) frames \<and>
       length frames \<le> MAX_TUNNEL_BATCH_FRAMES \<and> sum_list (map frame_bytes frames) \<le> MAX_LOOPBACK_BODY_BYTES)"
proof (cases "\<exists>tunnel frames. get_key payload ''tunnelId'' = JStr tunnel \<and> tunnel_frames payload = Inr frames \<and>
    tunnel \<in> set (lb_tunnels s) \<and> \<not> le_closed en tunnel (lb_world s)")
  case True
  then obtain tunnel frames where t: "get_key payload ''tunnelId'' = JStr tunnel" "tunnel_frames payload = Inr frames"
    "tunnel \<in> set (lb_tunnels s)" "\<not> le_closed en tunnel (lb_world s)" by blast
  obtain w' where w: "send_frames en tunnel frames (lb_world s) = (w', Inr ())"
    "sent w' = sent (lb_world s) @ map (Pair tunnel) frames" using send_frames_in_order [OF assms(1)] by blast
  from assms(2) t w(1) have "r = Inr ()" "s' = s\<lparr>lb_world := w'\<rparr>" by (simp_all add: tunnel_send_def)
  with t w(2) tunnel_frames_bound [OF t(2)] show ?thesis by (intro disjI2 exI [of _ tunnel] exI [of _ frames]) simp
next
  case False
  with assms(2) show ?thesis by (auto simp: tunnel_send_def split: json.splits sum.splits if_splits)
qed

subsection \<open>Witnesses\<close>

definition sample_env :: "(string \<times> tunnel_frame) list loopback_env" where
  "sample_env =
     \<lparr> le_token = (\<lambda>w. (w, Inr ''secret'')),
       le_request = (\<lambda>method url headers body sse w. (w, Inr \<lparr> hr_status = 200,
         hr_headers = [(''Content-Type'', ''text/plain''), (''Set-Cookie'', ''secret'')], hr_chunks = [''Hel'', ''lo''], hr_failure = None \<rparr>)),
       le_connect = (\<lambda>url headers r w. (w, Inr ([], None))),
       le_send = (\<lambda>t f w. (w @ [(t, f)], Inr ())),
       le_close = (\<lambda>t w. (w, Inr ())),
       le_closed = (\<lambda>t w. False),
       le_json = (\<lambda>r. Inr JNull) \<rparr>"

definition sample_loopback_request :: loopback_request where
  "sample_loopback_request = \<lparr> lr_method = ''GET'', lr_path = ''/api/status'', lr_transport = ''http'', lr_headers = [], lr_body = [],
     lr_frames = [] \<rparr>"

theorem response_arrives_whole_witness:
  "\<exists>events. loopback_http sample_env sample_loopback_request [] [] = ([], events, None) \<and> concat (map event_bytes events) = ''Hello'' \<and>
     list_all harmless events"
proof -
  have "\<exists>events. loopback_http sample_env sample_loopback_request [] [] = ([], events, None)"
    by (simp add: loopback_http_def sample_env_def sample_loopback_request_def template_model_pin_def deliver_def MAX_LOOPBACK_RESPONSE_BYTES_def)
  then obtain events where e: "loopback_http sample_env sample_loopback_request [] [] = ([], events, None)" ..
  have "template_model_pin sample_loopback_request = Inr None" by (simp add: template_model_pin_def sample_loopback_request_def)
  from response_arrives_whole [OF e this] e show ?thesis by (auto simp: sample_env_def sample_loopback_request_def)
qed

definition sample_batch :: "(string \<times> json) list" where
  "sample_batch = [(''tunnelId'', JStr ''t''),
     (''frames'', JList [JObj [(''data'', JStr ''a'')], JObj [(''data'', JStr ''Yg==''), (''encoding'', JStr ''base64'')]])]"

theorem tunnel_batch_whole_witness:
  "\<exists>s'. tunnel_send sample_env sample_batch \<lparr> lb_tunnels = [''t''], lb_world = [] \<rparr> = (s', Inr ()) \<and>
     lb_world s' = [(''t'', TextFrame ''a''), (''t'', BytesFrame ''b'')]"
proof -
  let ?s = "\<lparr> lb_tunnels = [''t''], lb_world = [] \<rparr> :: (string \<times> tunnel_frame) list loopback"
  have "unbase64 ''Yg=='' = Some ''b''" by code_simp
  then have frames: "tunnel_frames sample_batch = Inr [TextFrame ''a'', BytesFrame ''b'']"
    by (simp add: tunnel_frames_def sample_batch_def MAX_TUNNEL_BATCH_FRAMES_def MAX_LOOPBACK_BODY_BYTES_def decode_frame_def
        get_default_def data_length_def Let_def)
  obtain s' r where sent: "tunnel_send sample_env sample_batch ?s = (s', r)" by fastforce
  have r: "r = Inr ()" using sent unfolding tunnel_send_def frames by (simp add: sample_batch_def sample_env_def)
  have "\<forall>t f w. \<exists>w'. le_send sample_env t f w = (w', Inr ()) \<and> id w' = id w @ [(t, f)]" by (simp add: sample_env_def)
  from tunnel_batch_whole [OF this sent] r frames sent show ?thesis by (auto simp: sample_batch_def)
qed

end
