(* ===== verification/Identity.thy ===== *)
theory Identity
  imports Loopback Paths
begin

text \<open>
  \<open>adapter/identity.py\<close>: sign-in of the Kiro command line.  The command runner is a record of calls
  over a world; the terminal of a device flow is the lines it prints, each with the clock when it is
  read, and the exit code.  The regular expressions are written out; \<open>(?i)\<close> is taken over ASCII
  letters, as none of the patterns meets another one below code point 256.
\<close>

subsection \<open>Scanning text\<close>

text \<open>All matches from left to right; the number counts characters that belong to the last one.\<close>

fun all_matches :: "(string \<Rightarrow> (nat \<times> 'a) option) \<Rightarrow> nat \<Rightarrow> string \<Rightarrow> 'a list" where
  "all_matches here n [] = []"
| "all_matches here (Suc n) (c # cs) = all_matches here n cs"
| "all_matches here 0 (c # cs) =
     (case here (c # cs) of
        None \<Rightarrow> all_matches here 0 cs
      | Some (n, x) \<Rightarrow> x # all_matches here (n - 1) cs)"

definition ascii_lower :: "string \<Rightarrow> string" where
  "ascii_lower s = map (\<lambda>c. if 65 \<le> (of_char c :: nat) \<and> (of_char c :: nat) \<le> 90 then char_of (of_char c + 32 :: nat) else c) s"

text \<open>The text after a word, in any case.\<close>

definition after_word :: "string \<Rightarrow> string \<Rightarrow> string option" where
  "after_word word s = (if starts_with (ascii_lower s) word then Some (drop (length word) s) else None)"

definition skip_spaces :: "string \<Rightarrow> string" where
  "skip_spaces s = dropWhile is_white s"

definition code_char :: "char \<Rightarrow> bool" where
  "code_char c = (ascii_alpha c \<or> is_decimal_char c)"

text \<open>\<open>(?:-[A-Z0-9]{4,})*\<close>: the segments and what is left.\<close>

function code_segments :: "string \<Rightarrow> string \<times> string" where
  "code_segments s =
     (if starts_with s ''-'' \<and> 4 \<le> length (takeWhile code_char (drop 1 s))
      then (let run = takeWhile code_char (drop 1 s); (more, rest) = code_segments (drop (1 + length run) s) in
        (''-'' @ run @ more, rest))
      else ([], s))"
  by pat_completeness auto
termination
proof (relation "measure length")
  fix s run
  assume "starts_with s ''-'' \<and> 4 \<le> length (takeWhile code_char (drop 1 s))"
  then have "s \<noteq> []" by auto
  then show "(drop (1 + length run) s, s) \<in> measure length" by (cases s) auto
qed simp

declare code_segments.simps [simp del]

definition user_code :: "string \<Rightarrow> (string \<times> string) option" where
  "user_code s =
     (let run = takeWhile code_char s; (segments, rest) = code_segments (drop (length run) s) in
      if 4 \<le> length run \<and> segments \<noteq> [] then Some (run @ segments, rest) else None)"

definition code_word :: "string \<Rightarrow> string option" where
  "code_word s =
     (case after_word ''code'' s of
        Some r \<Rightarrow> Some r
      | None \<Rightarrow>
          (case after_word ''user'' s of
             None \<Rightarrow> None
           | Some r \<Rightarrow>
               after_word ''code'' (if r \<noteq> [] \<and> hd r \<in> {CHR ''_'', CHR '' '', CHR ''-''} then tl r else r)))"

text \<open>\<open>(?:is|:|=)?\<close>, taken when the rest then matches, else left out.\<close>

definition code_separator :: "string \<Rightarrow> string option" where
  "code_separator s =
     (if starts_with s '':'' \<or> starts_with s ''='' then Some (drop 1 s) else after_word ''is'' s)"

definition code_here :: "string \<Rightarrow> (nat \<times> string) option" where
  "code_here s =
     (case code_word s of
        None \<Rightarrow> None
      | Some r \<Rightarrow>
          let r = skip_spaces r;
              found = (case code_separator r of Some t \<Rightarrow> user_code (skip_spaces t) | None \<Rightarrow> None) in
          (case (case found of Some m \<Rightarrow> Some m | None \<Rightarrow> user_code r) of
             None \<Rightarrow> None
           | Some (code, rest) \<Rightarrow> Some (length s - length rest, code)))"

definition url_char :: "char \<Rightarrow> bool" where
  "url_char c = (\<not> is_white c \<and> c \<notin> {CHR ''<'', CHR ''>''})"

definition url_here :: "string \<Rightarrow> (nat \<times> string) option" where
  "url_here s =
     (let run = takeWhile url_char (drop 8 s) in
      if starts_with s ''https://'' \<and> run \<noteq> [] then Some (8 + length run, ''https://'' @ run) else None)"

text \<open>The amount and whether it counts minutes.\<close>

definition expiry_unit :: "string \<Rightarrow> bool option" where
  "expiry_unit s = (if after_word ''second'' s \<noteq> None then Some False
     else if after_word ''minute'' s \<noteq> None then Some True else None)"

definition some_spaces :: "string \<Rightarrow> string option" where
  "some_spaces s = (if s \<noteq> [] \<and> is_white (hd s) then Some (skip_spaces s) else None)"

definition first_word :: "string list \<Rightarrow> string \<Rightarrow> string option" where
  "first_word words s = (case List.map_filter (\<lambda>w. after_word w s) words of [] \<Rightarrow> None | r # _ \<Rightarrow> Some r)"

definition expiry_here :: "string \<Rightarrow> (nat \<times> nat \<times> bool) option" where
  "expiry_here s = do {
     r \<leftarrow> first_word [''expires'', ''expire'', ''valid''] s;
     r \<leftarrow> some_spaces r;
     r \<leftarrow> first_word [''in'', ''after''] r;
     r \<leftarrow> some_spaces r;
     let ds = takeWhile is_decimal_char r;
     if ds = [] \<or> 4 < length ds then None
     else do {
       minutes \<leftarrow> expiry_unit (skip_spaces (drop (length ds) r));
       Some (1, digits_of ds, minutes)}}"

subsection \<open>Sign-in\<close>

datatype auth_state = AUTHENTICATED | REQUIRED | EXPIRED | FAILED

fun auth_text :: "auth_state \<Rightarrow> string" where
  "auth_text AUTHENTICATED = ''authenticated''"
| "auth_text REQUIRED = ''required''"
| "auth_text EXPIRED = ''expired''"
| "auth_text FAILED = ''failed''"

record auth_status =
  as_state :: auth_state
  as_interactive :: bool

definition status_payload :: "auth_status \<Rightarrow> (string \<times> json) list" where
  "status_payload s = [(''interactiveSupported'', JBool (as_interactive s)), (''state'', JStr (auth_text (as_state s)))]"

record device_authorization =
  da_url :: string
  da_code :: string
  da_expires :: time

definition authorization_payload :: "device_authorization \<Rightarrow> (string \<times> json) list" where
  "authorization_payload d = [(''expiresAt'', JStr (timestamp (da_expires d))), (''userCode'', JStr (da_code d)),
     (''verificationUrl'', JStr (da_url d))]"

record organization_login =
  ol_start_url :: string
  ol_region :: string

definition lower_letter :: "char \<Rightarrow> bool" where
  "lower_letter c = (97 \<le> (of_char c :: nat) \<and> (of_char c :: nat) \<le> 122)"

text \<open>\<open>[a-z]{2}(-[a-z]+)+-\d\<close>\<close>

definition region_pattern :: "string \<Rightarrow> bool" where
  "region_pattern s =
     (let parts = split_on (CHR ''-'') s in
      3 \<le> length parts \<and> length (hd parts) = 2 \<and> list_all (\<lambda>p. p \<noteq> [] \<and> list_all lower_letter p) (butlast parts) \<and>
      length (last parts) = 1 \<and> list_all is_decimal_char (last parts))"

definition https_host :: "string \<Rightarrow> (string, bool) result" where
  "https_host url =
     (case urlsplit url of
        None \<Rightarrow> Inl ''Invalid IPv6 URL''
      | Some u \<Rightarrow> Inr (url_scheme u = ''https'' \<and> url_hostname u \<noteq> None))"

definition new_organization_login :: "string \<Rightarrow> string \<Rightarrow> (string, organization_login) result" where
  "new_organization_login start_url region =
     (case https_host start_url of
        Inl e \<Rightarrow> Inl e
      | Inr ok \<Rightarrow>
          if \<not> ok then Inl ''An https Identity Center start URL is required.''
          else if \<not> region_pattern region then Inl ''A valid AWS region is required for SSO login.''
          else Inr \<lparr> ol_start_url = start_url, ol_region = region \<rparr>)"

subsection \<open>The output of a device flow\<close>

record device_parser =
  dp_ttl :: int
  dp_buffer :: string
  dp_authorization :: "device_authorization option"

definition new_parser :: "int \<Rightarrow> (fault, device_parser) result" where
  "new_parser ttl =
     (if ttl \<le> 0 then Inl (Crash (ValueCrash ''Device authorization TTL must be positive.''))
      else Inr \<lparr> dp_ttl = ttl, dp_buffer = [], dp_authorization = None \<rparr>)"

definition fresh_parser :: device_parser where
  "fresh_parser = \<lparr> dp_ttl = 600, dp_buffer = [], dp_authorization = None \<rparr>"

definition strip_end :: "string \<Rightarrow> string \<Rightarrow> string" where
  "strip_end chars s = rev (dropWhile (\<lambda>c. c \<in> set chars) (rev s))"

text \<open>The first address, unless a later one carries the code.\<close>

fun choose_url :: "string option \<Rightarrow> string list \<Rightarrow> (fault, string option) result" where
  "choose_url url [] = Inr url"
| "choose_url url (found # rest) =
     (let candidate = strip_end ''.,);]'' found in
      case https_host candidate of
        Inl e \<Rightarrow> Inl (Crash (ValueCrash e))
      | Inr ok \<Rightarrow>
          if \<not> ok then choose_url url rest
          else if contains candidate ''user_code='' then Inr (Some candidate)
          else choose_url (case url of None \<Rightarrow> Some candidate | Some u \<Rightarrow> Some u) rest)"

definition feed :: "time \<Rightarrow> string \<Rightarrow> device_parser \<Rightarrow> device_parser \<times> (fault, device_authorization option) result" where
  "feed now text p =
     (let buffer = dp_buffer p @ [CHR 0x0A] @ text;
          p = p\<lparr>dp_buffer := drop (length buffer - 8192) buffer\<rparr>;
          codes = all_matches code_here 0 (dp_buffer p) in
      if codes = [] then (p, Inr None)
      else trying p (choose_url None (all_matches url_here 0 (dp_buffer p))) (\<lambda>url.
        (case url of
           None \<Rightarrow> (p, Inr None)
         | Some url \<Rightarrow>
             let code = str_upper (last codes) in
             if (case dp_authorization p of None \<Rightarrow> False | Some d \<Rightarrow> da_code d = code \<and> da_url d = url) then (p, Inr None)
             else
               let span = (case all_matches expiry_here 0 (dp_buffer p) of
                     [] \<Rightarrow> dp_ttl p
                   | (amount, in_minutes) # _ \<Rightarrow> int amount * (if in_minutes then 60 else 1));
                   d = \<lparr> da_url = url, da_code = code, da_expires = now + seconds span \<rparr> in
               (p\<lparr>dp_authorization := Some d\<rparr>, Inr (Some d)))))"

definition flow_expired :: "time \<Rightarrow> device_parser \<Rightarrow> bool" where
  "flow_expired now p = (case dp_authorization p of None \<Rightarrow> False | Some d \<Rightarrow> da_expires d \<le> now)"

subsection \<open>The manager\<close>

text \<open>
  A run of the command line answers its exit code and output, or times out; a terminal is the lines
  printed, each with the clock when it is read, and the exit code, and what is written to it stays
  outside.  \<open>ky_environment\<close> is \<open>os.environ\<close>, \<open>ky_secret\<close> the provider of the API key.
\<close>

datatype command_outcome = Finished int string | TimedOut

record terminal =
  tm_lines :: "(time \<times> string) list"
  tm_exit :: int

record 'w kiro_env =
  ky_environment :: "(string \<times> string) list"
  ky_run :: "string list \<Rightarrow> (string \<times> string) list \<Rightarrow> 'w \<Rightarrow> 'w \<times> command_outcome"
  ky_spawn :: "string list \<Rightarrow> (string \<times> string) list \<Rightarrow> 'w \<Rightarrow> 'w \<times> terminal"
  ky_write :: "string \<Rightarrow> 'w \<Rightarrow> 'w"
  ky_terminate :: "'w \<Rightarrow> 'w"
  ky_secret :: "('w \<Rightarrow> 'w \<times> (fault, string) result) option"
  ky_now :: "'w \<Rightarrow> time"

record identity_config =
  ic_mode :: string
  ic_home :: string
  ic_api_key_home :: string
  ic_executable :: string
  ic_license :: "string option"
  ic_provider :: "string option"
  ic_region :: "string option"
  ic_trusted_tools :: "string list"

definition given :: "string option \<Rightarrow> bool" where
  "given v = (v \<noteq> None \<and> v \<noteq> Some [])"

definition check_identity_config :: "identity_config \<Rightarrow> (fault, unit) result" where
  "check_identity_config ic =
     (let values = [ic_license ic, ic_provider ic, ic_region ic] in
      if ic_mode ic \<notin> {''device_flow'', ''api_key''} \<or> ic_executable ic = []
      then Inl (Crash (ValueCrash ''Kiro identity configuration is invalid.''))
      else if list_ex given values \<and> \<not> list_all given values
      then Inl (Crash (ValueCrash ''Kiro organization login configuration must be complete.''))
      else if ic_license ic \<notin> {None, Some ''pro''}
      then Inl (Crash (ValueCrash ''Organization Device Flow requires a pro license.''))
      else if list_ex (\<lambda>t. t = [] \<or> CHR '','' \<in> set t) (ic_trusted_tools ic)
      then Inl (Crash (ValueCrash ''Trusted tool names are invalid.''))
      else Inr ())"

record 'w kiro_identity =
  id_process :: bool
  id_parser :: device_parser
  id_world :: 'w

definition new_identity :: "'w kiro_env \<Rightarrow> identity_config \<Rightarrow> 'w \<Rightarrow> (fault, 'w kiro_identity) result" where
  "new_identity ky ic w =
     (if ic_mode ic = ''api_key'' \<and> ky_secret ky = None then Inl (Crash (ValueCrash ''API-key mode requires a secret provider.''))
      else if ic_mode ic = ''device_flow'' \<and> ky_secret ky \<noteq> None
      then Inl (Crash (ValueCrash ''Device Flow mode must not receive an API-key provider.''))
      else Inr \<lparr> id_process = False, id_parser = fresh_parser, id_world = w \<rparr>)"

definition credential_names :: "string list" where
  "credential_names = [''AWS_ACCESS_KEY_ID'', ''AWS_SECRET_ACCESS_KEY'', ''AWS_SESSION_TOKEN'', ''KIRO_API_KEY'']"

definition base_environment :: "'w kiro_env \<Rightarrow> (string \<times> string) list" where
  "base_environment ky = filter (\<lambda>kv. fst kv \<notin> set credential_names) (ky_environment ky)"

definition device_environment :: "'w kiro_env \<Rightarrow> identity_config \<Rightarrow> (string \<times> string) list" where
  "device_environment ky ic = AList.delete ''KIRO_API_KEY'' (AList.update ''HOME'' (ic_home ic) (base_environment ky))"

definition api_key_secret :: "'w kiro_env \<Rightarrow> 'w kiro_identity \<Rightarrow> 'w kiro_identity \<times> (fault, string) result" where
  "api_key_secret ky im =
     (case ky_secret ky of
        None \<Rightarrow> (im, Inl (Crash (AttributeErr ''get_secret'')))
      | Some get \<Rightarrow> map_prod (\<lambda>w. im\<lparr>id_world := w\<rparr>) id (get (id_world im)))"

text \<open>\<open>\{.*\}\<close> over all lines: from the first brace to the last one.\<close>

definition embedded_object :: "string \<Rightarrow> string option" where
  "embedded_object s =
     (let t = rev (dropWhile (\<lambda>c. c \<noteq> CHR ''}'') (rev (dropWhile (\<lambda>c. c \<noteq> CHR ''{'') s))) in
      if t = [] \<or> CHR ''}'' \<notin> set (dropWhile (\<lambda>c. c \<noteq> CHR ''{'') s) then None else Some t)"

definition whoami_value :: "string \<Rightarrow> json option" where
  "whoami_value out =
     (case json_loads out of
        Some v \<Rightarrow> Some v
      | None \<Rightarrow> Option.bind (embedded_object out) json_loads)"

definition device_status :: "command_outcome \<Rightarrow> auth_state" where
  "device_status outcome =
     (case outcome of
        TimedOut \<Rightarrow> FAILED
      | Finished code out \<Rightarrow>
          if code \<noteq> 0 then REQUIRED
          else (case whoami_value out of Some (JObj []) \<Rightarrow> REQUIRED | _ \<Rightarrow> AUTHENTICATED))"

definition identity_status :: "'w kiro_env \<Rightarrow> identity_config \<Rightarrow> 'w kiro_identity \<Rightarrow> 'w kiro_identity \<times> (fault, auth_status) result" where
  "identity_status ky ic im =
     (if ic_mode ic = ''api_key''
      then then_do (api_key_secret ky im) (\<lambda>im secret.
        (im, Inr \<lparr> as_state = (if secret \<noteq> [] then AUTHENTICATED else FAILED), as_interactive = False \<rparr>))
      else case ky_run ky [ic_executable ic, ''whoami'', ''--format'', ''json''] (device_environment ky ic) (id_world im) of
          (w, outcome) \<Rightarrow> (im\<lparr>id_world := w\<rparr>, Inr \<lparr> as_state = device_status outcome, as_interactive = True \<rparr>))"

definition license_options :: "identity_config \<Rightarrow> organization_login option \<Rightarrow> string list" where
  "license_options ic organization =
     (case organization of
        Some ol \<Rightarrow> [''--license'', ''pro'', ''--identity-provider'', ol_start_url ol, ''--region'', ol_region ol]
      | None \<Rightarrow>
          (case ic_license ic of
             Some l \<Rightarrow> [''--license'', l, ''--identity-provider'', (case ic_provider ic of Some p \<Rightarrow> p | None \<Rightarrow> []),
               ''--region'', (case ic_region ic of Some r \<Rightarrow> r | None \<Rightarrow> [])]
           | None \<Rightarrow> [''--license'', ''free'']))"

fun feed_lines :: "(time \<times> string) list \<Rightarrow> device_parser \<Rightarrow> device_parser \<times> tunnel_event list \<times> fault option" where
  "feed_lines [] p = (p, [], None)"
| "feed_lines ((now, line) # lines) p =
     (case feed now line p of
        (p, Inl e) \<Rightarrow> (p, [], Some e)
      | (p, Inr found) \<Rightarrow>
          (case feed_lines lines p of (p, events, failure) \<Rightarrow>
             (p, (case found of None \<Rightarrow> [] | Some d \<Rightarrow> [(''kiro.auth_required'', authorization_payload d)]) @ events, failure)))"

definition flow_outcome :: "int \<Rightarrow> auth_status \<Rightarrow> bool \<Rightarrow> tunnel_event" where
  "flow_outcome code status expired =
     (if code = 0 \<and> as_state status = AUTHENTICATED then (''kiro.authenticated'', status_payload status)
      else (''kiro.auth_status'',
        status_payload \<lparr> as_state = (if expired then EXPIRED else FAILED), as_interactive = True \<rparr>))"

definition KiroIdentityError :: "string \<Rightarrow> fault" where
  "KiroIdentityError m = Crash (RuntimeErr m)"

definition device_flow_events :: "'w kiro_env \<Rightarrow> identity_config \<Rightarrow> organization_login option \<Rightarrow> 'w kiro_identity
    \<Rightarrow> 'w kiro_identity \<times> tunnel_event list \<times> fault option" where
  "device_flow_events ky ic organization im =
     (if ic_mode ic \<noteq> ''device_flow''
      then (im, [], Some (KiroIdentityError ''Interactive Kiro authentication is unavailable in API-key mode.''))
      else if id_process im then (im, [], Some (KiroIdentityError ''A Kiro Device Flow is already active.''))
      else
        (case ky_spawn ky ([ic_executable ic, ''login'', ''--use-device-flow''] @ license_options ic organization)
               (device_environment ky ic) (id_world im) of
           (w, terminal) \<Rightarrow>
             let w = (if organization = None then w else ky_write ky [CHR 0x0D, CHR 0x0D] w);
                 (parser, events, failure) = feed_lines (tm_lines terminal) fresh_parser;
                 im = im\<lparr> id_world := w, id_parser := parser, id_process := False \<rparr> in
             (case failure of
                Some e \<Rightarrow> (im, events, Some e)
              | None \<Rightarrow>
                  (case identity_status ky ic im of
                     (im, Inl e) \<Rightarrow> (im, events, Some e)
                   | (im, Inr status) \<Rightarrow>
                       (im, events @ [flow_outcome (tm_exit terminal) status (flow_expired (ky_now ky (id_world im)) (id_parser im))],
                        None)))))"

definition cancel_device_flow :: "'w kiro_env \<Rightarrow> 'w kiro_identity \<Rightarrow> 'w kiro_identity \<times> bool" where
  "cancel_device_flow ky im =
     (if id_process im then (im\<lparr> id_world := ky_terminate ky (id_world im), id_process := False \<rparr>, True) else (im, False))"

definition kiro_logout :: "'w kiro_env \<Rightarrow> identity_config \<Rightarrow> 'w kiro_identity \<Rightarrow> 'w kiro_identity \<times> (fault, auth_status) result" where
  "kiro_logout ky ic im =
     (if ic_mode ic \<noteq> ''device_flow'' then (im, Inl (KiroIdentityError ''Kiro logout is unavailable in API-key mode.''))
      else
        let im = fst (cancel_device_flow ky im) in
        (case ky_run ky [ic_executable ic, ''logout''] (device_environment ky ic) (id_world im) of
           (w, TimedOut) \<Rightarrow> (im\<lparr>id_world := w\<rparr>, Inl (Crash (RuntimeErr ''TimeoutExpired'')))
         | (w, Finished _ _) \<Rightarrow> identity_status ky ic (im\<lparr>id_world := w\<rparr>)))"

definition run_headless :: "'w kiro_env \<Rightarrow> identity_config \<Rightarrow> string \<Rightarrow> 'w kiro_identity
    \<Rightarrow> 'w kiro_identity \<times> (fault, command_outcome) result" where
  "run_headless ky ic prompt im =
     (if ic_mode ic \<noteq> ''api_key''
      then (im, Inl (KiroIdentityError ''Headless API-key execution is disabled in Device Flow mode.''))
      else if prompt = [] then (im, Inl (Crash (ValueCrash ''A non-empty headless prompt is required.'')))
      else then_do (api_key_secret ky im) (\<lambda>im secret.
        if secret = [] then (im, Inl (KiroIdentityError ''Kiro API-key authentication is unavailable.''))
        else
          let environment = AList.update ''KIRO_API_KEY'' secret (AList.update ''HOME'' (ic_api_key_home ic) (base_environment ky));
              trusted = concat (case ic_trusted_tools ic of [] \<Rightarrow> [] | t # ts \<Rightarrow> t # map (\<lambda>x. '','' @ x) ts) in
          (case ky_run ky [ic_executable ic, ''chat'', ''--no-interactive'', ''--trust-tools='' @ trusted, ''--require-mcp-startup'', prompt]
                 environment (id_world im) of
             (w, outcome) \<Rightarrow> (im\<lparr>id_world := w\<rparr>,
               case outcome of TimedOut \<Rightarrow> Inl (Crash (RuntimeErr ''TimeoutExpired'')) | Finished _ _ \<Rightarrow> Inr outcome))))"

definition require_interactive_identity :: "'w kiro_env \<Rightarrow> identity_config \<Rightarrow> 'w kiro_identity \<Rightarrow> 'w kiro_identity \<times> (fault, unit) result" where
  "require_interactive_identity ky ic im =
     then_do (identity_status ky ic im) (\<lambda>im status.
       (im, if \<not> as_interactive status then Inl (KiroIdentityError ''Interactive ACP requires Device Flow authentication.'')
            else if as_state status \<noteq> AUTHENTICATED then Inl (KiroIdentityError ''Interactive Kiro authentication is required.'')
            else Inr ()))"

end
