(* ===== verification/IdentityProperties.thy ===== *)
theory IdentityProperties
  imports Identity
begin

text \<open>
  What the sign-in guarantees: which environment the command line gets, which links and codes reach
  the browser, and when a sign-in counts.
\<close>

subsection \<open>Credentials\<close>

definition clean_environment :: "bool \<Rightarrow> (string \<times> string) list \<Rightarrow> bool" where
  "clean_environment with_key env =
     list_all (\<lambda>kv. fst kv \<notin> {''AWS_ACCESS_KEY_ID'', ''AWS_SECRET_ACCESS_KEY'', ''AWS_SESSION_TOKEN''} \<and>
       (fst kv = ''KIRO_API_KEY'' \<longrightarrow> with_key)) env"

text \<open>A runner that breaks when it is handed a credential.\<close>

definition clean_runner :: "terminal \<Rightarrow> bool \<Rightarrow> 'w kiro_env \<Rightarrow> 'w kiro_env" where
  "clean_runner dead with_key ky = ky\<lparr>
     ky_run := (\<lambda>command env w. if clean_environment with_key env then ky_run ky command env w else (w, TimedOut)),
     ky_spawn := (\<lambda>command env w. if clean_environment with_key env then ky_spawn ky command env w else (w, dead))\<rparr>"

lemma clean_runner_simps [simp]:
  "ky_environment (clean_runner d k ky) = ky_environment ky" "ky_write (clean_runner d k ky) = ky_write ky"
  "ky_terminate (clean_runner d k ky) = ky_terminate ky" "ky_secret (clean_runner d k ky) = ky_secret ky"
  "ky_now (clean_runner d k ky) = ky_now ky" "base_environment (clean_runner d k ky) = base_environment ky"
  "device_environment (clean_runner d k ky) ic = device_environment ky ic"
  "api_key_secret (clean_runner d k ky) im = api_key_secret ky im"
  "cancel_device_flow (clean_runner d k ky) im = cancel_device_flow ky im"
  by (simp_all add: clean_runner_def base_environment_def device_environment_def api_key_secret_def cancel_device_flow_def)

lemma update_entries: "\<forall>kv\<in>set (AList.update k v xs). fst kv = k \<or> fst kv \<in> fst ` set xs"
proof
  fix kv assume "kv \<in> set (AList.update k v xs)"
  then have "fst kv \<in> fst ` set (AList.update k v xs)" by simp
  then show "fst kv = k \<or> fst kv \<in> fst ` set xs" by (simp add: dom_update)
qed

lemma base_clean: "k \<in> fst ` set (base_environment ky) \<Longrightarrow> k \<notin> set credential_names"
  by (auto simp: base_environment_def)

lemma clean_keys:
  assumes "\<forall>k\<in>fst ` set env. k \<in> {''KIRO_API_KEY'', ''HOME''} \<and> with_key \<or> k = ''HOME'' \<or> k \<notin> set credential_names"
  shows "clean_environment with_key env"
  unfolding clean_environment_def list_all_iff
proof
  fix kv assume "kv \<in> set env"
  with assms have "fst kv \<in> {''KIRO_API_KEY'', ''HOME''} \<and> with_key \<or> fst kv = ''HOME'' \<or> fst kv \<notin> set credential_names" by blast
  then show "fst kv \<notin> {''AWS_ACCESS_KEY_ID'', ''AWS_SECRET_ACCESS_KEY'', ''AWS_SESSION_TOKEN''} \<and> (fst kv = ''KIRO_API_KEY'' \<longrightarrow> with_key)"
    by (auto simp: credential_names_def)
qed

lemma device_clean: "clean_environment with_key (device_environment ky ic)"
proof (rule clean_keys)
  have "fst ` set (device_environment ky ic) \<subseteq> insert ''HOME'' (fst ` set (base_environment ky))"
  proof -
    have "fst ` set (filter P xs) \<subseteq> fst ` set xs" for P and xs :: "(string \<times> string) list" by auto
    from this [of _ "AList.update ''HOME'' (ic_home ic) (base_environment ky)"]
    show ?thesis unfolding device_environment_def AList.delete_eq dom_update by simp
  qed
  then show "\<forall>k\<in>fst ` set (device_environment ky ic). k \<in> {''KIRO_API_KEY'', ''HOME''} \<and> with_key \<or> k = ''HOME'' \<or> k \<notin> set credential_names"
    using base_clean by blast
qed

lemma headless_clean:
  "clean_environment True (AList.update ''KIRO_API_KEY'' secret (AList.update ''HOME'' home (base_environment ky)))"
proof (rule clean_keys)
  let ?env = "AList.update ''KIRO_API_KEY'' secret (AList.update ''HOME'' home (base_environment ky))"
  have keys: "fst ` set ?env = insert ''KIRO_API_KEY'' (insert ''HOME'' (fst ` set (base_environment ky)))"
    by (simp add: dom_update insert_commute)
  show "\<forall>k\<in>fst ` set ?env. k \<in> {''KIRO_API_KEY'', ''HOME''} \<and> True \<or> k = ''HOME'' \<or> k \<notin> set credential_names"
    unfolding keys using base_clean by blast
qed

lemma clean_run [simp]: "ky_run (clean_runner d k ky) command (device_environment ky ic) = ky_run ky command (device_environment ky ic)"
  by (simp add: clean_runner_def device_clean)

lemma clean_spawn [simp]: "ky_spawn (clean_runner d k ky) command (device_environment ky ic) = ky_spawn ky command (device_environment ky ic)"
  by (simp add: clean_runner_def device_clean)

lemma clean_headless [simp]:
  "ky_run (clean_runner d True ky) command (AList.update ''KIRO_API_KEY'' secret (AList.update ''HOME'' home (base_environment ky))) =
   ky_run ky command (AList.update ''KIRO_API_KEY'' secret (AList.update ''HOME'' home (base_environment ky)))"
  by (simp add: clean_runner_def headless_clean)

lemma clean_status [simp]: "identity_status (clean_runner d k ky) ic im = identity_status ky ic im"
  unfolding identity_status_def clean_runner_simps clean_run ..

text \<open>
  The command line that runs in the sandbox never gets the container's AWS credentials, and an API
  key only for a headless run: a runner that breaks when one is in the environment answers alike.
\<close>

theorem credentials_stay_behind:
  "identity_status (clean_runner d False ky) ic im = identity_status ky ic im \<and>
   device_flow_events (clean_runner d False ky) ic organization im = device_flow_events ky ic organization im \<and>
   kiro_logout (clean_runner d False ky) ic im = kiro_logout ky ic im \<and>
   run_headless (clean_runner d True ky) ic prompt im = run_headless ky ic prompt im"
  unfolding device_flow_events_def kiro_logout_def run_headless_def clean_runner_simps clean_run clean_spawn clean_headless
    clean_status Let_def by (intro conjI refl)

subsection \<open>Links and codes\<close>

lemma choose_url_https:
  "choose_url url found = Inr (Some u) \<Longrightarrow> (\<And>v. url = Some v \<Longrightarrow> https_host v = Inr True) \<Longrightarrow> https_host u = Inr True"
proof (induction found arbitrary: url)
  case (Cons f found)
  let ?c = "strip_end ''.,);]'' f"
  from Cons.prems(1) obtain ok where ok: "https_host ?c = Inr ok" by (auto simp: Let_def split: sum.splits)
  show ?case
  proof (cases "ok \<and> contains ?c ''user_code=''")
    case True
    with Cons.prems(1) ok show ?thesis by (simp add: Let_def)
  next
    case False
    with Cons.prems(1) ok have "choose_url (if ok then (case url of None \<Rightarrow> Some ?c | Some u \<Rightarrow> Some u) else url) found = Inr (Some u)"
      by (auto simp: Let_def split: if_splits)
    from Cons.IH [OF this] Cons.prems(2) ok show ?thesis by (cases ok; cases url) auto
  qed
qed simp

definition plain_code :: "string \<Rightarrow> bool" where
  "plain_code code = list_all (\<lambda>c. code_char c \<or> c = CHR ''-'') code"

lemma takeWhile_all: "list_all P (takeWhile P s)"
  by (induction s) auto

lemma code_segments_plain: "plain_code (fst (code_segments s))"
proof (induction s rule: code_segments.induct)
  case (1 s)
  let ?run = "takeWhile code_char (drop 1 s)"
  have run: "plain_code ?run" using takeWhile_all [of code_char "drop 1 s"] by (auto simp: plain_code_def list_all_iff)
  show ?case
  proof (cases "starts_with s ''-'' \<and> 4 \<le> length ?run")
    case True
    obtain more rest where more: "code_segments (drop (1 + length ?run) s) = (more, rest)" by fastforce
    then have "code_segments s = (''-'' @ ?run @ more, rest)"
      using True by (subst code_segments.simps) (simp add: Let_def)
    with 1 [OF True refl] more run show ?thesis by (simp add: plain_code_def)
  next
    case False
    then show ?thesis by (subst code_segments.simps) (auto simp: plain_code_def)
  qed
qed

lemma user_code_plain: "user_code s = Some (code, rest) \<Longrightarrow> plain_code code"
  using takeWhile_all [of code_char s] code_segments_plain [of "drop (length (takeWhile code_char s)) s"]
  by (auto simp: user_code_def Let_def plain_code_def list_all_iff split: prod.splits if_splits)

lemma code_here_plain: "code_here s = Some (n, code) \<Longrightarrow> plain_code code"
  by (auto simp: code_here_def Let_def split: option.splits dest: user_code_plain)

lemma all_matches_from: "x \<in> set (all_matches here n s) \<Longrightarrow> \<exists>t n. here t = Some (n, x)"
  by (induction here n s rule: all_matches.induct) (auto split: option.splits)

lemma upper_plain: "plain_code code \<Longrightarrow> plain_code (str_upper code)"
proof -
  have "code_char (upper_char c) \<or> upper_char c = CHR ''-''" if "code_char c \<or> c = CHR ''-''" for c
  proof -
    have "(of_char (upper_char c) :: nat) = of_char c \<or> (97 \<le> (of_char c :: nat) \<and> (of_char c :: nat) \<le> 122 \<and>
        (of_char (upper_char c) :: nat) = of_char c - 32)"
      using that by (auto simp: upper_char_def code_char_def ascii_alpha_def is_decimal_char_def Let_def)
    then show ?thesis
      using that by (auto simp: code_char_def ascii_alpha_def is_decimal_char_def Let_def)
  qed
  then show "plain_code code \<Longrightarrow> plain_code (str_upper code)" by (auto simp: plain_code_def str_upper_def list_all_iff)
qed

lemma feed_safe:
  assumes "feed now text p = (p', Inr (Some d))"
  shows "https_host (da_url d) = Inr True \<and> plain_code (da_code d)"
proof -
  define buffer where "buffer = drop (length (dp_buffer p @ [CHR 0x0A] @ text) - 8192) (dp_buffer p @ [CHR 0x0A] @ text)"
  from assms obtain url where u: "choose_url None (all_matches url_here 0 buffer) = Inr (Some url)" "da_url d = url"
    "all_matches code_here 0 buffer \<noteq> []" "da_code d = str_upper (last (all_matches code_here 0 buffer))"
    unfolding feed_def Let_def buffer_def [symmetric]
    by (auto elim!: trying_elim split: if_splits option.splits)
  from choose_url_https [OF u(1)] have "https_host url = Inr True" by simp
  moreover from u(3) have "last (all_matches code_here 0 buffer) \<in> set (all_matches code_here 0 buffer)" by simp
  from all_matches_from [OF this] have "plain_code (last (all_matches code_here 0 buffer))" by (auto dest: code_here_plain)
  ultimately show ?thesis using u(2,4) upper_plain by simp
qed

definition safe_prompt :: "tunnel_event \<Rightarrow> bool" where
  "safe_prompt ev \<longleftrightarrow> (\<exists>url code. get_key (snd ev) ''verificationUrl'' = JStr url \<and> https_host url = Inr True \<and>
     get_key (snd ev) ''userCode'' = JStr code \<and> plain_code code)"

lemma feed_lines_safe:
  "feed_lines lines p = (p', events, failure) \<Longrightarrow> \<forall>ev\<in>set events. fst ev = ''kiro.auth_required'' \<and> safe_prompt ev"
proof (induction lines arbitrary: p p' events failure)
  case (Cons l lines)
  obtain now line where l: "l = (now, line)" by fastforce
  obtain p1 r where f: "feed now line p = (p1, r)" by fastforce
  show ?case
  proof (cases r)
    case (Inl e)
    with Cons.prems l f show ?thesis by simp
  next
    case (Inr found)
    obtain p2 evs fl where rest: "feed_lines lines p1 = (p2, evs, fl)" by (cases "feed_lines lines p1") auto
    with Cons.prems l f Inr have ev: "events = (case found of None \<Rightarrow> [] | Some d \<Rightarrow> [(''kiro.auth_required'', authorization_payload d)]) @ evs"
      by simp
    have "safe_prompt (''kiro.auth_required'', authorization_payload d)" if "found = Some d" for d
      using feed_safe [of now line p p1 d] f Inr that by (simp add: safe_prompt_def authorization_payload_def)
    with ev Cons.IH [OF rest] show ?thesis by (cases found) auto
  qed
qed simp

text \<open>
  What a device flow shows the browser: every prompt carries an https address with a host and a code
  of letters, digits and hyphens, whatever the command line prints; and the flow reports a sign-in
  only when the command ended with exit code 0 and \<open>whoami\<close>, asked afterwards, confirmed it.
\<close>

theorem device_flow_shows:
  assumes "device_flow_events ky ic organization im = (im', events, failure)" "ev \<in> set events"
  shows "(fst ev = ''kiro.auth_required'' \<and> safe_prompt ev) \<or>
    (ev = last events \<and> failure = None \<and>
     (fst ev = ''kiro.authenticated'' \<longrightarrow>
        (\<exists>w terminal im1 status. ky_spawn ky ([ic_executable ic, ''login'', ''--use-device-flow''] @ license_options ic organization)
             (device_environment ky ic) (id_world im) = (w, terminal) \<and> tm_exit terminal = 0 \<and>
           identity_status ky ic im1 = (im', Inr status) \<and> as_state status = AUTHENTICATED)))"
proof -
  from assms have mode: "ic_mode ic = ''device_flow''" "\<not> id_process im"
    by (auto simp: device_flow_events_def split: if_splits)
  obtain w t where t: "ky_spawn ky ([ic_executable ic, ''login'', ''--use-device-flow''] @ license_options ic organization)
      (device_environment ky ic) (id_world im) = (w, t)" by fastforce
  obtain p evs fl where f: "feed_lines (tm_lines t) fresh_parser = (p, evs, fl)" by (cases "feed_lines (tm_lines t) fresh_parser") auto
  let ?w = "if organization = None then w else ky_write ky [CHR 0x0D, CHR 0x0D] w"
  let ?im = "im\<lparr> id_world := ?w, id_parser := p, id_process := False \<rparr>"
  obtain im1 r where s: "identity_status ky ic ?im = (im1, r)" by fastforce
  note safe = feed_lines_safe [OF f]
  show ?thesis
  proof (cases "fl = None \<and> (\<exists>status. r = Inr status)")
    case True
    then obtain status where r: "fl = None" "r = Inr status" by blast
    from assms(1) mode t f s r have ev: "im' = im1" "failure = None"
      "events = evs @ [flow_outcome (tm_exit t) status (flow_expired (ky_now ky (id_world im1)) (id_parser im1))]"
      by (auto simp: device_flow_events_def Let_def)
    show ?thesis
    proof (cases "ev \<in> set evs")
      case True
      with safe show ?thesis by blast
    next
      case False
      with assms(2) ev(3) have "ev = last events" "ev = flow_outcome (tm_exit t) status (flow_expired (ky_now ky (id_world im1)) (id_parser im1))"
        by auto
      moreover from this(2) have "fst ev = ''kiro.authenticated'' \<Longrightarrow> tm_exit t = 0 \<and> as_state status = AUTHENTICATED"
        by (auto simp: flow_outcome_def split: if_splits)
      ultimately show ?thesis using ev t s r by blast
    qed
  next
    case False
    with assms(1) mode t f s have "events = evs"
      by (cases fl; cases r) (auto simp: device_flow_events_def Let_def)
    with assms(2) safe show ?thesis by blast
  qed
qed

subsection \<open>A sign-in\<close>

definition sample_kiro :: "unit kiro_env" where
  "sample_kiro = \<lparr> ky_environment = [(''AWS_SESSION_TOKEN'', ''secret''), (''PATH'', ''/bin'')],
     ky_run = (\<lambda>command env w. (w, Finished 0 [])), ky_spawn = (\<lambda>command env w. (w, \<lparr> tm_lines = [], tm_exit = 0 \<rparr>)),
     ky_write = (\<lambda>data w. w), ky_terminate = (\<lambda>w. w), ky_secret = None, ky_now = (\<lambda>w. 0) \<rparr>"

definition sample_identity :: identity_config where
  "sample_identity = \<lparr> ic_mode = ''device_flow'', ic_home = ''/h'', ic_api_key_home = ''/k'', ic_executable = ''kiro-cli'',
     ic_license = None, ic_provider = None, ic_region = None, ic_trusted_tools = [] \<rparr>"

theorem device_flow_shows_witness:
  "\<exists>im' events ev. device_flow_events sample_kiro sample_identity None \<lparr> id_process = False, id_parser = fresh_parser, id_world = () \<rparr> =
     (im', events, None) \<and> ev \<in> set events \<and> fst ev = ''kiro.authenticated'' \<and> ev = last events"
proof -
  let ?im = "\<lparr> id_process = False, id_parser = fresh_parser, id_world = () \<rparr>"
  have "whoami_value [] = None" by code_simp
  then have "device_status (Finished 0 []) = AUTHENTICATED" by (simp add: device_status_def)
  then have run: "device_flow_events sample_kiro sample_identity None ?im =
      (?im, [(''kiro.authenticated'', status_payload \<lparr> as_state = AUTHENTICATED, as_interactive = True \<rparr>)], None)"
    by (simp add: device_flow_events_def sample_kiro_def sample_identity_def identity_status_def flow_outcome_def Let_def)
  from device_flow_shows [OF run, of "(''kiro.authenticated'', status_payload \<lparr> as_state = AUTHENTICATED, as_interactive = True \<rparr>)"] run
  show ?thesis by auto
qed

end
