(* ===== verification/Spec2Isabelle.thy ===== *)
theory Spec2Isabelle
  imports ControlProperties BrokerProperties WakerProperties RestoreProperties RetentionProperties RemoteProperties AuthProperties AdapterProperties LoopbackProperties IdentityProperties
begin

text \<open>
  A sandbox host on Amazon Bedrock AgentCore: a control plane (Lambda behind API Gateway) that
  starts and stops one sandbox per user, a persistence broker (Lambda) that fences containers
  and hands out checkpoint storage, a waker, and the runtime and adapter in the container.
\<close>

end
